(* ===== verification/HC_Prelude.thy ===== *)
theory HC_Prelude
  imports Complex_Main "HOL-Library.Char_ord" "HOL-Library.List_Lexorder"
begin

text \<open>
  Shared vocabulary of the development: identifiers and time stamps, Python exceptions as
  values of one error type, the result type of every fallible operation, loops that stop
  at the first exception, and tables (lists of rows with a primary key) with the three
  accesses the services make through the SQLAlchemy session: get by key, update by key and
  aggregate over a filter.
\<close>

named_theorems svc_defs \<open>definitions of the guards and projections a service proof unfolds\<close>
named_theorems table_simps \<open>laws of keyed tables\<close>
named_theorems frame_simps \<open>what an operation leaves unchanged\<close>

section \<open>Identifiers, time, exceptions\<close>

text \<open>
  A \<open>uuid.UUID\<close> is a 128 bit number; Python compares UUIDs, and their fixed-width
  hexadecimal \<open>str\<close> form, as these numbers. A \<open>datetime\<close> in UTC is the number of
  microseconds since the epoch.
\<close>

type_synonym uuid = nat
type_synonym datetime = int

text \<open>
  An f-string detail is kept as its template and the values that are interpolated into it,
  so that a detail determines what the code would print without a model of \<open>str()\<close>.
\<close>

datatype arg = AStr string | ADec rat | AId uuid | ANat nat | AInt int

datatype detail = Msg string "arg list"

datatype py_error =
    HTTPException nat detail
  | PriceReferenceUnprovable detail
  | PriceProvenanceMissing detail
  | ExposureOverAllocationError uuid rat rat rat
  | ValueError detail
  | OverflowError
  | StopIteration
  | RuntimeError detail
  | IntegrityError detail

type_synonym 'a result = "py_error + 'a"

abbreviation (input) "HTTP_400 \<equiv> 400 :: nat"
abbreviation (input) "HTTP_403 \<equiv> 403 :: nat"
abbreviation (input) "HTTP_404 \<equiv> 404 :: nat"
abbreviation (input) "HTTP_409 \<equiv> 409 :: nat"
abbreviation (input) "HTTP_422 \<equiv> 422 :: nat"
abbreviation (input) "HTTP_424 \<equiv> 424 :: nat"
abbreviation (input) "HTTP_500 \<equiv> 500 :: nat"

definition http :: "nat \<Rightarrow> string \<Rightarrow> py_error" where
  "http code msg = HTTPException code (Msg msg [])"

definition is_ok :: "'a result \<Rightarrow> bool" where
  "is_ok r = (case r of Inl _ \<Rightarrow> False | Inr _ \<Rightarrow> True)"

lemma is_ok_simps [simp]: "\<not> is_ok (Inl e)" "is_ok (Inr x)"
  by (simp_all add: is_ok_def)

lemma is_okE:
  assumes "is_ok r"
  obtains x where "r = Inr x"
  using assms by (cases r) auto

lemma is_ok_iff: "is_ok r \<longleftrightarrow> (\<exists>x. r = Inr x)"
  by (cases r) auto

text \<open>A statement that may raise, and what follows it; a guard that raises.\<close>

definition and_then :: "'a result \<Rightarrow> ('a \<Rightarrow> 'b result) \<Rightarrow> 'b result" where
  "and_then r f = (case r of Inl e \<Rightarrow> Inl e | Inr x \<Rightarrow> f x)"

definition raise_if :: "bool \<Rightarrow> py_error \<Rightarrow> unit result" where
  "raise_if c e = (if c then Inl e else Inr ())"

lemma and_then_simps [simp]: "and_then (Inl e) f = Inl e" "and_then (Inr x) f = f x"
  by (simp_all add: and_then_def)

lemma and_then_eq_Inr [simp]: "and_then r f = Inr y \<longleftrightarrow> (\<exists>x. r = Inr x \<and> f x = Inr y)"
  by (cases r) auto

lemma and_then_eq_Inl: "and_then r f = Inl e \<longleftrightarrow> r = Inl e \<or> (\<exists>x. r = Inr x \<and> f x = Inl e)"
  by (cases r) auto

lemma raise_if_simps [simp]: "raise_if True e = Inl e" "raise_if False e = Inr ()"
  by (simp_all add: raise_if_def)

lemma raise_if_eq_Inr [simp]: "raise_if c e = Inr u \<longleftrightarrow> \<not> c"
  by (simp add: raise_if_def)

lemma raise_if_eq_Inl [simp]: "raise_if c e = Inl e' \<longleftrightarrow> c \<and> e' = e"
  by (auto simp: raise_if_def)

text \<open>\<open>session.get\<close> followed by \<open>if row is None: raise\<close>.\<close>

definition require :: "'a option \<Rightarrow> py_error \<Rightarrow> 'a result" where
  "require r e = (case r of None \<Rightarrow> Inl e | Some x \<Rightarrow> Inr x)"

lemma require_simps [simp]: "require None e = Inl e" "require (Some x) e = Inr x"
  by (simp_all add: require_def)

lemma require_eq_Inr [simp]: "require r e = Inr x \<longleftrightarrow> r = Some x"
  by (cases r) auto

lemma require_eq_Inl [simp]: "require r e = Inl e' \<longleftrightarrow> r = None \<and> e' = e"
  by (cases r) auto

text \<open>A \<open>for\<close> loop whose body may raise: the first exception ends it.\<close>

fun fold_result :: "('a \<Rightarrow> 's \<Rightarrow> 's result) \<Rightarrow> 'a list \<Rightarrow> 's \<Rightarrow> 's result" where
  "fold_result f [] s = Inr s"
| "fold_result f (x # xs) s = (case f x s of Inl e \<Rightarrow> Inl e | Inr s' \<Rightarrow> fold_result f xs s')"

text \<open>A list comprehension whose element expression may raise.\<close>

fun map_result :: "('a \<Rightarrow> 'b result) \<Rightarrow> 'a list \<Rightarrow> 'b list result" where
  "map_result f [] = Inr []"
| "map_result f (x # xs) =
     (case f x of Inl e \<Rightarrow> Inl e
      | Inr y \<Rightarrow> (case map_result f xs of Inl e \<Rightarrow> Inl e | Inr ys \<Rightarrow> Inr (y # ys)))"

lemma fold_result_append:
  "fold_result f (xs @ ys) s =
     (case fold_result f xs s of Inl e \<Rightarrow> Inl e | Inr s' \<Rightarrow> fold_result f ys s')"
  by (induction xs arbitrary: s) (auto split: sum.split)

text \<open>An invariant of every successful iteration is an invariant of the loop.\<close>

lemma fold_result_invariant:
  assumes "fold_result f xs s = Inr s'" and "P s"
    and "\<And>x s s'. x \<in> set xs \<Longrightarrow> P s \<Longrightarrow> f x s = Inr s' \<Longrightarrow> P s'"
  shows "P s'"
  using assms
proof (induction xs arbitrary: s)
  case Nil
  then show ?case by simp
next
  case (Cons x xs)
  from Cons.prems(1) obtain t where t: "f x s = Inr t" "fold_result f xs t = Inr s'"
    by (auto split: sum.splits)
  have "P t"
    using Cons.prems(3)[of x s t] Cons.prems(2) t(1) by simp
  then show ?case
    using Cons.IH[OF t(2)] Cons.prems(3) by (meson list.set_intros(2))
qed

text \<open>A loop whose body never raises on states of the invariant never raises.\<close>

lemma fold_result_ok:
  assumes "P s"
    and "\<And>x s. x \<in> set xs \<Longrightarrow> P s \<Longrightarrow> \<exists>s'. f x s = Inr s' \<and> P s'"
  shows "\<exists>s'. fold_result f xs s = Inr s' \<and> P s'"
  using assms
proof (induction xs arbitrary: s)
  case Nil
  then show ?case by simp
next
  case (Cons x xs)
  then obtain t where "f x s = Inr t" "P t"
    by (meson list.set_intros(1))
  with Cons.IH[of t] Cons.prems(2) show ?case by simp
qed

lemma map_result_length: "map_result f xs = Inr ys \<Longrightarrow> length ys = length xs"
  by (induction xs arbitrary: ys) (auto split: sum.splits)

lemma map_result_nth:
  "map_result f xs = Inr ys \<Longrightarrow> i < length xs \<Longrightarrow> f (xs ! i) = Inr (ys ! i)"
proof (induction xs arbitrary: ys i)
  case Nil
  then show ?case by simp
next
  case (Cons x xs)
  then show ?case by (cases i) (auto split: sum.splits)
qed

lemma map_result_set:
  assumes "map_result f xs = Inr ys" and "y \<in> set ys"
  shows "\<exists>x \<in> set xs. f x = Inr y"
proof -
  from assms(2) obtain i where i: "i < length ys" "ys ! i = y" by (auto simp: in_set_conv_nth)
  with map_result_length[OF assms(1)] have "i < length xs" by simp
  with map_result_nth[OF assms(1) this] i show ?thesis by (auto intro!: bexI[of _ "xs ! i"])
qed

section \<open>Tables\<close>

definition get_row :: "('r \<Rightarrow> 'k) \<Rightarrow> 'k \<Rightarrow> 'r list \<Rightarrow> 'r option" where
  "get_row key k rows = find (\<lambda>r. key r = k) rows"

definition update_row :: "('r \<Rightarrow> 'k) \<Rightarrow> 'k \<Rightarrow> ('r \<Rightarrow> 'r) \<Rightarrow> 'r list \<Rightarrow> 'r list" where
  "update_row key k f rows = map (\<lambda>r. if key r = k then f r else r) rows"

definition keyed :: "('r \<Rightarrow> 'k) \<Rightarrow> 'r list \<Rightarrow> bool" where
  "keyed key rows \<longleftrightarrow> distinct (map key rows)"

lemma get_row_Nil [simp]: "get_row key k [] = None"
  by (simp add: get_row_def)

lemma get_row_Cons [simp]:
  "get_row key k (r # rows) = (if key r = k then Some r else get_row key k rows)"
  by (simp add: get_row_def)

lemma get_row_SomeD: "get_row key k rows = Some r \<Longrightarrow> r \<in> set rows \<and> key r = k"
  by (induction rows) (auto split: if_splits)

lemma get_row_None_iff: "get_row key k rows = None \<longleftrightarrow> k \<notin> key ` set rows"
  by (induction rows) auto

lemma get_row_append:
  "get_row key k (xs @ ys) =
     (case get_row key k xs of None \<Rightarrow> get_row key k ys | Some r \<Rightarrow> Some r)"
  by (induction xs) auto

lemma get_row_keyed:
  "keyed key rows \<Longrightarrow> r \<in> set rows \<Longrightarrow> get_row key (key r) rows = Some r"
  by (induction rows) (auto simp: keyed_def image_iff)

lemma keyed_inj: "keyed key rows \<Longrightarrow> r \<in> set rows \<Longrightarrow> r' \<in> set rows \<Longrightarrow> key r = key r' \<Longrightarrow> r = r'"
  by (auto simp: keyed_def distinct_map dest: inj_onD)

lemma get_row_update_row [table_simps]:
  assumes "\<And>r. key (f r) = key r"
  shows "get_row key j (update_row key k f rows) =
    (if j = k then map_option f (get_row key j rows) else get_row key j rows)"
  by (induction rows) (auto simp: update_row_def assms)

lemma set_update_row:
  "set (update_row key k f rows) = (\<lambda>r. if key r = k then f r else r) ` set rows"
  by (simp add: update_row_def)

lemma map_key_update_row [table_simps]:
  assumes "\<And>r. key (f r) = key r"
  shows "map key (update_row key k f rows) = map key rows"
  by (induction rows) (auto simp: update_row_def assms)

lemma key_image_update_row [table_simps]:
  assumes "\<And>r. key (f r) = key r"
  shows "key ` set (update_row key k f rows) = key ` set rows"
  using map_key_update_row[of key f k rows, OF assms] by (metis list.set_map)

lemma ball_key_update_row [table_simps]:
  assumes "\<And>r. key (f r) = key r"
  shows "(\<forall>r \<in> set (update_row key k f rows). P (key r)) \<longleftrightarrow> (\<forall>r \<in> set rows. P (key r))"
  using key_image_update_row[of key f k rows, OF assms] by (metis image_iff)

lemma keyed_update_row [table_simps]:
  assumes "\<And>r. key (f r) = key r"
  shows "keyed key (update_row key k f rows) = keyed key rows"
  by (simp add: keyed_def map_key_update_row assms)

lemma keyed_snoc [table_simps]:
  "keyed key (rows @ [r]) \<longleftrightarrow> keyed key rows \<and> key r \<notin> key ` set rows"
  by (auto simp: keyed_def)

lemma update_row_Nil [simp]: "update_row key k f [] = []"
  by (simp add: update_row_def)

lemma update_row_Cons [simp]:
  "update_row key k f (r # rows) = (if key r = k then f r else r) # update_row key k f rows"
  by (simp add: update_row_def)

lemma length_update_row [simp]: "length (update_row key k f rows) = length rows"
  by (simp add: update_row_def)

text \<open>\<open>COALESCE(SUM(col), 0)\<close> over the rows that pass a filter.\<close>

definition sum_where :: "('r \<Rightarrow> bool) \<Rightarrow> ('r \<Rightarrow> rat) \<Rightarrow> 'r list \<Rightarrow> rat" where
  "sum_where p col rows = sum_list (map col (filter p rows))"

lemma sum_where_Nil [simp]: "sum_where p col [] = 0"
  by (simp add: sum_where_def)

lemma sum_where_Cons [simp]:
  "sum_where p col (r # rows) = (if p r then col r + sum_where p col rows else sum_where p col rows)"
  by (simp add: sum_where_def)

lemma sum_where_append [simp]:
  "sum_where p col (xs @ ys) = sum_where p col xs + sum_where p col ys"
  by (simp add: sum_where_def)

lemma sum_where_cong:
  assumes "\<And>r. r \<in> set rows \<Longrightarrow> p r = p' r"
  shows "sum_where p col rows = sum_where p' col rows"
  using assms by (induction rows) auto

lemma sum_where_mono:
  assumes "\<And>r. r \<in> set rows \<Longrightarrow> p r \<Longrightarrow> p' r"
    and "\<And>r. r \<in> set rows \<Longrightarrow> 0 \<le> col r"
  shows "sum_where p col rows \<le> sum_where p' col rows"
  using assms
proof (induction rows)
  case (Cons r rows)
  then have "sum_where p col rows \<le> sum_where p' col rows" by simp
  then show ?case using Cons.prems(1)[of r] Cons.prems(2)[of r] by auto
qed simp

lemma sum_where_none:
  "(\<And>r. r \<in> set rows \<Longrightarrow> \<not> p r) \<Longrightarrow> sum_where p col rows = 0"
  by (induction rows) auto

lemma sum_where_nonneg:
  "(\<And>r. r \<in> set rows \<Longrightarrow> p r \<Longrightarrow> 0 \<le> col r) \<Longrightarrow> 0 \<le> sum_where p col rows"
  by (induction rows) auto

section \<open>Strings\<close>

text \<open>
  \<open>str.strip\<close>, \<open>str.upper\<close> and \<open>str.replace\<close> of one character by nothing, on ASCII
  strings. Whitespace is what \<open>str.isspace\<close> accepts in ASCII.
\<close>

definition is_space :: "char \<Rightarrow> bool" where
  "is_space c \<longleftrightarrow> (let n = of_char c :: nat in n = 32 \<or> (9 \<le> n \<and> n \<le> 13) \<or> (28 \<le> n \<and> n \<le> 31))"

definition lstrip :: "string \<Rightarrow> string" where
  "lstrip s = dropWhile is_space s"

definition strip :: "string \<Rightarrow> string" where
  "strip s = rev (dropWhile is_space (rev (dropWhile is_space s)))"

definition upper_char :: "char \<Rightarrow> char" where
  "upper_char c = (let n = of_char c :: nat in if 97 \<le> n \<and> n \<le> 122 then char_of (n - 32) else c)"

definition upper :: "string \<Rightarrow> string" where
  "upper s = map upper_char s"

lemma upper_char_idem [simp]: "upper_char (upper_char c) = upper_char c"
  by (auto simp: upper_char_def Let_def)

lemma upper_idem [simp]: "upper (upper s) = upper s"
  by (simp add: upper_def)

lemma is_space_upper_char [simp]: "is_space (upper_char c) = is_space c"
  by (auto simp: upper_char_def is_space_def Let_def)

lemma dropWhile_upper: "dropWhile is_space (upper s) = upper (dropWhile is_space s)"
  by (simp add: upper_def dropWhile_map comp_def)

lemma strip_upper: "strip (upper s) = upper (strip s)"
  by (simp add: strip_def dropWhile_upper rev_map [symmetric] upper_def [symmetric])
    (metis dropWhile_upper rev_map upper_def)

lemma strip_idem [simp]: "strip (strip s) = strip s"
proof -
  have *: "dropWhile P (rev (dropWhile P (rev (dropWhile P xs))))
      = rev (dropWhile P (rev (dropWhile P xs)))" for P and xs :: "'b list"
  proof (cases "dropWhile P xs")
    case Nil
    then show ?thesis by (simp only: Nil rev.simps dropWhile.simps)
  next
    case (Cons y ys)
    then have "\<not> P y" by (metis hd_dropWhile list.discI list.sel(1))
    then have "rev (dropWhile P (rev (y # ys))) \<noteq> [] \<and> hd (rev (dropWhile P (rev (y # ys)))) = y"
      by (simp add: dropWhile_append hd_append)
    with \<open>\<not> P y\<close> Cons show ?thesis
      by (metis dropWhile.simps(2) list.collapse)
  qed
  show ?thesis
    by (simp add: strip_def *)
qed

lemma find_append: "find P (xs @ ys) = (case find P xs of None \<Rightarrow> find P ys | Some x \<Rightarrow> Some x)"
  by (induction xs) auto

end
