(* ===== verification/HC_Decimal.thy ===== *)
theory HC_Decimal
  imports HC_Prelude
begin

text \<open>
  \<open>backend/app/core/precision.py\<close>: decimal quantities and their quantisation. A
  \<open>Decimal\<close> is the rational number it denotes, and \<open>+\<close>, \<open>-\<close>, \<open>*\<close> on decimals are
  exact: CPython's 28-digit context rounds no sum or product whose coefficient stays below
  \<open>10^28\<close>, which the \<open>NUMERIC(15,3)\<close> and \<open>NUMERIC(18,6)\<close> columns guarantee for sums and
  for a quantity times a price below \<open>10^10\<close>.
\<close>

type_synonym decimal = rat

section \<open>Rounding half to even\<close>

text \<open>\<open>ROUND_HALF_EVEN\<close> to an integer.\<close>

definition round_half_even :: "rat \<Rightarrow> int" where
  "round_half_even x =
     (let f = \<lfloor>x\<rfloor>; r = x - of_int f
      in if r < 1 / 2 then f else if 1 / 2 < r then f + 1 else if even f then f else f + 1)"

text \<open>\<open>Decimal.quantize(Decimal(10) ** -n, rounding=ROUND_HALF_EVEN)\<close>.\<close>

definition quantize :: "nat \<Rightarrow> decimal \<Rightarrow> decimal" where
  "quantize n x = of_int (round_half_even (x * 10 ^ n)) / 10 ^ n"

abbreviation (input) DECIMAL_ZERO :: decimal where "DECIMAL_ZERO \<equiv> 0"

definition to_decimal :: "decimal option \<Rightarrow> decimal" where
  "to_decimal value = (case value of None \<Rightarrow> DECIMAL_ZERO | Some d \<Rightarrow> d)"

definition MT_NUMERIC_SCALE :: nat where "MT_NUMERIC_SCALE = 3"
definition PRICE_NUMERIC_SCALE :: nat where "PRICE_NUMERIC_SCALE = 6"

definition quantize_mt :: "decimal \<Rightarrow> decimal" where
  "quantize_mt value = quantize 3 value"

definition quantize_price :: "decimal \<Rightarrow> decimal" where
  "quantize_price value = quantize 6 value"

definition quantize_money :: "decimal \<Rightarrow> decimal" where
  "quantize_money value = quantize 6 value"

definition quantize_ratio :: "decimal \<Rightarrow> decimal" where
  "quantize_ratio value = quantize 2 value"

lemmas quantizer_defs = quantize_mt_def quantize_price_def quantize_money_def quantize_ratio_def

text \<open>Evaluation of \<open>\<lfloor>_\<rfloor>\<close> on rational numerals.\<close>

lemma floor_rat_numeral_div [simp]:
  "\<lfloor>numeral a / numeral b :: rat\<rfloor> = numeral a div numeral b"
  by (metis floor_divide_of_int_eq of_int_numeral)

lemma floor_rat_one_div [simp]: "\<lfloor>1 / numeral b :: rat\<rfloor> = 1 div numeral b"
  by (metis floor_divide_of_int_eq of_int_1 of_int_numeral)

lemma floor_rat_minus_numeral_div [simp]:
  "\<lfloor>- (numeral a / numeral b) :: rat\<rfloor> = - numeral a div numeral b"
  by (metis divide_minus_left floor_divide_of_int_eq of_int_neg_numeral of_int_numeral)

lemma floor_rat_minus_one_div [simp]: "\<lfloor>- (1 / numeral b) :: rat\<rfloor> = - 1 div numeral b"
  by (metis divide_minus_left floor_divide_of_int_eq of_int_minus of_int_1 of_int_numeral)

lemma to_decimal_simps [simp]: "to_decimal None = 0" "to_decimal (Some d) = d"
  by (simp_all add: to_decimal_def)

lemma round_half_even_of_int [simp]: "round_half_even (of_int k) = k"
  by (simp add: round_half_even_def)

lemma round_half_even_near: "\<bar>of_int (round_half_even x) - x\<bar> \<le> 1 / 2"
proof -
  have f: "of_int \<lfloor>x\<rfloor> \<le> x" "x < of_int \<lfloor>x\<rfloor> + 1" by linarith+
  consider "x - of_int \<lfloor>x\<rfloor> < 1 / 2" "round_half_even x = \<lfloor>x\<rfloor>"
    | "1 / 2 < x - of_int \<lfloor>x\<rfloor>" "round_half_even x = \<lfloor>x\<rfloor> + 1"
    | "x - of_int \<lfloor>x\<rfloor> = 1 / 2" "round_half_even x = \<lfloor>x\<rfloor> \<or> round_half_even x = \<lfloor>x\<rfloor> + 1"
    unfolding round_half_even_def Let_def by (metis linorder_less_linear)
  then show ?thesis
    by cases (use f in \<open>auto simp: abs_le_iff\<close>)
qed

lemma round_half_even_mono:
  assumes "x \<le> y"
  shows "round_half_even x \<le> round_half_even y"
proof (cases "\<lfloor>x\<rfloor> = \<lfloor>y\<rfloor>")
  case True
  with assms show ?thesis
    by (auto simp: round_half_even_def Let_def)
next
  case False
  with assms have "\<lfloor>x\<rfloor> + 1 \<le> \<lfloor>y\<rfloor>"
    using floor_mono[OF assms] by linarith
  moreover have "round_half_even x \<le> \<lfloor>x\<rfloor> + 1" "\<lfloor>y\<rfloor> \<le> round_half_even y"
    by (auto simp: round_half_even_def Let_def)
  ultimately show ?thesis by linarith
qed

text \<open>A tie goes to the even neighbour; anything else to the nearest integer.\<close>

lemma round_half_even_tie:
  "x - of_int \<lfloor>x\<rfloor> = 1 / 2 \<Longrightarrow> even (round_half_even x)"
  by (auto simp: round_half_even_def Let_def)

lemma round_half_even_uminus: "round_half_even (- x) = - round_half_even x"
proof (cases "x = of_int \<lfloor>x\<rfloor>")
  case True
  then show ?thesis by (metis of_int_minus round_half_even_of_int)
next
  case False
  then have f: "\<lfloor>- x\<rfloor> = - \<lfloor>x\<rfloor> - 1"
    by linarith
  show ?thesis
    by (auto simp: round_half_even_def Let_def f)
qed

lemma quantize_uminus: "quantize n (- x) = - quantize n x"
  by (simp add: quantize_def round_half_even_uminus)

section \<open>The contract of a quantiser\<close>

text \<open>
  What the services rely on when they compare quantised amounts: the results lie on a grid
  of multiples of the unit, at most half a unit away, monotonically, and grid points are
  fixed. Everything the capacity checks need follows from these laws alone.
\<close>

locale quantizer =
  fixes grid_unit :: rat and q :: "rat \<Rightarrow> rat"
  assumes grid_unit_pos: "0 < grid_unit"
    and q_grid: "\<exists>k. q x = of_int k * grid_unit"
    and q_near: "\<bar>q x - x\<bar> \<le> grid_unit / 2"
    and q_mono: "x \<le> y \<Longrightarrow> q x \<le> q y"
    and q_fix: "q (of_int k * grid_unit) = of_int k * grid_unit"
begin

lemma q_idem [simp]: "q (q x) = q x"
  by (metis q_grid q_fix)

lemma q_zero [simp]: "q 0 = 0"
  using q_fix[of 0] by simp

lemma q_add [simp]: "q (q x + q y) = q x + q y"
proof -
  obtain j k where "q x = of_int j * grid_unit" "q y = of_int k * grid_unit"
    by (meson q_grid)
  then have "q x + q y = of_int (j + k) * grid_unit"
    by (simp add: algebra_simps)
  then show ?thesis by (metis q_fix)
qed

lemma q_diff [simp]: "q (q x - q y) = q x - q y"
proof -
  obtain j k where "q x = of_int j * grid_unit" "q y = of_int k * grid_unit"
    by (meson q_grid)
  then have "q x - q y = of_int (j - k) * grid_unit"
    by (simp add: algebra_simps)
  then show ?thesis by (metis q_fix)
qed

lemma q_add_fixed: "q a = a \<Longrightarrow> q b = b \<Longrightarrow> q (a + b) = a + b"
  by (metis q_add)

lemma q_nonneg: "0 \<le> x \<Longrightarrow> 0 \<le> q x"
  using q_mono[of 0 x] by simp

lemma q_nonpos: "x \<le> 0 \<Longrightarrow> q x \<le> 0"
  using q_mono[of x 0] by simp

text \<open>Distinct grid points are at least one unit apart.\<close>

lemma q_gap: "q x < q y \<Longrightarrow> q x + grid_unit \<le> q y"
proof -
  assume less: "q x < q y"
  obtain j k where jk: "q x = of_int j * grid_unit" "q y = of_int k * grid_unit"
    by (meson q_grid)
  with less grid_unit_pos have "j < k" by simp
  then have "of_int (j + 1) * grid_unit \<le> of_int k * grid_unit"
    using grid_unit_pos by (intro mult_right_mono) auto
  with jk show ?thesis by (simp add: algebra_simps)
qed

text \<open>The sum of amounts that are on the grid is on the grid.\<close>

lemma q_sum_where:
  "(\<And>r. r \<in> set rows \<Longrightarrow> q (col r) = col r) \<Longrightarrow> q (sum_where p col rows) = sum_where p col rows"
proof (induction rows)
  case (Cons r rows)
  then have "q (sum_where p col rows) = sum_where p col rows" "q (col r) = col r"
    by simp_all
  then show ?case by (simp add: q_add_fixed)
qed simp

text \<open>
  A residual against a quantised capacity is not negative after quantisation: what the
  exposure views check after the linkage service has compared the quantised amounts.
\<close>

lemma q_residual_nonneg:
  assumes "q l = l" and "l \<le> q x"
  shows "- grid_unit / 2 \<le> x - l"
proof -
  have "q x - x \<le> grid_unit / 2"
    using q_near[of x] by (simp only: abs_le_iff)
  with assms show ?thesis by linarith
qed

end

lemma quantizer_quantize: "quantizer (1 / 10 ^ n) (quantize n)"
proof
  show "0 < 1 / (10 ^ n :: rat)" by simp
next
  fix x
  show "\<exists>k. quantize n x = of_int k * (1 / 10 ^ n)"
    by (auto simp: quantize_def)
next
  fix x :: rat
  have "\<bar>of_int (round_half_even (x * 10 ^ n)) - x * 10 ^ n\<bar> / 10 ^ n \<le> (1 / 2) / 10 ^ n"
    by (intro divide_right_mono round_half_even_near) simp
  moreover have "\<bar>quantize n x - x\<bar> = \<bar>of_int (round_half_even (x * 10 ^ n)) - x * 10 ^ n\<bar> / 10 ^ n"
  proof -
    have "quantize n x - x = (of_int (round_half_even (x * 10 ^ n)) - x * 10 ^ n) / 10 ^ n"
      by (simp add: quantize_def diff_divide_distrib)
    then show ?thesis by simp
  qed
  ultimately show "\<bar>quantize n x - x\<bar> \<le> 1 / 10 ^ n / 2"
    by simp
next
  fix x y :: rat
  assume "x \<le> y"
  then show "quantize n x \<le> quantize n y"
    by (simp add: quantize_def divide_right_mono round_half_even_mono)
next
  fix k :: int
  have "of_int k * (1 / 10 ^ n) * (10 ^ n :: rat) = of_int k" by simp
  then show "quantize n (of_int k * (1 / 10 ^ n)) = of_int k * (1 / 10 ^ n)"
    by (simp only: quantize_def round_half_even_of_int) simp
qed

interpretation mt: quantizer "1 / 1000" quantize_mt
  using quantizer_quantize[of 3] by (simp add: quantize_mt_def[abs_def])

interpretation price: quantizer "1 / 1000000" quantize_price
  using quantizer_quantize[of 6] by (simp add: quantize_price_def[abs_def])

interpretation money: quantizer "1 / 1000000" quantize_money
  using quantizer_quantize[of 6] by (simp add: quantize_money_def[abs_def])

interpretation ratio: quantizer "1 / 100" quantize_ratio
  using quantizer_quantize[of 2] by (simp add: quantize_ratio_def[abs_def])

lemmas mt_simps = mt.q_idem mt.q_zero mt.q_add mt.q_diff

text \<open>A tie at half a unit below zero rounds to zero, the even neighbour.\<close>

lemma quantize_mt_minus_half: "quantize_mt (- (1 / 2000)) = 0"
  by (simp add: quantize_mt_def quantize_def round_half_even_def Let_def)

lemma quantize_mt_residual:
  assumes "quantize_mt l = l" and "l \<le> quantize_mt x"
  shows "0 \<le> quantize_mt (x - l)"
proof -
  have "- (1 / 2000) \<le> x - l"
    using mt.q_residual_nonneg[OF assms] by simp
  then show ?thesis
    using mt.q_mono[of "- (1 / 2000)" "x - l"] by (simp add: quantize_mt_minus_half)
qed

end
