(* ===== verification/HC_Dates.thy ===== *)
theory HC_Dates
  imports HC_Prelude
begin

text \<open>
  The part of Python's \<open>datetime.date\<close> the calendars use: proleptic Gregorian dates
  between 0001-01-01 and 9999-12-31, their order, the successor and predecessor
  (\<open>d + timedelta(days=1)\<close>, \<open>d - timedelta(days=1)\<close>, which raise \<open>OverflowError\<close> at
  the ends of the range), the ordinal, \<open>weekday()\<close> and \<open>isoformat()\<close>.
\<close>

datatype date = Date (d_year: nat) (d_month: nat) (d_day: nat)

definition is_leap :: "nat \<Rightarrow> bool" where
  "is_leap y \<longleftrightarrow> y mod 4 = 0 \<and> (y mod 100 \<noteq> 0 \<or> y mod 400 = 0)"

definition days_in_month :: "nat \<Rightarrow> nat \<Rightarrow> nat" where
  "days_in_month y m =
     (if m = 2 then (if is_leap y then 29 else 28)
      else if m = 4 \<or> m = 6 \<or> m = 9 \<or> m = 11 then 30 else 31)"

definition MINYEAR :: nat where "MINYEAR = 1"
definition MAXYEAR :: nat where "MAXYEAR = 9999"

fun valid_date :: "date \<Rightarrow> bool" where
  "valid_date (Date y m d) \<longleftrightarrow>
     MINYEAR \<le> y \<and> y \<le> MAXYEAR \<and> 1 \<le> m \<and> m \<le> 12 \<and> 1 \<le> d \<and> d \<le> days_in_month y m"

fun next_day :: "date \<Rightarrow> date result" where
  "next_day (Date y m d) =
     (if d < days_in_month y m then Inr (Date y m (d + 1))
      else if m < 12 then Inr (Date y (m + 1) 1)
      else if y < MAXYEAR then Inr (Date (y + 1) 1 1)
      else Inl OverflowError)"

fun prev_day :: "date \<Rightarrow> date result" where
  "prev_day (Date y m d) =
     (if 1 < d then Inr (Date y m (d - 1))
      else if 1 < m then Inr (Date y (m - 1) (days_in_month y (m - 1)))
      else if MINYEAR < y then Inr (Date (y - 1) 12 31)
      else Inl OverflowError)"

section \<open>Order\<close>

fun date_key :: "date \<Rightarrow> nat \<times> nat \<times> nat" where
  "date_key (Date y m d) = (y, m, d)"

instantiation date :: linorder
begin

fun less_date :: "date \<Rightarrow> date \<Rightarrow> bool" where
  "less_date (Date y m d) (Date y' m' d') \<longleftrightarrow>
     y < y' \<or> y = y' \<and> (m < m' \<or> m = m' \<and> d < d')"

definition less_eq_date :: "date \<Rightarrow> date \<Rightarrow> bool" where
  "less_eq_date a b \<longleftrightarrow> a < b \<or> a = b"

instance
proof
  fix x y z :: date
  show "(x < y) = (x \<le> y \<and> \<not> y \<le> x)"
    by (cases x; cases y) (auto simp: less_eq_date_def)
  show "x \<le> x" by (simp add: less_eq_date_def)
  show "x \<le> y \<Longrightarrow> y \<le> z \<Longrightarrow> x \<le> z"
    by (cases x; cases y; cases z) (auto simp: less_eq_date_def)
  show "x \<le> y \<Longrightarrow> y \<le> x \<Longrightarrow> x = y"
    by (cases x; cases y) (auto simp: less_eq_date_def)
  show "x \<le> y \<or> y \<le> x"
    by (cases x; cases y) (auto simp: less_eq_date_def)
qed

end

section \<open>Ordinals, weekdays, ISO format\<close>

text \<open>\<open>date.toordinal()\<close>: 0001-01-01 has ordinal 1.\<close>

definition days_before_year :: "nat \<Rightarrow> nat" where
  "days_before_year y = (let z = y - 1 in z * 365 + z div 4 - z div 100 + z div 400)"

fun days_before_month :: "nat \<Rightarrow> nat \<Rightarrow> nat" where
  "days_before_month y 0 = 0"
| "days_before_month y (Suc m) = (if m = 0 then 0 else days_before_month y m + days_in_month y m)"

fun toordinal :: "date \<Rightarrow> nat" where
  "toordinal (Date y m d) = days_before_year y + days_before_month y m + d"

text \<open>Monday is 0 and Sunday is 6.\<close>

definition weekday :: "date \<Rightarrow> nat" where
  "weekday d = (toordinal d + 6) mod 7"

definition digit :: "nat \<Rightarrow> char" where
  "digit n = char_of (48 + n mod 10)"

definition pad2 :: "nat \<Rightarrow> string" where
  "pad2 n = [digit (n div 10), digit n]"

definition pad4 :: "nat \<Rightarrow> string" where
  "pad4 n = [digit (n div 1000), digit (n div 100), digit (n div 10), digit n]"

fun isoformat :: "date \<Rightarrow> string" where
  "isoformat (Date y m d) = pad4 y @ ''-'' @ pad2 m @ ''-'' @ pad2 d"

section \<open>Laws\<close>

lemma days_in_month_bounds: "28 \<le> days_in_month y m" "days_in_month y m \<le> 31"
  by (auto simp: days_in_month_def)

lemma days_in_month_ge1 [simp]: "Suc 0 \<le> days_in_month y m" "0 < days_in_month y m"
  using days_in_month_bounds(1)[of y m] by simp_all

lemma days_in_month_12 [simp]: "days_in_month y 12 = 31"
  by (simp add: days_in_month_def)

lemma next_day_valid: "valid_date d \<Longrightarrow> next_day d = Inr e \<Longrightarrow> valid_date e"
  by (cases d) (auto simp: MINYEAR_def MAXYEAR_def split: if_splits)

lemma prev_day_valid: "valid_date d \<Longrightarrow> prev_day d = Inr e \<Longrightarrow> valid_date e"
  by (cases d) (auto simp: MINYEAR_def MAXYEAR_def split: if_splits)

lemma next_day_greater: "next_day d = Inr e \<Longrightarrow> d < e"
  by (cases d) (auto split: if_splits)

lemma prev_day_less: "prev_day d = Inr e \<Longrightarrow> e < d"
  by (cases d) (auto split: if_splits)

text \<open>Adding and then subtracting a day, and the other way round, is the identity.\<close>

lemma prev_next_day:
  assumes "valid_date d" and "next_day d = Inr e"
  shows "prev_day e = Inr d"
proof (cases d)
  case (Date y m dd)
  with assms have "dd \<le> days_in_month y m" "1 \<le> dd" "m \<le> 12" "1 \<le> m" "1 \<le> y"
    by (simp_all add: MINYEAR_def)
  with assms(2) Date show ?thesis
    by (auto simp: MINYEAR_def split: if_splits)
qed

lemma next_prev_day:
  assumes "valid_date d" and "prev_day d = Inr e"
  shows "next_day e = Inr d"
proof (cases d)
  case (Date y m dd)
  with assms have "dd \<le> days_in_month y m" "1 \<le> dd" "m \<le> 12" "1 \<le> m" "y \<le> MAXYEAR"
    by simp_all
  with assms(2) Date show ?thesis
    by (auto simp: MINYEAR_def split: if_splits)
qed

text \<open>Nothing lies strictly between a date and its successor.\<close>

lemma next_day_least:
  assumes "valid_date d" and "valid_date x" and "next_day d = Inr e" and "d < x"
  shows "e \<le> x"
proof (cases d, cases x)
  fix y m dd y' m' d'
  assume "d = Date y m dd" "x = Date y' m' d'"
  with assms show ?thesis
    by (auto simp: less_eq_date_def split: if_splits)
qed

lemma prev_day_greatest:
  assumes "valid_date d" and "valid_date x" and "prev_day d = Inr e" and "x < d"
  shows "x \<le> e"
proof (rule ccontr)
  assume "\<not> x \<le> e"
  then have "e < x" by simp
  moreover have "next_day e = Inr d" "valid_date e"
    using assms next_prev_day prev_day_valid by blast+
  ultimately have "d \<le> x" using next_day_least assms(2) by blast
  with assms(4) show False by simp
qed

lemma next_day_ok: "valid_date d \<Longrightarrow> d < Date 9999 12 31 \<Longrightarrow> \<exists>e. next_day d = Inr e"
proof (cases d)
  case (Date y m dd)
  assume "valid_date d" "d < Date 9999 12 31"
  with Date show ?thesis
    by (cases "m < 12"; cases "y < 9999") (auto simp: MAXYEAR_def)
qed

lemma prev_day_ok: "valid_date d \<Longrightarrow> Date 1 1 1 < d \<Longrightarrow> \<exists>e. prev_day d = Inr e"
  by (cases d) (auto simp: MINYEAR_def)

lemma days_before_year_Suc:
  assumes "1 \<le> y"
  shows "days_before_year (Suc y) = days_before_year y + (if is_leap y then 366 else 365)"
proof -
  obtain z where z: "y = Suc z" using assms by (cases y) auto
  have q: "(Suc z) div k = z div k + (if Suc z mod k = 0 then 1 else 0)" for k
    by (simp add: div_Suc)
  have le: "z div 100 \<le> z * 365 + z div 4" "Suc z div 100 \<le> Suc z * 365 + Suc z div 4"
    by (simp_all add: div_le_dividend trans_le_add1 le_trans[OF div_le_dividend])
  have m: "Suc z mod 400 = 0 \<Longrightarrow> Suc z mod 100 = 0" "Suc z mod 100 = 0 \<Longrightarrow> Suc z mod 4 = 0"
    by (auto simp: mod_eq_0_iff_dvd dest: dvd_trans[of 100 400] dvd_trans[of 4 100])
  obtain a b c where abc: "z div 4 = a" "z div 100 = b" "z div 400 = c" by blast
  show ?thesis
    using le(1) m unfolding days_before_year_def is_leap_def z Let_def q diff_Suc_1 abc
    by auto
qed

lemma toordinal_next_day:
  assumes "valid_date d" and "next_day d = Inr e"
  shows "toordinal e = Suc (toordinal d)"
proof (cases d)
  case (Date y m dd)
  have m12: "days_before_month y 12 = (if is_leap y then 335 else 334)"
    by (simp add: numeral_eq_Suc days_in_month_def)
  from assms(1) Date have v: "1 \<le> y" "1 \<le> m" "m \<le> 12" "dd \<le> days_in_month y m"
    by (simp_all add: MINYEAR_def)
  consider "dd < days_in_month y m" | "dd = days_in_month y m" "m < 12"
    | "dd = days_in_month y m" "m = 12"
    using v by linarith
  then show ?thesis
  proof cases
    case 1
    with assms(2) Date show ?thesis by auto
  next
    case 2
    with assms(2) Date v show ?thesis by auto
  next
    case 3
    with assms(2) Date have "e = Date (Suc y) 1 1" by (auto split: if_splits)
    with 3 Date v days_before_year_Suc[of y] m12 show ?thesis by simp
  qed
qed

text \<open>Consecutive days have consecutive weekdays.\<close>

lemma weekday_next_day:
  "valid_date d \<Longrightarrow> next_day d = Inr e \<Longrightarrow> weekday e = (weekday d + 1) mod 7"
  using toordinal_next_day[of d e] by (simp add: weekday_def mod_Suc_eq)

lemma weekday_less [simp]: "weekday d < 7"
  by (simp add: weekday_def)

lemma digit_eq_iff: "digit a = digit b \<longleftrightarrow> a mod 10 = b mod 10"
proof
  assume "digit a = digit b"
  then have "(of_char (digit a) :: nat) = of_char (digit b)" by simp
  then have "(48 + a mod 10) mod 256 = (48 + b mod 10) mod 256"
    by (simp only: digit_def of_char_of)
  moreover have "48 + a mod 10 < 256" "48 + b mod 10 < 256"
    by (simp_all add: less_le_trans[OF mod_less_divisor])
  ultimately show "a mod 10 = b mod 10" by simp
qed (simp add: digit_def)

lemma pad2_inj: "a < 100 \<Longrightarrow> b < 100 \<Longrightarrow> pad2 a = pad2 b \<Longrightarrow> a = b"
proof -
  assume lt: "a < 100" "b < 100" and "pad2 a = pad2 b"
  then have "a div 10 = b div 10" "a mod 10 = b mod 10"
    by (auto simp: pad2_def digit_eq_iff)
  then show "a = b" by (metis div_mod_decomp)
qed

lemma pad4_inj:
  assumes "a < 10000" "b < 10000" "pad4 a = pad4 b"
  shows "a = b"
proof -
  have "a div 1000 mod 10 = b div 1000 mod 10" "a div 100 mod 10 = b div 100 mod 10"
    "a div 10 mod 10 = b div 10 mod 10" "a mod 10 = b mod 10"
    using assms(3) by (simp_all add: pad4_def digit_eq_iff)
  moreover have "n = n mod 10 + 10 * (n div 10 mod 10) + 100 * (n div 100 mod 10)
      + 1000 * (n div 1000 mod 10)" if "n < 10000" for n :: nat
  proof -
    have sum: "n = r + 10 * s + 100 * t + 1000 * w"
      if "n = 10 * b + r" "b = 10 * c + s" "c = 10 * w + t" for b c r s t w
      using that by simp
    have e: "k = 10 * (k div 10) + k mod 10" for k :: nat by simp
    have d: "n div 100 = n div 10 div 10" "n div 1000 = n div 10 div 10 div 10"
      by (simp_all add: div_mult2_eq [symmetric])
    have "n div 1000 mod 10 = n div 1000" using that by simp
    then show ?thesis
      using sum[OF e[of n] e[of "n div 10"] e[of "n div 10 div 10"]] by (simp only: d)
  qed
  ultimately show ?thesis using assms(1,2) by metis
qed

text \<open>\<open>isoformat\<close> determines the date: the calendars key their holidays by this string.\<close>

lemma isoformat_inj:
  assumes "valid_date a" "valid_date b" "isoformat a = isoformat b"
  shows "a = b"
proof -
  obtain y m d y' m' d' where ab: "a = Date y m d" "b = Date y' m' d'"
    by (cases a; cases b) auto
  have "pad4 y = pad4 y'" "pad2 m = pad2 m'" "pad2 d = pad2 d'"
    using assms(3) by (simp_all add: ab pad4_def pad2_def)
  moreover have "y < 10000" "y' < 10000" "m < 100" "m' < 100" "d < 100" "d' < 100"
    using assms(1,2) days_in_month_bounds(2)[of y m] days_in_month_bounds(2)[of y' m']
    by (auto simp: ab MAXYEAR_def)
  ultimately show ?thesis
    using pad4_inj pad2_inj ab by blast
qed

section \<open>Construction, and measures for day-by-day loops\<close>

text \<open>\<open>date(y, m, d)\<close> raises \<open>ValueError\<close> outside the calendar.\<close>

definition mk_date :: "nat \<Rightarrow> nat \<Rightarrow> nat \<Rightarrow> date result" where
  "mk_date y m d = (if valid_date (Date y m d) then Inr (Date y m d)
     else Inl (ValueError (Msg ''date out of range'' [])))"

text \<open>Upper bounds on how far a day-by-day loop can still go, forwards and backwards.\<close>

fun days_left :: "date \<Rightarrow> nat" where
  "days_left (Date y m d) = (MAXYEAR - y) * 500 + (12 - m) * 32 + (31 - d)"

fun days_gone :: "date \<Rightarrow> nat" where
  "days_gone (Date y m d) = y * 500 + m * 32 + d"

lemma days_left_next_day: "next_day d = Inr e \<Longrightarrow> days_left e < days_left d"
proof (cases d)
  case (Date y m dd)
  assume e: "next_day d = Inr e"
  have "dd < 31" if "dd < days_in_month y m"
    using that days_in_month_bounds(2)[of y m] by simp
  with e Date show ?thesis
    by (auto split: if_splits simp: diff_mult_distrib)
qed

lemma days_gone_prev_day: "prev_day d = Inr e \<Longrightarrow> days_gone e < days_gone d"
proof (cases d)
  case (Date y m dd)
  assume e: "prev_day d = Inr e"
  have "days_in_month y (m - 1) \<le> 31" by (rule days_in_month_bounds)
  with e Date show ?thesis
    by (auto split: if_splits simp: MINYEAR_def diff_mult_distrib)
qed

lemma finite_valid_dates: "finite {x. valid_date x}"
proof (rule finite_subset)
  show "{x. valid_date x} \<subseteq> (\<lambda>(y, m, d). Date y m d) ` ({..9999} \<times> {..12} \<times> {..31})"
  proof
    fix x
    assume "x \<in> {x. valid_date x}"
    then show "x \<in> (\<lambda>(y, m, d). Date y m d) ` ({..9999} \<times> {..12} \<times> {..31})"
      using days_in_month_bounds(2)
      by (cases x) (force simp: MAXYEAR_def image_iff intro: order_trans)
  qed
qed simp

end
