(* ===== verification/HC_Models.thy ===== *)
theory HC_Models
  imports HC_Decimal HC_Dates
begin

text \<open>
  \<open>backend/app/models\<close>: the ORM classes as records, their enums as datatypes, and the
  database as one record of tables. A table is the list of its rows in insertion order;
  an unordered \<open>query.all()\<close> reads it in that order. The \<open>updated_at\<close> columns, which only
  the ORM's \<open>onupdate\<close> hook writes and no service reads, are left out. The primary keys are
  drawn from a counter of the database: \<open>uuid4\<close> never repeats a key.
\<close>

section \<open>Orders\<close>

datatype OrderType = OT_sales | OT_purchase
datatype PriceType = PT_fixed | PT_variable
datatype OrderPricingConvention = OPC_avg | OPC_avginter | OPC_c2r
datatype PricingType = PrT_fixed | PrT_average | PrT_avginter | PrT_fix | PrT_c2r

record Order =
  ord_id :: uuid
  ord_order_type :: OrderType
  ord_price_type :: PriceType
  ord_commodity :: string
  ord_quantity_mt :: decimal
  ord_pricing_convention :: "OrderPricingConvention option"
  ord_avg_entry_price :: "decimal option"
  ord_external_reference :: "string option"
  ord_counterparty_name :: "string option"
  ord_reference_month :: "string option"
  ord_observation_date_start :: "date option"
  ord_observation_date_end :: "date option"
  ord_fixing_date :: "date option"
  ord_counterparty_id :: "uuid option"
  ord_pricing_type :: "PricingType option"
  ord_delivery_terms :: "string option"
  ord_delivery_date_start :: "date option"
  ord_delivery_date_end :: "date option"
  ord_payment_terms_days :: "int option"
  ord_currency :: string
  ord_notes :: "string option"
  ord_created_at :: datetime
  ord_deleted_at :: "datetime option"

record SoPoLink =
  sopo_id :: uuid
  sopo_sales_order_id :: uuid
  sopo_purchase_order_id :: uuid
  sopo_linked_tons :: decimal
  sopo_created_at :: datetime

section \<open>Hedge contracts and linkages\<close>

datatype HedgeLegSide = Leg_buy | Leg_sell
datatype HedgeClassification = HC_long | HC_short
datatype HedgeContractStatus = HS_active | HS_partially_settled | HS_settled | HS_cancelled

record HedgeContract =
  hc_id :: uuid
  hc_reference :: "string option"
  hc_commodity :: string
  hc_quantity_mt :: decimal
  hc_rfq_id :: "uuid option"
  hc_rfq_quote_id :: "uuid option"
  hc_counterparty_id :: "string option"
  hc_fixed_price_value :: "decimal option"
  hc_fixed_price_unit :: "string option"
  hc_float_pricing_convention :: "string option"
  hc_premium_discount :: "decimal option"
  hc_pricing_period_month :: "int option"
  hc_pricing_period_year :: "int option"
  hc_fixing_date :: "date option"
  hc_avg_computation_days :: "int option"
  hc_status :: HedgeContractStatus
  hc_fixed_leg_side :: HedgeLegSide
  hc_variable_leg_side :: HedgeLegSide
  hc_classification :: HedgeClassification
  hc_settlement_date :: "date option"
  hc_prompt_date :: "date option"
  hc_trade_date :: "date option"
  hc_source_type :: "string option"
  hc_source_id :: "uuid option"
  hc_notes :: "string option"
  hc_created_by :: "string option"
  hc_created_at :: datetime
  hc_deleted_at :: "datetime option"

text \<open>\<open>VALID_STATUS_TRANSITIONS\<close> and the derived properties of the class.\<close>

fun VALID_STATUS_TRANSITIONS :: "HedgeContractStatus \<Rightarrow> HedgeContractStatus list" where
  "VALID_STATUS_TRANSITIONS HS_active = [HS_partially_settled, HS_settled, HS_cancelled]"
| "VALID_STATUS_TRANSITIONS HS_partially_settled = [HS_settled, HS_cancelled]"
| "VALID_STATUS_TRANSITIONS HS_settled = []"
| "VALID_STATUS_TRANSITIONS HS_cancelled = []"

text \<open>The \<open>CHECK\<close> constraint \<open>chk_classification_matches_fixed_leg\<close>.\<close>

definition chk_classification_matches_fixed_leg :: "HedgeContract \<Rightarrow> bool" where
  "chk_classification_matches_fixed_leg c \<longleftrightarrow>
     (hc_fixed_leg_side c = Leg_buy \<and> hc_classification c = HC_long) \<or>
     (hc_fixed_leg_side c = Leg_sell \<and> hc_classification c = HC_short)"

definition direction :: "HedgeContract \<Rightarrow> HedgeLegSide" where
  "direction c = (if hc_classification c = HC_long then Leg_buy else Leg_sell)"

definition price_per_ton :: "HedgeContract \<Rightarrow> decimal" where
  "price_per_ton c = to_decimal (hc_fixed_price_value c)"

record HedgeOrderLinkage =
  lk_id :: uuid
  lk_order_id :: uuid
  lk_contract_id :: uuid
  lk_quantity_mt :: decimal
  lk_created_at :: datetime

section \<open>Exposures and hedge tasks\<close>

datatype ExposureDirection = ED_long | ED_short
datatype ExposureSourceType = EST_sales_order | EST_purchase_order
datatype ExposureStatus = ES_open | ES_partially_hedged | ES_fully_hedged | ES_cancelled
datatype HedgeTaskAction = HTA_hedge_new | HTA_increase | HTA_decrease | HTA_cancel
datatype HedgeTaskStatus = HT_pending | HT_executed | HT_cancelled
datatype ReconciliationRunStatus = RR_running | RR_succeeded | RR_failed

record Exposure =
  exp_id :: uuid
  exp_commodity :: string
  exp_direction :: ExposureDirection
  exp_source_type :: ExposureSourceType
  exp_source_id :: uuid
  exp_original_tons :: decimal
  exp_open_tons :: decimal
  exp_price_per_ton :: "decimal option"
  exp_settlement_month :: "string option"
  exp_status :: ExposureStatus
  exp_created_at :: datetime
  exp_is_deleted :: bool
  exp_deleted_at :: "datetime option"

record HedgeTask =
  tsk_id :: uuid
  tsk_exposure_id :: uuid
  tsk_recommended_tons :: decimal
  tsk_recommended_action :: HedgeTaskAction
  tsk_status :: HedgeTaskStatus
  tsk_created_at :: datetime
  tsk_executed_at :: "datetime option"

record reconcile_summary =
  rs_created :: nat
  rs_updated :: nat
  rs_retired :: nat
  rs_tasks_cancelled :: nat

record ReconciliationRun =
  rr_id :: uuid
  rr_status :: ReconciliationRunStatus
  rr_started_at :: datetime
  rr_completed_at :: "datetime option"
  rr_rows_created :: nat
  rr_rows_updated :: nat
  rr_summary :: "reconcile_summary option"

section \<open>Deals\<close>

datatype DealStatus = DS_open | DS_partially_hedged | DS_fully_hedged | DS_settled | DS_closed
datatype DealLinkedType = DL_sales_order | DL_purchase_order | DL_hedge | DL_contract

record Deal =
  deal_id :: uuid
  deal_reference :: string
  deal_name :: string
  deal_commodity :: string
  deal_status :: DealStatus
  deal_total_physical_tons :: decimal
  deal_total_hedge_tons :: decimal
  deal_hedge_ratio :: decimal
  deal_created_at :: datetime

record DealLink =
  dl_id :: uuid
  dl_deal_id :: uuid
  dl_linked_type :: DealLinkedType
  dl_linked_id :: uuid
  dl_created_at :: datetime

text \<open>\<open>PriceQuote\<close> of \<open>backend/app/utils/price_reference.py\<close>.\<close>

record PriceQuote =
  pq_value :: decimal
  pq_source :: string
  pq_settlement_date :: date
  pq_symbol :: string

text \<open>An entry of the \<open>price_references\<close> JSON object: value, source, settlement date.\<close>

type_synonym price_reference = "decimal \<times> string \<times> date"

record DealPNLSnapshot =
  snap_id :: uuid
  snap_deal_id :: uuid
  snap_snapshot_date :: date
  snap_physical_revenue :: decimal
  snap_physical_cost :: decimal
  snap_hedge_pnl_realized :: decimal
  snap_hedge_pnl_mtm :: decimal
  snap_total_pnl :: decimal
  snap_inputs_hash :: string
  snap_price_references :: "(string \<times> price_reference) list option"
  snap_sequence :: nat
  snap_created_at :: datetime

section \<open>Counterparties and commercial partners\<close>

datatype CounterpartyType = CT_broker | CT_bank_br | CT_customer | CT_supplier
datatype KycStatus = KYC_pending | KYC_approved | KYC_expired | KYC_rejected
datatype SanctionsStatus = SAN_unscreened | SAN_clear | SAN_flagged | SAN_blocked
datatype RiskRating = RISK_low | RISK_medium | RISK_high
datatype CommercialPartnerKind = CPK_customer | CPK_supplier
datatype LeiStatus = LEI_not_provided | LEI_valid | LEI_invalid | LEI_lapsed | LEI_issued | LEI_error

text \<open>The text columns (\<open>name\<close>, \<open>short_name\<close>, \<open>tax_id\<close>, \<open>country\<close>, \<open>city\<close>, \<open>address\<close>, the contact
  columns, \<open>lei\<close>, \<open>notes\<close>) that the generic update writes by name with \<open>setattr\<close> are one map
  from column names to values.\<close>

type_synonym text_columns = "string \<Rightarrow> string option"

record Counterparty =
  cp_id :: uuid
  cp_type :: CounterpartyType
  cp_text :: text_columns
  cp_payment_terms_days :: "int option"
  cp_credit_limit_usd :: "decimal option"
  cp_kyc_status :: KycStatus
  cp_sanctions_status :: SanctionsStatus
  cp_risk_rating :: RiskRating
  cp_is_active :: bool
  cp_created_at :: datetime
  cp_is_deleted :: bool
  cp_deleted_at :: "datetime option"

record CommercialPartner =
  par_id :: uuid
  par_kind :: CommercialPartnerKind
  par_text :: text_columns
  par_lei_status :: LeiStatus
  par_lei_legal_name :: "string option"
  par_lei_checked_at :: "datetime option"
  par_kyc_status :: KycStatus
  par_sanctions_status :: SanctionsStatus
  par_risk_rating :: RiskRating
  par_credit_limit :: "decimal option"
  par_credit_currency :: "string option"
  par_payment_conditions :: "string option"
  par_approved_value :: "decimal option"
  par_approved_currency :: "string option"
  par_approved_terms :: "string option"
  par_is_active :: bool
  par_created_at :: datetime
  par_is_deleted :: bool
  par_deleted_at :: "datetime option"

section \<open>Market data and the cash-flow ledger\<close>

record CashSettlementPrice =
  csp_id :: uuid
  csp_source :: string
  csp_symbol :: string
  csp_settlement_date :: date
  csp_price_usd :: decimal

record HedgeContractSettlementEvent =
  se_id :: uuid
  se_hedge_contract_id :: uuid
  se_cashflow_date :: date
  se_created_at :: datetime

record CashFlowLedgerEntry =
  le_id :: uuid
  le_hedge_contract_id :: uuid
  le_source_event_type :: string
  le_source_event_id :: "uuid option"
  le_leg_id :: string
  le_cashflow_date :: date
  le_currency :: string
  le_direction :: string
  le_amount :: decimal
  le_price_source :: "string option"
  le_price_symbol :: "string option"
  le_price_settlement_date :: "date option"
  le_price_value :: "decimal option"
  le_created_at :: datetime

section \<open>Workflow approvals and the audit trail\<close>

datatype MutationType = MT_deal_create | MT_deal_award | MT_hedge_contract_settle
datatype ApprovalStatus =
    AS_pending | AS_approved | AS_rejected | AS_expired | AS_consumed | AS_superseded
datatype ThresholdDimension = TD_notional_usd | TD_settlement_amount_usd
datatype RejectionReasonCode =
    RC_policy_violation | RC_counterparty_risk | RC_payload_concern | RC_threshold_inappropriate | RC_other

record WorkflowApprovalRequest =
  wa_id :: uuid
  wa_mutation_type :: MutationType
  wa_status :: ApprovalStatus
  wa_requested_by :: string
  wa_approved_by :: "string option"
  wa_threshold_at_request :: decimal
  wa_threshold_config_value :: decimal
  wa_threshold_dimension :: ThresholdDimension
  wa_mutation_payload_canonical :: string
  wa_mutation_payload_hash :: string
  wa_correlation_id :: uuid
  wa_idempotency_key :: "string option"
  wa_created_at :: datetime
  wa_expires_at :: datetime
  wa_consumed_at :: "datetime option"
  wa_approver_ip :: "string option"
  wa_approver_session_id :: "string option"
  wa_rejection_reason_code :: "RejectionReasonCode option"
  wa_rejection_reason_text :: "string option"

record ApprovalPolicy =
  ap_mutation_type :: MutationType
  ap_required_approver_roles :: "string list"
  ap_threshold_dimension :: ThresholdDimension

text \<open>
  An audit event: the object it is about, the kind of event and the payload, a JSON object
  whose values are strings, numbers, identifiers or null.
\<close>

record AuditEvent =
  ae_id :: uuid
  ae_entity_type :: string
  ae_entity_id :: uuid
  ae_event_type :: string
  ae_payload :: "(string \<times> arg option) list"

section \<open>Requests for quote\<close>

datatype RFQIntent = RI_commercial_hedge | RI_global_position | RI_spread

datatype RFQDirection = RD_buy | RD_sell

datatype RFQState = RS_created | RS_sent | RS_quoted | RS_awarded | RS_closed

record RFQ =
  rq_id :: uuid
  rq_rfq_number :: string
  rq_intent :: RFQIntent
  rq_commodity :: string
  rq_quantity_mt :: decimal
  rq_delivery_window_start :: date
  rq_delivery_window_end :: date
  rq_direction :: RFQDirection
  rq_order_id :: "uuid option"
  rq_buy_trade_id :: "uuid option"
  rq_sell_trade_id :: "uuid option"
  rq_commercial_active_mt :: decimal
  rq_commercial_passive_mt :: decimal
  rq_commercial_net_mt :: decimal
  rq_commercial_reduction_applied_mt :: decimal
  rq_exposure_snapshot_timestamp :: datetime
  rq_state :: RFQState
  rq_text_en :: "string option"
  rq_text_pt :: "string option"
  rq_created_at :: datetime
  rq_deleted_at :: "datetime option"

datatype RFQInvitationChannel = RC_whatsapp

datatype RFQInvitationStatus = IS_queued | IS_sent | IS_failed

datatype RFQInvitationPurpose = IP_rfq_invite | IP_refresh | IP_reject_quote | IP_award_notify | IP_reject_notify

text \<open>The idempotency key is an f-string over identifiers and times; it is kept as a template.\<close>

record RFQInvitation =
  inv_id :: uuid
  inv_rfq_id :: uuid
  inv_rfq_number :: string
  inv_counterparty_id :: uuid
  inv_recipient_name :: string
  inv_recipient_phone :: string
  inv_channel :: RFQInvitationChannel
  inv_message_body :: string
  inv_provider_message_id :: "string option"
  inv_send_status :: RFQInvitationStatus
  inv_purpose :: RFQInvitationPurpose
  inv_sent_at :: "datetime option"
  inv_failure_reason :: "detail option"
  inv_idempotency_key :: detail
  inv_created_at :: datetime

datatype QuoteState = QS_active | QS_rejected

record RFQQuote =
  qt_id :: uuid
  qt_rfq_id :: uuid
  qt_counterparty_id :: uuid
  qt_fixed_price_value :: decimal
  qt_fixed_price_unit :: string
  qt_float_pricing_convention :: string
  qt_received_at :: datetime
  qt_created_at :: datetime
  qt_state :: QuoteState
  qt_rejected_at :: "datetime option"
  qt_rejected_reason :: "string option"
  qt_rejected_by :: "string option"

text \<open>The rankings of \<open>backend/app/schemas/rfq.py\<close>; an award stores the ranking it acted on.\<close>

datatype TradeRankingFailureCode = TF_no_eligible_quotes | TF_non_comparable | TF_tie | TF_not_trade_intent

record TradeRankingEntry =
  te_rank :: nat
  te_quote :: RFQQuote

record TradeRankingRead =
  tr_rfq_id :: uuid
  tr_status :: string
  tr_failure_code :: "TradeRankingFailureCode option"
  tr_failure_reason :: "detail option"
  tr_ranking :: "TradeRankingEntry list"

datatype SpreadRankingFailureCode =
  SF_no_eligible_quotes | SF_non_comparable | SF_incomplete_quotes | SF_tie | SF_not_spread_intent

record SpreadRankingEntry =
  sre_rank :: nat
  sre_counterparty_id :: uuid
  sre_spread_value :: decimal
  sre_buy_quote :: RFQQuote
  sre_sell_quote :: RFQQuote

record SpreadRankingRead =
  sr_rfq_id :: uuid
  sr_status :: string
  sr_failure_code :: "SpreadRankingFailureCode option"
  sr_failure_reason :: "detail option"
  sr_direction :: "RFQDirection option"
  sr_sort_order :: "string option"
  sr_ranking :: "SpreadRankingEntry list"

datatype ranking_snapshot = Trade_snapshot TradeRankingRead | Spread_snapshot SpreadRankingRead

text \<open>The JSON columns of a state event hold the values they encode.\<close>

record RFQStateEvent =
  re_id :: uuid
  re_rfq_id :: uuid
  re_from_state :: RFQState
  re_to_state :: RFQState
  re_trigger :: "string option"
  re_triggering_quote_id :: "uuid option"
  re_triggering_counterparty_id :: "uuid option"
  re_event_timestamp :: datetime
  re_user_id :: "string option"
  re_reason :: "string option"
  re_ranking_snapshot :: "ranking_snapshot option"
  re_winning_quote_ids :: "uuid list option"
  re_winning_counterparty_ids :: "uuid list option"
  re_award_timestamp :: "datetime option"
  re_created_contract_ids :: "uuid list option"

section \<open>Valuation snapshots\<close>

datatype MTMObjectType = MO_hedge_contract | MO_order

record MTMSnapshot =
  ms_id :: uuid
  ms_object_type :: MTMObjectType
  ms_object_id :: uuid
  ms_as_of_date :: date
  ms_mtm_value :: decimal
  ms_price_d1 :: decimal
  ms_entry_price :: decimal
  ms_quantity_mt :: decimal
  ms_price_source :: "string option"
  ms_price_symbol :: "string option"
  ms_price_settlement_date :: "date option"
  ms_inputs_hash :: "string option"
  ms_correlation_id :: string
  ms_created_at :: datetime

record PriceReferenceEntry =
  pre_symbol :: string
  pre_source :: string
  pre_settlement_date :: date
  pre_value :: decimal

record PLSnapshot =
  ps_id :: uuid
  ps_entity_type :: string
  ps_entity_id :: uuid
  ps_period_start :: date
  ps_period_end :: date
  ps_realized_pl :: decimal
  ps_unrealized_mtm :: decimal
  ps_price_references :: "PriceReferenceEntry list option"
  ps_inputs_hash :: "string option"
  ps_created_at :: datetime
  ps_correlation_id :: "uuid option"

text \<open>The payload of a baseline snapshot; a payload of the legacy shape has no \<open>view\<close>.\<close>

record CashFlowItem =
  ci_object_type :: MTMObjectType
  ci_object_id :: uuid
  ci_settlement_date :: date
  ci_amount_usd :: decimal
  ci_mtm_value :: decimal
  ci_price_source :: string
  ci_price_symbol :: string
  ci_price_settlement_date :: date
  ci_price_value :: decimal

record ledger_payload =
  lp_id :: uuid
  lp_hedge_contract_id :: uuid
  lp_source_event_type :: string
  lp_source_event_id :: "uuid option"
  lp_leg_id :: string
  lp_cashflow_date :: date
  lp_currency :: string
  lp_direction :: string
  lp_amount :: decimal
  lp_signed_amount_usd :: decimal
  lp_price_source :: "string option"
  lp_price_symbol :: "string option"
  lp_price_settlement_date :: "date option"
  lp_price_value :: "decimal option"

record baseline_payload =
  bp_view :: "string option"
  bp_as_of_date :: date
  bp_unrealized_items :: "CashFlowItem list"
  bp_realized_ledger_entries :: "ledger_payload list"
  bp_unrealized_total_usd :: decimal
  bp_realized_total_usd :: decimal
  bp_total_net_cashflow :: decimal
  bp_unrealized_item_count :: nat
  bp_ledger_entry_count :: nat

record CashFlowBaselineSnapshot =
  bs_id :: uuid
  bs_as_of_date :: date
  bs_snapshot_data :: "baseline_payload option"
  bs_total_net_cashflow :: "decimal option"
  bs_inputs_hash :: "string option"
  bs_correlation_id :: detail
  bs_created_at :: datetime

section \<open>The finance pipeline\<close>

datatype PipelineRunStatus = PRS_running | PRS_completed | PRS_failed | PRS_partial
datatype PipelineStepStatus = PSS_pending | PSS_running | PSS_completed | PSS_failed | PSS_skipped
datatype PipelineTriggerSource = PTS_scheduler | PTS_manual
datatype PipelineRiskFlagType =
    RF_missing_mtm_price | RF_unhedged_exposure_over_guardrail | RF_kyc_regression_with_active_deals
  | RF_workflow_approval_pending_past_expiry
datatype PipelineRiskFlagSeverity = SEV_informational | SEV_warning | SEV_critical

record FinancePipelineRun =
  pr_id :: uuid
  pr_run_date :: date
  pr_status :: PipelineRunStatus
  pr_started_at :: datetime
  pr_finished_at :: "datetime option"
  pr_steps_completed :: nat
  pr_steps_total :: nat
  pr_error_message :: "string option"
  pr_inputs_hash :: string
  pr_triggered_by :: PipelineTriggerSource
  pr_created_at :: datetime

record FinancePipelineStep =
  fs_id :: uuid
  fs_run_id :: uuid
  fs_step_number :: nat
  fs_step_name :: string
  fs_status :: PipelineStepStatus
  fs_started_at :: "datetime option"
  fs_finished_at :: "datetime option"
  fs_records_processed :: nat
  fs_error_message :: "string option"

datatype risk_flag_payload =
    Flag_reason string
  | Flag_exposure string decimal decimal
  | Flag_kyc KycStatus
  | Flag_approval MutationType datetime

record FinancePipelineRiskFlag =
  rk_id :: uuid
  rk_run_id :: uuid
  rk_flag_type :: PipelineRiskFlagType
  rk_severity :: PipelineRiskFlagSeverity
  rk_subject_entity_type :: string
  rk_subject_entity_id :: "uuid option"
  rk_payload :: risk_flag_payload
  rk_created_at :: datetime

section \<open>The database\<close>

record db =
  orders :: "Order list"
  sopo_links :: "SoPoLink list"
  contracts :: "HedgeContract list"
  linkages :: "HedgeOrderLinkage list"
  exposures :: "Exposure list"
  tasks :: "HedgeTask list"
  recon_runs :: "ReconciliationRun list"
  deals :: "Deal list"
  deal_links :: "DealLink list"
  pnl_snapshots :: "DealPNLSnapshot list"
  mtm_snapshots :: "MTMSnapshot list"
  pl_snapshots :: "PLSnapshot list"
  baseline_snapshots :: "CashFlowBaselineSnapshot list"
  pipeline_runs :: "FinancePipelineRun list"
  pipeline_steps :: "FinancePipelineStep list"
  risk_flags :: "FinancePipelineRiskFlag list"
  counterparties :: "Counterparty list"
  partners :: "CommercialPartner list"
  prices :: "CashSettlementPrice list"
  settlement_events :: "HedgeContractSettlementEvent list"
  ledger_entries :: "CashFlowLedgerEntry list"
  approvals :: "WorkflowApprovalRequest list"
  policies :: "ApprovalPolicy list"
  audit_events :: "AuditEvent list"
  rfqs :: "RFQ list"
  rfq_invitations :: "RFQInvitation list"
  rfq_quotes :: "RFQQuote list"
  rfq_state_events :: "RFQStateEvent list"
  rfq_sequence :: nat
  next_uuid :: uuid

definition empty_db :: db where
  "empty_db = \<lparr>orders = [], sopo_links = [], contracts = [], linkages = [], exposures = [], tasks = [],
     recon_runs = [], deals = [], deal_links = [], pnl_snapshots = [],
     mtm_snapshots = [], pl_snapshots = [], baseline_snapshots = [], pipeline_runs = [], pipeline_steps = [], risk_flags = [], counterparties = [],
     partners = [], prices = [], settlement_events = [], ledger_entries = [], approvals = [],
     policies = [], audit_events = [],
     rfqs = [], rfq_invitations = [], rfq_quotes = [], rfq_state_events = [], rfq_sequence = 0, next_uuid = 0\<rparr>"

definition get_order :: "db \<Rightarrow> uuid \<Rightarrow> Order option" where
  "get_order s i = get_row ord_id i (orders s)"

definition get_contract :: "db \<Rightarrow> uuid \<Rightarrow> HedgeContract option" where
  "get_contract s i = get_row hc_id i (contracts s)"

definition get_deal :: "db \<Rightarrow> uuid \<Rightarrow> Deal option" where
  "get_deal s i = get_row deal_id i (deals s)"

definition get_exposure_row :: "db \<Rightarrow> uuid \<Rightarrow> Exposure option" where
  "get_exposure_row s i = get_row exp_id i (exposures s)"

definition get_task :: "db \<Rightarrow> uuid \<Rightarrow> HedgeTask option" where
  "get_task s i = get_row tsk_id i (tasks s)"

text \<open>Liveness filters the services share: a live order is not archived; a live hedge is
  neither archived, settled nor cancelled.\<close>

definition order_live :: "Order \<Rightarrow> bool" where
  "order_live r \<longleftrightarrow> ord_deleted_at r = None"

definition hedge_open :: "HedgeContract \<Rightarrow> bool" where
  "hedge_open c \<longleftrightarrow> hc_status c = HS_active \<or> hc_status c = HS_partially_settled"

definition hedge_live :: "HedgeContract \<Rightarrow> bool" where
  "hedge_live c \<longleftrightarrow> hc_deleted_at c = None \<and> hedge_open c"

text \<open>Whether the joined row of an inner join exists and passes a filter.\<close>

definition joined :: "('r \<Rightarrow> bool) \<Rightarrow> 'r option \<Rightarrow> bool" where
  "joined p row = (case row of None \<Rightarrow> False | Some r \<Rightarrow> p r)"

lemma joined_simps [simp]: "joined p None = False" "joined p (Some r) = p r"
  by (simp_all add: joined_def)

lemmas get_defs = get_order_def get_contract_def get_deal_def get_exposure_row_def get_task_def

declare get_defs [svc_defs] order_live_def [svc_defs] hedge_open_def [svc_defs] hedge_live_def [svc_defs]

end
