(* ===== verification/Market_Calendar.thy ===== *)
theory Market_Calendar
  imports HC_Dates
begin

text \<open>
  \<open>backend/app/utils/market_calendar.py\<close>: the year-keyed LME holiday calendar, the
  canonical price source of a symbol, and the search for the prior business day. Coverage
  gaps raise \<open>PriceReferenceUnprovable\<close>; the search itself is a \<open>while\<close> loop over days.
\<close>

section \<open>Tables\<close>

definition LME_HOLIDAYS_BY_YEAR :: "(nat \<times> date list) list" where
  "LME_HOLIDAYS_BY_YEAR =
    [
     (2023,
      [Date 2023 1 2, Date 2023 4 7, Date 2023 4 10, Date 2023 5 1, Date 2023 5 8,
       Date 2023 5 29, Date 2023 8 28, Date 2023 12 25, Date 2023 12 26]),
     (2024,
      [Date 2024 1 1, Date 2024 3 29, Date 2024 4 1, Date 2024 5 6, Date 2024 5 27,
       Date 2024 8 26, Date 2024 12 25, Date 2024 12 26]),
     (2025,
      [Date 2025 1 1, Date 2025 4 18, Date 2025 4 21, Date 2025 5 5, Date 2025 5 26,
       Date 2025 8 25, Date 2025 12 25, Date 2025 12 26]),
     (2026,
      [Date 2026 1 1, Date 2026 4 3, Date 2026 4 6, Date 2026 5 4, Date 2026 5 25,
       Date 2026 8 31, Date 2026 12 25, Date 2026 12 28]),
     (2027,
      [Date 2027 1 1, Date 2027 3 26, Date 2027 3 29, Date 2027 5 3, Date 2027 5 31,
       Date 2027 8 30, Date 2027 12 27, Date 2027 12 28]),
     (2028,
      [Date 2028 1 3, Date 2028 4 14, Date 2028 4 17, Date 2028 5 1, Date 2028 5 29,
       Date 2028 8 28, Date 2028 12 25, Date 2028 12 26]),
     (2029,
      [Date 2029 1 1, Date 2029 3 30, Date 2029 4 2, Date 2029 5 7, Date 2029 5 28,
       Date 2029 8 27, Date 2029 12 25, Date 2029 12 26]),
     (2030,
      [Date 2030 1 1, Date 2030 4 19, Date 2030 4 22, Date 2030 5 6, Date 2030 5 27,
       Date 2030 8 26, Date 2030 12 25, Date 2030 12 26]),
     (2031,
      [Date 2031 1 1, Date 2031 4 11, Date 2031 4 14, Date 2031 5 5, Date 2031 5 26,
       Date 2031 8 25, Date 2031 12 25, Date 2031 12 26]),
     (2032,
      [Date 2032 1 1, Date 2032 3 26, Date 2032 3 29, Date 2032 5 3, Date 2032 5 31,
       Date 2032 8 30, Date 2032 12 27, Date 2032 12 28]),
     (2033,
      [Date 2033 1 3, Date 2033 4 15, Date 2033 4 18, Date 2033 5 2, Date 2033 5 30,
       Date 2033 8 29, Date 2033 12 26, Date 2033 12 27]),
     (2034,
      [Date 2034 1 2, Date 2034 4 7, Date 2034 4 10, Date 2034 5 1, Date 2034 5 29,
       Date 2034 8 28, Date 2034 12 25, Date 2034 12 26]),
     (2035,
      [Date 2035 1 1, Date 2035 3 23, Date 2035 3 26, Date 2035 5 7, Date 2035 5 28,
       Date 2035 8 27, Date 2035 12 25, Date 2035 12 26])]"

definition CANONICAL_SOURCE_BY_SYMBOL :: "(string \<times> string) list" where
  "CANONICAL_SOURCE_BY_SYMBOL =
    [(''LME_ALU_CASH_SETTLEMENT_DAILY'', ''westmetall''),
     (''LME_CU_CASH_SETTLEMENT_DAILY'', ''westmetall''),
     (''LME_ZN_CASH_SETTLEMENT_DAILY'', ''westmetall''),
     (''LME_NI_CASH_SETTLEMENT_DAILY'', ''westmetall''),
     (''LME_PB_CASH_SETTLEMENT_DAILY'', ''westmetall''),
     (''LME_SN_CASH_SETTLEMENT_DAILY'', ''westmetall'')]"

definition starts_with :: "string \<Rightarrow> string \<Rightarrow> bool" where
  "starts_with prefix s \<longleftrightarrow> take (length prefix) s = prefix"

definition market_calendar_for_symbol :: "string \<Rightarrow> nat \<Rightarrow> date list result" where
  "market_calendar_for_symbol symbol year =
     (if \<not> starts_with ''LME_'' symbol then
        Inl (PriceReferenceUnprovable (Msg ''No market calendar registered for symbol {}'' [AStr symbol]))
      else (case map_of LME_HOLIDAYS_BY_YEAR year of
              None \<Rightarrow> Inl (PriceReferenceUnprovable
                (Msg ''LME holiday calendar coverage does not include year {}'' [ANat year]))
            | Some holidays \<Rightarrow> Inr holidays))"

definition canonical_source_for_symbol :: "string \<Rightarrow> string result" where
  "canonical_source_for_symbol symbol =
     (case map_of CANONICAL_SOURCE_BY_SYMBOL symbol of
        None \<Rightarrow> Inl (PriceReferenceUnprovable
          (Msg ''No canonical source registered for resolved symbol {}'' [AStr symbol]))
      | Some source \<Rightarrow> Inr source)"

section \<open>The prior business day\<close>

text \<open>
  \<open>or\<close> short-circuits: on a weekend the calendar of the year is not consulted.
\<close>

function prior_business_day_loop :: "(nat \<Rightarrow> date list result) \<Rightarrow> date \<Rightarrow> date result" where
  "prior_business_day_loop calendar_for_year cursor =
     (if 5 \<le> weekday cursor then
        (case prev_day cursor of Inl e \<Rightarrow> Inl e
         | Inr cursor' \<Rightarrow> prior_business_day_loop calendar_for_year cursor')
      else (case calendar_for_year (d_year cursor) of
              Inl e \<Rightarrow> Inl e
            | Inr holidays \<Rightarrow>
                (if cursor \<in> set holidays then
                   (case prev_day cursor of Inl e \<Rightarrow> Inl e
                    | Inr cursor' \<Rightarrow> prior_business_day_loop calendar_for_year cursor')
                 else Inr cursor)))"
  by pat_completeness auto
termination
  by (relation "measure (\<lambda>(calendar_for_year, cursor). days_gone cursor)")
    (auto simp: days_gone_prev_day)

declare prior_business_day_loop.simps [simp del]

definition prior_business_day :: "date \<Rightarrow> (nat \<Rightarrow> date list result) \<Rightarrow> date result" where
  "prior_business_day price_date calendar_for_year =
     (case prev_day price_date of
        Inl e \<Rightarrow> Inl e
      | Inr cursor \<Rightarrow> prior_business_day_loop calendar_for_year cursor)"

text \<open>A day the calendar can prove to be a trading day.\<close>

definition trading_day :: "(nat \<Rightarrow> date list result) \<Rightarrow> date \<Rightarrow> bool" where
  "trading_day cal d \<longleftrightarrow> weekday d < 5 \<and> (\<exists>hs. cal (d_year d) = Inr hs \<and> d \<notin> set hs)"

text \<open>One turn of the loop: it stops on a trading day, raises where the calendar of a weekday
  cannot be proven, and goes back one day otherwise.\<close>

lemma prior_business_day_loop_step:
  "prior_business_day_loop cal d =
     (if trading_day cal d then Inr d
      else if weekday d < 5 \<and> \<not> is_ok (cal (d_year d)) then Inl (projl (cal (d_year d)))
      else (case prev_day d of Inl e \<Rightarrow> Inl e | Inr d' \<Rightarrow> prior_business_day_loop cal d'))"
  by (subst prior_business_day_loop.simps) (auto simp: trading_day_def split: sum.splits)

lemma prior_business_day_loop_correct:
  assumes "valid_date d" and "prior_business_day_loop cal d = Inr e"
  shows "valid_date e \<and> e \<le> d \<and> trading_day cal e \<and>
    (\<forall>x. valid_date x \<longrightarrow> e < x \<longrightarrow> x \<le> d \<longrightarrow> \<not> trading_day cal x)"
  using assms
proof (induction cal d rule: prior_business_day_loop.induct)
  case (1 cal d)
  show ?case
  proof (cases "trading_day cal d")
    case True
    then show ?thesis using 1(3,4) by (auto simp: prior_business_day_loop_step)
  next
    case False
    with 1(4) obtain d' where d': "prev_day d = Inr d'" and rec: "prior_business_day_loop cal d' = Inr e"
      and open_cal: "5 \<le> weekday d \<or> is_ok (cal (d_year d))"
      by (subst (asm) prior_business_day_loop_step) (auto split: if_splits sum.splits)
    have v: "valid_date d'" "d' < d"
      using 1(3) d' prev_day_valid prev_day_less by blast+
    have IH: "valid_date e \<and> e \<le> d' \<and> trading_day cal e \<and>
      (\<forall>x. valid_date x \<longrightarrow> e < x \<longrightarrow> x \<le> d' \<longrightarrow> \<not> trading_day cal x)"
    proof (cases "5 \<le> weekday d")
      case True
      then show ?thesis using 1(1)[OF True d' v(1) rec] by simp
    next
      case week: False
      then obtain hs where "cal (d_year d) = Inr hs" "d \<in> set hs"
        using open_cal False by (auto simp: is_ok_iff trading_day_def)
      then show ?thesis using 1(2)[OF week _ _ d' v(1) rec] by simp
    qed
    have "x \<le> d'" if "valid_date x" "x \<le> d" "trading_day cal x" for x
      using that False prev_day_greatest[OF 1(3) that(1) d'] by (cases "x = d") auto
    then show ?thesis
      using IH v by (meson less_imp_le order_trans)
  qed
qed

lemma d_year_mono: "d \<le> e \<Longrightarrow> d_year d \<le> d_year e"
  by (cases d; cases e) (auto simp: less_eq_date_def)

text \<open>The loop returns when the calendar covers every year back to that of a trading day.\<close>

lemma prior_business_day_loop_returns:
  assumes "valid_date d" and "t \<le> d" and "trading_day cal t" and "valid_date t"
    and "\<And>y. d_year t \<le> y \<Longrightarrow> y \<le> d_year d \<Longrightarrow> is_ok (cal y)"
  shows "\<exists>e. prior_business_day_loop cal d = Inr e \<and> t \<le> e"
  using assms
proof (induction "days_gone d" arbitrary: d rule: less_induct)
  case less
  show ?case
  proof (cases "trading_day cal d")
    case True
    then show ?thesis using less(3) by (auto simp: prior_business_day_loop_step)
  next
    case False
    then have "t < d" using less.prems(2,3) by (auto simp: le_less)
    have "Date 1 1 1 \<le> t"
      using less.prems(4) by (cases t) (auto simp: less_eq_date_def MINYEAR_def)
    with \<open>t < d\<close> obtain d' where d': "prev_day d = Inr d'"
      using prev_day_ok[OF less.prems(1)] by (meson le_less_trans)
    have "t \<le> d'" using prev_day_greatest[OF less.prems(1,4) d' \<open>t < d\<close>] .
    moreover have "d' < d" "valid_date d'" "days_gone d' < days_gone d"
      using d' less.prems(1) prev_day_less prev_day_valid days_gone_prev_day by blast+
    ultimately have "\<exists>e. prior_business_day_loop cal d' = Inr e \<and> t \<le> e"
      using less.hyps[of d'] less.prems(3,4,5) d_year_mono[of d' d] by force
    moreover have "is_ok (cal (d_year d))"
      using less.prems(5) d_year_mono[OF less.prems(2)] by blast
    ultimately show ?thesis
      using False d' by (subst prior_business_day_loop_step) simp
  qed
qed

lemma market_calendar_for_symbol_covers:
  "starts_with ''LME_'' symbol \<Longrightarrow> 2023 \<le> y \<Longrightarrow> y \<le> 2035 \<Longrightarrow> is_ok (market_calendar_for_symbol symbol y)"
proof -
  assume "starts_with ''LME_'' symbol" "2023 \<le> y" "y \<le> 2035"
  moreover from this have "y \<in> {2023, 2024, 2025, 2026, 2027, 2028, 2029, 2030, 2031, 2032, 2033, 2034, 2035}"
    by (simp, presburger)
  ultimately show ?thesis
    by (auto simp: market_calendar_for_symbol_def LME_HOLIDAYS_BY_YEAR_def)
qed

text \<open>C25: For an LME symbol and a price date from 4 January 2023 to 1 January 2036 the search
  returns. The day it returns lies before the price date, is a weekday that is not an LME
  holiday, and is the last such day.\<close>

theorem prior_business_day_correct:
  assumes "starts_with ''LME_'' symbol" and "valid_date price_date"
    and "Date 2023 1 3 < price_date" and "price_date \<le> Date 2036 1 1"
  shows "\<exists>e. prior_business_day price_date (market_calendar_for_symbol symbol) = Inr e
    \<and> valid_date e \<and> e < price_date \<and> trading_day (market_calendar_for_symbol symbol) e
    \<and> (\<forall>x. valid_date x \<longrightarrow> e < x \<longrightarrow> x < price_date \<longrightarrow>
          \<not> trading_day (market_calendar_for_symbol symbol) x)"
proof -
  let ?cal = "market_calendar_for_symbol symbol" and ?t = "Date 2023 1 3"
  have t: "valid_date ?t" "trading_day ?cal ?t"
    using assms(1) by (simp_all add: trading_day_def market_calendar_for_symbol_def LME_HOLIDAYS_BY_YEAR_def
        weekday_def MINYEAR_def MAXYEAR_def days_in_month_def is_leap_def days_before_year_def)
  have "Date 1 1 1 < price_date" by (rule less_trans[OF _ assms(3)]) simp
  then obtain d where d: "prev_day price_date = Inr d"
    using prev_day_ok assms(2) by blast
  have v: "valid_date d" "d < price_date" "?t \<le> d"
    using d assms(2,3) t(1) prev_day_valid prev_day_less prev_day_greatest by blast+
  have "d < Date 2036 1 1" using v(2) assms(4) by (rule less_le_trans)
  then have "d_year d \<le> 2035" using v(1) by (cases d) (auto simp: MINYEAR_def)
  then obtain e where e: "prior_business_day_loop ?cal d = Inr e"
    using prior_business_day_loop_returns[OF v(1,3) t(2,1)] market_calendar_for_symbol_covers[OF assms(1)]
    by fastforce
  have "x \<le> d" if "valid_date x" "x < price_date" for x
    using prev_day_greatest[OF assms(2) that(1) d that(2)] .
  then show ?thesis
    using prior_business_day_loop_correct[OF v(1) e] v(2) e d
    by (auto simp: prior_business_day_def intro: le_less_trans)
qed

theorem prior_business_day_correct_witness:
  "starts_with ''LME_'' ''LME_CU'' \<and> (\<exists>e. prior_business_day (Date 2026 4 7) (market_calendar_for_symbol ''LME_CU'') = Inr e
    \<and> trading_day (market_calendar_for_symbol ''LME_CU'') e)"
proof -
  have "starts_with ''LME_'' ''LME_CU''" by (simp add: starts_with_def)
  moreover have "valid_date (Date 2026 4 7)" "Date 2023 1 3 < Date 2026 4 7" "Date 2026 4 7 \<le> Date 2036 1 1"
    by (simp_all add: MINYEAR_def MAXYEAR_def days_in_month_def less_eq_date_def)
  ultimately show ?thesis
    using prior_business_day_correct[of "''LME_CU''" "Date 2026 4 7"] by blast
qed

end
