(* ===== verification/Price_Lookup.thy ===== *)
theory Price_Lookup
  imports HC_Models Market_Calendar
begin

text \<open>
  \<open>backend/app/services/price_lookup_service.py\<close>: commodity names, the settlement symbol of a
  commodity and the D-1 cash-settlement price with its provenance. The contract the
  valuation services rely on is the locale \<open>price_oracle\<close>: a quote is for the symbol asked,
  from its canonical source, and of the last trading day before the valuation date.
\<close>

section \<open>Commodities\<close>

definition COMMODITY_SYMBOL_MAP :: "(string \<times> string) list" where
  "COMMODITY_SYMBOL_MAP =
    [(''LME_AL'', ''LME_ALU_CASH_SETTLEMENT_DAILY''),
     (''LME_CU'', ''LME_CU_CASH_SETTLEMENT_DAILY''),
     (''LME_ZN'', ''LME_ZN_CASH_SETTLEMENT_DAILY''),
     (''LME_NI'', ''LME_NI_CASH_SETTLEMENT_DAILY''),
     (''LME_PB'', ''LME_PB_CASH_SETTLEMENT_DAILY''),
     (''LME_SN'', ''LME_SN_CASH_SETTLEMENT_DAILY''),
     (''ALUMINUM'', ''LME_ALU_CASH_SETTLEMENT_DAILY''),
     (''ALUMINIUM'', ''LME_ALU_CASH_SETTLEMENT_DAILY''),
     (''COPPER'', ''LME_CU_CASH_SETTLEMENT_DAILY''),
     (''ZINC'', ''LME_ZN_CASH_SETTLEMENT_DAILY''),
     (''NICKEL'', ''LME_NI_CASH_SETTLEMENT_DAILY''),
     (''LEAD'', ''LME_PB_CASH_SETTLEMENT_DAILY''),
     (''TIN'', ''LME_SN_CASH_SETTLEMENT_DAILY'')]"

definition CANONICAL_COMMODITY_MAP :: "(string \<times> string) list" where
  "CANONICAL_COMMODITY_MAP =
    [(''LME_AL'', ''ALUMINUM''), (''ALUMINUM'', ''ALUMINUM''), (''ALUMINIUM'', ''ALUMINUM''),
     (''LME_CU'', ''COPPER''), (''COPPER'', ''COPPER''),
     (''LME_ZN'', ''ZINC''), (''ZINC'', ''ZINC''),
     (''LME_NI'', ''NICKEL''), (''NICKEL'', ''NICKEL''),
     (''LME_PB'', ''LEAD''), (''LEAD'', ''LEAD''),
     (''LME_SN'', ''TIN''), (''TIN'', ''TIN'')]"

text \<open>The callers pass a column that is not nullable, so \<open>None\<close> does not occur.\<close>

definition canonical_commodity :: "string \<Rightarrow> string" where
  "canonical_commodity commodity =
     (let key = upper (strip commodity)
      in case map_of CANONICAL_COMMODITY_MAP key of None \<Rightarrow> key | Some c \<Rightarrow> c)"

text \<open>\<open>canonical_commodity(c) or c\<close>: an empty canonical name falls back to the raw one.\<close>

definition commodity_key :: "string \<Rightarrow> string" where
  "commodity_key c = (if canonical_commodity c = '''' then c else canonical_commodity c)"

definition commodity_aliases :: "string \<Rightarrow> string set" where
  "commodity_aliases commodity =
     (let canonical = canonical_commodity commodity
      in set (map fst (filter (\<lambda>(al, c). c = canonical) CANONICAL_COMMODITY_MAP))
           \<union> {commodity, canonical})"

definition resolve_symbol :: "string \<Rightarrow> string result" where
  "resolve_symbol commodity =
     (case map_of COMMODITY_SYMBOL_MAP (upper commodity) of
        None \<Rightarrow> Inl (HTTPException HTTP_400
          (Msg ''No price-symbol mapping for commodity '{}' '' [AStr commodity]))
      | Some symb \<Rightarrow> Inr symb)"

section \<open>The D-1 price\<close>

text \<open>The columns \<open>source, symbol, settlement_date\<close> are unique, so \<open>first()\<close> reads the only row.\<close>

definition get_cash_settlement_price_d1_with_provenance :: "db \<Rightarrow> string \<Rightarrow> date \<Rightarrow> PriceQuote result" where
  "get_cash_settlement_price_d1_with_provenance s symbol as_of_date =
     (case canonical_source_for_symbol symbol of
        Inl e \<Rightarrow> Inl e
      | Inr canonical_source \<Rightarrow>
     (case prior_business_day as_of_date (market_calendar_for_symbol symbol) of
        Inl e \<Rightarrow> Inl e
      | Inr prior_bd \<Rightarrow>
     (case find (\<lambda>p. csp_source p = canonical_source \<and> csp_symbol p = symbol
                    \<and> csp_settlement_date p = prior_bd) (prices s) of
        None \<Rightarrow> Inl (PriceReferenceUnprovable
          (Msg ''No {} {} cash settlement for prior business day {} (as_of={}); older settlements and other sources are NOT considered.''
             [AStr canonical_source, AStr symbol, AStr (isoformat prior_bd), AStr (isoformat as_of_date)]))
      | Some row \<Rightarrow> Inr \<lparr>pq_value = csp_price_usd row, pq_source = csp_source row,
                           pq_settlement_date = csp_settlement_date row, pq_symbol = symbol\<rparr>)))"

text \<open>Only the domain exception is translated; every other exception passes through.\<close>

definition unprovable_to_424 :: "'a result \<Rightarrow> 'a result" where
  "unprovable_to_424 r = (case r of
       Inl (PriceReferenceUnprovable m) \<Rightarrow> Inl (HTTPException HTTP_424 m)
     | x \<Rightarrow> x)"

definition get_cash_settlement_price_d1 :: "db \<Rightarrow> string \<Rightarrow> date \<Rightarrow> decimal result" where
  "get_cash_settlement_price_d1 s symbol as_of_date =
     map_sum id pq_value (unprovable_to_424 (get_cash_settlement_price_d1_with_provenance s symbol as_of_date))"

lemma unprovable_to_424_Inr [simp]: "unprovable_to_424 r = Inr x \<longleftrightarrow> r = Inr x"
  by (cases r) (auto simp: unprovable_to_424_def split: py_error.splits)

section \<open>Laws of commodity names\<close>

text \<open>Canonical names are fixed points: they survive upper-casing, stripping and the map.\<close>

lemma canonical_map_range:
  "map_of CANONICAL_COMMODITY_MAP k = Some c \<Longrightarrow>
     c \<in> {''ALUMINUM'', ''COPPER'', ''ZINC'', ''NICKEL'', ''LEAD'', ''TIN''}"
  by (auto simp: CANONICAL_COMMODITY_MAP_def split: if_splits)

lemma canonical_name_fixed:
  "c \<in> {''ALUMINUM'', ''COPPER'', ''ZINC'', ''NICKEL'', ''LEAD'', ''TIN''} \<Longrightarrow> canonical_commodity c = c"
  by (elim insertE emptyE; simp only:; code_simp)

lemma canonical_commodity_cases:
  obtains (mapped) "canonical_commodity c \<in> {''ALUMINUM'', ''COPPER'', ''ZINC'', ''NICKEL'', ''LEAD'', ''TIN''}"
  | (raw) "map_of CANONICAL_COMMODITY_MAP (upper (strip c)) = None" "canonical_commodity c = upper (strip c)"
  using canonical_map_range by (cases "map_of CANONICAL_COMMODITY_MAP (upper (strip c))")
    (auto simp: canonical_commodity_def)

lemma upper_strip_idem [simp]: "upper (strip (upper (strip c))) = upper (strip c)"
  by (simp add: strip_upper)

lemma canonical_commodity_idem [simp]: "canonical_commodity (canonical_commodity c) = canonical_commodity c"
proof (cases c rule: canonical_commodity_cases)
  case mapped
  then show ?thesis by (rule canonical_name_fixed)
next
  case raw
  show ?thesis
    unfolding raw(2) using raw(1) by (simp add: canonical_commodity_def Let_def)
qed

lemma canonical_commodity_upper: "canonical_commodity (upper c) = canonical_commodity c"
  by (simp add: canonical_commodity_def strip_upper)

lemma canonical_of_alias:
  "(al, c) \<in> set CANONICAL_COMMODITY_MAP \<Longrightarrow> canonical_commodity al = c"
  unfolding CANONICAL_COMMODITY_MAP_def
  by (simp only: list.set insert_iff empty_iff prod.inject, elim disjE conjE FalseE; simp only:; code_simp)

text \<open>The commodity a settlement symbol prices.\<close>

definition symbol_commodity :: "string \<Rightarrow> string" where
  "symbol_commodity symb =
     (case map_of [(''LME_ALU_CASH_SETTLEMENT_DAILY'', ''ALUMINUM''), (''LME_CU_CASH_SETTLEMENT_DAILY'', ''COPPER''),
        (''LME_ZN_CASH_SETTLEMENT_DAILY'', ''ZINC''), (''LME_NI_CASH_SETTLEMENT_DAILY'', ''NICKEL''),
        (''LME_PB_CASH_SETTLEMENT_DAILY'', ''LEAD''), (''LME_SN_CASH_SETTLEMENT_DAILY'', ''TIN'')] symb of
        None \<Rightarrow> '''' | Some c \<Rightarrow> c)"

lemma symbol_map_entry:
  "(c, symb) \<in> set COMMODITY_SYMBOL_MAP \<Longrightarrow> canonical_commodity c = symbol_commodity symb"
  unfolding COMMODITY_SYMBOL_MAP_def
  by (simp only: list.set insert_iff empty_iff prod.inject, elim disjE conjE FalseE; simp only:; code_simp)

lemma resolve_symbol_canonical:
  assumes "resolve_symbol c = Inr symb"
  shows "canonical_commodity c = symbol_commodity symb"
proof -
  have "(upper c, symb) \<in> set COMMODITY_SYMBOL_MAP"
    using assms by (auto simp: resolve_symbol_def split: option.splits dest: map_of_SomeD)
  then show ?thesis
    using symbol_map_entry canonical_commodity_upper by metis
qed

lemma symbols_distinct:
  assumes "(c, symb) \<in> set COMMODITY_SYMBOL_MAP" and "(c', symb') \<in> set COMMODITY_SYMBOL_MAP"
    and "symbol_commodity symb = symbol_commodity symb'"
  shows "symb = symb'"
proof -
  have "map_of [(''ALUMINUM'', ''LME_ALU_CASH_SETTLEMENT_DAILY''), (''COPPER'', ''LME_CU_CASH_SETTLEMENT_DAILY''),
      (''ZINC'', ''LME_ZN_CASH_SETTLEMENT_DAILY''), (''NICKEL'', ''LME_NI_CASH_SETTLEMENT_DAILY''),
      (''LEAD'', ''LME_PB_CASH_SETTLEMENT_DAILY''), (''TIN'', ''LME_SN_CASH_SETTLEMENT_DAILY'')]
      (symbol_commodity x) = Some x" if "(k, x) \<in> set COMMODITY_SYMBOL_MAP" for k x
    using that by (auto simp: COMMODITY_SYMBOL_MAP_def symbol_commodity_def)
  with assms show ?thesis by (metis option.inject)
qed

section \<open>The price-oracle contract\<close>

text \<open>
  What a D-1 lookup promises to the valuation services, for whatever lookup they are given:
  the quote is for the requested symbol and from its canonical source, its settlement date
  is the last trading day before the valuation date, its value is stored evidence, and only
  the price table is read.
\<close>

locale price_oracle =
  fixes lookup :: "db \<Rightarrow> string \<Rightarrow> date \<Rightarrow> PriceQuote result"
  assumes quote_symbol: "lookup s symb d = Inr q \<Longrightarrow> pq_symbol q = symb"
    and quote_source: "lookup s symb d = Inr q \<Longrightarrow> canonical_source_for_symbol symb = Inr (pq_source q)"
    and quote_date: "lookup s symb d = Inr q \<Longrightarrow>
      prior_business_day d (market_calendar_for_symbol symb) = Inr (pq_settlement_date q)"
    and quote_evidence: "lookup s symb d = Inr q \<Longrightarrow>
      \<exists>row \<in> set (prices s). csp_symbol row = symb \<and> csp_source row = pq_source q
        \<and> csp_settlement_date row = pq_settlement_date q \<and> csp_price_usd row = pq_value q"
    and reads_prices: "prices s = prices s' \<Longrightarrow> lookup s symb d = lookup s' symb d"
begin

text \<open>A valuation never looks ahead: the price it uses was settled before the valuation date.\<close>

lemma quote_before:
  assumes "lookup s symb d = Inr q" and "valid_date d"
  shows "pq_settlement_date q < d \<and> trading_day (market_calendar_for_symbol symb) (pq_settlement_date q)"
proof -
  from quote_date[OF assms(1)] obtain c where c: "prev_day d = Inr c"
    and e: "prior_business_day_loop (market_calendar_for_symbol symb) c = Inr (pq_settlement_date q)"
    by (auto simp: prior_business_day_def split: sum.splits)
  show ?thesis
    using prior_business_day_loop_correct[OF prev_day_valid[OF assms(2) c] e] prev_day_less[OF c] by auto
qed

text \<open>Two lookups for one date agree on everything but the value, whatever was written to the
  database in between.\<close>

lemma quotes_agree:
  assumes "lookup s symb d = Inr q" and "lookup s' symb d = Inr q'"
  shows "pq_symbol q = pq_symbol q' \<and> pq_source q = pq_source q'
    \<and> pq_settlement_date q = pq_settlement_date q'"
  using quote_symbol[OF assms(1)] quote_symbol[OF assms(2)] quote_source[OF assms(1)] quote_source[OF assms(2)]
    quote_date[OF assms(1)] quote_date[OF assms(2)] by simp

end

lemma find_SomeD: "find P xs = Some x \<Longrightarrow> x \<in> set xs \<and> P x"
  by (induction xs) (auto split: if_splits)

interpretation d1: price_oracle get_cash_settlement_price_d1_with_provenance
proof
  fix s s' :: db and symb d q
  assume q: "get_cash_settlement_price_d1_with_provenance s symb d = Inr q"
  obtain src bd row where
    "canonical_source_for_symbol symb = Inr src"
    "prior_business_day d (market_calendar_for_symbol symb) = Inr bd"
    "row \<in> set (prices s)" "csp_source row = src" "csp_symbol row = symb" "csp_settlement_date row = bd"
    "q = \<lparr>pq_value = csp_price_usd row, pq_source = src, pq_settlement_date = bd, pq_symbol = symb\<rparr>"
    using q by (auto simp: get_cash_settlement_price_d1_with_provenance_def
        split: sum.splits option.splits dest!: find_SomeD)
  then show "pq_symbol q = symb" "canonical_source_for_symbol symb = Inr (pq_source q)"
    "prior_business_day d (market_calendar_for_symbol symb) = Inr (pq_settlement_date q)"
    "\<exists>row \<in> set (prices s). csp_symbol row = symb \<and> csp_source row = pq_source q
        \<and> csp_settlement_date row = pq_settlement_date q \<and> csp_price_usd row = pq_value q"
    by auto
qed (simp add: get_cash_settlement_price_d1_with_provenance_def cong: sum.case_cong)

section \<open>Properties\<close>

text \<open>Exposure grouping and pricing agree: of two commodity names that have a settlement
  symbol, the symbols are equal exactly when the canonical commodities are equal.\<close>

theorem resolve_symbol_respects_grouping:
  assumes "resolve_symbol c = Inr symb" and "resolve_symbol c' = Inr symb'"
  shows "symb = symb' \<longleftrightarrow> canonical_commodity c = canonical_commodity c'"
proof
  assume "canonical_commodity c = canonical_commodity c'"
  moreover have "(upper c, symb) \<in> set COMMODITY_SYMBOL_MAP" "(upper c', symb') \<in> set COMMODITY_SYMBOL_MAP"
    using assms by (auto simp: resolve_symbol_def split: option.splits dest: map_of_SomeD)
  ultimately show "symb = symb'"
    using symbols_distinct resolve_symbol_canonical[OF assms(1)] resolve_symbol_canonical[OF assms(2)] by simp
next
  assume "symb = symb'"
  then show "canonical_commodity c = canonical_commodity c'"
    using resolve_symbol_canonical assms by simp
qed

lemma upper_examples: "upper ''aluminium'' = ''ALUMINIUM''" "upper ''LME_AL'' = ''LME_AL''"
  by code_simp+

theorem resolve_symbol_respects_grouping_witness:
  "resolve_symbol ''aluminium'' = Inr ''LME_ALU_CASH_SETTLEMENT_DAILY'' \<and>
   resolve_symbol ''LME_AL'' = Inr ''LME_ALU_CASH_SETTLEMENT_DAILY'' \<and>
   canonical_commodity ''aluminium'' = canonical_commodity ''LME_AL''"
proof -
  have r: "resolve_symbol ''aluminium'' = Inr ''LME_ALU_CASH_SETTLEMENT_DAILY''"
    "resolve_symbol ''LME_AL'' = Inr ''LME_ALU_CASH_SETTLEMENT_DAILY''"
    using upper_examples by (simp_all add: resolve_symbol_def COMMODITY_SYMBOL_MAP_def)
  show ?thesis
    using resolve_symbol_respects_grouping[OF r] by (simp only: r simp_thms)
qed

text \<open>The aliases used to filter a commodity are names of that commodity: every alias has
  the same canonical name, and the canonical name is itself an alias.\<close>

lemma commodity_aliases_same_group:
  "canonical_commodity c \<in> commodity_aliases c \<and>
   commodity_aliases c \<subseteq> {al. canonical_commodity al = canonical_commodity c}"
  by (auto simp: commodity_aliases_def Let_def dest: canonical_of_alias)

end
