(* ===== verification/HC_Examples.thy ===== *)
theory HC_Examples
  imports HC_Models
begin

text \<open>
  Concrete rows and small databases on which the properties of the services are instantiated:
  a variable-price sales order and a short hedge of copper, and a database that holds them.
\<close>

definition sample_order :: "uuid \<Rightarrow> OrderType \<Rightarrow> PriceType \<Rightarrow> decimal \<Rightarrow> Order" where
  "sample_order i ot pt q =
    \<lparr>ord_id = i, ord_order_type = ot, ord_price_type = pt, ord_commodity = ''COPPER'', ord_quantity_mt = q,
     ord_pricing_convention = None, ord_avg_entry_price = None, ord_external_reference = None,
     ord_counterparty_name = None, ord_reference_month = None, ord_observation_date_start = None,
     ord_observation_date_end = None, ord_fixing_date = None, ord_counterparty_id = None,
     ord_pricing_type = None, ord_delivery_terms = None, ord_delivery_date_start = None,
     ord_delivery_date_end = None, ord_payment_terms_days = None, ord_currency = ''USD'', ord_notes = None,
     ord_created_at = 0, ord_deleted_at = None\<rparr>"

definition sample_contract :: "uuid \<Rightarrow> HedgeClassification \<Rightarrow> decimal \<Rightarrow> HedgeContract" where
  "sample_contract i cls q =
    \<lparr>hc_id = i, hc_reference = None, hc_commodity = ''COPPER'', hc_quantity_mt = q, hc_rfq_id = None,
     hc_rfq_quote_id = None, hc_counterparty_id = None, hc_fixed_price_value = Some 9000,
     hc_fixed_price_unit = None, hc_float_pricing_convention = None, hc_premium_discount = None,
     hc_pricing_period_month = None, hc_pricing_period_year = None, hc_fixing_date = None,
     hc_avg_computation_days = None, hc_status = HS_active,
     hc_fixed_leg_side = (if cls = HC_long then Leg_buy else Leg_sell),
     hc_variable_leg_side = (if cls = HC_long then Leg_sell else Leg_buy),
     hc_classification = cls, hc_settlement_date = None, hc_prompt_date = None, hc_trade_date = None,
     hc_source_type = None, hc_source_id = None, hc_notes = None, hc_created_by = None,
     hc_created_at = 0, hc_deleted_at = None\<rparr>"

text \<open>Order 0: a sales order of 100 t; contract 1: a short hedge of 60 t.\<close>

definition sample_db :: db where
  "sample_db = empty_db\<lparr>orders := [sample_order 0 OT_sales PT_variable 100],
     contracts := [sample_contract 1 HC_short 60], next_uuid := 2\<rparr>"

lemmas sample_defs = sample_db_def sample_order_def sample_contract_def empty_db_def

lemma quantize_mt_of_nat [simp]: "quantize_mt (of_nat n) = of_nat n"
proof -
  have eq: "(of_nat n :: rat) * 10 ^ 3 = of_int (int n * 1000)" by simp
  have "round_half_even (of_nat n * 10 ^ 3) = int n * 1000"
    unfolding eq by (rule round_half_even_of_int)
  then show ?thesis by (simp add: quantize_mt_def quantize_def)
qed

lemma quantize_mt_numeral [simp]: "quantize_mt (numeral k) = numeral k" "quantize_mt 1 = 1"
  using quantize_mt_of_nat[of "numeral k"] quantize_mt_of_nat[of 1] by simp_all

end
