(* ===== verification/Deal_Engine.thy ===== *)
theory Deal_Engine
  imports Price_Lookup HC_Examples
begin

text \<open>
  \<open>backend/app/services/deal_engine.py\<close>: deals, their polymorphic links to orders and hedge
  contracts, the aggregates derived from the links, and the hedge-direction rules. The
  session is opened with \<open>autoflush=False\<close>, so a query inside a loop does not see the rows
  the loop has added; the unique constraints are checked by the flush at the end.
\<close>

section \<open>Links\<close>

definition is_order_link :: "DealLinkedType \<Rightarrow> bool" where
  "is_order_link t \<longleftrightarrow> t = DL_sales_order \<or> t = DL_purchase_order"

definition is_hedge_link :: "DealLinkedType \<Rightarrow> bool" where
  "is_hedge_link t \<longleftrightarrow> t = DL_hedge \<or> t = DL_contract"

definition links_of_deal :: "db \<Rightarrow> uuid \<Rightarrow> DealLink list" where
  "links_of_deal s i = filter (\<lambda>l. dl_deal_id l = i) (deal_links s)"

definition no_live_linked_entities_exception :: "uuid \<Rightarrow> py_error" where
  "no_live_linked_entities_exception i = HTTPException HTTP_409
     (Msg ''Deal {} has no live linked entities; un-archive at least one Order/HedgeContract or remove the deal.''
       [AId i])"

text \<open>\<open>session.get\<close> and the test that the row exists and is not archived.\<close>

definition live_order :: "db \<Rightarrow> uuid \<Rightarrow> Order option" where
  "live_order s i = (case get_order s i of None \<Rightarrow> None | Some r \<Rightarrow> if ord_deleted_at r \<noteq> None then None else Some r)"

definition live_contract :: "db \<Rightarrow> uuid \<Rightarrow> HedgeContract option" where
  "live_contract s i =
     (case get_contract s i of None \<Rightarrow> None | Some c \<Rightarrow> if hc_deleted_at c \<noteq> None then None else Some c)"

text \<open>A live link with the row it resolves to; the code returns the links and two maps from
  link ids to rows, which this pairs up.\<close>

datatype linked_row = LOrder Order | LContract HedgeContract

fun resolve_live_linked_entities :: "db \<Rightarrow> DealLink list \<Rightarrow> (DealLink \<times> linked_row) list" where
  "resolve_live_linked_entities s [] = []"
| "resolve_live_linked_entities s (link # links) =
     (if is_order_link (dl_linked_type link) then
        (case live_order s (dl_linked_id link) of
           None \<Rightarrow> resolve_live_linked_entities s links
         | Some r \<Rightarrow> (link, LOrder r) # resolve_live_linked_entities s links)
      else
        (case live_contract s (dl_linked_id link) of
           None \<Rightarrow> resolve_live_linked_entities s links
         | Some c \<Rightarrow> (link, LContract c) # resolve_live_linked_entities s links))"

fun linked_type_value :: "DealLinkedType \<Rightarrow> string" where
  "linked_type_value DL_sales_order = ''sales_order''"
| "linked_type_value DL_purchase_order = ''purchase_order''"
| "linked_type_value DL_hedge = ''hedge''"
| "linked_type_value DL_contract = ''contract''"

text \<open>\<open>DealLinkedType(value)\<close>.\<close>

definition parse_linked_type :: "string \<Rightarrow> DealLinkedType result" where
  "parse_linked_type v =
     require (find (\<lambda>t. linked_type_value t = v) [DL_sales_order, DL_purchase_order, DL_hedge, DL_contract])
       (ValueError (Msg ''{} is not a valid DealLinkedType'' [AStr v]))"

definition reject_archived_link_target :: "db \<Rightarrow> DealLinkedType \<Rightarrow> uuid \<Rightarrow> unit result" where
  "reject_archived_link_target s linked_type linked_id =
     raise_if
       (if is_order_link linked_type
        then joined (\<lambda>r. ord_deleted_at r \<noteq> None) (get_order s linked_id)
        else joined (\<lambda>c. hc_deleted_at c \<noteq> None) (get_contract s linked_id))
       (HTTPException HTTP_422
         (Msg ''Cannot link archived {} {}; un-archive it before linking to a deal.''
           [AStr (linked_type_value linked_type), AId linked_id]))"

section \<open>Aggregates\<close>

text \<open>One turn of the loop of \<open>_recompute_tons\<close> over the links.\<close>

definition recompute_tons_step :: "db \<Rightarrow> DealLink \<Rightarrow> decimal \<times> decimal \<Rightarrow> decimal \<times> decimal" where
  "recompute_tons_step s link acc =
     (let (physical_tons, hedge_tons) = acc
      in if is_order_link (dl_linked_type link) then
           (case live_order s (dl_linked_id link) of
              None \<Rightarrow> (physical_tons, hedge_tons)
            | Some r \<Rightarrow> (quantize_mt (physical_tons + quantize_mt (ord_quantity_mt r)), hedge_tons))
         else
           (case live_contract s (dl_linked_id link) of
              None \<Rightarrow> (physical_tons, hedge_tons)
            | Some c \<Rightarrow> (physical_tons, quantize_mt (hedge_tons + quantize_mt (hc_quantity_mt c)))))"

definition status_of_ratio :: "decimal \<Rightarrow> DealStatus" where
  "status_of_ratio ratio =
     (if ratio \<le> 0 then DS_open else if ratio < 1 then DS_partially_hedged else DS_fully_hedged)"

definition aggregate_deal :: "decimal \<times> decimal \<Rightarrow> Deal \<Rightarrow> Deal" where
  "aggregate_deal tons deal =
     (let (physical_tons, hedge_tons) = tons;
          ratio = (if 0 < physical_tons then quantize_ratio (hedge_tons / physical_tons) else 0)
      in deal\<lparr>deal_total_physical_tons := quantize_mt physical_tons,
              deal_total_hedge_tons := quantize_mt hedge_tons,
              deal_hedge_ratio := ratio,
              deal_status := status_of_ratio ratio\<rparr>)"

definition recompute_tons :: "uuid \<Rightarrow> db \<Rightarrow> db" where
  "recompute_tons i s =
     s\<lparr>deals := update_row deal_id i
        (aggregate_deal (fold (recompute_tons_step s) (links_of_deal s i) (0, 0))) (deals s)\<rparr>"

definition deals_for_linked_entity :: "db \<Rightarrow> DealLinkedType list \<Rightarrow> uuid \<Rightarrow> uuid list" where
  "deals_for_linked_entity s linked_types linked_id =
     map deal_id (filter (\<lambda>d. \<exists>l \<in> set (deal_links s). dl_deal_id l = deal_id d
        \<and> dl_linked_type l \<in> set linked_types \<and> dl_linked_id l = linked_id) (deals s))"

definition recompute_deals_for_linked_entity :: "DealLinkedType list \<Rightarrow> uuid \<Rightarrow> db \<Rightarrow> db" where
  "recompute_deals_for_linked_entity linked_types linked_id s =
     fold recompute_tons (deals_for_linked_entity s linked_types linked_id) s"

section \<open>Hedge-direction rules\<close>

definition expected_link_type :: "HedgeContract \<Rightarrow> DealLinkedType" where
  "expected_link_type c = (if hc_classification c = HC_long then DL_purchase_order else DL_sales_order)"

definition matching_orders :: "db \<Rightarrow> HedgeContract \<Rightarrow> DealLink list \<Rightarrow> Order list" where
  "matching_orders s c order_links =
     List.map_filter (\<lambda>ol. if dl_linked_type ol \<noteq> expected_link_type c then None
                       else live_order s (dl_linked_id ol)) order_links"

definition check_hedged_order :: "HedgeContract \<Rightarrow> Order \<Rightarrow> unit result" where
  "check_hedged_order c r =
     (if ord_price_type r = PT_fixed then
        Inl (http HTTP_422 ''Cannot hedge a fixed-price order. Only variable-price orders have market exposure and require hedging.'')
      else if quantize_mt (ord_quantity_mt r) < quantize_mt (hc_quantity_mt c) then
        Inl (HTTPException HTTP_422
          (Msg ''Hedge quantity ({} MT) exceeds order quantity ({} MT). Hedge must be <= the order it covers.''
            [ADec (hc_quantity_mt c), ADec (quantize_mt (ord_quantity_mt r))]))
      else Inr ())"

definition check_hedge_against_orders :: "db \<Rightarrow> HedgeContract \<Rightarrow> DealLink list \<Rightarrow> unit result" where
  "check_hedge_against_orders s c order_links =
     (let matching = matching_orders s c order_links
      in if matching = [] then
           Inl (HTTPException HTTP_422 (Msg ''A {} hedge contract requires a {} order in the deal.''
             (if hc_classification c = HC_long then [AStr ''buy/long'', AStr ''PO (purchase)'']
              else [AStr ''sell/short'', AStr ''SO (sales)''])))
         else fold_result (\<lambda>r _. check_hedged_order c r) matching ())"

definition validate_hedge_direction :: "db \<Rightarrow> uuid \<Rightarrow> unit result" where
  "validate_hedge_direction s i =
     (let links = links_of_deal s i;
          hedge_links = filter (\<lambda>l. is_hedge_link (dl_linked_type l)) links;
          order_links = filter (\<lambda>l. is_order_link (dl_linked_type l)) links
      in if hedge_links = [] \<or> order_links = [] then Inr ()
         else fold_result (\<lambda>hl _. case live_contract s (dl_linked_id hl) of
                None \<Rightarrow> Inr ()
              | Some c \<Rightarrow> check_hedge_against_orders s c order_links) hedge_links ())"

definition validate_deals_for_linked_entity :: "db \<Rightarrow> DealLinkedType list \<Rightarrow> uuid \<Rightarrow> unit result" where
  "validate_deals_for_linked_entity s linked_types linked_id =
     fold_result (\<lambda>i _. validate_hedge_direction s i) (deals_for_linked_entity s linked_types linked_id) ()"

section \<open>Operations\<close>

text \<open>The unique constraints of \<open>deal_links\<close> (\<open>uq_deal_link_entity\<close>, which implies \<open>uq_deal_link\<close>).\<close>

definition link_entity :: "DealLink \<Rightarrow> DealLinkedType \<times> uuid" where
  "link_entity l = (dl_linked_type l, dl_linked_id l)"

definition unique_links :: "DealLink list \<Rightarrow> bool" where
  "unique_links ls \<longleftrightarrow> distinct (map link_entity ls)"

definition already_linked_error :: "db \<Rightarrow> DealLinkedType \<Rightarrow> DealLink \<Rightarrow> py_error" where
  "already_linked_error s t cross_deal = HTTPException HTTP_409
     (Msg ''This {} is already linked to deal {}. Each order/hedge may belong to only one deal.''
       [AStr (linked_type_value t),
        (case get_deal s (dl_deal_id cross_deal) of
           Some d \<Rightarrow> AStr (deal_reference d) | None \<Rightarrow> AId (dl_deal_id cross_deal))])"

text \<open>One turn of the loop of \<open>create_deal\<close>: the query reads the flushed table only; the new
  row is pending.\<close>

definition create_deal_link :: "db \<Rightarrow> datetime \<Rightarrow> uuid \<Rightarrow> string \<times> uuid \<Rightarrow> DealLink list \<Rightarrow> DealLink list result" where
  "create_deal_link s now i link_data pending =
     (let (linked_type, linked_id) = link_data
      in and_then (parse_linked_type linked_type) (\<lambda>t.
         and_then (reject_archived_link_target s t linked_id) (\<lambda>_.
         (case find (\<lambda>l. dl_linked_type l = t \<and> dl_linked_id l = linked_id) (deal_links s) of
            Some cross_deal \<Rightarrow> Inl (already_linked_error s t cross_deal)
          | None \<Rightarrow> Inr (pending @ [\<lparr>dl_id = next_uuid s + length pending, dl_deal_id = i,
                     dl_linked_type = t, dl_linked_id = linked_id, dl_created_at = now\<rparr>])))))"

definition create_deal :: "db \<Rightarrow> datetime \<Rightarrow> string \<Rightarrow> string \<Rightarrow> string \<Rightarrow> (string \<times> uuid) list \<Rightarrow> (db \<times> uuid) result" where
  "create_deal s now reference name commodity links_data =
     (if reference \<in> deal_reference ` set (deals s) then Inl (IntegrityError (Msg ''deals.reference'' [AStr reference]))
      else
        let i = next_uuid s;
            deal = \<lparr>deal_id = i, deal_reference = reference, deal_name = name, deal_commodity = commodity,
              deal_status = DS_open, deal_total_physical_tons = 0, deal_total_hedge_tons = 0,
              deal_hedge_ratio = 0, deal_created_at = now\<rparr>;
            s1 = s\<lparr>deals := deals s @ [deal], next_uuid := Suc i\<rparr>
        in and_then (fold_result (create_deal_link s1 now i) links_data []) (\<lambda>pending.
           and_then (raise_if (\<not> unique_links (deal_links s1 @ pending))
             (IntegrityError (Msg ''uq_deal_link_entity'' []))) (\<lambda>_.
           let s2 = s1\<lparr>deal_links := deal_links s1 @ pending, next_uuid := next_uuid s1 + length pending\<rparr>
           in and_then (validate_hedge_direction s2 i) (\<lambda>_. Inr (recompute_tons i s2, i)))))"

definition add_link :: "db \<Rightarrow> datetime \<Rightarrow> uuid \<Rightarrow> string \<Rightarrow> uuid \<Rightarrow> (db \<times> uuid) result" where
  "add_link s now i linked_type linked_id =
     and_then (require (get_deal s i) (http HTTP_404 ''Deal not found'')) (\<lambda>deal.
     and_then (parse_linked_type linked_type) (\<lambda>t.
     and_then (reject_archived_link_target s t linked_id) (\<lambda>_.
     and_then (raise_if (\<exists>l \<in> set (deal_links s). dl_deal_id l = i \<and> dl_linked_type l = t \<and> dl_linked_id l = linked_id)
       (http HTTP_409 ''Link already exists'')) (\<lambda>_.
     and_then (case find (\<lambda>l. dl_linked_type l = t \<and> dl_linked_id l = linked_id \<and> dl_deal_id l \<noteq> i) (deal_links s) of
         Some cross_deal \<Rightarrow> Inl (already_linked_error s t cross_deal) | None \<Rightarrow> Inr ()) (\<lambda>_.
     and_then
       (if is_hedge_link t then
          (case live_contract s linked_id of
             None \<Rightarrow> Inr ()
           | Some c \<Rightarrow>
               (let order_links = filter (\<lambda>l. is_order_link (dl_linked_type l)) (links_of_deal s i)
                in if order_links = [] then Inr () else check_hedge_against_orders s c order_links))
        else Inr ()) (\<lambda>_.
     let link = \<lparr>dl_id = next_uuid s, dl_deal_id = i, dl_linked_type = t, dl_linked_id = linked_id,
                 dl_created_at = now\<rparr>;
         s1 = s\<lparr>deal_links := deal_links s @ [link], next_uuid := Suc (next_uuid s)\<rparr>
     in Inr (recompute_tons i s1, next_uuid s)))))))"

definition remove_link :: "db \<Rightarrow> uuid \<Rightarrow> uuid \<Rightarrow> db result" where
  "remove_link s i link_id =
     and_then (require (get_deal s i) (http HTTP_404 ''Deal not found'')) (\<lambda>deal.
     and_then (require (find (\<lambda>l. dl_id l = link_id \<and> dl_deal_id l = i) (deal_links s))
       (http HTTP_404 ''Link not found'')) (\<lambda>link.
     Inr (recompute_tons i (s\<lparr>deal_links := filter (\<lambda>l. dl_id l \<noteq> link_id) (deal_links s)\<rparr>))))"

definition update_deal_status :: "db \<Rightarrow> uuid \<Rightarrow> db result" where
  "update_deal_status s i =
     and_then (require (get_deal s i) (http HTTP_404 ''Deal not found'')) (\<lambda>deal.
       Inr (s\<lparr>deals := update_row deal_id i
         (\<lambda>d. d\<lparr>deal_status := status_of_ratio (quantize_ratio (deal_hedge_ratio deal))\<rparr>) (deals s)\<rparr>))"

section \<open>Aggregates as sums\<close>

definition physical_tons_of :: "db \<Rightarrow> DealLink \<Rightarrow> decimal" where
  "physical_tons_of s l =
     (if is_order_link (dl_linked_type l)
      then (case live_order s (dl_linked_id l) of None \<Rightarrow> 0 | Some r \<Rightarrow> quantize_mt (ord_quantity_mt r)) else 0)"

definition hedge_tons_of :: "db \<Rightarrow> DealLink \<Rightarrow> decimal" where
  "hedge_tons_of s l =
     (if is_order_link (dl_linked_type l) then 0
      else (case live_contract s (dl_linked_id l) of None \<Rightarrow> 0 | Some c \<Rightarrow> quantize_mt (hc_quantity_mt c)))"

definition deal_tons :: "db \<Rightarrow> uuid \<Rightarrow> decimal \<times> decimal" where
  "deal_tons s i = (sum_list (map (physical_tons_of s) (links_of_deal s i)),
                    sum_list (map (hedge_tons_of s) (links_of_deal s i)))"

lemma recompute_tons_step_sum:
  assumes "quantize_mt p = p" and "quantize_mt h = h"
  shows "recompute_tons_step s l (p, h) = (p + physical_tons_of s l, h + hedge_tons_of s l)"
proof -
  have "quantize_mt (p + quantize_mt x) = p + quantize_mt x"
    "quantize_mt (h + quantize_mt x) = h + quantize_mt x" for x
    using mt.q_add[of p x] mt.q_add[of h x] assms by simp_all
  then show ?thesis
    by (simp add: recompute_tons_step_def physical_tons_of_def hedge_tons_of_def split: option.split)
qed

lemma quantize_mt_tons_of [simp]:
  "quantize_mt (physical_tons_of s l) = physical_tons_of s l"
  "quantize_mt (hedge_tons_of s l) = hedge_tons_of s l"
  by (auto simp: physical_tons_of_def hedge_tons_of_def split: option.split)

lemma fold_recompute_tons_step:
  assumes "quantize_mt p = p" and "quantize_mt h = h"
  shows "fold (recompute_tons_step s) ls (p, h) =
    (p + sum_list (map (physical_tons_of s) ls), h + sum_list (map (hedge_tons_of s) ls))"
  using assms
proof (induction ls arbitrary: p h)
  case (Cons l ls)
  have "quantize_mt (p + physical_tons_of s l) = p + physical_tons_of s l"
    "quantize_mt (h + hedge_tons_of s l) = h + hedge_tons_of s l"
    using mt.q_add_fixed Cons.prems by simp_all
  then show ?case
    using Cons by (simp add: recompute_tons_step_sum add.assoc)
qed simp

lemma deal_tons_fold: "fold (recompute_tons_step s) (links_of_deal s i) (0, 0) = deal_tons s i"
  by (simp add: fold_recompute_tons_step deal_tons_def)

lemma recompute_tons_eq:
  "recompute_tons i s = s\<lparr>deals := update_row deal_id i (aggregate_deal (deal_tons s i)) (deals s)\<rparr>"
  by (simp add: recompute_tons_def deal_tons_fold)

lemma aggregate_deal_id [simp]: "deal_id (aggregate_deal t d) = deal_id d"
  by (simp add: aggregate_deal_def Let_def split: prod.split)

lemma aggregate_deal_idem [simp]: "aggregate_deal t (aggregate_deal t d) = aggregate_deal t d"
  by (simp add: aggregate_deal_def Let_def split: prod.split)

section \<open>Invariants\<close>

text \<open>The stored aggregates of every deal are those of its current live links.\<close>

definition deal_consistent :: "db \<Rightarrow> Deal \<Rightarrow> bool" where
  "deal_consistent s d \<longleftrightarrow> aggregate_deal (deal_tons s (deal_id d)) d = d"

definition deals_consistent :: "db \<Rightarrow> bool" where
  "deals_consistent s \<longleftrightarrow> (\<forall>d \<in> set (deals s). deal_consistent s d)"

definition deal_keys_wf :: "db \<Rightarrow> bool" where
  "deal_keys_wf s \<longleftrightarrow> keyed deal_id (deals s) \<and> keyed dl_id (deal_links s)
     \<and> distinct (map deal_reference (deals s)) \<and> unique_links (deal_links s)
     \<and> (\<forall>d \<in> set (deals s). deal_id d < next_uuid s)
     \<and> (\<forall>l \<in> set (deal_links s). dl_id l < next_uuid s)
     \<and> (\<forall>l \<in> set (deal_links s). dl_deal_id l \<in> deal_id ` set (deals s))"

lemma recompute_tons_frame [simp]:
  "orders (recompute_tons i s) = orders s" "contracts (recompute_tons i s) = contracts s"
  "linkages (recompute_tons i s) = linkages s" "deal_links (recompute_tons i s) = deal_links s"
  "next_uuid (recompute_tons i s) = next_uuid s" "exposures (recompute_tons i s) = exposures s"
  "prices (recompute_tons i s) = prices s" "tasks (recompute_tons i s) = tasks s"
  "pnl_snapshots (recompute_tons i s) = pnl_snapshots s"
  by (simp_all add: recompute_tons_def)

text \<open>The tonnage of a deal depends on its links and on the orders and contracts only.\<close>

lemma tons_of_cong:
  "orders s' = orders s \<Longrightarrow> contracts s' = contracts s \<Longrightarrow>
     physical_tons_of s' = physical_tons_of s \<and> hedge_tons_of s' = hedge_tons_of s"
  by (auto simp: physical_tons_of_def hedge_tons_of_def live_order_def live_contract_def get_defs)

lemma deal_tons_cong:
  assumes "orders s' = orders s" and "contracts s' = contracts s"
    and "links_of_deal s' i = links_of_deal s i"
  shows "deal_tons s' i = deal_tons s i"
  using tons_of_cong[OF assms(1,2)] assms(3) by (simp add: deal_tons_def)

lemma deal_tons_recompute [simp]: "deal_tons (recompute_tons i s) j = deal_tons s j"
  by (rule deal_tons_cong) (simp_all add: links_of_deal_def)

lemma map_deal_id_recompute [simp]: "map deal_id (deals (recompute_tons i s)) = map deal_id (deals s)"
  by (simp add: recompute_tons_eq table_simps)

lemma set_deals_recompute:
  "d \<in> set (deals (recompute_tons i s)) \<longleftrightarrow>
     (\<exists>d0 \<in> set (deals s). d = (if deal_id d0 = i then aggregate_deal (deal_tons s i) d0 else d0))"
  by (auto simp: recompute_tons_eq set_update_row)

lemma recompute_tons_consistent:
  assumes "\<And>d. d \<in> set (deals s) \<Longrightarrow> deal_id d \<notin> insert i S \<Longrightarrow> deal_consistent s d"
    and "d \<in> set (deals (recompute_tons i s))" and "deal_id d \<notin> S"
  shows "deal_consistent (recompute_tons i s) d"
proof -
  obtain d0 where d0: "d0 \<in> set (deals s)"
    and d: "d = (if deal_id d0 = i then aggregate_deal (deal_tons s i) d0 else d0)"
    using assms(2) by (auto simp: set_deals_recompute)
  show ?thesis
  proof (cases "deal_id d0 = i")
    case True
    then show ?thesis by (simp add: d deal_consistent_def)
  next
    case False
    then show ?thesis
      using assms(1)[OF d0] assms(3) d by (simp add: deal_consistent_def)
  qed
qed

lemma fold_recompute_tons_consistent:
  assumes "\<And>d. d \<in> set (deals s) \<Longrightarrow> deal_id d \<notin> set is \<Longrightarrow> deal_consistent s d"
  shows "deals_consistent (fold recompute_tons is s)"
  using assms
proof (induction "is" arbitrary: s)
  case Nil
  then show ?case by (simp add: deals_consistent_def)
next
  case (Cons i "is")
  show ?case
    using recompute_tons_consistent[of s i "set is"] Cons.prems
    by (auto intro!: Cons.IH)
qed

lemma fold_recompute_tons_frame:
  "\<exists>ds. fold recompute_tons is s = s\<lparr>deals := ds\<rparr> \<and> map deal_id ds = map deal_id (deals s)
     \<and> map deal_reference ds = map deal_reference (deals s)"
proof (induction "is" arbitrary: s)
  case Nil
  show ?case by (rule exI[of _ "deals s"]) simp
next
  case (Cons i "is")
  have "deal_reference (aggregate_deal t d) = deal_reference d" for t d
    by (simp add: aggregate_deal_def Let_def split: prod.split)
  then have "map deal_reference (deals (recompute_tons i s)) = map deal_reference (deals s)"
    by (simp add: recompute_tons_eq update_row_def)
  moreover obtain ds where "fold recompute_tons is (recompute_tons i s) = (recompute_tons i s)\<lparr>deals := ds\<rparr>"
    and "map deal_id ds = map deal_id (deals (recompute_tons i s))"
    and "map deal_reference ds = map deal_reference (deals (recompute_tons i s))"
    using Cons[of "recompute_tons i s"] by blast
  moreover have "(recompute_tons i s)\<lparr>deals := ds\<rparr> = s\<lparr>deals := ds\<rparr>"
    by (simp add: recompute_tons_def)
  ultimately show ?case
    by (intro exI[of _ ds]) simp
qed

section \<open>The refresh contract\<close>

text \<open>
  What the order and contract services rely on when they archive a row: a refresh changes
  deals only, keeps their keys, and restores the aggregates of every deal when the write
  before it changed at most the tonnage of links to the entity that is refreshed.
\<close>

locale deal_refresh =
  fixes refresh :: "DealLinkedType list \<Rightarrow> uuid \<Rightarrow> db \<Rightarrow> db"
  assumes refresh_frame: "\<exists>ds. refresh ts i s = s\<lparr>deals := ds\<rparr> \<and> map deal_id ds = map deal_id (deals s)
      \<and> map deal_reference ds = map deal_reference (deals s)"
    and refresh_restores: "deals_consistent s \<Longrightarrow> deals s' = deals s \<Longrightarrow> deal_links s' = deal_links s \<Longrightarrow>
      (\<And>l. l \<in> set (deal_links s) \<Longrightarrow> \<not> (dl_linked_type l \<in> set ts \<and> dl_linked_id l = i) \<Longrightarrow>
        physical_tons_of s' l = physical_tons_of s l \<and> hedge_tons_of s' l = hedge_tons_of s l) \<Longrightarrow>
      deals_consistent (refresh ts i s')"
begin

lemma refresh_keeps [simp]:
  "orders (refresh ts i s) = orders s" "contracts (refresh ts i s) = contracts s"
  "linkages (refresh ts i s) = linkages s" "deal_links (refresh ts i s) = deal_links s"
  "next_uuid (refresh ts i s) = next_uuid s"
proof -
  obtain ds where "refresh ts i s = s\<lparr>deals := ds\<rparr>"
    using refresh_frame[of ts i s] by blast
  then show "orders (refresh ts i s) = orders s" "contracts (refresh ts i s) = contracts s"
    "linkages (refresh ts i s) = linkages s" "deal_links (refresh ts i s) = deal_links s"
    "next_uuid (refresh ts i s) = next_uuid s" by simp_all
qed

text \<open>Writing one order row and refreshing its deals keeps every deal consistent.\<close>

lemma order_write_refresh:
  assumes "deals_consistent s"
    and "s' = s\<lparr>orders := update_row ord_id i f (orders s)\<rparr>" and "\<And>r. ord_id (f r) = ord_id r"
  shows "deals_consistent (refresh [DL_sales_order, DL_purchase_order] i s')"
proof (rule refresh_restores[OF assms(1)])
  fix l :: DealLink
  assume "\<not> (dl_linked_type l \<in> set [DL_sales_order, DL_purchase_order] \<and> dl_linked_id l = i)"
  then have "is_order_link (dl_linked_type l) \<Longrightarrow> dl_linked_id l \<noteq> i"
    by (auto simp: is_order_link_def)
  then show "physical_tons_of s' l = physical_tons_of s l \<and> hedge_tons_of s' l = hedge_tons_of s l"
    by (simp add: assms(2,3) physical_tons_of_def hedge_tons_of_def live_order_def live_contract_def
        get_defs table_simps)
qed (simp_all add: assms(2))

lemma contract_write_refresh:
  assumes "deals_consistent s"
    and "s' = s\<lparr>contracts := update_row hc_id i f (contracts s)\<rparr>" and "\<And>c. hc_id (f c) = hc_id c"
  shows "deals_consistent (refresh [DL_hedge, DL_contract] i s')"
proof (rule refresh_restores[OF assms(1)])
  fix l :: DealLink
  assume "\<not> (dl_linked_type l \<in> set [DL_hedge, DL_contract] \<and> dl_linked_id l = i)"
  then have "\<not> is_order_link (dl_linked_type l) \<Longrightarrow> dl_linked_id l \<noteq> i"
    by (cases "dl_linked_type l") (auto simp: is_order_link_def)
  then show "physical_tons_of s' l = physical_tons_of s l \<and> hedge_tons_of s' l = hedge_tons_of s l"
    by (simp add: assms(2,3) physical_tons_of_def hedge_tons_of_def live_order_def live_contract_def
        get_defs table_simps)
qed (simp_all add: assms(2))

end

interpretation engine: deal_refresh recompute_deals_for_linked_entity
proof
  fix ts i and s :: db
  show "\<exists>ds. recompute_deals_for_linked_entity ts i s = s\<lparr>deals := ds\<rparr> \<and> map deal_id ds = map deal_id (deals s)
      \<and> map deal_reference ds = map deal_reference (deals s)"
    by (simp add: recompute_deals_for_linked_entity_def fold_recompute_tons_frame)
next
  fix s s' :: db and ts i
  assume cons: "deals_consistent s" and same: "deals s' = deals s" "deal_links s' = deal_links s"
    and tons: "\<And>l. l \<in> set (deal_links s) \<Longrightarrow> \<not> (dl_linked_type l \<in> set ts \<and> dl_linked_id l = i) \<Longrightarrow>
      physical_tons_of s' l = physical_tons_of s l \<and> hedge_tons_of s' l = hedge_tons_of s l"
  have "deal_consistent s' d" if d: "d \<in> set (deals s')" "deal_id d \<notin> set (deals_for_linked_entity s' ts i)" for d
  proof -
    have "\<not> (dl_linked_type l \<in> set ts \<and> dl_linked_id l = i)" if "l \<in> set (links_of_deal s (deal_id d))" for l
      using d that by (auto simp: deals_for_linked_entity_def links_of_deal_def same)
    with tons have "deal_tons s' (deal_id d) = deal_tons s (deal_id d)"
      by (auto simp: deal_tons_def links_of_deal_def same intro!: arg_cong[of _ _ sum_list])
    then show ?thesis
      using cons d(1) same by (simp add: deal_consistent_def deals_consistent_def)
  qed
  then show "deals_consistent (recompute_deals_for_linked_entity ts i s')"
    unfolding recompute_deals_for_linked_entity_def by (rule fold_recompute_tons_consistent)
qed

section \<open>The operations keep the invariants\<close>

lemma create_deal_link_step:
  assumes "create_deal_link s now i ld pending = Inr pending'"
  obtains l where "pending' = pending @ [l]" "dl_deal_id l = i" "dl_id l = next_uuid s + length pending"
  using assms by (auto simp: create_deal_link_def split: option.splits prod.splits)

lemma create_deal_link_pending:
  assumes "fold_result (create_deal_link s now i) links_data [] = Inr pending"
  shows "(\<forall>l \<in> set pending. dl_deal_id l = i) \<and>
    map dl_id pending = [next_uuid s ..< next_uuid s + length pending]"
  using assms
proof (rule fold_result_invariant)
  fix ld p p'
  assume p: "(\<forall>l \<in> set p. dl_deal_id l = i) \<and> map dl_id p = [next_uuid s ..< next_uuid s + length p]"
    and "create_deal_link s now i ld p = Inr p'"
  from this(2) obtain l where "p' = p @ [l]" "dl_deal_id l = i" "dl_id l = next_uuid s + length p"
    by (rule create_deal_link_step)
  with p show "(\<forall>l \<in> set p'. dl_deal_id l = i) \<and> map dl_id p' = [next_uuid s ..< next_uuid s + length p']"
    by simp
qed simp

lemma links_of_deal_append:
  assumes "\<And>l. l \<in> set ls \<Longrightarrow> dl_deal_id l = i" and "j \<noteq> i"
  shows "filter (\<lambda>l. dl_deal_id l = j) (deal_links s @ ls) = links_of_deal s j"
  using assms by (auto simp: links_of_deal_def filter_empty_conv)

lemma deal_keys_wf_recompute [simp]: "deal_keys_wf (recompute_tons i s) \<longleftrightarrow> deal_keys_wf s"
proof -
  have "deal_reference (aggregate_deal t d) = deal_reference d" for t d
    by (simp add: aggregate_deal_def Let_def split: prod.split)
  then have "map deal_reference (deals (recompute_tons i s)) = map deal_reference (deals s)"
    by (simp add: recompute_tons_eq update_row_def)
  moreover have "deal_id ` set (deals (recompute_tons i s)) = deal_id ` set (deals s)"
    using map_deal_id_recompute by (metis list.set_map)
  moreover from this have "(\<forall>d \<in> set (deals (recompute_tons i s)). deal_id d < n) \<longleftrightarrow> (\<forall>d \<in> set (deals s). deal_id d < n)" for n
    by (metis (no_types, lifting) image_iff)
  ultimately show ?thesis
    by (simp add: deal_keys_wf_def keyed_def)
qed

lemma deals_consistent_recompute:
  assumes "\<And>d. d \<in> set (deals s) \<Longrightarrow> deal_id d \<noteq> i \<Longrightarrow> deal_consistent s d"
  shows "deals_consistent (recompute_tons i s)"
  using fold_recompute_tons_consistent[of s "[i]"] assms by simp

text \<open>Adding links to one deal, to a table without duplicates, keeps the other deals as they are.\<close>

lemma add_links_consistent:
  assumes "deals_consistent s" and "\<And>l. l \<in> set ls \<Longrightarrow> dl_deal_id l = i"
    and "orders s' = orders s" "contracts s' = contracts s" "deal_links s' = deal_links s @ ls"
    and "\<And>d. d \<in> set (deals s') \<Longrightarrow> deal_id d \<noteq> i \<Longrightarrow> d \<in> set (deals s)"
  shows "deals_consistent (recompute_tons i s')"
proof (rule deals_consistent_recompute)
  fix d
  assume "d \<in> set (deals s')" and "deal_id d \<noteq> i"
  moreover from this have "links_of_deal s' (deal_id d) = links_of_deal s (deal_id d)"
    using links_of_deal_append[OF assms(2)] by (simp add: links_of_deal_def[of s'] assms(5))
  ultimately show "deal_consistent s' d"
    using assms(1,6) deal_tons_cong[OF assms(3,4)] by (simp add: deal_consistent_def deals_consistent_def)
qed

lemma create_deal_invariants:
  assumes "deal_keys_wf s"
    and "create_deal s now reference name commodity links_data = Inr (s', i)"
  shows "deal_keys_wf s' \<and> (deals_consistent s \<longrightarrow> deals_consistent s')"
proof -
  define deal where "deal = \<lparr>deal_id = next_uuid s, deal_reference = reference, deal_name = name,
    deal_commodity = commodity, deal_status = DS_open, deal_total_physical_tons = 0,
    deal_total_hedge_tons = 0, deal_hedge_ratio = 0, deal_created_at = now\<rparr>"
  define s1 where "s1 = s\<lparr>deals := deals s @ [deal], next_uuid := Suc (next_uuid s)\<rparr>"
  have fresh: "reference \<notin> deal_reference ` set (deals s)"
    and i: "i = next_uuid s"
    using assms(2) by (auto simp: create_deal_def Let_def split: if_splits)
  obtain pending where
    p: "fold_result (create_deal_link s1 now i) links_data [] = Inr pending"
    and u: "unique_links (deal_links s @ pending)"
    and s': "s' = recompute_tons i (s1\<lparr>deal_links := deal_links s @ pending, next_uuid := next_uuid s1 + length pending\<rparr>)"
    using assms(2) fresh by (auto simp: create_deal_def Let_def deal_def [symmetric] s1_def [symmetric])
      (simp add: s1_def)
  note pd = create_deal_link_pending[OF p]
  have "deals_consistent s'" if "deals_consistent s"
    unfolding s' by (rule add_links_consistent[OF that, of pending])
      (use pd in \<open>auto simp: s1_def deal_def i\<close>)
  moreover have "deal_keys_wf s'"
  proof -
    have ids: "map dl_id pending = [Suc i ..< Suc i + length pending]"
      using pd by (simp add: s1_def i)
    have "dl_id l \<in> {Suc i ..< Suc i + length pending}" if "l \<in> set pending" for l
      using that ids by (metis image_eqI list.set_map set_upt)
    then have lo: "i < dl_id l" "dl_id l < Suc i + length pending" if "l \<in> set pending" for l
      using that by fastforce+
    have old: "dl_id l < i" if "l \<in> set (deal_links s)" for l
      using assms(1) that by (simp add: deal_keys_wf_def i)
    have "distinct (map dl_id pending)"
      unfolding ids by (rule distinct_upt)
    then have "keyed dl_id (deal_links s @ pending)"
      using assms(1) lo(1) old by (fastforce simp: keyed_def deal_keys_wf_def)
    moreover have "dl_id l < Suc i + length pending" if "l \<in> set (deal_links s)" for l
      using old[OF that] by simp
    moreover have "keyed deal_id (deals s @ [deal])" "distinct (map deal_reference (deals s @ [deal]))"
      using assms(1) fresh by (auto simp: deal_keys_wf_def keyed_def deal_def)
    moreover have "deal_id d < Suc i + length pending" if "d \<in> set (deals s @ [deal])" for d
      using that assms(1) by (auto simp: deal_keys_wf_def deal_def i)
    moreover have "dl_deal_id l \<in> deal_id ` set (deals s @ [deal])" if "l \<in> set (deal_links s @ pending)" for l
      using that assms(1) pd by (auto simp: deal_keys_wf_def deal_def i)
    ultimately show ?thesis
      unfolding s' deal_keys_wf_recompute using u lo(2)
      by (auto simp: deal_keys_wf_def s1_def i)
  qed
  ultimately show ?thesis by simp
qed

lemma unique_links_snoc:
  "unique_links (ls @ [l]) \<longleftrightarrow> unique_links ls \<and> link_entity l \<notin> link_entity ` set ls"
  by (auto simp: unique_links_def)

lemma add_link_cases:
  assumes "add_link s now i linked_type linked_id = Inr (s', k)"
  obtains t l where "l = \<lparr>dl_id = next_uuid s, dl_deal_id = i, dl_linked_type = t, dl_linked_id = linked_id,
      dl_created_at = now\<rparr>"
    and "parse_linked_type linked_type = Inr t" and "k = next_uuid s"
    and "(t, linked_id) \<notin> link_entity ` set (deal_links s)"
    and "get_deal s i \<noteq> None"
    and "s' = recompute_tons i (s\<lparr>deal_links := deal_links s @ [l], next_uuid := Suc (next_uuid s)\<rparr>)"
    and "is_hedge_link t \<Longrightarrow> live_contract s linked_id = Some c \<Longrightarrow>
      \<exists>l \<in> set (links_of_deal s i). is_order_link (dl_linked_type l) \<Longrightarrow>
      check_hedge_against_orders s c (filter (\<lambda>l. is_order_link (dl_linked_type l)) (links_of_deal s i)) = Inr ()"
proof -
  obtain t where t: "parse_linked_type linked_type = Inr t"
    and dup: "\<not> (\<exists>l \<in> set (deal_links s). dl_deal_id l = i \<and> dl_linked_type l = t \<and> dl_linked_id l = linked_id)"
    and cross: "find (\<lambda>l. dl_linked_type l = t \<and> dl_linked_id l = linked_id \<and> dl_deal_id l \<noteq> i) (deal_links s) = None"
    using assms by (auto simp: add_link_def split: option.splits)
  have "(t, linked_id) \<notin> link_entity ` set (deal_links s)"
    using dup cross by (auto simp: link_entity_def find_None_iff)
  moreover have "check_hedge_against_orders s c (filter (\<lambda>l. is_order_link (dl_linked_type l)) (links_of_deal s i)) = Inr ()"
    if "is_hedge_link t" "live_contract s linked_id = Some c"
      "\<exists>l \<in> set (links_of_deal s i). is_order_link (dl_linked_type l)"
    using assms t that by (auto simp: add_link_def filter_empty_conv Let_def split: option.splits if_splits)
  moreover have "get_deal s i \<noteq> None" "k = next_uuid s"
    "s' = recompute_tons i (s\<lparr>deal_links := deal_links s @ [\<lparr>dl_id = next_uuid s, dl_deal_id = i,
       dl_linked_type = t, dl_linked_id = linked_id, dl_created_at = now\<rparr>], next_uuid := Suc (next_uuid s)\<rparr>)"
    using assms t by (auto simp: add_link_def Let_def)
  ultimately show ?thesis
    using that t by blast
qed

lemma add_link_invariants:
  assumes "deal_keys_wf s"
    and "add_link s now i linked_type linked_id = Inr (s', k)"
  shows "deal_keys_wf s' \<and> (deals_consistent s \<longrightarrow> deals_consistent s')"
  using assms(2)
proof (rule add_link_cases)
  fix t l
  assume l: "l = \<lparr>dl_id = next_uuid s, dl_deal_id = i, dl_linked_type = t, dl_linked_id = linked_id, dl_created_at = now\<rparr>"
    and new: "(t, linked_id) \<notin> link_entity ` set (deal_links s)"
    and deal: "get_deal s i \<noteq> None"
    and s': "s' = recompute_tons i (s\<lparr>deal_links := deal_links s @ [l], next_uuid := Suc (next_uuid s)\<rparr>)"
  have "deals_consistent s'" if "deals_consistent s"
    unfolding s' by (rule add_links_consistent[OF that, of "[l]"]) (auto simp: l)
  moreover have "i \<in> deal_id ` set (deals s)"
    using deal by (simp add: get_deal_def get_row_None_iff)
  then have "deal_keys_wf s'"
    using assms(1) new unfolding s' deal_keys_wf_recompute
    by (auto simp: deal_keys_wf_def unique_links_snoc link_entity_def l keyed_snoc less_Suc_eq)
  ultimately show ?thesis by simp
qed

lemma remove_link_invariants:
  assumes "deal_keys_wf s" and "remove_link s i k = Inr s'"
  shows "deal_keys_wf s' \<and> (deals_consistent s \<longrightarrow> deals_consistent s')"
proof -
  obtain l where l: "find (\<lambda>l. dl_id l = k \<and> dl_deal_id l = i) (deal_links s) = Some l"
    and s': "s' = recompute_tons i (s\<lparr>deal_links := filter (\<lambda>l. dl_id l \<noteq> k) (deal_links s)\<rparr>)"
    using assms(2) by (auto simp: remove_link_def)
  have only: "dl_deal_id l' = i" if "l' \<in> set (deal_links s)" "dl_id l' = k" for l'
    using assms(1) find_SomeD[OF l] that keyed_inj[of dl_id "deal_links s" l l']
    by (auto simp: deal_keys_wf_def)
  define s1 where "s1 = s\<lparr>deal_links := filter (\<lambda>l. dl_id l \<noteq> k) (deal_links s)\<rparr>"
  have tons: "deal_tons s1 j = deal_tons s j" if "j \<noteq> i" for j
  proof (rule deal_tons_cong)
    show "links_of_deal s1 j = links_of_deal s j"
      using only that by (auto simp: links_of_deal_def s1_def intro!: filter_cong)
  qed (simp_all add: s1_def)
  have "deals_consistent s'" if "deals_consistent s"
    unfolding s' s1_def [symmetric]
  proof (rule deals_consistent_recompute)
    fix d
    assume "d \<in> set (deals s1)" "deal_id d \<noteq> i"
    then show "deal_consistent s1 d"
      using that tons by (simp add: deal_consistent_def deals_consistent_def s1_def)
  qed
  moreover have "deal_keys_wf s'"
    using assms(1) unfolding s' deal_keys_wf_recompute
    by (auto simp: deal_keys_wf_def keyed_def unique_links_def distinct_map_filter)
  ultimately show ?thesis by simp
qed

section \<open>Hedge direction\<close>

lemma fold_result_unit:
  "fold_result (\<lambda>x _. f x) xs () = Inr () \<longleftrightarrow> (\<forall>x \<in> set xs. f x = Inr ())"
  by (induction xs) (auto split: sum.splits)

text \<open>A live hedge of a deal is covered when the deal has a live order on its side, and every
  live order on its side has a variable price and at least the quantity of the hedge.\<close>

definition hedge_covered :: "db \<Rightarrow> uuid \<Rightarrow> HedgeContract \<Rightarrow> bool" where
  "hedge_covered s i c \<longleftrightarrow>
     (\<exists>l \<in> set (links_of_deal s i). dl_linked_type l = expected_link_type c \<and> live_order s (dl_linked_id l) \<noteq> None) \<and>
     (\<forall>l \<in> set (links_of_deal s i). dl_linked_type l = expected_link_type c \<longrightarrow>
        (case live_order s (dl_linked_id l) of None \<Rightarrow> True
         | Some r \<Rightarrow> ord_price_type r = PT_variable \<and> quantize_mt (hc_quantity_mt c) \<le> quantize_mt (ord_quantity_mt r)))"

lemma is_order_link_expected [simp]: "is_order_link (expected_link_type c)"
  by (simp add: is_order_link_def expected_link_type_def)

lemma set_matching_orders:
  "set (matching_orders s c ls) =
     {r. \<exists>l \<in> set ls. dl_linked_type l = expected_link_type c \<and> live_order s (dl_linked_id l) = Some r}"
  by (force simp: matching_orders_def List.map_filter_def image_iff split: if_splits)

lemma check_hedged_order_ok:
  "check_hedged_order c r = Inr () \<longleftrightarrow>
     ord_price_type r = PT_variable \<and> quantize_mt (hc_quantity_mt c) \<le> quantize_mt (ord_quantity_mt r)"
  by (cases "ord_price_type r") (auto simp: check_hedged_order_def)

lemma check_hedge_against_orders_ok:
  "check_hedge_against_orders s c (filter (\<lambda>l. is_order_link (dl_linked_type l)) (links_of_deal s i)) = Inr ()
     \<longleftrightarrow> hedge_covered s i c"
proof -
  let ?ls = "filter (\<lambda>l. is_order_link (dl_linked_type l)) (links_of_deal s i)"
  have m: "set (matching_orders s c ?ls) =
      {r. \<exists>l \<in> set (links_of_deal s i). dl_linked_type l = expected_link_type c \<and> live_order s (dl_linked_id l) = Some r}"
    by (auto simp: set_matching_orders)
  have "check_hedge_against_orders s c ?ls = Inr () \<longleftrightarrow>
      set (matching_orders s c ?ls) \<noteq> {} \<and> (\<forall>r \<in> set (matching_orders s c ?ls). check_hedged_order c r = Inr ())"
    by (simp add: check_hedge_against_orders_def Let_def fold_result_unit)
  then show ?thesis
    unfolding m hedge_covered_def check_hedged_order_ok by (fastforce split: option.splits)
qed

lemma validate_hedge_direction_ok:
  "validate_hedge_direction s i = Inr () \<longleftrightarrow>
     (\<exists>l \<in> set (links_of_deal s i). is_order_link (dl_linked_type l)) \<longrightarrow>
     (\<forall>l \<in> set (links_of_deal s i). is_hedge_link (dl_linked_type l) \<longrightarrow>
        (\<forall>c. live_contract s (dl_linked_id l) = Some c \<longrightarrow> hedge_covered s i c))"
  by (auto simp: validate_hedge_direction_def Let_def filter_empty_conv fold_result_unit
      check_hedge_against_orders_ok split: option.splits)

lemma hedge_covered_recompute [simp]: "hedge_covered (recompute_tons j s) i c = hedge_covered s i c"
  by (simp add: hedge_covered_def links_of_deal_def live_order_def get_order_def)

section \<open>Properties\<close>

text \<open>C22: A deal that is created has covered hedges unless it has no order at all. Either no link of
  the new deal is to an order, or each of its live hedge contracts has a live order of the right
  side in the deal, and every such order is variable-priced and at least as large as the hedge.\<close>

theorem create_deal_covers_hedges:
  assumes "create_deal s now reference name commodity links_data = Inr (s', i)"
  shows "(\<forall>l \<in> set (links_of_deal s' i). \<not> is_order_link (dl_linked_type l))
    \<or> (\<forall>h \<in> set (links_of_deal s' i). \<forall>c. is_hedge_link (dl_linked_type h) \<and> live_contract s' (dl_linked_id h) = Some c
         \<longrightarrow> hedge_covered s' i c)"
proof -
  obtain s2 where v: "validate_hedge_direction s2 i = Inr ()" and s': "s' = recompute_tons i s2"
    using assms(1) by (auto simp: create_deal_def Let_def split: if_splits)
  then show ?thesis
    unfolding validate_hedge_direction_ok s' by (auto simp: links_of_deal_def live_contract_def get_contract_def)
qed

lemmas deal_eval = create_deal_def create_deal_link_def add_link_def parse_linked_type_def
  reject_archived_link_target_def unique_links_def link_entity_def validate_hedge_direction_def links_of_deal_def
  is_order_link_def is_hedge_link_def live_order_def live_contract_def get_defs check_hedge_against_orders_def
  matching_orders_def List.map_filter_def expected_link_type_def check_hedged_order_def Let_def

lemma sample_deal_created:
  "\<exists>s'. create_deal sample_db 0 ''D-1'' ''copper'' ''COPPER'' [(''sales_order'', 0), (''contract'', 1)] = Inr (s', 2)
     \<and> map link_entity (links_of_deal s' 2) = [(DL_sales_order, 0), (DL_contract, 1)]
     \<and> live_contract s' 1 = Some (sample_contract 1 HC_short 60)"
  by (simp add: deal_eval sample_defs)

theorem create_deal_covers_hedges_witness:
  "\<exists>s'. create_deal sample_db 0 ''D-1'' ''copper'' ''COPPER'' [(''sales_order'', 0), (''contract'', 1)] = Inr (s', 2)
     \<and> hedge_covered s' 2 (sample_contract 1 HC_short 60)"
proof -
  obtain s' where s': "create_deal sample_db 0 ''D-1'' ''copper'' ''COPPER'' [(''sales_order'', 0), (''contract'', 1)] = Inr (s', 2)"
    and links: "map link_entity (links_of_deal s' 2) = [(DL_sales_order, 0), (DL_contract, 1)]"
    and c: "live_contract s' 1 = Some (sample_contract 1 HC_short 60)"
    using sample_deal_created by (elim exE conjE)
  obtain l h where "links_of_deal s' 2 = [l, h]" "dl_linked_type l = DL_sales_order"
    "dl_linked_type h = DL_contract" "dl_linked_id h = 1"
    using links by (auto simp: map_eq_Cons_conv link_entity_def)
  then show ?thesis
    using create_deal_covers_hedges[OF s'] s' c
    by (auto simp: is_order_link_def is_hedge_link_def)
qed

text \<open>A deal of hedges only is created and left unchecked: the validator returns when there is no
  order link.\<close>

lemma create_deal_hedge_only:
  "\<exists>s' h. create_deal sample_db 0 ''D-1'' ''copper'' ''COPPER'' [(''contract'', 1)] = Inr (s', 2)
     \<and> links_of_deal s' 2 = [h] \<and> live_contract s' (dl_linked_id h) = Some (sample_contract 1 HC_short 60)
     \<and> \<not> hedge_covered s' 2 (sample_contract 1 HC_short 60)"
  by (simp add: deal_eval sample_defs) (simp add: hedge_covered_def deal_eval sample_defs)

text \<open>The same rule is not kept by \<open>add_link\<close>: linking a hedge to a deal without orders and then
  an order of the other side leaves a deal that the validator rejects.\<close>

definition hedge_then_order :: "(db \<times> uuid) result" where
  "hedge_then_order =
     and_then (create_deal (sample_db\<lparr>orders := [sample_order 0 OT_purchase PT_variable 100]\<rparr>)
       0 ''D-1'' ''copper'' ''COPPER'' []) (\<lambda>(s1, i).
     and_then (add_link s1 0 i ''contract'' 1) (\<lambda>(s2, _). add_link s2 0 i ''purchase_order'' 0))"

lemma add_link_order_after_hedge_unchecked:
  "(case hedge_then_order of Inl _ \<Rightarrow> False | Inr (s, _) \<Rightarrow> \<not> is_ok (validate_hedge_direction s 2))"
  by code_simp

end
