(* ===== verification/Linkage.thy ===== *)
theory Linkage
  imports Price_Lookup HC_Examples
begin

text \<open>
  \<open>backend/app/services/linkage_service.py\<close>: allocation of hedge contracts to orders. The
  advisory and row locks of PostgreSQL serialise the transactions, so one call of
  \<open>create\<close> is one atomic step here. The capacity contract is the locale \<open>allocation\<close>, which
  the order side and the contract side both provide.
\<close>

section \<open>Operations\<close>

definition validate_linkage_direction :: "Order \<Rightarrow> HedgeContract \<Rightarrow> unit result" where
  "validate_linkage_direction r c =
     (if ord_price_type r = PT_fixed then
        Inl (http HTTP_422 ''Cannot hedge a fixed-price order. Only variable-price orders have market exposure and require hedging.'')
      else
        let expected = (if ord_order_type r = OT_sales then HC_short else HC_long)
        in if hc_classification c \<noteq> expected then
             Inl (HTTPException HTTP_422
               (Msg ''Linkage direction mismatch: {} order requires a {} hedge, but contract classification is {}.''
                 [AStr (if ord_order_type r = OT_sales then ''sales'' else ''purchase''),
                  AStr (if expected = HC_short then ''short (sell-forward)'' else ''long (buy-forward)''),
                  AStr (if hc_classification c = HC_long then ''long'' else ''short'')]))
           else Inr ())"

fun contract_status_value :: "HedgeContractStatus \<Rightarrow> string" where
  "contract_status_value HS_active = ''active''"
| "contract_status_value HS_partially_settled = ''partially_settled''"
| "contract_status_value HS_settled = ''settled''"
| "contract_status_value HS_cancelled = ''cancelled''"

text \<open>The two capacity queries: linkages of an order with a live hedge, linkages of a contract
  with a live order.\<close>

definition order_linked_qty :: "db \<Rightarrow> uuid \<Rightarrow> decimal" where
  "order_linked_qty s i =
     sum_where (\<lambda>l. lk_order_id l = i \<and> joined hedge_live (get_contract s (lk_contract_id l))) lk_quantity_mt (linkages s)"

definition contract_linked_qty :: "db \<Rightarrow> uuid \<Rightarrow> decimal" where
  "contract_linked_qty s i =
     sum_where (\<lambda>l. lk_contract_id l = i \<and> joined order_live (get_order s (lk_order_id l))) lk_quantity_mt (linkages s)"

definition create_linkage :: "db \<Rightarrow> datetime \<Rightarrow> uuid \<Rightarrow> uuid \<Rightarrow> decimal \<Rightarrow> (db \<times> uuid) result" where
  "create_linkage s now order_id contract_id quantity_mt =
     and_then (require (get_order s order_id) (http HTTP_404 ''Order not found'')) (\<lambda>r.
     and_then (require (get_contract s contract_id) (http HTTP_404 ''Hedge contract not found'')) (\<lambda>c.
     and_then (raise_if (ord_deleted_at r \<noteq> None) (http HTTP_422 ''Cannot link to an archived order'')) (\<lambda>_.
     and_then (raise_if (hc_deleted_at c \<noteq> None) (http HTTP_422 ''Cannot link to an archived hedge contract'')) (\<lambda>_.
     and_then (raise_if (\<not> hedge_open c) (HTTPException HTTP_422
       (Msg ''Cannot link to a hedge contract whose status is {}: only active or partially_settled hedges accept new linkages''
         [AStr (contract_status_value (hc_status c))]))) (\<lambda>_.
     and_then (raise_if (canonical_commodity (ord_commodity r) \<noteq> canonical_commodity (hc_commodity c))
       (http HTTP_400 ''Order commodity must match hedge contract commodity'')) (\<lambda>_.
     and_then (validate_linkage_direction r c) (\<lambda>_.
     let linked_order_total = quantize_mt (order_linked_qty s order_id);
         linked_contract_total = quantize_mt (contract_linked_qty s contract_id);
         requested_qty = quantize_mt quantity_mt;
         order_qty = quantize_mt (ord_quantity_mt r);
         contract_qty = quantize_mt (hc_quantity_mt c)
     in and_then (raise_if (order_qty < quantize_mt (linked_order_total + requested_qty))
          (http HTTP_400 ''Linkage exceeds order quantity'')) (\<lambda>_.
        and_then (raise_if (contract_qty < quantize_mt (linked_contract_total + requested_qty))
          (http HTTP_400 ''Linkage exceeds contract quantity'')) (\<lambda>_.
        Inr (s\<lparr>linkages := linkages s @ [\<lparr>lk_id = next_uuid s, lk_order_id = order_id,
               lk_contract_id = contract_id, lk_quantity_mt = requested_qty, lk_created_at = now\<rparr>],
               next_uuid := Suc (next_uuid s)\<rparr>, next_uuid s))))))))))"

text \<open>The request schema \<open>HedgeOrderLinkageCreate\<close>: three decimal places, positive quantity.\<close>

definition validate_linkage_payload :: "decimal \<Rightarrow> unit result" where
  "validate_linkage_payload q =
     and_then (raise_if (quantize_mt q \<noteq> q) (ValueError (Msg ''decimal_places'' [ADec q]))) (\<lambda>_.
       raise_if (q \<le> 0) (ValueError (Msg ''quantity_mt must be greater than zero'' [])))"

definition post_linkage :: "db \<Rightarrow> datetime \<Rightarrow> uuid \<Rightarrow> uuid \<Rightarrow> decimal \<Rightarrow> (db \<times> uuid) result" where
  "post_linkage s now order_id contract_id quantity_mt =
     and_then (validate_linkage_payload quantity_mt) (\<lambda>_. create_linkage s now order_id contract_id quantity_mt)"

definition list_linkages_filter :: "db \<Rightarrow> uuid option \<Rightarrow> uuid option \<Rightarrow> HedgeOrderLinkage list" where
  "list_linkages_filter s oid cid =
     filter (\<lambda>l. (case oid of None \<Rightarrow> True | Some i \<Rightarrow> lk_order_id l = i)
               \<and> (case cid of None \<Rightarrow> True | Some i \<Rightarrow> lk_contract_id l = i)) (linkages s)"

definition get_linkage :: "db \<Rightarrow> uuid \<Rightarrow> HedgeOrderLinkage result" where
  "get_linkage s i = require (get_row lk_id i (linkages s)) (http HTTP_404 ''Linkage not found'')"

section \<open>The capacity contract\<close>

definition linkages_wf :: "db \<Rightarrow> bool" where
  "linkages_wf s \<longleftrightarrow> (\<forall>l \<in> set (linkages s). 0 < lk_quantity_mt l \<and> quantize_mt (lk_quantity_mt l) = lk_quantity_mt l)"

text \<open>Rows only die: what is live in \<open>s'\<close> was live in \<open>s\<close>.\<close>

definition liveness_shrinks :: "db \<Rightarrow> db \<Rightarrow> bool" where
  "liveness_shrinks s s' \<longleftrightarrow>
     (\<forall>i. joined order_live (get_order s' i) \<longrightarrow> joined order_live (get_order s i)) \<and>
     (\<forall>i. joined hedge_live (get_contract s' i) \<longrightarrow> joined hedge_live (get_contract s i))"

definition within_capacity :: "(db \<Rightarrow> uuid \<Rightarrow> decimal) \<Rightarrow> (db \<Rightarrow> uuid \<Rightarrow> decimal option) \<Rightarrow> db \<Rightarrow> bool" where
  "within_capacity allocated capacity s \<longleftrightarrow>
     (\<forall>i q. capacity s i = Some q \<longrightarrow> allocated s i \<le> quantize_mt q)"

locale allocation =
  fixes allocated :: "db \<Rightarrow> uuid \<Rightarrow> decimal"
    and capacity :: "db \<Rightarrow> uuid \<Rightarrow> decimal option"
    and side :: "HedgeOrderLinkage \<Rightarrow> uuid"
  assumes allocated_grid: "linkages_wf s \<Longrightarrow> quantize_mt (allocated s i) = allocated s i"
    and allocated_nonneg: "linkages_wf s \<Longrightarrow> 0 \<le> allocated s i"
    and allocated_shrink: "linkages_wf s \<Longrightarrow> linkages s' = linkages s \<Longrightarrow> liveness_shrinks s s' \<Longrightarrow>
      allocated s' i \<le> allocated s i"
    and allocated_grow: "linkages s' = linkages s @ [l] \<Longrightarrow> orders s' = orders s \<Longrightarrow> contracts s' = contracts s \<Longrightarrow>
      0 \<le> lk_quantity_mt l \<Longrightarrow> allocated s' i \<le> allocated s i + (if side l = i then lk_quantity_mt l else 0)"
    and capacity_reads: "orders s' = orders s \<Longrightarrow> contracts s' = contracts s \<Longrightarrow> capacity s' i = capacity s i"
begin

text \<open>The residual of a row within capacity does not round to a negative number.\<close>

lemma residual_nonneg:
  assumes "linkages_wf s" and "within_capacity allocated capacity s" and "capacity s i = Some q"
  shows "0 \<le> quantize_mt (q - allocated s i)"
proof -
  have "allocated s i \<le> quantize_mt q"
    using assms(2,3) unfolding within_capacity_def by simp
  then show ?thesis
    by (rule quantize_mt_residual[OF allocated_grid[OF assms(1)]])
qed

lemma within_shrink:
  assumes "linkages_wf s" and "linkages s' = linkages s" and "liveness_shrinks s s'"
    and "\<And>i q. capacity s' i = Some q \<Longrightarrow> allocated s i \<le> quantize_mt q"
  shows "within_capacity allocated capacity s'"
  unfolding within_capacity_def
proof (intro allI impI)
  fix i q
  assume q: "capacity s' i = Some q"
  have "allocated s' i \<le> allocated s i"
    using allocated_shrink[OF assms(1,2,3)] .
  also have "allocated s i \<le> quantize_mt q"
    using assms(4) q .
  finally show "allocated s' i \<le> quantize_mt q" .
qed

lemma within_grow:
  assumes "within_capacity allocated capacity s" and "linkages s' = linkages s @ [l]"
    and "orders s' = orders s" "contracts s' = contracts s" and "0 \<le> lk_quantity_mt l"
    and "\<And>q. capacity s (side l) = Some q \<Longrightarrow> allocated s (side l) + lk_quantity_mt l \<le> quantize_mt q"
  shows "within_capacity allocated capacity s'"
  unfolding within_capacity_def
proof (intro allI impI)
  fix i q
  assume "capacity s' i = Some q"
  then have "capacity s i = Some q" using capacity_reads[OF assms(3,4), of i] by simp
  then have "allocated s i + (if side l = i then lk_quantity_mt l else 0) \<le> quantize_mt q"
    using assms(1,6) by (auto simp: within_capacity_def)
  then show "allocated s' i \<le> quantize_mt q"
    using allocated_grow[OF assms(2,3,4,5), of i] by linarith
qed

end

text \<open>The schema of an order does not bound its quantity; an order of negative quantity has room for
  nothing.\<close>

definition order_capacity :: "db \<Rightarrow> uuid \<Rightarrow> decimal option" where
  "order_capacity s i = map_option (\<lambda>r. max 0 (ord_quantity_mt r)) (get_order s i)"

definition contract_capacity :: "db \<Rightarrow> uuid \<Rightarrow> decimal option" where
  "contract_capacity s i = map_option hc_quantity_mt (get_contract s i)"

lemma linkages_wfD:
  "linkages_wf s \<Longrightarrow> l \<in> set (linkages s) \<Longrightarrow> 0 < lk_quantity_mt l \<and> quantize_mt (lk_quantity_mt l) = lk_quantity_mt l"
  by (simp add: linkages_wf_def)

interpretation order_side: allocation order_linked_qty order_capacity lk_order_id
proof
  fix s s' :: db and i and l :: HedgeOrderLinkage
  show "linkages_wf s \<Longrightarrow> quantize_mt (order_linked_qty s i) = order_linked_qty s i"
    unfolding order_linked_qty_def by (rule mt.q_sum_where) (auto dest: linkages_wfD)
  show "linkages_wf s \<Longrightarrow> 0 \<le> order_linked_qty s i"
    unfolding order_linked_qty_def by (rule sum_where_nonneg) (auto dest: linkages_wfD)
  show "linkages_wf s \<Longrightarrow> linkages s' = linkages s \<Longrightarrow> liveness_shrinks s s' \<Longrightarrow>
      order_linked_qty s' i \<le> order_linked_qty s i"
    unfolding order_linked_qty_def
    by (simp, rule sum_where_mono) (auto simp: liveness_shrinks_def dest: linkages_wfD)
  show "linkages s' = linkages s @ [l] \<Longrightarrow> orders s' = orders s \<Longrightarrow> contracts s' = contracts s \<Longrightarrow>
      0 \<le> lk_quantity_mt l \<Longrightarrow>
      order_linked_qty s' i \<le> order_linked_qty s i + (if lk_order_id l = i then lk_quantity_mt l else 0)"
    by (simp add: order_linked_qty_def get_contract_def)
  show "orders s' = orders s \<Longrightarrow> contracts s' = contracts s \<Longrightarrow> order_capacity s' i = order_capacity s i"
    by (simp add: order_capacity_def get_order_def)
qed

interpretation contract_side: allocation contract_linked_qty contract_capacity lk_contract_id
proof
  fix s s' :: db and i and l :: HedgeOrderLinkage
  show "linkages_wf s \<Longrightarrow> quantize_mt (contract_linked_qty s i) = contract_linked_qty s i"
    unfolding contract_linked_qty_def by (rule mt.q_sum_where) (auto dest: linkages_wfD)
  show "linkages_wf s \<Longrightarrow> 0 \<le> contract_linked_qty s i"
    unfolding contract_linked_qty_def by (rule sum_where_nonneg) (auto dest: linkages_wfD)
  show "linkages_wf s \<Longrightarrow> linkages s' = linkages s \<Longrightarrow> liveness_shrinks s s' \<Longrightarrow>
      contract_linked_qty s' i \<le> contract_linked_qty s i"
    unfolding contract_linked_qty_def
    by (simp, rule sum_where_mono) (auto simp: liveness_shrinks_def dest: linkages_wfD)
  show "linkages s' = linkages s @ [l] \<Longrightarrow> orders s' = orders s \<Longrightarrow> contracts s' = contracts s \<Longrightarrow>
      0 \<le> lk_quantity_mt l \<Longrightarrow>
      contract_linked_qty s' i \<le> contract_linked_qty s i + (if lk_contract_id l = i then lk_quantity_mt l else 0)"
    by (simp add: contract_linked_qty_def get_order_def)
  show "orders s' = orders s \<Longrightarrow> contracts s' = contracts s \<Longrightarrow> contract_capacity s' i = contract_capacity s i"
    by (simp add: contract_capacity_def get_contract_def)
qed

lemma quantize_mt_max: "0 \<le> quantize_mt q \<Longrightarrow> quantize_mt (max 0 q) = quantize_mt q"
  using mt.q_mono[of q 0] by (cases "0 \<le> q") (auto simp: max_def)

lemma quantize_mt_max_le: "x \<le> quantize_mt q \<Longrightarrow> x \<le> quantize_mt (max 0 q)"
  using mt.q_mono[of q "max 0 q"] by linarith

lemma within_order_quantity: "x \<le> quantize_mt (max 0 q) \<Longrightarrow> 0 < x \<or> 0 \<le> quantize_mt q \<Longrightarrow> x \<le> quantize_mt q"
  using mt.q_zero quantize_mt_max[of q] by (cases "0 \<le> q") (auto simp: max_def)

section \<open>The capacity invariant\<close>

text \<open>The keys of the tables that linkages join are unique and below the key counter, so that a
  join reads at most one row and a new row is never joined to an old linkage.\<close>

definition capacity_keys_wf :: "db \<Rightarrow> bool" where
  "capacity_keys_wf s \<longleftrightarrow> keyed ord_id (orders s) \<and> keyed hc_id (contracts s)
     \<and> (\<forall>r \<in> set (orders s). ord_id r < next_uuid s) \<and> (\<forall>c \<in> set (contracts s). hc_id c < next_uuid s)
     \<and> (\<forall>l \<in> set (linkages s). lk_order_id l \<in> ord_id ` set (orders s) \<and> lk_contract_id l \<in> hc_id ` set (contracts s))"

definition capacity_inv :: "db \<Rightarrow> bool" where
  "capacity_inv s \<longleftrightarrow> capacity_keys_wf s \<and> linkages_wf s
     \<and> within_capacity order_linked_qty order_capacity s
     \<and> within_capacity contract_linked_qty contract_capacity s"

text \<open>What a hedge must satisfy to be allocated to an order, apart from the quantities.\<close>

definition linkable :: "Order \<Rightarrow> HedgeContract \<Rightarrow> bool" where
  "linkable r c \<longleftrightarrow> order_live r \<and> hedge_live c \<and> ord_price_type r = PT_variable
     \<and> canonical_commodity (ord_commodity r) = canonical_commodity (hc_commodity c)
     \<and> hc_classification c = (if ord_order_type r = OT_sales then HC_short else HC_long)"

lemma validate_linkage_direction_ok:
  "validate_linkage_direction r c = Inr u \<longleftrightarrow>
     ord_price_type r = PT_variable \<and> hc_classification c = (if ord_order_type r = OT_sales then HC_short else HC_long)"
  by (cases "ord_price_type r") (auto simp: validate_linkage_direction_def Let_def)

lemma create_linkage_Inr:
  assumes "linkages_wf s"
  shows "create_linkage s now oid cid q = Inr (s', i) \<longleftrightarrow>
    (\<exists>r c. get_order s oid = Some r \<and> get_contract s cid = Some c \<and> linkable r c
       \<and> order_linked_qty s oid + quantize_mt q \<le> quantize_mt (ord_quantity_mt r)
       \<and> contract_linked_qty s cid + quantize_mt q \<le> quantize_mt (hc_quantity_mt c)
       \<and> i = next_uuid s
       \<and> s' = s\<lparr>linkages := linkages s @ [\<lparr>lk_id = i, lk_order_id = oid, lk_contract_id = cid,
                  lk_quantity_mt = quantize_mt q, lk_created_at = now\<rparr>], next_uuid := Suc i\<rparr>)"
proof -
  have grid: "quantize_mt (order_linked_qty s oid) = order_linked_qty s oid"
    "quantize_mt (contract_linked_qty s cid) = contract_linked_qty s cid"
    using order_side.allocated_grid[OF assms] contract_side.allocated_grid[OF assms] by simp_all
  have "quantize_mt (order_linked_qty s oid + quantize_mt q) = order_linked_qty s oid + quantize_mt q"
    "quantize_mt (contract_linked_qty s cid + quantize_mt q) = contract_linked_qty s cid + quantize_mt q"
    using mt.q_add_fixed grid by simp_all
  with grid show ?thesis
    by (auto simp: create_linkage_def Let_def validate_linkage_direction_ok linkable_def order_live_def
        hedge_live_def not_less)
qed

lemma validate_linkage_payload_ok: "validate_linkage_payload q = Inr u \<longleftrightarrow> quantize_mt q = q \<and> 0 < q"
  by (auto simp: validate_linkage_payload_def)

lemma post_linkage_capacity_inv:
  assumes "capacity_inv s" and "post_linkage s now oid cid q = Inr (s', i)"
  shows "capacity_inv s'"
proof -
  have wf: "linkages_wf s" and keys: "capacity_keys_wf s"
    using assms(1) by (simp_all add: capacity_inv_def)
  have q: "quantize_mt q = q" "0 < q"
    using assms(2) by (auto simp: post_linkage_def validate_linkage_payload_ok)
  obtain r c where r: "get_order s oid = Some r" and c: "get_contract s cid = Some c"
    and room: "order_linked_qty s oid + q \<le> quantize_mt (ord_quantity_mt r)"
      "contract_linked_qty s cid + q \<le> quantize_mt (hc_quantity_mt c)"
    and s': "s' = s\<lparr>linkages := linkages s @ [\<lparr>lk_id = i, lk_order_id = oid, lk_contract_id = cid,
                  lk_quantity_mt = q, lk_created_at = now\<rparr>], next_uuid := Suc i\<rparr>" and i: "i = next_uuid s"
    using assms(2) q by (auto simp: post_linkage_def create_linkage_Inr[OF wf])
  define l where "l = \<lparr>lk_id = i, lk_order_id = oid, lk_contract_id = cid, lk_quantity_mt = q, lk_created_at = now\<rparr>"
  have l: "linkages s' = linkages s @ [l]" "orders s' = orders s" "contracts s' = contracts s" "0 \<le> lk_quantity_mt l"
    using q by (simp_all add: s' l_def)
  have "within_capacity order_linked_qty order_capacity s'"
    using assms(1) room r by (intro order_side.within_grow[OF _ l]) (auto simp: capacity_inv_def order_capacity_def l_def intro: quantize_mt_max_le)
  moreover have "within_capacity contract_linked_qty contract_capacity s'"
    using assms(1) room c by (intro contract_side.within_grow[OF _ l]) (auto simp: capacity_inv_def contract_capacity_def l_def)
  moreover have "linkages_wf s'"
    using wf q by (auto simp: linkages_wf_def s')
  moreover have "capacity_keys_wf s'"
    using keys get_row_SomeD[OF r[unfolded get_order_def]] get_row_SomeD[OF c[unfolded get_contract_def]]
    by (auto simp: capacity_keys_wf_def s' i intro: less_SucI)
  ultimately show ?thesis
    by (simp add: capacity_inv_def)
qed

text \<open>A write that only lets rows die, keeps the keys and leaves enough quantity keeps the
  capacity invariant.\<close>

lemma capacity_inv_shrink:
  assumes "capacity_inv s" and "linkages s' = linkages s" and "liveness_shrinks s s'" and "capacity_keys_wf s'"
    and "\<And>i q. order_capacity s' i = Some q \<Longrightarrow> order_linked_qty s i \<le> quantize_mt q"
    and "\<And>i q. contract_capacity s' i = Some q \<Longrightarrow> contract_linked_qty s i \<le> quantize_mt q"
  shows "capacity_inv s'"
proof -
  have "linkages_wf s" using assms(1) by (simp add: capacity_inv_def)
  moreover from this have "linkages_wf s'" using assms(2) by (simp add: linkages_wf_def)
  ultimately show ?thesis
    using order_side.within_shrink[of s s'] contract_side.within_shrink[of s s'] assms
    by (simp add: capacity_inv_def)
qed

lemma capacity_invD:
  assumes "capacity_inv s"
  shows "order_capacity s i = Some q \<Longrightarrow> order_linked_qty s i \<le> quantize_mt q"
    and "contract_capacity s i = Some q \<Longrightarrow> contract_linked_qty s i \<le> quantize_mt q"
  using assms by (simp_all add: capacity_inv_def within_capacity_def)

section \<open>Properties\<close>

text \<open>C21: A linkage request succeeds exactly when its quantity is a positive number of at most
  three decimals, order and hedge exist and are live, the order is variable-priced, commodities
  agree up to aliases, the hedge is short for a sales order and long for a purchase order, and
  both sides have room for the quantity.\<close>

theorem post_linkage_accepts_iff:
  assumes "linkages_wf s"
  shows "is_ok (post_linkage s now oid cid q) \<longleftrightarrow>
    quantize_mt q = q \<and> 0 < q \<and>
    (\<exists>r c. get_order s oid = Some r \<and> get_contract s cid = Some c \<and> linkable r c
       \<and> order_linked_qty s oid + q \<le> quantize_mt (ord_quantity_mt r)
       \<and> contract_linked_qty s cid + q \<le> quantize_mt (hc_quantity_mt c))"
  unfolding is_ok_iff by (auto simp: post_linkage_def validate_linkage_payload_ok create_linkage_Inr[OF assms])

theorem post_linkage_accepts_iff_witness:
  "linkages_wf sample_db \<and> is_ok (post_linkage sample_db 0 0 1 60) \<and> \<not> is_ok (post_linkage sample_db 0 0 1 61)"
proof -
  have wf: "linkages_wf sample_db" by (simp add: linkages_wf_def sample_defs)
  have "get_order sample_db 0 = Some (sample_order 0 OT_sales PT_variable 100)"
    "get_contract sample_db 1 = Some (sample_contract 1 HC_short 60)"
    "linkable (sample_order 0 OT_sales PT_variable 100) (sample_contract 1 HC_short 60)"
    "order_linked_qty sample_db 0 = 0" "contract_linked_qty sample_db 1 = 0"
    by (simp_all add: sample_defs svc_defs linkable_def order_linked_qty_def contract_linked_qty_def)
  then show ?thesis
    using post_linkage_accepts_iff[OF wf, of 0 0 1] wf by (simp add: sample_order_def sample_contract_def)
qed

end
