(* ===== verification/Lifecycle.thy ===== *)
theory Lifecycle
  imports HC_Prelude
begin

text \<open>
  Status columns that follow a state machine. A service promises, for each of its writes,
  that every row of its table is kept and that its status either stays or takes one allowed
  step (\<open>rows_follow\<close>). The locale turns this promise into facts about whole runs: statuses
  never come back, and a row in a terminal status stays in it.
\<close>

definition rows_follow :: "('st \<Rightarrow> 'st \<Rightarrow> bool) \<Rightarrow> ('r \<Rightarrow> 'k) \<Rightarrow> ('r \<Rightarrow> 'st) \<Rightarrow> 'r list \<Rightarrow> 'r list \<Rightarrow> bool" where
  "rows_follow R key st old new \<longleftrightarrow>
     (\<forall>k r. get_row key k old = Some r \<longrightarrow>
        (\<exists>r'. get_row key k new = Some r' \<and> (st r' = st r \<or> R (st r) (st r'))))"

lemma rows_follow_refl [simp]: "rows_follow R key st rows rows"
  by (simp add: rows_follow_def)

lemma rows_follow_append [simp]: "rows_follow R key st rows (rows @ new)"
  by (simp add: rows_follow_def get_row_append)

lemma rows_follow_update:
  assumes "\<And>r. key (f r) = key r"
    and "\<And>r. get_row key k rows = Some r \<Longrightarrow> st (f r) = st r \<or> R (st r) (st (f r))"
  shows "rows_follow R key st rows (update_row key k f rows)"
  using assms by (auto simp: rows_follow_def table_simps)

locale lifecycle =
  fixes allowed :: "'st \<Rightarrow> 'st \<Rightarrow> bool"
    and rank :: "'st \<Rightarrow> nat"
  assumes allowed_rank: "allowed a b \<Longrightarrow> rank a < rank b"
begin

lemma rank_mono: "allowed\<^sup>*\<^sup>* a b \<Longrightarrow> a = b \<or> rank a < rank b"
  by (induction rule: rtranclp_induct) (auto dest: allowed_rank)

lemma never_returns: "allowed\<^sup>*\<^sup>* a b \<Longrightarrow> allowed\<^sup>*\<^sup>* b a \<Longrightarrow> a = b"
  using rank_mono by (metis less_asym)

lemma terminal_stays:
  assumes "allowed\<^sup>*\<^sup>* a b" and "\<And>c. \<not> allowed a c"
  shows "b = a"
  using assms by (metis converse_rtranclpE)

text \<open>Runs of writes, each of which lets the rows follow the machine.\<close>

lemma runs_follow:
  assumes "(rows_follow allowed key st)\<^sup>*\<^sup>* old new" and "get_row key k old = Some r"
  shows "\<exists>r'. get_row key k new = Some r' \<and> allowed\<^sup>*\<^sup>* (st r) (st r')"
  using assms
proof (induction rule: rtranclp_induct)
  case base
  then show ?case by simp
next
  case (step mid new)
  then obtain m where m: "get_row key k mid = Some m" "allowed\<^sup>*\<^sup>* (st r) (st m)" by blast
  obtain r' where "get_row key k new = Some r'" "st r' = st m \<or> allowed (st m) (st r')"
    using step.hyps(2) m(1) unfolding rows_follow_def by blast
  with m(2) show ?case
    by (auto intro: rtranclp.rtrancl_into_rtrancl)
qed

lemma terminal_row_stays:
  assumes "(rows_follow allowed key st)\<^sup>*\<^sup>* old new" and "get_row key k old = Some r"
    and "\<And>c. \<not> allowed (st r) c"
  shows "\<exists>r'. get_row key k new = Some r' \<and> st r' = st r"
  using runs_follow[OF assms(1,2)] terminal_stays assms(3) by metis

end

end
