(* ===== verification/Contract_Service.thy ===== *)
theory Contract_Service
  imports Deal_Engine Linkage Lifecycle
begin

text \<open>
  \<open>backend/app/services/contract_service.py\<close> and the request schemas of
  \<open>backend/app/schemas/contracts.py\<close>: creation, archiving, partial update, status transition and
  deletion of hedge contracts. An omitted field of a partial update is \<open>None\<close>, an explicit
  null is \<open>Some None\<close>.
\<close>

section \<open>Payloads\<close>

datatype HedgeLegPriceType = Lp_fixed | Lp_variable

record HedgeLeg =
  leg_side :: HedgeLegSide
  leg_price_type :: HedgeLegPriceType

record HedgeContractCreate =
  hcc_commodity :: string
  hcc_quantity_mt :: decimal
  hcc_legs :: "HedgeLeg list"
  hcc_counterparty_id :: "string option"
  hcc_fixed_price_value :: "decimal option"
  hcc_fixed_price_unit :: "string option"
  hcc_float_pricing_convention :: "string option"
  hcc_premium_discount :: "decimal option"
  hcc_pricing_period_month :: "int option"
  hcc_pricing_period_year :: "int option"
  hcc_fixing_date :: "date option"
  hcc_avg_computation_days :: "int option"
  hcc_settlement_date :: "date option"
  hcc_prompt_date :: "date option"
  hcc_trade_date :: "date option"
  hcc_source_type :: "string option"
  hcc_notes :: "string option"

definition validate_structure :: "HedgeContractCreate \<Rightarrow> unit result" where
  "validate_structure p =
     and_then (raise_if (hcc_quantity_mt p \<le> 0) (ValueError (Msg ''quantity_mt must be greater than zero'' []))) (\<lambda>_.
     and_then (raise_if (length (hcc_legs p) \<noteq> 2) (ValueError (Msg ''hedge contract must have exactly two legs'' []))) (\<lambda>_.
     raise_if (length (filter (\<lambda>g. leg_price_type g = Lp_fixed) (hcc_legs p)) \<noteq> 1
             \<or> length (filter (\<lambda>g. leg_price_type g = Lp_variable) (hcc_legs p)) \<noteq> 1)
       (ValueError (Msg ''hedge contract must have exactly one fixed leg and one variable leg'' []))))"

record HedgeContractUpdate =
  hcu_quantity_mt :: "decimal option option"
  hcu_counterparty_id :: "string option option"
  hcu_fixed_price_value :: "decimal option option"
  hcu_fixed_price_unit :: "string option option"
  hcu_float_pricing_convention :: "string option option"
  hcu_premium_discount :: "decimal option option"
  hcu_pricing_period_month :: "int option option"
  hcu_pricing_period_year :: "int option option"
  hcu_fixing_date :: "date option option"
  hcu_avg_computation_days :: "int option option"
  hcu_settlement_date :: "date option option"
  hcu_prompt_date :: "date option option"
  hcu_notes :: "string option option"

section \<open>Operations\<close>

fun GENERIC_STATUS_TRANSITIONS :: "HedgeContractStatus \<Rightarrow> HedgeContractStatus list" where
  "GENERIC_STATUS_TRANSITIONS HS_active = [HS_cancelled]"
| "GENERIC_STATUS_TRANSITIONS HS_partially_settled = [HS_cancelled]"
| "GENERIC_STATUS_TRANSITIONS HS_settled = []"
| "GENERIC_STATUS_TRANSITIONS HS_cancelled = []"

text \<open>\<open>next(leg for leg in legs if ...)\<close>.\<close>

definition first_leg :: "HedgeLegPriceType \<Rightarrow> HedgeLeg list \<Rightarrow> HedgeLeg result" where
  "first_leg pt legs = require (find (\<lambda>g. leg_price_type g = pt) legs) StopIteration"

text \<open>\<open>reference\<close> is what \<open>_generate_reference\<close> drew, \<open>today\<close> the current date; a reference that is
  taken violates the unique constraint. The payload's pricing period, fixing date and
  averaging days are not copied to the row. A premium left out takes the default of its column, zero.\<close>

definition create_contract ::
    "db \<Rightarrow> datetime \<Rightarrow> date \<Rightarrow> string \<Rightarrow> HedgeContractCreate \<Rightarrow> string option \<Rightarrow> (db \<times> uuid) result" where
  "create_contract s now today reference p created_by =
     and_then (first_leg Lp_fixed (hcc_legs p)) (\<lambda>fixed_leg.
     and_then (first_leg Lp_variable (hcc_legs p)) (\<lambda>variable_leg.
     and_then (raise_if (Some reference \<in> hc_reference ` set (contracts s))
       (IntegrityError (Msg ''hedge_contracts.reference'' [AStr reference]))) (\<lambda>_.
     Inr (s\<lparr>contracts := contracts s @ [
       \<lparr>hc_id = next_uuid s, hc_reference = Some reference, hc_commodity = hcc_commodity p,
        hc_quantity_mt = hcc_quantity_mt p, hc_rfq_id = None, hc_rfq_quote_id = None,
        hc_counterparty_id = hcc_counterparty_id p, hc_fixed_price_value = hcc_fixed_price_value p,
        hc_fixed_price_unit = hcc_fixed_price_unit p,
        hc_float_pricing_convention = hcc_float_pricing_convention p,
        hc_premium_discount = Some (case hcc_premium_discount p of None \<Rightarrow> 0 | Some x \<Rightarrow> x), hc_pricing_period_month = None,
        hc_pricing_period_year = None, hc_fixing_date = None, hc_avg_computation_days = None,
        hc_status = HS_active, hc_fixed_leg_side = leg_side fixed_leg,
        hc_variable_leg_side = leg_side variable_leg,
        hc_classification = (if leg_side fixed_leg = Leg_buy then HC_long else HC_short),
        hc_settlement_date = hcc_settlement_date p, hc_prompt_date = hcc_prompt_date p,
        hc_trade_date = Some (case hcc_trade_date p of None \<Rightarrow> today | Some d \<Rightarrow> d),
        hc_source_type = Some (case hcc_source_type p of None \<Rightarrow> ''manual'' | Some t \<Rightarrow> if t = '''' then ''manual'' else t),
        hc_source_id = None, hc_notes = hcc_notes p, hc_created_by = created_by,
        hc_created_at = now, hc_deleted_at = None\<rparr>],
       next_uuid := Suc (next_uuid s)\<rparr>, next_uuid s))))"

definition post_contract ::
    "db \<Rightarrow> datetime \<Rightarrow> date \<Rightarrow> string \<Rightarrow> HedgeContractCreate \<Rightarrow> string option \<Rightarrow> (db \<times> uuid) result" where
  "post_contract s now today reference p created_by =
     and_then (validate_structure p) (\<lambda>_. create_contract s now today reference p created_by)"

definition get_contract_by_id :: "db \<Rightarrow> uuid \<Rightarrow> HedgeContract result" where
  "get_contract_by_id s i = require (get_contract s i) (http HTTP_404 ''Hedge contract not found'')"

definition list_contracts_filter ::
    "db \<Rightarrow> HedgeContractStatus option \<Rightarrow> HedgeClassification option \<Rightarrow> string option \<Rightarrow> bool \<Rightarrow> HedgeContract list" where
  "list_contracts_filter s status_filter classification commodity include_deleted =
     filter (\<lambda>c. (include_deleted \<or> hc_deleted_at c = None)
       \<and> (case status_filter of None \<Rightarrow> True | Some st \<Rightarrow> hc_status c = st)
       \<and> (case classification of None \<Rightarrow> True | Some cl \<Rightarrow> hc_classification c = cl)
       \<and> (case commodity of None \<Rightarrow> True | Some co \<Rightarrow> co = [] \<or> hc_commodity c = co)) (contracts s)"

definition write_contract :: "uuid \<Rightarrow> (HedgeContract \<Rightarrow> HedgeContract) \<Rightarrow> db \<Rightarrow> db" where
  "write_contract i f s = s\<lparr>contracts := update_row hc_id i f (contracts s)\<rparr>"

definition archive_contract :: "db \<Rightarrow> datetime \<Rightarrow> uuid \<Rightarrow> db result" where
  "archive_contract s now i =
     and_then (get_contract_by_id s i) (\<lambda>c.
     and_then (raise_if (hc_deleted_at c \<noteq> None) (http HTTP_409 ''Hedge contract already archived'')) (\<lambda>_.
     Inr (recompute_deals_for_linked_entity [DL_hedge, DL_contract] i
       (write_contract i (\<lambda>c. c\<lparr>hc_deleted_at := Some now\<rparr>) s))))"

definition set_field :: "'a option \<Rightarrow> ('a \<Rightarrow> 'r \<Rightarrow> 'r) \<Rightarrow> 'r \<Rightarrow> 'r" where
  "set_field v setter r = (case v of None \<Rightarrow> r | Some x \<Rightarrow> setter x r)"

definition apply_contract_update :: "HedgeContractUpdate \<Rightarrow> HedgeContract \<Rightarrow> HedgeContract" where
  "apply_contract_update u c =
     set_field (hcu_notes u) (\<lambda>x r. r\<lparr>hc_notes := x\<rparr>)
    (set_field (hcu_prompt_date u) (\<lambda>x r. r\<lparr>hc_prompt_date := x\<rparr>)
    (set_field (hcu_settlement_date u) (\<lambda>x r. r\<lparr>hc_settlement_date := x\<rparr>)
    (set_field (hcu_avg_computation_days u) (\<lambda>x r. r\<lparr>hc_avg_computation_days := x\<rparr>)
    (set_field (hcu_fixing_date u) (\<lambda>x r. r\<lparr>hc_fixing_date := x\<rparr>)
    (set_field (hcu_pricing_period_year u) (\<lambda>x r. r\<lparr>hc_pricing_period_year := x\<rparr>)
    (set_field (hcu_pricing_period_month u) (\<lambda>x r. r\<lparr>hc_pricing_period_month := x\<rparr>)
    (set_field (hcu_premium_discount u) (\<lambda>x r. r\<lparr>hc_premium_discount := x\<rparr>)
    (set_field (hcu_float_pricing_convention u) (\<lambda>x r. r\<lparr>hc_float_pricing_convention := x\<rparr>)
    (set_field (hcu_fixed_price_unit u) (\<lambda>x r. r\<lparr>hc_fixed_price_unit := x\<rparr>)
    (set_field (hcu_fixed_price_value u) (\<lambda>x r. r\<lparr>hc_fixed_price_value := x\<rparr>)
    (set_field (hcu_counterparty_id u) (\<lambda>x r. r\<lparr>hc_counterparty_id := x\<rparr>)
    (set_field (Option.bind (hcu_quantity_mt u) id) (\<lambda>x r. r\<lparr>hc_quantity_mt := x\<rparr>) c))))))))))))"

definition update_is_empty :: "HedgeContractUpdate \<Rightarrow> bool" where
  "update_is_empty u \<longleftrightarrow> hcu_quantity_mt u = None \<and> hcu_counterparty_id u = None \<and> hcu_fixed_price_value u = None
     \<and> hcu_fixed_price_unit u = None \<and> hcu_float_pricing_convention u = None \<and> hcu_premium_discount u = None
     \<and> hcu_pricing_period_month u = None \<and> hcu_pricing_period_year u = None \<and> hcu_fixing_date u = None
     \<and> hcu_avg_computation_days u = None \<and> hcu_settlement_date u = None \<and> hcu_prompt_date u = None
     \<and> hcu_notes u = None"

text \<open>An explicit null quantity violates the \<open>NOT NULL\<close> constraint when the row is flushed.\<close>

definition update_contract :: "db \<Rightarrow> uuid \<Rightarrow> HedgeContractUpdate \<Rightarrow> db result" where
  "update_contract s i u =
     and_then (require (get_contract s i) (http HTTP_404 ''Hedge contract not found'')) (\<lambda>c.
     and_then (raise_if (hc_deleted_at c \<noteq> None) (http HTTP_404 ''Hedge contract not found'')) (\<lambda>_.
     and_then (raise_if (update_is_empty u) (http HTTP_400 ''No fields to update'')) (\<lambda>_.
     and_then (case hcu_quantity_mt u of
         Some (Some q) \<Rightarrow>
           (let new_qty = quantize_mt q; linked_total = quantize_mt (contract_linked_qty s i)
            in raise_if (new_qty < linked_total) (HTTPException HTTP_422
                 (Msg ''Cannot reduce contract quantity to {} MT: existing linkages already allocate {} MT. Remove or reduce linkages first.''
                   [ADec new_qty, ADec linked_total])))
       | _ \<Rightarrow> Inr ()) (\<lambda>_.
     and_then (raise_if (hcu_quantity_mt u = Some None) (IntegrityError (Msg ''hedge_contracts.quantity_mt'' []))) (\<lambda>_.
     Inr (write_contract i (apply_contract_update u) s))))))"

definition transition_status :: "db \<Rightarrow> uuid \<Rightarrow> HedgeContractStatus \<Rightarrow> db result" where
  "transition_status s i target =
     and_then (require (get_contract s i) (http HTTP_404 ''Hedge contract not found'')) (\<lambda>c.
     and_then (raise_if (hc_deleted_at c \<noteq> None) (http HTTP_404 ''Hedge contract not found'')) (\<lambda>_.
     and_then (raise_if (target = HS_settled \<or> target = HS_partially_settled)
       (http HTTP_409 ''Settlement transitions must go through POST /cashflow/contracts/{contract_id}/settle'')) (\<lambda>_.
     and_then (raise_if (target \<notin> set (GENERIC_STATUS_TRANSITIONS (hc_status c)))
       (HTTPException HTTP_409 (Msg ''Transition from {} to {} is not allowed''
         [AStr (contract_status_value (hc_status c)), AStr (contract_status_value target)]))) (\<lambda>_.
     Inr (write_contract i (\<lambda>c. c\<lparr>hc_status := target\<rparr>) s)))))"

definition delete_contract :: "db \<Rightarrow> datetime \<Rightarrow> uuid \<Rightarrow> db result" where
  "delete_contract s now i =
     and_then (get_contract_by_id s i) (\<lambda>c.
     and_then (raise_if (hc_deleted_at c \<noteq> None) (http HTTP_409 ''Hedge contract already deleted'')) (\<lambda>_.
     Inr (recompute_deals_for_linked_entity [DL_hedge, DL_contract] i
       (write_contract i (\<lambda>c. c\<lparr>hc_status := HS_cancelled, hc_deleted_at := Some now\<rparr>) s))))"

section \<open>Frame and capacity\<close>

lemma write_contract_frame [simp]:
  "orders (write_contract i f s) = orders s" "linkages (write_contract i f s) = linkages s"
  "deals (write_contract i f s) = deals s" "deal_links (write_contract i f s) = deal_links s"
  "next_uuid (write_contract i f s) = next_uuid s"
  "contracts (write_contract i f s) = update_row hc_id i f (contracts s)"
  by (simp_all add: write_contract_def)

lemma capacity_inv_cong:
  assumes "orders s' = orders s" "contracts s' = contracts s" "linkages s' = linkages s" "next_uuid s' = next_uuid s"
  shows "capacity_inv s' \<longleftrightarrow> capacity_inv s"
proof -
  have "order_linked_qty s' = order_linked_qty s" "contract_linked_qty s' = contract_linked_qty s"
    "order_capacity s' = order_capacity s" "contract_capacity s' = contract_capacity s"
    using assms by (auto simp: order_linked_qty_def contract_linked_qty_def order_capacity_def
        contract_capacity_def get_order_def get_contract_def)
  with assms show ?thesis
    by (simp add: capacity_inv_def capacity_keys_wf_def linkages_wf_def within_capacity_def)
qed

lemma capacity_inv_counter:
  assumes "capacity_inv s" and "orders s' = orders s" "contracts s' = contracts s" "linkages s' = linkages s"
    and "next_uuid s \<le> next_uuid s'"
  shows "capacity_inv s'"
proof -
  have "capacity_inv (s'\<lparr>next_uuid := next_uuid s\<rparr>)"
    using capacity_inv_cong[of "s'\<lparr>next_uuid := next_uuid s\<rparr>" s] assms by simp
  then have inv: "capacity_inv (s'\<lparr>next_uuid := next_uuid s\<rparr>)" .
  have "capacity_keys_wf s'"
    using inv assms(5) by (auto simp: capacity_inv_def capacity_keys_wf_def intro: less_le_trans)
  then show ?thesis
    using inv by (intro capacity_inv_shrink[OF inv])
      (auto simp: liveness_shrinks_def get_order_def get_contract_def order_capacity_def contract_capacity_def
        intro!: capacity_invD[OF inv])
qed

lemma capacity_inv_refresh [simp]:
  "capacity_inv (recompute_deals_for_linked_entity ts i s) \<longleftrightarrow> capacity_inv s"
  by (rule capacity_inv_cong) simp_all

lemma get_contract_write:
  assumes "\<And>c. hc_id (f c) = hc_id c"
  shows "get_contract (write_contract i f s) j =
    (if j = i then map_option f (get_contract s i) else get_contract s j)"
  using assms by (simp add: get_contract_def table_simps)

lemma write_contract_capacity:
  assumes inv: "capacity_inv s" and key: "\<And>c. hc_id (f c) = hc_id c"
    and live: "\<And>c. get_contract s i = Some c \<Longrightarrow> hedge_live (f c) \<Longrightarrow> hedge_live c"
    and room: "\<And>c. get_contract s i = Some c \<Longrightarrow> contract_linked_qty s i \<le> quantize_mt (hc_quantity_mt (f c))"
  shows "capacity_inv (write_contract i f s)"
proof (rule capacity_inv_shrink[OF inv])
  show "liveness_shrinks s (write_contract i f s)"
    using live by (auto simp: liveness_shrinks_def get_contract_write[OF key] get_order_def
        joined_def split: option.splits)
  have "hc_id ` set (update_row hc_id i f (contracts s)) = hc_id ` set (contracts s)"
    using map_key_update_row[of hc_id f i "contracts s"] key by (metis list.set_map)
  then show "capacity_keys_wf (write_contract i f s)"
    using inv by (auto simp: capacity_inv_def capacity_keys_wf_def keyed_update_row[of hc_id, OF key] set_update_row key)
next
  fix j q
  assume "order_capacity (write_contract i f s) j = Some q"
  then show "order_linked_qty s j \<le> quantize_mt q"
    using capacity_invD(1)[OF inv] by (simp add: order_capacity_def get_order_def)
next
  fix j q
  assume "contract_capacity (write_contract i f s) j = Some q"
  then show "contract_linked_qty s j \<le> quantize_mt q"
    using capacity_invD(2)[OF inv, of j] room
    by (auto simp: contract_capacity_def get_contract_write[OF key] split: if_splits)
qed simp

lemma capacity_inv_contract_room:
  "capacity_inv s \<Longrightarrow> get_contract s i = Some c \<Longrightarrow> contract_linked_qty s i \<le> quantize_mt (hc_quantity_mt c)"
  using capacity_invD(2)[of s i] by (simp add: contract_capacity_def)

lemma get_contract_fresh:
  assumes "capacity_keys_wf s" and "hc_id c = next_uuid s"
  shows "get_row hc_id i (contracts s @ [c]) = (if i = next_uuid s then Some c else get_row hc_id i (contracts s))"
proof -
  have "get_row hc_id (next_uuid s) (contracts s) = None"
    using assms(1) by (auto simp: get_row_None_iff capacity_keys_wf_def)
  then show ?thesis
    using assms(2) by (auto simp: get_row_append split: option.split)
qed

lemma add_contract_capacity:
  assumes inv: "capacity_inv s" and c: "hc_id c = next_uuid s" "0 < hc_quantity_mt c"
  shows "capacity_inv (s\<lparr>contracts := contracts s @ [c], next_uuid := Suc (next_uuid s)\<rparr>)"
proof -
  let ?s' = "s\<lparr>contracts := contracts s @ [c], next_uuid := Suc (next_uuid s)\<rparr>"
  have keys: "capacity_keys_wf s" and wf: "linkages_wf s"
    using inv by (simp_all add: capacity_inv_def)
  have get: "get_contract ?s' j = (if j = next_uuid s then Some c else get_contract s j)" for j
    using get_contract_fresh[OF keys c(1)] by (simp add: get_contract_def)
  have old: "lk_contract_id l \<noteq> next_uuid s" if "l \<in> set (linkages s)" for l
    using keys that by (fastforce simp: capacity_keys_wf_def)
  have o_eq: "order_linked_qty ?s' j = order_linked_qty s j" for j
    unfolding order_linked_qty_def using old get by (auto intro!: sum_where_cong)
  have c_eq: "contract_linked_qty ?s' j = contract_linked_qty s j" for j
    by (simp add: contract_linked_qty_def get_order_def)
  have none: "contract_linked_qty s (next_uuid s) = 0"
    unfolding contract_linked_qty_def by (rule sum_where_none) (use old in auto)
  have "within_capacity order_linked_qty order_capacity ?s'"
    using inv o_eq by (simp add: capacity_inv_def within_capacity_def order_capacity_def get_order_def)
  moreover have "within_capacity contract_linked_qty contract_capacity ?s'"
    using inv c_eq none c(2) mt.q_nonneg[of "hc_quantity_mt c"]
    by (auto simp: capacity_inv_def within_capacity_def contract_capacity_def get)
  moreover have "capacity_keys_wf ?s'"
    using keys c by (auto simp: capacity_keys_wf_def keyed_snoc intro: less_SucI)
  moreover have "linkages_wf ?s'"
    using wf by (simp add: linkages_wf_def)
  ultimately show ?thesis
    by (simp add: capacity_inv_def)
qed

lemma set_field_keeps: "(\<And>x r. g (setter x r) = g r) \<Longrightarrow> g (set_field v setter r) = g r"
  by (simp add: set_field_def split: option.split)

lemma hc_quantity_set_field:
  "hc_quantity_mt (set_field v (\<lambda>x r. r\<lparr>hc_quantity_mt := x\<rparr>) c) = (case v of None \<Rightarrow> hc_quantity_mt c | Some q \<Rightarrow> q)"
  by (simp add: set_field_def split: option.split)

lemma apply_contract_update_keeps [simp]:
  "hc_id (apply_contract_update u c) = hc_id c" "hc_status (apply_contract_update u c) = hc_status c"
  "hc_deleted_at (apply_contract_update u c) = hc_deleted_at c"
  "hc_classification (apply_contract_update u c) = hc_classification c"
  "hc_fixed_leg_side (apply_contract_update u c) = hc_fixed_leg_side c"
  "hc_quantity_mt (apply_contract_update u c) =
     (case hcu_quantity_mt u of Some (Some q) \<Rightarrow> q | _ \<Rightarrow> hc_quantity_mt c)"
  by (simp_all add: apply_contract_update_def hc_quantity_set_field
      set_field_keeps[of hc_id] set_field_keeps[of hc_status] set_field_keeps[of hc_deleted_at]
      set_field_keeps[of hc_classification] set_field_keeps[of hc_fixed_leg_side]
      set_field_keeps[of hc_quantity_mt] split: option.split)

section \<open>The operations keep the invariants\<close>

text \<open>The successful writes of the service, one constructor for each public method.\<close>

inductive contract_step :: "db \<Rightarrow> db \<Rightarrow> bool" where
  cs_create: "post_contract s now today reference p created_by = Inr (s', i) \<Longrightarrow> contract_step s s'"
| cs_archive: "archive_contract s now i = Inr s' \<Longrightarrow> contract_step s s'"
| cs_update: "update_contract s i u = Inr s' \<Longrightarrow> contract_step s s'"
| cs_transition: "transition_status s i target = Inr s' \<Longrightarrow> contract_step s s'"
| cs_delete: "delete_contract s now i = Inr s' \<Longrightarrow> contract_step s s'"

lemma post_contract_Inr:
  assumes "post_contract s now today reference p created_by = Inr (s', i)"
  obtains c where "s' = s\<lparr>contracts := contracts s @ [c], next_uuid := Suc (next_uuid s)\<rparr>"
    "hc_id c = next_uuid s" "0 < hc_quantity_mt c" "chk_classification_matches_fixed_leg c" "hc_status c = HS_active" "hc_rfq_id c = None"
  using assms
  by (auto simp: post_contract_def validate_structure_def create_contract_def
      chk_classification_matches_fixed_leg_def not_le intro!: that) (metis HedgeLegSide.exhaust)

lemma contract_step_cases:
  assumes "contract_step s s'"
  obtains (add) c where "s' = s\<lparr>contracts := contracts s @ [c], next_uuid := Suc (next_uuid s)\<rparr>"
      "hc_id c = next_uuid s" "0 < hc_quantity_mt c" "chk_classification_matches_fixed_leg c" "hc_status c = HS_active" "hc_rfq_id c = None"
  | (archive) i now where "s' = recompute_deals_for_linked_entity [DL_hedge, DL_contract] i
      (write_contract i (\<lambda>c. c\<lparr>hc_deleted_at := Some now\<rparr>) s)"
  | (update) i u where "s' = write_contract i (apply_contract_update u) s"
      "\<And>q. hcu_quantity_mt u = Some (Some q) \<Longrightarrow> quantize_mt (contract_linked_qty s i) \<le> quantize_mt q"
  | (cancel) i c where "s' = write_contract i (\<lambda>c. c\<lparr>hc_status := HS_cancelled\<rparr>) s"
      "get_contract s i = Some c" "hedge_open c"
  | (delete) i now where "s' = recompute_deals_for_linked_entity [DL_hedge, DL_contract] i
      (write_contract i (\<lambda>c. c\<lparr>hc_status := HS_cancelled, hc_deleted_at := Some now\<rparr>) s)"
  using assms
proof cases
  case cs_create
  then show ?thesis using post_contract_Inr add by metis
next
  case cs_archive
  then show ?thesis using archive by (auto simp: archive_contract_def)
next
  case (cs_update i u)
  then show ?thesis
    using update[of i u] by (auto simp: update_contract_def not_less Let_def split: option.splits)
next
  case (cs_transition i target)
  then obtain c where c: "get_contract s i = Some c" "target \<in> set (GENERIC_STATUS_TRANSITIONS (hc_status c))"
    "s' = write_contract i (\<lambda>c. c\<lparr>hc_status := target\<rparr>) s"
    by (auto simp: transition_status_def)
  then have "target = HS_cancelled" "hedge_open c"
    by (cases "hc_status c"; simp add: hedge_open_def)+
  with c cancel show ?thesis by simp
next
  case cs_delete
  then show ?thesis using delete by (auto simp: delete_contract_def)
qed

lemma contract_step_capacity_inv:
  assumes "capacity_inv s" and "contract_step s s'"
  shows "capacity_inv s'"
  using assms(2)
proof (cases rule: contract_step_cases)
  case (add c)
  then show ?thesis using add_contract_capacity[OF assms(1)] by simp
next
  case (archive i now)
  then show ?thesis
    using capacity_inv_contract_room[OF assms(1)]
    by (auto simp: hedge_live_def intro!: write_contract_capacity[OF assms(1)])
next
  case (update i u)
  have "quantize_mt (contract_linked_qty s i) = contract_linked_qty s i"
    using assms(1) contract_side.allocated_grid by (simp add: capacity_inv_def)
  with update capacity_inv_contract_room[OF assms(1)] show ?thesis
    by (auto simp: hedge_live_def hedge_open_def split: option.splits intro!: write_contract_capacity[OF assms(1)])
next
  case (cancel i c)
  then show ?thesis
    using capacity_inv_contract_room[OF assms(1)]
    by (auto simp: hedge_live_def hedge_open_def intro!: write_contract_capacity[OF assms(1)])
next
  case (delete i now)
  then show ?thesis
    using capacity_inv_contract_room[OF assms(1)]
    by (auto simp: hedge_live_def intro!: write_contract_capacity[OF assms(1)])
qed

section \<open>Status life cycle\<close>

text \<open>The moves the service makes: those of \<open>VALID_STATUS_TRANSITIONS\<close>, and the cancellation of a
  settled contract by \<open>delete\<close>.\<close>

definition contract_moves :: "HedgeContractStatus \<Rightarrow> HedgeContractStatus \<Rightarrow> bool" where
  "contract_moves a b \<longleftrightarrow> b \<in> set (VALID_STATUS_TRANSITIONS a) \<or> (a = HS_settled \<and> b = HS_cancelled)"

fun contract_rank :: "HedgeContractStatus \<Rightarrow> nat" where
  "contract_rank HS_active = 0"
| "contract_rank HS_partially_settled = 1"
| "contract_rank HS_settled = 2"
| "contract_rank HS_cancelled = 3"

interpretation contract_status: lifecycle contract_moves contract_rank
proof
  fix a b
  show "contract_moves a b \<Longrightarrow> contract_rank a < contract_rank b"
    by (cases a) (auto simp: contract_moves_def)
qed

lemma contract_moves_cancel: "a = HS_cancelled \<or> contract_moves a HS_cancelled"
  by (cases a) (simp_all add: contract_moves_def)

abbreviation contracts_follow :: "HedgeContract list \<Rightarrow> HedgeContract list \<Rightarrow> bool" where
  "contracts_follow \<equiv> rows_follow contract_moves hc_id hc_status"

lemma contract_step_follows:
  assumes "contract_step s s'"
  shows "contracts_follow (contracts s) (contracts s')"
  using assms
proof (cases rule: contract_step_cases)
  case (add c)
  then show ?thesis by simp
next
  case (archive i now)
  then show ?thesis by (auto intro: rows_follow_update)
next
  case (update i u)
  then show ?thesis by (auto intro: rows_follow_update)
next
  case (cancel i c)
  then show ?thesis using contract_moves_cancel by (auto intro!: rows_follow_update) metis
next
  case (delete i now)
  then show ?thesis using contract_moves_cancel by (auto intro!: rows_follow_update) metis
qed

lemma contract_step_checks:
  assumes "contract_step s s'" and "list_all chk_classification_matches_fixed_leg (contracts s)"
  shows "list_all chk_classification_matches_fixed_leg (contracts s')"
proof -
  have upd: "list_all chk_classification_matches_fixed_leg (update_row hc_id i f (contracts s))"
    if "\<And>c. hc_classification (f c) = hc_classification c" "\<And>c. hc_fixed_leg_side (f c) = hc_fixed_leg_side c" for i f
    using assms(2) that by (auto simp: list_all_iff set_update_row chk_classification_matches_fixed_leg_def)
  from assms(1) show ?thesis
    by (cases rule: contract_step_cases) (use assms(2) in \<open>auto intro: upd\<close>)
qed

section \<open>Deal aggregates\<close>

lemma archive_contract_consistent:
  "deals_consistent s \<Longrightarrow> archive_contract s now i = Inr s' \<Longrightarrow> deals_consistent s'"
  by (auto simp: archive_contract_def write_contract_def intro!: engine.contract_write_refresh)

lemma delete_contract_consistent:
  "deals_consistent s \<Longrightarrow> delete_contract s now i = Inr s' \<Longrightarrow> deals_consistent s'"
  by (auto simp: delete_contract_def write_contract_def intro!: engine.contract_write_refresh)

text \<open>A write that keeps the quantity and the archive mark of a contract keeps all tonnages.\<close>

lemma write_contract_consistent:
  assumes "deals_consistent s" and "\<And>c. hc_id (f c) = hc_id c"
    and "\<And>c. hc_quantity_mt (f c) = hc_quantity_mt c" and "\<And>c. hc_deleted_at (f c) = hc_deleted_at c"
  shows "deals_consistent (write_contract i f s)"
proof -
  have "live_contract (write_contract i f s) j = (if j = i then map_option f (live_contract s j) else live_contract s j)" for j
    using assms(4) by (simp add: live_contract_def get_contract_write[OF assms(2)] split: option.split)
  then have "hedge_tons_of (write_contract i f s) = hedge_tons_of s"
    "physical_tons_of (write_contract i f s) = physical_tons_of s"
    using assms(3) by (auto simp: hedge_tons_of_def physical_tons_of_def live_order_def get_order_def split: option.split)
  then show ?thesis
    using assms(1) by (simp add: deals_consistent_def deal_consistent_def deal_tons_def links_of_deal_def)
qed

lemma transition_status_consistent:
  "deals_consistent s \<Longrightarrow> transition_status s i target = Inr s' \<Longrightarrow> deals_consistent s'"
  by (auto simp: transition_status_def intro!: write_contract_consistent)

text \<open>Deal links refer to identifiers that have been issued.\<close>

definition links_issued :: "db \<Rightarrow> bool" where
  "links_issued s \<longleftrightarrow> (\<forall>l \<in> set (deal_links s). dl_linked_id l < next_uuid s)"

lemma add_contract_consistent:
  assumes "deals_consistent s" and "capacity_keys_wf s" and "links_issued s" and c: "hc_id c = next_uuid s"
  shows "deals_consistent (s\<lparr>contracts := contracts s @ [c], next_uuid := n\<rparr>)"
proof -
  let ?s' = "s\<lparr>contracts := contracts s @ [c], next_uuid := n\<rparr>"
  have "hedge_tons_of ?s' l = hedge_tons_of s l" "physical_tons_of ?s' l = physical_tons_of s l"
    if "l \<in> set (deal_links s)" for l
    using assms(3) that get_contract_fresh[OF assms(2) c]
    by (auto simp: hedge_tons_of_def physical_tons_of_def live_contract_def live_order_def get_defs links_issued_def)
  then have "deal_tons ?s' j = deal_tons s j" for j
    by (auto simp: deal_tons_def links_of_deal_def intro!: arg_cong[of _ _ sum_list])
  then show ?thesis
    using assms(1) by (simp add: deals_consistent_def deal_consistent_def)
qed

lemma post_contract_consistent:
  assumes "deals_consistent s" and "capacity_keys_wf s" and "links_issued s"
    and "post_contract s now today reference p created_by = Inr (s', i)"
  shows "deals_consistent s'"
  using post_contract_Inr[OF assms(4)] add_contract_consistent[OF assms(1-3)] by metis

section \<open>Properties\<close>

text \<open>The quantity of a contract can be changed exactly down to what its linkages with live
  orders allocate.\<close>

theorem update_contract_quantity_iff:
  assumes "get_contract s i = Some c" and "hc_deleted_at c = None" and "hcu_quantity_mt u = Some (Some q)"
  shows "is_ok (update_contract s i u) \<longleftrightarrow> quantize_mt (contract_linked_qty s i) \<le> quantize_mt q"
  using assms by (auto simp: is_ok_iff update_contract_def update_is_empty_def not_less Let_def)

definition quantity_update :: "decimal \<Rightarrow> HedgeContractUpdate" where
  "quantity_update q = \<lparr>hcu_quantity_mt = Some (Some q), hcu_counterparty_id = None, hcu_fixed_price_value = None,
     hcu_fixed_price_unit = None, hcu_float_pricing_convention = None, hcu_premium_discount = None,
     hcu_pricing_period_month = None, hcu_pricing_period_year = None, hcu_fixing_date = None,
     hcu_avg_computation_days = None, hcu_settlement_date = None, hcu_prompt_date = None, hcu_notes = None\<rparr>"

theorem update_contract_quantity_iff_witness:
  "get_contract sample_db 1 = Some (sample_contract 1 HC_short 60) \<and> is_ok (update_contract sample_db 1 (quantity_update 50))"
proof -
  have "get_contract sample_db 1 = Some (sample_contract 1 HC_short 60)" "contract_linked_qty sample_db 1 = 0"
    by (simp_all add: sample_defs get_defs contract_linked_qty_def)
  then show ?thesis
    using update_contract_quantity_iff[of sample_db 1 "sample_contract 1 HC_short 60" "quantity_update 50" 50]
    by (simp add: quantity_update_def sample_contract_def)
qed

text \<open>Two divergences. Deleting a settled contract cancels it, although
  \<open>VALID_STATUS_TRANSITIONS\<close> has no transition out of \<open>settled\<close>; and changing the quantity of a
  contract that is linked to a deal leaves the aggregates of the deal stale.\<close>

lemma delete_cancels_settled:
  "(case delete_contract (write_contract 1 (\<lambda>c. c\<lparr>hc_status := HS_settled\<rparr>) sample_db) 0 1 of
      Inl _ \<Rightarrow> False | Inr s \<Rightarrow> map hc_status (contracts s) = [HS_cancelled])
   \<and> HS_cancelled \<notin> set (VALID_STATUS_TRANSITIONS HS_settled)"
  by code_simp

lemma update_leaves_stale_deal:
  "(case and_then (create_deal sample_db 0 ''D-1'' ''copper'' ''COPPER'' [(''sales_order'', 0), (''contract'', 1)])
      (\<lambda>(s, _). update_contract s 1 (quantity_update 50)) of
      Inl _ \<Rightarrow> False
    | Inr s \<Rightarrow> map deal_total_hedge_tons (deals s) = [60] \<and> snd (deal_tons s 2) = 50)"
  by code_simp

end
