(* ===== verification/Audit_Trail.thy ===== *)
theory Audit_Trail
  imports HC_Models
begin

text \<open>
  \<open>backend/app/services/audit_trail_service.py\<close>. The services see the audit trail as rows that
  are appended with fresh identifiers (\<open>record_audit\<close>). The stored rows also carry the canonical
  JSON text of the payload, its SHA-256 checksum and an HMAC of the checksum; \<open>json.dumps\<close>,
  \<open>hashlib.sha256\<close> and \<open>hmac.new\<close> are parameters of those definitions. Dropping the extra columns
  turns the detailed operation into the one the services use.
\<close>

section \<open>The rows the services see\<close>

definition record_audit :: "string \<Rightarrow> uuid \<Rightarrow> string \<Rightarrow> (string \<times> arg option) list \<Rightarrow> db \<Rightarrow> db" where
  "record_audit entity_type entity_id event_type payload s =
     s\<lparr>audit_events := audit_events s @ [\<lparr>ae_id = next_uuid s, ae_entity_type = entity_type,
         ae_entity_id = entity_id, ae_event_type = event_type, ae_payload = payload\<rparr>],
       next_uuid := Suc (next_uuid s)\<rparr>"

lemma record_audit_frame [simp]:
  "orders (record_audit et ei ev p s) = orders s" "contracts (record_audit et ei ev p s) = contracts s"
  "linkages (record_audit et ei ev p s) = linkages s" "deals (record_audit et ei ev p s) = deals s"
  "deal_links (record_audit et ei ev p s) = deal_links s" "partners (record_audit et ei ev p s) = partners s"
  "counterparties (record_audit et ei ev p s) = counterparties s" "prices (record_audit et ei ev p s) = prices s"
  "exposures (record_audit et ei ev p s) = exposures s" "tasks (record_audit et ei ev p s) = tasks s"
  "settlement_events (record_audit et ei ev p s) = settlement_events s"
  "ledger_entries (record_audit et ei ev p s) = ledger_entries s"
  "approvals (record_audit et ei ev p s) = approvals s" "policies (record_audit et ei ev p s) = policies s"
  "pnl_snapshots (record_audit et ei ev p s) = pnl_snapshots s" "rfqs (record_audit et ei ev p s) = rfqs s"
  "rfq_quotes (record_audit et ei ev p s) = rfq_quotes s" "rfq_state_events (record_audit et ei ev p s) = rfq_state_events s"
  "rfq_invitations (record_audit et ei ev p s) = rfq_invitations s" "rfq_sequence (record_audit et ei ev p s) = rfq_sequence s"
  "mtm_snapshots (record_audit et ei ev p s) = mtm_snapshots s" "pl_snapshots (record_audit et ei ev p s) = pl_snapshots s"
  "baseline_snapshots (record_audit et ei ev p s) = baseline_snapshots s" "risk_flags (record_audit et ei ev p s) = risk_flags s"
  "pipeline_runs (record_audit et ei ev p s) = pipeline_runs s" "pipeline_steps (record_audit et ei ev p s) = pipeline_steps s"
  "next_uuid (record_audit et ei ev p s) = Suc (next_uuid s)"
  by (simp_all add: record_audit_def)

text \<open>The events of background jobs. The payload has the actor, the source and an object of metadata,
  whose keys are written here after \<open>metadata.\<close>\<close>

definition record_worker_event ::
    "string \<Rightarrow> uuid \<Rightarrow> string \<Rightarrow> string \<Rightarrow> string \<Rightarrow> (string \<times> arg option) list \<Rightarrow> db \<Rightarrow> db" where
  "record_worker_event entity_type entity_id event_type actor source metadata s =
     record_audit entity_type entity_id event_type
       ([(''actor'', Some (AStr actor)), (''source'', Some (AStr source))] @ map (\<lambda>(k, v). (''metadata.'' @ k, v)) metadata) s"

section \<open>Signed rows\<close>

type_synonym payload = "(string \<times> arg option) list"

record SignedAuditEvent = AuditEvent +
  ae_timestamp_utc :: datetime
  ae_payload_canonical :: "string option"
  ae_checksum :: string
  ae_signature :: "string option"

text \<open>The primitives of the standard library, and \<open>json_column\<close>: what the JSON column of the payload
  gives back for the object stored in it. The event is read back (\<open>db.refresh\<close>), so a verification
  sees the value of the column.\<close>

record audit_crypto =
  dumps :: "payload \<Rightarrow> string"
  json_column :: "payload \<Rightarrow> payload"
  sha256 :: "string \<Rightarrow> string"
  hmac_sha256 :: "string \<Rightarrow> string \<Rightarrow> string"

definition compute_checksum :: "audit_crypto \<Rightarrow> string \<Rightarrow> string" where
  "compute_checksum k payload_canonical = sha256 k payload_canonical"

definition compute_signature :: "audit_crypto \<Rightarrow> string \<Rightarrow> string \<Rightarrow> string" where
  "compute_signature k checksum key = hmac_sha256 k key checksum"

definition verify_signature :: "audit_crypto \<Rightarrow> string \<Rightarrow> string \<Rightarrow> string \<Rightarrow> bool" where
  "verify_signature k checksum signature key \<longleftrightarrow> compute_signature k checksum key = signature"

text \<open>\<open>signing_key\<close> is what \<open>_get_signing_key\<close> returned: a key that is unset or empty is refused.\<close>

definition record_signed ::
    "audit_crypto \<Rightarrow> string option \<Rightarrow> datetime \<Rightarrow> uuid \<Rightarrow> string \<Rightarrow> uuid \<Rightarrow> string \<Rightarrow> payload
       \<Rightarrow> SignedAuditEvent list \<Rightarrow> SignedAuditEvent list result" where
  "record_signed k signing_key now event_id entity_type entity_id event_type payload_obj events =
     and_then (raise_if (event_id \<in> ae_id ` set events) (http HTTP_409 ''Audit event already exists'')) (\<lambda>_.
     let payload_canonical = dumps k payload_obj; checksum = compute_checksum k payload_canonical
     in case signing_key of
          None \<Rightarrow> Inl (RuntimeError (Msg ''Audit emission attempted without AUDIT_SIGNING_KEY configured.'' []))
        | Some key \<Rightarrow>
            if key = [] then Inl (RuntimeError (Msg ''Audit emission attempted without AUDIT_SIGNING_KEY configured.'' []))
            else Inr (events @ [\<lparr>ae_id = event_id, ae_entity_type = entity_type, ae_entity_id = entity_id,
                   ae_event_type = event_type, ae_payload = json_column k payload_obj, ae_timestamp_utc = now,
                   ae_payload_canonical = Some payload_canonical, ae_checksum = checksum,
                   ae_signature = Some (compute_signature k checksum key)\<rparr>]))"

definition verify_event :: "audit_crypto \<Rightarrow> SignedAuditEvent \<Rightarrow> string \<Rightarrow> bool \<times> string" where
  "verify_event k event key =
     (case ae_signature event of
        None \<Rightarrow> (False, ''Event was recorded without a signature'')
      | Some signature \<Rightarrow>
          if ae_payload_canonical event = None \<or> ae_payload_canonical event = Some [] then
            (False, ''Legacy event is unverifiable: canonical audit payload missing'')
          else let payload_canonical = dumps k (ae_payload event) in
            if Some payload_canonical \<noteq> ae_payload_canonical event then
              (False, ''Payload mismatch: persisted payload no longer matches canonical audit input'')
            else if compute_checksum k payload_canonical \<noteq> ae_checksum event then
              (False, ''Checksum mismatch: persisted payload no longer matches stored checksum'')
            else if \<not> verify_signature k (ae_checksum event) signature key then
              (False, ''Signature mismatch: event may have been tampered with'')
            else (True, ''Signature valid''))"

definition get_event :: "SignedAuditEvent list \<Rightarrow> uuid \<Rightarrow> SignedAuditEvent result" where
  "get_event events i = require (get_row ae_id i events) (http HTTP_404 ''Audit event not found'')"

section \<open>Properties\<close>

text \<open>The detailed operation refines the one the services use: dropping the evidence columns of
  the table after a successful \<open>record\<close> gives the table \<open>record_audit\<close> would leave, for a payload
  that its column gives back as it was.\<close>

theorem record_signed_refines:
  assumes "record_signed k key now (next_uuid s) et ei ev p events = Inr events'"
    and "map AuditEvent.truncate events = audit_events s" and "json_column k p = p"
  shows "map AuditEvent.truncate events' = audit_events (record_audit et ei ev p s)"
  using assms by (auto simp: record_signed_def record_audit_def Let_def AuditEvent.truncate_def split: option.splits if_splits)

text \<open>C29: An audit event is recorded exactly when its identifier is free and a signing key that is not empty
  is configured. What is recorded is one row at the end, with the columns given and the payload
  as its JSON column keeps it, and it verifies with that key, for every choice of the
  cryptographic functions, provided that the canonical text is not empty and survives the
  column. With a taken identifier the answer is a conflict, whatever the key, and without a key
  the guard against unsigned rows.\<close>

theorem audit_record_verifies:
  assumes "dumps k p \<noteq> []" and "dumps k (json_column k p) = dumps k p"
  shows "case record_signed k signing_key now i et ei ev p events of
      Inl err \<Rightarrow> if i \<in> ae_id ` set events then err = http HTTP_409 ''Audit event already exists''
        else (signing_key = None \<or> signing_key = Some []) \<and> (\<exists>m. err = RuntimeError m)
    | Inr events' \<Rightarrow> i \<notin> ae_id ` set events \<and> (\<exists>key e. signing_key = Some key \<and> key \<noteq> [] \<and> events' = events @ [e]
        \<and> ae_id e = i \<and> ae_entity_type e = et \<and> ae_entity_id e = ei \<and> ae_event_type e = ev
        \<and> ae_timestamp_utc e = now \<and> ae_payload e = json_column k p
        \<and> verify_event k e key = (True, ''Signature valid''))"
  using assms
  by (auto simp: record_signed_def verify_event_def verify_signature_def Let_def raise_if_def split: option.split)

text \<open>C30: Verification detects tampering. A row that carries the signature of a verified row but
  whose payload has another canonical text does not verify, provided SHA-256 and the HMAC do
  not collide.\<close>

theorem audit_tampering_detected:
  assumes "fst (verify_event k e key)" and "ae_signature e' = ae_signature e" and "dumps k (ae_payload e') \<noteq> dumps k (ae_payload e)"
    and "\<And>x y. sha256 k x = sha256 k y \<Longrightarrow> x = y" and "\<And>x y. hmac_sha256 k key x = hmac_sha256 k key y \<Longrightarrow> x = y"
  shows "\<not> fst (verify_event k e' key)"
proof
  assume e': "fst (verify_event k e' key)"
  have valid: "sha256 k (dumps k (ae_payload x)) = ae_checksum x"
    "ae_signature x = Some (hmac_sha256 k key (ae_checksum x))" if "fst (verify_event k x key)" for x
    using that by (auto simp: verify_event_def verify_signature_def compute_signature_def compute_checksum_def Let_def
        split: option.splits if_splits)
  have "hmac_sha256 k key (ae_checksum e') = hmac_sha256 k key (ae_checksum e)"
    using valid(2)[OF assms(1)] valid(2)[OF e'] assms(2) by simp
  then have "sha256 k (dumps k (ae_payload e')) = sha256 k (dumps k (ae_payload e))"
    using assms(5) valid(1)[OF assms(1)] valid(1)[OF e'] by simp
  with assms(3,4) show False by blast
qed

section \<open>A concrete choice of the primitives\<close>

definition sample_crypto :: audit_crypto where
  "sample_crypto = \<lparr>dumps = (\<lambda>p. CHR ''{'' # concat (map fst p)), json_column = (\<lambda>p. p), sha256 = (\<lambda>x. x), hmac_sha256 = (\<lambda>key x. key @ x)\<rparr>"

definition sample_event :: "payload \<Rightarrow> SignedAuditEvent" where
  "sample_event p = \<lparr>ae_id = 0, ae_entity_type = ''deal'', ae_entity_id = 1, ae_event_type = ''created'', ae_payload = p,
     ae_timestamp_utc = 0, ae_payload_canonical = Some (CHR ''{'' # concat (map fst p)),
     ae_checksum = CHR ''{'' # concat (map fst p), ae_signature = Some ''k{''\<rparr>"

theorem record_signed_refines_witness:
  "\<exists>events'. record_signed sample_crypto (Some ''k'') 0 (next_uuid empty_db) ''deal'' 3 ''created'' [] [] = Inr events'
     \<and> map AuditEvent.truncate events' = audit_events (record_audit ''deal'' 3 ''created'' [] empty_db)"
proof -
  obtain es where es: "record_signed sample_crypto (Some ''k'') 0 (next_uuid empty_db) ''deal'' 3 ''created'' [] [] = Inr es"
    by (simp add: record_signed_def Let_def)
  show ?thesis
    using record_signed_refines[OF es] es by (simp add: empty_db_def sample_crypto_def)
qed

theorem audit_record_verifies_witness:
  "dumps sample_crypto [] \<noteq> [] \<and> dumps sample_crypto (json_column sample_crypto []) = dumps sample_crypto [] \<and>
   (case record_signed sample_crypto (Some ''k'') 0 5 ''deal'' 3 ''created'' [] [] of
      Inl _ \<Rightarrow> False
    | Inr events \<Rightarrow> \<exists>e. events = [e] \<and> verify_event sample_crypto e ''k'' = (True, ''Signature valid'')) \<and>
   (\<exists>err. record_signed sample_crypto (Some ''k'') 0 0 ''deal'' 3 ''created'' [] [sample_event []] = Inl err)"
proof -
  have d: "dumps sample_crypto [] \<noteq> []" "dumps sample_crypto (json_column sample_crypto []) = dumps sample_crypto []"
    by (simp_all add: sample_crypto_def)
  note th = audit_record_verifies[OF d, where now = 0 and et = "''deal''" and ei = 3 and ev = "''created''"]
  obtain es where es: "record_signed sample_crypto (Some ''k'') 0 5 ''deal'' 3 ''created'' [] [] = Inr es"
    by (simp add: record_signed_def Let_def)
  have "\<exists>e. es = [e] \<and> verify_event sample_crypto e ''k'' = (True, ''Signature valid'')"
    using th[where signing_key = "Some ''k''" and i = 5 and events = "[]"] unfolding es sum.case by auto
  moreover have "\<not> (case record_signed sample_crypto (Some ''k'') 0 0 ''deal'' 3 ''created'' [] [sample_event []] of
      Inl _ \<Rightarrow> False | Inr _ \<Rightarrow> True)"
    using th[where signing_key = "Some ''k''" and i = 0 and events = "[sample_event []]"]
    by (auto simp: sample_event_def split: sum.splits)
  ultimately show ?thesis
    using d unfolding es by (auto split: sum.splits)
qed

theorem audit_tampering_detected_witness:
  "fst (verify_event sample_crypto (sample_event []) ''k'') \<and> \<not> fst (verify_event sample_crypto (sample_event [(''x'', None)]) ''k'')"
proof -
  have v: "fst (verify_event sample_crypto (sample_event []) ''k'')"
    by (simp add: sample_crypto_def sample_event_def verify_event_def verify_signature_def compute_signature_def
        compute_checksum_def)
  then show ?thesis
    using audit_tampering_detected[OF v, of "sample_event [(''x'', None)]"] by (simp add: sample_crypto_def sample_event_def)
qed

end
