(* ===== verification/Order_Service.thy ===== *)
theory Order_Service
  imports Deal_Engine Linkage Contract_Service Audit_Trail
begin

text \<open>
  \<open>backend/app/services/order_service.py\<close>: creation of sales and purchase orders behind the
  commercial-partner gate, archiving, and links between sales and purchase orders. A request
  runs in one unit of work that is rolled back when an exception leaves it; the audit row of
  a rejection is written on a session of its own and stays. So the functions that can reject
  return the database as it is committed after the request, next to the result.
\<close>

section \<open>The commercial-partner gate\<close>

record OrderCreate =
  oc_commodity :: string
  oc_price_type :: PriceType
  oc_quantity_mt :: decimal
  oc_pricing_convention :: "OrderPricingConvention option"
  oc_avg_entry_price :: "decimal option"
  oc_external_reference :: "string option"
  oc_counterparty_name :: "string option"
  oc_reference_month :: "string option"
  oc_observation_date_start :: "date option"
  oc_observation_date_end :: "date option"
  oc_fixing_date :: "date option"
  oc_counterparty_id :: "uuid option"
  oc_pricing_type :: "PricingType option"
  oc_delivery_terms :: "string option"
  oc_delivery_date_start :: "date option"
  oc_delivery_date_end :: "date option"
  oc_payment_terms_days :: "int option"
  oc_currency :: string
  oc_notes :: "string option"

fun order_type_value :: "OrderType \<Rightarrow> string" where
  "order_type_value OT_sales = ''SO''"
| "order_type_value OT_purchase = ''PO''"

fun kind_value :: "CommercialPartnerKind \<Rightarrow> string" where
  "kind_value CPK_customer = ''customer''"
| "kind_value CPK_supplier = ''supplier''"

fun kyc_value :: "KycStatus \<Rightarrow> string" where
  "kyc_value KYC_pending = ''pending''"
| "kyc_value KYC_approved = ''approved''"
| "kyc_value KYC_expired = ''expired''"
| "kyc_value KYC_rejected = ''rejected''"

fun sanctions_value :: "SanctionsStatus \<Rightarrow> string" where
  "sanctions_value SAN_unscreened = ''unscreened''"
| "sanctions_value SAN_clear = ''clear''"
| "sanctions_value SAN_flagged = ''flagged''"
| "sanctions_value SAN_blocked = ''blocked''"

text \<open>\<open>CommercialPartnerService.get_by_id\<close>: soft-deleted rows are not found.\<close>

definition get_partner :: "db \<Rightarrow> uuid \<Rightarrow> CommercialPartner option" where
  "get_partner s i = (case get_row par_id i (partners s) of
     None \<Rightarrow> None | Some p \<Rightarrow> if par_is_deleted p then None else Some p)"

definition record_order_rejection ::
    "CommercialPartner \<Rightarrow> string \<Rightarrow> OrderType \<Rightarrow> string option \<Rightarrow> (string \<times> arg option) list \<Rightarrow> db \<Rightarrow> db" where
  "record_order_rejection p event_type order_type actor extra s =
     record_audit ''commercial_partner'' (par_id p) event_type
       ([(''commercial_partner_id'', Some (AId (par_id p))), (''kind'', Some (AStr (kind_value (par_kind p)))),
         (''order_type'', Some (AStr (order_type_value order_type))),
         (''requesting_actor_sub'', map_option AStr actor)] @ extra) s"

definition expected_kind :: "OrderType \<Rightarrow> CommercialPartnerKind" where
  "expected_kind order_type = (if order_type = OT_sales then CPK_customer else CPK_supplier)"

definition assert_commercial_partner_admissible ::
    "db \<Rightarrow> uuid \<Rightarrow> OrderType \<Rightarrow> string option \<Rightarrow> db \<times> CommercialPartner result" where
  "assert_commercial_partner_admissible s i order_type actor =
     (case get_partner s i of
        None \<Rightarrow> (s, Inl (http HTTP_404 ''Commercial partner not found''))
      | Some p \<Rightarrow>
          if par_kind p \<noteq> expected_kind order_type then
            (record_order_rejection p ''order_rejected_kind_mismatch'' order_type actor [] s,
             Inl (HTTPException HTTP_422 (Msg ''order_rejected_kind_mismatch''
               [AId (par_id p), AStr (kind_value (par_kind p)), AStr (kind_value (expected_kind order_type))])))
          else if par_kyc_status p \<noteq> KYC_approved then
            (record_order_rejection p ''order_rejected_kyc_not_approved'' order_type actor
               [(''kyc_status_observed'', Some (AStr (kyc_value (par_kyc_status p))))] s,
             Inl (HTTPException HTTP_422 (Msg ''order_rejected_kyc_not_approved''
               [AId (par_id p), AStr (kyc_value (par_kyc_status p))])))
          else if par_sanctions_status p = SAN_blocked then
            (record_order_rejection p ''order_rejected_sanctions_blocked'' order_type actor
               [(''sanctions_status_observed'', Some (AStr (sanctions_value (par_sanctions_status p))))] s,
             Inl (HTTPException HTTP_422 (Msg ''order_rejected_sanctions_blocked''
               [AId (par_id p), AStr (sanctions_value (par_sanctions_status p))])))
          else (s, Inr p))"

section \<open>Orders\<close>

definition new_order :: "uuid \<Rightarrow> datetime \<Rightarrow> OrderType \<Rightarrow> OrderCreate \<Rightarrow> Order" where
  "new_order i now order_type p =
     \<lparr>ord_id = i, ord_order_type = order_type, ord_price_type = oc_price_type p,
      ord_commodity = oc_commodity p, ord_quantity_mt = oc_quantity_mt p,
      ord_pricing_convention = (if oc_price_type p = PT_fixed then None else oc_pricing_convention p),
      ord_avg_entry_price = map_option quantize_price (oc_avg_entry_price p),
      ord_external_reference = oc_external_reference p, ord_counterparty_name = oc_counterparty_name p,
      ord_reference_month = (if oc_price_type p = PT_fixed then None else oc_reference_month p),
      ord_observation_date_start = (if oc_price_type p = PT_fixed then None else oc_observation_date_start p),
      ord_observation_date_end = (if oc_price_type p = PT_fixed then None else oc_observation_date_end p),
      ord_fixing_date = (if oc_price_type p = PT_fixed then None else oc_fixing_date p),
      ord_counterparty_id = oc_counterparty_id p, ord_pricing_type = oc_pricing_type p,
      ord_delivery_terms = oc_delivery_terms p, ord_delivery_date_start = oc_delivery_date_start p,
      ord_delivery_date_end = oc_delivery_date_end p, ord_payment_terms_days = oc_payment_terms_days p,
      ord_currency = oc_currency p, ord_notes = oc_notes p, ord_created_at = now, ord_deleted_at = None\<rparr>"

definition create_order :: "db \<Rightarrow> datetime \<Rightarrow> OrderType \<Rightarrow> OrderCreate \<Rightarrow> string option \<Rightarrow> db \<times> uuid result" where
  "create_order s now order_type p actor =
     (if oc_price_type p = PT_variable \<and> oc_avg_entry_price p \<noteq> None \<and> oc_pricing_convention p = None then
        (s, Inl (http HTTP_400 ''pricing_convention is required when avg_entry_price is set for variable orders''))
      else case oc_counterparty_id p of
        None \<Rightarrow> (s, Inl (HTTPException HTTP_422 (Msg ''order_rejected_missing_commercial_partner''
                  [AStr (order_type_value order_type)])))
      | Some partner_id \<Rightarrow>
          (case assert_commercial_partner_admissible s partner_id order_type actor of
             (s', Inl e) \<Rightarrow> (s', Inl e)
           | (s', Inr _) \<Rightarrow>
               (s'\<lparr>orders := orders s' @ [new_order (next_uuid s') now order_type p],
                   next_uuid := Suc (next_uuid s')\<rparr>, Inr (next_uuid s'))))"

definition create_sales_order :: "db \<Rightarrow> datetime \<Rightarrow> OrderCreate \<Rightarrow> string option \<Rightarrow> db \<times> uuid result" where
  "create_sales_order s now p actor = create_order s now OT_sales p actor"

definition create_purchase_order :: "db \<Rightarrow> datetime \<Rightarrow> OrderCreate \<Rightarrow> string option \<Rightarrow> db \<times> uuid result" where
  "create_purchase_order s now p actor = create_order s now OT_purchase p actor"

definition list_orders_filter :: "db \<Rightarrow> OrderType option \<Rightarrow> PriceType option \<Rightarrow> bool \<Rightarrow> Order list" where
  "list_orders_filter s order_type price_type include_deleted =
     filter (\<lambda>r. (include_deleted \<or> ord_deleted_at r = None)
       \<and> (case order_type of None \<Rightarrow> True | Some t \<Rightarrow> ord_order_type r = t)
       \<and> (case price_type of None \<Rightarrow> True | Some t \<Rightarrow> ord_price_type r = t)) (orders s)"

definition get_order_by_id :: "db \<Rightarrow> uuid \<Rightarrow> Order result" where
  "get_order_by_id s i = require (get_order s i) (http HTTP_404 ''Order not found'')"

definition write_order :: "uuid \<Rightarrow> (Order \<Rightarrow> Order) \<Rightarrow> db \<Rightarrow> db" where
  "write_order i f s = s\<lparr>orders := update_row ord_id i f (orders s)\<rparr>"

text \<open>The validator runs on the state with the order archived and before the flush; a rejected
  archive leaves nothing behind.\<close>

definition archive_order :: "db \<Rightarrow> datetime \<Rightarrow> uuid \<Rightarrow> db result" where
  "archive_order s now i =
     and_then (get_order_by_id s i) (\<lambda>r.
     and_then (raise_if (ord_deleted_at r \<noteq> None) (http HTTP_409 ''Order already archived'')) (\<lambda>_.
     let s1 = write_order i (\<lambda>r. r\<lparr>ord_deleted_at := Some now\<rparr>) s
     in and_then (validate_deals_for_linked_entity s1 [DL_sales_order, DL_purchase_order] i) (\<lambda>_.
        Inr (recompute_deals_for_linked_entity [DL_sales_order, DL_purchase_order] i s1))))"

section \<open>Links between sales and purchase orders\<close>

definition create_sopo_link :: "db \<Rightarrow> datetime \<Rightarrow> uuid \<Rightarrow> uuid \<Rightarrow> decimal \<Rightarrow> (db \<times> uuid) result" where
  "create_sopo_link s now so_id po_id linked_tons =
     and_then (raise_if (\<not> joined (\<lambda>r. ord_order_type r = OT_sales) (get_order s so_id))
       (http HTTP_400 ''Invalid sales order'')) (\<lambda>_.
     and_then (raise_if (\<not> joined (\<lambda>r. ord_order_type r = OT_purchase) (get_order s po_id))
       (http HTTP_400 ''Invalid purchase order'')) (\<lambda>_.
     and_then (raise_if (\<exists>l \<in> set (sopo_links s). sopo_sales_order_id l = so_id \<and> sopo_purchase_order_id l = po_id)
       (http HTTP_409 ''Link already exists'')) (\<lambda>_.
     Inr (s\<lparr>sopo_links := sopo_links s @ [\<lparr>sopo_id = next_uuid s, sopo_sales_order_id = so_id,
              sopo_purchase_order_id = po_id, sopo_linked_tons = linked_tons, sopo_created_at = now\<rparr>],
            next_uuid := Suc (next_uuid s)\<rparr>, next_uuid s))))"

section \<open>Invariants\<close>

lemma record_order_rejection_frame [simp]:
  "orders (record_order_rejection p ev t a x s) = orders s"
  "contracts (record_order_rejection p ev t a x s) = contracts s"
  "linkages (record_order_rejection p ev t a x s) = linkages s"
  "deals (record_order_rejection p ev t a x s) = deals s"
  "deal_links (record_order_rejection p ev t a x s) = deal_links s"
  "next_uuid (record_order_rejection p ev t a x s) = Suc (next_uuid s)"
  by (simp_all add: record_order_rejection_def)

text \<open>Drawing more keys from the counter harms no invariant.\<close>

lemma admissible_cases:
  assumes "assert_commercial_partner_admissible s i t actor = (s', res)"
  obtains (pass) p where "res = Inr p" "s' = s" "get_partner s i = Some p" "par_kind p = expected_kind t"
      "par_kyc_status p = KYC_approved" "par_sanctions_status p \<noteq> SAN_blocked"
  | (missing) e where "res = Inl e" "s' = s" "get_partner s i = None"
  | (reject) p ev x e where "res = Inl e" "s' = record_order_rejection p ev t actor x s" "get_partner s i = Some p"
      "par_kind p \<noteq> expected_kind t \<or> par_kyc_status p \<noteq> KYC_approved \<or> par_sanctions_status p = SAN_blocked"
proof (cases "get_partner s i")
  case None
  then show ?thesis
    using assms by (intro missing[OF _ _ None]) (auto simp: assert_commercial_partner_admissible_def)
next
  case (Some p)
  consider "par_kind p \<noteq> expected_kind t" | "par_kind p = expected_kind t" "par_kyc_status p \<noteq> KYC_approved"
    | "par_kind p = expected_kind t" "par_kyc_status p = KYC_approved" "par_sanctions_status p = SAN_blocked"
    | "par_kind p = expected_kind t" "par_kyc_status p = KYC_approved" "par_sanctions_status p \<noteq> SAN_blocked"
    by blast
  then show ?thesis
  proof cases
    case 1
    show ?thesis
      using assms Some 1 by (intro reject[OF _ _ Some disjI1[OF 1]]) (auto simp: assert_commercial_partner_admissible_def)
  next
    case 2
    show ?thesis
      using assms Some 2
      by (intro reject[OF _ _ Some disjI2[OF disjI1[OF 2(2)]]]) (auto simp: assert_commercial_partner_admissible_def)
  next
    case 3
    show ?thesis
      using assms Some 3
      by (intro reject[OF _ _ Some disjI2[OF disjI2[OF 3(3)]]]) (auto simp: assert_commercial_partner_admissible_def)
  next
    case 4
    show ?thesis
      using assms Some 4 by (intro pass[OF _ _ Some 4]) (auto simp: assert_commercial_partner_admissible_def)
  qed
qed

lemma create_order_cases:
  assumes "create_order s now t p actor = (s', res)"
  obtains (created) i q where "res = Inr (next_uuid s)" "oc_counterparty_id p = Some i" "get_partner s i = Some q"
      "par_kind q = expected_kind t" "par_kyc_status q = KYC_approved" "par_sanctions_status q \<noteq> SAN_blocked"
      "s' = s\<lparr>orders := orders s @ [new_order (next_uuid s) now t p], next_uuid := Suc (next_uuid s)\<rparr>"
  | (refused) e where "res = Inl e" "s' = s"
  | (audited) i q ev x e where "res = Inl e" "oc_counterparty_id p = Some i" "get_partner s i = Some q"
      "s' = record_order_rejection q ev t actor x s"
      "par_kind q \<noteq> expected_kind t \<or> par_kyc_status q \<noteq> KYC_approved \<or> par_sanctions_status q = SAN_blocked"
proof (cases "oc_counterparty_id p")
  case None
  then show ?thesis
    using assms refused by (auto simp: create_order_def split: if_splits)
next
  case (Some i)
  show ?thesis
  proof (cases "oc_price_type p = PT_variable \<and> oc_avg_entry_price p \<noteq> None \<and> oc_pricing_convention p = None")
    case True
    then show ?thesis using assms refused by (auto simp: create_order_def)
  next
    case False
    obtain s1 r where a: "assert_commercial_partner_admissible s i t actor = (s1, r)" by fastforce
    have c: "create_order s now t p actor = (case r of Inl e \<Rightarrow> (s1, Inl e)
        | Inr _ \<Rightarrow> (s1\<lparr>orders := orders s1 @ [new_order (next_uuid s1) now t p], next_uuid := Suc (next_uuid s1)\<rparr>,
                    Inr (next_uuid s1)))"
      using False Some a by (auto simp: create_order_def split: sum.split)
    from a show ?thesis
    proof (cases rule: admissible_cases)
      case (pass q)
      show ?thesis
        by (rule created[OF _ Some pass(3-6)]) (use assms c pass(1,2) in auto)
    next
      case (missing e)
      then show ?thesis using assms c by (intro refused[of e]) auto
    next
      case (reject q ev x e)
      show ?thesis
        by (rule audited[OF _ Some reject(3) _ reject(4)]) (use assms c reject(1,2) in auto)
    qed
  qed
qed

lemma write_order_frame [simp]:
  "contracts (write_order i f s) = contracts s" "linkages (write_order i f s) = linkages s"
  "deals (write_order i f s) = deals s" "deal_links (write_order i f s) = deal_links s"
  "next_uuid (write_order i f s) = next_uuid s" "orders (write_order i f s) = update_row ord_id i f (orders s)"
  by (simp_all add: write_order_def)

lemma get_order_write:
  assumes "\<And>r. ord_id (f r) = ord_id r"
  shows "get_order (write_order i f s) j = (if j = i then map_option f (get_order s i) else get_order s j)"
  using assms by (simp add: get_order_def table_simps)

lemma archive_order_capacity_inv:
  assumes inv: "capacity_inv s" and "archive_order s now i = Inr s'"
  shows "capacity_inv s'"
proof -
  let ?f = "\<lambda>r. r\<lparr>ord_deleted_at := Some now\<rparr>"
  let ?s1 = "write_order i ?f s"
  have get: "get_order ?s1 j = (if j = i then map_option ?f (get_order s i) else get_order s j)" for j
    by (rule get_order_write) simp
  have "capacity_inv ?s1"
  proof (rule capacity_inv_shrink[OF inv])
    show "liveness_shrinks s ?s1"
      by (auto simp: liveness_shrinks_def get get_contract_def order_live_def joined_def split: option.splits)
    show "capacity_keys_wf ?s1"
      using inv by (simp add: capacity_inv_def capacity_keys_wf_def table_simps ball_key_update_row[where P = "\<lambda>k. k < _"])
  next
    fix j q
    assume "order_capacity ?s1 j = Some q"
    then show "order_linked_qty s j \<le> quantize_mt q"
      using capacity_invD(1)[OF inv, of j] by (auto simp: order_capacity_def get split: if_splits)
  next
    fix j q
    assume "contract_capacity ?s1 j = Some q"
    then show "contract_linked_qty s j \<le> quantize_mt q"
      using capacity_invD(2)[OF inv] by (simp add: contract_capacity_def get_contract_def)
  qed simp
  then show ?thesis
    using assms(2) by (auto simp: archive_order_def Let_def)
qed

lemma get_order_fresh:
  assumes "capacity_keys_wf s" and "ord_id r = next_uuid s"
  shows "get_row ord_id i (orders s @ [r]) = (if i = next_uuid s then Some r else get_row ord_id i (orders s))"
proof -
  have "get_row ord_id (next_uuid s) (orders s) = None"
    using assms(1) by (auto simp: get_row_None_iff capacity_keys_wf_def)
  then show ?thesis
    using assms(2) by (auto simp: get_row_append split: option.split)
qed

lemma add_order_capacity:
  assumes inv: "capacity_inv s" and r: "ord_id r = next_uuid s"
  shows "capacity_inv (s\<lparr>orders := orders s @ [r], next_uuid := Suc (next_uuid s)\<rparr>)"
proof -
  let ?s' = "s\<lparr>orders := orders s @ [r], next_uuid := Suc (next_uuid s)\<rparr>"
  have keys: "capacity_keys_wf s" and wf: "linkages_wf s"
    using inv by (simp_all add: capacity_inv_def)
  have get: "get_order ?s' j = (if j = next_uuid s then Some r else get_order s j)" for j
    using get_order_fresh[OF keys r(1)] by (simp add: get_order_def)
  have old: "lk_order_id l \<noteq> next_uuid s" if "l \<in> set (linkages s)" for l
    using keys that by (fastforce simp: capacity_keys_wf_def)
  have c_eq: "contract_linked_qty ?s' j = contract_linked_qty s j" for j
    unfolding contract_linked_qty_def using old get by (auto intro!: sum_where_cong)
  have o_eq: "order_linked_qty ?s' j = order_linked_qty s j" for j
    by (simp add: order_linked_qty_def get_contract_def)
  have none: "order_linked_qty s (next_uuid s) = 0"
    unfolding order_linked_qty_def by (rule sum_where_none) (use old in auto)
  have "within_capacity contract_linked_qty contract_capacity ?s'"
    using inv c_eq by (simp add: capacity_inv_def within_capacity_def contract_capacity_def get_contract_def)
  moreover have "within_capacity order_linked_qty order_capacity ?s'"
    using inv o_eq none mt.q_nonneg[of "max 0 (ord_quantity_mt r)"]
    by (auto simp: capacity_inv_def within_capacity_def order_capacity_def get)
  moreover have "capacity_keys_wf ?s'"
    using keys r by (auto simp: capacity_keys_wf_def keyed_snoc intro: less_SucI)
  moreover have "linkages_wf ?s'"
    using wf by (simp add: linkages_wf_def)
  ultimately show ?thesis
    by (simp add: capacity_inv_def)
qed

lemma create_order_capacity_inv:
  assumes "capacity_inv s" and "create_order s now t p actor = (s', res)"
  shows "capacity_inv s'"
  using assms(2)
proof (cases rule: create_order_cases)
  case (created i q)
  then show ?thesis
    using add_order_capacity[OF assms(1), of "new_order (next_uuid s) now t p"] by (simp add: new_order_def)
next
  case (refused e)
  then show ?thesis using assms(1) by simp
next
  case (audited i q ev x e)
  then show ?thesis using capacity_inv_counter[OF assms(1)] by simp
qed

lemma archive_order_consistent:
  "deals_consistent s \<Longrightarrow> archive_order s now i = Inr s' \<Longrightarrow> deals_consistent s'"
  by (auto simp: archive_order_def write_order_def Let_def intro!: engine.order_write_refresh)

lemma create_order_consistent:
  assumes "deals_consistent s" and "capacity_keys_wf s" and "links_issued s"
    and "create_order s now t p actor = (s', res)"
  shows "deals_consistent s'"
proof -
  have frame: "deals s' = deals s" "deal_links s' = deal_links s" "contracts s' = contracts s"
    using assms(4) by (cases rule: create_order_cases; simp)+
  have "live_order s' (dl_linked_id l) = live_order s (dl_linked_id l)" if "l \<in> set (deal_links s)" for l
    using assms(4)
  proof (cases rule: create_order_cases)
    case created
    then show ?thesis
      using get_order_fresh[OF assms(2), of "new_order (next_uuid s) now t p"] assms(3) that
      by (auto simp: live_order_def get_order_def new_order_def links_issued_def)
  qed (simp_all add: live_order_def get_order_def)
  then have "physical_tons_of s' l = physical_tons_of s l" "hedge_tons_of s' l = hedge_tons_of s l"
    if "l \<in> set (deal_links s)" for l
    using that by (simp_all add: physical_tons_of_def hedge_tons_of_def live_contract_def get_contract_def frame)
  then have "deal_tons s' j = deal_tons s j" for j
    by (auto simp: deal_tons_def links_of_deal_def frame intro!: arg_cong[of _ _ sum_list])
  then show ?thesis
    using assms(1) by (simp add: deals_consistent_def deal_consistent_def frame)
qed

lemma recompute_deals_live [simp]:
  "live_order (recompute_deals_for_linked_entity ts i s) = live_order s"
  "live_contract (recompute_deals_for_linked_entity ts i s) = live_contract s"
  "links_of_deal (recompute_deals_for_linked_entity ts i s) = links_of_deal s"
  by (auto simp: live_order_def live_contract_def links_of_deal_def get_defs)

lemma validate_hedge_direction_refresh [simp]:
  "validate_hedge_direction (recompute_deals_for_linked_entity ts i s) j = Inr () \<longleftrightarrow> validate_hedge_direction s j = Inr ()"
  by (simp add: validate_hedge_direction_ok hedge_covered_def)

section \<open>Properties\<close>

text \<open>The partner an order request is checked against, and when that partner is admissible.\<close>

definition order_partner :: "db \<Rightarrow> OrderCreate \<Rightarrow> CommercialPartner option" where
  "order_partner s p =
     (if oc_price_type p = PT_variable \<and> oc_avg_entry_price p \<noteq> None \<and> oc_pricing_convention p = None then None
      else Option.bind (oc_counterparty_id p) (get_partner s))"

definition partner_admissible :: "OrderType \<Rightarrow> CommercialPartner \<Rightarrow> bool" where
  "partner_admissible t q \<longleftrightarrow>
     par_kind q = expected_kind t \<and> par_kyc_status q = KYC_approved \<and> par_sanctions_status q \<noteq> SAN_blocked"

text \<open>C24: The commercial-partner gate. A request without a partner on file, or with a price but no
  pricing convention on a variable order, fails and changes nothing. Otherwise an order is
  created exactly if the partner is of the kind the order type asks for, has approved KYC and
  is not blocked by sanctions; if not, no order is created but one audit event about that
  partner is committed.\<close>

theorem create_order_gate:
  "case create_order s now t p actor of (s', res) \<Rightarrow>
     (case order_partner s p of
        None \<Rightarrow> \<not> is_ok res \<and> s' = s
      | Some q \<Rightarrow>
          if partner_admissible t q then
            res = Inr (next_uuid s) \<and> orders s' = orders s @ [new_order (next_uuid s) now t p]
              \<and> audit_events s' = audit_events s
          else
            \<not> is_ok res \<and> orders s' = orders s
              \<and> (\<exists>ev. audit_events s' = audit_events s @ [ev] \<and> ae_entity_id ev = par_id q))"
  by (auto simp: create_order_def order_partner_def partner_admissible_def assert_commercial_partner_admissible_def
      record_order_rejection_def record_audit_def is_ok_def split: option.splits)

text \<open>Archiving an order never leaves a linked deal with an uncovered hedge: in every deal
  that has the order as a link, the hedge-direction rules hold afterwards.\<close>

theorem archive_order_keeps_deals_covered:
  assumes "archive_order s now i = Inr s'" and "l \<in> set (deal_links s)" and "is_order_link (dl_linked_type l)"
    and "dl_linked_id l = i" and "dl_deal_id l \<in> deal_id ` set (deals s)"
  shows "validate_hedge_direction s' (dl_deal_id l) = Inr ()"
proof -
  let ?ts = "[DL_sales_order, DL_purchase_order]"
  let ?s1 = "write_order i (\<lambda>r. r\<lparr>ord_deleted_at := Some now\<rparr>) s"
  have v: "validate_deals_for_linked_entity ?s1 ?ts i = Inr ()"
    and s': "s' = recompute_deals_for_linked_entity ?ts i ?s1"
    using assms(1) by (auto simp: archive_order_def Let_def)
  have "dl_deal_id l \<in> set (deals_for_linked_entity ?s1 ?ts i)"
    using assms(2-) by (auto simp: deals_for_linked_entity_def is_order_link_def image_iff)
  with v show ?thesis
    by (simp add: s' validate_deals_for_linked_entity_def fold_result_unit)
qed

definition sample_partner :: CommercialPartner where
  "sample_partner = \<lparr>par_id = 7, par_kind = CPK_customer, par_text = (\<lambda>_. None), par_lei_status = LEI_not_provided,
     par_lei_legal_name = None, par_lei_checked_at = None, par_kyc_status = KYC_approved,
     par_sanctions_status = SAN_clear, par_risk_rating = RISK_medium, par_credit_limit = None,
     par_credit_currency = None, par_payment_conditions = None, par_approved_value = None,
     par_approved_currency = None, par_approved_terms = None, par_is_active = True, par_created_at = 0,
     par_is_deleted = False, par_deleted_at = None\<rparr>"

definition sample_payload :: "decimal \<Rightarrow> OrderCreate" where
  "sample_payload q = \<lparr>oc_commodity = ''COPPER'', oc_price_type = PT_variable, oc_quantity_mt = q,
     oc_pricing_convention = Some OPC_avg, oc_avg_entry_price = None, oc_external_reference = None,
     oc_counterparty_name = None, oc_reference_month = None, oc_observation_date_start = None,
     oc_observation_date_end = None, oc_fixing_date = None, oc_counterparty_id = Some 7, oc_pricing_type = None,
     oc_delivery_terms = None, oc_delivery_date_start = None, oc_delivery_date_end = None,
     oc_payment_terms_days = None, oc_currency = ''USD'', oc_notes = None\<rparr>"

lemmas order_eval = create_order_def assert_commercial_partner_admissible_def get_partner_def expected_kind_def
  sample_partner_def sample_payload_def

text \<open>A deal that links the sample order only.\<close>

definition sample_deal_db :: db where
  "sample_deal_db = sample_db\<lparr>
     deals := [\<lparr>deal_id = 2, deal_reference = ''D-1'', deal_name = ''copper'', deal_commodity = ''COPPER'',
       deal_status = DS_open, deal_total_physical_tons = 100, deal_total_hedge_tons = 0, deal_hedge_ratio = 0,
       deal_created_at = 0\<rparr>],
     deal_links := [\<lparr>dl_id = 3, dl_deal_id = 2, dl_linked_type = DL_sales_order, dl_linked_id = 0, dl_created_at = 0\<rparr>],
     next_uuid := 4\<rparr>"

theorem archive_order_keeps_deals_covered_witness:
  "\<exists>s'. archive_order sample_deal_db 5 0 = Inr s' \<and> validate_hedge_direction s' 2 = Inr ()"
proof -
  have "is_ok (archive_order sample_deal_db 5 0)"
    by code_simp
  then obtain s' where s': "archive_order sample_deal_db 5 0 = Inr s'"
    by (auto simp: is_ok_iff)
  show ?thesis
    using archive_order_keeps_deals_covered[OF s', of "hd (deal_links sample_deal_db)"] s'
    by (simp add: sample_deal_db_def is_order_link_def)
qed

text \<open>The request schema puts no lower bound on the quantity: an order of negative quantity is
  accepted.\<close>

lemma negative_order_accepted:
  "(case create_order (sample_db\<lparr>partners := [sample_partner], next_uuid := 8\<rparr>) 0 OT_sales (sample_payload (- 5)) None of
      (s', Inr i) \<Rightarrow> joined (\<lambda>r. ord_quantity_mt r = - 5) (get_order s' i) | (s', Inl e) \<Rightarrow> False)"
  by (simp add: order_eval sample_defs get_order_def new_order_def)

end
