(* ===== verification/Exposure_Engine.thy ===== *)
theory Exposure_Engine
  imports Order_Service
begin

text \<open>
  \<open>backend/app/services/exposure_engine.py\<close>: reconciliation of the exposure table with the live
  orders and linkages, hedge tasks, and the reads of both tables. The unit of work rolls
  everything back when reconciliation raises, so the error result carries no state.
\<close>

section \<open>Reconciliation\<close>

text \<open>\<open>_get_linked_qty_map\<close> with the default of \<open>dict.get\<close>: linkages whose hedge and order are both
  live.\<close>

definition get_linked_qty_map :: "db \<Rightarrow> uuid \<Rightarrow> decimal" where
  "get_linked_qty_map s i = quantize_mt (sum_where
     (\<lambda>l. lk_order_id l = i \<and> joined hedge_live (get_contract s (lk_contract_id l))
        \<and> joined order_live (get_order s (lk_order_id l))) lk_quantity_mt (linkages s))"

definition exposure_direction_of :: "Order \<Rightarrow> ExposureDirection \<times> ExposureSourceType" where
  "exposure_direction_of r =
     (if ord_order_type r = OT_purchase then (ED_long, EST_purchase_order) else (ED_short, EST_sales_order))"

definition exposure_status_of :: "decimal \<Rightarrow> decimal \<Rightarrow> ExposureStatus" where
  "exposure_status_of hedged_qty open_qty =
     (if hedged_qty \<le> 0 then ES_open else if open_qty \<le> 0 then ES_fully_hedged else ES_partially_hedged)"

definition live_exposure_of :: "db \<Rightarrow> uuid \<Rightarrow> Exposure option" where
  "live_exposure_of s i = find (\<lambda>e. exp_source_id e = i \<and> \<not> exp_is_deleted e) (exposures s)"

text \<open>What reconciliation writes for an order: quantity, open quantity, status, commodity.\<close>

record exposure_target =
  tg_original :: decimal
  tg_open :: decimal
  tg_status :: ExposureStatus
  tg_commodity :: string

definition exposure_target_of :: "(uuid \<Rightarrow> decimal) \<Rightarrow> Order \<Rightarrow> exposure_target" where
  "exposure_target_of linked_map r =
     (let hedged_qty = quantize_mt (linked_map (ord_id r));
          order_qty = quantize_mt (ord_quantity_mt r);
          open_qty = quantize_mt (order_qty - hedged_qty)
      in \<lparr>tg_original = order_qty, tg_open = open_qty, tg_status = exposure_status_of hedged_qty open_qty,
          tg_commodity = commodity_key (ord_commodity r)\<rparr>)"

text \<open>The four comparisons of the update branch: a quantity is written only when it differs after
  quantisation.\<close>

definition refresh_exposure :: "exposure_target \<Rightarrow> Exposure \<Rightarrow> Exposure" where
  "refresh_exposure t e =
     e\<lparr>exp_original_tons := (if quantize_mt (exp_original_tons e) \<noteq> tg_original t then tg_original t else exp_original_tons e),
       exp_open_tons := (if quantize_mt (exp_open_tons e) \<noteq> tg_open t then tg_open t else exp_open_tons e),
       exp_status := tg_status t, exp_commodity := tg_commodity t\<rparr>"

definition exposure_matches :: "exposure_target \<Rightarrow> Exposure \<Rightarrow> bool" where
  "exposure_matches t e \<longleftrightarrow> quantize_mt (exp_original_tons e) = tg_original t \<and> quantize_mt (exp_open_tons e) = tg_open t
     \<and> exp_status e = tg_status t \<and> exp_commodity e = tg_commodity t"

type_synonym reconcile_state = "db \<times> nat \<times> nat"

definition reconcile_order :: "(uuid \<Rightarrow> decimal) \<Rightarrow> datetime \<Rightarrow> Order \<Rightarrow> reconcile_state \<Rightarrow> reconcile_state result" where
  "reconcile_order linked_map now r st =
     (let (s, created, updated) = st
      in if ord_price_type r = PT_fixed then Inr st
         else
           let hedged_qty = quantize_mt (linked_map (ord_id r)); order_qty = quantize_mt (ord_quantity_mt r);
               t = exposure_target_of linked_map r
           in if order_qty < hedged_qty then
                Inl (ExposureOverAllocationError (ord_id r) hedged_qty order_qty (quantize_mt (hedged_qty - order_qty)))
              else (case live_exposure_of s (ord_id r) of
                Some existing \<Rightarrow>
                  Inr (s\<lparr>exposures := update_row exp_id (exp_id existing) (refresh_exposure t) (exposures s)\<rparr>,
                       created, if exposure_matches t existing then updated else Suc updated)
              | None \<Rightarrow>
                  Inr (s\<lparr>exposures := exposures s @ [
                         \<lparr>exp_id = next_uuid s, exp_commodity = tg_commodity t,
                          exp_direction = fst (exposure_direction_of r), exp_source_type = snd (exposure_direction_of r),
                          exp_source_id = ord_id r, exp_original_tons = tg_original t, exp_open_tons = tg_open t,
                          exp_price_per_ton = ord_avg_entry_price r, exp_settlement_month = None,
                          exp_status = tg_status t, exp_created_at = now, exp_is_deleted = False, exp_deleted_at = None\<rparr>],
                         next_uuid := Suc (next_uuid s)\<rparr>, Suc created, updated)))"

text \<open>The retirement sweep: exposures whose source order is archived, and their pending tasks.\<close>

definition exposure_stale :: "db \<Rightarrow> Exposure \<Rightarrow> bool" where
  "exposure_stale s e \<longleftrightarrow> \<not> exp_is_deleted e \<and> joined (\<lambda>r. ord_deleted_at r \<noteq> None) (get_order s (exp_source_id e))"

definition task_of_stale :: "db \<Rightarrow> HedgeTask \<Rightarrow> bool" where
  "task_of_stale s t \<longleftrightarrow> tsk_status t = HT_pending
     \<and> (\<exists>e \<in> set (exposures s). exposure_stale s e \<and> tsk_exposure_id t = exp_id e)"

definition retire_exposures :: "datetime \<Rightarrow> db \<Rightarrow> db" where
  "retire_exposures now s =
     s\<lparr>exposures := map (\<lambda>e. if exposure_stale s e then e\<lparr>exp_is_deleted := True, exp_deleted_at := Some now\<rparr> else e) (exposures s),
       tasks := map (\<lambda>t. if task_of_stale s t then t\<lparr>tsk_status := HT_cancelled\<rparr> else t) (tasks s)\<rparr>"

definition reconcile_from_orders :: "db \<Rightarrow> datetime \<Rightarrow> (db \<times> uuid \<times> reconcile_summary) result" where
  "reconcile_from_orders s now =
     (let run_id = next_uuid s;
          s0 = s\<lparr>recon_runs := recon_runs s @ [\<lparr>rr_id = run_id, rr_status = RR_running, rr_started_at = now,
                  rr_completed_at = None, rr_rows_created = 0, rr_rows_updated = 0, rr_summary = None\<rparr>],
                 next_uuid := Suc run_id\<rparr>;
          linked_map = get_linked_qty_map s0
      in and_then (fold_result (reconcile_order linked_map now)
           (filter (\<lambda>r. ord_deleted_at r = None) (orders s0)) (s0, 0, 0)) (\<lambda>(s1, created, updated).
         let retired = length (filter (exposure_stale s1) (exposures s1));
             tasks_cancelled = length (filter (task_of_stale s1) (tasks s1));
             s2 = retire_exposures now s1;
             summary = \<lparr>rs_created = created, rs_updated = updated, rs_retired = retired,
                        rs_tasks_cancelled = tasks_cancelled\<rparr>
         in Inr (s2\<lparr>recon_runs := update_row rr_id run_id
                   (\<lambda>r. r\<lparr>rr_status := RR_succeeded, rr_completed_at := Some now, rr_rows_created := created,
                          rr_rows_updated := updated, rr_summary := Some summary\<rparr>) (recon_runs s2)\<rparr>, run_id, summary)))"

section \<open>Hedge tasks\<close>

definition create_hedge_tasks :: "db \<Rightarrow> datetime \<Rightarrow> db \<times> nat" where
  "create_hedge_tasks s now =
     (let open_exposures = filter (\<lambda>e. \<not> exp_is_deleted e \<and> exp_status e = ES_open \<and> 0 < exp_open_tons e) (exposures s);
          targets = filter (\<lambda>e. \<not> (\<exists>t \<in> set (tasks s). tsk_exposure_id t = exp_id e \<and> tsk_status t = HT_pending)) open_exposures;
          new = map (\<lambda>(k, e). \<lparr>tsk_id = next_uuid s + k, tsk_exposure_id = exp_id e, tsk_recommended_tons = exp_open_tons e,
                  tsk_recommended_action = HTA_hedge_new, tsk_status = HT_pending, tsk_created_at = now,
                  tsk_executed_at = None\<rparr>) (enumerate 0 targets)
      in (s\<lparr>tasks := tasks s @ new, next_uuid := next_uuid s + length new\<rparr>, length new))"

definition task_stale :: "db \<Rightarrow> HedgeTask \<Rightarrow> bool" where
  "task_stale s t \<longleftrightarrow> tsk_status t = HT_pending
     \<and> joined (\<lambda>e. exp_status e = ES_fully_hedged \<or> exp_status e = ES_cancelled) (get_exposure_row s (tsk_exposure_id t))"

definition cancel_stale_tasks :: "db \<Rightarrow> db \<times> nat" where
  "cancel_stale_tasks s =
     (s\<lparr>tasks := map (\<lambda>t. if task_stale s t then t\<lparr>tsk_status := HT_cancelled\<rparr> else t) (tasks s)\<rparr>,
      length (filter (task_stale s) (tasks s)))"

fun task_status_value :: "HedgeTaskStatus \<Rightarrow> string" where
  "task_status_value HT_pending = ''pending''"
| "task_status_value HT_executed = ''executed''"
| "task_status_value HT_cancelled = ''cancelled''"

definition execute_task :: "db \<Rightarrow> datetime \<Rightarrow> uuid \<Rightarrow> db result" where
  "execute_task s now i =
     and_then (require (get_task s i) (http HTTP_404 ''HedgeTask not found'')) (\<lambda>t.
     and_then (raise_if (tsk_status t \<noteq> HT_pending)
       (HTTPException HTTP_409 (Msg ''Task is already {}'' [AStr (task_status_value (tsk_status t))]))) (\<lambda>_.
     and_then (raise_if (joined exp_is_deleted (get_exposure_row s (tsk_exposure_id t)))
       (http HTTP_409 ''Task's exposure has been retired (source order deleted)'')) (\<lambda>_.
     Inr (s\<lparr>tasks := update_row tsk_id i (\<lambda>t. t\<lparr>tsk_status := HT_executed, tsk_executed_at := Some now\<rparr>) (tasks s)\<rparr>))))"

definition list_pending_tasks_filter :: "db \<Rightarrow> HedgeTask list" where
  "list_pending_tasks_filter s =
     filter (\<lambda>t. tsk_status t = HT_pending \<and> joined (\<lambda>e. \<not> exp_is_deleted e) (get_exposure_row s (tsk_exposure_id t))) (tasks s)"

definition list_exposures_filter :: "db \<Rightarrow> string option \<Rightarrow> ExposureStatus option \<Rightarrow> string option \<Rightarrow> Exposure list" where
  "list_exposures_filter s commodity status_filter settlement_month =
     filter (\<lambda>e. \<not> exp_is_deleted e
       \<and> (case commodity of None \<Rightarrow> True | Some c \<Rightarrow> exp_commodity e \<in> commodity_aliases c)
       \<and> (case status_filter of None \<Rightarrow> True | Some st \<Rightarrow> exp_status e = st)
       \<and> (case settlement_month of None \<Rightarrow> True | Some m \<Rightarrow> exp_settlement_month e = Some m)) (exposures s)"

definition get_exposure :: "db \<Rightarrow> uuid \<Rightarrow> Exposure result" where
  "get_exposure s i = require (find (\<lambda>e. exp_id e = i \<and> \<not> exp_is_deleted e) (exposures s))
     (http HTTP_404 ''Exposure not found'')"

section \<open>What one order does to the exposure table\<close>

definition exposures_wf :: "db \<Rightarrow> bool" where
  "exposures_wf s \<longleftrightarrow> keyed exp_id (exposures s) \<and> (\<forall>e \<in> set (exposures s). exp_id e < next_uuid s)"

lemma find_update_row:
  assumes "\<And>r. P (f r) = P r"
  shows "find P (update_row key k f rows) = map_option (\<lambda>r. if key r = k then f r else r) (find P rows)"
  by (induction rows) (auto simp: assms)

lemma update_row_same:
  "(\<And>r. r \<in> set rows \<Longrightarrow> key r = k \<Longrightarrow> f r = r) \<Longrightarrow> update_row key k f rows = rows"
  by (induction rows) auto

lemma target_grid [simp]:
  "quantize_mt (tg_original (exposure_target_of m r)) = tg_original (exposure_target_of m r)"
  "quantize_mt (tg_open (exposure_target_of m r)) = tg_open (exposure_target_of m r)"
  by (simp_all add: exposure_target_of_def Let_def)

lemma refresh_exposure_keeps [simp]:
  "exp_id (refresh_exposure t e) = exp_id e" "exp_source_id (refresh_exposure t e) = exp_source_id e"
  "exp_is_deleted (refresh_exposure t e) = exp_is_deleted e"
  by (simp_all add: refresh_exposure_def)

lemma refresh_exposure_matches:
  "exposure_matches (exposure_target_of m r) (refresh_exposure (exposure_target_of m r) e)"
  by (simp add: exposure_matches_def refresh_exposure_def)

lemma refresh_exposure_id: "exposure_matches t e \<Longrightarrow> refresh_exposure t e = e"
  by (simp add: exposure_matches_def refresh_exposure_def)

lemma live_exposure_ofD:
  "live_exposure_of s i = Some e \<Longrightarrow> e \<in> set (exposures s) \<and> exp_source_id e = i \<and> \<not> exp_is_deleted e"
  unfolding live_exposure_of_def by (rule find_SomeD)

definition only_exposures :: "db \<Rightarrow> db \<Rightarrow> bool" where
  "only_exposures s s' \<longleftrightarrow> (\<exists>es n. s' = s\<lparr>exposures := es, next_uuid := n\<rparr> \<and> next_uuid s \<le> n)"

lemma only_exposures_refl [simp]: "only_exposures s s"
  unfolding only_exposures_def by (rule exI[of _ "exposures s"], rule exI[of _ "next_uuid s"]) simp

lemma only_exposures_trans: "only_exposures s t \<Longrightarrow> only_exposures t u \<Longrightarrow> only_exposures s u"
proof -
  assume "only_exposures s t" "only_exposures t u"
  then obtain es n es' n' where "t = s\<lparr>exposures := es, next_uuid := n\<rparr>" "next_uuid s \<le> n"
    "u = t\<lparr>exposures := es', next_uuid := n'\<rparr>" "next_uuid t \<le> n'"
    by (auto simp: only_exposures_def)
  then have "u = s\<lparr>exposures := es', next_uuid := n'\<rparr> \<and> next_uuid s \<le> n'" by simp
  then show ?thesis unfolding only_exposures_def by blast
qed

lemma only_exposures_frame:
  assumes "only_exposures s s'"
  shows "orders s' = orders s" "contracts s' = contracts s" "linkages s' = linkages s" "tasks s' = tasks s"
    "recon_runs s' = recon_runs s" "next_uuid s \<le> next_uuid s'"
  using assms by (auto simp: only_exposures_def)

lemma only_exposures_I:
  "only_exposures s (s\<lparr>exposures := es\<rparr>)"
  "next_uuid s \<le> n \<Longrightarrow> only_exposures s (s\<lparr>exposures := es, next_uuid := n\<rparr>)"
  unfolding only_exposures_def
  by (rule exI[of _ es], rule exI[of _ "next_uuid s"], simp) (rule exI[of _ es], rule exI[of _ n], simp)

text \<open>The successful outcomes of one turn of the loop.\<close>

lemma reconcile_order_cases:
  assumes "reconcile_order m now r (s, c, u) = Inr (s', c', u')"
  obtains (fixed) "ord_price_type r = PT_fixed" "s' = s" "c' = c" "u' = u"
  | (refreshed) e where "ord_price_type r = PT_variable" "live_exposure_of s (ord_id r) = Some e"
      "s' = s\<lparr>exposures := update_row exp_id (exp_id e) (refresh_exposure (exposure_target_of m r)) (exposures s)\<rparr>"
      "c' = c" "u' = (if exposure_matches (exposure_target_of m r) e then u else Suc u)"
  | (created) e where "ord_price_type r = PT_variable" "live_exposure_of s (ord_id r) = None"
      "s' = s\<lparr>exposures := exposures s @ [e], next_uuid := Suc (next_uuid s)\<rparr>"
      "exp_id e = next_uuid s" "exp_source_id e = ord_id r" "\<not> exp_is_deleted e"
      "exposure_matches (exposure_target_of m r) e" "c' = Suc c" "u' = u"
proof (cases "ord_price_type r")
  case PT_fixed
  then show ?thesis using assms fixed by (simp add: reconcile_order_def)
next
  case PT_variable
  show ?thesis
  proof (cases "live_exposure_of s (ord_id r)")
    case None
    show ?thesis
      by (rule created[OF PT_variable None])
        (use assms PT_variable None in \<open>auto simp: reconcile_order_def Let_def exposure_matches_def split: if_splits\<close>)
  next
    case (Some e)
    show ?thesis
      by (rule refreshed[OF PT_variable Some])
        (use assms PT_variable Some in \<open>auto simp: reconcile_order_def Let_def split: if_splits\<close>)
  qed
qed

lemma reconcile_order_frame:
  assumes "exposures_wf s" and "reconcile_order m now r (s, c, u) = Inr (s', c', u')"
  shows "exposures_wf s' \<and> only_exposures s s'"
  using assms(2)
proof (cases rule: reconcile_order_cases)
  case fixed
  then show ?thesis using assms(1) by simp
next
  case (refreshed e)
  then show ?thesis
    using assms(1) by (auto simp: exposures_wf_def table_simps ball_key_update_row[where P = "\<lambda>k. k < _"] intro: only_exposures_I)
next
  case (created e)
  then show ?thesis
    using assms(1) by (auto simp: exposures_wf_def keyed_snoc intro: only_exposures_I less_SucI)
qed

lemma reconcile_order_other:
  assumes "exposures_wf s" and "reconcile_order m now r (s, c, u) = Inr (s', c', u')" and "i \<noteq> ord_id r"
  shows "live_exposure_of s' i = live_exposure_of s i"
  using assms(2)
proof (cases rule: reconcile_order_cases)
  case fixed
  then show ?thesis by simp
next
  case (refreshed e)
  have "exp_id e' \<noteq> exp_id e" if "live_exposure_of s i = Some e'" for e'
    using live_exposure_ofD[OF that] live_exposure_ofD[OF refreshed(2)] assms(1,3)
    by (auto simp: exposures_wf_def dest: keyed_inj)
  then show ?thesis
    unfolding refreshed(3) by (cases "live_exposure_of s i") (auto simp: live_exposure_of_def find_update_row)
next
  case (created e)
  then show ?thesis
    using assms(3) by (auto simp: live_exposure_of_def find_append split: option.split)
qed

lemma reconcile_order_this:
  assumes "exposures_wf s" and "reconcile_order m now r (s, c, u) = Inr (s', c', u')" and "ord_price_type r = PT_variable"
  shows "\<exists>e. live_exposure_of s' (ord_id r) = Some e \<and> exposure_matches (exposure_target_of m r) e"
  using assms(2)
proof (cases rule: reconcile_order_cases)
  case fixed
  then show ?thesis using assms(3) by simp
next
  case (refreshed e)
  then show ?thesis
    by (auto simp: live_exposure_of_def find_update_row refresh_exposure_matches)
next
  case (created e)
  then show ?thesis
    by (auto simp: live_exposure_of_def find_append)
qed

text \<open>An order whose exposure is up to date changes nothing.\<close>

lemma reconcile_order_noop:
  assumes "exposures_wf s" and "reconcile_order m now r (s, c, u) = Inr (s', c', u')"
    and "ord_price_type r = PT_variable \<Longrightarrow>
      \<exists>e. live_exposure_of s (ord_id r) = Some e \<and> exposure_matches (exposure_target_of m r) e"
  shows "s' = s \<and> c' = c \<and> u' = u"
  using assms(2)
proof (cases rule: reconcile_order_cases)
  case (refreshed e)
  then have e: "exposure_matches (exposure_target_of m r) e" using assms(3) by auto
  have "update_row exp_id (exp_id e) (refresh_exposure (exposure_target_of m r)) (exposures s) = exposures s"
    using live_exposure_ofD[OF refreshed(2)] assms(1) e
    by (intro update_row_same) (auto simp: exposures_wf_def refresh_exposure_id dest: keyed_inj)
  with refreshed e show ?thesis by simp
qed (use assms(3) in auto)

section \<open>The loop over the orders\<close>

abbreviation loop :: "(uuid \<Rightarrow> decimal) \<Rightarrow> datetime \<Rightarrow> Order list \<Rightarrow> reconcile_state \<Rightarrow> reconcile_state result" where
  "loop m now rs st \<equiv> fold_result (reconcile_order m now) rs st"

lemma reconcile_loop_frame:
  assumes "loop m now rs (s, c, u) = Inr (s', c', u')" and "exposures_wf s"
  shows "exposures_wf s' \<and> only_exposures s s' \<and>
    (\<forall>i. i \<notin> ord_id ` set rs \<longrightarrow> live_exposure_of s' i = live_exposure_of s i)"
  using assms
proof (induction rs arbitrary: s c u)
  case Nil
  then show ?case by simp
next
  case (Cons r rs)
  obtain s1 c1 u1 where r: "reconcile_order m now r (s, c, u) = Inr (s1, c1, u1)"
    and rest: "loop m now rs (s1, c1, u1) = Inr (s', c', u')"
    using Cons.prems(1) by (auto split: sum.splits)
  have s1: "exposures_wf s1" "only_exposures s s1"
    using reconcile_order_frame[OF Cons.prems(2) r] by auto
  show ?case
    using Cons.IH[OF rest s1(1)] only_exposures_trans[OF s1(2)] reconcile_order_other[OF Cons.prems(2) r] by auto
qed

lemma reconcile_loop_matches:
  assumes "loop m now rs (s, c, u) = Inr (s', c', u')" and "exposures_wf s" and "distinct (map ord_id rs)"
    and "r \<in> set rs" and "ord_price_type r = PT_variable"
  shows "\<exists>e. live_exposure_of s' (ord_id r) = Some e \<and> exposure_matches (exposure_target_of m r) e"
  using assms
proof (induction rs arbitrary: s c u)
  case Nil
  then show ?case by simp
next
  case (Cons r0 rs)
  obtain s1 c1 u1 where r0: "reconcile_order m now r0 (s, c, u) = Inr (s1, c1, u1)"
    and rest: "loop m now rs (s1, c1, u1) = Inr (s', c', u')"
    using Cons.prems(1) by (auto split: sum.splits)
  have s1: "exposures_wf s1" using reconcile_order_frame[OF Cons.prems(2) r0] by simp
  show ?case
  proof (cases "r = r0")
    case True
    then have "live_exposure_of s' (ord_id r) = live_exposure_of s1 (ord_id r)"
      using reconcile_loop_frame[OF rest s1] Cons.prems(3) by auto
    then show ?thesis
      using reconcile_order_this[OF Cons.prems(2) r0] True Cons.prems(5) by simp
  next
    case False
    then show ?thesis using Cons.IH[OF rest s1] Cons.prems by auto
  qed
qed

lemma reconcile_loop_noop:
  assumes "loop m now rs (s, c, u) = Inr (s', c', u')" and "exposures_wf s"
    and "\<And>r. r \<in> set rs \<Longrightarrow> ord_price_type r = PT_variable \<Longrightarrow>
      \<exists>e. live_exposure_of s (ord_id r) = Some e \<and> exposure_matches (exposure_target_of m r) e"
  shows "s' = s \<and> c' = c \<and> u' = u"
  using assms
proof (induction rs arbitrary: s c u)
  case Nil
  then show ?case by simp
next
  case (Cons r rs)
  obtain s1 c1 u1 where r: "reconcile_order m now r (s, c, u) = Inr (s1, c1, u1)"
    and rest: "loop m now rs (s1, c1, u1) = Inr (s', c', u')"
    using Cons.prems(1) by (auto split: sum.splits)
  have "s1 = s \<and> c1 = c \<and> u1 = u"
    using reconcile_order_noop[OF Cons.prems(2) r] Cons.prems(3)[of r] by simp
  with Cons.IH[OF rest] Cons.prems(2,3) show ?case by simp
qed

text \<open>The loop raises only on an over-allocated order.\<close>

lemma reconcile_order_ok:
  assumes "ord_price_type r = PT_variable \<Longrightarrow> quantize_mt (m (ord_id r)) \<le> quantize_mt (ord_quantity_mt r)"
  shows "\<exists>st'. reconcile_order m now r st = Inr st'"
  using assms by (cases st; cases "ord_price_type r") (auto simp: reconcile_order_def Let_def not_less split: option.split)

lemma reconcile_loop_ok:
  assumes "\<And>r. r \<in> set rs \<Longrightarrow> ord_price_type r = PT_variable \<Longrightarrow>
    quantize_mt (m (ord_id r)) \<le> quantize_mt (ord_quantity_mt r)"
  shows "\<exists>st'. loop m now rs st = Inr st'"
  using fold_result_ok[of "\<lambda>_. True" st rs "reconcile_order m now"] reconcile_order_ok assms by simp

lemma reconcile_loop_within:
  assumes "loop m now rs st = Inr st'" and "r \<in> set rs" "ord_price_type r = PT_variable"
  shows "quantize_mt (m (ord_id r)) \<le> quantize_mt (ord_quantity_mt r)"
  using assms
proof (induction rs arbitrary: st)
  case (Cons q rs)
  obtain st1 where 1: "reconcile_order m now q st = Inr st1" "loop m now rs st1 = Inr st'"
    using Cons.prems(1) by (auto split: sum.splits)
  show ?case
  proof (cases "r = q")
    case True
    then show ?thesis using 1(1) Cons.prems(3) by (cases st) (auto simp: reconcile_order_def Let_def not_less split: if_splits)
  next
    case False
    then show ?thesis using Cons.IH[OF 1(2)] Cons.prems(2,3) by simp
  qed
qed simp

section \<open>Reconciliation as a whole\<close>

definition start_run :: "db \<Rightarrow> datetime \<Rightarrow> db" where
  "start_run s now = s\<lparr>recon_runs := recon_runs s @ [\<lparr>rr_id = next_uuid s, rr_status = RR_running, rr_started_at = now,
      rr_completed_at = None, rr_rows_created = 0, rr_rows_updated = 0, rr_summary = None\<rparr>],
      next_uuid := Suc (next_uuid s)\<rparr>"

abbreviation live_orders :: "db \<Rightarrow> Order list" where
  "live_orders s \<equiv> filter (\<lambda>r. ord_deleted_at r = None) (orders s)"

lemma start_run_frame [simp]:
  "orders (start_run s now) = orders s" "exposures (start_run s now) = exposures s" "tasks (start_run s now) = tasks s"
  "linkages (start_run s now) = linkages s" "contracts (start_run s now) = contracts s"
  "next_uuid (start_run s now) = Suc (next_uuid s)"
  by (simp_all add: start_run_def)

lemma get_linked_qty_map_cong:
  "orders s' = orders s \<Longrightarrow> contracts s' = contracts s \<Longrightarrow> linkages s' = linkages s \<Longrightarrow>
     get_linked_qty_map s' = get_linked_qty_map s"
  by (auto simp: get_linked_qty_map_def get_defs)

lemma reconcile_Inr:
  assumes "reconcile_from_orders s now = Inr (s', run, sm)"
  obtains s1 where "loop (get_linked_qty_map s) now (live_orders s) (start_run s now, 0, 0) = Inr (s1, rs_created sm, rs_updated sm)"
    "exposures s' = exposures (retire_exposures now s1)" "tasks s' = tasks (retire_exposures now s1)"
    "rs_retired sm = length (filter (exposure_stale s1) (exposures s1))"
    "rs_tasks_cancelled sm = length (filter (task_of_stale s1) (tasks s1))"
    "orders s' = orders s1" "contracts s' = contracts s1" "linkages s' = linkages s1" "next_uuid s' = next_uuid s1"
proof -
  have "get_linked_qty_map (start_run s now) = get_linked_qty_map s"
    by (rule get_linked_qty_map_cong) simp_all
  then have "and_then (loop (get_linked_qty_map s) now (live_orders s) (start_run s now, 0, 0)) (\<lambda>(s1, created, updated).
      let retired = length (filter (exposure_stale s1) (exposures s1));
          tasks_cancelled = length (filter (task_of_stale s1) (tasks s1));
          s2 = retire_exposures now s1;
          summary = \<lparr>rs_created = created, rs_updated = updated, rs_retired = retired, rs_tasks_cancelled = tasks_cancelled\<rparr>
      in Inr (s2\<lparr>recon_runs := update_row rr_id (next_uuid s)
                (\<lambda>r. r\<lparr>rr_status := RR_succeeded, rr_completed_at := Some now, rr_rows_created := created,
                       rr_rows_updated := updated, rr_summary := Some summary\<rparr>) (recon_runs s2)\<rparr>, next_uuid s, summary))
      = Inr (s', run, sm)"
    using assms unfolding reconcile_from_orders_def Let_def start_run_def[symmetric] by simp
  then show ?thesis
    using that by (auto simp: Let_def retire_exposures_def split: prod.splits)
qed

lemma reconcile_runs:
  assumes "loop (get_linked_qty_map s) now (live_orders s) (start_run s now, 0, 0) = Inr st"
  shows "\<exists>s' run sm. reconcile_from_orders s now = Inr (s', run, sm)"
proof -
  have "get_linked_qty_map (start_run s now) = get_linked_qty_map s"
    by (rule get_linked_qty_map_cong) simp_all
  then show ?thesis
    using assms unfolding reconcile_from_orders_def Let_def start_run_def[symmetric]
    by (cases st) auto
qed

text \<open>The orders whose exposure can be computed.\<close>

definition exposed_orders_nonneg :: "db \<Rightarrow> bool" where
  "exposed_orders_nonneg s \<longleftrightarrow>
     (\<forall>r \<in> set (orders s). order_live r \<longrightarrow> ord_price_type r = PT_variable \<longrightarrow> 0 \<le> quantize_mt (ord_quantity_mt r))"

lemma linked_map_within:
  assumes "capacity_inv s" and "r \<in> set (orders s)" and "0 \<le> quantize_mt (ord_quantity_mt r)"
  shows "quantize_mt (get_linked_qty_map s (ord_id r)) \<le> quantize_mt (ord_quantity_mt r)"
proof -
  have wf: "linkages_wf s" and keys: "keyed ord_id (orders s)"
    using assms(1) by (simp_all add: capacity_inv_def capacity_keys_wf_def)
  have "get_linked_qty_map s (ord_id r) \<le> quantize_mt (order_linked_qty s (ord_id r))"
    unfolding get_linked_qty_map_def order_linked_qty_def
    by (intro mt.q_mono sum_where_mono) (auto dest: linkages_wfD[OF wf])
  also have "\<dots> = order_linked_qty s (ord_id r)"
    by (rule order_side.allocated_grid[OF wf])
  also have "\<dots> \<le> quantize_mt (ord_quantity_mt r)"
    using capacity_invD(1)[OF assms(1), of "ord_id r" "max 0 (ord_quantity_mt r)"] get_row_keyed[OF keys assms(2)]
      quantize_mt_max[OF assms(3)] by (simp add: order_capacity_def get_order_def)
  finally have "quantize_mt (get_linked_qty_map s (ord_id r)) \<le> quantize_mt (quantize_mt (ord_quantity_mt r))"
    by (rule mt.q_mono)
  then show ?thesis by simp
qed

lemma reconcile_succeeds:
  assumes "capacity_inv s" and "exposed_orders_nonneg s"
  shows "\<exists>s' run sm. reconcile_from_orders s now = Inr (s', run, sm)"
proof -
  obtain st where "loop (get_linked_qty_map s) now (live_orders s) (start_run s now, 0, 0) = Inr st"
    using reconcile_loop_ok[of "live_orders s" "get_linked_qty_map s" now "(start_run s now, 0, 0)"]
      linked_map_within[OF assms(1)] assms(2) by (auto simp: exposed_orders_nonneg_def order_live_def)
  then show ?thesis by (rule reconcile_runs)
qed

lemma reconcile_needs_nonneg:
  assumes "linkages_wf s" and run: "reconcile_from_orders s now = Inr (s', run, sm)"
  shows "exposed_orders_nonneg s"
  using run
proof (rule reconcile_Inr)
  fix s1
  assume "loop (get_linked_qty_map s) now (live_orders s) (start_run s now, 0, 0) = Inr (s1, rs_created sm, rs_updated sm)"
  then have "quantize_mt (get_linked_qty_map s (ord_id r)) \<le> quantize_mt (ord_quantity_mt r)"
    if "r \<in> set (orders s)" "order_live r" "ord_price_type r = PT_variable" for r
    using reconcile_loop_within[of _ now "live_orders s"] that by (auto simp: order_live_def)
  moreover have "0 \<le> quantize_mt (get_linked_qty_map s i)" for i
    unfolding get_linked_qty_map_def
    by (intro mt.q_nonneg sum_where_nonneg) (auto dest: linkages_wfD[OF assms(1)])
  ultimately show ?thesis unfolding exposed_orders_nonneg_def using order_trans by blast
qed

lemma find_map_same:
  assumes "\<And>x. P (f x) \<Longrightarrow> f x = x" and "\<And>x. P x \<Longrightarrow> f x = x"
  shows "find P (map f xs) = find P xs"
proof (induction xs)
  case (Cons x xs)
  show ?case
    using assms[of x] Cons by (cases "P x"; cases "P (f x)") auto
qed simp

lemma live_exposure_of_retire:
  assumes "get_order s i = Some r" and "ord_deleted_at r = None"
  shows "live_exposure_of (retire_exposures now s) i = live_exposure_of s i"
  unfolding live_exposure_of_def retire_exposures_def
  using assms by (auto simp: exposure_stale_def intro!: find_map_same)

lemma retire_no_stale:
  assumes "e \<in> set (exposures (retire_exposures now s))"
  shows "\<not> exposure_stale (retire_exposures now s) e"
  using assms by (auto simp: retire_exposures_def exposure_stale_def get_defs split: if_splits)

lemma exposures_wf_start_run: "exposures_wf s \<Longrightarrow> exposures_wf (start_run s now)"
  by (auto simp: exposures_wf_def)

lemma reconcile_matches:
  assumes "exposures_wf s" and "keyed ord_id (orders s)" and "reconcile_from_orders s now = Inr (s', run, sm)"
    and "r \<in> set (orders s)" "ord_deleted_at r = None" "ord_price_type r = PT_variable"
  shows "\<exists>e. live_exposure_of s' (ord_id r) = Some e \<and> exposure_matches (exposure_target_of (get_linked_qty_map s) r) e"
  using assms(3)
proof (rule reconcile_Inr)
  fix s1
  assume l: "loop (get_linked_qty_map s) now (live_orders s) (start_run s now, 0, 0) = Inr (s1, rs_created sm, rs_updated sm)"
    and e: "exposures s' = exposures (retire_exposures now s1)"
  have "distinct (map ord_id (live_orders s))"
    using assms(2) by (simp add: keyed_def distinct_map_filter)
  then obtain ex where ex: "live_exposure_of s1 (ord_id r) = Some ex"
    "exposure_matches (exposure_target_of (get_linked_qty_map s) r) ex"
    using reconcile_loop_matches[OF l exposures_wf_start_run[OF assms(1)]] assms(4-) by auto
  have "get_order s1 (ord_id r) = Some r"
    using reconcile_loop_frame[OF l exposures_wf_start_run[OF assms(1)]] only_exposures_frame(1)[of "start_run s now" s1]
      get_row_keyed[OF assms(2,4)] by (simp add: get_order_def)
  then have "live_exposure_of s' (ord_id r) = Some ex"
    using live_exposure_of_retire[of s1 "ord_id r" r now] assms(5) ex(1) e by (simp add: live_exposure_of_def)
  with ex(2) show ?thesis by blast
qed

lemma reconcile_no_stale:
  assumes "reconcile_from_orders s now = Inr (s', run, sm)" and "e \<in> set (exposures s')"
  shows "\<not> exposure_stale s' e"
  using assms(1)
proof (rule reconcile_Inr)
  fix s1
  assume "exposures s' = exposures (retire_exposures now s1)" and "orders s' = orders s1"
  then show ?thesis
    using retire_no_stale[of e now s1] assms(2) by (simp add: exposure_stale_def get_order_def retire_exposures_def)
qed

lemma reconcile_frame:
  assumes "exposures_wf s" and "reconcile_from_orders s now = Inr (s', run, sm)"
  shows "orders s' = orders s" "contracts s' = contracts s" "linkages s' = linkages s" "exposures_wf s'"
    "next_uuid s \<le> next_uuid s'"
proof -
  obtain s1 where l: "loop (get_linked_qty_map s) now (live_orders s) (start_run s now, 0, 0) = Inr (s1, rs_created sm, rs_updated sm)"
    and s': "exposures s' = exposures (retire_exposures now s1)" "orders s' = orders s1" "contracts s' = contracts s1"
      "linkages s' = linkages s1" "next_uuid s' = next_uuid s1"
    using assms(2) by (rule reconcile_Inr)
  note fr = reconcile_loop_frame[OF l exposures_wf_start_run[OF assms(1)]]
  then have "only_exposures (start_run s now) s1" by simp
  note fr2 = only_exposures_frame[OF this]
  show "orders s' = orders s" "contracts s' = contracts s" "linkages s' = linkages s" "next_uuid s \<le> next_uuid s'"
    using fr2 s' by simp_all
  have "map exp_id (exposures (retire_exposures now s1)) = map exp_id (exposures s1)"
    by (simp add: retire_exposures_def)
  then show "exposures_wf s'"
    using fr s' by (metis (mono_tags, lifting) exposures_wf_def keyed_def image_iff list.set_map)
qed

section \<open>Properties\<close>

text \<open>C3: After a reconciliation every live variable-price order has a live exposure whose original
  quantity is the order quantity, whose open quantity is the order quantity less what live
  hedges are linked to it, and whose status is open, partially or fully hedged accordingly;
  no exposure of an archived order stays live.\<close>

theorem reconcile_from_orders_correct:
  assumes "exposures_wf s" and "keyed ord_id (orders s)" and "reconcile_from_orders s now = Inr (s', run, sm)"
  shows "(\<forall>r \<in> set (orders s). ord_deleted_at r = None \<longrightarrow> ord_price_type r = PT_variable \<longrightarrow>
      (\<exists>e. live_exposure_of s' (ord_id r) = Some e
        \<and> quantize_mt (exp_original_tons e) = quantize_mt (ord_quantity_mt r)
        \<and> quantize_mt (exp_open_tons e) = quantize_mt (ord_quantity_mt r) - get_linked_qty_map s (ord_id r)
        \<and> exp_status e = exposure_status_of (get_linked_qty_map s (ord_id r)) (quantize_mt (exp_open_tons e))
        \<and> exp_commodity e = commodity_key (ord_commodity r)))
    \<and> (\<forall>e \<in> set (exposures s'). \<not> exp_is_deleted e \<longrightarrow>
        \<not> joined (\<lambda>r. ord_deleted_at r \<noteq> None) (get_order s' (exp_source_id e)))"
proof (intro conjI ballI impI)
  fix r
  assume r: "r \<in> set (orders s)" "ord_deleted_at r = None" "ord_price_type r = PT_variable"
  have q: "quantize_mt (get_linked_qty_map s (ord_id r)) = get_linked_qty_map s (ord_id r)"
    by (simp add: get_linked_qty_map_def)
  have d: "quantize_mt (quantize_mt (ord_quantity_mt r) - get_linked_qty_map s (ord_id r))
      = quantize_mt (ord_quantity_mt r) - get_linked_qty_map s (ord_id r)"
    using mt.q_diff q by metis
  show "\<exists>e. live_exposure_of s' (ord_id r) = Some e
        \<and> quantize_mt (exp_original_tons e) = quantize_mt (ord_quantity_mt r)
        \<and> quantize_mt (exp_open_tons e) = quantize_mt (ord_quantity_mt r) - get_linked_qty_map s (ord_id r)
        \<and> exp_status e = exposure_status_of (get_linked_qty_map s (ord_id r)) (quantize_mt (exp_open_tons e))
        \<and> exp_commodity e = commodity_key (ord_commodity r)"
    using reconcile_matches[OF assms r] by (auto simp: exposure_matches_def exposure_target_of_def Let_def q d)
qed (use reconcile_no_stale[OF assms(3)] in \<open>auto simp: exposure_stale_def\<close>)

text \<open>Reconciliation is idempotent: a second run right after a first creates, updates, retires
  and cancels nothing, and leaves the exposure and task tables as they are.\<close>

theorem reconcile_from_orders_idempotent:
  assumes "exposures_wf s" and "capacity_inv s" and "reconcile_from_orders s now = Inr (s', run, sm)"
  shows "\<exists>s'' run'. reconcile_from_orders s' now' = Inr (s'', run',
      \<lparr>rs_created = 0, rs_updated = 0, rs_retired = 0, rs_tasks_cancelled = 0\<rparr>)
    \<and> exposures s'' = exposures s' \<and> tasks s'' = tasks s'"
proof -
  note fr = reconcile_frame[OF assms(1,3)]
  have "capacity_inv s'"
    using capacity_inv_counter[OF assms(2)] fr by blast
  moreover have "linkages_wf s" using assms(2) by (simp add: capacity_inv_def)
  then have "exposed_orders_nonneg s'" using reconcile_needs_nonneg[OF _ assms(3)] fr(1) by (simp add: exposed_orders_nonneg_def)
  ultimately obtain s'' run' sm' where r: "reconcile_from_orders s' now' = Inr (s'', run', sm')"
    using reconcile_succeeds by blast
  obtain s1 where l: "loop (get_linked_qty_map s') now' (live_orders s') (start_run s' now', 0, 0) = Inr (s1, rs_created sm', rs_updated sm')"
    and out: "exposures s'' = exposures (retire_exposures now' s1)" "tasks s'' = tasks (retire_exposures now' s1)"
      "rs_retired sm' = length (filter (exposure_stale s1) (exposures s1))"
      "rs_tasks_cancelled sm' = length (filter (task_of_stale s1) (tasks s1))"
    using r by (rule reconcile_Inr)
  have map: "get_linked_qty_map s' = get_linked_qty_map s"
    by (rule get_linked_qty_map_cong) (use fr in simp_all)
  have "keyed ord_id (orders s)"
    using assms(2) by (simp add: capacity_inv_def capacity_keys_wf_def)
  then have noop: "s1 = start_run s' now' \<and> rs_created sm' = 0 \<and> rs_updated sm' = 0"
    using reconcile_matches[OF assms(1) _ assms(3)] fr(1) map
    by (intro reconcile_loop_noop[OF l exposures_wf_start_run[OF fr(4)]]) (auto simp: live_exposure_of_def)
  have "\<not> exposure_stale s1 e" if "e \<in> set (exposures s')" for e
    using reconcile_no_stale[OF assms(3) that] noop by (simp add: exposure_stale_def get_order_def)
  then have "filter (exposure_stale s1) (exposures s1) = []" "filter (task_of_stale s1) (tasks s1) = []"
      "exposures (retire_exposures now' s1) = exposures s'" "tasks (retire_exposures now' s1) = tasks s'"
    using noop by (auto simp: retire_exposures_def task_of_stale_def filter_empty_conv intro!: map_idI)
  with out noop r show ?thesis
    by (cases sm') auto
qed

lemma sample_capacity_inv: "capacity_inv sample_db"
  by (simp add: capacity_inv_def capacity_keys_wf_def linkages_wf_def within_capacity_def order_linked_qty_def
      contract_linked_qty_def order_capacity_def contract_capacity_def sample_defs get_defs keyed_def)

lemma sample_orders_nonneg: "exposed_orders_nonneg sample_db"
  by (simp add: exposed_orders_nonneg_def sample_defs mt.q_nonneg)

lemma sample_exposures_wf: "exposures_wf sample_db"
  by (simp add: exposures_wf_def sample_defs keyed_def)

theorem reconcile_from_orders_correct_witness:
  "\<exists>s' run sm e. reconcile_from_orders sample_db 5 = Inr (s', run, sm)
     \<and> live_exposure_of s' 0 = Some e \<and> quantize_mt (exp_original_tons e) = 100"
proof -
  obtain s' run sm where r: "reconcile_from_orders sample_db 5 = Inr (s', run, sm)"
    using reconcile_succeeds[OF sample_capacity_inv sample_orders_nonneg] by blast
  moreover have "keyed ord_id (orders sample_db)"
    using sample_capacity_inv by (simp add: capacity_inv_def capacity_keys_wf_def)
  ultimately show ?thesis
    using reconcile_from_orders_correct[OF sample_exposures_wf _ r] by (simp add: sample_db_def sample_order_def) blast
qed

theorem reconcile_from_orders_idempotent_witness:
  "\<exists>s' run sm s'' run'. reconcile_from_orders sample_db 5 = Inr (s', run, sm)
     \<and> reconcile_from_orders s' 6 = Inr (s'', run',
         \<lparr>rs_created = 0, rs_updated = 0, rs_retired = 0, rs_tasks_cancelled = 0\<rparr>)"
proof -
  obtain s' run sm where r: "reconcile_from_orders sample_db 5 = Inr (s', run, sm)"
    using reconcile_succeeds[OF sample_capacity_inv sample_orders_nonneg] by blast
  then show ?thesis
    using reconcile_from_orders_idempotent[OF sample_exposures_wf sample_capacity_inv r, of 6] by blast
qed

text \<open>One order of negative quantity blocks the reconciliation of all orders.\<close>

lemma negative_order_blocks_reconcile:
  "\<not> is_ok (reconcile_from_orders (sample_db\<lparr>orders := [sample_order 0 OT_sales PT_variable (- 5)]\<rparr>) 0)"
  by code_simp

section \<open>Hedge tasks\<close>

definition pending_tasks :: "db \<Rightarrow> HedgeTask list" where
  "pending_tasks s = filter (\<lambda>t. tsk_status t = HT_pending) (tasks s)"

text \<open>Task keys are unique, and an exposure has at most one pending task.\<close>

definition tasks_wf :: "db \<Rightarrow> bool" where
  "tasks_wf s \<longleftrightarrow> keyed tsk_id (tasks s) \<and> (\<forall>t \<in> set (tasks s). tsk_id t < next_uuid s)
     \<and> distinct (map tsk_exposure_id (pending_tasks s))"

text \<open>The exposures that get a new task.\<close>

definition task_targets :: "db \<Rightarrow> Exposure list" where
  "task_targets s = filter (\<lambda>e. \<not> (\<exists>t \<in> set (tasks s). tsk_exposure_id t = exp_id e \<and> tsk_status t = HT_pending))
     (filter (\<lambda>e. \<not> exp_is_deleted e \<and> exp_status e = ES_open \<and> 0 < exp_open_tons e) (exposures s))"

lemma create_hedge_tasks_new:
  assumes "create_hedge_tasks s now = (s', n)"
  obtains new where "s' = s\<lparr>tasks := tasks s @ new, next_uuid := next_uuid s + length new\<rparr>" "n = length new"
    "map tsk_exposure_id new = map exp_id (task_targets s)" "list_all (\<lambda>t. tsk_status t = HT_pending) new"
    "map tsk_id new = [next_uuid s ..< next_uuid s + length new]"
proof -
  define new where "new = map (\<lambda>(k, e). \<lparr>tsk_id = next_uuid s + k, tsk_exposure_id = exp_id e,
    tsk_recommended_tons = exp_open_tons e, tsk_recommended_action = HTA_hedge_new, tsk_status = HT_pending,
    tsk_created_at = now, tsk_executed_at = None\<rparr>) (enumerate 0 (task_targets s))"
  have "s' = s\<lparr>tasks := tasks s @ new, next_uuid := next_uuid s + length new\<rparr>" "n = length new"
    using assms by (auto simp: create_hedge_tasks_def Let_def new_def task_targets_def)
  moreover have "map tsk_exposure_id new = map exp_id (task_targets s)"
    by (simp add: new_def comp_def case_prod_beta flip: map_map[of exp_id snd, unfolded comp_def])
  moreover have "map tsk_id new = map (\<lambda>k. next_uuid s + k) [0 ..< length (task_targets s)]"
    by (simp add: new_def comp_def case_prod_beta enumerate_eq_zip flip: map_map[of "(+) (next_uuid s)" fst, unfolded comp_def])
  then have "map tsk_id new = [next_uuid s ..< next_uuid s + length new]"
    by (simp add: new_def map_add_upt add.commute)
  moreover have "list_all (\<lambda>t. tsk_status t = HT_pending) new"
    by (auto simp: list_all_iff new_def)
  ultimately show ?thesis using that by blast
qed

lemma task_targets_no_pending:
  "e \<in> set (task_targets s) \<Longrightarrow> exp_id e \<notin> tsk_exposure_id ` set (pending_tasks s)"
  by (auto simp: task_targets_def pending_tasks_def)

lemma create_hedge_tasks_wf:
  assumes "tasks_wf s" and "keyed exp_id (exposures s)" and "create_hedge_tasks s now = (s', n)"
  shows "tasks_wf s'"
  using assms(3)
proof (rule create_hedge_tasks_new)
  fix new
  assume s': "s' = s\<lparr>tasks := tasks s @ new, next_uuid := next_uuid s + length new\<rparr>"
    and exps: "map tsk_exposure_id new = map exp_id (task_targets s)"
    and pend: "list_all (\<lambda>t. tsk_status t = HT_pending) new"
    and ids: "map tsk_id new = [next_uuid s ..< next_uuid s + length new]"
  have range: "next_uuid s \<le> tsk_id t \<and> tsk_id t < next_uuid s + length new" if "t \<in> set new" for t
  proof -
    have "tsk_id t \<in> set (map tsk_id new)" using that by simp
    then show ?thesis unfolding ids by simp
  qed
  have "distinct (map tsk_id new)" unfolding ids by simp
  then have "keyed tsk_id (tasks s @ new)"
    using assms(1) range by (fastforce simp: tasks_wf_def keyed_def)
  moreover have "filter (\<lambda>t. tsk_status t = HT_pending) new = new"
    using pend by (simp add: list_all_iff)
  moreover have "distinct (map tsk_exposure_id new)"
    unfolding exps using assms(2) by (simp add: task_targets_def keyed_def distinct_map_filter)
  moreover have "tsk_exposure_id ` set new \<inter> tsk_exposure_id ` set (pending_tasks s) = {}"
  proof -
    have "tsk_exposure_id ` set new = exp_id ` set (task_targets s)"
      using exps by (metis list.set_map)
    then show ?thesis using task_targets_no_pending[of _ s] by auto
  qed
  moreover have "tsk_id t < next_uuid s + length new" if "t \<in> set (tasks s @ new)" for t
    using that assms(1) range[of t] by (auto simp: tasks_wf_def intro: trans_less_add1)
  ultimately show ?thesis
    using assms(1) by (auto simp: tasks_wf_def s' pending_tasks_def)
qed

lemma distinct_map_filter_imp:
  "distinct (map f (filter P xs)) \<Longrightarrow> (\<And>x. x \<in> set xs \<Longrightarrow> Q x \<Longrightarrow> P x) \<Longrightarrow> distinct (map f (filter Q xs))"
  by (induction xs) (auto split: if_splits)

text \<open>Writes that keep the task keys and make no task pending keep the task invariant.\<close>

lemma tasks_wf_map:
  assumes "tasks_wf s" and "tasks s' = map g (tasks s)" and "next_uuid s \<le> next_uuid s'"
    and "\<And>t. tsk_id (g t) = tsk_id t" and "\<And>t. tsk_exposure_id (g t) = tsk_exposure_id t"
    and "\<And>t. tsk_status (g t) = HT_pending \<Longrightarrow> tsk_status t = HT_pending"
  shows "tasks_wf s'"
proof -
  have "distinct (map tsk_exposure_id (filter (\<lambda>t. tsk_status (g t) = HT_pending) (tasks s)))"
    using assms(1,6) unfolding tasks_wf_def pending_tasks_def by (blast intro: distinct_map_filter_imp)
  then have "distinct (map tsk_exposure_id (pending_tasks s'))"
    by (simp add: pending_tasks_def assms(2,5) filter_map comp_def)
  then show ?thesis
    using assms(1,3,4) by (auto simp: tasks_wf_def assms(2) keyed_def comp_def intro: less_le_trans)
qed

lemma cancel_stale_tasks_wf: "tasks_wf s \<Longrightarrow> tasks_wf (fst (cancel_stale_tasks s))"
  by (rule tasks_wf_map[of s _ "\<lambda>t. if task_stale s t then t\<lparr>tsk_status := HT_cancelled\<rparr> else t"])
    (auto simp: cancel_stale_tasks_def split: if_splits)

lemma execute_task_wf: "tasks_wf s \<Longrightarrow> execute_task s now i = Inr s' \<Longrightarrow> tasks_wf s'"
  by (rule tasks_wf_map[of s s' "\<lambda>t. if tsk_id t = i then t\<lparr>tsk_status := HT_executed, tsk_executed_at := Some now\<rparr> else t"])
    (auto simp: execute_task_def update_row_def split: if_splits)

lemma reconcile_tasks_wf:
  assumes "tasks_wf s" and "exposures_wf s" and "reconcile_from_orders s now = Inr (s', run, sm)"
  shows "tasks_wf s'"
  using assms(3)
proof (rule reconcile_Inr)
  fix s1
  assume l: "loop (get_linked_qty_map s) now (live_orders s) (start_run s now, 0, 0) = Inr (s1, rs_created sm, rs_updated sm)"
    and "tasks s' = tasks (retire_exposures now s1)" and "next_uuid s' = next_uuid s1"
  moreover have "tasks s1 = tasks s" "next_uuid s \<le> next_uuid s1"
    using reconcile_loop_frame[OF l exposures_wf_start_run[OF assms(2)]]
      only_exposures_frame[of "start_run s now" s1] by auto
  ultimately show ?thesis
    by (intro tasks_wf_map[OF assms(1), of s' "\<lambda>t. if task_of_stale s1 t then t\<lparr>tsk_status := HT_cancelled\<rparr> else t"])
      (auto simp: retire_exposures_def split: if_splits)
qed

text \<open>Task statuses move from \<open>pending\<close> only.\<close>

definition task_moves :: "HedgeTaskStatus \<Rightarrow> HedgeTaskStatus \<Rightarrow> bool" where
  "task_moves a b \<longleftrightarrow> a = HT_pending \<and> b \<noteq> HT_pending"

interpretation task_status: lifecycle task_moves "\<lambda>st. if st = HT_pending then 0 else 1"
  by unfold_locales (simp add: task_moves_def)

abbreviation tasks_follow :: "HedgeTask list \<Rightarrow> HedgeTask list \<Rightarrow> bool" where
  "tasks_follow \<equiv> rows_follow task_moves tsk_id tsk_status"

lemma get_row_map:
  "(\<And>r. key (g r) = key r) \<Longrightarrow> get_row key k (map g rows) = map_option g (get_row key k rows)"
  by (induction rows) auto

lemma tasks_follow_map:
  "(\<And>t. tsk_id (g t) = tsk_id t) \<Longrightarrow> (\<And>t. g t = t \<or> task_moves (tsk_status t) (tsk_status (g t))) \<Longrightarrow>
     tasks_follow ts (map g ts)"
  unfolding rows_follow_def by (auto simp: get_row_map) (metis (no_types, lifting))

text \<open>Hedge tasks cover the open exposures without duplicates. After \<open>create_hedge_tasks\<close> every
  live, open exposure with open tons has exactly one pending task, and calling it again
  creates none.\<close>

theorem create_hedge_tasks_cover:
  assumes "tasks_wf s" and "keyed exp_id (exposures s)" and "create_hedge_tasks s now = (s', n)"
  shows "(\<forall>e \<in> set (exposures s). \<not> exp_is_deleted e \<and> exp_status e = ES_open \<and> 0 < exp_open_tons e \<longrightarrow>
      (\<exists>!t. t \<in> set (tasks s') \<and> tsk_exposure_id t = exp_id e \<and> tsk_status t = HT_pending))
    \<and> snd (create_hedge_tasks s' now') = 0"
proof -
  obtain new where s': "s' = s\<lparr>tasks := tasks s @ new, next_uuid := next_uuid s + length new\<rparr>"
    and exps: "map tsk_exposure_id new = map exp_id (task_targets s)"
    and pend: "list_all (\<lambda>t. tsk_status t = HT_pending) new"
    using assms(3) by (rule create_hedge_tasks_new)
  have ex: "\<exists>t. t \<in> set (tasks s') \<and> tsk_exposure_id t = exp_id e \<and> tsk_status t = HT_pending"
    if e: "e \<in> set (exposures s)" "\<not> exp_is_deleted e" "exp_status e = ES_open" "0 < exp_open_tons e" for e
  proof (cases "e \<in> set (task_targets s)")
    case True
    then have "exp_id e \<in> tsk_exposure_id ` set new" using exps by (metis image_eqI list.set_map)
    with pend show ?thesis by (auto simp: s' list_all_iff)
  next
    case False
    with e show ?thesis by (auto simp: task_targets_def s')
  qed
  have uniq: "t = t'" if "t \<in> set (pending_tasks s')" "t' \<in> set (pending_tasks s')"
      "tsk_exposure_id t = tsk_exposure_id t'" for t t'
    using create_hedge_tasks_wf[OF assms] that by (auto simp: tasks_wf_def distinct_map dest: inj_onD)
  have "task_targets s' = []"
    using ex by (auto simp: task_targets_def filter_empty_conv s')
  then have "snd (create_hedge_tasks s' now') = 0"
    by (simp add: create_hedge_tasks_def task_targets_def Let_def)
  moreover have "\<exists>!t. t \<in> set (tasks s') \<and> tsk_exposure_id t = exp_id e \<and> tsk_status t = HT_pending"
    if "e \<in> set (exposures s)" "\<not> exp_is_deleted e" "exp_status e = ES_open" "0 < exp_open_tons e" for e
    using ex[OF that] uniq by (auto simp: pending_tasks_def)
  ultimately show ?thesis by blast
qed

definition sample_exposure :: Exposure where
  "sample_exposure = \<lparr>exp_id = 2, exp_commodity = ''COPPER'', exp_direction = ED_short, exp_source_type = EST_sales_order,
     exp_source_id = 0, exp_original_tons = 100, exp_open_tons = 100, exp_price_per_ton = None,
     exp_settlement_month = None, exp_status = ES_open, exp_created_at = 0, exp_is_deleted = False, exp_deleted_at = None\<rparr>"

theorem create_hedge_tasks_cover_witness:
  "\<exists>s' n. create_hedge_tasks (sample_db\<lparr>exposures := [sample_exposure], next_uuid := 3\<rparr>) 5 = (s', n)
     \<and> (\<exists>!t. t \<in> set (tasks s') \<and> tsk_exposure_id t = 2 \<and> tsk_status t = HT_pending)
     \<and> snd (create_hedge_tasks s' 6) = 0"
proof -
  let ?s = "sample_db\<lparr>exposures := [sample_exposure], next_uuid := 3\<rparr>"
  obtain s' n where c: "create_hedge_tasks ?s 5 = (s', n)" by fastforce
  have "tasks_wf ?s" "keyed exp_id (exposures ?s)"
    by (simp_all add: tasks_wf_def pending_tasks_def keyed_def sample_defs)
  from create_hedge_tasks_cover[OF this c, of 6] c show ?thesis
    by (simp add: sample_exposure_def)
qed

text \<open>A hedge task is executed at most once: executing a pending task of a live exposure
  succeeds, and every later attempt is refused with 409 and changes nothing.\<close>

theorem execute_task_once:
  assumes "get_task s i = Some t" and "tsk_status t = HT_pending"
    and "\<not> joined exp_is_deleted (get_exposure_row s (tsk_exposure_id t))"
  shows "\<exists>s'. execute_task s now i = Inr s' \<and> joined (\<lambda>t. tsk_status t = HT_executed \<and> tsk_executed_at t = Some now) (get_task s' i)
    \<and> execute_task s' now' i = Inl (HTTPException 409 (Msg ''Task is already {}'' [AStr ''executed'']))"
proof -
  let ?f = "\<lambda>t. t\<lparr>tsk_status := HT_executed, tsk_executed_at := Some now\<rparr>"
  let ?s' = "s\<lparr>tasks := update_row tsk_id i ?f (tasks s)\<rparr>"
  have e: "execute_task s now i = Inr ?s'"
    using assms by (simp add: execute_task_def)
  have "get_task ?s' i = Some (?f t)"
    using assms(1) by (simp add: get_task_def table_simps)
  then have "joined (\<lambda>t. tsk_status t = HT_executed \<and> tsk_executed_at t = Some now) (get_task ?s' i)"
    "execute_task ?s' now' i = Inl (HTTPException 409 (Msg ''Task is already {}'' [AStr ''executed'']))"
    by (simp_all add: execute_task_def)
  with e show ?thesis by (intro exI[of _ ?s'] conjI)
qed

theorem execute_task_once_witness:
  "\<exists>s'. execute_task (sample_db\<lparr>exposures := [sample_exposure], next_uuid := 4,
      tasks := [\<lparr>tsk_id = 3, tsk_exposure_id = 2, tsk_recommended_tons = 100, tsk_recommended_action = HTA_hedge_new,
        tsk_status = HT_pending, tsk_created_at = 0, tsk_executed_at = None\<rparr>]\<rparr>) 5 3 = Inr s'
    \<and> \<not> is_ok (execute_task s' 6 3)"
proof -
  let ?t = "\<lparr>tsk_id = 3, tsk_exposure_id = 2, tsk_recommended_tons = 100, tsk_recommended_action = HTA_hedge_new,
        tsk_status = HT_pending, tsk_created_at = 0, tsk_executed_at = None\<rparr>"
  let ?s = "sample_db\<lparr>exposures := [sample_exposure], next_uuid := 4, tasks := [?t]\<rparr>"
  have t: "get_task ?s 3 = Some ?t" and p: "tsk_status ?t = HT_pending"
    and d: "\<not> joined exp_is_deleted (get_exposure_row ?s (tsk_exposure_id ?t))"
    by (simp_all add: get_defs sample_exposure_def)
  obtain s' where "execute_task ?s 5 3 = Inr s'"
    "execute_task s' 6 3 = Inl (HTTPException 409 (Msg ''Task is already {}'' [AStr ''executed'']))"
    using execute_task_once[OF t p d, of 5 6] by (elim exE conjE)
  then show ?thesis by (intro exI[of _ s']) simp
qed

end
