(* ===== verification/Exposure_Service.thy ===== *)
theory Exposure_Service
  imports Exposure_Engine
begin

text \<open>
  \<open>backend/app/services/exposure_service.py\<close>: the commercial and the global exposure by commodity.
  The code accumulates rows in a dictionary keyed by the canonical commodity; here the
  dictionary is an association list, and the rows are proved to be the sums of the orders
  and hedges of the commodity.
\<close>

section \<open>Rows keyed by commodity\<close>

text \<open>\<open>item = ensure_row(commodity)\<close> followed by updates of \<open>item\<close>.\<close>

definition with_row :: "'v \<Rightarrow> string \<Rightarrow> ('v \<Rightarrow> 'v) \<Rightarrow> (string \<times> 'v) list \<Rightarrow> (string \<times> 'v) list" where
  "with_row zero k f rows =
     (if k \<in> fst ` set rows then map (\<lambda>(k', v). if k' = k then (k', f v) else (k', v)) rows
      else rows @ [(k, f zero)])"

lemma map_of_with_row:
  "map_of (with_row zero k f rows) c =
     (if c = k then Some (f (case map_of rows k of None \<Rightarrow> zero | Some v \<Rightarrow> v)) else map_of rows c)"
proof (cases "k \<in> fst ` set rows")
  case True
  have "map_of (map (\<lambda>(k', v). if k' = k then (k', f v) else (k', v)) rows) c =
      (if c = k then map_option f (map_of rows k) else map_of rows c)"
    by (induction rows) auto
  with True show ?thesis
    by (auto simp: with_row_def map_of_eq_None_iff split: option.split)
next
  case False
  then have "map_of rows k = None" by (simp add: map_of_eq_None_iff)
  with False show ?thesis
    by (auto simp: with_row_def map_add_def split: option.split)
qed

lemma keys_with_row: "fst ` set (with_row zero k f rows) = insert k (fst ` set rows)"
  by (force simp: with_row_def)

lemma distinct_with_row: "distinct (map fst rows) \<Longrightarrow> distinct (map fst (with_row zero k f rows))"
  by (auto simp: with_row_def comp_def case_prod_beta if_distrib cong: if_cong)

text \<open>The dictionary after a loop: each key holds the fold of its own elements.\<close>

definition group_fold :: "('x \<Rightarrow> string) \<Rightarrow> ('x \<Rightarrow> 'v \<Rightarrow> 'v) \<Rightarrow> 'v \<Rightarrow> 'x list \<Rightarrow> (string \<times> 'v) list \<Rightarrow> (string \<times> 'v) list" where
  "group_fold key upd zero xs rows = fold (\<lambda>x. with_row zero (key x) (upd x)) xs rows"

lemma map_of_group_fold:
  "map_of (group_fold key upd zero xs rows) c =
     (if c \<in> key ` set xs \<or> map_of rows c \<noteq> None
      then Some (fold upd (filter (\<lambda>x. key x = c) xs) (case map_of rows c of None \<Rightarrow> zero | Some v \<Rightarrow> v)) else None)"
proof (induction xs arbitrary: rows)
  case Nil
  then show ?case by (auto simp: group_fold_def split: option.split)
next
  case (Cons x xs)
  have "group_fold key upd zero (x # xs) rows = group_fold key upd zero xs (with_row zero (key x) (upd x) rows)"
    by (simp add: group_fold_def)
  then show ?case
    by (auto simp: Cons map_of_with_row split: option.split)
qed

lemma keys_group_fold: "fst ` set (group_fold key upd zero xs rows) = key ` set xs \<union> fst ` set rows"
  unfolding group_fold_def by (induction xs arbitrary: rows) (auto simp: keys_with_row)

lemma distinct_group_fold: "distinct (map fst rows) \<Longrightarrow> distinct (map fst (group_fold key upd zero xs rows))"
  unfolding group_fold_def by (induction xs arbitrary: rows) (auto simp: distinct_with_row)

text \<open>A loop that checks each element and then updates its row.\<close>

lemma checked_fold:
  "fold_result (\<lambda>x st. if bad x then Inl e else Inr (g x st)) xs s =
     (if \<exists>x \<in> set xs. bad x then Inl e else Inr (fold g xs s))"
  by (induction xs arbitrary: s) auto

section \<open>Commercial exposure\<close>

record commercial_item =
  ci_pre_active :: decimal
  ci_pre_passive :: decimal
  ci_residual_active :: decimal
  ci_residual_passive :: decimal
  ci_reduction_active :: decimal
  ci_reduction_passive :: decimal
  ci_order_count :: nat

definition zero_commercial :: commercial_item where
  "zero_commercial = \<lparr>ci_pre_active = 0, ci_pre_passive = 0, ci_residual_active = 0, ci_residual_passive = 0,
     ci_reduction_active = 0, ci_reduction_passive = 0, ci_order_count = 0\<rparr>"

record CommercialExposureRead =
  cer_commodity :: string
  cer_pre_reduction_commercial_active_mt :: decimal
  cer_pre_reduction_commercial_passive_mt :: decimal
  cer_reduction_applied_active_mt :: decimal
  cer_reduction_applied_passive_mt :: decimal
  cer_commercial_active_mt :: decimal
  cer_commercial_passive_mt :: decimal
  cer_commercial_net_mt :: decimal
  cer_calculation_timestamp :: datetime
  cer_order_count_considered :: nat

definition linked_by_order :: "HedgeOrderLinkage list \<Rightarrow> uuid \<Rightarrow> decimal" where
  "linked_by_order ls i = sum_where (\<lambda>l. lk_order_id l = i) lk_quantity_mt ls"

definition linked_by_contract :: "HedgeOrderLinkage list \<Rightarrow> uuid \<Rightarrow> decimal" where
  "linked_by_contract ls i = sum_where (\<lambda>l. lk_contract_id l = i) lk_quantity_mt ls"

definition add_commercial :: "(uuid \<Rightarrow> decimal) \<Rightarrow> Order \<times> decimal \<Rightarrow> commercial_item \<Rightarrow> commercial_item" where
  "add_commercial linked ord_q item =
     (let (r, quantity) = ord_q; linked_qty = linked (ord_id r); residual = quantity - linked_qty;
          item1 = item\<lparr>ci_order_count := Suc (ci_order_count item)\<rparr>
      in if ord_order_type r = OT_sales then
           item1\<lparr>ci_pre_active := ci_pre_active item + quantity,
                 ci_residual_active := ci_residual_active item + residual,
                 ci_reduction_active := ci_reduction_active item + linked_qty\<rparr>
         else
           item1\<lparr>ci_pre_passive := ci_pre_passive item + quantity,
                 ci_residual_passive := ci_residual_passive item + residual,
                 ci_reduction_passive := ci_reduction_passive item + linked_qty\<rparr>)"

definition negative_residual :: "(uuid \<Rightarrow> decimal) \<Rightarrow> Order \<times> decimal \<Rightarrow> bool" where
  "negative_residual linked ord_q \<longleftrightarrow> quantize_mt (snd ord_q - linked (ord_id (fst ord_q))) < 0"

definition commercial_read :: "datetime \<Rightarrow> string \<times> commercial_item \<Rightarrow> CommercialExposureRead" where
  "commercial_read now kv =
     (let (commodity, item) = kv;
          residual_active = quantize_mt (ci_residual_active item);
          residual_passive = quantize_mt (ci_residual_passive item)
      in \<lparr>cer_commodity = commodity,
          cer_pre_reduction_commercial_active_mt = quantize_mt (ci_pre_active item),
          cer_pre_reduction_commercial_passive_mt = quantize_mt (ci_pre_passive item),
          cer_reduction_applied_active_mt = quantize_mt (ci_reduction_active item),
          cer_reduction_applied_passive_mt = quantize_mt (ci_reduction_passive item),
          cer_commercial_active_mt = residual_active, cer_commercial_passive_mt = residual_passive,
          cer_commercial_net_mt = quantize_mt (residual_active - residual_passive),
          cer_calculation_timestamp = now, cer_order_count_considered = ci_order_count item\<rparr>)"

definition is_variable :: "Order \<times> decimal \<Rightarrow> bool" where
  "is_variable ord_q \<longleftrightarrow> ord_price_type (fst ord_q) = PT_variable"

definition commercial_order_step ::
    "(uuid \<Rightarrow> decimal) \<Rightarrow> Order \<times> decimal \<Rightarrow> (string \<times> commercial_item) list \<Rightarrow> (string \<times> commercial_item) list result" where
  "commercial_order_step linked x rows =
     (if \<not> is_variable x then Inr rows
      else if negative_residual linked x then Inl (http HTTP_409 ''Residual exposure cannot be negative'')
      else Inr (with_row zero_commercial (commodity_key (ord_commodity (fst x))) (add_commercial linked x) rows))"

definition compute_commercial_exposure_pure ::
    "(Order \<times> decimal) list \<Rightarrow> HedgeOrderLinkage list \<Rightarrow> datetime \<Rightarrow> CommercialExposureRead list result" where
  "compute_commercial_exposure_pure order_qs ls now =
     and_then (fold_result (commercial_order_step (linked_by_order ls)) order_qs []) (\<lambda>rows.
       Inr (map (commercial_read now) (sort_key fst rows)))"

text \<open>The queries of the snapshots: live variable-price orders by creation time, live hedges, and
  the linkages between live rows.\<close>

definition snapshot_orders :: "db \<Rightarrow> (Order \<times> decimal) list" where
  "snapshot_orders s = map (\<lambda>r. (r, ord_quantity_mt r))
     (sort_key ord_created_at (filter (\<lambda>r. ord_price_type r = PT_variable \<and> ord_deleted_at r = None) (orders s)))"

definition snapshot_linkages :: "db \<Rightarrow> HedgeOrderLinkage list" where
  "snapshot_linkages s = filter (\<lambda>l. joined order_live (get_order s (lk_order_id l))
      \<and> joined hedge_live (get_contract s (lk_contract_id l))) (linkages s)"

definition snapshot_contracts :: "db \<Rightarrow> HedgeContract list" where
  "snapshot_contracts s = sort_key hc_created_at (filter hedge_live (contracts s))"

definition compute_commercial_snapshot :: "db \<Rightarrow> datetime \<Rightarrow> CommercialExposureRead list result" where
  "compute_commercial_snapshot s now =
     compute_commercial_exposure_pure (snapshot_orders s) (snapshot_linkages s) now"

section \<open>Global exposure\<close>

record global_item =
  gi_pre_active :: decimal
  gi_pre_passive :: decimal
  gi_reduced_active :: decimal
  gi_reduced_passive :: decimal
  gi_total_hedge_long :: decimal
  gi_total_hedge_short :: decimal
  gi_unlinked_hedge_long :: decimal
  gi_unlinked_hedge_short :: decimal
  gi_entities_count :: nat

definition zero_global :: global_item where
  "zero_global = \<lparr>gi_pre_active = 0, gi_pre_passive = 0, gi_reduced_active = 0, gi_reduced_passive = 0,
     gi_total_hedge_long = 0, gi_total_hedge_short = 0, gi_unlinked_hedge_long = 0,
     gi_unlinked_hedge_short = 0, gi_entities_count = 0\<rparr>"

record GlobalExposureRead =
  ger_commodity :: string
  ger_pre_reduction_global_active_mt :: decimal
  ger_pre_reduction_global_passive_mt :: decimal
  ger_reduction_applied_active_mt :: decimal
  ger_reduction_applied_passive_mt :: decimal
  ger_global_active_mt :: decimal
  ger_global_passive_mt :: decimal
  ger_global_net_mt :: decimal
  ger_commercial_active_mt :: decimal
  ger_commercial_passive_mt :: decimal
  ger_hedge_long_mt :: decimal
  ger_hedge_short_mt :: decimal
  ger_calculation_timestamp :: datetime
  ger_entities_count_considered :: nat

definition add_global_order :: "(uuid \<Rightarrow> decimal) \<Rightarrow> Order \<times> decimal \<Rightarrow> global_item \<Rightarrow> global_item" where
  "add_global_order linked ord_q item =
     (let (r, quantity) = ord_q; residual = quantity - linked (ord_id r);
          item1 = item\<lparr>gi_entities_count := Suc (gi_entities_count item)\<rparr>
      in if ord_order_type r = OT_sales then
           item1\<lparr>gi_pre_active := gi_pre_active item + quantity,
                 gi_reduced_active := gi_reduced_active item + residual\<rparr>
         else
           item1\<lparr>gi_pre_passive := gi_pre_passive item + quantity,
                 gi_reduced_passive := gi_reduced_passive item + residual\<rparr>)"

definition add_global_contract :: "(uuid \<Rightarrow> decimal) \<Rightarrow> HedgeContract \<Rightarrow> global_item \<Rightarrow> global_item" where
  "add_global_contract linked c item =
     (let total_qty = hc_quantity_mt c; residual = total_qty - linked (hc_id c);
          item1 = item\<lparr>gi_entities_count := Suc (gi_entities_count item)\<rparr>
      in if hc_classification c = HC_long then
           item1\<lparr>gi_total_hedge_long := gi_total_hedge_long item + total_qty,
                 gi_unlinked_hedge_long := gi_unlinked_hedge_long item + residual\<rparr>
         else
           item1\<lparr>gi_total_hedge_short := gi_total_hedge_short item + total_qty,
                 gi_unlinked_hedge_short := gi_unlinked_hedge_short item + residual\<rparr>)"

definition global_order_step ::
    "(uuid \<Rightarrow> decimal) \<Rightarrow> Order \<times> decimal \<Rightarrow> (string \<times> global_item) list \<Rightarrow> (string \<times> global_item) list result" where
  "global_order_step linked x rows =
     (if \<not> is_variable x then Inr rows
      else if negative_residual linked x then Inl (http HTTP_409 ''Residual exposure cannot be negative'')
      else Inr (with_row zero_global (commodity_key (ord_commodity (fst x))) (add_global_order linked x) rows))"

definition negative_hedge_residual :: "(uuid \<Rightarrow> decimal) \<Rightarrow> HedgeContract \<Rightarrow> bool" where
  "negative_hedge_residual linked c \<longleftrightarrow> quantize_mt (hc_quantity_mt c - linked (hc_id c)) < 0"

definition global_contract_step ::
    "(uuid \<Rightarrow> decimal) \<Rightarrow> HedgeContract \<Rightarrow> (string \<times> global_item) list \<Rightarrow> (string \<times> global_item) list result" where
  "global_contract_step linked c rows =
     (if negative_hedge_residual linked c then Inl (http HTTP_409 ''Residual hedge quantity cannot be negative'')
      else Inr (with_row zero_global (commodity_key (hc_commodity c)) (add_global_contract linked c) rows))"

definition global_read :: "datetime \<Rightarrow> string \<times> global_item \<Rightarrow> GlobalExposureRead" where
  "global_read now kv =
     (let (commodity, item) = kv;
          pre_global_active = gi_pre_active item + gi_total_hedge_short item;
          pre_global_passive = gi_pre_passive item + gi_total_hedge_long item;
          post_global_active = gi_reduced_active item + gi_unlinked_hedge_short item;
          post_global_passive = gi_reduced_passive item + gi_unlinked_hedge_long item
      in \<lparr>ger_commodity = commodity,
          ger_pre_reduction_global_active_mt = quantize_mt pre_global_active,
          ger_pre_reduction_global_passive_mt = quantize_mt pre_global_passive,
          ger_reduction_applied_active_mt = quantize_mt (pre_global_active - post_global_active),
          ger_reduction_applied_passive_mt = quantize_mt (pre_global_passive - post_global_passive),
          ger_global_active_mt = quantize_mt post_global_active,
          ger_global_passive_mt = quantize_mt post_global_passive,
          ger_global_net_mt = quantize_mt (post_global_active - post_global_passive),
          ger_commercial_active_mt = quantize_mt (gi_reduced_active item),
          ger_commercial_passive_mt = quantize_mt (gi_reduced_passive item),
          ger_hedge_long_mt = quantize_mt (gi_unlinked_hedge_long item),
          ger_hedge_short_mt = quantize_mt (gi_unlinked_hedge_short item),
          ger_calculation_timestamp = now, ger_entities_count_considered = gi_entities_count item\<rparr>)"

text \<open>Every classification is long or short, so the guard on other values has no branch here.\<close>

definition compute_global_exposure_pure ::
    "(Order \<times> decimal) list \<Rightarrow> HedgeContract list \<Rightarrow> HedgeContract list \<Rightarrow> HedgeOrderLinkage list \<Rightarrow> datetime
      \<Rightarrow> GlobalExposureRead list result" where
  "compute_global_exposure_pure order_qs hedges virtual_contracts ls now =
     and_then (fold_result (global_order_step (linked_by_order ls)) order_qs []) (\<lambda>rows1.
     and_then (fold_result (global_contract_step (linked_by_contract ls)) (hedges @ virtual_contracts) rows1) (\<lambda>rows.
       Inr (map (global_read now) (sort_key fst rows))))"

definition compute_global_snapshot :: "db \<Rightarrow> datetime \<Rightarrow> GlobalExposureRead list result" where
  "compute_global_snapshot s now =
     compute_global_exposure_pure (snapshot_orders s) (snapshot_contracts s) [] (snapshot_linkages s) now"

section \<open>Rows as sums\<close>

definition side_sum :: "OrderType \<Rightarrow> (Order \<times> decimal \<Rightarrow> decimal) \<Rightarrow> (Order \<times> decimal) list \<Rightarrow> decimal" where
  "side_sum t f xs = sum_list (map f (filter (\<lambda>x. ord_order_type (fst x) = t) xs))"

definition class_sum :: "HedgeClassification \<Rightarrow> (HedgeContract \<Rightarrow> decimal) \<Rightarrow> HedgeContract list \<Rightarrow> decimal" where
  "class_sum k f cs = sum_list (map f (filter (\<lambda>c. hc_classification c = k) cs))"

abbreviation order_residual :: "(uuid \<Rightarrow> decimal) \<Rightarrow> Order \<times> decimal \<Rightarrow> decimal" where
  "order_residual linked x \<equiv> snd x - linked (ord_id (fst x))"

abbreviation hedge_residual :: "(uuid \<Rightarrow> decimal) \<Rightarrow> HedgeContract \<Rightarrow> decimal" where
  "hedge_residual linked c \<equiv> hc_quantity_mt c - linked (hc_id c)"

lemma side_sum_simps [simp]:
  "side_sum t f [] = 0"
  "side_sum t f (x # xs) = (if ord_order_type (fst x) = t then f x + side_sum t f xs else side_sum t f xs)"
  by (simp_all add: side_sum_def)

lemma class_sum_simps [simp]:
  "class_sum k f [] = 0"
  "class_sum k f (c # cs) = (if hc_classification c = k then f c + class_sum k f cs else class_sum k f cs)"
  by (simp_all add: class_sum_def)

lemma fold_add_commercial:
  "fold (add_commercial linked) xs item =
     \<lparr>ci_pre_active = ci_pre_active item + side_sum OT_sales snd xs,
      ci_pre_passive = ci_pre_passive item + side_sum OT_purchase snd xs,
      ci_residual_active = ci_residual_active item + side_sum OT_sales (order_residual linked) xs,
      ci_residual_passive = ci_residual_passive item + side_sum OT_purchase (order_residual linked) xs,
      ci_reduction_active = ci_reduction_active item + side_sum OT_sales (\<lambda>x. linked (ord_id (fst x))) xs,
      ci_reduction_passive = ci_reduction_passive item + side_sum OT_purchase (\<lambda>x. linked (ord_id (fst x))) xs,
      ci_order_count = ci_order_count item + length xs\<rparr>"
proof (induction xs arbitrary: item)
  case (Cons x xs)
  show ?case
    by (simp only: fold_Cons comp_apply Cons.IH)
      (cases x; cases "ord_order_type (fst x)"; simp add: add_commercial_def Let_def)
qed simp

lemma fold_add_global_order:
  "fold (add_global_order linked) xs item = item
     \<lparr>gi_pre_active := gi_pre_active item + side_sum OT_sales snd xs,
      gi_pre_passive := gi_pre_passive item + side_sum OT_purchase snd xs,
      gi_reduced_active := gi_reduced_active item + side_sum OT_sales (order_residual linked) xs,
      gi_reduced_passive := gi_reduced_passive item + side_sum OT_purchase (order_residual linked) xs,
      gi_entities_count := gi_entities_count item + length xs\<rparr>"
proof (induction xs arbitrary: item)
  case (Cons x xs)
  show ?case
    by (simp only: fold_Cons comp_apply Cons.IH)
      (cases x; cases "ord_order_type (fst x)"; simp add: add_global_order_def Let_def)
qed simp

lemma fold_add_global_contract:
  "fold (add_global_contract linked) cs item = item
     \<lparr>gi_total_hedge_long := gi_total_hedge_long item + class_sum HC_long hc_quantity_mt cs,
      gi_total_hedge_short := gi_total_hedge_short item + class_sum HC_short hc_quantity_mt cs,
      gi_unlinked_hedge_long := gi_unlinked_hedge_long item + class_sum HC_long (hedge_residual linked) cs,
      gi_unlinked_hedge_short := gi_unlinked_hedge_short item + class_sum HC_short (hedge_residual linked) cs,
      gi_entities_count := gi_entities_count item + length cs\<rparr>"
proof (induction cs arbitrary: item)
  case (Cons c cs)
  show ?case
    by (simp only: fold_Cons comp_apply Cons.IH)
      (cases "hc_classification c"; simp add: add_global_contract_def Let_def)
qed simp

text \<open>The loops over the orders and the hedges raise on the first negative residual and otherwise
  group.\<close>

abbreviation order_key :: "Order \<times> decimal \<Rightarrow> string" where
  "order_key x \<equiv> commodity_key (ord_commodity (fst x))"

abbreviation hedge_key :: "HedgeContract \<Rightarrow> string" where
  "hedge_key c \<equiv> commodity_key (hc_commodity c)"

lemma commercial_loop:
  "fold_result (commercial_order_step linked) xs rows =
     (if \<exists>x \<in> set xs. is_variable x \<and> negative_residual linked x
      then Inl (http HTTP_409 ''Residual exposure cannot be negative'')
      else Inr (group_fold order_key (add_commercial linked) zero_commercial (filter is_variable xs) rows))"
  by (induction xs arbitrary: rows) (auto simp: commercial_order_step_def group_fold_def)

lemma global_order_loop:
  "fold_result (global_order_step linked) xs rows =
     (if \<exists>x \<in> set xs. is_variable x \<and> negative_residual linked x
      then Inl (http HTTP_409 ''Residual exposure cannot be negative'')
      else Inr (group_fold order_key (add_global_order linked) zero_global (filter is_variable xs) rows))"
  by (induction xs arbitrary: rows) (auto simp: global_order_step_def group_fold_def)

lemma global_contract_loop:
  "fold_result (global_contract_step linked) cs rows =
     (if \<exists>c \<in> set cs. negative_hedge_residual linked c
      then Inl (http HTTP_409 ''Residual hedge quantity cannot be negative'')
      else Inr (group_fold hedge_key (add_global_contract linked) zero_global cs rows))"
  by (induction cs arbitrary: rows) (auto simp: global_contract_step_def group_fold_def)

section \<open>Snapshots of a database within capacity\<close>

lemma snapshot_linkages_by_order:
  assumes "linkages_wf s"
  shows "linked_by_order (snapshot_linkages s) i \<le> order_linked_qty s i"
    and "quantize_mt (linked_by_order (snapshot_linkages s) i) = linked_by_order (snapshot_linkages s) i"
proof -
  have eq: "linked_by_order (snapshot_linkages s) i = sum_where (\<lambda>l. lk_order_id l = i
      \<and> joined order_live (get_order s (lk_order_id l)) \<and> joined hedge_live (get_contract s (lk_contract_id l)))
      lk_quantity_mt (linkages s)"
    by (simp add: linked_by_order_def snapshot_linkages_def sum_where_def conj_ac)
  show "linked_by_order (snapshot_linkages s) i \<le> order_linked_qty s i"
    unfolding eq order_linked_qty_def by (rule sum_where_mono) (auto dest: linkages_wfD[OF assms])
  show "quantize_mt (linked_by_order (snapshot_linkages s) i) = linked_by_order (snapshot_linkages s) i"
    unfolding eq by (rule mt.q_sum_where) (auto dest: linkages_wfD[OF assms])
qed

lemma snapshot_linkages_by_contract:
  assumes "linkages_wf s"
  shows "linked_by_contract (snapshot_linkages s) i \<le> contract_linked_qty s i"
    and "quantize_mt (linked_by_contract (snapshot_linkages s) i) = linked_by_contract (snapshot_linkages s) i"
proof -
  have eq: "linked_by_contract (snapshot_linkages s) i = sum_where (\<lambda>l. lk_contract_id l = i
      \<and> joined order_live (get_order s (lk_order_id l)) \<and> joined hedge_live (get_contract s (lk_contract_id l)))
      lk_quantity_mt (linkages s)"
    by (simp add: linked_by_contract_def snapshot_linkages_def sum_where_def conj_ac)
  show "linked_by_contract (snapshot_linkages s) i \<le> contract_linked_qty s i"
    unfolding eq contract_linked_qty_def by (rule sum_where_mono) (auto dest: linkages_wfD[OF assms])
  show "quantize_mt (linked_by_contract (snapshot_linkages s) i) = linked_by_contract (snapshot_linkages s) i"
    unfolding eq by (rule mt.q_sum_where) (auto dest: linkages_wfD[OF assms])
qed

lemma snapshot_order_residual:
  assumes "capacity_inv s" and "x \<in> set (snapshot_orders s)"
  shows "negative_residual (linked_by_order (snapshot_linkages s)) x \<longleftrightarrow> quantize_mt (ord_quantity_mt (fst x)) < 0"
proof -
  have wf: "linkages_wf s" and keys: "keyed ord_id (orders s)"
    using assms(1) by (simp_all add: capacity_inv_def capacity_keys_wf_def)
  obtain r where r: "r \<in> set (orders s)" "x = (r, ord_quantity_mt r)"
    using assms(2) by (auto simp: snapshot_orders_def)
  let ?l = "linked_by_order (snapshot_linkages s) (ord_id r)"
  have within: "?l \<le> quantize_mt (max 0 (ord_quantity_mt r))"
    using snapshot_linkages_by_order(1)[OF wf, of "ord_id r"] capacity_invD(1)[OF assms(1)]
      get_row_keyed[OF keys r(1)] by (force simp: order_capacity_def get_order_def)
  have nonneg: "0 \<le> ?l"
    unfolding linked_by_order_def snapshot_linkages_def by (rule sum_where_nonneg) (auto dest: linkages_wfD[OF wf])
  show ?thesis
  proof (cases "0 \<le> quantize_mt (ord_quantity_mt r)")
    case True
    then have "0 \<le> quantize_mt (ord_quantity_mt r - ?l)"
      using quantize_mt_residual[OF snapshot_linkages_by_order(2)[OF wf]] within quantize_mt_max[OF True] by simp
    then show ?thesis using True r(2) by (simp add: negative_residual_def not_less)
  next
    case False
    then have "quantize_mt (ord_quantity_mt r - ?l) < 0"
      using mt.q_mono[of "ord_quantity_mt r - ?l" "ord_quantity_mt r"] nonneg by simp
    then show ?thesis using False r(2) by (simp add: negative_residual_def)
  qed
qed

lemma snapshot_hedge_residual:
  assumes "capacity_inv s" and "c \<in> set (snapshot_contracts s)"
  shows "\<not> negative_hedge_residual (linked_by_contract (snapshot_linkages s)) c"
proof -
  have wf: "linkages_wf s" and keys: "keyed hc_id (contracts s)"
    using assms(1) by (simp_all add: capacity_inv_def capacity_keys_wf_def)
  have c: "c \<in> set (contracts s)"
    using assms(2) by (simp add: snapshot_contracts_def)
  have "linked_by_contract (snapshot_linkages s) (hc_id c) \<le> quantize_mt (hc_quantity_mt c)"
    using snapshot_linkages_by_contract(1)[OF wf, of "hc_id c"] capacity_invD(2)[OF assms(1)]
      get_row_keyed[OF keys c] by (force simp: contract_capacity_def get_contract_def)
  then show ?thesis
    using quantize_mt_residual[OF snapshot_linkages_by_contract(2)[OF wf]]
    by (simp add: negative_hedge_residual_def not_less)
qed

lemma snapshot_order_ok:
  assumes "capacity_inv s"
  shows "(\<exists>x \<in> set (snapshot_orders s). is_variable x \<and> negative_residual (linked_by_order (snapshot_linkages s)) x)
    \<longleftrightarrow> \<not> exposed_orders_nonneg s"
  using snapshot_order_residual[OF assms]
  by (fastforce simp: exposed_orders_nonneg_def is_variable_def snapshot_orders_def order_live_def not_less)

lemma snapshots_succeed:
  assumes "capacity_inv s"
  shows "is_ok (compute_commercial_snapshot s now) \<longleftrightarrow> exposed_orders_nonneg s"
    "is_ok (compute_global_snapshot s now) \<longleftrightarrow> exposed_orders_nonneg s"
  using snapshot_order_ok[OF assms] snapshot_hedge_residual[OF assms]
  by (auto simp: compute_commercial_snapshot_def compute_commercial_exposure_pure_def commercial_loop
      compute_global_snapshot_def compute_global_exposure_pure_def global_order_loop global_contract_loop simp del: bex_simps)

section \<open>Properties\<close>

lemma sorted_rows:
  assumes "distinct (map fst rows)" and "\<And>kv. key (f kv) = fst kv"
  shows "sorted (map key (map f (sort_key fst rows)))" "distinct (map key (map f (sort_key fst rows)))"
    "key ` set (map f (sort_key fst rows)) = fst ` set rows"
proof -
  have eq: "map key (map f (sort_key fst rows)) = map fst (sort_key fst rows)"
    by (simp add: assms(2))
  show "sorted (map key (map f (sort_key fst rows)))"
    unfolding eq by (rule sorted_sort_key)
  show "distinct (map key (map f (sort_key fst rows)))"
    unfolding eq using assms(1) by (simp add: distinct_map)
  show "key ` set (map f (sort_key fst rows)) = fst ` set rows"
    using arg_cong[OF eq, of set] by (simp add: image_image)
qed

lemma commercial_read_commodity: "cer_commodity (commercial_read now kv) = fst kv"
  by (simp add: commercial_read_def Let_def split: prod.split)

lemma global_read_commodity: "ger_commodity (global_read now kv) = fst kv"
  by (simp add: global_read_def Let_def split: prod.split)

text \<open>The commercial exposure has one row for each commodity of a variable-price order, in
  ascending order of commodity. A row sums the orders of its commodity: sales orders on the
  active side, purchase orders on the passive side, each reduced by what is linked to it.\<close>

theorem compute_commercial_exposure_rows:
  assumes "compute_commercial_exposure_pure order_qs ls now = Inr rows"
  shows "sorted (map cer_commodity rows) \<and> distinct (map cer_commodity rows)
    \<and> cer_commodity ` set rows = order_key ` set (filter is_variable order_qs)
    \<and> (\<forall>row \<in> set rows.
        let xs = filter (\<lambda>x. is_variable x \<and> order_key x = cer_commodity row) order_qs;
            linked = linked_by_order ls
        in cer_commercial_active_mt row = quantize_mt (side_sum OT_sales (order_residual linked) xs)
         \<and> cer_commercial_passive_mt row = quantize_mt (side_sum OT_purchase (order_residual linked) xs)
         \<and> cer_commercial_net_mt row = cer_commercial_active_mt row - cer_commercial_passive_mt row
         \<and> cer_pre_reduction_commercial_active_mt row = quantize_mt (side_sum OT_sales snd xs)
         \<and> cer_pre_reduction_commercial_passive_mt row = quantize_mt (side_sum OT_purchase snd xs)
         \<and> cer_order_count_considered row = length xs)"
proof -
  define items where "items = group_fold order_key (add_commercial (linked_by_order ls)) zero_commercial (filter is_variable order_qs) []"
  have rows: "rows = map (commercial_read now) (sort_key fst items)"
    using assms by (auto simp: compute_commercial_exposure_pure_def commercial_loop items_def split: if_splits)
  have d: "distinct (map fst items)"
    unfolding items_def by (rule distinct_group_fold) simp
  have k: "fst ` set items = order_key ` set (filter is_variable order_qs)"
    by (simp add: items_def keys_group_fold)
  have item: "v = fold (add_commercial (linked_by_order ls))
      (filter (\<lambda>x. is_variable x \<and> order_key x = c) order_qs) zero_commercial" if "(c, v) \<in> set items" for c v
    using map_of_is_SomeI[OF d that] by (auto simp: items_def map_of_group_fold conj_commute split: if_splits)
  show ?thesis
    using sorted_rows[of items cer_commodity "commercial_read now", OF d commercial_read_commodity] unfolding rows k
    by (auto simp: commercial_read_def Let_def fold_add_commercial zero_commercial_def dest!: item)
qed

text \<open>The global exposure nets the residual orders and the unlinked residuals of the live hedges:
  short hedges add to the active side, long hedges to the passive side.\<close>

theorem compute_global_exposure_rows:
  assumes "compute_global_exposure_pure order_qs hedges virtuals ls now = Inr rows"
  shows "sorted (map ger_commodity rows) \<and> distinct (map ger_commodity rows)
    \<and> ger_commodity ` set rows = order_key ` set (filter is_variable order_qs) \<union> hedge_key ` set (hedges @ virtuals)
    \<and> (\<forall>row \<in> set rows.
        let xs = filter (\<lambda>x. is_variable x \<and> order_key x = ger_commodity row) order_qs;
            cs = filter (\<lambda>c. hedge_key c = ger_commodity row) (hedges @ virtuals);
            active = side_sum OT_sales (order_residual (linked_by_order ls)) xs
              + class_sum HC_short (hedge_residual (linked_by_contract ls)) cs;
            passive = side_sum OT_purchase (order_residual (linked_by_order ls)) xs
              + class_sum HC_long (hedge_residual (linked_by_contract ls)) cs
        in ger_global_active_mt row = quantize_mt active \<and> ger_global_passive_mt row = quantize_mt passive
         \<and> ger_global_net_mt row = quantize_mt (active - passive)
         \<and> ger_entities_count_considered row = length xs + length cs)"
proof -
  define items1 where "items1 = group_fold order_key (add_global_order (linked_by_order ls)) zero_global (filter is_variable order_qs) []"
  define items where "items = group_fold hedge_key (add_global_contract (linked_by_contract ls)) zero_global (hedges @ virtuals) items1"
  have rows: "rows = map (global_read now) (sort_key fst items)"
    using assms by (auto simp: compute_global_exposure_pure_def global_order_loop global_contract_loop
        items_def items1_def split: if_splits)
  have d: "distinct (map fst items)"
    unfolding items_def items1_def by (intro distinct_group_fold) simp
  have k: "fst ` set items = order_key ` set (filter is_variable order_qs) \<union> hedge_key ` set (hedges @ virtuals)"
    by (auto simp: items_def items1_def keys_group_fold)
  have first: "(case map_of items1 c of None \<Rightarrow> zero_global | Some v \<Rightarrow> v) =
      fold (add_global_order (linked_by_order ls)) (filter (\<lambda>x. is_variable x \<and> order_key x = c) order_qs) zero_global" for c
  proof (cases "c \<in> order_key ` set (filter is_variable order_qs)")
    case True
    then show ?thesis by (simp add: items1_def map_of_group_fold conj_commute)
  next
    case False
    then have "filter (\<lambda>x. is_variable x \<and> order_key x = c) order_qs = []"
      by (auto simp: filter_empty_conv)
    with False show ?thesis by (simp add: items1_def map_of_group_fold)
  qed
  have item: "v = fold (add_global_contract (linked_by_contract ls)) (filter (\<lambda>x. hedge_key x = c) (hedges @ virtuals))
      (fold (add_global_order (linked_by_order ls)) (filter (\<lambda>x. is_variable x \<and> order_key x = c) order_qs) zero_global)"
    if "(c, v) \<in> set items" for c v
    using map_of_is_SomeI[OF d that] unfolding first[symmetric] items_def by (auto simp: map_of_group_fold split: if_splits)
  have row: "let xs = filter (\<lambda>x. is_variable x \<and> order_key x = ger_commodity row) order_qs;
            cs = filter (\<lambda>c. hedge_key c = ger_commodity row) (hedges @ virtuals);
            active = side_sum OT_sales (order_residual (linked_by_order ls)) xs
              + class_sum HC_short (hedge_residual (linked_by_contract ls)) cs;
            passive = side_sum OT_purchase (order_residual (linked_by_order ls)) xs
              + class_sum HC_long (hedge_residual (linked_by_contract ls)) cs
        in ger_global_active_mt row = quantize_mt active \<and> ger_global_passive_mt row = quantize_mt passive
         \<and> ger_global_net_mt row = quantize_mt (active - passive)
         \<and> ger_entities_count_considered row = length xs + length cs"
    if r: "row \<in> set rows" for row
  proof -
    obtain c v where cv: "(c, v) \<in> set items" "row = global_read now (c, v)"
      using r rows by auto
    show ?thesis
      unfolding cv(2) item[OF cv(1)] Let_def global_read_commodity fst_conv
      by (simp add: global_read_def Let_def fold_add_global_contract fold_add_global_order zero_global_def
          del: filter_append)
  qed
  show ?thesis
    using sorted_rows[of items ger_commodity "global_read now", OF d global_read_commodity] row
    unfolding rows k by blast
qed

lemma commodity_key_copper: "commodity_key ''COPPER'' = ''COPPER''"
  by code_simp

lemmas snapshot_eval = sample_order_def sample_contract_def commodity_key_copper Let_def
  linked_by_order_def linked_by_contract_def group_fold_def with_row_def is_variable_def

theorem compute_commercial_exposure_rows_witness:
  "\<exists>rows. compute_commercial_exposure_pure [(sample_order 0 OT_sales PT_variable 100, 100)] [] 5 = Inr rows
    \<and> map cer_commercial_active_mt rows = [100] \<and> distinct (map cer_commodity rows)"
proof -
  have r: "compute_commercial_exposure_pure [(sample_order 0 OT_sales PT_variable 100, 100)] [] 5 =
      Inr [commercial_read 5 (''COPPER'', zero_commercial\<lparr>ci_pre_active := 100, ci_residual_active := 100, ci_order_count := 1\<rparr>)]"
    by (simp add: compute_commercial_exposure_pure_def commercial_order_step_def negative_residual_def
        add_commercial_def zero_commercial_def snapshot_eval)
  show ?thesis
    by (intro exI conjI, rule r, simp add: commercial_read_def Let_def zero_commercial_def,
        rule compute_commercial_exposure_rows[OF r, THEN conjunct2, THEN conjunct1])
qed

theorem compute_global_exposure_rows_witness:
  "\<exists>rows. compute_global_exposure_pure [(sample_order 0 OT_sales PT_variable 100, 100)] [sample_contract 1 HC_short 60] [] [] 5 = Inr rows
    \<and> map ger_global_active_mt rows = [160] \<and> distinct (map ger_commodity rows)"
proof -
  have r: "compute_global_exposure_pure [(sample_order 0 OT_sales PT_variable 100, 100)] [sample_contract 1 HC_short 60] [] [] 5 =
      Inr [global_read 5 (''COPPER'', fold (add_global_contract (linked_by_contract [])) [sample_contract 1 HC_short 60]
        (add_global_order (linked_by_order []) (sample_order 0 OT_sales PT_variable 100, 100) zero_global))]"
    by (simp add: compute_global_exposure_pure_def global_order_step_def global_contract_step_def negative_residual_def
        negative_hedge_residual_def snapshot_eval)
  have a: "map ger_global_active_mt [global_read 5 (''COPPER'', fold (add_global_contract (linked_by_contract [])) [sample_contract 1 HC_short 60]
        (add_global_order (linked_by_order []) (sample_order 0 OT_sales PT_variable 100, 100) zero_global))] = [160]"
    by (simp add: global_read_def add_global_contract_def add_global_order_def zero_global_def snapshot_eval)
  show ?thesis
    by (intro exI conjI, rule r, rule a, rule compute_global_exposure_rows[OF r, THEN conjunct2, THEN conjunct1])
qed

end
