(* ===== verification/Price_Examples.thy ===== *)
theory Price_Examples
  imports Price_Lookup HC_Examples
begin

text \<open>
  The sample database with a copper settlement price of Tuesday 10 March 2026, and what the
  D-1 lookup of 11 March returns on it.
\<close>

definition sample_price :: "date \<Rightarrow> decimal \<Rightarrow> CashSettlementPrice" where
  "sample_price d v = \<lparr>csp_id = 90, csp_source = ''westmetall'', csp_symbol = ''LME_CU_CASH_SETTLEMENT_DAILY'',
     csp_settlement_date = d, csp_price_usd = v\<rparr>"

definition priced_db :: db where
  "priced_db = sample_db\<lparr>prices := [sample_price (Date 2026 3 10) 9100]\<rparr>"

definition sample_quote :: PriceQuote where
  "sample_quote = \<lparr>pq_value = 9100, pq_source = ''westmetall'', pq_settlement_date = Date 2026 3 10,
     pq_symbol = ''LME_CU_CASH_SETTLEMENT_DAILY''\<rparr>"

lemma copper_symbol: "resolve_symbol ''COPPER'' = Inr ''LME_CU_CASH_SETTLEMENT_DAILY''"
proof -
  have "upper ''COPPER'' = ''COPPER''" by code_simp
  then show ?thesis by (simp add: resolve_symbol_def COMMODITY_SYMBOL_MAP_def)
qed

lemma copper_prior_day:
  "prior_business_day (Date 2026 3 11) (market_calendar_for_symbol ''LME_CU_CASH_SETTLEMENT_DAILY'') = Inr (Date 2026 3 10)"
proof -
  have "days_before_month 2026 3 = 59"
    unfolding numeral_3_eq_3 by (simp add: days_in_month_def is_leap_def)
  then have "weekday (Date 2026 3 10) = 1"
    by (simp add: weekday_def days_before_year_def)
  then have "trading_day (market_calendar_for_symbol ''LME_CU_CASH_SETTLEMENT_DAILY'') (Date 2026 3 10)"
    by (simp add: trading_day_def market_calendar_for_symbol_def starts_with_def LME_HOLIDAYS_BY_YEAR_def)
  then show ?thesis
    by (simp add: prior_business_day_def prior_business_day_loop_step)
qed

lemma copper_quote:
  assumes "prices s = [sample_price (Date 2026 3 10) 9100]"
  shows "get_cash_settlement_price_d1_with_provenance s ''LME_CU_CASH_SETTLEMENT_DAILY'' (Date 2026 3 11) = Inr sample_quote"
proof -
  have "canonical_source_for_symbol ''LME_CU_CASH_SETTLEMENT_DAILY'' = Inr ''westmetall''"
    by (simp add: canonical_source_for_symbol_def CANONICAL_SOURCE_BY_SYMBOL_def)
  then show ?thesis
    by (simp add: get_cash_settlement_price_d1_with_provenance_def copper_prior_day assms sample_price_def sample_quote_def)
qed

end
