(* ===== verification/Cashflow_Ledger.thy ===== *)
theory Cashflow_Ledger
  imports Contract_Service Price_Examples "HOL-Library.Multiset"
begin

text \<open>
  \<open>backend/app/services/cashflow_ledger_service.py\<close> and the settlement payload of
  \<open>backend/app/schemas/cashflow.py\<close>: settling a hedge contract. A settlement event has two
  legs; the amount and direction of each are derived from the contract and the D-1 price and
  must equal what the client sent. The ledger keeps one entry per leg, with the provenance of
  the floating price, and the contract becomes settled. Sending the same event again returns
  what is stored.
\<close>

section \<open>Payload\<close>

datatype LedgerLegId = LL_fixed | LL_float
datatype LedgerDirection = LD_in | LD_out

fun leg_id_value :: "LedgerLegId \<Rightarrow> string" where
  "leg_id_value LL_fixed = ''FIXED''"
| "leg_id_value LL_float = ''FLOAT''"

fun ledger_direction_value :: "LedgerDirection \<Rightarrow> string" where
  "ledger_direction_value LD_in = ''IN''"
| "ledger_direction_value LD_out = ''OUT''"

record HedgeContractSettlementLeg =
  sl_leg_id :: LedgerLegId
  sl_direction :: LedgerDirection
  sl_amount :: decimal

record HedgeContractSettlementCreate =
  sc_source_event_id :: uuid
  sc_cashflow_date :: date
  sc_currency :: "string option"
  sc_legs :: "HedgeContractSettlementLeg list"

definition validate_amount :: "HedgeContractSettlementLeg \<Rightarrow> unit result" where
  "validate_amount leg = raise_if (sl_amount leg \<le> 0) (ValueError (Msg ''amount must be greater than zero'' []))"

definition validate_payload :: "HedgeContractSettlementCreate \<Rightarrow> unit result" where
  "validate_payload p =
     and_then (fold_result (\<lambda>leg _. validate_amount leg) (sc_legs p) ()) (\<lambda>_.
     and_then (raise_if (sc_currency p \<noteq> None \<and> sc_currency p \<noteq> Some ''USD'')
       (ValueError (Msg ''currency must be USD'' []))) (\<lambda>_.
     and_then (raise_if (length (sc_legs p) \<noteq> 2) (ValueError (Msg ''exactly two legs are required'' []))) (\<lambda>_.
       raise_if (set (map sl_leg_id (sc_legs p)) \<noteq> {LL_fixed, LL_float})
         (ValueError (Msg ''legs must include FIXED and FLOAT'' [])))))"

section \<open>Deriving the entries\<close>

definition SOURCE_EVENT_TYPE :: string where "SOURCE_EVENT_TYPE = ''HEDGE_CONTRACT_SETTLED''"

definition direction_from_side :: "HedgeLegSide \<Rightarrow> LedgerDirection" where
  "direction_from_side side = (if side = Leg_buy then LD_out else LD_in)"

text \<open>The dictionary of \<open>_build_expected_entry\<close>, less the columns that are the same for all legs.\<close>

record expected_entry =
  xe_leg_id :: LedgerLegId
  xe_direction :: LedgerDirection
  xe_amount :: decimal
  xe_quote :: "PriceQuote option"

definition derived_leg :: "db \<Rightarrow> HedgeContract \<Rightarrow> decimal \<Rightarrow> date \<Rightarrow> LedgerLegId \<Rightarrow> expected_entry result" where
  "derived_leg s c fixed_price d leg_id =
     (case leg_id of
        LL_fixed \<Rightarrow> Inr \<lparr>xe_leg_id = LL_fixed, xe_direction = direction_from_side (hc_fixed_leg_side c),
          xe_amount = quantize 6 (hc_quantity_mt c * fixed_price), xe_quote = None\<rparr>
      | LL_float \<Rightarrow>
          and_then (resolve_symbol (hc_commodity c)) (\<lambda>symb.
          and_then (unprovable_to_424 (get_cash_settlement_price_d1_with_provenance s symb d)) (\<lambda>settlement_quote.
            Inr \<lparr>xe_leg_id = LL_float, xe_direction = direction_from_side (hc_variable_leg_side c),
              xe_amount = quantize 6 (hc_quantity_mt c * pq_value settlement_quote),
              xe_quote = Some settlement_quote\<rparr>)))"

definition build_expected_entry ::
    "db \<Rightarrow> HedgeContract \<Rightarrow> HedgeContractSettlementCreate \<Rightarrow> HedgeContractSettlementLeg \<Rightarrow> expected_entry result" where
  "build_expected_entry s c p leg =
     and_then (require (hc_fixed_price_value c) (HTTPException HTTP_422
       (Msg ''Cannot derive settlement: contract {} has no fixed_price_value'' [AId (hc_id c)]))) (\<lambda>fixed_price.
     and_then (derived_leg s c fixed_price (sc_cashflow_date p) (sl_leg_id leg)) (\<lambda>x.
     and_then (raise_if (sl_direction leg \<noteq> xe_direction x) (HTTPException HTTP_422
       (Msg ''Leg {} direction mismatch: derived={}, payload={}'' [AStr (leg_id_value (sl_leg_id leg)),
          AStr (ledger_direction_value (xe_direction x)), AStr (ledger_direction_value (sl_direction leg))]))) (\<lambda>_.
     and_then (raise_if (sl_amount leg \<noteq> xe_amount x) (HTTPException HTTP_422
       (Msg ''Leg {} amount mismatch: derived={}, payload={}'' [AStr (leg_id_value (sl_leg_id leg)),
          ADec (xe_amount x), ADec (sl_amount leg)]))) (\<lambda>_. Inr x))))"

definition ledger_entry :: "datetime \<Rightarrow> uuid \<Rightarrow> HedgeContractSettlementCreate \<Rightarrow> uuid \<Rightarrow> expected_entry \<Rightarrow> CashFlowLedgerEntry" where
  "ledger_entry now contract_id p i x =
     \<lparr>le_id = i, le_hedge_contract_id = contract_id, le_source_event_type = SOURCE_EVENT_TYPE,
      le_source_event_id = Some (sc_source_event_id p), le_leg_id = leg_id_value (xe_leg_id x),
      le_cashflow_date = sc_cashflow_date p, le_currency = ''USD'',
      le_direction = ledger_direction_value (xe_direction x), le_amount = xe_amount x,
      le_price_source = map_option pq_source (xe_quote x), le_price_symbol = map_option pq_symbol (xe_quote x),
      le_price_settlement_date = map_option pq_settlement_date (xe_quote x),
      le_price_value = map_option pq_value (xe_quote x), le_created_at = now\<rparr>"

text \<open>The rows of the loop over \<open>expected_entries\<close>, with consecutive fresh identifiers.\<close>

definition new_ledger_entries ::
    "datetime \<Rightarrow> uuid \<Rightarrow> HedgeContractSettlementCreate \<Rightarrow> uuid \<Rightarrow> expected_entry list \<Rightarrow> CashFlowLedgerEntry list" where
  "new_ledger_entries now contract_id p i xs = map (\<lambda>(k, x). ledger_entry now contract_id p (i + k) x) (enumerate 0 xs)"

section \<open>Settlement\<close>

definition settlement_conflict :: py_error where
  "settlement_conflict = http HTTP_409 ''Settlement ledger conflict''"

definition replay_payload_mismatch :: py_error where
  "replay_payload_mismatch = http HTTP_422 ''Settlement payload does not match persisted ledger event''"

definition ledger_entry_matches_payload ::
    "CashFlowLedgerEntry \<Rightarrow> uuid \<Rightarrow> HedgeContractSettlementCreate \<Rightarrow> HedgeContractSettlementLeg \<Rightarrow> bool" where
  "ledger_entry_matches_payload e contract_id p leg \<longleftrightarrow>
     le_hedge_contract_id e = contract_id \<and> le_source_event_type e = SOURCE_EVENT_TYPE
     \<and> le_source_event_id e = Some (sc_source_event_id p) \<and> le_leg_id e = leg_id_value (sl_leg_id leg)
     \<and> le_cashflow_date e = sc_cashflow_date p \<and> le_currency e = ''USD''
     \<and> le_direction e = ledger_direction_value (sl_direction leg) \<and> le_amount e = sl_amount leg"

definition validate_replay_leg ::
    "CashFlowLedgerEntry list \<Rightarrow> uuid \<Rightarrow> HedgeContractSettlementCreate \<Rightarrow> HedgeContractSettlementLeg
       \<Rightarrow> string list \<Rightarrow> string list result" where
  "validate_replay_leg existing_entries contract_id p leg seen =
     and_then (raise_if (leg_id_value (sl_leg_id leg) \<in> set seen) settlement_conflict) (\<lambda>_.
     case find (\<lambda>e. le_leg_id e = leg_id_value (sl_leg_id leg)) existing_entries of
       None \<Rightarrow> Inl replay_payload_mismatch
     | Some m \<Rightarrow> if ledger_entry_matches_payload m contract_id p leg
         then Inr (leg_id_value (sl_leg_id leg) # seen) else Inl replay_payload_mismatch)"

definition validate_existing_settlement_replay ::
    "HedgeContractSettlementEvent \<Rightarrow> CashFlowLedgerEntry list \<Rightarrow> uuid \<Rightarrow> HedgeContractSettlementCreate \<Rightarrow> unit result" where
  "validate_existing_settlement_replay existing_event existing_entries contract_id p =
     and_then (raise_if (se_hedge_contract_id existing_event \<noteq> contract_id
         \<or> se_cashflow_date existing_event \<noteq> sc_cashflow_date p
         \<or> length existing_entries \<noteq> length (sc_legs p)) settlement_conflict) (\<lambda>_.
     and_then (fold_result (validate_replay_leg existing_entries contract_id p) (sc_legs p) []) (\<lambda>_. Inr ()))"

definition existing_settlement_entries :: "db \<Rightarrow> HedgeContractSettlementCreate \<Rightarrow> CashFlowLedgerEntry list" where
  "existing_settlement_entries s p =
     filter (\<lambda>e. le_source_event_type e = SOURCE_EVENT_TYPE \<and> le_source_event_id e = Some (sc_source_event_id p)
       \<and> le_leg_id e \<in> set (map (leg_id_value \<circ> sl_leg_id) (sc_legs p)) \<and> le_cashflow_date e = sc_cashflow_date p)
       (ledger_entries s)"

text \<open>The columns of \<open>uq_cashflow_ledger_entry_event_leg_date\<close>.\<close>

definition ledger_key :: "CashFlowLedgerEntry \<Rightarrow> string \<times> uuid option \<times> string \<times> date" where
  "ledger_key e = (le_source_event_type e, le_source_event_id e, le_leg_id e, le_cashflow_date e)"

definition ingest_hedge_contract_settlement ::
    "db \<Rightarrow> datetime \<Rightarrow> uuid \<Rightarrow> HedgeContractSettlementCreate
       \<Rightarrow> (db \<times> HedgeContractSettlementEvent \<times> CashFlowLedgerEntry list) result" where
  "ingest_hedge_contract_settlement s now contract_id p =
     and_then (require (get_contract s contract_id) (http HTTP_404 ''Hedge contract not found'')) (\<lambda>c.
     and_then (raise_if (sc_currency p \<noteq> None \<and> sc_currency p \<noteq> Some ''USD'')
       (http HTTP_422 ''currency must be USD'')) (\<lambda>_.
     let existing_entries = existing_settlement_entries s p
     in case get_row se_id (sc_source_event_id p) (settlement_events s) of
          Some existing_event \<Rightarrow>
            and_then (validate_existing_settlement_replay existing_event existing_entries contract_id p) (\<lambda>_.
              Inr (s, existing_event, existing_entries))
        | None \<Rightarrow>
            and_then (raise_if (hc_status c = HS_settled) settlement_conflict) (\<lambda>_.
            and_then (raise_if (hc_status c \<noteq> HS_active) (http HTTP_409 ''Hedge contract is not active'')) (\<lambda>_.
            and_then (raise_if (existing_entries \<noteq> []) settlement_conflict) (\<lambda>_.
            and_then (map_result (build_expected_entry s c p) (sc_legs p)) (\<lambda>expected_entries.
            let settlement_event = \<lparr>se_id = sc_source_event_id p, se_hedge_contract_id = contract_id,
                  se_cashflow_date = sc_cashflow_date p, se_created_at = now\<rparr>;
                new = new_ledger_entries now contract_id p (next_uuid s) expected_entries
            in and_then (raise_if (\<not> distinct (map ledger_key (ledger_entries s @ new)))
                 (IntegrityError (Msg ''uq_cashflow_ledger_entry_event_leg_date'' []))) (\<lambda>_.
               Inr (write_contract contract_id (\<lambda>c. c\<lparr>hc_status := HS_settled\<rparr>)
                      (s\<lparr>settlement_events := settlement_events s @ [settlement_event],
                         ledger_entries := ledger_entries s @ new, next_uuid := next_uuid s + length new\<rparr>),
                    settlement_event, new))))))))"

definition post_settlement ::
    "db \<Rightarrow> datetime \<Rightarrow> uuid \<Rightarrow> HedgeContractSettlementCreate
       \<Rightarrow> (db \<times> HedgeContractSettlementEvent \<times> CashFlowLedgerEntry list) result" where
  "post_settlement s now contract_id p =
     and_then (validate_payload p) (\<lambda>_. ingest_hedge_contract_settlement s now contract_id p)"

definition list_entries_by_contract :: "db \<Rightarrow> uuid \<Rightarrow> date option \<Rightarrow> date option \<Rightarrow> CashFlowLedgerEntry list" where
  "list_entries_by_contract s contract_id start until =
     sort_key le_cashflow_date (sort_key le_created_at
       (filter (\<lambda>e. le_hedge_contract_id e = contract_id
          \<and> (case start of None \<Rightarrow> True | Some d \<Rightarrow> d \<le> le_cashflow_date e)
          \<and> (case until of None \<Rightarrow> True | Some d \<Rightarrow> le_cashflow_date e \<le> d)) (ledger_entries s)))"

definition list_entries_by_event :: "db \<Rightarrow> uuid \<Rightarrow> string \<Rightarrow> CashFlowLedgerEntry list" where
  "list_entries_by_event s source_event_id source_event_type =
     sort_key le_leg_id
       (filter (\<lambda>e. le_source_event_type e = source_event_type \<and> le_source_event_id e = Some source_event_id) (ledger_entries s))"

section \<open>Fresh settlements and replays\<close>

lemma validate_payload_legs:
  assumes "validate_payload p = Inr ()"
  obtains (fixed_first) a b where "sc_legs p = [a, b]" "sl_leg_id a = LL_fixed" "sl_leg_id b = LL_float"
  | (float_first) a b where "sc_legs p = [a, b]" "sl_leg_id a = LL_float" "sl_leg_id b = LL_fixed"
proof -
  have "length (sc_legs p) = 2" "set (map sl_leg_id (sc_legs p)) = {LL_fixed, LL_float}"
    using assms by (auto simp: validate_payload_def)
  then obtain a b where ab: "sc_legs p = [a, b]" "{sl_leg_id a, sl_leg_id b} = {LL_fixed, LL_float}"
    by (auto simp: numeral_2_eq_2 length_Suc_conv)
  then consider "sl_leg_id a = LL_fixed" "sl_leg_id b = LL_float" | "sl_leg_id a = LL_float" "sl_leg_id b = LL_fixed"
    by (auto simp: doubleton_eq_iff)
  then show ?thesis using ab(1) that by cases auto
qed

lemma build_expected_entry_Inr:
  "build_expected_entry s c p leg = Inr x \<longleftrightarrow>
     (\<exists>fp. hc_fixed_price_value c = Some fp \<and> derived_leg s c fp (sc_cashflow_date p) (sl_leg_id leg) = Inr x)
     \<and> xe_direction x = sl_direction leg \<and> xe_amount x = sl_amount leg"
  by (auto simp: build_expected_entry_def)

lemma derived_leg_id: "derived_leg s c fp d k = Inr x \<Longrightarrow> xe_leg_id x = k"
  by (cases k) (auto simp: derived_leg_def)

lemma settlement_fresh:
  assumes "post_settlement s now cid p = Inr (s', ev, es)"
    and "get_row se_id (sc_source_event_id p) (settlement_events s) = None"
  obtains c xs where "get_contract s cid = Some c" "hc_status c = HS_active" "existing_settlement_entries s p = []"
    "map_result (build_expected_entry s c p) (sc_legs p) = Inr xs"
    "es = new_ledger_entries now cid p (next_uuid s) xs"
    "distinct (map ledger_key (ledger_entries s @ es))"
    "ev = \<lparr>se_id = sc_source_event_id p, se_hedge_contract_id = cid, se_cashflow_date = sc_cashflow_date p, se_created_at = now\<rparr>"
    "s' = write_contract cid (\<lambda>c. c\<lparr>hc_status := HS_settled\<rparr>)
       (s\<lparr>settlement_events := settlement_events s @ [ev], ledger_entries := ledger_entries s @ es,
          next_uuid := next_uuid s + length es\<rparr>)"
  using assms that unfolding post_settlement_def ingest_hedge_contract_settlement_def
  by (auto simp: Let_def simp del: map_append distinct_append)

lemma settlement_replay:
  assumes "post_settlement s now cid p = Inr (s', ev, es)"
    and "get_row se_id (sc_source_event_id p) (settlement_events s) \<noteq> None"
  shows "s' = s"
  using assms unfolding post_settlement_def ingest_hedge_contract_settlement_def
  by (auto simp: Let_def)

lemma settlement_two_entries:
  assumes "validate_payload p = Inr ()" and "map_result (build_expected_entry s c p) (sc_legs p) = Inr xs"
  obtains a b x y where "sc_legs p = [a, b]" "xs = [x, y]"
    "build_expected_entry s c p a = Inr x" "build_expected_entry s c p b = Inr y"
    "xe_leg_id x = sl_leg_id a" "xe_leg_id y = sl_leg_id b"
    "leg_id_value (sl_leg_id a) \<noteq> leg_id_value (sl_leg_id b)" "sl_leg_id b = LL_fixed \<longleftrightarrow> sl_leg_id a = LL_float"
proof -
  obtain a b where ab: "sc_legs p = [a, b]" "leg_id_value (sl_leg_id a) \<noteq> leg_id_value (sl_leg_id b)"
    "sl_leg_id b = LL_fixed \<longleftrightarrow> sl_leg_id a = LL_float"
    using assms(1) by (cases rule: validate_payload_legs) auto
  obtain x y where xy: "xs = [x, y]" "build_expected_entry s c p a = Inr x" "build_expected_entry s c p b = Inr y"
    using assms(2) ab(1) by (auto split: sum.splits)
  have "xe_leg_id x = sl_leg_id a" "xe_leg_id y = sl_leg_id b"
    using xy(2,3) unfolding build_expected_entry_Inr by (auto dest: derived_leg_id)
  with ab xy show ?thesis using that by blast
qed

lemma entry_matches_own_leg:
  assumes "build_expected_entry s c p leg = Inr x" and "xe_leg_id x = sl_leg_id leg"
  shows "ledger_entry_matches_payload (ledger_entry now cid p i x) cid p leg"
  using assms by (simp add: ledger_entry_matches_payload_def ledger_entry_def build_expected_entry_Inr)

lemma ledger_entry_leg [simp]: "le_leg_id (ledger_entry now cid p i x) = leg_id_value (xe_leg_id x)"
  by (simp add: ledger_entry_def)

lemma existing_after_settlement:
  assumes "existing_settlement_entries s p = []" and "xe_leg_id ` set xs \<subseteq> sl_leg_id ` set (sc_legs p)"
    and "ledger_entries s' = ledger_entries s @ new_ledger_entries now cid p i xs"
  shows "existing_settlement_entries s' p = new_ledger_entries now cid p i xs"
proof -
  have "filter (\<lambda>e. le_source_event_type e = SOURCE_EVENT_TYPE \<and> le_source_event_id e = Some (sc_source_event_id p)
       \<and> le_leg_id e \<in> set (map (leg_id_value \<circ> sl_leg_id) (sc_legs p)) \<and> le_cashflow_date e = sc_cashflow_date p)
       (new_ledger_entries now cid p i xs) = new_ledger_entries now cid p i xs"
  proof (rule filter_True, rule ballI)
    fix e assume "e \<in> set (new_ledger_entries now cid p i xs)"
    then obtain k x where "x \<in> set xs" "e = ledger_entry now cid p (i + k) x"
      by (auto simp: new_ledger_entries_def in_set_enumerate_eq) (metis nth_mem)
    with assms(2) show "le_source_event_type e = SOURCE_EVENT_TYPE \<and> le_source_event_id e = Some (sc_source_event_id p)
       \<and> le_leg_id e \<in> set (map (leg_id_value \<circ> sl_leg_id) (sc_legs p)) \<and> le_cashflow_date e = sc_cashflow_date p"
      by (auto simp: ledger_entry_def)
  qed
  then show ?thesis
    using assms(1) by (simp add: existing_settlement_entries_def assms(3))
qed

text \<open>C10: A settlement can be sent again. Whatever happened the first time a payload was accepted,
  sending it again to the resulting state is accepted, changes nothing and returns the same
  event and the same ledger entries.\<close>

theorem settlement_replay_idempotent:
  assumes "post_settlement s now cid p = Inr (s', ev, es)"
  shows "post_settlement s' now' cid p = Inr (s', ev, es)"
proof (cases "get_row se_id (sc_source_event_id p) (settlement_events s)")
  case None
  have valid: "validate_payload p = Inr ()"
    using assms by (simp add: post_settlement_def)
  then have usd: "\<not> (sc_currency p \<noteq> None \<and> sc_currency p \<noteq> Some ''USD'')"
    by (simp add: validate_payload_def)
  obtain c xs where c: "get_contract s cid = Some c" and none: "existing_settlement_entries s p = []"
    and xs: "map_result (build_expected_entry s c p) (sc_legs p) = Inr xs"
    and es: "es = new_ledger_entries now cid p (next_uuid s) xs"
    and ev: "ev = \<lparr>se_id = sc_source_event_id p, se_hedge_contract_id = cid, se_cashflow_date = sc_cashflow_date p, se_created_at = now\<rparr>"
    and s': "s' = write_contract cid (\<lambda>c. c\<lparr>hc_status := HS_settled\<rparr>)
       (s\<lparr>settlement_events := settlement_events s @ [ev], ledger_entries := ledger_entries s @ es,
          next_uuid := next_uuid s + length es\<rparr>)"
    using assms None by (rule settlement_fresh)
  obtain a b x y where legs: "sc_legs p = [a, b]" "xs = [x, y]"
    and built: "build_expected_entry s c p a = Inr x" "build_expected_entry s c p b = Inr y"
    and ids: "xe_leg_id x = sl_leg_id a" "xe_leg_id y = sl_leg_id b"
    and diff: "leg_id_value (sl_leg_id a) \<noteq> leg_id_value (sl_leg_id b)"
    using valid xs by (rule settlement_two_entries)
  have ex: "existing_settlement_entries s' p = es"
    unfolding es by (rule existing_after_settlement[OF none]) (simp_all add: legs ids s' es write_contract_def)
  have "fold_result (validate_replay_leg es cid p) (sc_legs p) [] =
      Inr [leg_id_value (sl_leg_id b), leg_id_value (sl_leg_id a)]"
    using entry_matches_own_leg[OF built(1) ids(1), of now cid "next_uuid s"]
      entry_matches_own_leg[OF built(2) ids(2), of now cid "Suc (next_uuid s)"] diff
    by (simp add: legs es new_ledger_entries_def validate_replay_leg_def ids)
  then have "validate_existing_settlement_replay ev es cid p = Inr ()"
    by (simp add: validate_existing_settlement_replay_def ev legs es new_ledger_entries_def)
  moreover have "get_row se_id (sc_source_event_id p) (settlement_events s') = Some ev"
    using None by (simp add: s' write_contract_def get_row_append ev)
  moreover have "get_contract s' cid = Some (c\<lparr>hc_status := HS_settled\<rparr>)"
    using c unfolding s' by (simp add: get_contract_write) (simp add: get_contract_def)
  ultimately show ?thesis
    using usd valid by (simp add: post_settlement_def ingest_hedge_contract_settlement_def ex)
next
  case (Some old)
  then have "s' = s" by (intro settlement_replay[OF assms]) simp
  moreover have "post_settlement s now' cid p = post_settlement s now cid p"
    using Some by (simp add: post_settlement_def ingest_hedge_contract_settlement_def Let_def)
  ultimately show ?thesis using assms by simp
qed

section \<open>Amounts\<close>

definition net_cashflow :: "CashFlowLedgerEntry list \<Rightarrow> decimal" where
  "net_cashflow es = sum_list (map (\<lambda>e. if le_direction e = ''IN'' then le_amount e else - le_amount e) es)"

definition settlement_value :: "HedgeContract \<Rightarrow> decimal \<Rightarrow> decimal \<Rightarrow> decimal" where
  "settlement_value c fixed_price float_price =
     (if hc_fixed_leg_side c = Leg_buy then 1 else - 1)
       * (quantize_money (hc_quantity_mt c * float_price) - quantize_money (hc_quantity_mt c * fixed_price))"

lemma direction_values [simp]:
  "ledger_direction_value d = ''IN'' \<longleftrightarrow> d = LD_in" "direction_from_side sd = LD_in \<longleftrightarrow> sd = Leg_sell"
  by (cases d; simp) (cases sd; simp add: direction_from_side_def)

lemma net_cashflow_pair:
  "net_cashflow [ledger_entry now cid p i x, ledger_entry now cid p j y] =
     (if xe_direction x = LD_in then xe_amount x else - xe_amount x)
     + (if xe_direction y = LD_in then xe_amount y else - xe_amount y)"
  by (simp add: net_cashflow_def ledger_entry_def)

definition leg_cashflow :: "HedgeLegSide \<Rightarrow> decimal \<Rightarrow> decimal" where
  "leg_cashflow sd amount = (if sd = Leg_sell then quantize_money amount else - quantize_money amount)"

lemma leg_cashflows_opposite:
  "hc_variable_leg_side c \<noteq> hc_fixed_leg_side c \<Longrightarrow>
     leg_cashflow (hc_fixed_leg_side c) (hc_quantity_mt c * fp) + leg_cashflow (hc_variable_leg_side c) (hc_quantity_mt c * p)
     = settlement_value c fp p"
  by (cases "hc_fixed_leg_side c"; cases "hc_variable_leg_side c") (simp_all add: leg_cashflow_def settlement_value_def)

lemma derived_pair_net:
  assumes "derived_leg s c fp d LL_fixed = Inr x" and "derived_leg s c fp d LL_float = Inr y"
  obtains symb quote where "resolve_symbol (hc_commodity c) = Inr symb"
    "get_cash_settlement_price_d1_with_provenance s symb d = Inr quote" "xe_quote x = None" "xe_quote y = Some quote"
    "(if xe_direction x = LD_in then xe_amount x else - xe_amount x)
       = leg_cashflow (hc_fixed_leg_side c) (hc_quantity_mt c * fp)"
    "(if xe_direction y = LD_in then xe_amount y else - xe_amount y)
       = leg_cashflow (hc_variable_leg_side c) (hc_quantity_mt c * pq_value quote)"
  using assms by (auto simp: derived_leg_def leg_cashflow_def quantize_money_def split: if_splits)

text \<open>C4: A fresh settlement books each leg at its own price and side. The two new ledger entries
  net to the quantity times the fixed price with the sign of the fixed leg's side, plus the
  quantity times the D-1 price with the sign of the variable leg's side, each rounded to six
  decimals, in for a leg that sells and out for one that buys. When the two legs have opposite
  sides, which the code does not enforce, that is the difference of the two prices: floating less
  fixed for a contract that buys fixed, the negative for one that sells fixed. The D-1 price was
  settled before the cashflow date; exactly one of the two entries carries its provenance; the
  contract ends up settled.\<close>

theorem settlement_amounts:
  assumes "post_settlement s now cid p = Inr (s', ev, es)"
    and "get_row se_id (sc_source_event_id p) (settlement_events s) = None"
    and "get_contract s cid = Some c" and "valid_date (sc_cashflow_date p)"
  shows "\<exists>fp symb quote. hc_fixed_price_value c = Some fp \<and> resolve_symbol (hc_commodity c) = Inr symb
    \<and> get_cash_settlement_price_d1_with_provenance s symb (sc_cashflow_date p) = Inr quote
    \<and> pq_settlement_date quote < sc_cashflow_date p
    \<and> ledger_entries s' = ledger_entries s @ es \<and> length es = 2
    \<and> net_cashflow es = leg_cashflow (hc_fixed_leg_side c) (hc_quantity_mt c * fp)
        + leg_cashflow (hc_variable_leg_side c) (hc_quantity_mt c * pq_value quote)
    \<and> (hc_variable_leg_side c \<noteq> hc_fixed_leg_side c \<longrightarrow> net_cashflow es = settlement_value c fp (pq_value quote))
    \<and> mset (map le_price_value es) = {#None, Some (pq_value quote)#}
    \<and> joined (\<lambda>c'. hc_status c' = HS_settled) (get_contract s' cid)"
proof -
  have valid: "validate_payload p = Inr ()"
    using assms(1) by (simp add: post_settlement_def)
  obtain c' xs where c': "get_contract s cid = Some c'"
    and xs: "map_result (build_expected_entry s c' p) (sc_legs p) = Inr xs"
    and es: "es = new_ledger_entries now cid p (next_uuid s) xs"
    and s': "s' = write_contract cid (\<lambda>c. c\<lparr>hc_status := HS_settled\<rparr>)
       (s\<lparr>settlement_events := settlement_events s @ [ev], ledger_entries := ledger_entries s @ es,
          next_uuid := next_uuid s + length es\<rparr>)"
    using assms(1,2) by (rule settlement_fresh)
  have [simp]: "c' = c" using c' assms(3) by simp
  obtain a b x y where legs: "xs = [x, y]"
    and built: "build_expected_entry s c p a = Inr x" "build_expected_entry s c p b = Inr y"
    and ids: "xe_leg_id x = sl_leg_id a" "xe_leg_id y = sl_leg_id b" "sl_leg_id b = LL_fixed \<longleftrightarrow> sl_leg_id a = LL_float"
    using valid xs by (auto elim!: settlement_two_entries)
  obtain fp where fp: "hc_fixed_price_value c = Some fp"
    and dx: "derived_leg s c fp (sc_cashflow_date p) (xe_leg_id x) = Inr x"
    and dy: "derived_leg s c fp (sc_cashflow_date p) (xe_leg_id y) = Inr y"
    using built ids unfolding build_expected_entry_Inr by auto
  have es2: "es = [ledger_entry now cid p (next_uuid s) x, ledger_entry now cid p (Suc (next_uuid s)) y]"
    by (simp add: es legs new_ledger_entries_def)
  have settled: "joined (\<lambda>c'. hc_status c' = HS_settled) (get_contract s' cid)" "ledger_entries s' = ledger_entries s @ es"
    using assms(3) unfolding s' by (simp_all add: get_contract_write) (simp_all add: get_contract_def write_contract_def)
  define u v where "u = (if xe_leg_id x = LL_fixed then x else y)" and "v = (if xe_leg_id x = LL_fixed then y else x)"
  have "derived_leg s c fp (sc_cashflow_date p) LL_fixed = Inr u" "derived_leg s c fp (sc_cashflow_date p) LL_float = Inr v"
    using dx dy ids unfolding u_def v_def by (cases "xe_leg_id x"; cases "xe_leg_id y"; simp)+
  then obtain symb quote where q: "resolve_symbol (hc_commodity c) = Inr symb"
    "get_cash_settlement_price_d1_with_provenance s symb (sc_cashflow_date p) = Inr quote"
    "xe_quote u = None" "xe_quote v = Some quote"
    "(if xe_direction u = LD_in then xe_amount u else - xe_amount u) = leg_cashflow (hc_fixed_leg_side c) (hc_quantity_mt c * fp)"
    "(if xe_direction v = LD_in then xe_amount v else - xe_amount v)
       = leg_cashflow (hc_variable_leg_side c) (hc_quantity_mt c * pq_value quote)"
    by (rule derived_pair_net)
  have "net_cashflow es = leg_cashflow (hc_fixed_leg_side c) (hc_quantity_mt c * fp)
      + leg_cashflow (hc_variable_leg_side c) (hc_quantity_mt c * pq_value quote)"
    using q(5,6) unfolding es2 net_cashflow_pair u_def v_def by (auto split: if_splits)
  moreover have "mset (map le_price_value es) = {#None, Some (pq_value quote)#}"
    using q(3,4) unfolding es2 u_def v_def by (auto simp: ledger_entry_def split: if_splits)
  ultimately show ?thesis
    using fp q(1,2) d1.quote_before[OF q(2) assms(4)] settled es2 leg_cashflows_opposite
    by (intro exI[of _ fp] exI[of _ symb] exI[of _ quote]) simp
qed

section \<open>A concrete settlement\<close>

definition sample_settlement :: HedgeContractSettlementCreate where
  "sample_settlement = \<lparr>sc_source_event_id = 50, sc_cashflow_date = Date 2026 3 11, sc_currency = None,
     sc_legs = [\<lparr>sl_leg_id = LL_fixed, sl_direction = LD_in, sl_amount = 540000\<rparr>,
                \<lparr>sl_leg_id = LL_float, sl_direction = LD_out, sl_amount = 546000\<rparr>]\<rparr>"

lemma quantize_money_numeral [simp]: "quantize 6 (numeral k) = numeral k"
proof -
  have eq: "(numeral k :: rat) * 10 ^ 6 = of_int (numeral k * 1000000)" by simp
  have "round_half_even (numeral k * 10 ^ 6) = numeral k * 1000000"
    unfolding eq by (rule round_half_even_of_int)
  then show ?thesis by (simp add: quantize_def)
qed

lemma sample_settlement_posts:
  assumes "get_contract s 1 = Some (sample_contract 1 HC_short 60)" and "ledger_entries s = []" "settlement_events s = []"
    and "prices s = [sample_price (Date 2026 3 10) 9100]"
  shows "\<exists>s' ev es. post_settlement s now 1 sample_settlement = Inr (s', ev, es)"
proof -
  have valid: "validate_payload sample_settlement = Inr ()"
    by (auto simp: validate_payload_def validate_amount_def sample_settlement_def)
  have "map_result (build_expected_entry s (sample_contract 1 HC_short 60) sample_settlement)
      (sc_legs sample_settlement) =
    Inr [\<lparr>xe_leg_id = LL_fixed, xe_direction = LD_in, xe_amount = 540000, xe_quote = None\<rparr>,
         \<lparr>xe_leg_id = LL_float, xe_direction = LD_out, xe_amount = 546000, xe_quote = Some sample_quote\<rparr>]"
    using copper_quote[OF assms(4)]
    by (simp add: build_expected_entry_def derived_leg_def sample_settlement_def sample_contract_def
        copper_symbol direction_from_side_def unprovable_to_424_def) (simp add: sample_quote_def)
  then show ?thesis
    using valid assms(1-3)
    by (simp add: post_settlement_def ingest_hedge_contract_settlement_def existing_settlement_entries_def
        sample_contract_def new_ledger_entries_def ledger_key_def ledger_entry_def)
      (simp add: sample_settlement_def Let_def)
qed

lemma sample_settlement_posted: "\<exists>s' ev es. post_settlement priced_db 7 1 sample_settlement = Inr (s', ev, es)"
  by (rule sample_settlement_posts) (simp_all add: priced_db_def sample_defs get_defs)

theorem settlement_replay_idempotent_witness:
  "\<exists>s' ev es. post_settlement priced_db 7 1 sample_settlement = Inr (s', ev, es)
     \<and> post_settlement s' 8 1 sample_settlement = Inr (s', ev, es)"
  using sample_settlement_posted settlement_replay_idempotent by blast

theorem settlement_amounts_witness:
  "\<exists>s' ev es. post_settlement priced_db 7 1 sample_settlement = Inr (s', ev, es) \<and> length es = 2
     \<and> joined (\<lambda>c'. hc_status c' = HS_settled) (get_contract s' 1)"
proof -
  obtain s' ev es where p: "post_settlement priced_db 7 1 sample_settlement = Inr (s', ev, es)"
    using sample_settlement_posted by blast
  have "get_row se_id (sc_source_event_id sample_settlement) (settlement_events priced_db) = None"
    "get_contract priced_db 1 = Some (sample_contract 1 HC_short 60)"
    "valid_date (sc_cashflow_date sample_settlement)"
    by (simp_all add: priced_db_def sample_defs get_defs sample_settlement_def MINYEAR_def MAXYEAR_def days_in_month_def)
  from settlement_amounts[OF p this] p show ?thesis by blast
qed

section \<open>Invariants\<close>

lemma settlement_cases:
  assumes "post_settlement s now cid p = Inr (s', ev, es)"
  obtains (replay) "s' = s"
  | (fresh) c s1 where "s' = write_contract cid (\<lambda>c. c\<lparr>hc_status := HS_settled\<rparr>) s1"
      "s1 = s\<lparr>settlement_events := settlement_events s @ [ev], ledger_entries := ledger_entries s @ es,
          next_uuid := next_uuid s + length es\<rparr>"
      "get_contract s cid = Some c" "hc_status c = HS_active" "se_id ev \<notin> se_id ` set (settlement_events s)"
      "se_hedge_contract_id ev = cid"
      "map le_source_event_id es = [Some (se_id ev), Some (se_id ev)]" "mset (map le_leg_id es) = {#''FIXED'', ''FLOAT''#}"
proof (cases "get_row se_id (sc_source_event_id p) (settlement_events s)")
  case None
  have valid: "validate_payload p = Inr ()"
    using assms by (simp add: post_settlement_def)
  obtain c xs where c: "get_contract s cid = Some c" "hc_status c = HS_active"
    and xs: "map_result (build_expected_entry s c p) (sc_legs p) = Inr xs"
    and es: "es = new_ledger_entries now cid p (next_uuid s) xs"
    and ev: "ev = \<lparr>se_id = sc_source_event_id p, se_hedge_contract_id = cid, se_cashflow_date = sc_cashflow_date p, se_created_at = now\<rparr>"
    and s': "s' = write_contract cid (\<lambda>c. c\<lparr>hc_status := HS_settled\<rparr>)
       (s\<lparr>settlement_events := settlement_events s @ [ev], ledger_entries := ledger_entries s @ es,
          next_uuid := next_uuid s + length es\<rparr>)"
    using assms None by (rule settlement_fresh)
  obtain a b x y where legs: "sc_legs p = [a, b]" "xs = [x, y]" "xe_leg_id x = sl_leg_id a" "xe_leg_id y = sl_leg_id b"
    using valid xs by (rule settlement_two_entries)
  have "mset (map le_leg_id es) = {#''FIXED'', ''FLOAT''#}"
    using valid by (cases rule: validate_payload_legs)
      (use legs in \<open>auto simp: es new_ledger_entries_def add_mset_commute\<close>)
  moreover have "map le_source_event_id es = [Some (se_id ev), Some (se_id ev)]"
    by (simp add: es new_ledger_entries_def legs ledger_entry_def ev)
  moreover have "se_id ev \<notin> se_id ` set (settlement_events s)"
    using None by (simp add: ev get_row_None_iff)
  ultimately show ?thesis
    using fresh[OF s' refl c] by (simp add: ev)
next
  case Some
  then show ?thesis using replay settlement_replay[OF assms] by simp
qed

lemma settlement_capacity_inv:
  assumes "capacity_inv s" and "post_settlement s now cid p = Inr (s', ev, es)"
  shows "capacity_inv s'"
  using assms(2)
proof (cases rule: settlement_cases)
  case (fresh c s1)
  have inv: "capacity_inv s1"
    using assms(1) by (rule capacity_inv_counter) (simp_all add: fresh)
  show ?thesis
    unfolding fresh(1) by (rule write_contract_capacity[OF inv])
      (auto simp: hedge_live_def hedge_open_def capacity_inv_contract_room[OF inv])
qed (use assms in simp)

text \<open>What the ledger keeps over all runs: a contract is settled at most once and is no longer
  open then, and every settlement event has exactly its fixed and its floating entry.\<close>

definition ledger_inv :: "db \<Rightarrow> bool" where
  "ledger_inv s \<longleftrightarrow> keyed se_id (settlement_events s) \<and> distinct (map se_hedge_contract_id (settlement_events s))
     \<and> (\<forall>ev \<in> set (settlement_events s). joined (\<lambda>c. \<not> hedge_open c) (get_contract s (se_hedge_contract_id ev)))
     \<and> (\<forall>ev \<in> set (settlement_events s). mset (map le_leg_id (filter (\<lambda>e. le_source_event_id e = Some (se_id ev)) (ledger_entries s)))
           = {#''FIXED'', ''FLOAT''#})
     \<and> (\<forall>e \<in> set (ledger_entries s). \<exists>ev \<in> set (settlement_events s). le_source_event_id e = Some (se_id ev))"

lemma ledger_invD:
  assumes "ledger_inv s"
  shows "keyed se_id (settlement_events s)" "distinct (map se_hedge_contract_id (settlement_events s))"
    "ev \<in> set (settlement_events s) \<Longrightarrow> joined (\<lambda>c. \<not> hedge_open c) (get_contract s (se_hedge_contract_id ev))"
    "ev \<in> set (settlement_events s) \<Longrightarrow>
       mset (map le_leg_id (filter (\<lambda>e. le_source_event_id e = Some (se_id ev)) (ledger_entries s))) = {#''FIXED'', ''FLOAT''#}"
    "e \<in> set (ledger_entries s) \<Longrightarrow> le_source_event_id e \<in> Some ` se_id ` set (settlement_events s)"
  using assms unfolding ledger_inv_def by (simp_all add: image_image image_iff)

lemma closed_stays_closed:
  assumes "contracts_follow (contracts s) (contracts s')" and "joined (\<lambda>c. \<not> hedge_open c) (get_contract s i)"
  shows "joined (\<lambda>c. \<not> hedge_open c) (get_contract s' i)"
proof -
  obtain c where c: "get_row hc_id i (contracts s) = Some c" "\<not> hedge_open c"
    using assms(2) by (auto simp: get_contract_def joined_def split: option.splits)
  then obtain c' where "get_row hc_id i (contracts s') = Some c'" "hc_status c' = hc_status c \<or> contract_moves (hc_status c) (hc_status c')"
    using assms(1) unfolding rows_follow_def by blast
  with c(2) show ?thesis
    by (cases "hc_status c") (auto simp: get_contract_def hedge_open_def contract_moves_def)
qed

lemma ledger_inv_follow:
  assumes "ledger_inv s" and "contracts_follow (contracts s) (contracts s')"
    and "settlement_events s' = settlement_events s" and "ledger_entries s' = ledger_entries s"
  shows "ledger_inv s'"
  using assms(1) closed_stays_closed[OF assms(2)] unfolding ledger_inv_def assms(3,4) by blast

lemma settlement_follows:
  assumes "post_settlement s now cid p = Inr (s', ev, es)"
  shows "contracts_follow (contracts s) (contracts s')"
  using assms
proof (cases rule: settlement_cases)
  case (fresh c s1)
  then show ?thesis
    by (auto simp: write_contract_def get_contract_def contract_moves_def intro!: rows_follow_update)
qed simp

lemma settlement_ledger_inv:
  assumes "ledger_inv s" and "post_settlement s now cid p = Inr (s', ev, es)"
  shows "ledger_inv s'"
  using assms(2)
proof (cases rule: settlement_cases)
  case (fresh c s1)
  have tables: "settlement_events s' = settlement_events s @ [ev]" "ledger_entries s' = ledger_entries s @ es"
    by (simp_all add: fresh(1,2) write_contract_def)
  have settled: "joined (\<lambda>c. \<not> hedge_open c) (get_contract s' cid)"
    using fresh(3) by (simp add: fresh(1,2) get_contract_write) (simp add: get_contract_def hedge_open_def)
  note inv = ledger_invD[OF assms(1)]
  have "cid \<notin> se_hedge_contract_id ` set (settlement_events s)"
    using inv(3) fresh(3,4) by (fastforce simp: hedge_open_def)
  then have keys: "keyed se_id (settlement_events s')" "distinct (map se_hedge_contract_id (settlement_events s'))"
    using inv(1,2) fresh(5,6) by (simp_all add: tables keyed_snoc)
  have new: "le_source_event_id e = Some (se_id ev)" if "e \<in> set es" for e
    using arg_cong[OF fresh(7), of set] that by auto
  have old: "le_source_event_id e \<noteq> Some (se_id ev)" if "e \<in> set (ledger_entries s)" for e
    using inv(5)[OF that] fresh(5) by auto
  have mine: "filter (\<lambda>e. le_source_event_id e = Some (se_id ev)) (ledger_entries s') = es"
    using new old by (simp add: tables filter_empty_conv)
  have others: "filter (\<lambda>e. le_source_event_id e = Some (se_id ev')) (ledger_entries s') =
      filter (\<lambda>e. le_source_event_id e = Some (se_id ev')) (ledger_entries s)"
    if "ev' \<in> set (settlement_events s)" for ev'
  proof -
    have "se_id ev' \<noteq> se_id ev" using fresh(5) that by (metis image_eqI)
    then show ?thesis using new by (auto simp: tables filter_empty_conv)
  qed
  have "mset (map le_leg_id (filter (\<lambda>e. le_source_event_id e = Some (se_id ev')) (ledger_entries s'))) = {#''FIXED'', ''FLOAT''#}"
    if "ev' \<in> set (settlement_events s')" for ev'
    using that mine others inv(4) fresh(8) unfolding tables(1) by fastforce
  moreover have "\<exists>ev' \<in> set (settlement_events s'). le_source_event_id e = Some (se_id ev')"
    if "e \<in> set (ledger_entries s')" for e
    using that inv(5) new unfolding tables by fastforce
  moreover have "joined (\<lambda>c. \<not> hedge_open c) (get_contract s' (se_hedge_contract_id ev'))"
    if "ev' \<in> set (settlement_events s')" for ev'
    using that settled closed_stays_closed[OF settlement_follows[OF assms(2)] inv(3)] fresh(6) unfolding tables(1) by auto
  ultimately show ?thesis
    using keys unfolding ledger_inv_def by blast
qed (use assms in simp)

end
