(* ===== verification/RFQ_Ranking.thy ===== *)
theory RFQ_Ranking
  imports HC_Models "HOL-Library.Product_Lexorder" "HOL-Library.Multiset"
begin

text \<open>
  The pure half of \<open>backend/app/services/rfq_service.py\<close>: which quote of each counterparty
  counts, how the quotes of a trade are ranked, and how the two legs of a spread are ranked
  together. A Python dict is an association list in insertion order.
\<close>

section \<open>Helpers\<close>

definition canonicalize_fixed_price_unit :: "string \<Rightarrow> string option" where
  "canonicalize_fixed_price_unit unit =
     (let normalized = filter (\<lambda>c. c \<noteq> CHR ''/'' \<and> c \<noteq> CHR ''-'' \<and> c \<noteq> CHR '' '') (upper (strip unit))
      in if normalized = ''USDMT'' then Some ''USD/MT'' else None)"

definition determine_contract_legs :: "RFQDirection \<Rightarrow> HedgeLegSide \<times> HedgeLegSide \<times> HedgeClassification" where
  "determine_contract_legs d =
     (if d = RD_buy then (Leg_buy, Leg_sell, HC_long) else (Leg_sell, Leg_buy, HC_short))"

definition dict_set :: "'k \<Rightarrow> 'v \<Rightarrow> ('k \<times> 'v) list \<Rightarrow> ('k \<times> 'v) list" where
  "dict_set k v d =
     (if k \<in> fst ` set d then map (\<lambda>(k', v'). if k' = k then (k, v) else (k', v')) d else d @ [(k, v)])"

section \<open>Latest quotes\<close>

definition quote_key :: "RFQQuote \<Rightarrow> datetime \<times> datetime \<times> uuid" where
  "quote_key q = (qt_received_at q, qt_created_at q, qt_id q)"

record latest_loop =
  ll_latest :: "(uuid \<times> RFQQuote) list"
  ll_current_cp :: "uuid option"
  ll_best :: "RFQQuote option"

definition latest_step :: "RFQQuote \<Rightarrow> latest_loop \<Rightarrow> latest_loop result" where
  "latest_step quote st =
     (case ll_current_cp st of
        None \<Rightarrow> Inr (st\<lparr>ll_current_cp := Some (qt_counterparty_id quote), ll_best := Some quote\<rparr>)
      | Some current_cp \<Rightarrow>
          if qt_counterparty_id quote \<noteq> current_cp then
            Inr \<lparr>ll_latest = (case ll_best st of None \<Rightarrow> ll_latest st | Some best \<Rightarrow> dict_set current_cp best (ll_latest st)),
                 ll_current_cp = Some (qt_counterparty_id quote), ll_best = Some quote\<rparr>
          else (case ll_best st of
              None \<Rightarrow> Inl (ValueError (Msg ''best_for_counterparty must not be None'' []))
            | Some best \<Rightarrow> Inr (if quote_key best < quote_key quote then st\<lparr>ll_best := Some quote\<rparr> else st)))"

definition select_latest_quotes_by_counterparty :: "RFQQuote list \<Rightarrow> (uuid \<times> RFQQuote) list result" where
  "select_latest_quotes_by_counterparty quotes =
     (let ordered = sort_key (\<lambda>q. (qt_counterparty_id q, quote_key q)) quotes
      in and_then (fold_result latest_step ordered \<lparr>ll_latest = [], ll_current_cp = None, ll_best = None\<rparr>) (\<lambda>st.
         Inr (case (ll_current_cp st, ll_best st) of
                (Some current_cp, Some best) \<Rightarrow> dict_set current_cp best (ll_latest st)
              | _ \<Rightarrow> ll_latest st)))"

definition active_quotes :: "db \<Rightarrow> uuid \<Rightarrow> RFQQuote list" where
  "active_quotes s i = filter (\<lambda>q. qt_rfq_id q = i \<and> qt_state q = QS_active) (rfq_quotes s)"

definition get_latest_trade_quotes :: "db \<Rightarrow> uuid \<Rightarrow> (uuid \<times> RFQQuote) list result" where
  "get_latest_trade_quotes s i = select_latest_quotes_by_counterparty (active_quotes s i)"

section \<open>Trade ranking\<close>

definition trade_failure :: "RFQ \<Rightarrow> TradeRankingFailureCode \<Rightarrow> string \<Rightarrow> TradeRankingRead" where
  "trade_failure rfq code reason =
     \<lparr>tr_rfq_id = rq_id rfq, tr_status = ''FAILURE'', tr_failure_code = Some code,
      tr_failure_reason = Some (Msg reason []), tr_ranking = []\<rparr>"

text \<open>\<open>sorted(..., reverse=True)\<close> is stable, as is sorting by the negated price.\<close>

definition compute_trade_ranking :: "RFQ \<Rightarrow> (uuid \<times> RFQQuote) list \<Rightarrow> TradeRankingRead" where
  "compute_trade_ranking rfq latest_quotes =
     (if latest_quotes = [] then trade_failure rfq TF_no_eligible_quotes ''Zero eligible quotes''
      else let quotes = map snd latest_quotes;
               canonical_units = map (\<lambda>q. canonicalize_fixed_price_unit (qt_fixed_price_unit q)) quotes
           in if None \<in> set canonical_units then trade_failure rfq TF_non_comparable ''Non-canonical fixed_price_unit''
              else if card (set canonical_units) \<noteq> 1 then trade_failure rfq TF_non_comparable ''fixed_price_unit mismatch''
              else let ordered = sort_key (\<lambda>q. if rq_direction rfq = RD_sell then - qt_fixed_price_value q else qt_fixed_price_value q) quotes;
                       values = map qt_fixed_price_value ordered
                   in if card (set values) \<noteq> length values then trade_failure rfq TF_tie ''Tie detected''
                      else \<lparr>tr_rfq_id = rq_id rfq, tr_status = ''SUCCESS'', tr_failure_code = None, tr_failure_reason = None,
                            tr_ranking = map (\<lambda>(i, q). \<lparr>te_rank = i + 1, te_quote = q\<rparr>) (enumerate 0 ordered)\<rparr>)"

section \<open>Spread ranking\<close>

definition spread_failure :: "RFQ \<Rightarrow> SpreadRankingFailureCode \<Rightarrow> detail \<Rightarrow> SpreadRankingRead" where
  "spread_failure rfq code reason =
     \<lparr>sr_rfq_id = rq_id rfq, sr_status = ''FAILURE'', sr_failure_code = Some code, sr_failure_reason = Some reason,
      sr_direction = None, sr_sort_order = None, sr_ranking = []\<rparr>"

definition get_rfq_row :: "db \<Rightarrow> uuid \<Rightarrow> RFQ option" where
  "get_rfq_row s i = get_row rq_id i (rfqs s)"

text \<open>The loop over the eligible counterparties stops at the first pair of units that cannot be
  compared; its value is either that failure or the list of spreads. Every counterparty of the
  loop has a quote on both sides.\<close>

fun spread_values :: "RFQ \<Rightarrow> (uuid \<times> RFQQuote) list \<Rightarrow> (uuid \<times> RFQQuote) list \<Rightarrow> uuid list
    \<Rightarrow> SpreadRankingRead + (uuid \<times> decimal \<times> RFQQuote \<times> RFQQuote) list" where
  "spread_values rfq buy_latest sell_latest [] = Inr []"
| "spread_values rfq buy_latest sell_latest (cp # cps) =
     (let buy_quote = the (map_of buy_latest cp); sell_quote = the (map_of sell_latest cp)
      in case (canonicalize_fixed_price_unit (qt_fixed_price_unit buy_quote),
               canonicalize_fixed_price_unit (qt_fixed_price_unit sell_quote)) of
           (Some buy_unit, Some sell_unit) \<Rightarrow>
             if buy_unit \<noteq> sell_unit then
               Inl (spread_failure rfq SF_non_comparable (Msg ''fixed_price_unit mismatch between trades'' []))
             else (case spread_values rfq buy_latest sell_latest cps of
                 Inl f \<Rightarrow> Inl f
               | Inr rest \<Rightarrow>
                   Inr ((cp, qt_fixed_price_value sell_quote - qt_fixed_price_value buy_quote, buy_quote, sell_quote) # rest))
         | _ \<Rightarrow> Inl (spread_failure rfq SF_non_comparable (Msg ''Non-canonical fixed_price_unit'' [])))"

definition rank_spreads :: "RFQ \<Rightarrow> (uuid \<times> decimal \<times> RFQQuote \<times> RFQQuote) list \<Rightarrow> SpreadRankingRead" where
  "rank_spreads rfq spreads =
     (let values = map (fst \<circ> snd) spreads
      in if card (set values) \<noteq> length values then spread_failure rfq SF_tie (Msg ''Tie detected'' [])
         else let reverse = (rq_direction rfq = RD_sell);
                  ordered = sort_key (\<lambda>x. if reverse then - fst (snd x) else fst (snd x)) spreads
              in \<lparr>sr_rfq_id = rq_id rfq, sr_status = ''SUCCESS'', sr_failure_code = None, sr_failure_reason = None,
                  sr_direction = Some (rq_direction rfq),
                  sr_sort_order = Some (if reverse then ''max_spread'' else ''min_spread''),
                  sr_ranking = map (\<lambda>(idx, cp, spread_value, buy_quote, sell_quote).
                    \<lparr>sre_rank = idx, sre_counterparty_id = cp, sre_spread_value = spread_value,
                     sre_buy_quote = buy_quote, sre_sell_quote = sell_quote\<rparr>) (enumerate 1 ordered)\<rparr>)"

definition compute_spread_ranking :: "db \<Rightarrow> RFQ \<Rightarrow> SpreadRankingRead result" where
  "compute_spread_ranking s rfq =
     (if rq_intent rfq \<noteq> RI_spread then
        Inr (spread_failure rfq SF_not_spread_intent (Msg ''Ranking is only defined for intent=SPREAD'' []))
      else case (Option.bind (rq_buy_trade_id rfq) (get_rfq_row s), Option.bind (rq_sell_trade_id rfq) (get_rfq_row s)) of
        (Some buy_rfq, Some sell_rfq) \<Rightarrow>
          if rq_commodity buy_rfq \<noteq> rq_commodity sell_rfq then
            Inr (spread_failure rfq SF_non_comparable (Msg ''Trade RFQ commodity mismatch'' []))
          else
            and_then (select_latest_quotes_by_counterparty (active_quotes s (rq_id buy_rfq))) (\<lambda>buy_latest.
            and_then (select_latest_quotes_by_counterparty (active_quotes s (rq_id sell_rfq))) (\<lambda>sell_latest.
            let buy_keys = set (map fst buy_latest); sell_keys = set (map fst sell_latest);
                incomplete = sorted_list_of_set ((buy_keys \<union> sell_keys) - (buy_keys \<inter> sell_keys));
                eligible_counterparties = sorted_list_of_set (buy_keys \<inter> sell_keys)
            in Inr (
               if incomplete \<noteq> [] then
                 spread_failure rfq SF_incomplete_quotes
                   (Msg (if 5 < length incomplete then ''{} counterpart(ies) quoted only one leg: {}...''
                         else ''{} counterpart(ies) quoted only one leg: {}'')
                      (ANat (length incomplete) # map AId (take 5 incomplete)))
               else if eligible_counterparties = [] then
                 spread_failure rfq SF_no_eligible_quotes (Msg ''Zero eligible quotes'' [])
               else (case spread_values rfq buy_latest sell_latest eligible_counterparties of
                   Inl f \<Rightarrow> f
                 | Inr spreads \<Rightarrow> rank_spreads rfq spreads))))
      | _ \<Rightarrow> Inr (spread_failure rfq SF_non_comparable (Msg ''Referenced trade RFQ missing'' [])))"

section \<open>The latest quotes are the latest quotes\<close>

definition is_latest :: "RFQQuote list \<Rightarrow> RFQQuote \<Rightarrow> bool" where
  "is_latest qs q \<longleftrightarrow> q \<in> set qs \<and> (\<forall>q' \<in> set qs. qt_counterparty_id q' = qt_counterparty_id q \<longrightarrow> quote_key q' \<le> quote_key q)"

text \<open>The abstract dictionary: one entry for every counterparty, in order, with its latest quote.\<close>

definition latest_table :: "RFQQuote list \<Rightarrow> (uuid \<times> RFQQuote) list \<Rightarrow> bool" where
  "latest_table qs d \<longleftrightarrow> sorted_wrt (<) (map fst d) \<and> fst ` set d = qt_counterparty_id ` set qs
     \<and> (\<forall>(cp, q) \<in> set d. qt_counterparty_id q = cp \<and> is_latest qs q)"

definition latest_loop_inv :: "RFQQuote list \<Rightarrow> latest_loop \<Rightarrow> bool" where
  "latest_loop_inv xs st \<longleftrightarrow>
     (case ll_current_cp st of
        None \<Rightarrow> xs = [] \<and> ll_best st = None \<and> ll_latest st = []
      | Some cp \<Rightarrow> (\<exists>b. ll_best st = Some b \<and> latest_table xs (ll_latest st @ [(cp, b)])))"

lemma dict_set_fresh: "k \<notin> fst ` set d \<Longrightarrow> dict_set k v d = d @ [(k, v)]"
  by (simp add: dict_set_def)

lemma latest_table_last_fresh: "latest_table xs (d @ [(cp, b)]) \<Longrightarrow> dict_set cp b d = d @ [(cp, b)]"
  by (rule dict_set_fresh) (auto simp: latest_table_def sorted_wrt_append)

lemma is_latest_snoc:
  assumes "is_latest xs q" and "qt_counterparty_id x = qt_counterparty_id q \<Longrightarrow> quote_key x \<le> quote_key q"
  shows "is_latest (xs @ [x]) q"
  using assms by (auto simp: is_latest_def)

lemma latest_step_inv:
  assumes inv: "latest_loop_inv xs st"
    and below: "\<And>y. y \<in> set xs \<Longrightarrow> qt_counterparty_id y < qt_counterparty_id x
      \<or> qt_counterparty_id y = qt_counterparty_id x \<and> quote_key y \<le> quote_key x"
  shows "\<exists>st'. latest_step x st = Inr st' \<and> latest_loop_inv (xs @ [x]) st'"
proof (cases "ll_current_cp st")
  case None
  with inv show ?thesis
    by (simp add: latest_loop_inv_def latest_step_def latest_table_def is_latest_def)
next
  case (Some cp)
  then obtain b where b: "ll_best st = Some b" and tab: "latest_table xs (ll_latest st @ [(cp, b)])"
    using inv by (auto simp: latest_loop_inv_def)
  have bl: "is_latest xs b" "qt_counterparty_id b = cp" "b \<in> set xs"
    using tab by (auto simp: latest_table_def is_latest_def)
  have old: "is_latest xs q" "qt_counterparty_id q = c" "c < cp" if "(c, q) \<in> set (ll_latest st)" for c q
    using tab that by (fastforce simp: latest_table_def sorted_wrt_append)+
  have keys: "insert cp (fst ` set (ll_latest st)) = qt_counterparty_id ` set xs"
    using tab by (auto simp: latest_table_def)
  show ?thesis
  proof (cases "qt_counterparty_id x = cp")
    case True
    define b' where "b' = (if quote_key b < quote_key x then x else b)"
    have "is_latest (xs @ [x]) b'" "qt_counterparty_id b' = cp"
      using below bl True by (auto simp: b'_def is_latest_def not_less)
    moreover have "is_latest (xs @ [x]) q" if "(c, q) \<in> set (ll_latest st)" for c q
      using old[OF that] True by (auto intro: is_latest_snoc)
    moreover have "sorted_wrt (<) (map fst (ll_latest st @ [(cp, b')]))" using tab by (simp add: latest_table_def)
    moreover have "fst ` set (ll_latest st @ [(cp, b')]) = qt_counterparty_id ` set (xs @ [x])" using keys True by auto
    ultimately have "latest_table (xs @ [x]) (ll_latest st @ [(cp, b')])"
      using old(2) by (auto simp: latest_table_def)
    then show ?thesis
      using Some b True by (auto simp: latest_step_def latest_loop_inv_def b'_def)
  next
    case False
    with below[OF bl(3)] bl(2) have less: "cp < qt_counterparty_id x" by simp
    have "is_latest (xs @ [x]) q" if "(c, q) \<in> set (ll_latest st)" for c q
      using old[OF that] less by (intro is_latest_snoc) auto
    moreover have "is_latest (xs @ [x]) b" using bl False by (intro is_latest_snoc) auto
    moreover have "is_latest (xs @ [x]) x" using below by (force simp: is_latest_def)
    moreover have "c < qt_counterparty_id x" if "(c, q) \<in> set (ll_latest st)" for c q
      using old(3)[OF that] less by simp
    moreover have "fst ` set (ll_latest st @ [(cp, b)] @ [(qt_counterparty_id x, x)]) = qt_counterparty_id ` set (xs @ [x])"
      using keys by auto
    moreover have "sorted_wrt (<) (map fst (ll_latest st @ [(cp, b)]))" using tab by (simp add: latest_table_def)
    ultimately have "latest_table (xs @ [x]) (ll_latest st @ [(cp, b)] @ [(qt_counterparty_id x, x)])"
      using old(2) bl(2) less unfolding latest_table_def by (force simp: sorted_wrt_append)
    then show ?thesis
      using Some b False latest_table_last_fresh[OF tab] by (auto simp: latest_step_def latest_loop_inv_def)
  qed
qed

lemma latest_loop_correct:
  assumes "sorted (map (\<lambda>q. (qt_counterparty_id q, quote_key q)) xs)"
  shows "\<exists>st. fold_result latest_step xs \<lparr>ll_latest = [], ll_current_cp = None, ll_best = None\<rparr> = Inr st \<and> latest_loop_inv xs st"
  using assms
proof (induction xs rule: rev_induct)
  case Nil
  then show ?case by (simp add: latest_loop_inv_def)
next
  case (snoc x xs)
  then obtain st where st: "fold_result latest_step xs \<lparr>ll_latest = [], ll_current_cp = None, ll_best = None\<rparr> = Inr st"
    "latest_loop_inv xs st"
    by (auto simp: sorted_append)
  have "\<exists>st'. latest_step x st = Inr st' \<and> latest_loop_inv (xs @ [x]) st'"
    using st(2) by (rule latest_step_inv) (use snoc.prems in \<open>auto simp: sorted_append\<close>)
  with st(1) show ?case by (auto simp: fold_result_append)
qed

lemma latest_table_cong: "set xs = set ys \<Longrightarrow> latest_table xs d = latest_table ys d"
  by (simp add: latest_table_def is_latest_def)

text \<open>The selection loop returns for every list of quotes, never meets its internal error, and
  computes the specification: exactly one entry for every counterparty that quoted, in the order
  of the counterparties, holding the counterparty's latest quote by reception time, creation
  time and identifier.\<close>

lemma select_latest_quotes_correct:
  "\<exists>d. select_latest_quotes_by_counterparty quotes = Inr d \<and> latest_table quotes d"
proof -
  define ordered where "ordered = sort_key (\<lambda>q. (qt_counterparty_id q, quote_key q)) quotes"
  obtain st where st: "fold_result latest_step ordered \<lparr>ll_latest = [], ll_current_cp = None, ll_best = None\<rparr> = Inr st"
    "latest_loop_inv ordered st"
    using latest_loop_correct[of ordered] by (auto simp: ordered_def)
  have same: "latest_table ordered d = latest_table quotes d" for d
    by (rule latest_table_cong) (simp add: ordered_def)
  show ?thesis
  proof (cases "ll_current_cp st")
    case None
    with st have "ordered = []" "ll_latest st = []" by (auto simp: latest_loop_inv_def)
    moreover from this have "quotes = []" by (simp add: ordered_def flip: set_empty)
    ultimately show ?thesis
      using st(1) None by (auto simp: select_latest_quotes_by_counterparty_def latest_table_def simp flip: ordered_def)
  next
    case (Some cp)
    then obtain b where b: "ll_best st = Some b" "latest_table ordered (ll_latest st @ [(cp, b)])"
      using st(2) by (auto simp: latest_loop_inv_def)
    with st(1) Some latest_table_last_fresh[OF b(2)] show ?thesis
      by (auto simp: select_latest_quotes_by_counterparty_def simp flip: ordered_def same)
  qed
qed

section \<open>What a ranking says\<close>

definition price_better :: "RFQ \<Rightarrow> RFQQuote \<Rightarrow> RFQQuote \<Rightarrow> bool" where
  "price_better rfq a b \<longleftrightarrow>
     (if rq_direction rfq = RD_sell then qt_fixed_price_value b < qt_fixed_price_value a
      else qt_fixed_price_value a < qt_fixed_price_value b)"

definition rankable :: "RFQQuote list \<Rightarrow> bool" where
  "rankable qs \<longleftrightarrow> qs \<noteq> [] \<and> distinct (map qt_fixed_price_value qs)
     \<and> list_all (\<lambda>q. canonicalize_fixed_price_unit (qt_fixed_price_unit q) \<noteq> None) qs"

lemma canonicalize_cases: "canonicalize_fixed_price_unit u = None \<or> canonicalize_fixed_price_unit u = Some ''USD/MT''"
  by (auto simp: canonicalize_fixed_price_unit_def Let_def)

lemma canonical_units_card:
  assumes "qs \<noteq> []" and "None \<notin> set (map f qs)" and "\<And>q. f q = None \<or> f q = Some u"
  shows "card (set (map f qs)) = 1"
proof -
  have "f q = Some u" if "q \<in> set qs" for q
    using assms(2) assms(3)[of q] that by force
  then have "set (map f qs) = {Some u}"
    using assms(1) by (cases qs) auto
  then show ?thesis by simp
qed

lemma map_enumerate_entries:
  "map te_quote (map (\<lambda>(i, q). \<lparr>te_rank = i + 1, te_quote = q\<rparr>) (enumerate n qs)) = qs"
  "map te_rank (map (\<lambda>(i, q). \<lparr>te_rank = i + 1, te_quote = q\<rparr>) (enumerate n qs)) = [Suc n..<Suc n + length qs]"
  by (induction qs arbitrary: n) (auto simp: upt_conv_Cons)

lemma sorted_distinct_better:
  fixes f :: "'a \<Rightarrow> 'b::linorder"
  assumes "distinct (map f xs)"
  shows "sorted_wrt (\<lambda>a b. f a < f b) (sort_key f xs)"
proof -
  have "mset (map f (sort_key f xs)) = mset (map f xs)" by simp
  then have "distinct (map f (sort_key f xs))" using assms mset_eq_imp_distinct_iff by metis
  then have "sorted_wrt (<) (map f (sort_key f xs))" by (simp add: strict_sorted_iff)
  then show ?thesis by (simp add: sorted_wrt_map)
qed

text \<open>A trade ranking succeeds exactly if there are quotes, all in a known unit, and no two of them
  have the same price. Then it contains every quote once, with ranks 1, 2, ..., and strictly
  better prices first: higher for a sale, lower for a purchase.\<close>

lemma trade_ranking_correct:
  "let r = compute_trade_ranking rfq d; qs = map snd d
   in (tr_status r = ''SUCCESS'' \<longleftrightarrow> rankable qs)
      \<and> (if rankable qs
         then mset (map te_quote (tr_ranking r)) = mset qs \<and> sorted_wrt (price_better rfq) (map te_quote (tr_ranking r))
              \<and> map te_rank (tr_ranking r) = [1..<Suc (length qs)]
         else tr_ranking r = [])"
proof -
  define qs where "qs = map snd d"
  define key where "key = (\<lambda>q :: RFQQuote. if rq_direction rfq = RD_sell then - qt_fixed_price_value q else qt_fixed_price_value q)"
  define units where "units = map (\<lambda>q. canonicalize_fixed_price_unit (qt_fixed_price_unit q)) qs"
  have empty: "d = [] \<longleftrightarrow> qs = []" by (simp add: qs_def)
  have one: "qs \<noteq> [] \<Longrightarrow> None \<notin> set units \<Longrightarrow> card (set units) = 1"
    unfolding units_def by (rule canonical_units_card[where u = "''USD/MT''"]) (simp_all add: canonicalize_cases)
  have prices_distinct: "card (set (map qt_fixed_price_value (sort_key key qs))) = length (map qt_fixed_price_value (sort_key key qs))
      \<longleftrightarrow> distinct (map qt_fixed_price_value qs)"
    by (metis card_distinct distinct_card image_set length_map length_sort set_sort)
  have key_distinct: "distinct (map key qs) \<longleftrightarrow> distinct (map qt_fixed_price_value qs)"
    by (auto simp: key_def distinct_map inj_on_def)
  have better: "(\<lambda>a b. key a < key b) = price_better rfq"
    by (intro ext) (simp add: key_def price_better_def)
  have rank: "rankable qs \<longleftrightarrow> qs \<noteq> [] \<and> None \<notin> set units \<and> distinct (map qt_fixed_price_value qs)"
    by (auto simp: rankable_def units_def list_all_iff image_iff not_None_eq[symmetric] simp del: not_None_eq)
  have "compute_trade_ranking rfq d = (if qs = [] then trade_failure rfq TF_no_eligible_quotes ''Zero eligible quotes''
      else if None \<in> set units then trade_failure rfq TF_non_comparable ''Non-canonical fixed_price_unit''
      else if \<not> distinct (map qt_fixed_price_value qs) then trade_failure rfq TF_tie ''Tie detected''
      else \<lparr>tr_rfq_id = rq_id rfq, tr_status = ''SUCCESS'', tr_failure_code = None, tr_failure_reason = None,
            tr_ranking = map (\<lambda>(i, q). \<lparr>te_rank = i + 1, te_quote = q\<rparr>) (enumerate 0 (sort_key key qs))\<rparr>)"
    using one prices_distinct empty unfolding compute_trade_ranking_def Let_def key_def[symmetric] qs_def[symmetric]
      units_def[symmetric] by simp
  moreover have "sorted_wrt (price_better rfq) (sort_key key qs)" if "rankable qs"
    using sorted_distinct_better[of key qs] key_distinct that by (simp add: better rankable_def)
  moreover note entries = map_enumerate_entries[of 0 "sort_key key qs"]
  ultimately show ?thesis
    unfolding Let_def qs_def[symmetric] rank[symmetric]
    by (cases "rankable qs") (use rank in \<open>auto simp: trade_failure_def entries simp del: map_map\<close>)
qed

end
