(* ===== verification/Counterparty_Service.thy ===== *)
theory Counterparty_Service
  imports Order_Service
begin

text \<open>
  \<open>backend/app/services/counterparty_service.py\<close> with its routes in
  \<open>backend/app/api/routes/counterparties.py\<close>, and \<open>backend/app/services/kyc_gate.py\<close>, the check that
  every invitation, quote and award of a request for quote makes on its counterparty.
\<close>

section \<open>Counterparties\<close>

record CounterpartyCreate =
  cc_type :: CounterpartyType
  cc_text :: text_columns
  cc_payment_terms_days :: int
  cc_credit_limit_usd :: "decimal option"
  cc_risk_rating :: RiskRating
  cc_is_active :: bool

text \<open>The fields that were set in an update request; an explicit null is kept apart where the code
  looks at the presence of the key only.\<close>

record CounterpartyUpdate =
  cu_text :: text_columns
  cu_credit_limit_usd :: "decimal option"
  cu_kyc_status :: "KycStatus option option"
  cu_sanctions_status :: "SanctionsStatus option option"
  cu_risk_rating :: "RiskRating option"
  cu_is_active :: "bool option"

definition IDENTITY_FIELDS :: "string list" where
  "IDENTITY_FIELDS = [''name'', ''country'', ''tax_id'']"

definition create_counterparty :: "db \<Rightarrow> datetime \<Rightarrow> CounterpartyCreate \<Rightarrow> db \<times> uuid" where
  "create_counterparty s now data =
     (s\<lparr>counterparties := counterparties s @ [\<lparr>cp_id = next_uuid s, cp_type = cc_type data, cp_text = cc_text data,
          cp_payment_terms_days = Some (if cc_payment_terms_days data = 0 then 30 else cc_payment_terms_days data),
          cp_credit_limit_usd = cc_credit_limit_usd data, cp_kyc_status = KYC_pending,
          cp_sanctions_status = SAN_unscreened, cp_risk_rating = cc_risk_rating data,
          cp_is_active = cc_is_active data, cp_created_at = now, cp_is_deleted = False, cp_deleted_at = None\<rparr>],
        next_uuid := Suc (next_uuid s)\<rparr>, next_uuid s)"

definition get_counterparty_row :: "db \<Rightarrow> uuid \<Rightarrow> Counterparty option" where
  "get_counterparty_row s i = get_row cp_id i (counterparties s)"

definition get_counterparty_by_id :: "db \<Rightarrow> uuid \<Rightarrow> Counterparty option" where
  "get_counterparty_by_id s i =
     (case get_counterparty_row s i of None \<Rightarrow> None | Some cp \<Rightarrow> if cp_is_deleted cp then None else Some cp)"

definition list_counterparties ::
    "db \<Rightarrow> CounterpartyType option \<Rightarrow> KycStatus option \<Rightarrow> bool option \<Rightarrow> Counterparty list" where
  "list_counterparties s type_filter kyc_status_filter is_active_filter =
     filter (\<lambda>cp. \<not> cp_is_deleted cp \<and> (case type_filter of None \<Rightarrow> True | Some t \<Rightarrow> cp_type cp = t)
       \<and> (case kyc_status_filter of None \<Rightarrow> True | Some k \<Rightarrow> cp_kyc_status cp = k)
       \<and> (case is_active_filter of None \<Rightarrow> True | Some a \<Rightarrow> cp_is_active cp = a)) (counterparties s)"

definition write_counterparty :: "uuid \<Rightarrow> (Counterparty \<Rightarrow> Counterparty) \<Rightarrow> db \<Rightarrow> db" where
  "write_counterparty i f s = s\<lparr>counterparties := update_row cp_id i f (counterparties s)\<rparr>"

definition identity_changed :: "Counterparty \<Rightarrow> CounterpartyUpdate \<Rightarrow> bool" where
  "identity_changed cp data \<longleftrightarrow>
     list_ex (\<lambda>key. case cu_text data key of None \<Rightarrow> False | Some v \<Rightarrow> cp_text cp key \<noteq> Some v) IDENTITY_FIELDS"

definition apply_counterparty_update :: "CounterpartyUpdate \<Rightarrow> Counterparty \<Rightarrow> Counterparty" where
  "apply_counterparty_update data cp =
     cp\<lparr>cp_text := (\<lambda>key. case cu_text data key of None \<Rightarrow> cp_text cp key | Some v \<Rightarrow> Some v),
        cp_credit_limit_usd := (case cu_credit_limit_usd data of None \<Rightarrow> cp_credit_limit_usd cp | Some v \<Rightarrow> Some v),
        cp_risk_rating := (case cu_risk_rating data of None \<Rightarrow> cp_risk_rating cp | Some v \<Rightarrow> v),
        cp_is_active := (case cu_is_active data of None \<Rightarrow> cp_is_active cp | Some v \<Rightarrow> v),
        cp_sanctions_status := (if identity_changed cp data then SAN_unscreened else cp_sanctions_status cp),
        cp_kyc_status := (if identity_changed cp data \<and> cp_kyc_status cp = KYC_approved then KYC_pending else cp_kyc_status cp)\<rparr>"

definition update_counterparty :: "db \<Rightarrow> Counterparty \<Rightarrow> CounterpartyUpdate \<Rightarrow> db result" where
  "update_counterparty s cp data =
     and_then (raise_if (cu_kyc_status data \<noteq> None) (http HTTP_403
       ''kyc_status mutations require the dedicated risk_manager transition endpoint'')) (\<lambda>_.
     and_then (raise_if (cu_sanctions_status data \<noteq> None) (http HTTP_403
       ''sanctions_status mutations require the dedicated sanctions screening/adjudication flow'')) (\<lambda>_.
     Inr (write_counterparty (cp_id cp) (apply_counterparty_update data) s)))"

definition set_kyc_status :: "db \<Rightarrow> uuid \<Rightarrow> KycStatus \<Rightarrow> (db \<times> KycStatus) result" where
  "set_kyc_status s i new_status =
     and_then (require (get_counterparty_by_id s i) (http HTTP_404 ''Counterparty not found'')) (\<lambda>cp.
       Inr (write_counterparty i (\<lambda>cp. cp\<lparr>cp_kyc_status := new_status\<rparr>) s, cp_kyc_status cp))"

definition soft_delete_counterparty :: "db \<Rightarrow> datetime \<Rightarrow> Counterparty \<Rightarrow> db" where
  "soft_delete_counterparty s now cp =
     write_counterparty (cp_id cp) (\<lambda>cp. cp\<lparr>cp_is_deleted := True, cp_deleted_at := Some now, cp_is_active := False\<rparr>) s"

definition check_tax_id_unique :: "db \<Rightarrow> string \<Rightarrow> uuid option \<Rightarrow> bool" where
  "check_tax_id_unique s tax_id exclude_id \<longleftrightarrow>
     \<not> list_ex (\<lambda>cp. cp_text cp ''tax_id'' = Some tax_id \<and> \<not> cp_is_deleted cp \<and> Some (cp_id cp) \<noteq> exclude_id) (counterparties s)"

section \<open>Routes\<close>

definition is_trader_only :: "string set \<Rightarrow> bool" where
  "is_trader_only roles \<longleftrightarrow> roles = {''trader''}"

definition post_counterparty :: "db \<Rightarrow> datetime \<Rightarrow> string set \<Rightarrow> CounterpartyCreate \<Rightarrow> (db \<times> uuid) result" where
  "post_counterparty s now roles p =
     and_then (raise_if (''risk_manager'' \<notin> roles) (http HTTP_403 ''Hedge counterparties are risk_manager-only.'')) (\<lambda>_.
     and_then (raise_if (cc_type p \<in> {CT_customer, CT_supplier}) (http HTTP_422
       ''customer/supplier partners are managed via /commercial-partners, not /counterparties (hedge brokers/banks only).'')) (\<lambda>_.
     and_then (raise_if (case cc_text p ''tax_id'' of None \<Rightarrow> False | Some t \<Rightarrow> t \<noteq> [] \<and> \<not> check_tax_id_unique s t None)
       (http HTTP_409 ''tax_id already exists'')) (\<lambda>_.
     Inr (create_counterparty s now p))))"

definition patch_counterparty :: "db \<Rightarrow> string set \<Rightarrow> uuid \<Rightarrow> CounterpartyUpdate \<Rightarrow> db result" where
  "patch_counterparty s roles i data =
     and_then (require (get_counterparty_by_id s i) (http HTTP_404 ''Counterparty not found'')) (\<lambda>cp.
     and_then (raise_if (is_trader_only roles) (http HTTP_404 ''Counterparty not found'')) (\<lambda>_.
     and_then (raise_if (case cu_text data ''tax_id'' of None \<Rightarrow> False | Some t \<Rightarrow> \<not> check_tax_id_unique s t (Some (cp_id cp)))
       (http HTTP_409 ''tax_id already exists'')) (\<lambda>_.
     update_counterparty s cp data)))"

definition delete_counterparty :: "db \<Rightarrow> datetime \<Rightarrow> string set \<Rightarrow> uuid \<Rightarrow> db result" where
  "delete_counterparty s now roles i =
     and_then (require (get_counterparty_by_id s i) (http HTTP_404 ''Counterparty not found'')) (\<lambda>cp.
     and_then (raise_if (is_trader_only roles) (http HTTP_404 ''Counterparty not found'')) (\<lambda>_.
     Inr (soft_delete_counterparty s now cp)))"

section \<open>The gate\<close>

datatype gate_point = GP_rfq_invitation | GP_rfq_quote | GP_rfq_award

fun EVENT_TYPE_BY_GATE :: "gate_point \<Rightarrow> string" where
  "EVENT_TYPE_BY_GATE GP_rfq_invitation = ''rfq_invitation_rejected_kyc_not_approved''"
| "EVENT_TYPE_BY_GATE GP_rfq_quote = ''rfq_quote_rejected_kyc_not_approved''"
| "EVENT_TYPE_BY_GATE GP_rfq_award = ''rfq_award_rejected_kyc_not_approved''"

text \<open>The state is the committed one: the rejection is written on a session of its own and survives
  the rollback of the caller.\<close>

definition assert_kyc_approved ::
    "db \<Rightarrow> uuid \<Rightarrow> gate_point \<Rightarrow> string option \<Rightarrow> uuid option \<Rightarrow> payload \<Rightarrow> db \<times> Counterparty result" where
  "assert_kyc_approved s i gate_point requesting_actor_sub rfq extra_payload =
     (case get_counterparty_by_id s i of
        None \<Rightarrow> (s, Inl (http HTTP_404 ''Counterparty not found''))
      | Some cp \<Rightarrow>
          if cp_kyc_status cp = KYC_approved then (s, Inr cp)
          else (record_audit ''counterparty'' i (EVENT_TYPE_BY_GATE gate_point)
                  ([(''counterparty_id'', Some (AId i)), (''kyc_status_observed'', Some (AStr (kyc_value (cp_kyc_status cp)))),
                    (''requesting_actor_sub'', map_option AStr requesting_actor_sub),
                    (''rfq_id'', map_option AId rfq)] @ extra_payload) s,
                Inl (HTTPException HTTP_422 (Msg (EVENT_TYPE_BY_GATE gate_point)
                  [AId i, AStr (kyc_value (cp_kyc_status cp))]))))"

lemma assert_kyc_cases:
  assumes "assert_kyc_approved s i gp actor rfq extra = (s', r)"
  obtains (approved) cp where "s' = s" "r = Inr cp" "get_counterparty_row s i = Some cp" "\<not> cp_is_deleted cp" "cp_kyc_status cp = KYC_approved"
  | (refused) e where "r = Inl e" "s' = s"
  | (recorded) e ev p where "r = Inl e" "s' = record_audit ''counterparty'' i ev p s"
  using assms by (auto simp: assert_kyc_approved_def get_counterparty_by_id_def split: option.splits if_splits)

section \<open>Approval and identity\<close>

text \<open>The writes of the counterparty service; \<open>other\<close> is everything that leaves the table alone.\<close>

datatype cp_op = Op_approve uuid | Op_plain

inductive cp_step :: "db \<Rightarrow> cp_op \<Rightarrow> db \<Rightarrow> bool" where
  posted: "post_counterparty s now roles p = Inr (s', i) \<Longrightarrow> cp_step s Op_plain s'"
| patched: "patch_counterparty s roles i data = Inr s' \<Longrightarrow> cp_step s Op_plain s'"
| deleted: "delete_counterparty s now roles i = Inr s' \<Longrightarrow> cp_step s Op_plain s'"
| transitioned: "set_kyc_status s i k = Inr (s', old) \<Longrightarrow> cp_step s (if k = KYC_approved then Op_approve i else Op_plain) s'"
| other: "counterparties s' = counterparties s \<Longrightarrow> next_uuid s \<le> next_uuid s' \<Longrightarrow> cp_step s Op_plain s'"

definition counterparties_wf :: "db \<Rightarrow> bool" where
  "counterparties_wf s \<longleftrightarrow> keyed cp_id (counterparties s) \<and> (\<forall>cp \<in> set (counterparties s). cp_id cp < next_uuid s)"

definition same_identity :: "Counterparty \<Rightarrow> Counterparty \<Rightarrow> bool" where
  "same_identity cp cp' \<longleftrightarrow> list_all (\<lambda>key. cp_text cp' key = cp_text cp key) IDENTITY_FIELDS"

lemma apply_update_pins:
  assumes "cp_kyc_status (apply_counterparty_update data cp) = KYC_approved"
  shows "cp_kyc_status cp = KYC_approved \<and> same_identity cp (apply_counterparty_update data cp)"
proof -
  have no: "\<not> identity_changed cp data" "cp_kyc_status cp = KYC_approved"
    using assms by (auto simp: apply_counterparty_update_def split: if_splits)
  then show ?thesis
    by (auto simp: same_identity_def identity_changed_def apply_counterparty_update_def list_ex_iff list_all_iff split: option.split)
qed

lemma apply_update_id [simp]: "cp_id (apply_counterparty_update data cp) = cp_id cp"
  by (simp add: apply_counterparty_update_def)

lemma same_identity_refl [simp]: "same_identity cp cp"
  by (simp add: same_identity_def list_all_iff)

text \<open>What a write by key does to the approved rows.\<close>

lemma write_counterparty_pins:
  assumes "\<And>cp. cp_id (f cp) = cp_id cp"
    and "\<And>cp. cp_kyc_status (f cp) = KYC_approved \<Longrightarrow> cp_kyc_status cp = KYC_approved \<and> same_identity cp (f cp)"
    and "get_counterparty_row (write_counterparty i f s) j = Some cp'" and "cp_kyc_status cp' = KYC_approved"
  shows "\<exists>cp. get_counterparty_row s j = Some cp \<and> cp_kyc_status cp = KYC_approved \<and> same_identity cp cp'"
proof (cases "j = i")
  case True
  then obtain cp where "get_counterparty_row s j = Some cp" "cp' = f cp"
    using assms(1,3) by (auto simp: get_counterparty_row_def write_counterparty_def table_simps)
  with assms(2,4) show ?thesis by blast
next
  case False
  then have "get_counterparty_row s j = Some cp'"
    using assms(1,3) by (simp add: get_counterparty_row_def write_counterparty_def table_simps)
  with assms(4) show ?thesis by auto
qed

lemma write_counterparty_wf:
  assumes "counterparties_wf s" and "\<And>cp. cp_id (f cp) = cp_id cp"
  shows "counterparties_wf (write_counterparty i f s)"
  using assms keyed_update_row[of cp_id f i "counterparties s"]
  by (simp add: counterparties_wf_def write_counterparty_def) (auto simp: update_row_def)

lemma cp_step_wf:
  assumes "cp_step s op s'" and "counterparties_wf s"
  shows "counterparties_wf s'"
  using assms
proof cases
  case posted
  with assms(2) show ?thesis
    by (fastforce simp: post_counterparty_def create_counterparty_def counterparties_wf_def keyed_snoc)
next
  case patched
  with assms(2) show ?thesis
    by (auto simp: patch_counterparty_def update_counterparty_def intro: write_counterparty_wf)
next
  case deleted
  with assms(2) show ?thesis
    by (auto simp: delete_counterparty_def soft_delete_counterparty_def intro: write_counterparty_wf)
next
  case transitioned
  with assms(2) show ?thesis
    by (auto simp: set_kyc_status_def intro: write_counterparty_wf)
next
  case other
  with assms(2) show ?thesis
    by (fastforce simp: counterparties_wf_def)
qed

lemma cp_step_pins:
  assumes "cp_step s op s'" and "counterparties_wf s" and "op \<noteq> Op_approve i"
    and "get_counterparty_row s' i = Some cp'" and "cp_kyc_status cp' = KYC_approved"
  shows "\<exists>cp. get_counterparty_row s i = Some cp \<and> cp_kyc_status cp = KYC_approved \<and> same_identity cp cp'"
  using assms(1)
proof cases
  case (posted now roles p j)
  then have "get_counterparty_row s i = Some cp'"
    using assms(4,5) by (auto simp: post_counterparty_def create_counterparty_def get_counterparty_row_def get_row_append
        split: option.splits if_splits)
  with assms(5) show ?thesis by auto
next
  case (patched roles j data)
  then obtain k where "s' = write_counterparty k (apply_counterparty_update data) s"
    by (auto simp: patch_counterparty_def update_counterparty_def)
  with assms(4,5) show ?thesis
    using write_counterparty_pins[of "apply_counterparty_update data" k s i cp'] apply_update_pins by auto
next
  case (deleted now roles j)
  then obtain k where "s' = write_counterparty k (\<lambda>cp. cp\<lparr>cp_is_deleted := True, cp_deleted_at := Some now, cp_is_active := False\<rparr>) s"
    by (auto simp: delete_counterparty_def soft_delete_counterparty_def)
  with assms(4,5) show ?thesis
    using write_counterparty_pins[of "\<lambda>cp. cp\<lparr>cp_is_deleted := True, cp_deleted_at := Some now, cp_is_active := False\<rparr>" k s i cp']
    by (auto simp: same_identity_def list_all_iff)
next
  case (transitioned j k old)
  then have s': "s' = write_counterparty j (\<lambda>cp. cp\<lparr>cp_kyc_status := k\<rparr>) s" by (auto simp: set_kyc_status_def)
  show ?thesis
  proof (cases "j = i")
    case True
    with assms(3-5) transitioned show ?thesis
      by (auto simp: s' get_counterparty_row_def write_counterparty_def table_simps split: if_splits)
  next
    case False
    then have "get_counterparty_row s i = Some cp'"
      using assms(4) by (simp add: s' get_counterparty_row_def write_counterparty_def table_simps)
    with assms(5) show ?thesis by auto
  qed
next
  case other
  with assms(4,5) show ?thesis by (auto simp: get_counterparty_row_def)
qed

inductive cp_run :: "db \<Rightarrow> cp_op list \<Rightarrow> db \<Rightarrow> bool" where
  cp_run_refl: "cp_run s [] s"
| cp_run_step: "cp_run s ops t \<Longrightarrow> cp_step t op u \<Longrightarrow> cp_run s (ops @ [op]) u"

text \<open>An approval is for an identity. If the gate admits a counterparty after a run in which
  nobody approved it, then it was approved before the run, under the name, country and tax
  identifier it has now: no edit carries an approval over to another identity.\<close>

theorem kyc_approval_pins_identity:
  assumes "cp_run s ops s'" and "counterparties_wf s" and "Op_approve i \<notin> set ops"
    and "assert_kyc_approved s' i gp actor rfq extra = (s'', Inr cp')"
  shows "\<exists>cp. get_counterparty_row s i = Some cp \<and> cp_kyc_status cp = KYC_approved \<and> same_identity cp cp'"
proof -
  have wf: "counterparties_wf s'" and pins: "get_counterparty_row s' i = Some c \<Longrightarrow> cp_kyc_status c = KYC_approved \<Longrightarrow>
      \<exists>cp. get_counterparty_row s i = Some cp \<and> cp_kyc_status cp = KYC_approved \<and> same_identity cp c" for c
    using assms(1-3)
  proof (induction arbitrary: c rule: cp_run.induct)
    case (cp_run_refl s)
    { case 1 then show ?case by simp next case 2 then show ?case by auto }
  next
    case (cp_run_step s ops t op u)
    { case 1 then show ?case using cp_run_step cp_step_wf by simp
    next
      case 2
      then obtain c1 where c1: "get_counterparty_row t i = Some c1" "cp_kyc_status c1 = KYC_approved" "same_identity c1 c"
        using cp_step_pins[OF cp_run_step.hyps(2), of i c] cp_run_step.IH(1) by auto
      then obtain cp where "get_counterparty_row s i = Some cp" "cp_kyc_status cp = KYC_approved" "same_identity cp c1"
        using cp_run_step.IH(2)[of c1] 2 by auto
      with c1(3) show ?case by (auto simp: same_identity_def list_all_iff) }
  qed
  from assms(4) show ?thesis
    by (cases rule: assert_kyc_cases) (use pins in auto)
qed

definition sample_counterparty :: "uuid \<Rightarrow> Counterparty" where
  "sample_counterparty i = \<lparr>cp_id = i, cp_type = CT_broker,
     cp_text = map_of [(''name'', ''Broker''), (''whatsapp_phone'', ''+5511'')], cp_payment_terms_days = Some 30,
     cp_credit_limit_usd = None, cp_kyc_status = KYC_approved, cp_sanctions_status = SAN_clear,
     cp_risk_rating = RISK_low, cp_is_active = True, cp_created_at = 0, cp_is_deleted = False, cp_deleted_at = None\<rparr>"

definition city_edit :: CounterpartyUpdate where
  "city_edit = \<lparr>cu_text = map_of [(''city'', ''Rio'')], cu_credit_limit_usd = None, cu_kyc_status = None,
     cu_sanctions_status = None, cu_risk_rating = None, cu_is_active = None\<rparr>"

definition broker_db :: db where
  "broker_db = empty_db\<lparr>counterparties := [sample_counterparty 0], next_uuid := 5\<rparr>"

theorem kyc_approval_pins_identity_witness:
  "\<exists>s' s'' cp'. patch_counterparty broker_db {''risk_manager''} 0 city_edit = Inr s'
     \<and> assert_kyc_approved s' 0 GP_rfq_quote None None [] = (s'', Inr cp')
     \<and> same_identity (sample_counterparty 0) cp'"
proof -
  define s' where "s' = write_counterparty 0 (apply_counterparty_update city_edit) broker_db"
  have p: "patch_counterparty broker_db {''risk_manager''} 0 city_edit = Inr s'"
    by (simp add: patch_counterparty_def get_counterparty_by_id_def get_counterparty_row_def broker_db_def sample_counterparty_def
        is_trader_only_def city_edit_def update_counterparty_def s'_def)
  have g: "assert_kyc_approved s' 0 GP_rfq_quote None None [] = (s', Inr (apply_counterparty_update city_edit (sample_counterparty 0)))"
    by (simp add: assert_kyc_approved_def get_counterparty_by_id_def get_counterparty_row_def s'_def write_counterparty_def
        broker_db_def apply_counterparty_update_def identity_changed_def IDENTITY_FIELDS_def city_edit_def sample_counterparty_def)
  have run: "cp_run broker_db ([] @ [Op_plain]) s'"
    by (rule cp_run_step[OF cp_run_refl cp_step.patched[OF p]])
  have wf: "counterparties_wf broker_db"
    by (simp add: counterparties_wf_def keyed_def broker_db_def sample_counterparty_def)
  have "get_counterparty_row broker_db 0 = Some (sample_counterparty 0)"
    by (simp add: get_counterparty_row_def broker_db_def sample_counterparty_def)
  with kyc_approval_pins_identity[OF run wf _ g] have "same_identity (sample_counterparty 0) (apply_counterparty_update city_edit (sample_counterparty 0))"
    by simp
  with p g show ?thesis by blast
qed

end
