(* ===== verification/RFQ_Service.thy ===== *)
theory RFQ_Service
  imports RFQ_Ranking Counterparty_Service Exposure_Service
begin

text \<open>
  \<open>backend/app/services/rfq_service.py\<close>: the life of a request for quote, from its creation and the
  invitations to the award that books hedge contracts. Sending a WhatsApp message is a
  parameter, \<open>send\<close>; what reached the wire is part of the result. The operations commit in the
  middle (the outbox row before the message is sent), and a refused counterparty leaves an audit
  event behind, so an operation returns the committed state together with its result. The texts
  of messages are UTF-8 bytes. One clock reading stands for all of an operation.
\<close>

section \<open>Transactions\<close>

text \<open>A step that may raise, with the state that is committed if it does, and what follows.\<close>

definition txn_then :: "db \<times> 'a result \<Rightarrow> ('a \<Rightarrow> db \<times> 'b result) \<Rightarrow> db \<times> 'b result" where
  "txn_then p f = (case p of (c, Inl e) \<Rightarrow> (c, Inl e) | (c, Inr x) \<Rightarrow> f x)"

text \<open>\<open>audit_checkpoint\<close>: the audit event that a route adds to the next commit.\<close>

type_synonym audit_checkpoint = "(string \<times> string \<times> payload) option"

definition run_checkpoint :: "audit_checkpoint \<Rightarrow> uuid \<Rightarrow> db \<Rightarrow> db" where
  "run_checkpoint ck entity_id s =
     (case ck of None \<Rightarrow> s | Some (entity_type, event_type, p) \<Rightarrow> record_audit entity_type entity_id event_type p s)"

section \<open>Texts\<close>

definition hex_digit :: "nat \<Rightarrow> char" where
  "hex_digit n = ''0123456789abcdef'' ! (n mod 16)"

definition str_uuid :: "uuid \<Rightarrow> string" where
  "str_uuid n = (let h = map (\<lambda>i. hex_digit (n div 16 ^ i)) (rev [0..<32])
     in take 8 h @ ''-'' @ take 4 (drop 8 h) @ ''-'' @ take 4 (drop 12 h) @ ''-'' @ take 4 (drop 16 h) @ ''-'' @ drop 20 h)"

fun nat_digits :: "nat \<Rightarrow> string" where
  "nat_digits n = (if n < 10 then [digit n] else nat_digits (n div 10) @ [digit n])"

declare nat_digits.simps [simp del]

definition zero_pad :: "nat \<Rightarrow> string \<Rightarrow> string" where
  "zero_pad w t = replicate (w - length t) CHR ''0'' @ t"

fun direction_value :: "RFQDirection \<Rightarrow> string" where
  "direction_value RD_buy = ''BUY''"
| "direction_value RD_sell = ''SELL''"

definition text_of :: "Counterparty \<Rightarrow> string \<Rightarrow> string option" where
  "text_of cp column = (case cp_text cp column of Some [] \<Rightarrow> None | v \<Rightarrow> v)"

definition truthy :: "string option \<Rightarrow> string option" where
  "truthy v = (case v of Some [] \<Rightarrow> None | _ \<Rightarrow> v)"

datatype action = Act_refresh | Act_reject | Act_contract

text \<open>The Portuguese texts contain the letters c-cedilla, a-tilde and u-acute.\<close>

fun DEFAULT_MESSAGES :: "action \<Rightarrow> string \<times> string" where
  "DEFAULT_MESSAGES Act_refresh = (''Atualize o pre'' @ [CHR 0xC3, CHR 0xA7] @ ''o por favor'', ''Refresh, please'')"
| "DEFAULT_MESSAGES Act_reject =
     (''Fechamos aqui, muito obrigado pela cota'' @ [CHR 0xC3, CHR 0xA7, CHR 0xC3, CHR 0xA3] @ ''o'', ''Closed here, thanks for the quote'')"
| "DEFAULT_MESSAGES Act_contract = (''Fechado no '' @ [CHR 0xC3, CHR 0xBA] @ ''ltimo pre'' @ [CHR 0xC3, CHR 0xA7] @ ''o'', ''Book in the last price'')"

definition pick_action_message :: "Counterparty option \<Rightarrow> action \<Rightarrow> string" where
  "pick_action_message cp act =
     (let (pt, en) = DEFAULT_MESSAGES act
      in case cp of None \<Rightarrow> en | Some c \<Rightarrow> if cp_type c = CT_bank_br then pt else en)"

text \<open>The separator is a space, an em dash and a space.\<close>

definition prefix_with_canonical_id :: "string \<Rightarrow> string \<Rightarrow> string" where
  "prefix_with_canonical_id body rfq_number =
     (let canonical = ''RFQ#'' @ rfq_number
      in if starts_with canonical (lstrip body) then body
         else canonical @ '' '' @ [CHR 0xE2, CHR 0x80, CHR 0x94] @ '' '' @ body)"

section \<open>Rows\<close>

definition get_rfq :: "db \<Rightarrow> uuid \<Rightarrow> RFQ result" where
  "get_rfq s i = require (get_rfq_row s i) (http HTTP_404 ''RFQ not found'')"

definition get_live :: "db \<Rightarrow> uuid \<Rightarrow> RFQ result" where
  "get_live s i =
     and_then (get_rfq s i) (\<lambda>rfq.
     and_then (raise_if (rq_deleted_at rfq \<noteq> None) (http HTTP_409 ''RFQ is archived'')) (\<lambda>_. Inr rfq))"

definition write_rfq :: "uuid \<Rightarrow> (RFQ \<Rightarrow> RFQ) \<Rightarrow> db \<Rightarrow> db" where
  "write_rfq i f s = s\<lparr>rfqs := update_row rq_id i f (rfqs s)\<rparr>"

definition state_event :: "uuid \<Rightarrow> RFQState \<Rightarrow> RFQState \<Rightarrow> datetime \<Rightarrow> RFQStateEvent" where
  "state_event i from_state to_state now =
     \<lparr>re_id = 0, re_rfq_id = i, re_from_state = from_state, re_to_state = to_state, re_trigger = None,
      re_triggering_quote_id = None, re_triggering_counterparty_id = None, re_event_timestamp = now, re_user_id = None,
      re_reason = None, re_ranking_snapshot = None, re_winning_quote_ids = None, re_winning_counterparty_ids = None,
      re_award_timestamp = None, re_created_contract_ids = None\<rparr>"

definition add_event :: "RFQStateEvent \<Rightarrow> db \<Rightarrow> db" where
  "add_event e s = s\<lparr>rfq_state_events := rfq_state_events s @ [e\<lparr>re_id := next_uuid s\<rparr>], next_uuid := Suc (next_uuid s)\<rparr>"

definition get_invitations :: "db \<Rightarrow> uuid \<Rightarrow> RFQInvitation list" where
  "get_invitations s i = sort_key inv_created_at (filter (\<lambda>inv. inv_rfq_id inv = i) (rfq_invitations s))"

section \<open>Messages\<close>

record WhatsAppSendResult =
  ws_success :: bool
  ws_provider_message_id :: "string option"
  ws_error_code :: "string option"
  ws_error_message :: "string option"

type_synonym sender = "string \<Rightarrow> string \<Rightarrow> WhatsAppSendResult"
type_synonym wire = "(string \<times> string) list"

definition str_or_none :: "string option \<Rightarrow> arg" where
  "str_or_none v = AStr (case v of None \<Rightarrow> ''None'' | Some t \<Rightarrow> t)"

definition after_send :: "WhatsAppSendResult \<Rightarrow> datetime \<Rightarrow> RFQInvitation \<Rightarrow> RFQInvitation" where
  "after_send result now row =
     (if ws_success result then
        row\<lparr>inv_send_status := IS_sent, inv_sent_at := Some now,
            inv_provider_message_id := Some (case ws_provider_message_id result of None \<Rightarrow> [] | Some m \<Rightarrow> m)\<rparr>
      else
        row\<lparr>inv_send_status := IS_failed,
            inv_failure_reason := Some (if truthy (ws_error_code result) \<noteq> None \<or> truthy (ws_error_message result) \<noteq> None
              then Msg ''{}: {}'' [str_or_none (ws_error_code result), str_or_none (ws_error_message result)]
              else Msg ''send_failed'' [])\<rparr>)"

definition send_row :: "sender \<Rightarrow> datetime \<Rightarrow> RFQInvitation \<Rightarrow> db \<times> wire \<Rightarrow> db \<times> wire" where
  "send_row send now row st =
     (let (s, sent) = st; phone = inv_recipient_phone row; body = inv_message_body row
      in (s\<lparr>rfq_invitations := update_row inv_id (inv_id row) (after_send (send phone body) now) (rfq_invitations s)\<rparr>,
          sent @ [(phone, body)]))"

definition queued_row ::
    "uuid \<Rightarrow> RFQ \<Rightarrow> uuid \<Rightarrow> string \<Rightarrow> string \<Rightarrow> string \<Rightarrow> RFQInvitationPurpose \<Rightarrow> detail \<Rightarrow> datetime \<Rightarrow> RFQInvitation" where
  "queued_row i rfq cpid recipient_name phone message_body purpose idem_key now =
     \<lparr>inv_id = i, inv_rfq_id = rq_id rfq, inv_rfq_number = rq_rfq_number rfq, inv_counterparty_id = cpid,
      inv_recipient_name = recipient_name, inv_recipient_phone = phone, inv_channel = RC_whatsapp,
      inv_message_body = message_body, inv_provider_message_id = None, inv_send_status = IS_queued,
      inv_purpose = purpose, inv_sent_at = None, inv_failure_reason = None, inv_idempotency_key = idem_key,
      inv_created_at = now\<rparr>"

definition recipient_name_of :: "Counterparty \<Rightarrow> string" where
  "recipient_name_of cp = (case text_of cp ''short_name'' of Some n \<Rightarrow> n
     | None \<Rightarrow> (case cp_text cp ''name'' of Some n \<Rightarrow> n | None \<Rightarrow> []))"

section \<open>Creation\<close>

record RFQCreate =
  rc_intent :: RFQIntent
  rc_commodity :: string
  rc_quantity_mt :: decimal
  rc_delivery_window_start :: date
  rc_delivery_window_end :: date
  rc_direction :: RFQDirection
  rc_order_id :: "uuid option"
  rc_buy_trade_id :: "uuid option"
  rc_sell_trade_id :: "uuid option"
  rc_invitations :: "uuid list"
  rc_text_en :: "string option"
  rc_text_pt :: "string option"

text \<open>The schema: three decimal places, and the fields each intent needs.\<close>

definition validate_intent :: "RFQCreate \<Rightarrow> unit result" where
  "validate_intent p =
     and_then (raise_if (quantize_mt (rc_quantity_mt p) \<noteq> rc_quantity_mt p) (ValueError (Msg ''decimal_places'' [ADec (rc_quantity_mt p)]))) (\<lambda>_.
     and_then (raise_if (rc_quantity_mt p \<le> 0) (ValueError (Msg ''quantity_mt must be greater than zero'' []))) (\<lambda>_.
     case rc_intent p of
       RI_commercial_hedge \<Rightarrow> raise_if (rc_order_id p = None) (ValueError (Msg ''order_id is required for COMMERCIAL_HEDGE'' []))
     | RI_global_position \<Rightarrow> raise_if (rc_order_id p \<noteq> None) (ValueError (Msg ''order_id must be empty for GLOBAL_POSITION'' []))
     | RI_spread \<Rightarrow>
         and_then (raise_if (rc_order_id p \<noteq> None) (ValueError (Msg ''order_id must be empty for SPREAD'' []))) (\<lambda>_.
         and_then (raise_if (rc_buy_trade_id p = None \<or> rc_sell_trade_id p = None)
           (ValueError (Msg ''buy_trade_id and sell_trade_id are required for SPREAD'' []))) (\<lambda>_.
         raise_if (rc_buy_trade_id p = rc_sell_trade_id p)
           (ValueError (Msg ''buy_trade_id and sell_trade_id must be different'' []))))))"

text \<open>A later row of the snapshot replaces an earlier one of the same canonical commodity.\<close>

definition snapshot_for :: "CommercialExposureRead list \<Rightarrow> datetime \<Rightarrow> string \<Rightarrow> CommercialExposureRead" where
  "snapshot_for snapshot_rows now commodity =
     (let canonical = canonical_commodity commodity
      in case find (\<lambda>row. canonical_commodity (cer_commodity row) = canonical) (rev snapshot_rows) of
           Some row \<Rightarrow> row
         | None \<Rightarrow> \<lparr>cer_commodity = (if canonical = [] then commodity else canonical),
             cer_pre_reduction_commercial_active_mt = 0, cer_pre_reduction_commercial_passive_mt = 0,
             cer_reduction_applied_active_mt = 0, cer_reduction_applied_passive_mt = 0,
             cer_commercial_active_mt = 0, cer_commercial_passive_mt = 0, cer_commercial_net_mt = 0,
             cer_calculation_timestamp = now, cer_order_count_considered = 0\<rparr>)"

definition check_commercial_hedge :: "db \<Rightarrow> CommercialExposureRead list \<Rightarrow> datetime \<Rightarrow> RFQCreate \<Rightarrow> CommercialExposureRead result" where
  "check_commercial_hedge s snapshot_rows now p =
     and_then (require (Option.bind (rc_order_id p) (get_order s)) (http HTTP_404 ''Order not found'')) (\<lambda>order.
     and_then (raise_if (ord_price_type order \<noteq> PT_variable) (http HTTP_400 ''Order must be variable-price'')) (\<lambda>_.
     and_then (raise_if (rc_direction p \<noteq> (if ord_order_type order = OT_sales then RD_sell else RD_buy))
       (http HTTP_400 ''RFQ direction mismatch for order type'')) (\<lambda>_.
     and_then (raise_if (canonical_commodity (rc_commodity p) \<noteq> canonical_commodity (ord_commodity order))
       (http HTTP_400 ''RFQ commodity must match order commodity for COMMERCIAL_HEDGE'')) (\<lambda>_.
     let snapshot = snapshot_for snapshot_rows now (ord_commodity order);
         residual_side = (if ord_order_type order = OT_sales then quantize_mt (cer_commercial_active_mt snapshot)
                          else quantize_mt (cer_commercial_passive_mt snapshot))
     in and_then (raise_if (residual_side < quantize_mt (rc_quantity_mt p))
          (http HTTP_400 ''RFQ quantity exceeds residual exposure'')) (\<lambda>_. Inr snapshot)))))"

definition check_spread_trades :: "db \<Rightarrow> RFQCreate \<Rightarrow> unit result" where
  "check_spread_trades s p =
     (case (Option.bind (rc_buy_trade_id p) (get_rfq_row s), Option.bind (rc_sell_trade_id p) (get_rfq_row s)) of
        (Some buy_trade_rfq, Some sell_trade_rfq) \<Rightarrow>
          raise_if (rq_intent buy_trade_rfq = RI_spread \<or> rq_intent sell_trade_rfq = RI_spread)
            (http HTTP_400 ''Referenced trade RFQ cannot be SPREAD'')
      | _ \<Rightarrow> Inl (http HTTP_400 ''Referenced trade RFQ not found''))"

definition new_rfq :: "uuid \<Rightarrow> nat \<Rightarrow> datetime \<Rightarrow> date \<Rightarrow> RFQCreate \<Rightarrow> CommercialExposureRead \<Rightarrow> RFQ" where
  "new_rfq i seq now today p snapshot =
     (let post_active = quantize_mt (cer_commercial_active_mt snapshot);
          post_passive = quantize_mt (cer_commercial_passive_mt snapshot);
          pre_active = quantize_mt (cer_pre_reduction_commercial_active_mt snapshot)
      in \<lparr>rq_id = i, rq_rfq_number = ''RFQ-'' @ nat_digits (d_year today) @ ''-'' @ zero_pad 6 (nat_digits seq),
          rq_intent = rc_intent p, rq_commodity = rc_commodity p, rq_quantity_mt = rc_quantity_mt p,
          rq_delivery_window_start = rc_delivery_window_start p, rq_delivery_window_end = rc_delivery_window_end p,
          rq_direction = rc_direction p, rq_order_id = rc_order_id p, rq_buy_trade_id = rc_buy_trade_id p,
          rq_sell_trade_id = rc_sell_trade_id p, rq_commercial_active_mt = post_active,
          rq_commercial_passive_mt = post_passive, rq_commercial_net_mt = post_active - post_passive,
          rq_commercial_reduction_applied_mt = pre_active - post_active,
          rq_exposure_snapshot_timestamp = cer_calculation_timestamp snapshot, rq_state = RS_created,
          rq_text_en = rc_text_en p, rq_text_pt = rc_text_pt p, rq_created_at = now, rq_deleted_at = None\<rparr>)"

text \<open>\<open>show_dec\<close> is the text of a decimal, which depends on trailing zeros the exact value does not have.\<close>

definition invitation_body :: "(decimal \<Rightarrow> string) \<Rightarrow> RFQ \<Rightarrow> Counterparty \<Rightarrow> string" where
  "invitation_body show_dec rfq cp =
     (let fallback_body = rq_commodity rfq @ '' '' @ show_dec (rq_quantity_mt rfq) @ ''MT '' @ direction_value (rq_direction rfq);
          raw_body = (case (if cp_type cp = CT_bank_br then truthy (rq_text_pt rfq) else None) of
              Some t \<Rightarrow> t
            | None \<Rightarrow> (case truthy (rq_text_en rfq) of Some t \<Rightarrow> t | None \<Rightarrow> fallback_body))
      in prefix_with_canonical_id raw_body (rq_rfq_number rfq))"

text \<open>Phase 1: one queued row for each invited counterparty; the state is the committed one. The
  column \<open>idempotency_key\<close> has no unique constraint (\<open>models/rfqs.py\<close>), so a counterparty that is
  invited twice gets two rows with one key.\<close>

fun queue_invitations ::
    "(decimal \<Rightarrow> string) \<Rightarrow> db \<Rightarrow> datetime \<Rightarrow> string \<Rightarrow> RFQ \<Rightarrow> uuid list \<Rightarrow> RFQInvitation list \<Rightarrow> db \<times> RFQInvitation list result" where
  "queue_invitations show_dec s now actor rfq [] rows = (s, Inr rows)"
| "queue_invitations show_dec s now actor rfq (cpid # cpids) rows =
     txn_then (s, require (get_counterparty_row s cpid) (HTTPException HTTP_404 (Msg ''Counterparty {} not found'' [AId cpid]))) (\<lambda>cp.
     txn_then (assert_kyc_approved s cpid GP_rfq_invitation (Some actor) (Some (rq_id rfq))
         [(''attempted_purpose'', Some (AStr ''rfq_invite''))]) (\<lambda>_.
     txn_then (s, require (text_of cp ''whatsapp_phone'') (HTTPException HTTP_400
         (Msg ''Counterparty {} has no WhatsApp phone number'' [str_or_none (cp_text cp ''name'')]))) (\<lambda>phone.
     queue_invitations show_dec s now actor rfq cpids
       (rows @ [queued_row (Suc (rq_id rfq) + length rows) rfq cpid (recipient_name_of cp) phone
          (invitation_body show_dec rfq cp) IP_rfq_invite (Msg ''{}:{}'' [AStr (rq_rfq_number rfq), AId cpid]) now]))))"

definition create_phase1 ::
    "(decimal \<Rightarrow> string) \<Rightarrow> audit_checkpoint \<Rightarrow> db \<Rightarrow> datetime \<Rightarrow> date \<Rightarrow> RFQCreate \<Rightarrow> string
       \<Rightarrow> db \<times> (RFQ \<times> RFQInvitation list) result" where
  "create_phase1 show_dec ck s now today p actor =
     txn_then (s, compute_commercial_snapshot s now) (\<lambda>snapshot_rows.
     txn_then (s, if rc_intent p = RI_commercial_hedge then check_commercial_hedge s snapshot_rows now p
                  else Inr (snapshot_for snapshot_rows now (rc_commodity p))) (\<lambda>snapshot.
     txn_then (s, if rc_intent p = RI_spread then check_spread_trades s p else Inr ()) (\<lambda>_.
     let seq = Suc (rfq_sequence s); rfq = new_rfq (next_uuid s) seq now today p snapshot
     in txn_then (queue_invitations show_dec s now actor rfq (rc_invitations p) []) (\<lambda>rows.
        (run_checkpoint ck (rq_id rfq)
           (s\<lparr>rfqs := rfqs s @ [rfq], rfq_invitations := rfq_invitations s @ rows, rfq_sequence := seq,
              next_uuid := Suc (next_uuid s) + length rows\<rparr>), Inr (rfq, rows))))))"

text \<open>Phase 2: the messages are sent, then the state is SENT if any of them went out.\<close>

definition mark_sent :: "datetime \<Rightarrow> string \<Rightarrow> uuid \<Rightarrow> db \<Rightarrow> db" where
  "mark_sent now actor i s =
     (if list_ex (\<lambda>inv. inv_rfq_id inv = i \<and> inv_send_status inv = IS_sent) (rfq_invitations s)
      then add_event ((state_event i RS_created RS_sent now)\<lparr>re_user_id := Some actor\<rparr>)
             (write_rfq i (\<lambda>r. r\<lparr>rq_state := RS_sent\<rparr>) s)
      else s)"

definition create_rfq ::
    "(decimal \<Rightarrow> string) \<Rightarrow> sender \<Rightarrow> audit_checkpoint \<Rightarrow> db \<Rightarrow> datetime \<Rightarrow> date \<Rightarrow> RFQCreate \<Rightarrow> string
       \<Rightarrow> db \<times> (uuid \<times> wire) result" where
  "create_rfq show_dec send ck s now today p actor =
     (case create_phase1 show_dec ck s now today p actor of
        (c, Inl e) \<Rightarrow> (c, Inl e)
      | (c, Inr (rfq, rows)) \<Rightarrow>
          (let (s2, sent) = fold (send_row send now) rows (c, [])
           in (mark_sent now actor (rq_id rfq) s2, Inr (rq_id rfq, sent))))"

definition post_rfq ::
    "(decimal \<Rightarrow> string) \<Rightarrow> sender \<Rightarrow> audit_checkpoint \<Rightarrow> db \<Rightarrow> datetime \<Rightarrow> date \<Rightarrow> RFQCreate \<Rightarrow> string
       \<Rightarrow> db \<times> (uuid \<times> wire) result" where
  "post_rfq show_dec send ck s now today p actor =
     txn_then (s, validate_intent p) (\<lambda>_. create_rfq show_dec send ck s now today p actor)"

section \<open>Quotes\<close>

record RFQQuoteCreate =
  qc_rfq_id :: uuid
  qc_counterparty_id :: uuid
  qc_fixed_price_value :: decimal
  qc_fixed_price_unit :: string
  qc_float_pricing_convention :: string
  qc_received_at :: datetime

definition CANONICAL_PRICE_UNITS :: "string list" where
  "CANONICAL_PRICE_UNITS = [''USD/MT'']"

definition quoted_event :: "uuid \<Rightarrow> RFQQuote \<Rightarrow> datetime \<Rightarrow> RFQStateEvent" where
  "quoted_event i quote now =
     (state_event i RS_sent RS_quoted now)\<lparr>re_trigger := Some ''FIRST_ELIGIBLE_QUOTE_PERSISTED'',
        re_triggering_quote_id := Some (qt_id quote), re_triggering_counterparty_id := Some (qt_counterparty_id quote)\<rparr>"

definition mark_quoted :: "uuid \<Rightarrow> RFQQuote \<Rightarrow> datetime \<Rightarrow> db \<Rightarrow> db" where
  "mark_quoted i quote now s = add_event (quoted_event i quote now) (write_rfq i (\<lambda>r. r\<lparr>rq_state := RS_quoted\<rparr>) s)"

text \<open>The parents of a trade: spreads that are still waiting for quotes.\<close>

definition parent_spreads :: "db \<Rightarrow> uuid \<Rightarrow> RFQ list" where
  "parent_spreads s i =
     filter (\<lambda>r. rq_intent r = RI_spread \<and> rq_state r = RS_sent
       \<and> (rq_buy_trade_id r = Some i \<or> rq_sell_trade_id r = Some i)) (rfqs s)"

definition propagate_to_spread :: "RFQQuote \<Rightarrow> datetime \<Rightarrow> RFQ \<Rightarrow> db \<Rightarrow> db result" where
  "propagate_to_spread quote now spread_rfq s =
     (case (rq_buy_trade_id spread_rfq, rq_sell_trade_id spread_rfq) of
        (Some buy_trade, Some sell_trade) \<Rightarrow>
          and_then (get_latest_trade_quotes s buy_trade) (\<lambda>buy_latest.
          and_then (get_latest_trade_quotes s sell_trade) (\<lambda>sell_latest.
          Inr (if set (map fst buy_latest) \<inter> set (map fst sell_latest) \<noteq> {}
               then mark_quoted (rq_id spread_rfq) quote now s else s)))
      | _ \<Rightarrow> Inr s)"

definition check_quote :: "db \<Rightarrow> uuid \<Rightarrow> RFQQuoteCreate \<Rightarrow> RFQ result" where
  "check_quote s i p =
     and_then (get_live s i) (\<lambda>rfq.
     and_then (raise_if (rq_intent rfq = RI_spread) (http HTTP_400 ''SPREAD RFQ cannot receive quotes'')) (\<lambda>_.
     and_then (raise_if (qc_rfq_id p \<noteq> i) (http HTTP_400 ''RFQ id mismatch'')) (\<lambda>_.
     and_then (raise_if (rq_state rfq \<noteq> RS_sent \<and> rq_state rfq \<noteq> RS_quoted)
       (http HTTP_409 ''RFQ must be SENT before receiving quotes'')) (\<lambda>_.
     and_then (raise_if (qc_fixed_price_value p \<le> 0) (http HTTP_400 ''fixed_price_value must be > 0'')) (\<lambda>_.
     and_then (raise_if (qc_fixed_price_unit p \<notin> set CANONICAL_PRICE_UNITS)
       (HTTPException HTTP_400 (Msg ''fixed_price_unit {!r} is not canonical'' [AStr (qc_fixed_price_unit p)]))) (\<lambda>_.
     and_then (require (get_counterparty_row s (qc_counterparty_id p))
       (HTTPException HTTP_404 (Msg ''Counterparty {} not found'' [AId (qc_counterparty_id p)]))) (\<lambda>_. Inr rfq)))))))"

definition new_quote :: "db \<Rightarrow> datetime \<Rightarrow> uuid \<Rightarrow> RFQQuoteCreate \<Rightarrow> RFQQuote" where
  "new_quote s now i p =
     \<lparr>qt_id = next_uuid s, qt_rfq_id = i, qt_counterparty_id = qc_counterparty_id p,
      qt_fixed_price_value = quantize_price (qc_fixed_price_value p), qt_fixed_price_unit = qc_fixed_price_unit p,
      qt_float_pricing_convention = qc_float_pricing_convention p, qt_received_at = qc_received_at p, qt_created_at = now,
      qt_state = QS_active, qt_rejected_at = None, qt_rejected_reason = None, qt_rejected_by = None\<rparr>"

definition submit_quote ::
    "db \<Rightarrow> datetime \<Rightarrow> uuid \<Rightarrow> RFQQuoteCreate \<Rightarrow> string option \<Rightarrow> uuid option \<Rightarrow> db \<times> uuid result" where
  "submit_quote s now i p actor_sub inbound_message_id =
     txn_then (s, raise_if (actor_sub = None \<and> inbound_message_id = None)
       (http HTTP_400 ''Quote ingestion must have either actor_sub or inbound_message_id'')) (\<lambda>_.
     txn_then (s, check_quote s i p) (\<lambda>rfq.
     txn_then (assert_kyc_approved s (qc_counterparty_id p) GP_rfq_quote actor_sub (Some i)
       [(''rejection_path'', Some (AStr (if inbound_message_id \<noteq> None then ''webhook_inbound_llm'' else ''human_post''))),
        (''inbound_message_id'', map_option AId inbound_message_id)]) (\<lambda>_.
     let quote = new_quote s now i p;
         s1 = s\<lparr>rfq_quotes := rfq_quotes s @ [quote], next_uuid := Suc (next_uuid s)\<rparr>;
         s2 = (if rq_state rfq = RS_sent then mark_quoted i quote now s1 else s1)
     in (case fold_result (propagate_to_spread quote now) (parent_spreads s2 i) s2 of
           Inl e \<Rightarrow> (s, Inl e)
         | Inr s3 \<Rightarrow> (s3, Inr (qt_id quote))))))"

section \<open>Closing\<close>

definition close_rfq :: "datetime \<Rightarrow> string \<Rightarrow> string \<Rightarrow> RFQ \<Rightarrow> db \<Rightarrow> db" where
  "close_rfq now actor reason rfq s =
     add_event ((state_event (rq_id rfq) (rq_state rfq) RS_closed now)\<lparr>re_user_id := Some actor, re_reason := Some reason\<rparr>)
       (write_rfq (rq_id rfq) (\<lambda>r. r\<lparr>rq_state := RS_closed\<rparr>) s)"

definition reject_rfq :: "db \<Rightarrow> datetime \<Rightarrow> uuid \<Rightarrow> string \<Rightarrow> db result" where
  "reject_rfq s now i actor =
     and_then (get_live s i) (\<lambda>rfq.
     and_then (raise_if (rq_state rfq \<noteq> RS_quoted) (http HTTP_409 ''RFQ must be in QUOTED state'')) (\<lambda>_.
     Inr (close_rfq now actor ''USER_REJECTED'' rfq s)))"

definition cancel_rfq :: "db \<Rightarrow> datetime \<Rightarrow> uuid \<Rightarrow> string \<Rightarrow> db result" where
  "cancel_rfq s now i actor =
     and_then (get_live s i) (\<lambda>rfq.
     and_then (raise_if (rq_state rfq \<noteq> RS_created \<and> rq_state rfq \<noteq> RS_sent)
       (http HTTP_409 ''RFQ must be in CREATED or SENT state to cancel'')) (\<lambda>_.
     Inr (close_rfq now actor ''USER_CANCELLED'' rfq s)))"

definition archive_rfq :: "db \<Rightarrow> datetime \<Rightarrow> uuid \<Rightarrow> string \<Rightarrow> db result" where
  "archive_rfq s now i actor =
     and_then (get_rfq s i) (\<lambda>rfq.
     and_then (raise_if (rq_deleted_at rfq \<noteq> None) (http HTTP_409 ''RFQ already archived'')) (\<lambda>_.
     and_then (raise_if (rq_state rfq \<noteq> RS_closed) (http HTTP_409 ''RFQ must be in CLOSED state before archiving'')) (\<lambda>_.
     Inr (add_event ((state_event i (rq_state rfq) (rq_state rfq) now)\<lparr>re_trigger := Some ''archive'', re_user_id := Some actor\<rparr>)
           (write_rfq i (\<lambda>r. r\<lparr>rq_deleted_at := Some now\<rparr>) s)))))"

section \<open>Per-counterparty actions\<close>

definition check_in_flight :: "db \<Rightarrow> uuid \<Rightarrow> RFQ result" where
  "check_in_flight s i =
     and_then (get_live s i) (\<lambda>rfq.
     and_then (raise_if (rq_state rfq \<noteq> RS_sent \<and> rq_state rfq \<noteq> RS_quoted)
       (http HTTP_409 ''RFQ must be in SENT or QUOTED state'')) (\<lambda>_. Inr rfq))"

definition current_phone :: "db \<Rightarrow> RFQInvitation \<Rightarrow> string" where
  "current_phone s invitation =
     (case Option.bind (get_counterparty_row s (inv_counterparty_id invitation)) (\<lambda>cp. text_of cp ''whatsapp_phone'') of
        Some phone \<Rightarrow> phone | None \<Rightarrow> inv_recipient_phone invitation)"

definition refresh_body :: "db \<Rightarrow> RFQ \<Rightarrow> RFQInvitation \<Rightarrow> string" where
  "refresh_body s rfq invitation =
     (let raw_body = (case (if joined (\<lambda>cp. cp_type cp = CT_bank_br) (get_counterparty_row s (inv_counterparty_id invitation))
              then truthy (rq_text_pt rfq) else None) of
            Some t \<Rightarrow> t
          | None \<Rightarrow> (case truthy (rq_text_en rfq) of Some t \<Rightarrow> t
              | None \<Rightarrow> ''REFRESH: please resend your FIXED price quote.''))
      in prefix_with_canonical_id raw_body (rq_rfq_number rfq))"

text \<open>\<open>recipients\<close>: the first invitation of each counterparty.\<close>

fun first_per_counterparty :: "uuid list \<Rightarrow> RFQInvitation list \<Rightarrow> RFQInvitation list" where
  "first_per_counterparty seen [] = []"
| "first_per_counterparty seen (invitation # invitations) =
     (if inv_counterparty_id invitation \<in> set seen then first_per_counterparty seen invitations
      else invitation # first_per_counterparty (inv_counterparty_id invitation # seen) invitations)"

text \<open>A refresh row is committed, with the audit event of the route, before its message is sent.\<close>

definition queue_refresh :: "audit_checkpoint \<Rightarrow> datetime \<Rightarrow> RFQ \<Rightarrow> RFQInvitation \<Rightarrow> string \<Rightarrow> string \<Rightarrow> db \<Rightarrow> db \<times> RFQInvitation" where
  "queue_refresh ck now rfq recipient phone message_body s =
     (let row = queued_row (next_uuid s) rfq (inv_counterparty_id recipient) (inv_recipient_name recipient) phone message_body
            IP_refresh (Msg ''refresh-{}-{}-{}'' [AStr (rq_rfq_number rfq), AStr phone, AInt now]) now
      in (run_checkpoint ck (rq_id rfq) (s\<lparr>rfq_invitations := rfq_invitations s @ [row], next_uuid := Suc (next_uuid s)\<rparr>), row))"

text \<open>The loop keeps the committed state and the session, whose last status update is not committed
  yet when the next counterparty is checked. Only the first checkpoint records its event.\<close>

fun refresh_loop ::
    "sender \<Rightarrow> audit_checkpoint \<Rightarrow> datetime \<Rightarrow> string \<Rightarrow> RFQ \<Rightarrow> RFQInvitation list \<Rightarrow> db \<Rightarrow> db \<times> wire \<Rightarrow> db \<times> wire result" where
  "refresh_loop send ck now actor rfq [] c st = (fst st, Inr (snd st))"
| "refresh_loop send ck now actor rfq (recipient # recipients) c st =
     txn_then (assert_kyc_approved c (inv_counterparty_id recipient) GP_rfq_invitation (Some actor) (Some (rq_id rfq))
       [(''attempted_purpose'', Some (AStr ''refresh''))]) (\<lambda>_.
     let (c', row) = queue_refresh ck now rfq recipient (current_phone (fst st) recipient) (refresh_body (fst st) rfq recipient) (fst st)
     in refresh_loop send None now actor rfq recipients c' (send_row send now row (c', snd st)))"

definition refresh_rfq :: "sender \<Rightarrow> audit_checkpoint \<Rightarrow> db \<Rightarrow> datetime \<Rightarrow> uuid \<Rightarrow> string \<Rightarrow> db \<times> wire result" where
  "refresh_rfq send ck s now i actor =
     txn_then (s, check_in_flight s i) (\<lambda>rfq.
     let recipients = first_per_counterparty [] (get_invitations s (rq_id rfq))
     in txn_then (s, raise_if (recipients = []) (http HTTP_409 ''No recipients to refresh'')) (\<lambda>_.
        refresh_loop send ck now actor rfq recipients s (s, [])))"

definition refresh_counterparty ::
    "sender \<Rightarrow> audit_checkpoint \<Rightarrow> db \<Rightarrow> datetime \<Rightarrow> uuid \<Rightarrow> uuid \<Rightarrow> string \<Rightarrow> db \<times> wire result" where
  "refresh_counterparty send ck s now i cpid actor =
     txn_then (s, check_in_flight s i) (\<lambda>rfq.
     txn_then (assert_kyc_approved s cpid GP_rfq_invitation (Some actor) (Some (rq_id rfq))
       [(''attempted_purpose'', Some (AStr ''refresh''))]) (\<lambda>_.
     txn_then (s, require (find (\<lambda>inv. inv_counterparty_id inv = cpid) (get_invitations s (rq_id rfq)))
       (http HTTP_404 ''No invitation found for this counterparty'')) (\<lambda>existing.
     let body = prefix_with_canonical_id (pick_action_message (get_counterparty_row s (inv_counterparty_id existing)) Act_refresh) (rq_rfq_number rfq);
         (c, row) = queue_refresh ck now rfq existing (current_phone s existing) body s;
         (s2, sent) = send_row send now row (c, [])
     in (s2, Inr sent))))"

definition write_quote :: "uuid \<Rightarrow> (RFQQuote \<Rightarrow> RFQQuote) \<Rightarrow> db \<Rightarrow> db" where
  "write_quote i f s = s\<lparr>rfq_quotes := update_row qt_id i f (rfq_quotes s)\<rparr>"

definition find_active_quote :: "db \<Rightarrow> uuid \<Rightarrow> uuid \<Rightarrow> RFQQuote result" where
  "find_active_quote s i quote_id =
     and_then (require (get_row qt_id quote_id (rfq_quotes s)) (http HTTP_404 ''Quote not found for this RFQ'')) (\<lambda>quote.
     and_then (raise_if (qt_rfq_id quote \<noteq> i \<or> qt_state quote \<noteq> QS_active) (http HTTP_404 ''Quote not found for this RFQ'')) (\<lambda>_.
     Inr quote))"

text \<open>The state that is committed before the rejection is sent: the quote, the outbox row if the
  counterparty can be reached, and the way back to SENT when no active quote is left.\<close>

definition reject_quote_checkpoint ::
    "audit_checkpoint \<Rightarrow> db \<Rightarrow> datetime \<Rightarrow> RFQ \<Rightarrow> RFQQuote \<Rightarrow> string \<Rightarrow> string \<Rightarrow> db \<times> RFQInvitation option" where
  "reject_quote_checkpoint ck s now rfq quote actor reason =
     (let cp = get_counterparty_row s (qt_counterparty_id quote);
          s1 = write_quote (qt_id quote) (\<lambda>q. q\<lparr>qt_state := QS_rejected, qt_rejected_at := Some now,
                 qt_rejected_reason := Some reason, qt_rejected_by := Some actor\<rparr>) s;
          message_body = prefix_with_canonical_id (pick_action_message cp Act_reject) (rq_rfq_number rfq);
          outbox_row = (case cp of None \<Rightarrow> None | Some c \<Rightarrow>
            map_option (\<lambda>phone. queued_row (next_uuid s) rfq (cp_id c) (recipient_name_of c) phone message_body IP_reject_quote
              (Msg ''reject-quote:{}:{}'' [AStr (rq_rfq_number rfq), AId (qt_id quote)]) now) (text_of c ''whatsapp_phone''));
          s2 = (case outbox_row of None \<Rightarrow> s1
            | Some row \<Rightarrow> s1\<lparr>rfq_invitations := rfq_invitations s1 @ [row], next_uuid := Suc (next_uuid s1)\<rparr>);
          remaining = filter (\<lambda>q. qt_id q \<noteq> qt_id quote) (active_quotes s (rq_id rfq));
          s3 = (if remaining = [] \<and> rq_state rfq = RS_quoted
            then add_event ((state_event (rq_id rfq) RS_quoted RS_sent now)\<lparr>re_reason := Some ''ALL_QUOTES_REJECTED'', re_user_id := Some actor\<rparr>)
                   (write_rfq (rq_id rfq) (\<lambda>r. r\<lparr>rq_state := RS_sent\<rparr>) s2)
            else s2)
      in (run_checkpoint ck (rq_id rfq) s3, outbox_row))"

definition reject_quote ::
    "sender \<Rightarrow> audit_checkpoint \<Rightarrow> db \<Rightarrow> datetime \<Rightarrow> uuid \<Rightarrow> uuid \<Rightarrow> string \<Rightarrow> string \<Rightarrow> (db \<times> wire) result" where
  "reject_quote send ck s now i quote_id actor reason =
     and_then (check_in_flight s i) (\<lambda>rfq.
     and_then (find_active_quote s i quote_id) (\<lambda>quote.
     let (c, outbox_row) = reject_quote_checkpoint ck s now rfq quote actor reason
     in Inr (case outbox_row of None \<Rightarrow> (c, []) | Some row \<Rightarrow> send_row send now row (c, []))))"

section \<open>Award\<close>

definition not_awardable :: py_error where
  "not_awardable = http HTTP_409 ''Ranking is not awardable''"

definition top_trade :: "TradeRankingRead \<Rightarrow> RFQQuote result" where
  "top_trade r = (if tr_status r \<noteq> ''SUCCESS'' then Inl not_awardable
     else case tr_ranking r of [] \<Rightarrow> Inl not_awardable | e # _ \<Rightarrow> Inr (te_quote e))"

definition top_spread :: "SpreadRankingRead \<Rightarrow> SpreadRankingEntry result" where
  "top_spread r = (if sr_status r \<noteq> ''SUCCESS'' then Inl not_awardable
     else case sr_ranking r of [] \<Rightarrow> Inl not_awardable | e # _ \<Rightarrow> Inr e)"

definition trade_ranking :: "db \<Rightarrow> RFQ \<Rightarrow> TradeRankingRead result" where
  "trade_ranking s rfq = and_then (get_latest_trade_quotes s (rq_id rfq)) (\<lambda>latest. Inr (compute_trade_ranking rfq latest))"

definition resolve_awarded_quote :: "db \<Rightarrow> RFQ \<Rightarrow> (RFQIntent \<times> (RFQQuote \<times> decimal) list) result" where
  "resolve_awarded_quote s rfq =
     (if rq_intent rfq = RI_spread then
        and_then (compute_spread_ranking s rfq) (\<lambda>ranking_payload.
        and_then (top_spread ranking_payload) (\<lambda>top.
        case (rq_buy_trade_id rfq, rq_sell_trade_id rfq) of
          (Some b, Some l) \<Rightarrow>
            (case (get_rfq_row s b, get_rfq_row s l) of
               (Some buy_trade, Some sell_trade) \<Rightarrow>
                 Inr (RI_spread, [(sre_buy_quote top, rq_quantity_mt buy_trade), (sre_sell_quote top, rq_quantity_mt sell_trade)])
             | _ \<Rightarrow> Inl (http HTTP_409 ''Referenced trade RFQ missing''))
        | _ \<Rightarrow> Inl (http HTTP_409 ''Referenced trade RFQ ID is None'')))
      else
        and_then (trade_ranking s rfq) (\<lambda>r.
        and_then (top_trade r) (\<lambda>top_quote.
        and_then (require (get_row qt_id (qt_id top_quote) (rfq_quotes s)) (http HTTP_409 ''Awarded quote missing'')) (\<lambda>quote.
        Inr (rq_intent rfq, [(quote, rq_quantity_mt rfq)])))))"

definition award_contract :: "uuid \<Rightarrow> datetime \<Rightarrow> date \<Rightarrow> string \<Rightarrow> RFQ \<Rightarrow> uuid \<Rightarrow> RFQQuote \<Rightarrow> HedgeContract" where
  "award_contract i now today reference rfq cpid quote =
     (let (fixed_side, variable_side, classification) = determine_contract_legs (rq_direction rfq)
      in \<lparr>hc_id = i, hc_reference = Some reference, hc_commodity = rq_commodity rfq, hc_quantity_mt = rq_quantity_mt rfq,
          hc_rfq_id = Some (rq_id rfq), hc_rfq_quote_id = Some (qt_id quote), hc_counterparty_id = Some (str_uuid cpid),
          hc_fixed_price_value = Some (qt_fixed_price_value quote), hc_fixed_price_unit = Some (qt_fixed_price_unit quote),
          hc_float_pricing_convention = Some (qt_float_pricing_convention quote), hc_premium_discount = Some 0,
          hc_pricing_period_month = None, hc_pricing_period_year = None, hc_fixing_date = None,
          hc_avg_computation_days = None, hc_status = HS_active, hc_fixed_leg_side = fixed_side,
          hc_variable_leg_side = variable_side, hc_classification = classification, hc_settlement_date = None,
          hc_prompt_date = None, hc_trade_date = Some today, hc_source_type = Some ''rfq_award'',
          hc_source_id = Some (rq_id rfq), hc_notes = None, hc_created_by = None, hc_created_at = now, hc_deleted_at = None\<rparr>)"

text \<open>A contract for a trade, linked to its order if the trade hedges one.\<close>

definition book_trade :: "datetime \<Rightarrow> date \<Rightarrow> string \<Rightarrow> RFQ \<Rightarrow> uuid \<Rightarrow> RFQQuote \<Rightarrow> db \<Rightarrow> (db \<times> uuid) result" where
  "book_trade now today reference rfq cpid quote s =
     and_then (raise_if (Some reference \<in> hc_reference ` set (contracts s))
       (IntegrityError (Msg ''hedge_contracts.reference'' [AStr reference]))) (\<lambda>_.
     let contract = award_contract (next_uuid s) now today reference rfq cpid quote;
         s1 = s\<lparr>contracts := contracts s @ [contract], next_uuid := Suc (next_uuid s)\<rparr>
     in case (rq_intent rfq, rq_order_id rfq) of
          (RI_commercial_hedge, Some order_id) \<Rightarrow>
            and_then (create_linkage s1 now order_id (hc_id contract) (rq_quantity_mt rfq)) (\<lambda>(s2, _). Inr (s2, hc_id contract))
        | _ \<Rightarrow> Inr (s1, hc_id contract))"

definition book_child :: "datetime \<Rightarrow> date \<Rightarrow> string \<Rightarrow> uuid \<Rightarrow> uuid option \<Rightarrow> RFQQuote \<Rightarrow> db \<Rightarrow> (db \<times> uuid) result" where
  "book_child now today reference cpid trade_rfq_id quote s =
     and_then (require trade_rfq_id (http HTTP_409 ''Referenced trade RFQ ID is None'')) (\<lambda>child.
     and_then (require (get_rfq_row s child) (http HTTP_409 ''Referenced trade RFQ missing'')) (\<lambda>trade_rfq.
     and_then (raise_if (rq_state trade_rfq = RS_closed) (HTTPException HTTP_409
       (Msg ''Spread child RFQ {} is already closed; cannot award parent spread'' [AId child]))) (\<lambda>_.
     book_trade now today reference trade_rfq cpid quote s)))"

text \<open>QUOTED to AWARDED to CLOSED.\<close>

definition award_events ::
    "datetime \<Rightarrow> string \<Rightarrow> uuid \<Rightarrow> uuid list \<Rightarrow> uuid list \<Rightarrow> ranking_snapshot \<Rightarrow> uuid list \<Rightarrow> db \<Rightarrow> db" where
  "award_events now actor i quote_ids cp_ids snapshot contract_ids s =
     add_event ((state_event i RS_awarded RS_closed now)\<lparr>re_created_contract_ids := Some contract_ids\<rparr>)
       (write_rfq i (\<lambda>r. r\<lparr>rq_state := RS_closed\<rparr>)
         (add_event ((state_event i RS_quoted RS_awarded now)\<lparr>re_user_id := Some actor, re_winning_quote_ids := Some quote_ids,
              re_winning_counterparty_ids := Some cp_ids, re_ranking_snapshot := Some snapshot, re_award_timestamp := Some now\<rparr>)
           (write_rfq i (\<lambda>r. r\<lparr>rq_state := RS_awarded\<rparr>) s)))"

definition close_child :: "datetime \<Rightarrow> string \<Rightarrow> RFQ \<Rightarrow> uuid option \<Rightarrow> uuid \<Rightarrow> db \<Rightarrow> db result" where
  "close_child now actor parent child_id contract_id s =
     (case child_id of
        None \<Rightarrow> Inr s
      | Some c \<Rightarrow>
          and_then (require (get_rfq_row s c) (HTTPException HTTP_409 (Msg ''Spread child RFQ {} missing during award'' [AId c]))) (\<lambda>child.
          Inr (add_event ((state_event c (rq_state child) RS_closed now)\<lparr>re_trigger := Some ''closed_by_parent_spread'',
                 re_user_id := Some actor, re_reason := Some (''PARENT_SPREAD_AWARDED:'' @ rq_rfq_number parent),
                 re_created_contract_ids := Some [contract_id]\<rparr>)
               (write_rfq c (\<lambda>r. r\<lparr>rq_state := RS_closed\<rparr>) s))))"

definition award_spread :: "db \<Rightarrow> datetime \<Rightarrow> date \<Rightarrow> string \<Rightarrow> string \<Rightarrow> RFQ \<Rightarrow> string \<Rightarrow> db \<times> unit result" where
  "award_spread s now today ref1 ref2 rfq actor =
     txn_then (s, compute_spread_ranking s rfq) (\<lambda>ranking_payload.
     txn_then (s, top_spread ranking_payload) (\<lambda>top.
     txn_then (assert_kyc_approved s (sre_counterparty_id top) GP_rfq_award (Some actor) (Some (rq_id rfq))
       [(''quote_id'', Some (AId (qt_id (sre_buy_quote top))))]) (\<lambda>_.
     case and_then (book_child now today ref1 (sre_counterparty_id top) (rq_buy_trade_id rfq) (sre_buy_quote top) s) (\<lambda>(s1, c1).
          and_then (book_child now today ref2 (sre_counterparty_id top) (rq_sell_trade_id rfq) (sre_sell_quote top) s1) (\<lambda>(s2, c2).
          let s3 = award_events now actor (rq_id rfq) [qt_id (sre_buy_quote top), qt_id (sre_sell_quote top)]
                [sre_counterparty_id top] (Spread_snapshot ranking_payload) [c1, c2] s2
          in and_then (close_child now actor rfq (rq_buy_trade_id rfq) c1 s3) (\<lambda>s4.
             close_child now actor rfq (rq_sell_trade_id rfq) c2 s4))) of
       Inl e \<Rightarrow> (s, Inl e)
     | Inr s' \<Rightarrow> (s', Inr ()))))"

definition award_trade :: "db \<Rightarrow> datetime \<Rightarrow> date \<Rightarrow> string \<Rightarrow> RFQ \<Rightarrow> string \<Rightarrow> db \<times> unit result" where
  "award_trade s now today reference rfq actor =
     txn_then (s, trade_ranking s rfq) (\<lambda>r.
     txn_then (s, top_trade r) (\<lambda>top_quote.
     txn_then (assert_kyc_approved s (qt_counterparty_id top_quote) GP_rfq_award (Some actor) (Some (rq_id rfq))
       [(''quote_id'', Some (AId (qt_id top_quote)))]) (\<lambda>_.
     case book_trade now today reference rfq (qt_counterparty_id top_quote) top_quote s of
       Inl e \<Rightarrow> (s, Inl e)
     | Inr (s1, c) \<Rightarrow>
         (award_events now actor (rq_id rfq) [qt_id top_quote] [qt_counterparty_id top_quote] (Trade_snapshot r) [c] s1, Inr ()))))"

definition award_rfq :: "db \<Rightarrow> datetime \<Rightarrow> date \<Rightarrow> string \<Rightarrow> string \<Rightarrow> uuid \<Rightarrow> string \<Rightarrow> db \<times> unit result" where
  "award_rfq s now today ref1 ref2 i actor =
     txn_then (s, get_live s i) (\<lambda>rfq.
     txn_then (s, raise_if (rq_state rfq \<noteq> RS_quoted) (http HTTP_409 ''RFQ must be in QUOTED state'')) (\<lambda>_.
     if rq_intent rfq = RI_spread then award_spread s now today ref1 ref2 rfq actor
     else award_trade s now today ref1 rfq actor))"

end
