(* ===== verification/RFQ_Frame.thy ===== *)
theory RFQ_Frame
  imports RFQ_Service
begin

text \<open>
  What the operations on requests leave alone. A frame is a relation between the states before
  and after an operation that does not see the outbox and the audit trail; the operations that
  only send messages stay inside every such frame, and a frame that does not see the tables of
  the request service either is kept by everything but an award.
\<close>

section \<open>Transactions\<close>

lemma txn_then_cases:
  assumes "txn_then p f = (s', r)"
  obtains (raised) e where "p = (s', Inl e)" "r = Inl e"
  | (returned) c x where "p = (c, Inr x)" "f x = (s', r)"
  using assms by (cases p; cases "snd p") (auto simp: txn_then_def)

text \<open>If both halves of a transaction keep a property of the committed state, so does the whole.\<close>

lemma txn_then_invariant:
  assumes "txn_then p f = (s', r)" and "\<And>e. p = (s', Inl e) \<Longrightarrow> P s'" and "\<And>c x. p = (c, Inr x) \<Longrightarrow> f x = (s', r) \<Longrightarrow> P s'"
  shows "P s'"
  using assms by (cases rule: txn_then_cases) blast+

section \<open>Frames that do not see the outbox\<close>

locale outbox_frame =
  fixes view :: "db \<Rightarrow> db \<Rightarrow> bool"
  assumes view_refl: "view s s"
    and view_trans: "view s t \<Longrightarrow> view t u \<Longrightarrow> view s u"
    and view_outbox: "next_uuid s \<le> n \<Longrightarrow> view s (s\<lparr>rfq_invitations := rows, next_uuid := n\<rparr>)"
    and view_audit: "view s (record_audit et ei ev p s)"
begin

declare view_refl [simp]

lemma run_checkpoint_view: "view s (run_checkpoint ck i s)"
  by (cases ck) (auto simp: run_checkpoint_def view_audit)

lemma kyc_gate_view: "assert_kyc_approved s i gp actor rfq extra = (s', r) \<Longrightarrow> view s s'"
  by (erule assert_kyc_cases) (simp_all add: view_audit)

lemma send_row_view: "view (fst st) (fst (send_row send now row st))"
  using view_outbox[of "fst st" "next_uuid (fst st)"] by (cases st) (simp add: send_row_def Let_def)

lemma send_rows_view: "view (fst st) (fst (fold (send_row send now) rows st))"
proof (induction rows arbitrary: st)
  case (Cons row rows)
  show ?case using view_trans[OF send_row_view Cons.IH] by simp
qed simp

lemma queue_refresh_view:
  "queue_refresh ck now rfq recipient phone body s = (c, row) \<Longrightarrow> view s c"
  by (auto simp: queue_refresh_def Let_def intro!: view_trans[OF view_outbox run_checkpoint_view])

lemma refresh_loop_view:
  "refresh_loop send ck now actor rfq recipients c st = (s', r) \<Longrightarrow> view s c \<Longrightarrow> view s (fst st) \<Longrightarrow> view s s'"
proof (induction recipients arbitrary: ck c st)
  case Nil
  then show ?case by auto
next
  case (Cons recipient recipients)
  show ?case
    using Cons.prems(1)[unfolded refresh_loop.simps]
  proof (rule txn_then_invariant)
    fix e
    assume "assert_kyc_approved c (inv_counterparty_id recipient) GP_rfq_invitation (Some actor) (Some (rq_id rfq))
       [(''attempted_purpose'', Some (AStr ''refresh''))] = (s', Inl e)"
    then show "view s s'" by (rule view_trans[OF Cons.prems(2) kyc_gate_view])
  next
    fix c0 x
    define q where "q = queue_refresh ck now rfq recipient (current_phone (fst st) recipient) (refresh_body (fst st) rfq recipient) (fst st)"
    assume "(let (c', row) = queue_refresh ck now rfq recipient (current_phone (fst st) recipient) (refresh_body (fst st) rfq recipient) (fst st)
      in refresh_loop send None now actor rfq recipients c' (send_row send now row (c', snd st))) = (s', r)"
    then have loop: "refresh_loop send None now actor rfq recipients (fst q) (send_row send now (snd q) (fst q, snd st)) = (s', r)"
      by (simp add: q_def Let_def case_prod_beta)
    have q: "view s (fst q)"
      using view_trans[OF Cons.prems(3)] queue_refresh_view[of ck now rfq recipient _ _ "fst st" "fst q" "snd q"] by (simp add: q_def)
    show "view s s'"
      by (rule Cons.IH[OF loop q]) (use view_trans[OF q] send_row_view[of "(fst q, snd st)"] in simp)
  qed
qed

lemma refresh_rfq_view:
  assumes "refresh_rfq send ck s now i actor = (s', r)"
  shows "view s s'"
  using assms unfolding refresh_rfq_def Let_def
  by (elim txn_then_invariant) (auto elim!: txn_then_invariant refresh_loop_view)

lemma refresh_counterparty_view:
  assumes "refresh_counterparty send ck s now i cpid actor = (s', r)"
  shows "view s s'"
  using assms unfolding refresh_counterparty_def
proof (elim txn_then_invariant)
  fix existing rfq c0 x0 c1 x1 c2
  define q where "q = queue_refresh ck now rfq existing (current_phone s existing)
     (prefix_with_canonical_id (pick_action_message (get_counterparty_row s (inv_counterparty_id existing)) Act_refresh) (rq_rfq_number rfq)) s"
  assume "(let body = prefix_with_canonical_id (pick_action_message (get_counterparty_row s (inv_counterparty_id existing)) Act_refresh) (rq_rfq_number rfq);
         (c, row) = queue_refresh ck now rfq existing (current_phone s existing) body s;
         (s2, sent) = send_row send now row (c, [])
     in (s2, Inr sent)) = (s', r)"
  then have "s' = fst (send_row send now (snd q) (fst q, []))"
    by (auto simp: q_def Let_def split: prod.splits)
  then show "view s s'"
    using view_trans[OF queue_refresh_view send_row_view[of "(fst q, [])"]] by (metis fst_conv prod.collapse q_def)
qed (auto dest: kyc_gate_view)

lemma queue_invitations_view:
  "queue_invitations show_dec s now actor rfq cpids rows = (c, r) \<Longrightarrow> view s c \<and> (\<forall>rows'. r = Inr rows' \<longrightarrow> c = s)"
proof (induction cpids arbitrary: rows)
  case Nil
  then show ?case by simp
next
  case (Cons cpid cpids)
  show ?case
    using Cons.prems[unfolded queue_invitations.simps]
  proof (cases rule: txn_then_cases)
    case (returned c0 cp)
    from returned(2) show ?thesis
    proof (cases rule: txn_then_cases)
      case raised
      then show ?thesis using kyc_gate_view by blast
    next
      case returned
      from returned(2) show ?thesis by (cases rule: txn_then_cases) (use Cons.IH in auto)
    qed
  qed simp
qed

text \<open>What the first phase commits when it succeeds.\<close>

lemma create_phase1_cases:
  assumes "create_phase1 show_dec ck s now today p actor = (c, r)"
  obtains (raised) e where "r = Inl e" "view s c"
  | (queued) rfq rows snapshot where "r = Inr (rfq, rows)" "rfq = new_rfq (next_uuid s) (Suc (rfq_sequence s)) now today p snapshot"
      "queue_invitations show_dec s now actor rfq (rc_invitations p) [] = (s, Inr rows)"
      "c = run_checkpoint ck (rq_id rfq) (s\<lparr>rfqs := rfqs s @ [rfq], rfq_invitations := rfq_invitations s @ rows,
          rfq_sequence := Suc (rfq_sequence s), next_uuid := Suc (next_uuid s) + length rows\<rparr>)"
      "rc_intent p = RI_spread \<Longrightarrow> check_spread_trades s p = Inr ()"
  using assms unfolding create_phase1_def
proof (cases rule: txn_then_cases)
  case 1: (returned c1 snapshot_rows)
  from 1(2) show ?thesis
  proof (cases rule: txn_then_cases)
    case 2: (returned c2 snapshot)
    from 2(2) show ?thesis
    proof (cases rule: txn_then_cases)
      case 3: (returned c3 u)
      from 3(2)[unfolded Let_def] show ?thesis
      proof (cases rule: txn_then_cases)
        case raised
        then show ?thesis using that(1) queue_invitations_view by blast
      next
        case 4: (returned c4 rows)
        moreover from 4(1) have "c4 = s" using queue_invitations_view by blast
        ultimately show ?thesis using that(2) 3(1) by (auto split: if_splits)
      qed
    qed (use that(1) in auto)
  qed (use that(1) in auto)
qed (use that(1) in auto)

end

section \<open>Elementary writes\<close>

lemma add_event_simps [simp]:
  "rfqs (add_event e s) = rfqs s" "rfq_quotes (add_event e s) = rfq_quotes s" "contracts (add_event e s) = contracts s"
  "rfq_state_events (add_event e s) = rfq_state_events s @ [e\<lparr>re_id := next_uuid s\<rparr>]" "next_uuid (add_event e s) = Suc (next_uuid s)"
  "rfq_invitations (add_event e s) = rfq_invitations s"
  by (simp_all add: add_event_def)

lemma write_rfq_simps [simp]:
  "rfqs (write_rfq i f s) = update_row rq_id i f (rfqs s)" "rfq_quotes (write_rfq i f s) = rfq_quotes s"
  "contracts (write_rfq i f s) = contracts s" "rfq_state_events (write_rfq i f s) = rfq_state_events s"
  "next_uuid (write_rfq i f s) = next_uuid s" "rfq_invitations (write_rfq i f s) = rfq_invitations s"
  by (simp_all add: write_rfq_def)

definition rejection :: "datetime \<Rightarrow> string \<Rightarrow> string \<Rightarrow> RFQQuote \<Rightarrow> RFQQuote" where
  "rejection now actor reason = (\<lambda>q. q\<lparr>qt_state := QS_rejected, qt_rejected_at := Some now, qt_rejected_reason := Some reason,
     qt_rejected_by := Some actor\<rparr>)"

definition with_outbox :: "RFQInvitation option \<Rightarrow> db \<Rightarrow> db" where
  "with_outbox out s = (case out of None \<Rightarrow> s | Some row \<Rightarrow> s\<lparr>rfq_invitations := rfq_invitations s @ [row], next_uuid := Suc (next_uuid s)\<rparr>)"

lemma with_outbox_simps [simp]:
  "rfqs (with_outbox out s) = rfqs s" "rfq_quotes (with_outbox out s) = rfq_quotes s" "contracts (with_outbox out s) = contracts s"
  "rfq_state_events (with_outbox out s) = rfq_state_events s" "next_uuid s \<le> next_uuid (with_outbox out s)"
  by (auto simp: with_outbox_def split: option.split)

lemma write_quote_simps [simp]:
  "rfqs (write_quote i f s) = rfqs s" "rfq_quotes (write_quote i f s) = update_row qt_id i f (rfq_quotes s)"
  "contracts (write_quote i f s) = contracts s" "rfq_state_events (write_quote i f s) = rfq_state_events s"
  "next_uuid (write_quote i f s) = next_uuid s"
  by (simp_all add: write_quote_def)

lemma reject_quote_checkpoint_eq:
  assumes "reject_quote_checkpoint ck s now r q actor reason = (c, out)"
  shows "c = run_checkpoint ck (rq_id r)
    (if filter (\<lambda>x. qt_id x \<noteq> qt_id q) (active_quotes s (rq_id r)) = [] \<and> rq_state r = RS_quoted
     then add_event ((state_event (rq_id r) RS_quoted RS_sent now)\<lparr>re_reason := Some ''ALL_QUOTES_REJECTED'', re_user_id := Some actor\<rparr>)
            (write_rfq (rq_id r) (\<lambda>r. r\<lparr>rq_state := RS_sent\<rparr>) (with_outbox out (write_quote (qt_id q) (rejection now actor reason) s)))
     else with_outbox out (write_quote (qt_id q) (rejection now actor reason) s))"
  using assms unfolding reject_quote_checkpoint_def Let_def with_outbox_def rejection_def
  by (elim Pair_inject, hypsubst, intro refl)

section \<open>Frames that do not see the requests\<close>

text \<open>The database without the tables of the request service and without the key counter.\<close>

definition rfq_rest :: "db \<Rightarrow> db" where
  "rfq_rest s = s\<lparr>rfqs := [], rfq_quotes := [], rfq_invitations := [], rfq_state_events := [], rfq_sequence := 0, next_uuid := 0\<rparr>"

lemma rfq_rest_simps [simp]:
  "rfq_rest (add_event e s) = rfq_rest s" "rfq_rest (write_rfq i f s) = rfq_rest s" "rfq_rest (write_quote i g s) = rfq_rest s"
  by (simp_all add: rfq_rest_def add_event_def write_rfq_def write_quote_def)

lemma rfq_rest_outbox [simp]: "rfq_rest (with_outbox out s) = rfq_rest s"
  by (simp add: rfq_rest_def with_outbox_def split: option.split)

text \<open>A trade whose contract is booked is one of the requests.\<close>

definition booked :: "db \<Rightarrow> db \<Rightarrow> bool" where
  "booked s s' \<longleftrightarrow> (\<exists>now today ref r cp q c. r \<in> set (rfqs s) \<and> book_trade now today ref r cp q s = Inr (s', c))"

lemma get_rfq_row_in: "get_rfq_row s i = Some r \<Longrightarrow> r \<in> set (rfqs s)"
  using get_row_SomeD[of rq_id i "rfqs s" r] by (simp add: get_rfq_row_def)

lemma bookedI: "r \<in> set (rfqs s) \<Longrightarrow> book_trade now today ref r cp q s = Inr (s', c) \<Longrightarrow> booked s s'"
  unfolding booked_def by blast

lemma book_child_booked: "book_child now today ref cp child q s = Inr (s', c) \<Longrightarrow> booked s s'"
  by (auto simp: book_child_def dest!: get_rfq_row_in intro: bookedI)

lemma award_events_rest [simp]: "rfq_rest (award_events now actor i qs cps sn cs s) = rfq_rest s" "next_uuid s \<le> next_uuid (award_events now actor i qs cps sn cs s)"
  by (simp_all add: award_events_def)

lemma close_child_rest: "close_child now actor parent child c s = Inr s' \<Longrightarrow> rfq_rest s' = rfq_rest s \<and> next_uuid s \<le> next_uuid s'"
  by (auto simp: close_child_def split: option.splits)

locale request_frame = outbox_frame +
  assumes view_rest: "rfq_rest s' = rfq_rest s \<Longrightarrow> next_uuid s \<le> next_uuid s' \<Longrightarrow> view s s'"
begin

lemma mark_sent_view: "view s (mark_sent now actor i s)"
  by (rule view_rest) (simp_all add: mark_sent_def)

lemma post_rfq_view:
  assumes "post_rfq show_dec send ck s now today p actor = (s', r)"
  shows "view s s'"
  using assms unfolding post_rfq_def
proof (rule txn_then_invariant)
  fix c x
  assume "create_rfq show_dec send ck s now today p actor = (s', r)"
  moreover obtain c1 r1 where ph: "create_phase1 show_dec ck s now today p actor = (c1, r1)" by fastforce
  ultimately have run: "(case (c1, r1) of (c, Inl e) \<Rightarrow> (c, Inl e) | (c, Inr (rfq, rows)) \<Rightarrow>
      (let (s2, sent) = fold (send_row send now) rows (c, []) in (mark_sent now actor (rq_id rfq) s2, Inr (rq_id rfq, sent)))) = (s', r)"
    by (simp add: create_rfq_def)
  from ph show "view s s'"
  proof (cases rule: create_phase1_cases)
    case raised
    with run show ?thesis by simp
  next
    case (queued rfq rows snapshot)
    have "view s c1"
      unfolding queued(4) by (rule view_trans[OF view_rest run_checkpoint_view]) (simp_all add: rfq_rest_def)
    moreover have "s' = mark_sent now actor (rq_id rfq) (fst (fold (send_row send now) rows (c1, [])))"
      using run queued(1) by (auto split: prod.splits)
    ultimately show ?thesis
      using view_trans[OF view_trans[OF _ send_rows_view[of "(c1, [])"]] mark_sent_view] by simp
  qed
qed simp

lemma propagate_view: "fold_result (propagate_to_spread q now) parents s = Inr s' \<Longrightarrow> view s s'"
proof (induction parents arbitrary: s)
  case (Cons r parents)
  then obtain t where t: "propagate_to_spread q now r s = Inr t" "fold_result (propagate_to_spread q now) parents t = Inr s'"
    by (auto split: sum.splits)
  then have "t = s \<or> t = mark_quoted (rq_id r) q now s"
    by (auto simp: propagate_to_spread_def split: option.splits if_splits)
  then have "view s t" by (auto simp: mark_quoted_def intro: view_rest)
  then show ?case by (rule view_trans[OF _ Cons.IH[OF t(2)]])
qed simp

lemma submit_quote_view:
  assumes "submit_quote s now i p actor inbound = (s', r)"
  shows "view s s'"
  using assms unfolding submit_quote_def
proof (elim txn_then_invariant)
  fix c0 x0 c1 c2 cp and rfq :: RFQ
  define q where "q = new_quote s now i p"
  define s2 where "s2 = (if rq_state rfq = RS_sent then mark_quoted i q now (s\<lparr>rfq_quotes := rfq_quotes s @ [q], next_uuid := Suc (next_uuid s)\<rparr>)
     else s\<lparr>rfq_quotes := rfq_quotes s @ [q], next_uuid := Suc (next_uuid s)\<rparr>)"
  assume "(let quote = new_quote s now i p; s1 = s\<lparr>rfq_quotes := rfq_quotes s @ [quote], next_uuid := Suc (next_uuid s)\<rparr>;
         s2 = if rq_state rfq = RS_sent then mark_quoted i quote now s1 else s1
     in case fold_result (propagate_to_spread quote now) (parent_spreads s2 i) s2 of Inl e \<Rightarrow> (s, Inl e) | Inr s3 \<Rightarrow> (s3, Inr (qt_id quote))) = (s', r)"
  then have "s' = s \<or> fold_result (propagate_to_spread q now) (parent_spreads s2 i) s2 = Inr s'"
    by (auto simp: Let_def q_def s2_def split: sum.splits)
  moreover have "view s s2"
    by (rule view_rest) (simp_all add: s2_def mark_quoted_def, simp_all add: rfq_rest_def)
  ultimately show "view s s'" using propagate_view view_trans by (metis view_refl)
qed (auto dest: kyc_gate_view)

lemma closing_ops_view:
  "reject_rfq s now i actor = Inr s' \<Longrightarrow> view s s'" "cancel_rfq s now i actor = Inr s' \<Longrightarrow> view s s'"
  "archive_rfq s now i actor = Inr s' \<Longrightarrow> view s s'"
  by (auto simp: reject_rfq_def cancel_rfq_def archive_rfq_def close_rfq_def intro: view_rest)

lemma reject_quote_checkpoint_view:
  assumes "reject_quote_checkpoint ck s now rfq q actor reason = (c, out)"
  shows "view s c"
proof -
  define t where "t = (if filter (\<lambda>x. qt_id x \<noteq> qt_id q) (active_quotes s (rq_id rfq)) = [] \<and> rq_state rfq = RS_quoted
     then add_event ((state_event (rq_id rfq) RS_quoted RS_sent now)\<lparr>re_reason := Some ''ALL_QUOTES_REJECTED'', re_user_id := Some actor\<rparr>)
            (write_rfq (rq_id rfq) (\<lambda>r. r\<lparr>rq_state := RS_sent\<rparr>) (with_outbox out (write_quote (qt_id q) (rejection now actor reason) s)))
     else with_outbox out (write_quote (qt_id q) (rejection now actor reason) s))"
  have "rfq_rest t = rfq_rest s" "next_uuid s \<le> next_uuid t"
    using with_outbox_simps(5)[of "write_quote (qt_id q) (rejection now actor reason) s" out] by (simp_all add: t_def)
  then show ?thesis
    unfolding reject_quote_checkpoint_eq[OF assms] t_def[symmetric] using view_trans[OF view_rest run_checkpoint_view] by simp
qed

lemma reject_quote_view:
  assumes "reject_quote send ck s now i k actor reason = Inr (s', sent)"
  shows "view s s'"
proof -
  obtain r q where run: "(case reject_quote_checkpoint ck s now r q actor reason of (c, out) \<Rightarrow>
      (case out of None \<Rightarrow> (c, []) | Some row \<Rightarrow> send_row send now row (c, []))) = (s', sent)"
    using assms by (auto simp: reject_quote_def case_prod_beta)
  obtain c out where ck: "reject_quote_checkpoint ck s now r q actor reason = (c, out)" by fastforce
  have "view s c" by (rule reject_quote_checkpoint_view[OF ck])
  with run ck show ?thesis
    using view_trans[OF _ send_row_view[of "(c, [])" send now]] by (cases out) (auto, metis fst_conv)
qed

text \<open>An award books at most two contracts and otherwise stays inside the frame.\<close>

lemma award_trade_view:
  assumes "award_trade s now today ref rfq actor = (s', out)" and "rfq \<in> set (rfqs s)"
  shows "\<exists>t. booked\<^sup>*\<^sup>* s t \<and> view t s'"
  using assms(1) unfolding award_trade_def
proof (elim txn_then_invariant)
  fix c0 rk c1 q c2 cp
  assume "(case book_trade now today ref rfq (qt_counterparty_id q) q s of Inl e \<Rightarrow> (s, Inl e)
    | Inr (s1, c) \<Rightarrow> (award_events now actor (rq_id rfq) [qt_id q] [qt_counterparty_id q] (Trade_snapshot rk) [c] s1, Inr ())) = (s', out)"
  then consider "s' = s" | s1 c where "book_trade now today ref rfq (qt_counterparty_id q) q s = Inr (s1, c)"
      "s' = award_events now actor (rq_id rfq) [qt_id q] [qt_counterparty_id q] (Trade_snapshot rk) [c] s1"
    by (auto split: sum.splits)
  then show "\<exists>t. booked\<^sup>*\<^sup>* s t \<and> view t s'"
  proof cases
    case 1
    then show ?thesis by auto
  next
    case (2 s1 c)
    then have "booked s s1" using assms(2) bookedI by blast
    moreover have "view s1 s'" unfolding 2(2) by (rule view_rest) simp_all
    ultimately show ?thesis by blast
  qed
qed (auto dest: kyc_gate_view)

lemma award_spread_view:
  assumes "award_spread s now today ref1 ref2 rfq actor = (s', out)"
  shows "\<exists>t. booked\<^sup>*\<^sup>* s t \<and> view t s'"
  using assms unfolding award_spread_def
proof (elim txn_then_invariant)
  fix c0 rk c1 c2 cp and top :: SpreadRankingEntry
  assume "(case and_then (book_child now today ref1 (sre_counterparty_id top) (rq_buy_trade_id rfq) (sre_buy_quote top) s) (\<lambda>(s1, c1).
          and_then (book_child now today ref2 (sre_counterparty_id top) (rq_sell_trade_id rfq) (sre_sell_quote top) s1) (\<lambda>(s2, c2).
          let s3 = award_events now actor (rq_id rfq) [qt_id (sre_buy_quote top), qt_id (sre_sell_quote top)]
                [sre_counterparty_id top] (Spread_snapshot rk) [c1, c2] s2
          in and_then (close_child now actor rfq (rq_buy_trade_id rfq) c1 s3) (\<lambda>s4.
             close_child now actor rfq (rq_sell_trade_id rfq) c2 s4))) of
       Inl e \<Rightarrow> (s, Inl e) | Inr s' \<Rightarrow> (s', Inr ())) = (s', out)"
  then have "s' = s \<or> (\<exists>s1 k1 s2 k2 s4. book_child now today ref1 (sre_counterparty_id top) (rq_buy_trade_id rfq) (sre_buy_quote top) s = Inr (s1, k1)
      \<and> book_child now today ref2 (sre_counterparty_id top) (rq_sell_trade_id rfq) (sre_sell_quote top) s1 = Inr (s2, k2)
      \<and> close_child now actor rfq (rq_buy_trade_id rfq) k1 (award_events now actor (rq_id rfq) [qt_id (sre_buy_quote top), qt_id (sre_sell_quote top)]
            [sre_counterparty_id top] (Spread_snapshot rk) [k1, k2] s2) = Inr s4
      \<and> close_child now actor rfq (rq_sell_trade_id rfq) k2 s4 = Inr s')"
    by (auto split: sum.splits)
  then consider "s' = s" | s1 k1 s2 k2 s3 s4 where
      "book_child now today ref1 (sre_counterparty_id top) (rq_buy_trade_id rfq) (sre_buy_quote top) s = Inr (s1, k1)"
      "book_child now today ref2 (sre_counterparty_id top) (rq_sell_trade_id rfq) (sre_sell_quote top) s1 = Inr (s2, k2)"
      "rfq_rest s3 = rfq_rest s2" "next_uuid s2 \<le> next_uuid s3"
      "close_child now actor rfq (rq_buy_trade_id rfq) k1 s3 = Inr s4" "close_child now actor rfq (rq_sell_trade_id rfq) k2 s4 = Inr s'"
    using award_events_rest by metis
  then show "\<exists>t. booked\<^sup>*\<^sup>* s t \<and> view t s'"
  proof cases
    case 1
    then show ?thesis by auto
  next
    case 2
    have "booked s s1" "booked s1 s2"
      using 2(1,2) book_child_booked by blast+
    then have "booked\<^sup>*\<^sup>* s s2" by (meson rtranclp.rtrancl_into_rtrancl rtranclp.rtrancl_refl)
    moreover have "view s2 s'"
      using close_child_rest[OF 2(5)] close_child_rest[OF 2(6)] 2(3,4) by (intro view_rest) simp_all
    ultimately show ?thesis by blast
  qed
qed (auto dest: kyc_gate_view)

lemma award_rfq_view:
  assumes "award_rfq s now today ref1 ref2 i actor = (s', out)"
  shows "\<exists>t. booked\<^sup>*\<^sup>* s t \<and> view t s'"
  using assms unfolding award_rfq_def
proof (elim txn_then_invariant)
  fix c rfq c' x
  assume "(s, get_live s i) = (c, Inr rfq)"
  then have "rfq \<in> set (rfqs s)" by (auto simp: get_live_def get_rfq_def dest: get_rfq_row_in)
  moreover assume "(if rq_intent rfq = RI_spread then award_spread s now today ref1 ref2 rfq actor else award_trade s now today ref1 rfq actor) = (s', out)"
  ultimately show "\<exists>t. booked\<^sup>*\<^sup>* s t \<and> view t s'"
    using award_trade_view award_spread_view by (auto split: if_splits)
qed auto

end

end
