(* ===== verification/RFQ_Lifecycle.thy ===== *)
theory RFQ_Lifecycle
  imports RFQ_Frame
begin

text \<open>
  The life of requests for quote over all runs of the service: the state machine is recorded
  exactly by the state events, a trade is QUOTED exactly while it has an active quote, and no
  request is awarded twice.
\<close>

section \<open>The log of a request\<close>

definition log_of :: "db \<Rightarrow> uuid \<Rightarrow> RFQStateEvent list" where
  "log_of s i = filter (\<lambda>e. re_rfq_id e = i) (rfq_state_events s)"

fun replay :: "RFQState \<Rightarrow> RFQStateEvent list \<Rightarrow> RFQState option" where
  "replay st [] = Some st"
| "replay st (e # es) = (if re_from_state e = st then replay (re_to_state e) es else None)"

lemma replay_snoc: "replay st es = Some a \<Longrightarrow> replay st (es @ [e]) = (if re_from_state e = a then Some (re_to_state e) else None)"
  by (induction es arbitrary: st) (auto split: if_splits)

section \<open>The invariant\<close>

text \<open>The requests that contracts were booked for, in the order of the contracts.\<close>

definition award_refs :: "db \<Rightarrow> uuid list" where
  "award_refs s = List.map_filter hc_rfq_id (contracts s)"

definition spread_ok :: "db \<Rightarrow> RFQ \<Rightarrow> bool" where
  "spread_ok s r \<longleftrightarrow> (\<exists>b l. rq_buy_trade_id r = Some b \<and> rq_sell_trade_id r = Some l \<and> b \<noteq> l
     \<and> joined (\<lambda>x. rq_intent x \<noteq> RI_spread) (get_rfq_row s b) \<and> joined (\<lambda>x. rq_intent x \<noteq> RI_spread) (get_rfq_row s l))"

definition quotes_ok :: "db \<Rightarrow> RFQ \<Rightarrow> bool" where
  "quotes_ok s r \<longleftrightarrow> (rq_state r = RS_quoted \<longrightarrow> active_quotes s (rq_id r) \<noteq> [])
     \<and> (rq_state r \<in> {RS_created, RS_sent} \<longrightarrow> active_quotes s (rq_id r) = [])"

definition rfq_ok :: "db \<Rightarrow> RFQ \<Rightarrow> bool" where
  "rfq_ok s r \<longleftrightarrow> 0 < rq_quantity_mt r \<and> quantize_mt (rq_quantity_mt r) = rq_quantity_mt r
     \<and> replay RS_created (log_of s (rq_id r)) = Some (rq_state r) \<and> rq_state r \<noteq> RS_awarded
     \<and> count_list (award_refs s) (rq_id r) \<le> (if rq_state r = RS_closed \<and> rq_intent r \<noteq> RI_spread then 1 else 0)
     \<and> (if rq_intent r = RI_spread then spread_ok s r \<and> active_quotes s (rq_id r) = [] else quotes_ok s r)"

definition rfq_inv :: "db \<Rightarrow> bool" where
  "rfq_inv s \<longleftrightarrow> keyed rq_id (rfqs s) \<and> keyed qt_id (rfq_quotes s)
     \<and> (\<forall>r \<in> set (rfqs s). rq_id r < next_uuid s \<and> rfq_ok s r) \<and> (\<forall>q \<in> set (rfq_quotes s). qt_id q < next_uuid s)
     \<and> qt_rfq_id ` set (rfq_quotes s) \<subseteq> rq_id ` set (rfqs s) \<and> re_rfq_id ` set (rfq_state_events s) \<subseteq> rq_id ` set (rfqs s)
     \<and> set (award_refs s) \<subseteq> rq_id ` set (rfqs s)"

definition same_rfq_view :: "db \<Rightarrow> db \<Rightarrow> bool" where
  "same_rfq_view s s' \<longleftrightarrow> rfqs s' = rfqs s \<and> rfq_quotes s' = rfq_quotes s \<and> rfq_state_events s' = rfq_state_events s
     \<and> award_refs s' = award_refs s \<and> next_uuid s \<le> next_uuid s'"

lemma same_rfq_view_refl [simp]: "same_rfq_view s s"
  by (simp add: same_rfq_view_def)

lemma same_rfq_view_trans: "same_rfq_view s t \<Longrightarrow> same_rfq_view t u \<Longrightarrow> same_rfq_view s u"
  by (simp add: same_rfq_view_def)

lemma rfq_ok_view: "same_rfq_view s s' \<Longrightarrow> rfq_ok s' r = rfq_ok s r"
  by (simp add: same_rfq_view_def rfq_ok_def log_of_def active_quotes_def spread_ok_def quotes_ok_def get_rfq_row_def)

lemma rfq_inv_view: "same_rfq_view s s' \<Longrightarrow> rfq_inv s \<Longrightarrow> rfq_inv s'"
  using rfq_ok_view[of s s'] by (auto simp: rfq_inv_def same_rfq_view_def intro: less_le_trans)

lemma rfq_invD:
  assumes "rfq_inv s" and "get_rfq_row s i = Some r"
  shows "r \<in> set (rfqs s)" "rq_id r = i" "rfq_ok s r" "i < next_uuid s"
  using assms get_row_SomeD[of rq_id i "rfqs s" r] by (auto simp: rfq_inv_def get_rfq_row_def)

section \<open>Rewriting rows\<close>

text \<open>Which columns of a request never change.\<close>

definition same_terms :: "RFQ \<Rightarrow> RFQ \<Rightarrow> bool" where
  "same_terms r r' \<longleftrightarrow> rq_id r' = rq_id r \<and> rq_intent r' = rq_intent r \<and> rq_quantity_mt r' = rq_quantity_mt r
     \<and> rq_direction r' = rq_direction r \<and> rq_commodity r' = rq_commodity r \<and> rq_order_id r' = rq_order_id r
     \<and> rq_buy_trade_id r' = rq_buy_trade_id r \<and> rq_sell_trade_id r' = rq_sell_trade_id r"

lemma same_terms_refl [simp]: "same_terms r r"
  by (simp add: same_terms_def)

lemma get_rfq_row_map:
  assumes "rfqs s' = map g (rfqs s)" and "\<And>r. same_terms r (g r)"
  shows "get_rfq_row s' i = map_option g (get_rfq_row s i)"
  using assms(2) unfolding get_rfq_row_def assms(1) by (intro get_row_map) (simp add: same_terms_def)

lemma spread_ok_map:
  assumes "rfqs s' = map g (rfqs s)" and "\<And>r. same_terms r (g r)" and "spread_ok s r"
  shows "spread_ok s' (g r)"
proof -
  have "joined (\<lambda>x. rq_intent x \<noteq> RI_spread) (get_rfq_row s' j)" if "joined (\<lambda>x. rq_intent x \<noteq> RI_spread) (get_rfq_row s j)" for j
    using that assms(2) by (cases "get_rfq_row s j") (auto simp: get_rfq_row_map[OF assms(1,2)] same_terms_def)
  with assms(2,3) show ?thesis by (auto simp: spread_ok_def same_terms_def)
qed

text \<open>A row whose log, quotes and contracts did not change is as good as it was.\<close>

lemma rfq_ok_untouched:
  assumes "rfqs s' = map g (rfqs s)" and "\<And>r. same_terms r (g r)" and "rfq_ok s r" and "g r = r"
    and "log_of s' (rq_id r) = log_of s (rq_id r)" "active_quotes s' (rq_id r) = active_quotes s (rq_id r)"
    and "count_list (award_refs s') (rq_id r) = count_list (award_refs s) (rq_id r)"
  shows "rfq_ok s' (g r)"
  using assms(3-7) spread_ok_map[OF assms(1,2), of r] by (auto simp: rfq_ok_def quotes_ok_def)

lemma rfq_inv_map:
  assumes "rfq_inv s" and "rfqs s' = map g (rfqs s)" and "\<And>r. same_terms r (g r)"
    and "next_uuid s \<le> next_uuid s'" "keyed qt_id (rfq_quotes s')" "\<forall>q \<in> set (rfq_quotes s'). qt_id q < next_uuid s'"
    and "qt_rfq_id ` set (rfq_quotes s') \<subseteq> rq_id ` set (rfqs s)" "re_rfq_id ` set (rfq_state_events s') \<subseteq> rq_id ` set (rfqs s)"
    and "set (award_refs s') \<subseteq> rq_id ` set (rfqs s)" and "\<And>r. r \<in> set (rfqs s) \<Longrightarrow> rfq_ok s' (g r)"
  shows "rfq_inv s'"
proof -
  have ids: "rq_id \<circ> g = rq_id" using assms(3) by (auto simp: same_terms_def)
  then have "keyed rq_id (rfqs s')" using assms(1) by (simp add: rfq_inv_def keyed_def assms(2))
  moreover have "rq_id ` set (rfqs s') = rq_id ` set (rfqs s)" by (simp add: assms(2) image_comp ids)
  moreover have "rq_id r < next_uuid s' \<and> rfq_ok s' r" if "r \<in> set (rfqs s')" for r
    using that assms(1,4,10) ids by (auto simp: assms(2) rfq_inv_def fun_eq_iff intro: less_le_trans)
  ultimately show ?thesis using assms(5-9) by (simp add: rfq_inv_def)
qed

text \<open>One request moves along the events appended for it; its quotes and contracts may change with it.\<close>

lemma rfq_inv_move:
  assumes inv: "rfq_inv s" and r: "get_rfq_row s i = Some r" and f: "\<And>x. same_terms x (f x)"
    and rows: "rfqs s' = update_row rq_id i f (rfqs s)"
    and log: "rfq_state_events s' = rfq_state_events s @ es" "\<forall>e \<in> set es. re_rfq_id e = i"
      "replay (rq_state r) es = Some (rq_state (f r))" "rq_state (f r) \<noteq> RS_awarded"
    and quotes: "keyed qt_id (rfq_quotes s')" "\<forall>q \<in> set (rfq_quotes s'). qt_id q < next_uuid s'"
      "qt_rfq_id ` set (rfq_quotes s') \<subseteq> rq_id ` set (rfqs s)" "\<And>j. j \<noteq> i \<Longrightarrow> active_quotes s' j = active_quotes s j"
      "if rq_intent r = RI_spread then active_quotes s' i = [] else quotes_ok s' (f r)"
    and awards: "set (award_refs s') \<subseteq> rq_id ` set (rfqs s)" "\<And>j. j \<noteq> i \<Longrightarrow> count_list (award_refs s') j = count_list (award_refs s) j"
      "count_list (award_refs s') i \<le> (if rq_state (f r) = RS_closed \<and> rq_intent r \<noteq> RI_spread then 1 else 0)"
    and "next_uuid s \<le> next_uuid s'"
  shows "rfq_inv s'"
proof -
  define g where "g = (\<lambda>x. if rq_id x = i then f x else x)"
  have g: "same_terms x (g x)" for x using f by (simp add: g_def)
  have rows': "rfqs s' = map g (rfqs s)" by (simp add: rows update_row_def g_def)
  note r' = rfq_invD[OF inv r]
  have log_i: "log_of s' j = (if j = i then log_of s i @ es else log_of s j)" for j
    using log(2) by (auto simp: log_of_def log(1) filter_empty_conv filter_id_conv)
  have "rfq_ok s' (g x)" if x: "x \<in> set (rfqs s)" for x
  proof (cases "rq_id x = i")
    case True
    then have "x = r" using keyed_inj[of rq_id "rfqs s" x r] inv x r'(1,2) by (simp add: rfq_inv_def)
    have "replay RS_created (log_of s i) = Some (rq_state r)" using r'(2,3) by (simp add: rfq_ok_def)
    moreover have "replay a (xs @ ys) = Option.bind (replay a xs) (\<lambda>b. replay b ys)" for a xs ys
      by (induction xs arbitrary: a) auto
    ultimately have "replay RS_created (log_of s' i) = Some (rq_state (f r))"
      using log(3) by (simp add: log_i)
    then show ?thesis
      using r'(2,3) f[of r] log(4) quotes(5) awards(3) spread_ok_map[OF rows' g, of r] True \<open>x = r\<close>
      by (auto simp: rfq_ok_def same_terms_def g_def)
  next
    case False
    then show ?thesis
      using inv x quotes(4) awards(2) by (intro rfq_ok_untouched[OF rows' g]) (auto simp: g_def log_i rfq_inv_def)
  qed
  moreover have "re_rfq_id ` set (rfq_state_events s') \<subseteq> rq_id ` set (rfqs s)"
    using inv log(2) r'(1,2) by (auto simp: log(1) rfq_inv_def)
  ultimately show ?thesis
    using inv rows' g assms(8-) quotes(1-3) awards(1) by (intro rfq_inv_map[of s s' g]) simp_all
qed

text \<open>Steps that write an event and one row, and nothing else the invariant reads.\<close>

lemma active_quotes_cong: "rfq_quotes s' = rfq_quotes s \<Longrightarrow> active_quotes s' j = active_quotes s j"
  by (simp add: active_quotes_def)

lemma award_refs_cong: "contracts s' = contracts s \<Longrightarrow> award_refs s' = award_refs s"
  by (simp add: award_refs_def)

lemma transition_inv:
  assumes inv: "rfq_inv s" and r: "get_rfq_row s i = Some r" and f: "\<And>x. same_terms x (f x)"
    and e: "re_rfq_id e = i" "re_from_state e = rq_state r" "re_to_state e = rq_state (f r)" "rq_state (f r) \<noteq> RS_awarded"
    and quotes: "rq_intent r \<noteq> RI_spread \<Longrightarrow> quotes_ok s (f r)"
    and closed: "rq_state r = RS_closed \<Longrightarrow> rq_state (f r) = RS_closed"
  shows "rfq_inv (add_event e (write_rfq i f s))"
proof (rule rfq_inv_move[OF inv r f, where es = "[e\<lparr>re_id := next_uuid s\<rparr>]"])
  note r' = rfq_invD[OF inv r]
  let ?s' = "add_event e (write_rfq i f s)"
  have same: "active_quotes ?s' j = active_quotes s j" "award_refs ?s' = award_refs s" for j
    by (rule active_quotes_cong, simp) (rule award_refs_cong, simp)
  show "if rq_intent r = RI_spread then active_quotes ?s' i = [] else quotes_ok ?s' (f r)"
    using quotes r'(2,3) by (auto simp: rfq_ok_def quotes_ok_def same)
  show "count_list (award_refs ?s') i \<le> (if rq_state (f r) = RS_closed \<and> rq_intent r \<noteq> RI_spread then 1 else 0)"
    using closed r'(2,3) by (auto simp: rfq_ok_def same split: if_splits)
  show "\<forall>q \<in> set (rfq_quotes ?s'). qt_id q < next_uuid ?s'"
    using inv by (auto simp: rfq_inv_def intro: less_SucI)
  show "keyed qt_id (rfq_quotes ?s')" "qt_rfq_id ` set (rfq_quotes ?s') \<subseteq> rq_id ` set (rfqs s)"
    "set (award_refs ?s') \<subseteq> rq_id ` set (rfqs s)"
    using inv by (simp_all add: rfq_inv_def same)
qed (use e in \<open>simp_all add: active_quotes_def award_refs_def\<close>)

section \<open>Operations that leave the requests alone\<close>

interpretation rqv: outbox_frame same_rfq_view
proof
  show "same_rfq_view s t \<Longrightarrow> same_rfq_view t u \<Longrightarrow> same_rfq_view s u" for s t u by (rule same_rfq_view_trans)
qed (simp_all add: same_rfq_view_def award_refs_def)

section \<open>Creation\<close>

lemma validate_intent_ok:
  assumes "validate_intent p = Inr ()"
  shows "0 < rc_quantity_mt p" "quantize_mt (rc_quantity_mt p) = rc_quantity_mt p"
    "rc_intent p = RI_spread \<Longrightarrow> rc_buy_trade_id p \<noteq> None \<and> rc_sell_trade_id p \<noteq> None \<and> rc_buy_trade_id p \<noteq> rc_sell_trade_id p"
  using assms by (auto simp: validate_intent_def not_le split: RFQIntent.splits)

lemma new_rfq_simps [simp]:
  "rq_id (new_rfq i seq now today p sn) = i" "rq_state (new_rfq i seq now today p sn) = RS_created"
  "rq_quantity_mt (new_rfq i seq now today p sn) = rc_quantity_mt p" "rq_intent (new_rfq i seq now today p sn) = rc_intent p"
  "rq_buy_trade_id (new_rfq i seq now today p sn) = rc_buy_trade_id p" "rq_sell_trade_id (new_rfq i seq now today p sn) = rc_sell_trade_id p"
  by (simp_all add: new_rfq_def Let_def)

lemma get_rfq_row_fresh: "rfq_inv s \<Longrightarrow> get_rfq_row s (next_uuid s) = None"
  by (auto simp: rfq_inv_def get_rfq_row_def get_row_None_iff)

lemma add_rfq_inv:
  assumes inv: "rfq_inv s" and rows: "rfqs s' = rfqs s @ [r]" and same: "rfq_quotes s' = rfq_quotes s" "rfq_state_events s' = rfq_state_events s"
      "award_refs s' = award_refs s" and id: "rq_id r = next_uuid s" "next_uuid s < next_uuid s'"
    and r: "rq_state r = RS_created" "0 < rq_quantity_mt r" "quantize_mt (rq_quantity_mt r) = rq_quantity_mt r"
      "rq_intent r = RI_spread \<Longrightarrow> spread_ok s r"
  shows "rfq_inv s'"
proof -
  have new: "next_uuid s \<notin> rq_id ` set (rfqs s)" using inv by (auto simp: rfq_inv_def)
  have empty: "log_of s' (next_uuid s) = []" "active_quotes s' (next_uuid s) = []" "count_list (award_refs s') (next_uuid s) = 0"
    using inv new by (force simp: rfq_inv_def log_of_def active_quotes_def same filter_empty_conv count_list_0_iff)+
  have grow: "spread_ok s' x" if "spread_ok s x" for x
  proof -
    have "joined P (get_rfq_row s' j)" if "joined P (get_rfq_row s j)" for P j
      using that by (cases "get_rfq_row s j") (auto simp: get_rfq_row_def rows get_row_append)
    with that show ?thesis unfolding spread_ok_def by blast
  qed
  have "rfq_ok s' r" using r empty grow by (auto simp: rfq_ok_def id quotes_ok_def)
  moreover have "rfq_ok s' x" if "x \<in> set (rfqs s)" for x
  proof -
    have "rfq_ok s x" using inv that by (simp add: rfq_inv_def)
    then show ?thesis using grow by (auto simp: rfq_ok_def quotes_ok_def log_of_def active_quotes_def same)
  qed
  ultimately show ?thesis
    using inv new id unfolding rfq_inv_def rows by (auto simp: same keyed_snoc intro: less_trans)
qed

lemma check_spread_trades_ok:
  assumes "check_spread_trades s p = Inr ()" and "rc_buy_trade_id p \<noteq> rc_sell_trade_id p"
    and "rq_buy_trade_id r = rc_buy_trade_id p" "rq_sell_trade_id r = rc_sell_trade_id p"
  shows "spread_ok s r"
  using assms by (auto simp: check_spread_trades_def spread_ok_def Option.bind_eq_Some_conv split: option.splits)

lemma post_rfq_inv:
  assumes "rfq_inv s" and "post_rfq show_dec send ck s now today p actor = (s', r)"
  shows "rfq_inv s'"
  using assms(2) unfolding post_rfq_def
proof (cases rule: txn_then_cases)
  case raised
  then show ?thesis using assms(1) by simp
next
  case (returned c u)
  then have valid: "validate_intent p = Inr ()" by simp
  obtain c1 r1 where ph: "create_phase1 show_dec ck s now today p actor = (c1, r1)" by fastforce
  from ph show ?thesis
  proof (cases rule: rqv.create_phase1_cases)
    case (raised e)
    with returned(2) ph show ?thesis using rfq_inv_view[OF raised(2) assms(1)] by (simp add: create_rfq_def)
  next
    case (queued rfq rows snapshot)
    define s2 where "s2 = fst (fold (send_row send now) rows (c1, []))"
    have s': "s' = mark_sent now actor (rq_id rfq) s2"
      using returned(2) ph queued(1) by (auto simp: create_rfq_def s2_def split: prod.splits)
    have "rfq_inv (s\<lparr>rfqs := rfqs s @ [rfq], rfq_invitations := rfq_invitations s @ rows,
          rfq_sequence := Suc (rfq_sequence s), next_uuid := Suc (next_uuid s) + length rows\<rparr>)"
      by (rule add_rfq_inv[OF assms(1)])
        (use validate_intent_ok[OF valid] queued in \<open>auto simp: award_refs_def intro: check_spread_trades_ok\<close>)
    then have "rfq_inv c1" unfolding queued(4) by (rule rfq_inv_view[OF rqv.run_checkpoint_view])
    then have inv2: "rfq_inv s2" unfolding s2_def using rqv.send_rows_view[of "(c1, [])"] by (auto intro: rfq_inv_view)
    have "rfqs s2 = rfqs s @ [rfq]"
      using rqv.send_rows_view[of "(c1, [])" send now rows] rqv.run_checkpoint_view[of _ ck "rq_id rfq"]
      by (simp add: s2_def same_rfq_view_def queued(4))
    then have row: "get_rfq_row s2 (rq_id rfq) = Some rfq"
      using get_rfq_row_fresh[OF assms(1)] by (simp add: get_rfq_row_def get_row_append queued(2))
    have "rfq_ok s2 rfq" by (rule rfq_invD(3)[OF inv2 row])
    then have "rfq_inv (add_event ((state_event (rq_id rfq) RS_created RS_sent now)\<lparr>re_user_id := Some actor\<rparr>)
             (write_rfq (rq_id rfq) (\<lambda>r. r\<lparr>rq_state := RS_sent\<rparr>) s2))"
      by (intro transition_inv[OF inv2 row])
        (auto simp: same_terms_def state_event_def queued(2) rfq_ok_def quotes_ok_def)
    then show ?thesis using inv2 by (simp add: s' mark_sent_def)
  qed
qed

section \<open>Quotes\<close>

lemma get_live_Inr [simp]: "get_live s i = Inr r \<longleftrightarrow> get_rfq_row s i = Some r \<and> rq_deleted_at r = None"
  by (auto simp: get_live_def get_rfq_def)

lemma check_quote_Inr:
  "check_quote s i p = Inr r \<Longrightarrow> get_rfq_row s i = Some r \<and> rq_intent r \<noteq> RI_spread \<and> rq_state r \<in> {RS_sent, RS_quoted}
     \<and> 0 < qc_fixed_price_value p \<and> qc_fixed_price_unit p = ''USD/MT''"
  by (auto simp: check_quote_def CANONICAL_PRICE_UNITS_def)

lemma add_quote_inv:
  assumes inv: "rfq_inv s" and r: "get_rfq_row s i = Some r" and st: "rq_intent r \<noteq> RI_spread" "rq_state r \<in> {RS_sent, RS_quoted}"
    and q: "qt_id q = next_uuid s" "qt_rfq_id q = i" "qt_state q = QS_active"
    and s1: "s1 = s\<lparr>rfq_quotes := rfq_quotes s @ [q], next_uuid := Suc (next_uuid s)\<rparr>"
  shows "rfq_inv (if rq_state r = RS_sent then mark_quoted i q now s1 else s1)" (is "rfq_inv ?s'")
proof -
  define es where "es = (if rq_state r = RS_sent then [(quoted_event i q now)\<lparr>re_id := Suc (next_uuid s)\<rparr>] else [])"
  define f where "f = (if rq_state r = RS_sent then (\<lambda>x :: RFQ. x\<lparr>rq_state := RS_quoted\<rparr>) else id)"
  have quotes': "rfq_quotes ?s' = rfq_quotes s @ [q]" by (simp add: mark_quoted_def s1)
  have active: "active_quotes ?s' j = active_quotes s j @ (if j = i then [q] else [])" for j
    using q by (simp add: active_quotes_def quotes')
  have same: "award_refs ?s' = award_refs s" by (simp add: award_refs_def mark_quoted_def s1)
  note r' = rfq_invD[OF inv r]
  show ?thesis
  proof (rule rfq_inv_move[OF inv r, where f = f and es = es])
    show "same_terms x (f x)" for x by (simp add: f_def same_terms_def)
    show "rfqs ?s' = update_row rq_id i f (rfqs s)" by (simp add: mark_quoted_def s1 f_def update_row_def map_idI)
    show "rfq_state_events ?s' = rfq_state_events s @ es" by (simp add: mark_quoted_def s1 es_def)
    show "replay (rq_state r) es = Some (rq_state (f r))" "\<forall>e \<in> set es. re_rfq_id e = i" "rq_state (f r) \<noteq> RS_awarded"
      using st by (auto simp: es_def f_def quoted_event_def state_event_def)
    show "keyed qt_id (rfq_quotes ?s')" "\<forall>x \<in> set (rfq_quotes ?s'). qt_id x < next_uuid ?s'"
      unfolding quotes' using inv q by (auto simp: rfq_inv_def keyed_snoc mark_quoted_def s1 less_Suc_eq)
    show "qt_rfq_id ` set (rfq_quotes ?s') \<subseteq> rq_id ` set (rfqs s)"
      using inv q imageI[OF r'(1), of rq_id] r'(2) by (auto simp: quotes' rfq_inv_def)
    show "active_quotes ?s' j = active_quotes s j" if "j \<noteq> i" for j using that by (simp only: active if_False append_Nil2)
    show "if rq_intent r = RI_spread then active_quotes ?s' i = [] else quotes_ok ?s' (f r)"
      using st r'(2) by (auto simp: quotes_ok_def f_def active)
    show "set (award_refs ?s') \<subseteq> rq_id ` set (rfqs s)" using inv by (simp add: same rfq_inv_def)
    show "count_list (award_refs ?s') i \<le> (if rq_state (f r) = RS_closed \<and> rq_intent r \<noteq> RI_spread then 1 else 0)"
      using r'(2,3) st by (auto simp: same rfq_ok_def)
  qed (simp_all add: same mark_quoted_def s1)
qed

lemma mark_quoted_spread_inv:
  assumes "rfq_inv s" and "get_rfq_row s i = Some r" and "rq_intent r = RI_spread" "rq_state r = RS_sent"
  shows "rfq_inv (mark_quoted i q now s)"
  unfolding mark_quoted_def
  by (rule transition_inv[OF assms(1,2)]) (use assms(3,4) in \<open>auto simp: same_terms_def quoted_event_def state_event_def\<close>)

lemma propagate_inv:
  assumes "fold_result (propagate_to_spread q now) parents s = Inr s'" and "rfq_inv s" and "distinct (map rq_id parents)"
    and "\<And>r. r \<in> set parents \<Longrightarrow> get_rfq_row s (rq_id r) = Some r \<and> rq_intent r = RI_spread \<and> rq_state r = RS_sent"
  shows "rfq_inv s'"
  using assms
proof (induction parents arbitrary: s)
  case Nil
  then show ?case by simp
next
  case (Cons r parents)
  then obtain t where t: "propagate_to_spread q now r s = Inr t" "fold_result (propagate_to_spread q now) parents t = Inr s'"
    by (auto split: sum.splits)
  then have t': "t = s \<or> t = mark_quoted (rq_id r) q now s"
    by (auto simp: propagate_to_spread_def split: option.splits if_splits)
  have "rfq_inv t" using t' Cons.prems(2,4) mark_quoted_spread_inv by auto
  moreover have "get_rfq_row t (rq_id x) = get_rfq_row s (rq_id x)" if "x \<in> set parents" for x
  proof -
    have "rq_id x \<noteq> rq_id r" using imageI[OF that, of rq_id] Cons.prems(3) by auto
    then show ?thesis using t' by (auto simp: mark_quoted_def get_rfq_row_def table_simps)
  qed
  ultimately show ?case
    using t(2) Cons.prems(3,4) by (intro Cons.IH[of t]) auto
qed

lemma submit_quote_inv:
  assumes "rfq_inv s" and "submit_quote s now i p actor inbound = (s', r)"
  shows "rfq_inv s'"
  using assms(2) unfolding submit_quote_def
proof (cases rule: txn_then_cases)
  case raised
  then show ?thesis using assms(1) by simp
next
  case 1: (returned c u)
  from 1(2) show ?thesis
  proof (cases rule: txn_then_cases)
    case raised
    then show ?thesis using assms(1) by simp
  next
    case 2: (returned c' rfq)
    then have rfq: "get_rfq_row s i = Some rfq" "rq_intent rfq \<noteq> RI_spread" "rq_state rfq \<in> {RS_sent, RS_quoted}"
      using check_quote_Inr by auto
    from 2(2) show ?thesis
    proof (cases rule: txn_then_cases)
      case raised
      then show ?thesis using assms(1) rqv.kyc_gate_view rfq_inv_view by blast
    next
      case 3: (returned c'' cp)
      define q where "q = new_quote s now i p"
      define s2 where "s2 = (if rq_state rfq = RS_sent then mark_quoted i q now
          (s\<lparr>rfq_quotes := rfq_quotes s @ [q], next_uuid := Suc (next_uuid s)\<rparr>)
        else s\<lparr>rfq_quotes := rfq_quotes s @ [q], next_uuid := Suc (next_uuid s)\<rparr>)"
      have inv2: "rfq_inv s2"
        unfolding s2_def by (rule add_quote_inv[OF assms(1) rfq]) (simp_all add: q_def new_quote_def)
      have "s' = s \<or> fold_result (propagate_to_spread q now) (parent_spreads s2 i) s2 = Inr s'"
        using 3(2) by (auto simp: Let_def q_def s2_def split: sum.splits)
      moreover have "distinct (map rq_id (parent_spreads s2 i))"
        using inv2 by (simp add: rfq_inv_def keyed_def parent_spreads_def distinct_map_filter)
      moreover have "get_rfq_row s2 (rq_id x) = Some x \<and> rq_intent x = RI_spread \<and> rq_state x = RS_sent"
        if "x \<in> set (parent_spreads s2 i)" for x
        using that inv2 get_row_keyed[of rq_id "rfqs s2" x] by (auto simp: parent_spreads_def get_rfq_row_def rfq_inv_def)
      ultimately show ?thesis using assms(1) inv2 propagate_inv by metis
    qed
  qed
qed

section \<open>Closing\<close>

lemma close_rfq_inv:
  assumes "rfq_inv s" and "get_rfq_row s i = Some r"
  shows "rfq_inv (close_rfq now actor reason r s)"
proof -
  have id: "rq_id r = i" using rfq_invD(2)[OF assms] .
  show ?thesis
    unfolding close_rfq_def id
    by (rule transition_inv[OF assms]) (auto simp: same_terms_def state_event_def quotes_ok_def)
qed

lemma closing_ops_inv:
  assumes "rfq_inv s"
  shows "reject_rfq s now i actor = Inr s' \<Longrightarrow> rfq_inv s'" "cancel_rfq s now i actor = Inr s' \<Longrightarrow> rfq_inv s'"
    "archive_rfq s now i actor = Inr s' \<Longrightarrow> rfq_inv s'"
proof -
  show "reject_rfq s now i actor = Inr s' \<Longrightarrow> rfq_inv s'" "cancel_rfq s now i actor = Inr s' \<Longrightarrow> rfq_inv s'"
    using close_rfq_inv[OF assms] by (auto simp: reject_rfq_def cancel_rfq_def)
  assume "archive_rfq s now i actor = Inr s'"
  then obtain r where r: "get_rfq_row s i = Some r" "rq_state r = RS_closed"
    and s': "s' = add_event ((state_event i (rq_state r) (rq_state r) now)\<lparr>re_trigger := Some ''archive'', re_user_id := Some actor\<rparr>)
           (write_rfq i (\<lambda>r. r\<lparr>rq_deleted_at := Some now\<rparr>) s)"
    by (auto simp: archive_rfq_def get_rfq_def)
  show "rfq_inv s'"
    unfolding s' by (rule transition_inv[OF assms r(1)]) (use r(2) in \<open>auto simp: same_terms_def state_event_def quotes_ok_def\<close>)
qed

section \<open>Rejected quotes\<close>

lemma active_quotes_reject:
  assumes "keyed qt_id (rfq_quotes s)" and "get_row qt_id k (rfq_quotes s) = Some q"
    and "rfq_quotes s' = update_row qt_id k f (rfq_quotes s)"
    and "\<And>x. qt_id (f x) = qt_id x \<and> qt_rfq_id (f x) = qt_rfq_id x \<and> qt_state (f x) = QS_rejected"
  shows "active_quotes s' j = filter (\<lambda>x. qt_id x \<noteq> k) (active_quotes s j)"
proof -
  have "filter (\<lambda>q. qt_rfq_id q = j \<and> qt_state q = QS_active) (map (\<lambda>r. if qt_id r = k then f r else r) xs) =
      filter (\<lambda>x. qt_id x \<noteq> k) (filter (\<lambda>q. qt_rfq_id q = j \<and> qt_state q = QS_active) xs)" for xs
    by (induction xs) (auto simp: assms(4))
  then show ?thesis by (simp add: active_quotes_def assms(3) update_row_def)
qed

lemma reject_quote_checkpoint_inv:
  assumes inv: "rfq_inv s" and r: "get_rfq_row s i = Some r" "rq_state r \<in> {RS_sent, RS_quoted}"
    and q: "find_active_quote s i k = Inr q" and ck: "reject_quote_checkpoint ck s now r q actor reason = (c, out)"
  shows "rfq_inv c"
proof -
  have row: "get_row qt_id k (rfq_quotes s) = Some q" "qt_id q = k" "q \<in> set (rfq_quotes s)" "qt_rfq_id q = i" "qt_state q = QS_active"
    using q get_row_SomeD[of qt_id k "rfq_quotes s" q] by (auto simp: find_active_quote_def)
  note r' = rfq_invD[OF inv r(1)]
  have in_active: "q \<in> set (active_quotes s i)" using row by (simp add: active_quotes_def)
  then have trade: "rq_intent r \<noteq> RI_spread" and quoted: "rq_state r = RS_quoted"
    using r'(2,3) r(2) by (auto simp: rfq_ok_def quotes_ok_def split: if_splits)
  define gone where "gone = (filter (\<lambda>x. qt_id x \<noteq> k) (active_quotes s i) = [])"
  define f where "f = (if gone then (\<lambda>x :: RFQ. x\<lparr>rq_state := RS_sent\<rparr>) else id)"
  define upd where "upd = rejection now actor reason"
  define s2 where "s2 = with_outbox out (write_quote k upd s)"
  define e where "e = (state_event i RS_quoted RS_sent now)\<lparr>re_reason := Some ''ALL_QUOTES_REJECTED'', re_user_id := Some actor\<rparr>"
  define t where "t = (if gone then add_event e (write_rfq i (\<lambda>r. r\<lparr>rq_state := RS_sent\<rparr>) s2) else s2)"
  define es where "es = (if gone then [e\<lparr>re_id := next_uuid s2\<rparr>] else [])"
  have upd: "qt_id (upd x) = qt_id x \<and> qt_rfq_id (upd x) = qt_rfq_id x \<and> qt_state (upd x) = QS_rejected" for x
    by (simp add: upd_def rejection_def)
  have c: "c = run_checkpoint ck (rq_id r) t"
    using reject_quote_checkpoint_eq[OF ck] quoted by (simp add: t_def s2_def upd_def gone_def e_def row(2) r'(2))
  have s2: "next_uuid s \<le> next_uuid s2" "rfqs s2 = rfqs s" "rfq_quotes s2 = update_row qt_id k upd (rfq_quotes s)" "contracts s2 = contracts s"
    "rfq_state_events s2 = rfq_state_events s"
    using with_outbox_simps(5)[of "write_quote k upd s" out] by (simp_all add: s2_def)
  have t: "rfqs t = update_row rq_id i f (rfqs s)"
    "rfq_quotes t = update_row qt_id k upd (rfq_quotes s)" "contracts t = contracts s" "next_uuid s \<le> next_uuid t"
    using s2 by (simp_all add: t_def f_def update_row_def map_idI)
  have es: "rfq_state_events t = rfq_state_events s @ es" "\<forall>e \<in> set es. re_rfq_id e = i" "replay RS_quoted es = Some (rq_state (f r))"
    using quoted s2(5) by (simp_all add: t_def es_def f_def e_def state_event_def)
  have active: "active_quotes t j = filter (\<lambda>x. qt_id x \<noteq> k) (active_quotes s j)" for j
    by (rule active_quotes_reject[OF _ row(1) t(2)]) (use inv upd in \<open>simp_all add: rfq_inv_def\<close>)
  have other: "active_quotes t j = active_quotes s j" if "j \<noteq> i" for j
  proof -
    have "qt_id x \<noteq> k" if x: "x \<in> set (active_quotes s j)" for x
      using x \<open>j \<noteq> i\<close> row keyed_inj[of qt_id "rfq_quotes s" x q] inv by (auto simp: active_quotes_def rfq_inv_def)
    then show ?thesis by (simp add: active filter_id_conv)
  qed
  have "rfq_inv t"
  proof (rule rfq_inv_move[OF inv r(1) _ t(1) es(1,2)])
    show "same_terms x (f x)" for x by (simp add: f_def same_terms_def)
    show "replay (rq_state r) es = Some (rq_state (f r))" "rq_state (f r) \<noteq> RS_awarded" using es(3) quoted by (simp_all add: f_def)
    show "keyed qt_id (rfq_quotes t)" "\<forall>q\<in>set (rfq_quotes t). qt_id q < next_uuid t" "qt_rfq_id ` set (rfq_quotes t) \<subseteq> rq_id ` set (rfqs s)"
      using inv t(4) keyed_update_row[of qt_id upd k "rfq_quotes s"] upd
      by (auto simp: t(2) rfq_inv_def) (auto simp: update_row_def intro: less_le_trans)
    show "if rq_intent r = RI_spread then active_quotes t i = [] else quotes_ok t (f r)"
      using trade quoted r'(2) by (auto simp: quotes_ok_def f_def active gone_def)
    show "set (award_refs t) \<subseteq> rq_id ` set (rfqs s)" using inv t(3) by (simp add: award_refs_def rfq_inv_def)
    show "count_list (award_refs t) i \<le> (if rq_state (f r) = RS_closed \<and> rq_intent r \<noteq> RI_spread then 1 else 0)"
      using r'(2,3) quoted t(3) by (auto simp: award_refs_def rfq_ok_def)
  qed (use other t(3,4) in \<open>simp_all add: award_refs_def\<close>)
  then show ?thesis unfolding c by (rule rfq_inv_view[OF rqv.run_checkpoint_view])
qed

lemma reject_quote_inv:
  assumes "rfq_inv s" and "reject_quote send ck s now i k actor reason = Inr (s', sent)"
  shows "rfq_inv s'"
proof -
  obtain r q where r: "get_rfq_row s i = Some r" "rq_state r \<in> {RS_sent, RS_quoted}" and q: "find_active_quote s i k = Inr q"
    and run: "(case reject_quote_checkpoint ck s now r q actor reason of (c, out) \<Rightarrow>
      (case out of None \<Rightarrow> (c, []) | Some row \<Rightarrow> send_row send now row (c, []))) = (s', sent)"
    using assms(2) by (auto simp: reject_quote_def check_in_flight_def case_prod_beta)
  obtain c out where ck: "reject_quote_checkpoint ck s now r q actor reason = (c, out)" by fastforce
  with run have s': "(s', sent) = (case out of None \<Rightarrow> (c, []) | Some row \<Rightarrow> send_row send now row (c, []))" by simp
  have "rfq_inv c" by (rule reject_quote_checkpoint_inv[OF assms(1) r q ck])
  then show ?thesis
    using s' rfq_inv_view[OF rqv.send_row_view[of "(c, [])" send now]] by (cases out) (auto, metis fst_conv)
qed

section \<open>Awards\<close>

lemma award_contract_simps [simp]:
  "hc_rfq_id (award_contract i now today ref r cp q) = Some (rq_id r)" "hc_id (award_contract i now today ref r cp q) = i"
  "hc_quantity_mt (award_contract i now today ref r cp q) = rq_quantity_mt r"
  by (simp_all add: award_contract_def determine_contract_legs_def)

lemma create_linkage_frame:
  assumes "create_linkage s now oid cid q = Inr (s', k)"
  shows "\<exists>l. s' = s\<lparr>linkages := linkages s @ [l], next_uuid := Suc (next_uuid s)\<rparr>"
  using assms by (auto simp: create_linkage_def Let_def)

lemma book_trade_cases:
  assumes "book_trade now today ref r cp q s = Inr (s', c)"
  obtains "contracts s' = contracts s @ [award_contract (next_uuid s) now today ref r cp q]" "c = next_uuid s" "next_uuid s < next_uuid s'"
    "rfqs s' = rfqs s" "rfq_quotes s' = rfq_quotes s" "rfq_state_events s' = rfq_state_events s" "award_refs s' = award_refs s @ [rq_id r]"
    "counterparties s' = counterparties s"
proof -
  define s1 where "s1 = s\<lparr>contracts := contracts s @ [award_contract (next_uuid s) now today ref r cp q], next_uuid := Suc (next_uuid s)\<rparr>"
  have "s' = s1 \<or> (\<exists>l. s' = s1\<lparr>linkages := linkages s1 @ [l], next_uuid := Suc (next_uuid s1)\<rparr>)" "c = next_uuid s"
    using assms by (auto simp: book_trade_def Let_def s1_def dest!: create_linkage_frame split: RFQIntent.splits option.splits)
  then show ?thesis
    by (intro that) (auto simp: s1_def award_refs_def List.map_filter_def)
qed

lemma update_row_twice:
  assumes "\<And>x. key (f x) = key x"
  shows "update_row key i g (update_row key i f rows) = update_row key i (g \<circ> f) rows"
  using assms by (auto simp: update_row_def)

lemma award_events_frame:
  "rfqs (award_events now actor i qs cps sn cs s) = update_row rq_id i (\<lambda>r. r\<lparr>rq_state := RS_closed\<rparr>) (rfqs s)"
  "rfq_quotes (award_events now actor i qs cps sn cs s) = rfq_quotes s" "contracts (award_events now actor i qs cps sn cs s) = contracts s"
  "next_uuid (award_events now actor i qs cps sn cs s) = next_uuid s + 2"
  by (simp_all add: award_events_def update_row_twice comp_def)

lemma award_events_log:
  obtains es where "rfq_state_events (award_events now actor i qs cps sn cs s) = rfq_state_events s @ es" "\<forall>e \<in> set es. re_rfq_id e = i"
    "replay RS_quoted es = Some RS_closed"
proof (rule that)
  let ?es = "[(state_event i RS_quoted RS_awarded now)\<lparr>re_user_id := Some actor, re_winning_quote_ids := Some qs,
      re_winning_counterparty_ids := Some cps, re_ranking_snapshot := Some sn, re_award_timestamp := Some now, re_id := next_uuid s\<rparr>,
    (state_event i RS_awarded RS_closed now)\<lparr>re_created_contract_ids := Some cs, re_id := Suc (next_uuid s)\<rparr>]"
  show "rfq_state_events (award_events now actor i qs cps sn cs s) = rfq_state_events s @ ?es" by (simp add: award_events_def)
  show "\<forall>e \<in> set ?es. re_rfq_id e = i" "replay RS_quoted ?es = Some RS_closed" by (simp_all add: state_event_def)
qed

text \<open>Booking a contract for a trade and closing it, in one move.\<close>

lemma book_and_close_inv:
  assumes inv: "rfq_inv s" and r: "get_rfq_row s i = Some r" "rq_state r \<noteq> RS_closed"
    and rows: "rfqs s' = update_row rq_id i (\<lambda>r. r\<lparr>rq_state := RS_closed\<rparr>) (rfqs s)" and quotes: "rfq_quotes s' = rfq_quotes s"
    and log: "rfq_state_events s' = rfq_state_events s @ es" "\<forall>e \<in> set es. re_rfq_id e = i" "replay (rq_state r) es = Some RS_closed"
    and awards: "award_refs s' = award_refs s @ (if rq_intent r = RI_spread then [] else [i])" and uuid: "next_uuid s \<le> next_uuid s'"
  shows "rfq_inv s'"
proof (rule rfq_inv_move[OF inv r(1) _ rows log(1,2)])
  note r' = rfq_invD[OF inv r(1)]
  have none: "count_list (award_refs s) i = 0" using r(2) r'(2,3) by (simp add: rfq_ok_def)
  have active: "active_quotes s' j = active_quotes s j" for j using quotes by (rule active_quotes_cong)
  show "set (award_refs s') \<subseteq> rq_id ` set (rfqs s)" using inv imageI[OF r'(1), of rq_id] r'(2) by (auto simp: awards rfq_inv_def)
  show "count_list (award_refs s') j = count_list (award_refs s) j" if "j \<noteq> i" for j using that by (simp add: awards)
  show "count_list (award_refs s') i \<le> (if rq_state (r\<lparr>rq_state := RS_closed\<rparr>) = RS_closed \<and> rq_intent r \<noteq> RI_spread then 1 else 0)"
    using none by (simp add: awards)
  show "if rq_intent r = RI_spread then active_quotes s' i = [] else quotes_ok s' (r\<lparr>rq_state := RS_closed\<rparr>)"
    using r'(2,3) by (auto simp: quotes_ok_def active rfq_ok_def)
  show "keyed qt_id (rfq_quotes s')" "\<forall>q \<in> set (rfq_quotes s'). qt_id q < next_uuid s'" "qt_rfq_id ` set (rfq_quotes s') \<subseteq> rq_id ` set (rfqs s)"
    using inv uuid by (auto simp: quotes rfq_inv_def intro: less_le_trans)
qed (use log(3) uuid active_quotes_cong[OF quotes] in \<open>simp_all add: same_terms_def\<close>)

lemma award_trade_inv:
  assumes inv: "rfq_inv s" and r: "get_rfq_row s i = Some rfq" "rq_state rfq = RS_quoted" "rq_intent rfq \<noteq> RI_spread"
    and run: "award_trade s now today ref rfq actor = (s', out)"
  shows "rfq_inv s'"
  using run unfolding award_trade_def
proof (cases rule: txn_then_cases)
  case 1: (returned c1 rk)
  from 1(2) show ?thesis
  proof (cases rule: txn_then_cases)
    case 2: (returned c2 q)
    from 2(2) show ?thesis
    proof (cases rule: txn_then_cases)
      case raised
      then show ?thesis using inv rqv.kyc_gate_view rfq_inv_view by blast
    next
      case 3: (returned c3 cp)
      show ?thesis
      proof (cases "book_trade now today ref rfq (qt_counterparty_id q) q s")
        case Inl
        with 3 inv show ?thesis by simp
      next
        case (Inr sc)
        obtain s1 c where sc: "sc = (s1, c)" by fastforce
        have id: "rq_id rfq = i" using rfq_invD(2)[OF inv r(1)] .
        from Inr[unfolded sc] show ?thesis
        proof (rule book_trade_cases)
          assume b: "next_uuid s < next_uuid s1" "rfqs s1 = rfqs s" "rfq_quotes s1 = rfq_quotes s" "rfq_state_events s1 = rfq_state_events s"
            "award_refs s1 = award_refs s @ [rq_id rfq]"
          have s': "s' = award_events now actor i [qt_id q] [qt_counterparty_id q] (Trade_snapshot rk) [c] s1"
            using 3(2) Inr sc id by simp
          obtain es where "rfq_state_events s' = rfq_state_events s1 @ es" "\<forall>e \<in> set es. re_rfq_id e = i" "replay RS_quoted es = Some RS_closed"
            unfolding s' by (rule award_events_log)
          moreover have "award_refs s' = award_refs s @ [i]" using b(5) award_refs_cong[OF award_events_frame(3)] by (simp add: s' id)
          ultimately show ?thesis
            using r b by (intro book_and_close_inv[OF inv r(1), of s' es]) (simp_all add: s' award_events_frame)
        qed
      qed
    qed
  qed (use inv in simp)
qed (use inv in simp)

lemma book_child_cases:
  assumes "book_child now today ref cp child q s = Inr (s', c)"
  obtains b r where "child = Some b" "get_rfq_row s b = Some r" "rq_state r \<noteq> RS_closed" "book_trade now today ref r cp q s = Inr (s', c)"
  using assms by (auto simp: book_child_def)

lemma close_child_frame:
  assumes "close_child now actor parent (Some b) c s = Inr s'" and "get_rfq_row s b = Some r"
  obtains e where "rfqs s' = update_row rq_id b (\<lambda>r. r\<lparr>rq_state := RS_closed\<rparr>) (rfqs s)" "rfq_quotes s' = rfq_quotes s"
    "contracts s' = contracts s" "next_uuid s' = Suc (next_uuid s)" "rfq_state_events s' = rfq_state_events s @ [e]"
    "re_rfq_id e = b" "re_from_state e = rq_state r" "re_to_state e = RS_closed"
  using assms by (auto simp: close_child_def state_event_def)

text \<open>The two legs of a spread are booked first and closed last; the invariant holds at each close of a
  state in which the later contracts are not booked yet.\<close>

lemma award_spread_booked:
  assumes inv: "rfq_inv s" and r: "get_rfq_row s i = Some rfq" "rq_state rfq = RS_quoted" "rq_intent rfq = RI_spread"
    and b1: "book_child now today ref1 cp (rq_buy_trade_id rfq) q1 s = Inr (s1, c1)"
    and b2: "book_child now today ref2 cp (rq_sell_trade_id rfq) q2 s1 = Inr (s2, c2)"
    and s3: "s3 = award_events now actor i qs cps sn cs s2"
    and cl1: "close_child now actor rfq (rq_buy_trade_id rfq) c1 s3 = Inr s4"
    and cl2: "close_child now actor rfq (rq_sell_trade_id rfq) c2 s4 = Inr s5"
  shows "rfq_inv s5"
proof -
  have "spread_ok s rfq" using rfq_invD(3)[OF inv r(1)] r(3) by (simp add: rfq_ok_def)
  then obtain b l rb rl where b: "rq_buy_trade_id rfq = Some b" "get_rfq_row s b = Some rb" "rq_intent rb \<noteq> RI_spread"
    and l: "rq_sell_trade_id rfq = Some l" "get_rfq_row s l = Some rl" "rq_intent rl \<noteq> RI_spread" and "b \<noteq> l"
    by (auto simp: spread_ok_def joined_def split: option.splits)
  have ids: "rq_id rb = b" "rq_id rl = l" "b \<noteq> i" "l \<noteq> i" using rfq_invD(2)[OF inv] b l r by auto
  obtain 1: "rq_state rb \<noteq> RS_closed" "rfqs s1 = rfqs s" "rfq_quotes s1 = rfq_quotes s" "rfq_state_events s1 = rfq_state_events s"
      "award_refs s1 = award_refs s @ [b]" "next_uuid s < next_uuid s1"
    using b1 b(1,2) ids(1) by (elim book_child_cases book_trade_cases) simp
  obtain 2: "rq_state rl \<noteq> RS_closed" "rfqs s2 = rfqs s" "rfq_quotes s2 = rfq_quotes s" "rfq_state_events s2 = rfq_state_events s"
      "award_refs s2 = award_refs s1 @ [l]" "next_uuid s1 < next_uuid s2"
    using b2 l(1,2) ids(2) 1 by (elim book_child_cases book_trade_cases) (simp add: get_rfq_row_def)
  obtain es where es: "rfq_state_events s3 = rfq_state_events s @ es" "\<forall>e \<in> set es. re_rfq_id e = i" "replay RS_quoted es = Some RS_closed"
    using award_events_log[of now actor i qs cps sn cs s2] unfolding s3 2(4) by metis
  define t1 where "t1 = s\<lparr>rfqs := rfqs s3, rfq_state_events := rfq_state_events s3\<rparr>"
  have inv1: "rfq_inv t1"
    by (rule book_and_close_inv[OF inv r(1), of t1 es]) (use es r 2 in \<open>simp_all add: t1_def s3 award_events_frame award_refs_def\<close>)
  have t1b: "get_rfq_row t1 b = Some rb" "get_rfq_row t1 l = Some rl" "get_rfq_row s3 b = Some rb"
    using b(2) l(2) ids 2(2) by (simp_all add: get_rfq_row_def t1_def s3 award_events_frame table_simps)
  obtain e4 where e4: "rfqs s4 = update_row rq_id b (\<lambda>r. r\<lparr>rq_state := RS_closed\<rparr>) (rfqs s3)" "rfq_quotes s4 = rfq_quotes s3"
    "contracts s4 = contracts s3" "next_uuid s4 = Suc (next_uuid s3)" "rfq_state_events s4 = rfq_state_events s3 @ [e4]"
    "re_rfq_id e4 = b" "re_from_state e4 = rq_state rb" "re_to_state e4 = RS_closed"
    using close_child_frame[OF cl1[unfolded b(1)] t1b(3)] by metis
  define t2 where "t2 = t1\<lparr>rfqs := rfqs s4, rfq_state_events := rfq_state_events s4, contracts := contracts s1\<rparr>"
  have refs: "award_refs t1 = award_refs s" "award_refs t2 = award_refs s1" by (simp_all add: t1_def t2_def award_refs_def)
  have inv2: "rfq_inv t2"
    by (rule book_and_close_inv[OF inv1 t1b(1) 1(1), of t2 "[e4]"]) (use e4 b(3) 1(5) refs in \<open>simp_all add: t1_def t2_def\<close>)
  have t2l: "get_rfq_row t2 l = Some rl" "get_rfq_row s4 l = Some rl"
    using t1b(2) \<open>b \<noteq> l\<close> e4(1) by (simp_all add: get_rfq_row_def t1_def t2_def table_simps)
  obtain e5 where e5: "rfqs s5 = update_row rq_id l (\<lambda>r. r\<lparr>rq_state := RS_closed\<rparr>) (rfqs s4)" "rfq_quotes s5 = rfq_quotes s4"
    "contracts s5 = contracts s4" "next_uuid s5 = Suc (next_uuid s4)" "rfq_state_events s5 = rfq_state_events s4 @ [e5]"
    "re_rfq_id e5 = l" "re_from_state e5 = rq_state rl" "re_to_state e5 = RS_closed"
    using close_child_frame[OF cl2[unfolded l(1)] t2l(2)] by metis
  have "award_refs s5 = award_refs s2" using e5(3) e4(3) by (simp add: award_refs_def s3 award_events_frame)
  then show ?thesis
    using e5 e4(2,4) l(3) 1(6) 2(3,5,6) refs(2)
    by (intro book_and_close_inv[OF inv2 t2l(1) 2(1), of s5 "[e5]"]) (simp_all add: t1_def t2_def s3 award_events_frame)
qed

lemma award_spread_inv:
  assumes inv: "rfq_inv s" and r: "get_rfq_row s i = Some rfq" "rq_state rfq = RS_quoted" "rq_intent rfq = RI_spread"
    and run: "award_spread s now today ref1 ref2 rfq actor = (s', out)"
  shows "rfq_inv s'"
  using run unfolding award_spread_def
proof (cases rule: txn_then_cases)
  case 1: (returned c1 rk)
  from 1(2) show ?thesis
  proof (cases rule: txn_then_cases)
    case 2: (returned c2 top)
    from 2(2) show ?thesis
    proof (cases rule: txn_then_cases)
      case raised
      then show ?thesis using inv rqv.kyc_gate_view rfq_inv_view by blast
    next
      case 3: (returned c3 cp)
      have id: "rq_id rfq = i" using rfq_invD(2)[OF inv r(1)] .
      from 3(2) have "s' = s \<or> (\<exists>s1 k1 s2 k2 s4. book_child now today ref1 (sre_counterparty_id top) (rq_buy_trade_id rfq) (sre_buy_quote top) s = Inr (s1, k1)
          \<and> book_child now today ref2 (sre_counterparty_id top) (rq_sell_trade_id rfq) (sre_sell_quote top) s1 = Inr (s2, k2)
          \<and> close_child now actor rfq (rq_buy_trade_id rfq) k1 (award_events now actor (rq_id rfq) [qt_id (sre_buy_quote top), qt_id (sre_sell_quote top)]
                [sre_counterparty_id top] (Spread_snapshot rk) [k1, k2] s2) = Inr s4
          \<and> close_child now actor rfq (rq_sell_trade_id rfq) k2 s4 = Inr s')"
        by (auto split: sum.splits)
      then show ?thesis
        using inv award_spread_booked[OF inv r] unfolding id by metis
    qed
  qed (use inv in simp)
qed (use inv in simp)

lemma award_rfq_inv:
  assumes "rfq_inv s" and "award_rfq s now today ref1 ref2 i actor = (s', out)"
  shows "rfq_inv s'"
  using assms(2) unfolding award_rfq_def
proof (cases rule: txn_then_cases)
  case 1: (returned c rfq)
  from 1(2) show ?thesis
  proof (cases rule: txn_then_cases)
    case (returned c' u)
    with 1(1) have "get_rfq_row s i = Some rfq" "rq_state rfq = RS_quoted"
      "(if rq_intent rfq = RI_spread then award_spread s now today ref1 ref2 rfq actor else award_trade s now today ref1 rfq actor) = (s', out)"
      by auto
    then show ?thesis using award_spread_inv[OF assms(1)] award_trade_inv[OF assms(1)] by (auto split: if_splits)
  qed (use assms(1) in simp)
qed (use assms(1) in simp)

section \<open>Runs\<close>

text \<open>The requests to the service, each with its outcome.\<close>

inductive rfq_request :: "db \<Rightarrow> db \<Rightarrow> bool" where
  created: "post_rfq show_dec send ck s now today p actor = (s', r) \<Longrightarrow> rfq_request s s'"
| quoted: "submit_quote s now i qp quoter inbound = (s', q) \<Longrightarrow> rfq_request s s'"
| rejected: "reject_rfq s now i actor = Inr s' \<Longrightarrow> rfq_request s s'"
| cancelled: "cancel_rfq s now i actor = Inr s' \<Longrightarrow> rfq_request s s'"
| archived: "archive_rfq s now i actor = Inr s' \<Longrightarrow> rfq_request s s'"
| refreshed: "refresh_rfq send ck s now i actor = (s', sent) \<Longrightarrow> rfq_request s s'"
| refreshed_one: "refresh_counterparty send ck s now i cpid actor = (s', sent) \<Longrightarrow> rfq_request s s'"
| quote_rejected: "reject_quote send ck s now i k actor reason = Inr (s', wired) \<Longrightarrow> rfq_request s s'"
| awarded: "award_rfq s now today ref1 ref2 i actor = (s', out) \<Longrightarrow> rfq_request s s'"

text \<open>Every other write leaves the requests and the contracts booked for them alone.\<close>

inductive rfq_step :: "db \<Rightarrow> db \<Rightarrow> bool" where
  request: "rfq_request s s' \<Longrightarrow> rfq_step s s'"
| elsewhere: "same_rfq_view s s' \<Longrightarrow> rfq_step s s'"

lemma rfq_request_inv: "rfq_request s s' \<Longrightarrow> rfq_inv s \<Longrightarrow> rfq_inv s'"
proof (induction rule: rfq_request.induct)
  case created
  then show ?case by (rule post_rfq_inv[rotated])
next
  case quoted
  then show ?case by (rule submit_quote_inv[rotated])
next
  case quote_rejected
  then show ?case by (rule reject_quote_inv[rotated])
next
  case awarded
  then show ?case by (rule award_rfq_inv[rotated])
qed (auto intro: closing_ops_inv rqv.refresh_rfq_view rqv.refresh_counterparty_view rfq_inv_view)

lemma rfq_step_inv: "rfq_step s s' \<Longrightarrow> rfq_inv s \<Longrightarrow> rfq_inv s'"
  by (auto elim!: rfq_step.cases intro: rfq_request_inv rfq_inv_view)

definition no_rfqs :: "db \<Rightarrow> bool" where
  "no_rfqs s \<longleftrightarrow> rfqs s = [] \<and> rfq_quotes s = [] \<and> rfq_state_events s = [] \<and> award_refs s = []"

lemma rfq_run_inv:
  assumes "rfq_step\<^sup>*\<^sup>* s s'" and "no_rfqs s"
  shows "rfq_inv s'"
  using assms(1)
proof (induction rule: rtranclp_induct)
  case base
  with assms(2) show ?case by (simp add: no_rfqs_def rfq_inv_def keyed_def)
next
  case step
  then show ?case using rfq_step_inv by blast
qed

section \<open>Properties\<close>

lemma count_award_refs: "count_list (award_refs s) i = length (filter (\<lambda>c. hc_rfq_id c = Some i) (contracts s))"
proof -
  have "count_list (List.map_filter hc_rfq_id cs) i = length (filter (\<lambda>c. hc_rfq_id c = Some i) cs)" for cs :: "HedgeContract list"
    by (induction cs) (auto split: option.split)
  then show ?thesis by (simp add: award_refs_def)
qed

text \<open>C32: No position is doubled. In every state reached from one without requests, at most one contract
  is booked for a request, and a request that has a contract is a closed trade, not a spread.\<close>

theorem rfq_awarded_once:
  assumes "no_rfqs s" and "rfq_step\<^sup>*\<^sup>* s s'"
  shows "length (filter (\<lambda>c. hc_rfq_id c = Some i) (contracts s')) \<le> 1
    \<and> (\<forall>c \<in> set (contracts s'). hc_rfq_id c = Some i \<longrightarrow>
        (\<exists>r. get_rfq_row s' i = Some r \<and> rq_state r = RS_closed \<and> rq_intent r \<noteq> RI_spread))"
proof -
  have inv: "rfq_inv s'" by (rule rfq_run_inv[OF assms(2,1)])
  have at: "\<exists>r. get_rfq_row s' i = Some r \<and> rfq_ok s' r \<and> rq_id r = i" if i: "i \<in> set (award_refs s')"
  proof -
    obtain r where r: "r \<in> set (rfqs s')" "rq_id r = i" using inv i by (auto simp: rfq_inv_def)
    then have "get_rfq_row s' i = Some r"
      using inv get_row_keyed[of rq_id "rfqs s'" r] by (simp add: rfq_inv_def get_rfq_row_def)
    then show ?thesis using rfq_invD[OF inv] by blast
  qed
  have "count_list (award_refs s') i \<le> 1"
  proof (cases "i \<in> set (award_refs s')")
    case True
    then obtain r where "rfq_ok s' r" "rq_id r = i" using at by blast
    then show ?thesis by (auto simp: rfq_ok_def split: if_splits)
  next
    case False
    then show ?thesis by (simp add: count_list_0_iff)
  qed
  moreover have "\<exists>r. get_rfq_row s' i = Some r \<and> rq_state r = RS_closed \<and> rq_intent r \<noteq> RI_spread"
    if c: "c \<in> set (contracts s')" "hc_rfq_id c = Some i" for c
  proof -
    have pos: "i \<in> set (award_refs s')" using c by (force simp: award_refs_def List.map_filter_def)
    then have "0 < count_list (award_refs s') i" by (meson count_list_0_iff gr0I)
    moreover obtain r where "get_rfq_row s' i = Some r" "rfq_ok s' r" "rq_id r = i" using at[OF pos] by blast
    ultimately show ?thesis by (auto simp: rfq_ok_def split: if_splits)
  qed
  ultimately show ?thesis unfolding count_award_refs[symmetric] by blast
qed

text \<open>C34: The log is the state. In every state reached from one without requests, following the state
  events of a request from CREATED, each from the state the one before led to, ends in the
  state the request has; AWARDED is only passed through.\<close>

theorem rfq_log_replays:
  assumes "no_rfqs s" and "rfq_step\<^sup>*\<^sup>* s s'" and "get_rfq_row s' i = Some r"
  shows "replay RS_created (log_of s' i) = Some (rq_state r) \<and> rq_state r \<noteq> RS_awarded"
  using rfq_invD[OF rfq_run_inv[OF assms(2,1)] assms(3)] by (simp add: rfq_ok_def)

text \<open>A trade is QUOTED only while it has an active quote, and CREATED or SENT only while it has
  none: rejecting the last quote takes it back. A spread never has quotes of its own.\<close>

theorem rfq_quoted_has_quote:
  assumes "no_rfqs s" and "rfq_step\<^sup>*\<^sup>* s s'" and "get_rfq_row s' i = Some r"
  shows "if rq_intent r = RI_spread then active_quotes s' i = []
    else (rq_state r = RS_quoted \<longrightarrow> active_quotes s' i \<noteq> []) \<and> (rq_state r \<in> {RS_created, RS_sent} \<longrightarrow> active_quotes s' i = [])"
  using rfq_invD[OF rfq_run_inv[OF assms(2,1)] assms(3)] by (auto simp: rfq_ok_def quotes_ok_def)

section \<open>What an award books\<close>

lemma latest_in_table:
  assumes "latest_table qs d" and "is_latest qs q" and "keyed qt_id rows" and "set qs \<subseteq> set rows"
  shows "q \<in> snd ` set d"
proof -
  have "q \<in> set qs" using assms(2) by (simp add: is_latest_def)
  then obtain q' where q': "(qt_counterparty_id q, q') \<in> set d" using assms(1) by (force simp: latest_table_def)
  then have l: "is_latest qs q'" "qt_counterparty_id q' = qt_counterparty_id q" using assms(1) by (auto simp: latest_table_def)
  then have "quote_key q' = quote_key q"
    using assms(2) by (intro antisym) (auto simp: is_latest_def)
  then have "qt_id q' = qt_id q" by (simp add: quote_key_def)
  moreover have "q \<in> set rows" "q' \<in> set rows" using assms(2,4) l(1) by (auto simp: is_latest_def)
  ultimately have "q' = q" using keyed_inj[OF assms(3)] by blast
  with q' show ?thesis by force
qed

lemma top_trade_best:
  assumes "trade_ranking s rfq = Inr rk" and "top_trade rk = Inr q" and "keyed qt_id (rfq_quotes s)"
  shows "is_latest (active_quotes s (rq_id rfq)) q"
    "is_latest (active_quotes s (rq_id rfq)) q' \<Longrightarrow> q' = q \<or> price_better rfq q q'"
proof -
  let ?qs = "active_quotes s (rq_id rfq)"
  obtain d where d: "select_latest_quotes_by_counterparty ?qs = Inr d" "latest_table ?qs d"
    using select_latest_quotes_correct by blast
  have rk: "rk = compute_trade_ranking rfq d" using assms(1) d(1) by (auto simp: trade_ranking_def get_latest_trade_quotes_def)
  obtain e es where e: "tr_status rk = ''SUCCESS''" "tr_ranking rk = e # es" "te_quote e = q"
    using assms(2) by (auto simp: top_trade_def split: if_splits list.splits)
  have perm: "mset (map te_quote (tr_ranking rk)) = mset (map snd d)" and sorted: "sorted_wrt (price_better rfq) (map te_quote (tr_ranking rk))"
    using trade_ranking_correct[of rfq d] e(1) unfolding rk[symmetric] Let_def by (auto split: if_splits)
  have best: "\<forall>x \<in> te_quote ` set es. price_better rfq q x" using sorted e(2,3) by simp
  have "set (map te_quote (tr_ranking rk)) = set (map snd d)" using perm by (rule mset_eq_setD)
  then have set: "insert q (te_quote ` set es) = snd ` set d" using e(2,3) by simp
  have "q \<in> snd ` set d" using set by blast
  then show "is_latest ?qs q" using d(2) by (auto simp: latest_table_def)
  show "q' = q \<or> price_better rfq q q'" if "is_latest ?qs q'"
    using latest_in_table[OF d(2) that assms(3)] set best by (auto simp: active_quotes_def)
qed

lemma book_trade_linkage:
  assumes "book_trade now today ref r cp q s = Inr (s', c)" and "rq_intent r = RI_commercial_hedge" and "rq_order_id r = Some oid"
  shows "\<exists>l. linkages s' = linkages s @ [l] \<and> lk_order_id l = oid \<and> lk_contract_id l = c \<and> lk_quantity_mt l = quantize_mt (rq_quantity_mt r)"
  using assms by (auto simp: book_trade_def create_linkage_def Let_def)

text \<open>C33: An award books the best price. A successful award of a trade adds exactly one contract, on
  the terms of the request and of a quote that is its counterparty's latest active one and strictly
  better priced than the latest active quote of every other counterparty; the counterparty is
  approved and not deleted; a hedge of an order is allocated to it in full; the request is closed.\<close>

theorem award_books_best:
  assumes "award_rfq s now today ref1 ref2 i actor = (s', Inr ())" and "get_rfq_row s i = Some rfq" and "rq_intent rfq \<noteq> RI_spread"
    and "keyed qt_id (rfq_quotes s)"
  shows "\<exists>q cp. is_latest (active_quotes s i) q \<and> (\<forall>q'. is_latest (active_quotes s i) q' \<longrightarrow> q' = q \<or> price_better rfq q q')
    \<and> get_counterparty_row s (qt_counterparty_id q) = Some cp \<and> cp_kyc_status cp = KYC_approved \<and> \<not> cp_is_deleted cp
    \<and> contracts s' = contracts s @ [award_contract (next_uuid s) now today ref1 rfq (qt_counterparty_id q) q]
    \<and> (\<forall>oid. rq_intent rfq = RI_commercial_hedge \<longrightarrow> rq_order_id rfq = Some oid \<longrightarrow>
        (\<exists>l. linkages s' = linkages s @ [l] \<and> lk_order_id l = oid \<and> lk_contract_id l = next_uuid s
          \<and> lk_quantity_mt l = quantize_mt (rq_quantity_mt rfq)))
    \<and> map_option rq_state (get_rfq_row s' i) = Some RS_closed"
proof -
  have id: "rq_id rfq = i" using assms(2) get_row_SomeD[of rq_id i "rfqs s" rfq] by (simp add: get_rfq_row_def)
  have "award_trade s now today ref1 rfq actor = (s', Inr ())"
    using assms(1-3) by (auto simp: award_rfq_def txn_then_def split: sum.splits)
  then obtain rk q c3 cp s1 c where rk: "trade_ranking s rfq = Inr rk" "top_trade rk = Inr q"
    and kyc: "assert_kyc_approved s (qt_counterparty_id q) GP_rfq_award (Some actor) (Some (rq_id rfq)) [(''quote_id'', Some (AId (qt_id q)))] = (c3, Inr cp)"
    and book: "book_trade now today ref1 rfq (qt_counterparty_id q) q s = Inr (s1, c)"
    and s': "s' = award_events now actor (rq_id rfq) [qt_id q] [qt_counterparty_id q] (Trade_snapshot rk) [c] s1"
    unfolding award_trade_def
    by (elim txn_then_cases) (auto split: sum.splits)
  have cp: "get_counterparty_row s (qt_counterparty_id q) = Some cp" "cp_kyc_status cp = KYC_approved" "\<not> cp_is_deleted cp"
    using kyc by (cases rule: assert_kyc_cases; simp)+
  from book show ?thesis
  proof (rule book_trade_cases)
    assume b: "contracts s1 = contracts s @ [award_contract (next_uuid s) now today ref1 rfq (qt_counterparty_id q) q]" "c = next_uuid s"
      "rfqs s1 = rfqs s"
    have "linkages s' = linkages s1" by (simp add: s' award_events_def add_event_def write_rfq_def)
    moreover have "map_option rq_state (get_rfq_row s' i) = Some RS_closed"
      using assms(2) b(3) by (simp add: s' id get_rfq_row_def award_events_frame table_simps)
    ultimately show ?thesis
      using top_trade_best[OF rk assms(4)] cp b book_trade_linkage[OF book]
      by (intro exI[of _ q] exI[of _ cp]) (auto simp: id s' award_events_frame)
  qed
qed

end
