(* ===== verification/HC_System.thy ===== *)
theory HC_System
  imports Exposure_Service Cashflow_Ledger RFQ_Lifecycle
begin

text \<open>
  The services together. A step is one committed request or job of the application on the
  shared database; a rejected request rolls back, except for the audit event of a refused
  order, which is part of \<open>create_order\<close>. Clients link entities whose
  identifiers have been issued. The tables of partners,
  counterparties, prices, approvals, policies and audit events, and those of the valuation snapshots
  and the finance pipeline, may change in any way between two steps.
\<close>

inductive system_step :: "db \<Rightarrow> db \<Rightarrow> bool" where
  order_created: "create_order s now t p actor = (s', res) \<Longrightarrow> system_step s s'"
| order_archived: "archive_order s now i = Inr s' \<Longrightarrow> system_step s s'"
| orders_paired: "create_sopo_link s now i j q = Inr (s', k) \<Longrightarrow> system_step s s'"
| contract_written: "contract_step s s' \<Longrightarrow> system_step s s'"
| hedge_linked: "post_linkage s now i j q = Inr (s', k) \<Longrightarrow> system_step s s'"
| deal_created: "list_all (\<lambda>l. snd l < next_uuid s) links_data \<Longrightarrow>
    create_deal s now reference name commodity links_data = Inr (s', i) \<Longrightarrow> system_step s s'"
| link_added: "j < next_uuid s \<Longrightarrow> add_link s now i lt j = Inr (s', k) \<Longrightarrow> system_step s s'"
| link_removed: "remove_link s i k = Inr s' \<Longrightarrow> system_step s s'"
| deal_refreshed: "update_deal_status s i = Inr s' \<Longrightarrow> system_step s s'"
| reconciled: "reconcile_from_orders s now = Inr (s', run, sm) \<Longrightarrow> system_step s s'"
| tasks_created: "create_hedge_tasks s now = (s', n) \<Longrightarrow> system_step s s'"
| tasks_cancelled: "cancel_stale_tasks s = (s', n) \<Longrightarrow> system_step s s'"
| task_executed: "execute_task s now i = Inr s' \<Longrightarrow> system_step s s'"
| contract_settled: "post_settlement s now i p = Inr (s', ev, es) \<Longrightarrow> system_step s s'"
| quotes_requested: "rfq_request s s' \<Longrightarrow> system_step s s'"
| reference_data: "next_uuid s \<le> n \<Longrightarrow> system_step s (s\<lparr>partners := ps, counterparties := cps, prices := prs,
    approvals := aps, policies := pls, audit_events := aes, pnl_snapshots := sns, mtm_snapshots := mss,
    pl_snapshots := plss, baseline_snapshots := bss, pipeline_runs := prs', pipeline_steps := fss, risk_flags := rks, next_uuid := n\<rparr>)"

definition reachable :: "db \<Rightarrow> bool" where
  "reachable s \<longleftrightarrow> system_step\<^sup>*\<^sup>* empty_db s"

section \<open>What a step leaves alone\<close>

definition book_kept :: "db \<Rightarrow> db \<Rightarrow> bool" where
  "book_kept s s' \<longleftrightarrow> orders s' = orders s \<and> contracts s' = contracts s \<and> linkages s' = linkages s"

definition exposures_kept :: "db \<Rightarrow> db \<Rightarrow> bool" where
  "exposures_kept s s' \<longleftrightarrow> exposures s' = exposures s \<and> tasks s' = tasks s"

definition ledger_kept :: "db \<Rightarrow> db \<Rightarrow> bool" where
  "ledger_kept s s' \<longleftrightarrow> settlement_events s' = settlement_events s \<and> ledger_entries s' = ledger_entries s"

definition requests_kept :: "db \<Rightarrow> db \<Rightarrow> bool" where
  "requests_kept s s' \<longleftrightarrow> rfqs s' = rfqs s \<and> rfq_quotes s' = rfq_quotes s \<and> rfq_state_events s' = rfq_state_events s"

lemmas kept_defs = book_kept_def exposures_kept_def ledger_kept_def requests_kept_def

lemma requests_kept_view: "requests_kept s s' \<Longrightarrow> contracts s' = contracts s \<Longrightarrow> next_uuid s \<le> next_uuid s' \<Longrightarrow> same_rfq_view s s'"
  by (simp add: requests_kept_def same_rfq_view_def award_refs_def)

lemma fold_create_deal_link_length:
  "fold_result (create_deal_link s now i) links acc = Inr pending \<Longrightarrow> length pending = length acc + length links"
  by (induction links arbitrary: acc) (auto simp: create_deal_link_def split: sum.splits option.splits)

lemma recompute_tons_db: "recompute_tons i s = s\<lparr>deals := deals (recompute_tons i s)\<rparr>"
  by (simp add: recompute_tons_def)

lemma deal_ops_kept:
  "create_deal s now reference name commodity links_data = Inr (s', i) \<Longrightarrow>
     book_kept s s' \<and> exposures_kept s s' \<and> ledger_kept s s' \<and> requests_kept s s' \<and> next_uuid s \<le> next_uuid s'"
  "add_link s now i lt j = Inr (s', k) \<Longrightarrow>
     book_kept s s' \<and> exposures_kept s s' \<and> ledger_kept s s' \<and> requests_kept s s' \<and> next_uuid s \<le> next_uuid s'"
  "remove_link s i k = Inr s' \<Longrightarrow>
     book_kept s s' \<and> exposures_kept s s' \<and> ledger_kept s s' \<and> requests_kept s s' \<and> next_uuid s \<le> next_uuid s'"
  "update_deal_status s i = Inr s' \<Longrightarrow>
     book_kept s s' \<and> exposures_kept s s' \<and> ledger_kept s s' \<and> requests_kept s s' \<and> next_uuid s \<le> next_uuid s'"
  subgoal by (auto simp: create_deal_def kept_defs recompute_tons_def Let_def split: if_splits option.splits)
  subgoal by (auto simp: add_link_def kept_defs recompute_tons_def Let_def split: if_splits option.splits)
  subgoal by (auto simp: remove_link_def kept_defs recompute_tons_def Let_def split: if_splits option.splits)
  subgoal by (auto simp: update_deal_status_def kept_defs Let_def split: if_splits option.splits)
  done

lemma refresh_db: "\<exists>ds. recompute_deals_for_linked_entity ts i s = s\<lparr>deals := ds\<rparr>"
  using engine.refresh_frame by blast

lemma refresh_kept [simp]:
  "exposures (recompute_deals_for_linked_entity ts i s) = exposures s" "tasks (recompute_deals_for_linked_entity ts i s) = tasks s"
  "settlement_events (recompute_deals_for_linked_entity ts i s) = settlement_events s"
  "ledger_entries (recompute_deals_for_linked_entity ts i s) = ledger_entries s"
  "rfqs (recompute_deals_for_linked_entity ts i s) = rfqs s" "rfq_quotes (recompute_deals_for_linked_entity ts i s) = rfq_quotes s"
  "rfq_state_events (recompute_deals_for_linked_entity ts i s) = rfq_state_events s"
  using refresh_db[of ts i s] by auto

lemma book_ops_kept:
  "create_order s now t p actor = (s', res) \<Longrightarrow> exposures_kept s s' \<and> ledger_kept s s' \<and> requests_kept s s' \<and> next_uuid s \<le> next_uuid s'"
  "archive_order s now i = Inr s' \<Longrightarrow> exposures_kept s s' \<and> ledger_kept s s' \<and> requests_kept s s' \<and> next_uuid s \<le> next_uuid s'"
  "create_sopo_link s now i j q = Inr (s', k) \<Longrightarrow>
     book_kept s s' \<and> exposures_kept s s' \<and> ledger_kept s s' \<and> requests_kept s s' \<and> next_uuid s \<le> next_uuid s'"
  "post_linkage s now i j q = Inr (s', k) \<Longrightarrow> exposures_kept s s' \<and> ledger_kept s s' \<and> requests_kept s s' \<and> next_uuid s \<le> next_uuid s'"
  subgoal by (auto simp: create_order_def assert_commercial_partner_admissible_def record_order_rejection_def record_audit_def
        kept_defs Let_def split: if_splits option.splits)
  subgoal by (auto simp: archive_order_def write_order_def kept_defs Let_def split: if_splits option.splits)
  subgoal by (auto simp: create_sopo_link_def kept_defs Let_def split: if_splits option.splits)
  subgoal by (auto simp: post_linkage_def create_linkage_def kept_defs Let_def split: if_splits option.splits)
  done

lemma contract_step_kept:
  assumes "contract_step s s'"
  shows "exposures_kept s s' \<and> ledger_kept s s' \<and> requests_kept s s' \<and> next_uuid s \<le> next_uuid s'"
  using assms by (cases rule: contract_step_cases) (auto simp: kept_defs write_contract_def)

lemma settlement_kept:
  assumes "post_settlement s now i p = Inr (s', ev, es)"
  shows "exposures_kept s s' \<and> requests_kept s s' \<and> next_uuid s \<le> next_uuid s'"
  using assms by (cases rule: settlement_cases) (auto simp: kept_defs write_contract_def)

lemma reconcile_kept:
  assumes "exposures_wf s" and "reconcile_from_orders s now = Inr (s', run, sm)"
  shows "book_kept s s' \<and> ledger_kept s s' \<and> requests_kept s s' \<and> deals s' = deals s \<and> deal_links s' = deal_links s \<and> next_uuid s \<le> next_uuid s'"
proof -
  have m: "get_linked_qty_map (start_run s now) = get_linked_qty_map s"
    by (rule get_linked_qty_map_cong) simp_all
  obtain s1 c u where l: "loop (get_linked_qty_map s) now (live_orders s) (start_run s now, 0, 0) = Inr (s1, c, u)"
    and s': "\<exists>rs. s' = (retire_exposures now s1)\<lparr>recon_runs := rs\<rparr>"
    using assms(2) unfolding reconcile_from_orders_def Let_def start_run_def[symmetric] m by (auto simp: start_run_def)
  obtain es n where "s1 = (start_run s now)\<lparr>exposures := es, next_uuid := n\<rparr>" "Suc (next_uuid s) \<le> n"
    using reconcile_loop_frame[OF l exposures_wf_start_run[OF assms(1)]] unfolding only_exposures_def by (auto simp: start_run_def)
  with s' show ?thesis by (auto simp: kept_defs retire_exposures_def start_run_def)
qed

lemma task_ops_kept:
  "create_hedge_tasks s now = (s', n) \<Longrightarrow> book_kept s s' \<and> ledger_kept s s' \<and> requests_kept s s' \<and> exposures s' = exposures s
     \<and> deals s' = deals s \<and> deal_links s' = deal_links s \<and> next_uuid s \<le> next_uuid s'"
  "cancel_stale_tasks s = (s', n) \<Longrightarrow> book_kept s s' \<and> ledger_kept s s' \<and> requests_kept s s' \<and> exposures s' = exposures s
     \<and> deals s' = deals s \<and> deal_links s' = deal_links s \<and> next_uuid s \<le> next_uuid s'"
  "execute_task s now i = Inr s' \<Longrightarrow> book_kept s s' \<and> ledger_kept s s' \<and> requests_kept s s' \<and> exposures s' = exposures s
     \<and> deals s' = deals s \<and> deal_links s' = deal_links s \<and> next_uuid s \<le> next_uuid s'"
  by (auto elim!: create_hedge_tasks_new simp: cancel_stale_tasks_def execute_task_def kept_defs Let_def
      split: if_splits option.splits)

section \<open>Deal tables\<close>

definition deals_kept :: "db \<Rightarrow> db \<Rightarrow> bool" where
  "deals_kept s s' \<longleftrightarrow> deal_links s' = deal_links s \<and> map deal_id (deals s') = map deal_id (deals s)
     \<and> map deal_reference (deals s') = map deal_reference (deals s) \<and> next_uuid s \<le> next_uuid s'"

lemma deals_kept_inv:
  assumes "deals_kept s s'" and "deal_keys_wf s" and "links_issued s"
  shows "deal_keys_wf s' \<and> links_issued s'"
proof -
  have ids: "deal_id ` set (deals s') = deal_id ` set (deals s)"
    using assms(1) unfolding deals_kept_def by (metis list.set_map)
  have "deal_id d < next_uuid s'" if "d \<in> set (deals s')" for d
  proof -
    have "deal_id d \<in> deal_id ` set (deals s)" using ids that by blast
    then show ?thesis using assms(1,2) unfolding deals_kept_def deal_keys_wf_def by fastforce
  qed
  then show ?thesis
    using assms ids unfolding deals_kept_def deal_keys_wf_def links_issued_def keyed_def
    by (auto intro: less_le_trans)
qed

lemma refresh_deals_kept:
  "deals_kept s (recompute_deals_for_linked_entity ts i s')"
  if "deals s' = deals s" "deal_links s' = deal_links s" "next_uuid s \<le> next_uuid s'"
  using engine.refresh_frame[of ts i s'] that by (auto simp: deals_kept_def)

lemma deals_kept_same:
  "deals s' = deals s \<Longrightarrow> deal_links s' = deal_links s \<Longrightarrow> next_uuid s \<le> next_uuid s' \<Longrightarrow> deals_kept s s'"
  by (simp add: deals_kept_def)

lemma book_ops_deals_kept:
  "create_order s now t p actor = (s', res) \<Longrightarrow> deals_kept s s'"
  "archive_order s now i = Inr s' \<Longrightarrow> deals_kept s s'"
  "create_sopo_link s now i j q = Inr (s', k) \<Longrightarrow> deals_kept s s'"
  "post_linkage s now i j q = Inr (s', k) \<Longrightarrow> deals_kept s s'"
  "post_settlement s now i pay = Inr (s', ev, es) \<Longrightarrow> deals_kept s s'"
proof -
  show "deals_kept s s'" if "create_order s now t p actor = (s', res)"
    using that by (cases rule: create_order_cases) (auto intro!: deals_kept_same)
  show "deals_kept s s'" if "archive_order s now i = Inr s'"
    using that by (auto simp: archive_order_def write_order_def Let_def intro!: refresh_deals_kept)
  show "deals_kept s s'" if "create_sopo_link s now i j q = Inr (s', k)"
    using that by (auto simp: create_sopo_link_def intro!: deals_kept_same)
  show "deals_kept s s'" if "post_linkage s now i j q = Inr (s', k)"
    using that by (auto simp: post_linkage_def create_linkage_def Let_def intro!: deals_kept_same)
  show "deals_kept s s'" if "post_settlement s now i pay = Inr (s', ev, es)"
    using that by (cases rule: settlement_cases) (auto simp: write_contract_def intro!: deals_kept_same)
qed

lemma contract_step_deals_kept:
  assumes "contract_step s s'"
  shows "deals_kept s s'"
  using assms
proof (cases rule: contract_step_cases)
  case archive
  show ?thesis unfolding archive by (rule refresh_deals_kept) (simp_all add: write_contract_def)
next
  case delete
  show ?thesis unfolding delete by (rule refresh_deals_kept) (simp_all add: write_contract_def)
qed (simp_all add: deals_kept_same write_contract_def)

text \<open>The status refresh writes the status that the stored ratio determines.\<close>

lemma update_deal_status_deals_kept: "update_deal_status s i = Inr s' \<Longrightarrow> deals_kept s s'"
  by (auto simp: update_deal_status_def deals_kept_def update_row_def comp_def)

lemma create_deal_links:
  assumes "create_deal s now reference name commodity links_data = Inr (s', i)"
  shows "dl_linked_id ` set (deal_links s') \<subseteq> dl_linked_id ` set (deal_links s) \<union> snd ` set links_data"
proof -
  obtain s1 pending where p: "fold_result (create_deal_link s1 now i) links_data [] = Inr pending"
    and s': "deal_links s' = deal_links s @ pending"
    using assms by (auto simp: create_deal_def Let_def split: if_splits)
  have "dl_linked_id ` set pending \<subseteq> snd ` set links_data"
  proof -
    have "dl_linked_id ` set q \<subseteq> dl_linked_id ` set acc \<union> snd ` set ls"
      if "fold_result (create_deal_link s1 now i) ls acc = Inr q" for ls acc q
      using that
    proof (induction ls arbitrary: acc)
      case (Cons ld ls)
      then obtain mid where mid: "create_deal_link s1 now i ld acc = Inr mid"
        "fold_result (create_deal_link s1 now i) ls mid = Inr q"
        by (auto split: sum.splits)
      have "dl_linked_id ` set mid \<subseteq> insert (snd ld) (dl_linked_id ` set acc)"
        using mid(1) by (cases ld) (auto simp: create_deal_link_def split: sum.splits option.splits)
      with Cons.IH[OF mid(2)] show ?case by auto
    qed simp
    from this[OF p] show ?thesis by simp
  qed
  then show ?thesis by (auto simp: s')
qed

lemma deal_ops_issued:
  "links_issued s \<Longrightarrow> list_all (\<lambda>l. snd l < next_uuid s) links_data \<Longrightarrow>
     create_deal s now reference name commodity links_data = Inr (s', i) \<Longrightarrow> links_issued s'"
  "links_issued s \<Longrightarrow> j < next_uuid s \<Longrightarrow> add_link s now i lt j = Inr (s', k) \<Longrightarrow> links_issued s'"
  "links_issued s \<Longrightarrow> remove_link s i k = Inr s' \<Longrightarrow> links_issued s'"
proof -
  show "links_issued s'" if "links_issued s" "list_all (\<lambda>l. snd l < next_uuid s) links_data"
    "create_deal s now reference name commodity links_data = Inr (s', i)"
  proof -
    have "dl_linked_id l < next_uuid s" if "l \<in> set (deal_links s')" for l
    proof -
      have "dl_linked_id l \<in> dl_linked_id ` set (deal_links s) \<union> snd ` set links_data"
        using create_deal_links[OF \<open>create_deal s now reference name commodity links_data = Inr (s', i)\<close>] that by blast
      then show ?thesis
        using \<open>links_issued s\<close> \<open>list_all (\<lambda>l. snd l < next_uuid s) links_data\<close>
        by (auto simp: links_issued_def list_all_iff)
    qed
    then show ?thesis
      using deal_ops_kept(1)[OF that(3)] unfolding links_issued_def by (meson less_le_trans)
  qed
  show "links_issued s'" if "links_issued s" "j < next_uuid s" "add_link s now i lt j = Inr (s', k)"
    using that(3) by (rule add_link_cases) (use that(1,2) in \<open>auto simp: links_issued_def less_Suc_eq\<close>)
  show "links_issued s'" if "links_issued s" "remove_link s i k = Inr s'"
    using that by (auto simp: remove_link_def links_issued_def)
qed

section \<open>The invariant of the system\<close>

definition book_inv :: "db \<Rightarrow> bool" where
  "book_inv s \<longleftrightarrow> capacity_inv s \<and> exposures_wf s \<and> tasks_wf s \<and> ledger_inv s \<and> deal_keys_wf s \<and> links_issued s"

lemma book_invI:
  assumes "book_inv s" and "capacity_inv s'" and "exposures_kept s s'" and "next_uuid s \<le> next_uuid s'"
    and "ledger_inv s'" and "deal_keys_wf s' \<and> links_issued s'"
  shows "book_inv s'"
proof -
  have "exposures_wf s'" "tasks_wf s'"
    using assms(1,3,4) by (auto simp: book_inv_def exposures_kept_def exposures_wf_def tasks_wf_def pending_tasks_def
        intro: less_le_trans)
  with assms show ?thesis by (simp add: book_inv_def)
qed

lemma kept_capacity: "capacity_inv s \<Longrightarrow> book_kept s s' \<Longrightarrow> next_uuid s \<le> next_uuid s' \<Longrightarrow> capacity_inv s'"
  by (rule capacity_inv_counter) (auto simp: book_kept_def)

lemma kept_ledger: "ledger_inv s \<Longrightarrow> contracts_follow (contracts s) (contracts s') \<Longrightarrow> ledger_kept s s' \<Longrightarrow> ledger_inv s'"
  by (rule ledger_inv_follow) (auto simp: ledger_kept_def)

lemma kept_ledger_book: "ledger_inv s \<Longrightarrow> book_kept s s' \<Longrightarrow> ledger_kept s s' \<Longrightarrow> ledger_inv s'"
  by (rule kept_ledger) (auto simp: book_kept_def)

lemma exposure_step_inv:
  assumes "book_inv s" and "book_kept s s'" and "ledger_kept s s'" and "deals s' = deals s"
    and "deal_links s' = deal_links s" and "next_uuid s \<le> next_uuid s'" and "exposures_wf s'" and "tasks_wf s'"
  shows "book_inv s'"
proof -
  have "capacity_inv s" "ledger_inv s" "deal_keys_wf s" "links_issued s"
    using assms(1) by (simp_all add: book_inv_def)
  then show ?thesis
    using kept_capacity kept_ledger_book deals_kept_inv[OF deals_kept_same] assms by (simp add: book_inv_def)
qed

lemma exposures_wf_kept: "exposures_wf s \<Longrightarrow> exposures s' = exposures s \<Longrightarrow> next_uuid s \<le> next_uuid s' \<Longrightarrow> exposures_wf s'"
  by (auto simp: exposures_wf_def intro: less_le_trans)

lemma deal_step_inv:
  assumes "book_inv s" and "book_kept s s' \<and> exposures_kept s s' \<and> ledger_kept s s' \<and> next_uuid s \<le> next_uuid s'"
    and "deal_keys_wf s' \<and> links_issued s'"
  shows "book_inv s'"
  using assms(1)
proof (rule book_invI)
  show "capacity_inv s'" "ledger_inv s'"
    using assms(1,2) by (auto simp: book_inv_def intro: kept_capacity kept_ledger_book)
qed (use assms in auto)

lemma book_step_inv:
  assumes "book_inv s" and "capacity_inv s'" and "ledger_inv s'" and "exposures_kept s s' \<and> next_uuid s \<le> next_uuid s'"
    and "deals_kept s s'"
  shows "book_inv s'"
  using assms deals_kept_inv[OF assms(5)] by (intro book_invI[OF assms(1)]) (auto simp: book_inv_def)

section \<open>Requests for quote\<close>

definition book_frame :: "db \<Rightarrow> db \<Rightarrow> bool" where
  "book_frame s s' \<longleftrightarrow> book_kept s s' \<and> exposures_kept s s' \<and> ledger_kept s s' \<and> deals s' = deals s
     \<and> deal_links s' = deal_links s \<and> next_uuid s \<le> next_uuid s'"

lemma rfq_rest_eq:
  assumes "rfq_rest s' = rfq_rest s"
  shows "book_kept s s' \<and> exposures_kept s s' \<and> ledger_kept s s' \<and> deals s' = deals s \<and> deal_links s' = deal_links s"
  using arg_cong[OF assms, of "\<lambda>s. ((orders s, contracts s, linkages s), (exposures s, tasks s), (settlement_events s, ledger_entries s), deals s, deal_links s)"]
  by (simp add: rfq_rest_def kept_defs)

interpretation book: request_frame book_frame
proof
  show "book_frame s s'" if "rfq_rest s' = rfq_rest s" "next_uuid s \<le> next_uuid s'" for s s'
    using rfq_rest_eq[OF that(1)] that(2) unfolding book_frame_def by blast
  show "book_frame s u" if "book_frame s t" "book_frame t u" for s t u
    using that unfolding book_frame_def kept_defs by (elim conjE, intro conjI) (rule trans order_trans; assumption)+
  show "book_frame s s" "book_frame s (record_audit et ei ev p s)" for s et ei ev p
    by (simp_all add: book_frame_def kept_defs)
  show "book_frame s (s\<lparr>rfq_invitations := rows, next_uuid := n\<rparr>)" if "next_uuid s \<le> n" for s rows n
    using that by (simp add: book_frame_def kept_defs)
qed

text \<open>A request to the service first books contracts, then writes only its own tables.\<close>

lemma rfq_request_frame:
  assumes "rfq_request s s'"
  shows "\<exists>t. booked\<^sup>*\<^sup>* s t \<and> book_frame t s'"
  using assms
proof cases
  case awarded
  then show ?thesis by (rule book.award_rfq_view)
qed (blast dest: book.post_rfq_view book.submit_quote_view book.closing_ops_view book.refresh_rfq_view
    book.refresh_counterparty_view book.reject_quote_view)+

definition trades_ok :: "db \<Rightarrow> bool" where
  "trades_ok s \<longleftrightarrow> (\<forall>r \<in> set (rfqs s). 0 < rq_quantity_mt r \<and> quantize_mt (rq_quantity_mt r) = rq_quantity_mt r)"

lemma rfq_inv_trades_ok: "rfq_inv s \<Longrightarrow> trades_ok s"
  by (simp add: rfq_inv_def trades_ok_def rfq_ok_def)

text \<open>Booking is adding a fresh contract and possibly allocating it, as a linkage request would.\<close>

lemma booked_cases:
  assumes "booked s t" and "trades_ok s"
  obtains c where "t = s\<lparr>contracts := contracts s @ [c], next_uuid := Suc (next_uuid s)\<rparr>" "hc_id c = next_uuid s" "0 < hc_quantity_mt c"
  | c now oid k where "post_linkage (s\<lparr>contracts := contracts s @ [c], next_uuid := Suc (next_uuid s)\<rparr>) now oid (hc_id c) (hc_quantity_mt c) = Inr (t, k)"
      "hc_id c = next_uuid s" "0 < hc_quantity_mt c"
proof -
  obtain now today ref r cp q i where r: "r \<in> set (rfqs s)" and run: "book_trade now today ref r cp q s = Inr (t, i)"
    using assms(1) by (auto simp: booked_def)
  define c where "c = award_contract (next_uuid s) now today ref r cp q"
  have c: "hc_id c = next_uuid s" "hc_quantity_mt c = rq_quantity_mt r" "0 < hc_quantity_mt c"
    using r assms(2) by (simp_all add: c_def trades_ok_def)
  define s1 where "s1 = s\<lparr>contracts := contracts s @ [c], next_uuid := Suc (next_uuid s)\<rparr>"
  have "t = s1 \<or> (\<exists>oid k. create_linkage s1 now oid (hc_id c) (rq_quantity_mt r) = Inr (t, k))"
    using run by (auto simp: book_trade_def Let_def s1_def c_def split: RFQIntent.splits option.splits)
  moreover have "validate_linkage_payload (rq_quantity_mt r) = Inr ()"
    using r assms(2) by (simp add: validate_linkage_payload_ok trades_ok_def)
  ultimately have "t = s1 \<or> (\<exists>oid k. post_linkage s1 now oid (hc_id c) (hc_quantity_mt c) = Inr (t, k))"
    by (auto simp: post_linkage_def c(2))
  with c that show ?thesis unfolding s1_def by metis
qed

lemma post_linkage_book_inv:
  assumes "book_inv s" and "post_linkage s now i j q = Inr (s', k)"
  shows "book_inv s'"
proof -
  have inv: "capacity_inv s" "ledger_inv s" using assms(1) by (simp_all add: book_inv_def)
  have "contracts s' = contracts s"
    using assms(2) by (auto simp: post_linkage_def create_linkage_def Let_def)
  then show ?thesis
    using book_step_inv[OF assms(1) post_linkage_capacity_inv[OF inv(1) assms(2)] kept_ledger[OF inv(2)]]
      book_ops_kept(4)[OF assms(2)] book_ops_deals_kept(4)[OF assms(2)] by simp
qed

lemma add_contract_book_inv:
  assumes "book_inv s" and "hc_id c = next_uuid s" "0 < hc_quantity_mt c"
  shows "book_inv (s\<lparr>contracts := contracts s @ [c], next_uuid := Suc (next_uuid s)\<rparr>)"
proof -
  let ?t = "s\<lparr>contracts := contracts s @ [c], next_uuid := Suc (next_uuid s)\<rparr>"
  have "capacity_inv ?t" by (rule add_contract_capacity) (use assms in \<open>simp_all add: book_inv_def\<close>)
  moreover have "ledger_inv ?t"
    by (rule kept_ledger[of s]) (use assms in \<open>simp_all add: book_inv_def ledger_kept_def\<close>)
  moreover have "exposures_kept s ?t \<and> next_uuid s \<le> next_uuid ?t" by (simp add: exposures_kept_def)
  moreover have "deals_kept s ?t" by (rule deals_kept_same) simp_all
  ultimately show ?thesis by (rule book_step_inv[OF assms(1)])
qed

lemma booked_book_inv:
  assumes "booked s t" and "trades_ok s" and "book_inv s"
  shows "book_inv t"
  using assms(1,2)
proof (cases rule: booked_cases)
  case 1
  then show ?thesis using add_contract_book_inv[OF assms(3)] by simp
next
  case 2
  then show ?thesis using add_contract_book_inv[OF assms(3)] post_linkage_book_inv by blast
qed

lemma booked_rfqs: "booked s t \<Longrightarrow> rfqs t = rfqs s"
  by (auto simp: booked_def elim!: book_trade_cases)

lemma booked_run_inv:
  assumes "booked\<^sup>*\<^sup>* s t" and "trades_ok s" and "book_inv s"
  shows "book_inv t \<and> trades_ok t"
  using assms(1)
proof (induction rule: rtranclp_induct)
  case (step t u)
  then show ?case using booked_book_inv booked_rfqs by (metis trades_ok_def)
qed (use assms in simp)

lemma book_frame_inv: "book_inv s \<Longrightarrow> book_frame s s' \<Longrightarrow> book_inv s'"
  using deals_kept_inv[OF deals_kept_same, of s' s] deal_step_inv[of s s'] by (simp add: book_frame_def book_inv_def)

section \<open>Steps\<close>

lemma system_step_book_inv:
  assumes "book_inv s" and "rfq_inv s" and "system_step s s'"
  shows "book_inv s'"
proof -
  have inv: "capacity_inv s" "exposures_wf s" "tasks_wf s" "ledger_inv s" "deal_keys_wf s" "links_issued s"
    using assms(1) by (simp_all add: book_inv_def)
  from assms(3) show ?thesis
  proof cases
    case (order_created p now t actor res)
    have "contracts_follow (contracts s) (contracts s')"
      using order_created by (cases rule: create_order_cases) simp_all
    with order_created show ?thesis
      using book_step_inv[OF assms(1) create_order_capacity_inv[OF inv(1)] kept_ledger[OF inv(4)]]
        book_ops_kept(1)[OF order_created] book_ops_deals_kept(1)[OF order_created] by blast
  next
    case (order_archived now i)
    have "contracts_follow (contracts s) (contracts s')"
      using order_archived by (auto simp: archive_order_def write_order_def Let_def)
    then show ?thesis
      using book_step_inv[OF assms(1) archive_order_capacity_inv[OF inv(1) order_archived] kept_ledger[OF inv(4)]]
        book_ops_kept(2)[OF order_archived] book_ops_deals_kept(2)[OF order_archived] by blast
  next
    case (orders_paired now i j q k)
    then show ?thesis
      using deal_step_inv[OF assms(1)] book_ops_kept(3) deals_kept_inv[OF book_ops_deals_kept(3) inv(5,6)] by blast
  next
    case contract_written
    then show ?thesis
      using book_step_inv[OF assms(1) contract_step_capacity_inv[OF inv(1)] kept_ledger[OF inv(4) contract_step_follows]]
        contract_step_kept contract_step_deals_kept by blast
  next
    case (hedge_linked now i j q k)
    then show ?thesis by (rule post_linkage_book_inv[OF assms(1)])
  next
    case (deal_created links_data now reference name commodity i)
    then show ?thesis
      using deal_step_inv[OF assms(1)] deal_ops_kept(1)[OF deal_created(2)] create_deal_invariants[OF inv(5) deal_created(2)]
        deal_ops_issued(1)[OF inv(6) deal_created] by simp
  next
    case (link_added j now i lt k)
    then show ?thesis
      using deal_step_inv[OF assms(1)] deal_ops_kept(2)[OF link_added(2)] add_link_invariants[OF inv(5) link_added(2)]
        deal_ops_issued(2)[OF inv(6) link_added] by simp
  next
    case (link_removed i k)
    then show ?thesis
      using deal_step_inv[OF assms(1)] deal_ops_kept(3)[OF link_removed] remove_link_invariants[OF inv(5) link_removed]
        deal_ops_issued(3)[OF inv(6) link_removed] by simp
  next
    case (deal_refreshed i)
    then show ?thesis
      using deal_step_inv[OF assms(1)] deal_ops_kept(4) deals_kept_inv[OF update_deal_status_deals_kept inv(5,6)] by blast
  next
    case (reconciled now run sm)
    then show ?thesis
      using exposure_step_inv[OF assms(1)] reconcile_kept[OF inv(2)] reconcile_frame(4)[OF inv(2)]
        reconcile_tasks_wf[OF inv(3,2)] by blast
  next
    case (tasks_created now n)
    have "keyed exp_id (exposures s)" using inv(2) by (simp add: exposures_wf_def)
    then show ?thesis
      using exposure_step_inv[OF assms(1)] task_ops_kept(1)[OF tasks_created] exposures_wf_kept[OF inv(2)]
        create_hedge_tasks_wf[OF inv(3) _ tasks_created] by blast
  next
    case (tasks_cancelled n)
    then show ?thesis
      using exposure_step_inv[OF assms(1)] task_ops_kept(2)[OF tasks_cancelled] exposures_wf_kept[OF inv(2)]
        cancel_stale_tasks_wf[OF inv(3)] by (metis fst_conv)
  next
    case (task_executed now i)
    then show ?thesis
      using exposure_step_inv[OF assms(1)] task_ops_kept(3)[OF task_executed] exposures_wf_kept[OF inv(2)]
        execute_task_wf[OF inv(3) task_executed] by blast
  next
    case (contract_settled now i p ev es)
    then show ?thesis
      using book_step_inv[OF assms(1) settlement_capacity_inv[OF inv(1)] settlement_ledger_inv[OF inv(4)]]
        settlement_kept[OF contract_settled] book_ops_deals_kept(5)[OF contract_settled] by blast
  next
    case quotes_requested
    then show ?thesis
      using rfq_request_frame booked_run_inv[OF _ rfq_inv_trades_ok[OF assms(2)] assms(1)] book_frame_inv by blast
  next
    case (reference_data n)
    then show ?thesis
      by (intro deal_step_inv[OF assms(1)] deals_kept_inv[OF _ inv(5,6)]) (auto simp: kept_defs deals_kept_def)
  qed
qed

text \<open>Everything else leaves the requests and the contracts booked for them alone.\<close>

lemma award_refs_write [simp]:
  assumes "\<And>c. hc_rfq_id (f c) = hc_rfq_id c"
  shows "award_refs (write_contract i f s) = award_refs s"
proof -
  have "List.map_filter hc_rfq_id (update_row hc_id i f cs) = List.map_filter hc_rfq_id cs" for cs
    by (induction cs) (auto simp: update_row_def assms split: option.split)
  then show ?thesis by (simp add: award_refs_def write_contract_def)
qed

lemma contract_step_view:
  assumes "contract_step s s'"
  shows "same_rfq_view s s'"
proof -
  have "award_refs s' = award_refs s"
    using assms
  proof (cases rule: contract_step_cases)
    case (add c)
    then show ?thesis by (simp add: award_refs_def List.map_filter_def)
  next
    case (archive i now)
    have "award_refs s' = award_refs (write_contract i (\<lambda>c. c\<lparr>hc_deleted_at := Some now\<rparr>) s)" by (simp add: archive award_refs_def)
    then show ?thesis by simp
  next
    case (update i u)
    have "hc_rfq_id (apply_contract_update u c) = hc_rfq_id c" for c by (simp add: apply_contract_update_def set_field_keeps)
    then show ?thesis by (simp add: update)
  next
    case (delete i now)
    have "award_refs s' = award_refs (write_contract i (\<lambda>c. c\<lparr>hc_status := HS_cancelled, hc_deleted_at := Some now\<rparr>) s)"
      by (simp add: delete award_refs_def)
    then show ?thesis by simp
  qed simp
  then show ?thesis using contract_step_kept[OF assms] by (simp add: same_rfq_view_def requests_kept_def)
qed

lemma settlement_view:
  assumes "post_settlement s now i p = Inr (s', ev, es)"
  shows "same_rfq_view s s'"
proof -
  have "award_refs s' = award_refs s"
    using assms
  proof (cases rule: settlement_cases)
    case (fresh c s1)
    have "award_refs s1 = award_refs s" by (simp add: fresh award_refs_def)
    then show ?thesis by (simp add: fresh)
  qed simp
  then show ?thesis using settlement_kept[OF assms] by (simp add: same_rfq_view_def requests_kept_def)
qed

lemma book_kept_view: "book_kept s s' \<Longrightarrow> requests_kept s s' \<Longrightarrow> next_uuid s \<le> next_uuid s' \<Longrightarrow> same_rfq_view s s'"
  by (rule requests_kept_view) (simp_all add: book_kept_def)

lemma system_step_view:
  assumes "system_step s s'" and "exposures_wf s"
  shows "rfq_request s s' \<or> same_rfq_view s s'"
  using assms(1)
proof cases
  case (order_created p now t actor res)
  have "contracts s' = contracts s" using order_created by (cases rule: create_order_cases) simp_all
  then show ?thesis using requests_kept_view book_ops_kept(1)[OF order_created] by blast
next
  case (order_archived now i)
  have "contracts s' = contracts s" using order_archived by (auto simp: archive_order_def write_order_def Let_def)
  then show ?thesis using requests_kept_view book_ops_kept(2)[OF order_archived] by blast
next
  case (hedge_linked now i j q k)
  have "contracts s' = contracts s" using hedge_linked by (auto simp: post_linkage_def create_linkage_def Let_def)
  then show ?thesis using requests_kept_view book_ops_kept(4)[OF hedge_linked] by blast
next
  case contract_written
  then show ?thesis using contract_step_view by blast
next
  case contract_settled
  then show ?thesis using settlement_view by blast
next
  case reference_data
  then show ?thesis by (simp add: same_rfq_view_def award_refs_def)
qed (auto dest!: book_ops_kept(3) deal_ops_kept reconcile_kept[OF assms(2)] task_ops_kept intro: book_kept_view)

definition system_inv :: "db \<Rightarrow> bool" where
  "system_inv s \<longleftrightarrow> book_inv s \<and> rfq_inv s"

lemma system_step_inv:
  assumes "system_inv s" and "system_step s s'"
  shows "system_inv s'"
proof -
  have inv: "book_inv s" "rfq_inv s" "exposures_wf s" using assms(1) by (simp_all add: system_inv_def book_inv_def)
  then show ?thesis
    using system_step_book_inv[OF inv(1,2) assms(2)] system_step_view[OF assms(2) inv(3)] rfq_request_inv rfq_inv_view
    by (auto simp: system_inv_def)
qed

lemma reachable_system_inv: "reachable s \<Longrightarrow> system_inv s"
  unfolding reachable_def
proof (induction rule: rtranclp_induct)
  case base
  show ?case
    by (simp add: system_inv_def rfq_inv_def award_refs_def book_inv_def empty_db_def capacity_inv_def capacity_keys_wf_def linkages_wf_def within_capacity_def
        order_capacity_def contract_capacity_def get_defs keyed_def exposures_wf_def tasks_wf_def pending_tasks_def
        ledger_inv_def deal_keys_wf_def unique_links_def links_issued_def)
qed (rule system_step_inv)

lemma reachable_inv: "reachable s \<Longrightarrow> book_inv s"
  using reachable_system_inv by (simp add: system_inv_def)

section \<open>Contract statuses and deal aggregates over runs\<close>

lemma system_step_follows:
  assumes "system_step s s'" and "exposures_wf s"
  shows "contracts_follow (contracts s) (contracts s')"
  using assms(1)
proof cases
  case (order_created p now t actor res)
  show ?thesis using order_created by (cases rule: create_order_cases) simp_all
next
  case order_archived
  then show ?thesis by (auto simp: archive_order_def write_order_def Let_def)
next
  case contract_written
  then show ?thesis by (rule contract_step_follows)
next
  case hedge_linked
  then show ?thesis by (auto simp: post_linkage_def create_linkage_def Let_def)
next
  case contract_settled
  then show ?thesis by (rule settlement_follows)
next
  case quotes_requested
  then obtain t where t: "booked\<^sup>*\<^sup>* s t" "book_frame t s'" using rfq_request_frame by blast
  have "\<exists>cs. contracts t = contracts s @ cs"
    using t(1) by (induction rule: rtranclp_induct) (auto simp: booked_def elim!: book_trade_cases)
  then have "\<exists>cs. contracts s' = contracts s @ cs" using t(2) by (simp add: book_frame_def book_kept_def)
  then show ?thesis by auto
qed (auto dest!: book_ops_kept(3) deal_ops_kept reconcile_kept[OF assms(2)] task_ops_kept simp: book_kept_def)

lemma run_follows:
  assumes "system_step\<^sup>*\<^sup>* s s'" and "system_inv s"
  shows "contracts_follow\<^sup>*\<^sup>* (contracts s) (contracts s') \<and> system_inv s'"
  using assms
proof (induction rule: rtranclp_induct)
  case (step t u)
  then have "system_inv t" by simp
  with step show ?case
    using system_step_follows[OF step.hyps(2)] system_step_inv[OF _ step.hyps(2)]
    by (auto simp: system_inv_def book_inv_def intro: rtranclp.rtrancl_into_rtrancl)
qed simp

text \<open>Steps that do not edit the quantity of an existing contract.\<close>

definition quantities_kept :: "db \<Rightarrow> db \<Rightarrow> bool" where
  "quantities_kept s s' \<longleftrightarrow> (\<forall>i c c'. get_contract s i = Some c \<longrightarrow> get_contract s' i = Some c' \<longrightarrow> hc_quantity_mt c' = hc_quantity_mt c)"

lemma deals_consistent_cong:
  assumes "deals s' = deals s" and "deal_links s' = deal_links s" and "orders s' = orders s"
    and "\<And>i. map_option hc_quantity_mt (live_contract s' i) = map_option hc_quantity_mt (live_contract s i)"
  shows "deals_consistent s' \<longleftrightarrow> deals_consistent s"
proof -
  have "hedge_tons_of s' l = hedge_tons_of s l" for l
    using assms(4)[of "dl_linked_id l"] unfolding hedge_tons_of_def
    by (cases "live_contract s' (dl_linked_id l)"; cases "live_contract s (dl_linked_id l)") auto
  moreover have "physical_tons_of s' l = physical_tons_of s l" for l
    by (simp add: physical_tons_of_def live_order_def get_order_def assms(3))
  ultimately have "hedge_tons_of s' = hedge_tons_of s" "physical_tons_of s' = physical_tons_of s"
    by auto
  then have "deal_tons s' i = deal_tons s i" for i
    by (simp add: deal_tons_def links_of_deal_def assms(2))
  then show ?thesis by (simp add: deals_consistent_def deal_consistent_def assms(1))
qed

lemma deals_consistent_book_kept:
  "deals_consistent s \<Longrightarrow> book_kept s s' \<Longrightarrow> deals s' = deals s \<Longrightarrow> deal_links s' = deal_links s \<Longrightarrow> deals_consistent s'"
  using deals_consistent_cong[of s' s] by (simp add: book_kept_def live_contract_def get_contract_def)

lemma update_status_consistent:
  assumes "deals_consistent s" and "deal_keys_wf s" and "update_deal_status s i = Inr s'"
  shows "deals_consistent s'"
proof -
  obtain deal where deal: "get_deal s i = Some deal"
    and s': "s' = s\<lparr>deals := update_row deal_id i (\<lambda>d. d\<lparr>deal_status := status_of_ratio (quantize_ratio (deal_hedge_ratio deal))\<rparr>) (deals s)\<rparr>"
    using assms(3) by (auto simp: update_deal_status_def)
  have tons: "deal_tons s' j = deal_tons s j" for j
    by (rule deal_tons_cong) (simp_all add: s' links_of_deal_def)
  have status: "deal_status d = status_of_ratio (deal_hedge_ratio d)" "quantize_ratio (deal_hedge_ratio d) = deal_hedge_ratio d"
    if "d \<in> set (deals s)" for d
  proof -
    have "aggregate_deal (deal_tons s (deal_id d)) d = d"
      using assms(1) that by (simp add: deals_consistent_def deal_consistent_def)
    then obtain t where t: "d = aggregate_deal t d" by metis
    show "deal_status d = status_of_ratio (deal_hedge_ratio d)"
      by (subst t, subst (2) t) (simp add: aggregate_deal_def Let_def split: prod.split)
    show "quantize_ratio (deal_hedge_ratio d) = deal_hedge_ratio d"
      by (subst t, subst (2) t) (simp add: aggregate_deal_def Let_def split: prod.split)
  qed
  show ?thesis
    unfolding deals_consistent_def deal_consistent_def tons
  proof
    fix d assume "d \<in> set (deals s')"
    then consider "d \<in> set (deals s)" | d0 where "d0 \<in> set (deals s)" "deal_id d0 = i"
        "d = d0\<lparr>deal_status := status_of_ratio (quantize_ratio (deal_hedge_ratio deal))\<rparr>"
      by (auto simp: s' update_row_def)
    then show "aggregate_deal (deal_tons s (deal_id d)) d = d"
    proof cases
      case 1
      then show ?thesis using assms(1) by (simp add: deals_consistent_def deal_consistent_def)
    next
      case (2 d0)
      have "deal \<in> set (deals s)" "deal_id deal = i"
        using deal get_row_SomeD unfolding get_deal_def by fast+
      then have "d0 = deal"
        using keyed_inj[of deal_id "deals s" d0 deal] assms(2) 2(1,2) by (simp add: deal_keys_wf_def)
      then have "d = d0" using 2 status[OF 2(1)] by simp
      with 2(1) show ?thesis using assms(1) by (simp add: deals_consistent_def deal_consistent_def)
    qed
  qed
qed


lemma contract_write_consistent:
  assumes "deals_consistent s" and "\<And>c. hc_id (f c) = hc_id c" and "\<And>c. hc_deleted_at (f c) = hc_deleted_at c"
    and "quantities_kept s (write_contract i f s)"
  shows "deals_consistent (write_contract i f s)"
proof -
  have "map_option hc_quantity_mt (live_contract (write_contract i f s) j) = map_option hc_quantity_mt (live_contract s j)" for j
    using assms(4) unfolding quantities_kept_def
    by (auto simp: live_contract_def get_contract_write[OF assms(2)] assms(3) split: option.splits)
  then show ?thesis
    using assms(1) deals_consistent_cong[of "write_contract i f s" s] by (simp add: write_contract_def)
qed

lemma settlement_consistent:
  assumes "deals_consistent s" and "post_settlement s now cid p = Inr (s', ev, es)"
  shows "deals_consistent s'"
  using assms(2)
proof (cases rule: settlement_cases)
  case (fresh c s1)
  have "deals_consistent s1"
    by (rule deals_consistent_book_kept[OF assms(1)]) (simp_all add: fresh(2) book_kept_def)
  then show ?thesis
    unfolding fresh(1) by (rule write_contract_consistent) simp_all
qed (use assms in simp)

lemma contract_step_consistent:
  assumes "deals_consistent s" and "book_inv s" and "contract_step s s'" and "quantities_kept s s'"
  shows "deals_consistent s'"
  using assms(3)
proof cases
  case cs_create
  then show ?thesis using post_contract_consistent assms(1,2) by (auto simp: book_inv_def capacity_inv_def)
next
  case (cs_update i u)
  then have "s' = s \<or> s' = write_contract i (apply_contract_update u) s"
    by (auto simp: update_contract_def Let_def split: if_splits option.splits)
  then show ?thesis
    using assms(1,4) contract_write_consistent[of s "apply_contract_update u" i] by auto
qed (use assms(1) in \<open>auto intro: archive_contract_consistent transition_status_consistent delete_contract_consistent\<close>)

lemma post_linkage_consistent:
  assumes "deals_consistent s" and "post_linkage s now i j q = Inr (s', k)"
  shows "deals_consistent s'"
proof -
  obtain ls n where "s' = s\<lparr>linkages := ls, next_uuid := n\<rparr>"
    using assms(2) by (auto simp: post_linkage_def create_linkage_def Let_def)
  then show ?thesis
    using assms(1) deals_consistent_cong[of s' s] by (simp add: live_contract_def get_contract_def)
qed

lemma booked_consistent:
  assumes "booked s t" and "trades_ok s" and "book_inv s" and "deals_consistent s"
  shows "deals_consistent t"
  using assms(1,2)
proof (cases rule: booked_cases)
  case 1
  then show ?thesis using add_contract_consistent[OF assms(4)] assms(3) by (simp add: book_inv_def capacity_inv_def)
next
  case (2 c now oid k)
  have "deals_consistent (s\<lparr>contracts := contracts s @ [c], next_uuid := Suc (next_uuid s)\<rparr>)"
    using add_contract_consistent[OF assms(4)] assms(3) 2(2) by (simp add: book_inv_def capacity_inv_def)
  then show ?thesis using 2(1) by (rule post_linkage_consistent)
qed

lemma rfq_request_consistent:
  assumes "rfq_request s s'" and "trades_ok s" and "book_inv s" and "deals_consistent s"
  shows "deals_consistent s'"
proof -
  obtain t where t: "booked\<^sup>*\<^sup>* s t" "book_frame t s'" using rfq_request_frame[OF assms(1)] by blast
  have "deals_consistent t \<and> book_inv t \<and> trades_ok t"
    using t(1)
  proof (induction rule: rtranclp_induct)
    case (step t u)
    then show ?case using booked_consistent booked_book_inv booked_rfqs by (metis trades_ok_def)
  qed (use assms in simp)
  then show ?thesis using t(2) by (auto simp: book_frame_def intro: deals_consistent_book_kept)
qed

lemma system_step_consistent:
  assumes "system_inv s" and "deals_consistent s" and "system_step s s'" and "quantities_kept s s'"
  shows "deals_consistent s'"
proof -
  have inv: "capacity_keys_wf s" "exposures_wf s" "deal_keys_wf s" "links_issued s" "book_inv s" "trades_ok s"
    using assms(1) by (simp_all add: system_inv_def book_inv_def capacity_inv_def rfq_inv_trades_ok)
  from assms(3) show ?thesis
  proof cases
    case order_created
    then show ?thesis using create_order_consistent[OF assms(2) inv(1,4)] by blast
  next
    case order_archived
    then show ?thesis using archive_order_consistent assms(2) by blast
  next
    case orders_paired
    then show ?thesis
      using assms(2) by (auto simp: create_sopo_link_def book_kept_def intro!: deals_consistent_book_kept[OF assms(2)])
  next
    case contract_written
    then show ?thesis using contract_step_consistent assms(2,4) inv(5) by blast
  next
    case hedge_linked
    then show ?thesis using post_linkage_consistent[OF assms(2)] by blast
  next
    case deal_created
    then show ?thesis using create_deal_invariants[OF inv(3)] assms(2) by blast
  next
    case link_added
    then show ?thesis using add_link_invariants[OF inv(3)] assms(2) by blast
  next
    case link_removed
    then show ?thesis using remove_link_invariants[OF inv(3)] assms(2) by blast
  next
    case deal_refreshed
    then show ?thesis using update_status_consistent[OF assms(2) inv(3)] by blast
  next
    case reconciled
    then show ?thesis using reconcile_kept[OF inv(2)] deals_consistent_book_kept[OF assms(2)] by blast
  next
    case tasks_created
    then show ?thesis using task_ops_kept(1) deals_consistent_book_kept[OF assms(2)] by blast
  next
    case tasks_cancelled
    then show ?thesis using task_ops_kept(2) deals_consistent_book_kept[OF assms(2)] by blast
  next
    case task_executed
    then show ?thesis using task_ops_kept(3) deals_consistent_book_kept[OF assms(2)] by blast
  next
    case contract_settled
    then show ?thesis using settlement_consistent[OF assms(2)] by blast
  next
    case quotes_requested
    then show ?thesis using rfq_request_consistent[OF _ inv(6,5) assms(2)] by blast
  next
    case reference_data
    then show ?thesis
      by (intro deals_consistent_book_kept[OF assms(2)]) (simp_all add: book_kept_def)
  qed
qed

end
