(* ===== verification/LME_Calendar.thy ===== *)
theory LME_Calendar
  imports HC_Dates
begin

text \<open>
  \<open>backend/app/services/lme_calendar.py\<close>: the business-day calendar behind the prompt
  payment terms of the RFQ engine. The loops count day by day and can leave Python's date
  range, where they raise \<open>OverflowError\<close>; the theorems say exactly when they return and
  which day they return.
\<close>

section \<open>The calendar and its loops\<close>

definition LME_HOLIDAYS :: "string list" where
  "LME_HOLIDAYS =
    [''2025-01-01'', ''2025-04-18'', ''2025-04-21'', ''2025-05-05'',
     ''2025-05-26'', ''2025-08-25'', ''2025-12-25'', ''2025-12-26'',
     ''2026-01-01'', ''2026-04-03'', ''2026-04-06'', ''2026-05-04'',
     ''2026-05-25'', ''2026-08-31'', ''2026-12-25'', ''2026-12-28'']"

record LMECalendar =
  holidays_iso :: "string list"

definition is_business_day :: "LMECalendar \<Rightarrow> date \<Rightarrow> bool" where
  "is_business_day cal d = (if 5 \<le> weekday d then False else isoformat d \<notin> set (holidays_iso cal))"

definition add_holidays :: "LMECalendar \<Rightarrow> string list \<Rightarrow> LMECalendar" where
  "add_holidays cal hs = cal\<lparr>holidays_iso := holidays_iso cal @ hs\<rparr>"

definition lme_calendar :: LMECalendar where
  "lme_calendar = \<lparr>holidays_iso = LME_HOLIDAYS\<rparr>"

text \<open>\<open>while counted < n: d += timedelta(days=1); if cal.is_business_day(d): counted += 1\<close>\<close>

function add_business_days_loop :: "LMECalendar \<Rightarrow> int \<Rightarrow> date \<Rightarrow> int \<Rightarrow> date result" where
  "add_business_days_loop cal n d counted =
     (if counted < n then
        (case next_day d of
           Inl e \<Rightarrow> Inl e
         | Inr d' \<Rightarrow> add_business_days_loop cal n d'
                      (if is_business_day cal d' then counted + 1 else counted))
      else Inr d)"
  by pat_completeness auto
termination
  by (relation "measure (\<lambda>(cal, n, d, counted). days_left d)") (auto simp: days_left_next_day)

definition add_business_days :: "date \<Rightarrow> int \<Rightarrow> LMECalendar \<Rightarrow> date result" where
  "add_business_days start n cal = add_business_days_loop cal n start 0"

text \<open>The \<open>while True\<close> loop of \<open>second_business_day_of_next_month\<close>.\<close>

function second_business_day_loop :: "LMECalendar \<Rightarrow> date \<Rightarrow> int \<Rightarrow> date result" where
  "second_business_day_loop cal d count =
     (if is_business_day cal d \<and> count + 1 = 2 then Inr d
      else (case next_day d of
              Inl e \<Rightarrow> Inl e
            | Inr d' \<Rightarrow> second_business_day_loop cal d'
                         (if is_business_day cal d then count + 1 else count)))"
  by pat_completeness auto
termination
  by (relation "measure (\<lambda>(cal, d, count). days_left d)") (auto simp: days_left_next_day)

definition second_business_day_of_next_month :: "nat \<Rightarrow> nat \<Rightarrow> LMECalendar \<Rightarrow> date result" where
  "second_business_day_of_next_month year month_index_0 cal =
     (let (y2, m2) = (if month_index_0 = 11 then (year + 1, 1) else (year, month_index_0 + 2))
      in case mk_date y2 m2 1 of
           Inl e \<Rightarrow> Inl e
         | Inr d \<Rightarrow> second_business_day_loop cal d 0)"

function last_business_day_loop :: "LMECalendar \<Rightarrow> date \<Rightarrow> date result" where
  "last_business_day_loop cal d =
     (if is_business_day cal d then Inr d
      else (case prev_day d of Inl e \<Rightarrow> Inl e | Inr d' \<Rightarrow> last_business_day_loop cal d'))"
  by pat_completeness auto
termination
  by (relation "measure (\<lambda>(cal, d). days_gone d)") (auto simp: days_gone_prev_day)

definition last_business_day_of_month :: "nat \<Rightarrow> nat \<Rightarrow> LMECalendar \<Rightarrow> date result" where
  "last_business_day_of_month year month_index_0 cal =
     (case (if month_index_0 = 11 then mk_date (year + 1) 1 1 else mk_date year (month_index_0 + 2) 1) of
        Inl e \<Rightarrow> Inl e
      | Inr first \<Rightarrow> (case prev_day first of Inl e \<Rightarrow> Inl e | Inr d \<Rightarrow> last_business_day_loop cal d))"

declare add_business_days_loop.simps [simp del]
declare second_business_day_loop.simps [simp del]
declare last_business_day_loop.simps [simp del]

section \<open>Business days after a date\<close>

definition business_days_after :: "LMECalendar \<Rightarrow> date \<Rightarrow> date set" where
  "business_days_after cal d = {x. valid_date x \<and> d < x \<and> is_business_day cal x}"

lemma finite_business_days_after [simp]: "finite (business_days_after cal d)"
  by (rule finite_subset[OF _ finite_valid_dates]) (auto simp: business_days_after_def)


lemma business_days_after_next:
  assumes "valid_date d" and "next_day d = Inr d'"
  shows "business_days_after cal d =
    (if is_business_day cal d' then insert d' (business_days_after cal d') else business_days_after cal d')"
proof -
  have "valid_date d'" "d < d'"
    using assms next_day_valid next_day_greater by blast+
  moreover have "x = d' \<or> d' < x" if "valid_date x" "d < x" for x
    using next_day_least[OF assms(1) that(1) assms(2) that(2)] by auto
  ultimately show ?thesis
    by (auto simp: business_days_after_def)
qed

lemma business_days_after_end:
  assumes "valid_date d" and "next_day d = Inl e"
  shows "business_days_after cal d = {}" and "e = OverflowError"
proof -
  have "\<not> d < Date 9999 12 31" using next_day_ok[OF assms(1)] assms(2) by auto
  moreover have "x \<le> Date 9999 12 31" if "valid_date x" for x
    using that days_in_month_bounds(2)
    by (cases x) (auto simp: less_eq_date_def MAXYEAR_def intro: order_trans)
  ultimately show "business_days_after cal d = {}"
    by (fastforce simp: business_days_after_def)
  show "e = OverflowError"
    using assms(2) by (cases d) (auto split: if_splits)
qed

definition business_days_between :: "LMECalendar \<Rightarrow> date \<Rightarrow> date \<Rightarrow> date set" where
  "business_days_between cal d e = {x \<in> business_days_after cal d. x \<le> e}"

lemma business_days_between_next:
  assumes "valid_date d" and "next_day d = Inr d'" and "d' \<le> e"
  shows "card (business_days_between cal d e) =
    (if is_business_day cal d' then Suc (card (business_days_between cal d' e))
     else card (business_days_between cal d' e))"
proof -
  have "d' \<notin> business_days_after cal d'"
    by (simp add: business_days_after_def)
  moreover have "business_days_between cal d e =
    (if is_business_day cal d' then insert d' (business_days_between cal d' e)
     else business_days_between cal d' e)"
    using assms(3) by (auto simp: business_days_between_def business_days_after_next[OF assms(1,2)])
  moreover have "finite (business_days_between cal d' e)"
    by (simp add: business_days_between_def)
  ultimately show ?thesis
    by (simp add: business_days_between_def)
qed

lemma card_business_days_after_next:
  assumes "valid_date d" and "next_day d = Inr d'"
  shows "card (business_days_after cal d) =
    (if is_business_day cal d' then Suc (card (business_days_after cal d'))
     else card (business_days_after cal d'))"
proof -
  have "d' \<notin> business_days_after cal d'"
    by (simp add: business_days_after_def)
  then show ?thesis
    by (simp add: business_days_after_next[OF assms])
qed

section \<open>What the loops return\<close>

lemma add_business_days_loop_correct:
  assumes "valid_date d" and "counted \<le> n"
  shows "if n - counted \<le> int (card (business_days_after cal d))
    then \<exists>e. add_business_days_loop cal n d counted = Inr e \<and> valid_date e \<and> d \<le> e
      \<and> int (card (business_days_between cal d e)) = n - counted
      \<and> (counted < n \<longrightarrow> is_business_day cal e)
    else add_business_days_loop cal n d counted = Inl OverflowError"
  using assms
proof (induction cal n d counted rule: add_business_days_loop.induct)
  case (1 cal n d counted)
  show ?case
  proof (cases "counted < n")
    case False
    moreover have "business_days_between cal d d = {}"
      by (auto simp: business_days_between_def business_days_after_def)
    ultimately show ?thesis
      using 1(2,3) by (simp add: add_business_days_loop.simps)
  next
    case True
    show ?thesis
    proof (cases "next_day d")
      case (Inl e)
      then show ?thesis
        using business_days_after_end[OF 1(2) Inl] True
        by (simp add: add_business_days_loop.simps)
    next
      case (Inr d')
      have v: "valid_date d'" "d < d'"
        using 1(2) Inr next_day_valid next_day_greater by blast+
      define c' where "c' = (if is_business_day cal d' then counted + 1 else counted)"
      have IH: "if n - c' \<le> int (card (business_days_after cal d'))
        then \<exists>e. add_business_days_loop cal n d' c' = Inr e \<and> valid_date e \<and> d' \<le> e
          \<and> int (card (business_days_between cal d' e)) = n - c'
          \<and> (c' < n \<longrightarrow> is_business_day cal e)
        else add_business_days_loop cal n d' c' = Inl OverflowError"
        unfolding c'_def using 1(1)[OF True Inr v(1)] True by simp
      have step: "add_business_days_loop cal n d counted = add_business_days_loop cal n d' c'"
        by (subst add_business_days_loop.simps) (simp add: True Inr c'_def)
      have card: "n - counted \<le> int (card (business_days_after cal d)) \<longleftrightarrow>
          n - c' \<le> int (card (business_days_after cal d'))"
        using card_business_days_after_next[OF 1(2) Inr, of cal] by (auto simp: c'_def)
      show ?thesis
      proof (cases "n - c' \<le> int (card (business_days_after cal d'))")
        case False
        then show ?thesis using IH step card by simp
      next
        case enough: True
        then obtain e where e: "add_business_days_loop cal n d' c' = Inr e" "valid_date e" "d' \<le> e"
          "int (card (business_days_between cal d' e)) = n - c'" "c' < n \<longrightarrow> is_business_day cal e"
          using IH by auto
        have "is_business_day cal e" if "\<not> c' < n"
        proof -
          have b: "is_business_day cal d'" "c' = n" using that True by (auto simp: c'_def split: if_splits)
          then have "add_business_days_loop cal n d' c' = Inr d'"
            by (subst add_business_days_loop.simps) simp
          with e(1) b show ?thesis by simp
        qed
        then show ?thesis
          using e enough step card business_days_between_next[OF 1(2) Inr e(3), of cal] v(2)
          by (auto simp: c'_def split: if_splits)
      qed
    qed
  qed
qed

lemma second_business_day_loop_correct:
  assumes "valid_date d" and "count = 0 \<or> count = 1"
    and "second_business_day_loop cal d count = Inr e"
  shows "valid_date e \<and> d \<le> e \<and> is_business_day cal e \<and>
    int (card {x. valid_date x \<and> d \<le> x \<and> x < e \<and> is_business_day cal x}) = 1 - count"
  using assms
proof (induction cal d count rule: second_business_day_loop.induct)
  case (1 cal d count)
  show ?case
  proof (cases "is_business_day cal d \<and> count + 1 = 2")
    case True
    then have "e = d"
      using 1(4) by (subst (asm) second_business_day_loop.simps) simp
    moreover have none: "{x. valid_date x \<and> d \<le> x \<and> x < d \<and> is_business_day cal x} = {}" by auto
    ultimately show ?thesis using True 1(2) by (simp only: none card.empty) simp
  next
    case False
    then obtain d' where d': "next_day d = Inr d'"
      and rec: "second_business_day_loop cal d' (if is_business_day cal d then count + 1 else count) = Inr e"
      using 1(4) by (subst (asm) second_business_day_loop.simps) (auto split: sum.splits)
    define S where "S z = {x. valid_date x \<and> z \<le> x \<and> x < e \<and> is_business_day cal x}" for z
    have v: "valid_date d'" "d < d'"
      using 1(2) d' next_day_valid next_day_greater by blast+
    have IH: "valid_date e \<and> d' \<le> e \<and> is_business_day cal e \<and>
        int (card (S d')) = 1 - (if is_business_day cal d then count + 1 else count)"
      unfolding S_def using 1(1)[OF False d' v(1) _ rec] 1(3) False by (auto split: if_splits)
    have "S d = (if is_business_day cal d then insert d (S d') else S d')"
    proof -
      have "d < e" using v(2) IH by (meson less_le_trans)
      have "x \<in> S d \<longleftrightarrow> (is_business_day cal d \<and> x = d) \<or> x \<in> S d'" for x
        using v 1(2) \<open>d < e\<close> next_day_least[OF 1(2) _ d', of x]
        by (auto simp: S_def le_less intro: less_trans)
      then show ?thesis by auto
    qed
    moreover have "d \<notin> S d'" "finite (S d')"
      using v finite_subset[OF _ finite_valid_dates, of "S d'"] by (auto simp: S_def)
    ultimately have "int (card (S d)) = 1 - count"
      using IH by (auto split: if_splits)
    with IH v show ?thesis by (auto simp: S_def)
  qed
qed

lemma last_business_day_loop_correct:
  assumes "valid_date d" and "last_business_day_loop cal d = Inr e"
  shows "valid_date e \<and> e \<le> d \<and> is_business_day cal e \<and>
    (\<forall>x. valid_date x \<longrightarrow> e < x \<longrightarrow> x \<le> d \<longrightarrow> \<not> is_business_day cal x)"
  using assms
proof (induction cal d rule: last_business_day_loop.induct)
  case (1 cal d)
  show ?case
  proof (cases "is_business_day cal d")
    case True
    then show ?thesis using 1(2,3) by (auto simp: last_business_day_loop.simps)
  next
    case False
    then obtain d' where d': "prev_day d = Inr d'" and rec: "last_business_day_loop cal d' = Inr e"
      using 1(3) by (subst (asm) last_business_day_loop.simps) (auto split: sum.splits)
    have v: "valid_date d'" "d' < d"
      using 1(2) d' prev_day_valid prev_day_less by blast+
    have "x \<le> d'" if "valid_date x" "x \<le> d" "is_business_day cal x" for x
      using that False prev_day_greatest[OF 1(2) that(1) d'] by (cases "x = d") auto
    then show ?thesis
      using 1(1)[OF False d' v(1) rec] v by (meson less_imp_le order_trans)
  qed
qed

section \<open>Properties\<close>

text \<open>\<open>add_business_days\<close> returns exactly when at least \<open>n\<close> business days are left in
  Python's date range. It then returns a business day with exactly \<open>n\<close> business days after
  the start up to and including it; otherwise the date arithmetic overflows.\<close>

theorem add_business_days_correct:
  assumes "valid_date start" and "0 < n"
  shows "if n \<le> int (card (business_days_after cal start))
    then \<exists>e. add_business_days start n cal = Inr e \<and> valid_date e \<and> start < e
      \<and> is_business_day cal e \<and> int (card (business_days_between cal start e)) = n
    else add_business_days start n cal = Inl OverflowError"
proof (cases "n \<le> int (card (business_days_after cal start))")
  case True
  then obtain e where e: "add_business_days start n cal = Inr e" "valid_date e" "start \<le> e"
      "int (card (business_days_between cal start e)) = n" "is_business_day cal e"
    using add_business_days_loop_correct[of start 0 n cal] assms by (auto simp: add_business_days_def)
  moreover have "business_days_between cal start start = {}"
    by (auto simp: business_days_between_def business_days_after_def)
  ultimately show ?thesis
    using True assms(2) by (auto simp: le_less)
qed (use add_business_days_loop_correct[of start 0 n cal] assms in \<open>simp add: add_business_days_def\<close>)

theorem add_business_days_correct_witness:
  "valid_date (Date 2026 4 2) \<and> (if 2 \<le> int (card (business_days_after lme_calendar (Date 2026 4 2)))
    then \<exists>e. add_business_days (Date 2026 4 2) 2 lme_calendar = Inr e \<and> valid_date e \<and> Date 2026 4 2 < e
      \<and> is_business_day lme_calendar e
      \<and> int (card (business_days_between lme_calendar (Date 2026 4 2) e)) = 2
    else add_business_days (Date 2026 4 2) 2 lme_calendar = Inl OverflowError)"
proof -
  have "valid_date (Date 2026 4 2)"
    by (simp add: MINYEAR_def MAXYEAR_def days_in_month_def)
  then show ?thesis
    using add_business_days_correct[of "Date 2026 4 2" 2 lme_calendar] by simp
qed

end
