(* ===== verification/Pagination.thy ===== *)
theory Pagination
  imports HC_Models "HOL-Library.Product_Lexorder" "HOL-Library.Multiset"
begin

text \<open>
  \<open>backend/app/core/pagination.py\<close>: keyset pagination over rows with a timestamp and an identifier.
  A cursor is the pair that \<open>decode_cursor\<close> reads back from its base64 text. The query helper
  filters the rows after the cursor, orders them by timestamp and identifier and returns one
  page together with the cursor of its last row if there are more.
\<close>

type_synonym cursor = "datetime \<times> uuid"

section \<open>The helper\<close>

definition after_cursor :: "('r \<Rightarrow> datetime) \<Rightarrow> ('r \<Rightarrow> uuid) \<Rightarrow> cursor option \<Rightarrow> 'r \<Rightarrow> bool" where
  "after_cursor ts rid cur r =
     (case cur of None \<Rightarrow> True
      | Some (cursor_ts, cursor_id) \<Rightarrow> cursor_ts < ts r \<or> (ts r = cursor_ts \<and> cursor_id < rid r))"

definition paginate :: "('r \<Rightarrow> datetime) \<Rightarrow> ('r \<Rightarrow> uuid) \<Rightarrow> cursor option \<Rightarrow> nat \<Rightarrow> 'r list \<Rightarrow> 'r list \<times> cursor option" where
  "paginate ts rid cur limit query =
     (let rows = take (limit + 1) (sort_key (\<lambda>r. (ts r, rid r)) (filter (after_cursor ts rid cur) query))
      in if limit < length rows
         then (let last_row = rows ! (limit - 1) in (take limit rows, Some (ts last_row, rid last_row)))
         else (rows, None))"

text \<open>A query that is already ordered by descending timestamp keeps that order; the helper's own
  order only breaks ties.\<close>

definition paginate_desc :: "('r \<Rightarrow> datetime) \<Rightarrow> ('r \<Rightarrow> uuid) \<Rightarrow> cursor option \<Rightarrow> nat \<Rightarrow> 'r list \<Rightarrow> 'r list \<times> cursor option" where
  "paginate_desc ts rid cur limit query =
     (let rows = take (limit + 1) (sort_key (\<lambda>r. (- ts r, rid r)) (filter (after_cursor ts rid cur) query))
      in if limit < length rows
         then (let last_row = rows ! (limit - 1) in (take limit rows, Some (ts last_row, rid last_row)))
         else (rows, None))"

text \<open>A client that follows the cursors until there is none; None when the fuel runs out.\<close>

fun fetch_all :: "(cursor option \<Rightarrow> 'r list \<times> cursor option) \<Rightarrow> nat \<Rightarrow> cursor option \<Rightarrow> 'r list list option" where
  "fetch_all page 0 cur = None"
| "fetch_all page (Suc fuel) cur =
     (case page cur of
        (items, None) \<Rightarrow> Some [items]
      | (items, Some c) \<Rightarrow> map_option ((#) items) (fetch_all page fuel (Some c)))"

section \<open>Pages of a sorted list\<close>

abbreviation row_key :: "('r \<Rightarrow> datetime) \<Rightarrow> ('r \<Rightarrow> uuid) \<Rightarrow> 'r \<Rightarrow> datetime \<times> uuid" where
  "row_key ts rid \<equiv> \<lambda>r. (ts r, rid r)"

lemma after_cursor_less: "after_cursor ts rid (Some c) r \<longleftrightarrow> c < row_key ts rid r"
  by (cases c) (auto simp: after_cursor_def less_prod_def' eq_commute)

lemma sort_filter_after:
  "sort_key (row_key ts rid) (filter (after_cursor ts rid cur) query) =
     filter (after_cursor ts rid cur) (sort_key (row_key ts rid) query)"
  by (simp add: filter_sort)

text \<open>In a strictly sorted list the rows after the \<open>n\<close>-th are those with a larger key.\<close>

lemma filter_after_nth:
  assumes "sorted_wrt (\<lambda>x y. key x < (key y :: 'k :: linorder)) xs" and "n < length xs"
  shows "filter (\<lambda>r. key (xs ! n) < key r) xs = drop (Suc n) xs"
proof -
  have "xs = take n xs @ xs ! n # drop (Suc n) xs" using assms(2) by (rule id_take_nth_drop)
  then have s: "sorted_wrt (\<lambda>x y. key x < key y) (take n xs @ xs ! n # drop (Suc n) xs)" using assms(1) by simp
  then have "\<forall>r \<in> set (take n xs). key r < key (xs ! n)" "\<forall>r \<in> set (drop (Suc n) xs). key (xs ! n) < key r"
    by (auto simp: sorted_wrt_append)
  then have "filter (\<lambda>r. key (xs ! n) < key r) (take n xs) = []" "filter (\<lambda>r. key (xs ! n) < key r) (drop (Suc n) xs) = drop (Suc n) xs"
    by (auto simp: filter_empty_conv filter_id_conv)
  then have "filter (\<lambda>r. key (xs ! n) < key r) (take n xs @ xs ! n # drop (Suc n) xs) = drop (Suc n) xs" by simp
  with \<open>xs = take n xs @ xs ! n # drop (Suc n) xs\<close> show ?thesis by metis
qed

lemma sorted_strict:
  assumes "keyed rid rows"
  shows "sorted_wrt (\<lambda>x y. row_key ts rid x < row_key ts rid y) (sort_key (row_key ts rid) rows)"
proof -
  have "distinct (map (row_key ts rid) rows)"
    using assms unfolding keyed_def by (induction rows) auto
  then have "distinct (map (row_key ts rid) (sort_key (row_key ts rid) rows))"
    by (metis (no_types, lifting) mset_map mset_sort mset_eq_imp_distinct_iff)
  then have "sorted_wrt (<) (map (row_key ts rid) (sort_key (row_key ts rid) rows))"
    by (simp add: strict_sorted_iff)
  then show ?thesis by (simp add: sorted_wrt_map)
qed

lemma paginate_suffix:
  assumes xs: "xs = sort_key (row_key ts rid) rows" and suffix: "filter (after_cursor ts rid cur) xs = drop k xs" and "0 < limit"
  shows "paginate ts rid cur limit rows =
    (if k + limit < length xs then (take limit (drop k xs), Some (row_key ts rid (xs ! (k + limit - 1))))
     else (drop k xs, None))"
proof -
  have eq: "sort_key (row_key ts rid) (filter (after_cursor ts rid cur) rows) = drop k xs"
    using suffix by (simp add: sort_filter_after xs)
  have "take (limit + 1) (drop k xs) ! (limit - 1) = xs ! (k + limit - 1)" if "k + limit < length xs"
    using that assms(3) by (simp add: nth_append)
  then show ?thesis
    using assms(3) unfolding paginate_def eq Let_def by (auto simp: min_def not_less)
qed

lemma fetch_all_suffix:
  assumes "keyed rid rows" and xs: "xs = sort_key (row_key ts rid) rows" and "0 < limit"
    and "filter (after_cursor ts rid cur) xs = drop k xs" and "length xs - k < fuel"
  shows "\<exists>pages. fetch_all (\<lambda>cur. paginate ts rid cur limit rows) fuel cur = Some pages \<and> concat pages = drop k xs
    \<and> (\<forall>p \<in> set pages. length p \<le> limit)"
  using assms(4,5)
proof (induction fuel arbitrary: cur k)
  case (Suc fuel)
  note page = paginate_suffix[OF xs Suc.prems(1) assms(3)]
  show ?case
  proof (cases "k + limit < length xs")
    case False
    then show ?thesis using page by auto
  next
    case True
    let ?n = "k + limit - 1"
    have n: "?n < length xs" "Suc ?n = k + limit" using True assms(3) by auto
    have "filter (after_cursor ts rid (Some (row_key ts rid (xs ! ?n)))) xs = drop (k + limit) xs"
      using filter_after_nth[OF sorted_strict[OF assms(1), of ts, folded xs] n(1)] n(2)
      by (simp add: after_cursor_less[abs_def])
    moreover have "length xs - (k + limit) < fuel" using Suc.prems(2) assms(3) True by linarith
    ultimately obtain pages where p: "fetch_all (\<lambda>cur. paginate ts rid cur limit rows) fuel (Some (row_key ts rid (xs ! ?n))) = Some pages"
      "concat pages = drop (k + limit) xs" "\<forall>p \<in> set pages. length p \<le> limit"
      using Suc.IH by blast
    have "take limit (drop k xs) @ drop (k + limit) xs = drop k xs"
      by (metis add.commute append_take_drop_id drop_drop)
    with p True page show ?thesis by auto
  qed
qed simp

text \<open>C31: Pagination enumerates. Whatever page size is asked for, following the cursors from the
  start ends, no page is longer than the limit, and the pages together are all rows of the
  query, each exactly once, in order of timestamp and identifier.\<close>

theorem paginate_enumerates:
  assumes "keyed rid rows" and "0 < limit"
  shows "\<exists>pages. fetch_all (\<lambda>cur. paginate ts rid cur limit rows) (Suc (length rows)) None = Some pages
    \<and> concat pages = sort_key (\<lambda>r. (ts r, rid r)) rows \<and> (\<forall>p \<in> set pages. length p \<le> limit)"
proof -
  have "after_cursor ts rid None = (\<lambda>_. True)" by (rule ext) (simp add: after_cursor_def)
  then show ?thesis
    using fetch_all_suffix[OF assms(1) refl assms(2), of ts None 0 "Suc (length rows)"] by simp
qed

theorem paginate_enumerates_witness:
  "\<exists>pages. fetch_all (\<lambda>cur. paginate fst snd cur 2 [(5, 1), (3, 2), (4, 0 :: nat)]) 4 None = Some pages
     \<and> concat pages = [(3 :: int, 2), (4, 0), (5, 1)]"
proof -
  let ?rows = "[(5 :: int, 1 :: nat), (3, 2), (4, 0)]"
  have k: "keyed snd ?rows" and n: "Suc (length ?rows) = 4" by (simp_all add: keyed_def)
  obtain pages where "fetch_all (\<lambda>cur. paginate fst snd cur 2 ?rows) 4 None = Some pages"
    "concat pages = sort_key (\<lambda>r. (fst r, snd r)) ?rows"
    using paginate_enumerates[OF k, of 2 fst] unfolding n by auto
  then show ?thesis by (intro exI[of _ pages]) simp
qed

text \<open>A listing that orders by descending time and then applies the helper loses rows: the second
  page asks for rows newer than the newest one.\<close>

lemma paginate_desc_loses_rows:
  "fetch_all (\<lambda>cur. paginate_desc fst snd cur 1 [(10 :: int, 1 :: nat), (20, 2)]) 3 None = Some [[(20, 2)], []]"
  by (simp add: numeral_3_eq_3 paginate_desc_def after_cursor_def)

end
