(* ===== verification/Workflow_Approval.thy ===== *)
theory Workflow_Approval
  imports Audit_Trail Lifecycle
begin

text \<open>
  \<open>backend/app/services/workflow_approval_service.py\<close>: mutations above a threshold wait for the
  approval of a second person. A request is created pending, is granted or rejected by an
  approver, may be superseded by its requester, expires, and is consumed once by running the
  mutation it was granted for. A payload is given by its canonical JSON text; SHA-256 is a
  parameter. Each transition leaves one audit event.
\<close>

section \<open>Configuration\<close>

record approval_settings =
  workflow_approval_deal_threshold_usd :: decimal
  workflow_approval_settle_threshold_usd :: decimal

definition default_settings :: approval_settings where
  "default_settings = \<lparr>workflow_approval_deal_threshold_usd = 500000, workflow_approval_settle_threshold_usd = 250000\<rparr>"

definition hours :: "int \<Rightarrow> int" where
  "hours n = n * 3600 * 1000000"

fun EXPIRY_BY_MUTATION_TYPE :: "MutationType \<Rightarrow> int" where
  "EXPIRY_BY_MUTATION_TYPE MT_deal_create = hours 48"
| "EXPIRY_BY_MUTATION_TYPE MT_deal_award = hours 24"
| "EXPIRY_BY_MUTATION_TYPE MT_hedge_contract_settle = hours 2"

fun THRESHOLD_BY_MUTATION_TYPE :: "approval_settings \<Rightarrow> MutationType \<Rightarrow> decimal" where
  "THRESHOLD_BY_MUTATION_TYPE cfg MT_deal_create = workflow_approval_deal_threshold_usd cfg"
| "THRESHOLD_BY_MUTATION_TYPE cfg MT_deal_award = workflow_approval_deal_threshold_usd cfg"
| "THRESHOLD_BY_MUTATION_TYPE cfg MT_hedge_contract_settle = workflow_approval_settle_threshold_usd cfg"

definition POLICY_SEED :: "ApprovalPolicy list" where
  "POLICY_SEED =
    [\<lparr>ap_mutation_type = MT_deal_create, ap_required_approver_roles = [''risk_manager''], ap_threshold_dimension = TD_notional_usd\<rparr>,
     \<lparr>ap_mutation_type = MT_deal_award, ap_required_approver_roles = [''risk_manager''], ap_threshold_dimension = TD_notional_usd\<rparr>,
     \<lparr>ap_mutation_type = MT_hedge_contract_settle, ap_required_approver_roles = [''auditor''],
      ap_threshold_dimension = TD_settlement_amount_usd\<rparr>]"

fun mutation_type_value :: "MutationType \<Rightarrow> string" where
  "mutation_type_value MT_deal_create = ''deal_create''"
| "mutation_type_value MT_deal_award = ''deal_award''"
| "mutation_type_value MT_hedge_contract_settle = ''hedge_contract_settle''"

fun approval_status_value :: "ApprovalStatus \<Rightarrow> string" where
  "approval_status_value AS_pending = ''pending''"
| "approval_status_value AS_approved = ''approved''"
| "approval_status_value AS_rejected = ''rejected''"
| "approval_status_value AS_expired = ''expired''"
| "approval_status_value AS_consumed = ''consumed''"
| "approval_status_value AS_superseded = ''superseded''"

fun threshold_dimension_value :: "ThresholdDimension \<Rightarrow> string" where
  "threshold_dimension_value TD_notional_usd = ''notional_usd''"
| "threshold_dimension_value TD_settlement_amount_usd = ''settlement_amount_usd''"

fun reason_code_value :: "RejectionReasonCode \<Rightarrow> string" where
  "reason_code_value RC_policy_violation = ''policy_violation''"
| "reason_code_value RC_counterparty_risk = ''counterparty_risk''"
| "reason_code_value RC_payload_concern = ''payload_concern''"
| "reason_code_value RC_threshold_inappropriate = ''threshold_inappropriate''"
| "reason_code_value RC_other = ''other''"

section \<open>Audit events\<close>

text \<open>\<open>int(total_seconds() * 1000)\<close> truncates towards zero.\<close>

definition time_to_approval_ms :: "WorkflowApprovalRequest \<Rightarrow> datetime \<Rightarrow> int" where
  "time_to_approval_ms row transition_time =
     (let d = transition_time - wa_created_at row in if 0 \<le> d then d div 1000 else - (- d div 1000))"

text \<open>The nested object \<open>rejection_reason\<close> is kept as two dotted keys.\<close>

definition audit_payload ::
    "WorkflowApprovalRequest \<Rightarrow> ApprovalStatus option \<Rightarrow> string option \<Rightarrow> (RejectionReasonCode \<times> string) option
       \<Rightarrow> datetime \<Rightarrow> string option \<Rightarrow> string option \<Rightarrow> payload" where
  "audit_payload row previous_status approver_sub rejection_reason transition_time requester_ip requester_session_id =
    [(''approval_id'', Some (AId (wa_id row))),
     (''mutation_type'', Some (AStr (mutation_type_value (wa_mutation_type row)))),
     (''correlation_id'', Some (AId (wa_correlation_id row))),
     (''threshold_dimension_used'', Some (AStr (threshold_dimension_value (wa_threshold_dimension row)))),
     (''threshold_at_request'', Some (ADec (wa_threshold_at_request row))),
     (''threshold_config_value'', Some (ADec (wa_threshold_config_value row))),
     (''requested_by'', Some (AStr (wa_requested_by row))),
     (''requester_ip'', map_option AStr requester_ip),
     (''requester_session_id'', map_option AStr requester_session_id),
     (''previous_status'', map_option (AStr \<circ> approval_status_value) previous_status),
     (''approver_sub'', map_option AStr approver_sub),
     (''approver_ip'', if approver_sub = None then None else map_option AStr (wa_approver_ip row)),
     (''approver_session_id'', if approver_sub = None then None else map_option AStr (wa_approver_session_id row)),
     (''rejection_reason.code'', map_option (AStr \<circ> reason_code_value \<circ> fst) rejection_reason),
     (''rejection_reason.text'', map_option (AStr \<circ> snd) rejection_reason),
     (''time_to_approval_ms'', if previous_status = None then None else Some (AInt (time_to_approval_ms row transition_time))),
     (''mutation_payload_hash'', Some (AStr (wa_mutation_payload_hash row)))]"

definition emit_audit_event ::
    "WorkflowApprovalRequest \<Rightarrow> string \<Rightarrow> ApprovalStatus option \<Rightarrow> string option \<Rightarrow> (RejectionReasonCode \<times> string) option
       \<Rightarrow> string option \<Rightarrow> string option \<Rightarrow> datetime \<Rightarrow> db \<Rightarrow> db" where
  "emit_audit_event row event_type previous_status approver_sub rejection_reason ip session_id now s =
     record_audit ''workflow_approval_request'' (wa_id row) event_type
       (audit_payload row previous_status approver_sub rejection_reason now ip session_id) s"

section \<open>Requests\<close>

definition load_for_update :: "db \<Rightarrow> uuid \<Rightarrow> WorkflowApprovalRequest result" where
  "load_for_update s i = require (get_row wa_id i (approvals s)) (http HTTP_404 ''Approval not found'')"

definition reject_if_expired :: "WorkflowApprovalRequest \<Rightarrow> datetime \<Rightarrow> unit result" where
  "reject_if_expired row now = raise_if (wa_expires_at row < now) (http HTTP_409 ''Approval has expired'')"

definition get_policy :: "db \<Rightarrow> MutationType \<Rightarrow> ApprovalPolicy result" where
  "get_policy s t = require (get_row ap_mutation_type t (policies s))
     (HTTPException 500 (Msg ''Approval policy missing for {}'' [AStr (mutation_type_value t)]))"

definition idempotent_match :: "string option \<Rightarrow> string \<Rightarrow> MutationType \<Rightarrow> WorkflowApprovalRequest \<Rightarrow> bool" where
  "idempotent_match key requester t row \<longleftrightarrow>
     wa_idempotency_key row = key \<and> wa_requested_by row = requester \<and> wa_mutation_type row = t"

text \<open>The partial unique index on the idempotency key has no exception for an empty key, which
  the lookup skips.\<close>

definition evaluate_and_maybe_create ::
    "approval_settings \<Rightarrow> (string \<Rightarrow> string) \<Rightarrow> db \<Rightarrow> datetime \<Rightarrow> MutationType \<Rightarrow> string \<Rightarrow> decimal \<Rightarrow> string
       \<Rightarrow> string option \<Rightarrow> string option \<Rightarrow> uuid \<Rightarrow> string option \<Rightarrow> string set
       \<Rightarrow> (db \<times> WorkflowApprovalRequest option) result" where
  "evaluate_and_maybe_create cfg sha s now mutation_type payload_canonical threshold_value requesting_actor_sub
       requesting_actor_ip requesting_actor_session_id correlation_id idempotency_key request_role_set =
     (let configured_threshold = THRESHOLD_BY_MUTATION_TYPE cfg mutation_type
      in if threshold_value \<le> configured_threshold then Inr (s, None)
         else
           and_then (raise_if (''risk_manager'' \<notin> request_role_set) (http HTTP_403
             ''role lacks risk_manager -- institutional-threshold mutations require risk_manager scope'')) (\<lambda>_.
           and_then (get_policy s mutation_type) (\<lambda>policy.
           let existing = (if idempotency_key = None \<or> idempotency_key = Some [] then None
                 else find (idempotent_match idempotency_key requesting_actor_sub mutation_type) (approvals s))
           in case existing of
                Some row \<Rightarrow> Inr (s, Some row)
              | None \<Rightarrow>
                  let row = \<lparr>wa_id = next_uuid s, wa_mutation_type = mutation_type, wa_status = AS_pending,
                        wa_requested_by = requesting_actor_sub, wa_approved_by = None,
                        wa_threshold_at_request = threshold_value, wa_threshold_config_value = configured_threshold,
                        wa_threshold_dimension = ap_threshold_dimension policy,
                        wa_mutation_payload_canonical = payload_canonical,
                        wa_mutation_payload_hash = sha payload_canonical, wa_correlation_id = correlation_id,
                        wa_idempotency_key = idempotency_key, wa_created_at = now,
                        wa_expires_at = now + EXPIRY_BY_MUTATION_TYPE mutation_type, wa_consumed_at = None,
                        wa_approver_ip = None, wa_approver_session_id = None, wa_rejection_reason_code = None,
                        wa_rejection_reason_text = None\<rparr>
                  in and_then (raise_if (idempotency_key \<noteq> None
                         \<and> list_ex (idempotent_match idempotency_key requesting_actor_sub mutation_type) (approvals s))
                       (IntegrityError (Msg ''ux_workflow_approval_requests_idempotency_key'' []))) (\<lambda>_.
                     Inr (emit_audit_event row ''workflow_approval_requested'' None None None requesting_actor_ip
                            requesting_actor_session_id now
                            (s\<lparr>approvals := approvals s @ [row], next_uuid := Suc (next_uuid s)\<rparr>), Some row)))))"

definition write_approval :: "uuid \<Rightarrow> (WorkflowApprovalRequest \<Rightarrow> WorkflowApprovalRequest) \<Rightarrow> db \<Rightarrow> db" where
  "write_approval i f s = s\<lparr>approvals := update_row wa_id i f (approvals s)\<rparr>"

definition check_approver :: "WorkflowApprovalRequest \<Rightarrow> ApprovalPolicy \<Rightarrow> string set \<Rightarrow> unit result" where
  "check_approver row policy roles =
     raise_if (set (ap_required_approver_roles policy) \<inter> roles = {}) (http HTTP_403 ''Approver role not allowed'')"

definition grant_request ::
    "db \<Rightarrow> datetime \<Rightarrow> uuid \<Rightarrow> string \<Rightarrow> string set \<Rightarrow> string option \<Rightarrow> string option \<Rightarrow> db result" where
  "grant_request s now i approver_actor_sub approver_role_set approver_ip approver_session_id =
     and_then (load_for_update s i) (\<lambda>row.
     and_then (raise_if (wa_status row \<noteq> AS_pending) (http HTTP_409 ''Approval is not pending'')) (\<lambda>_.
     and_then (reject_if_expired row now) (\<lambda>_.
     and_then (raise_if (approver_actor_sub = wa_requested_by row)
       (http HTTP_422 ''requested_by and approved_by must be distinct'')) (\<lambda>_.
     and_then (get_policy s (wa_mutation_type row)) (\<lambda>policy.
     and_then (check_approver row policy approver_role_set) (\<lambda>_.
     let upd = (\<lambda>r. r\<lparr>wa_status := AS_approved, wa_approved_by := Some approver_actor_sub, wa_approver_ip := approver_ip,
                 wa_approver_session_id := approver_session_id\<rparr>)
     in Inr (emit_audit_event (upd row) ''workflow_approval_granted'' (Some (wa_status row)) (Some approver_actor_sub)
              None None None now (write_approval i upd s))))))))"

definition reject_request ::
    "db \<Rightarrow> datetime \<Rightarrow> uuid \<Rightarrow> string \<Rightarrow> string set \<Rightarrow> string option \<Rightarrow> string option \<Rightarrow> RejectionReasonCode \<Rightarrow> string \<Rightarrow> db result" where
  "reject_request s now i approver_actor_sub approver_role_set approver_ip approver_session_id reason_code reason_text =
     and_then (load_for_update s i) (\<lambda>row.
     and_then (raise_if (wa_status row \<noteq> AS_pending) (http HTTP_409 ''Approval is not pending'')) (\<lambda>_.
     and_then (reject_if_expired row now) (\<lambda>_.
     and_then (raise_if (length (strip reason_text) < 8)
       (http HTTP_422 ''rejection_reason_text must be at least 8 characters'')) (\<lambda>_.
     and_then (get_policy s (wa_mutation_type row)) (\<lambda>policy.
     and_then (raise_if (approver_actor_sub = wa_requested_by row)
       (http HTTP_422 ''requested_by and approved_by must be distinct'')) (\<lambda>_.
     and_then (check_approver row policy approver_role_set) (\<lambda>_.
     let upd = (\<lambda>r. r\<lparr>wa_status := AS_rejected, wa_approved_by := Some approver_actor_sub, wa_approver_ip := approver_ip,
                 wa_approver_session_id := approver_session_id, wa_rejection_reason_code := Some reason_code,
                 wa_rejection_reason_text := Some reason_text\<rparr>)
     in Inr (emit_audit_event (upd row) ''workflow_approval_rejected'' (Some (wa_status row)) (Some approver_actor_sub)
              (Some (reason_code, reason_text)) None None now (write_approval i upd s)))))))))"

definition supersede_request :: "db \<Rightarrow> datetime \<Rightarrow> uuid \<Rightarrow> string \<Rightarrow> db result" where
  "supersede_request s now i requesting_actor_sub =
     and_then (load_for_update s i) (\<lambda>row.
     and_then (raise_if (wa_status row \<noteq> AS_pending \<and> wa_status row \<noteq> AS_approved)
       (http HTTP_409 ''Only pending or approved approvals can be superseded'')) (\<lambda>_.
     and_then (raise_if (requesting_actor_sub \<noteq> wa_requested_by row)
       (http HTTP_403 ''supersede restricted to the original requester'')) (\<lambda>_.
     let upd = (\<lambda>r. r\<lparr>wa_status := AS_superseded\<rparr>)
     in Inr (emit_audit_event (upd row) ''workflow_approval_superseded'' (Some (wa_status row)) None None None None now
              (write_approval i upd s)))))"

definition consume_request ::
    "(string \<Rightarrow> string) \<Rightarrow> db \<Rightarrow> datetime \<Rightarrow> uuid \<Rightarrow> string \<Rightarrow> string \<Rightarrow> (string \<Rightarrow> db \<Rightarrow> (db \<times> 'r) result) \<Rightarrow> (db \<times> 'r) result" where
  "consume_request sha s now i requesting_actor_sub consume_payload executor =
     and_then (load_for_update s i) (\<lambda>row.
     and_then (raise_if (requesting_actor_sub \<noteq> wa_requested_by row)
       (http HTTP_403 ''consume restricted to the original requester'')) (\<lambda>_.
     and_then (raise_if (wa_status row \<noteq> AS_approved) (http HTTP_409 ''Approval is not approved'')) (\<lambda>_.
     and_then (reject_if_expired row now) (\<lambda>_.
     and_then (raise_if (sha consume_payload \<noteq> wa_mutation_payload_hash row)
       (HTTPException HTTP_422 (Msg ''payload_drift_detected'' []))) (\<lambda>_.
     and_then (executor consume_payload s) (\<lambda>(s1, res).
     let upd = (\<lambda>r. r\<lparr>wa_status := AS_consumed, wa_consumed_at := Some now\<rparr>)
     in Inr (emit_audit_event (upd row) ''workflow_approval_consumed'' (Some (wa_status row)) (Some requesting_actor_sub)
              None None None now (write_approval i upd s1), res)))))))"

definition approval_overdue :: "datetime \<Rightarrow> WorkflowApprovalRequest \<Rightarrow> bool" where
  "approval_overdue now row \<longleftrightarrow> (wa_status row = AS_pending \<or> wa_status row = AS_approved) \<and> wa_expires_at row < now"

definition expire_row :: "datetime \<Rightarrow> WorkflowApprovalRequest \<Rightarrow> db \<Rightarrow> db" where
  "expire_row now row s =
     emit_audit_event (row\<lparr>wa_status := AS_expired\<rparr>) ''workflow_approval_expired'' (Some (wa_status row)) None None None None now
       (write_approval (wa_id row) (\<lambda>r. r\<lparr>wa_status := AS_expired\<rparr>) s)"

definition sweep_expired :: "db \<Rightarrow> datetime \<Rightarrow> db \<times> WorkflowApprovalRequest list" where
  "sweep_expired s now =
     (let rows = filter (approval_overdue now) (approvals s) in (fold (expire_row now) rows s, rows))"

section \<open>The executor contract\<close>

text \<open>
  What \<open>consume_request\<close> needs of the mutation it runs: it leaves the approvals alone and only
  draws fresh identifiers. Under this contract an approval is consumed at most once, whatever
  the mutation is.
\<close>

locale mutation_executor =
  fixes executor :: "string \<Rightarrow> db \<Rightarrow> (db \<times> 'r) result"
  assumes executor_approvals: "executor p s = Inr (s', r) \<Longrightarrow> approvals s' = approvals s"
    and executor_fresh: "executor p s = Inr (s', r) \<Longrightarrow> next_uuid s \<le> next_uuid s'"
begin

lemma consume_approvals:
  assumes "consume_request sha s now i actor p executor = Inr (s', r)"
  obtains row where "get_row wa_id i (approvals s) = Some row" "wa_status row = AS_approved" "wa_requested_by row = actor"
    "now \<le> wa_expires_at row" "wa_mutation_payload_hash row = sha p"
    "approvals s' = update_row wa_id i (\<lambda>r. r\<lparr>wa_status := AS_consumed, wa_consumed_at := Some now\<rparr>) (approvals s)"
    "next_uuid s \<le> next_uuid s'" "\<exists>s1. executor p s = Inr (s1, r)"
proof -
  obtain row s1 where row: "get_row wa_id i (approvals s) = Some row" "wa_status row = AS_approved" "wa_requested_by row = actor"
    "now \<le> wa_expires_at row" "wa_mutation_payload_hash row = sha p" and ex: "executor p s = Inr (s1, r)"
    and s': "s' = emit_audit_event (row\<lparr>wa_status := AS_consumed, wa_consumed_at := Some now\<rparr>) ''workflow_approval_consumed''
       (Some AS_approved) (Some actor) None None None now
       (write_approval i (\<lambda>r. r\<lparr>wa_status := AS_consumed, wa_consumed_at := Some now\<rparr>) s1)"
    using assms by (auto simp: consume_request_def load_for_update_def reject_if_expired_def not_less Let_def)
  have "next_uuid s \<le> next_uuid s'" "approvals s' = update_row wa_id i (\<lambda>r. r\<lparr>wa_status := AS_consumed, wa_consumed_at := Some now\<rparr>) (approvals s)"
    using executor_approvals[OF ex] executor_fresh[OF ex] by (simp_all add: s' emit_audit_event_def write_approval_def)
  with row ex that show ?thesis by blast
qed

lemma consume_once:
  assumes "consume_request sha s now i actor p executor = Inr (s', r)"
  shows "\<not> is_ok (consume_request sha s' now' i actor' p' executor)"
  using assms
proof (rule consume_approvals)
  fix row
  assume "get_row wa_id i (approvals s) = Some row"
    and "approvals s' = update_row wa_id i (\<lambda>r. r\<lparr>wa_status := AS_consumed, wa_consumed_at := Some now\<rparr>) (approvals s)"
  then have "get_row wa_id i (approvals s') = Some (row\<lparr>wa_status := AS_consumed, wa_consumed_at := Some now\<rparr>)"
    by (simp add: table_simps)
  then show ?thesis
    by (auto simp: is_ok_iff consume_request_def load_for_update_def)
qed

end

section \<open>The life of a request\<close>

definition approval_moves :: "ApprovalStatus \<Rightarrow> ApprovalStatus \<Rightarrow> bool" where
  "approval_moves a b \<longleftrightarrow>
     a = AS_pending \<and> b \<in> {AS_approved, AS_rejected, AS_expired, AS_superseded}
     \<or> a = AS_approved \<and> b \<in> {AS_consumed, AS_expired, AS_superseded}"

fun approval_rank :: "ApprovalStatus \<Rightarrow> nat" where
  "approval_rank AS_pending = 0"
| "approval_rank AS_approved = 1"
| "approval_rank _ = 2"

interpretation approval_status: lifecycle approval_moves approval_rank
proof
  fix a b
  show "approval_moves a b \<Longrightarrow> approval_rank a < approval_rank b"
    by (auto simp: approval_moves_def)
qed

abbreviation approvals_follow :: "WorkflowApprovalRequest list \<Rightarrow> WorkflowApprovalRequest list \<Rightarrow> bool" where
  "approvals_follow \<equiv> rows_follow approval_moves wa_id wa_status"

text \<open>What every stored request satisfies: its approver is not its requester, it has an approver
  once it is approved or consumed, it is consumed exactly if it has a consumption time, and a
  rejection has its reason.\<close>

definition approval_ok :: "WorkflowApprovalRequest \<Rightarrow> bool" where
  "approval_ok row \<longleftrightarrow> wa_approved_by row \<noteq> Some (wa_requested_by row)
     \<and> (wa_status row \<in> {AS_approved, AS_consumed, AS_rejected} \<longrightarrow> wa_approved_by row \<noteq> None)
     \<and> (wa_status row = AS_pending \<longrightarrow> wa_approved_by row = None)
     \<and> (wa_status row = AS_consumed \<longleftrightarrow> wa_consumed_at row \<noteq> None)
     \<and> (wa_status row = AS_rejected \<longleftrightarrow> wa_rejection_reason_code row \<noteq> None)
     \<and> (wa_rejection_reason_code row = None \<longleftrightarrow> wa_rejection_reason_text row = None)"

definition approvals_wf :: "db \<Rightarrow> bool" where
  "approvals_wf s \<longleftrightarrow> keyed wa_id (approvals s) \<and> (\<forall>row \<in> set (approvals s). wa_id row < next_uuid s \<and> approval_ok row)"

lemma emit_audit_frame [simp]:
  "approvals (emit_audit_event row et pr ap rr ip se now s) = approvals s"
  "policies (emit_audit_event row et pr ap rr ip se now s) = policies s"
  "next_uuid (emit_audit_event row et pr ap rr ip se now s) = Suc (next_uuid s)"
  "contracts (emit_audit_event row et pr ap rr ip se now s) = contracts s"
  "settlement_events (emit_audit_event row et pr ap rr ip se now s) = settlement_events s"
  "ledger_entries (emit_audit_event row et pr ap rr ip se now s) = ledger_entries s"
  "deals (emit_audit_event row et pr ap rr ip se now s) = deals s"
  "deal_links (emit_audit_event row et pr ap rr ip se now s) = deal_links s"
  "rfqs (emit_audit_event row et pr ap rr ip se now s) = rfqs s"
  "rfq_quotes (emit_audit_event row et pr ap rr ip se now s) = rfq_quotes s"
  "length (audit_events (emit_audit_event row et pr ap rr ip se now s)) = Suc (length (audit_events s))"
  by (simp_all add: emit_audit_event_def) (simp add: record_audit_def)

lemma write_approval_wf:
  assumes "approvals_wf s" and "approvals s' = update_row wa_id i f (approvals s)" and "next_uuid s \<le> next_uuid s'"
    and "\<And>r. wa_id (f r) = wa_id r" and "\<And>r. get_row wa_id i (approvals s) = Some r \<Longrightarrow> approval_ok r \<Longrightarrow> approval_ok (f r)"
  shows "approvals_wf s'"
proof -
  have "wa_id r < next_uuid s' \<and> approval_ok r" if "r \<in> set (update_row wa_id i f (approvals s))" for r
  proof -
    from that consider "r \<in> set (approvals s)" | r0 where "r0 \<in> set (approvals s)" "wa_id r0 = i" "r = f r0"
      by (auto simp: update_row_def)
    then show ?thesis
    proof cases
      case 1
      then show ?thesis using assms(1,3) by (fastforce simp: approvals_wf_def)
    next
      case 2
      then have "get_row wa_id i (approvals s) = Some r0"
        using assms(1) get_row_keyed[of wa_id "approvals s" r0] by (simp add: approvals_wf_def)
      then show ?thesis using 2 assms(1,3,4,5) by (fastforce simp: approvals_wf_def)
    qed
  qed
  then show ?thesis
    using assms(1,4) by (simp add: approvals_wf_def assms(2) keyed_update_row)
qed

datatype mutation_result = MR_deal uuid | MR_award uuid | MR_settlement uuid

text \<open>The committed writes of the service and of everything else, which leaves the requests alone.\<close>

inductive approval_step :: "(string \<Rightarrow> string) \<Rightarrow> db \<Rightarrow> db \<Rightarrow> bool" for sha where
  requested: "evaluate_and_maybe_create cfg sha s now t p v actor ip sess corr key roles = Inr (s', row) \<Longrightarrow> approval_step sha s s'"
| granted: "grant_request s now i actor roles ip sess = Inr s' \<Longrightarrow> approval_step sha s s'"
| rejected: "reject_request s now i actor roles ip sess code reason = Inr s' \<Longrightarrow> approval_step sha s s'"
| superseded: "supersede_request s now i actor = Inr s' \<Longrightarrow> approval_step sha s s'"
| consumed: "mutation_executor (ex :: string \<Rightarrow> db \<Rightarrow> (db \<times> mutation_result) result) \<Longrightarrow>
    consume_request sha s now i actor p ex = Inr (s', r) \<Longrightarrow> approval_step sha s s'"
| swept: "sweep_expired s now = (s', rows) \<Longrightarrow> approval_step sha s s'"
| elsewhere: "approvals s' = approvals s \<Longrightarrow> next_uuid s \<le> next_uuid s' \<Longrightarrow> approval_step sha s s'"

lemma expire_rows:
  "approvals (fold (expire_row now) rows s) =
     map (\<lambda>r. if wa_id r \<in> wa_id ` set rows then r\<lparr>wa_status := AS_expired\<rparr> else r) (approvals s)
   \<and> next_uuid (fold (expire_row now) rows s) = next_uuid s + length rows
   \<and> length (audit_events (fold (expire_row now) rows s)) = length (audit_events s) + length rows"
proof (induction rows arbitrary: s)
  case Nil
  then show ?case by simp
next
  case (Cons row rows)
  have "approvals (expire_row now row s) = update_row wa_id (wa_id row) (\<lambda>r. r\<lparr>wa_status := AS_expired\<rparr>) (approvals s)"
    "next_uuid (expire_row now row s) = Suc (next_uuid s)"
    "length (audit_events (expire_row now row s)) = Suc (length (audit_events s))"
    by (simp_all add: expire_row_def write_approval_def)
  then show ?case
    by (auto simp: Cons.IH update_row_def)
qed

lemma sweep_approvals:
  assumes "keyed wa_id (approvals s)" and "sweep_expired s now = (s', rows)"
  shows "approvals s' = map (\<lambda>r. if approval_overdue now r then r\<lparr>wa_status := AS_expired\<rparr> else r) (approvals s)"
    "next_uuid s \<le> next_uuid s'" "rows = filter (approval_overdue now) (approvals s)"
    "length (audit_events s') = length (audit_events s) + length rows"
proof -
  have rows: "rows = filter (approval_overdue now) (approvals s)" and s': "s' = fold (expire_row now) rows s"
    using assms(2) by (auto simp: sweep_expired_def Let_def)
  have "wa_id r \<in> wa_id ` set rows \<longleftrightarrow> approval_overdue now r" if "r \<in> set (approvals s)" for r
    using that keyed_inj[OF assms(1)] unfolding rows by auto
  then show "approvals s' = map (\<lambda>r. if approval_overdue now r then r\<lparr>wa_status := AS_expired\<rparr> else r) (approvals s)"
    using expire_rows[of now rows s] by (simp add: s')
  show "next_uuid s \<le> next_uuid s'" "rows = filter (approval_overdue now) (approvals s)"
    "length (audit_events s') = length (audit_events s) + length rows"
    using expire_rows[of now rows s] rows by (simp_all add: s')
qed

text \<open>The columns that no transition changes.\<close>

definition same_request :: "WorkflowApprovalRequest \<Rightarrow> WorkflowApprovalRequest \<Rightarrow> bool" where
  "same_request r r' \<longleftrightarrow> wa_id r' = wa_id r \<and> wa_mutation_type r' = wa_mutation_type r \<and> wa_requested_by r' = wa_requested_by r
     \<and> wa_mutation_payload_canonical r' = wa_mutation_payload_canonical r \<and> wa_mutation_payload_hash r' = wa_mutation_payload_hash r
     \<and> wa_expires_at r' = wa_expires_at r"

text \<open>Every write of the service adds a fresh pending row, or rewrites rows along the machine.\<close>

lemma approval_step_cases:
  assumes "approval_step sha s s'" and "keyed wa_id (approvals s)"
  obtains (add) row where "approvals s' = approvals s @ [row]" "wa_id row = next_uuid s" "next_uuid s < next_uuid s'"
      "wa_status row = AS_pending" "approval_ok row" "wa_mutation_payload_hash row = sha (wa_mutation_payload_canonical row)"
  | (rewrite) g where "approvals s' = map g (approvals s)" "next_uuid s \<le> next_uuid s'"
      "\<And>r. r \<in> set (approvals s) \<Longrightarrow> same_request r (g r)"
      "\<And>r. r \<in> set (approvals s) \<Longrightarrow> wa_status (g r) = wa_status r \<or> approval_moves (wa_status r) (wa_status (g r))"
      "\<And>r. r \<in> set (approvals s) \<Longrightarrow> approval_ok r \<Longrightarrow> approval_ok (g r)"
proof -
  have upd: thesis if "approvals s' = update_row wa_id i f (approvals s)" "next_uuid s \<le> next_uuid s'"
    "get_row wa_id i (approvals s) = Some row" "\<And>r. same_request r (f r)" "approval_moves (wa_status row) (wa_status (f row))"
    "approval_ok row \<Longrightarrow> approval_ok (f row)" for i f row
  proof (rule rewrite)
    show "approvals s' = map (\<lambda>r. if wa_id r = i then f r else r) (approvals s)" using that(1) by (simp add: update_row_def)
    have only: "r = row" if "r \<in> set (approvals s)" "wa_id r = i" for r
      using keyed_inj[OF assms(2), of r row] that get_row_SomeD[OF \<open>get_row wa_id i (approvals s) = Some row\<close>] by simp
    show "same_request r (if wa_id r = i then f r else r)" for r using that(4) by (simp add: same_request_def)
    show "wa_status (if wa_id r = i then f r else r) = wa_status r
        \<or> approval_moves (wa_status r) (wa_status (if wa_id r = i then f r else r))" if "r \<in> set (approvals s)" for r
      using only[OF that] \<open>approval_moves (wa_status row) (wa_status (f row))\<close> by auto
    show "approval_ok (if wa_id r = i then f r else r)" if "r \<in> set (approvals s)" "approval_ok r" for r
      using only[OF that(1)] that(2) \<open>approval_ok row \<Longrightarrow> approval_ok (f row)\<close> by auto
  qed (use that in simp)
  from assms(1) show thesis
  proof cases
    case (requested cfg now t p v actor ip sess corr key roles row)
    then consider "s' = s" | row where "approvals s' = approvals s @ [row]" "wa_id row = next_uuid s" "next_uuid s < next_uuid s'"
      "wa_status row = AS_pending" "approval_ok row" "wa_mutation_payload_hash row = sha (wa_mutation_payload_canonical row)"
      by (auto simp: evaluate_and_maybe_create_def approval_ok_def Let_def split: if_splits option.splits)
    then show thesis
    proof cases
      case 1
      then show thesis by (intro rewrite[of id]) (auto simp: same_request_def)
    qed (rule add)
  next
    case (granted now i actor roles ip sess)
    then obtain row where g: "get_row wa_id i (approvals s) = Some row" "wa_status row = AS_pending" "actor \<noteq> wa_requested_by row"
      "approvals s' = update_row wa_id i (\<lambda>r. r\<lparr>wa_status := AS_approved, wa_approved_by := Some actor, wa_approver_ip := ip,
         wa_approver_session_id := sess\<rparr>) (approvals s)" "next_uuid s \<le> next_uuid s'"
      by (auto simp: grant_request_def load_for_update_def Let_def write_approval_def)
    show thesis
      by (rule upd[OF g(4,5,1)]) (use g in \<open>auto simp: same_request_def approval_moves_def approval_ok_def\<close>)
  next
    case (rejected now i actor roles ip sess code reason)
    then obtain row where g: "get_row wa_id i (approvals s) = Some row" "wa_status row = AS_pending" "actor \<noteq> wa_requested_by row"
      "approvals s' = update_row wa_id i (\<lambda>r. r\<lparr>wa_status := AS_rejected, wa_approved_by := Some actor, wa_approver_ip := ip,
         wa_approver_session_id := sess, wa_rejection_reason_code := Some code, wa_rejection_reason_text := Some reason\<rparr>) (approvals s)"
      "next_uuid s \<le> next_uuid s'"
      by (auto simp: reject_request_def load_for_update_def Let_def write_approval_def)
    show thesis
      by (rule upd[OF g(4,5,1)]) (use g in \<open>auto simp: same_request_def approval_moves_def approval_ok_def\<close>)
  next
    case (superseded now i actor)
    then obtain row where g: "get_row wa_id i (approvals s) = Some row" "wa_status row = AS_pending \<or> wa_status row = AS_approved"
      "approvals s' = update_row wa_id i (\<lambda>r. r\<lparr>wa_status := AS_superseded\<rparr>) (approvals s)" "next_uuid s \<le> next_uuid s'"
      by (auto simp: supersede_request_def load_for_update_def Let_def write_approval_def)
    show thesis
      by (rule upd[OF g(3,4,1)]) (use g in \<open>auto simp: same_request_def approval_moves_def approval_ok_def\<close>)
  next
    case (consumed ex now i actor p r)
    obtain row where g: "get_row wa_id i (approvals s) = Some row" "wa_status row = AS_approved"
      "approvals s' = update_row wa_id i (\<lambda>r. r\<lparr>wa_status := AS_consumed, wa_consumed_at := Some now\<rparr>) (approvals s)"
      "next_uuid s \<le> next_uuid s'"
      using mutation_executor.consume_approvals[OF consumed] by metis
    show thesis
      by (rule upd[OF g(3,4,1)]) (use g in \<open>auto simp: same_request_def approval_moves_def approval_ok_def\<close>)
  next
    case (swept now rows)
    show thesis
      by (rule rewrite[OF sweep_approvals(1,2)[OF assms(2) swept]])
        (auto simp: same_request_def approval_moves_def approval_ok_def approval_overdue_def)
  next
    case elsewhere
    then show thesis by (intro rewrite[of id]) (auto simp: same_request_def)
  qed
qed

section \<open>Runs\<close>

definition approvals_inv :: "(string \<Rightarrow> string) \<Rightarrow> db \<Rightarrow> bool" where
  "approvals_inv sha s \<longleftrightarrow> approvals_wf s
     \<and> (\<forall>row \<in> set (approvals s). wa_mutation_payload_hash row = sha (wa_mutation_payload_canonical row))"

lemma get_row_map_on:
  "(\<And>r. r \<in> set rows \<Longrightarrow> key (g r) = key r) \<Longrightarrow> get_row key k (map g rows) = map_option g (get_row key k rows)"
  by (induction rows) auto

lemma approval_step_inv:
  assumes "approvals_inv sha s" and "approval_step sha s s'"
  shows "approvals_inv sha s' \<and> approvals_follow (approvals s) (approvals s')
    \<and> (\<forall>i r. get_row wa_id i (approvals s) = Some r \<longrightarrow> (\<exists>r'. get_row wa_id i (approvals s') = Some r' \<and> same_request r r'))"
proof -
  have keyed: "keyed wa_id (approvals s)" using assms(1) by (simp add: approvals_inv_def approvals_wf_def)
  show ?thesis
    using assms(2) keyed
  proof (cases rule: approval_step_cases)
    case (add row)
    then have "approvals_wf s'"
      using assms(1) by (fastforce simp: approvals_inv_def approvals_wf_def keyed_snoc)
    with add assms(1) show ?thesis by (auto simp: approvals_inv_def get_row_append same_request_def)
  next
    case (rewrite g)
    have ids: "map wa_id (map g (approvals s)) = map wa_id (approvals s)"
      using rewrite(3) by (simp add: same_request_def)
    have "wa_id (g r) < next_uuid s' \<and> approval_ok (g r)" if "r \<in> set (approvals s)" for r
      using that assms(1) rewrite(2) rewrite(3,5)[OF that]
      by (auto simp: approvals_inv_def approvals_wf_def same_request_def intro: less_le_trans)
    then have "approvals_wf s'"
      using keyed ids by (auto simp: approvals_wf_def keyed_def rewrite(1) simp del: map_map)
    moreover have "wa_mutation_payload_hash row = sha (wa_mutation_payload_canonical row)" if "row \<in> set (approvals s')" for row
      using that assms(1) rewrite(3) by (auto simp: rewrite(1) approvals_inv_def same_request_def)
    moreover have get: "get_row wa_id i (map g (approvals s)) = map_option g (get_row wa_id i (approvals s))" for i
      using rewrite(3) by (intro get_row_map_on) (simp add: same_request_def)
    ultimately show ?thesis
      using rewrite(3,4) get_row_SomeD[of wa_id _ "approvals s"]
      by (fastforce simp: approvals_inv_def rows_follow_def rewrite(1) get)
  qed
qed

lemma approval_run_inv:
  assumes "(approval_step sha)\<^sup>*\<^sup>* s s'" and "approvals_inv sha s"
  shows "approvals_inv sha s' \<and> approvals_follow\<^sup>*\<^sup>* (approvals s) (approvals s')
    \<and> (\<forall>i r. get_row wa_id i (approvals s) = Some r \<longrightarrow> (\<exists>r'. get_row wa_id i (approvals s') = Some r' \<and> same_request r r'))"
  using assms
proof (induction rule: rtranclp_induct)
  case base
  then show ?case by (auto simp: same_request_def)
next
  case (step t u)
  then have t: "approvals_inv sha t" "approvals_follow\<^sup>*\<^sup>* (approvals s) (approvals t)"
    "\<forall>i r. get_row wa_id i (approvals s) = Some r \<longrightarrow> (\<exists>r'. get_row wa_id i (approvals t) = Some r' \<and> same_request r r')"
    by simp_all
  note st = approval_step_inv[OF t(1) step.hyps(2)]
  have "\<exists>r'. get_row wa_id i (approvals u) = Some r' \<and> same_request r r'" if g: "get_row wa_id i (approvals s) = Some r" for i r
  proof -
    obtain r1 where r1: "get_row wa_id i (approvals t) = Some r1" "same_request r r1" using t(3) g by blast
    obtain r' where "get_row wa_id i (approvals u) = Some r'" "same_request r1 r'" using st r1(1) by blast
    with r1(2) show ?thesis by (auto simp: same_request_def)
  qed
  moreover have "approvals_follow\<^sup>*\<^sup>* (approvals s) (approvals u)"
    using t(2) st by (blast intro: rtranclp.rtrancl_into_rtrancl)
  ultimately show ?case using st by blast
qed

lemma approvals_inv_empty: "approvals s = [] \<Longrightarrow> approvals_inv sha s"
  by (simp add: approvals_inv_def approvals_wf_def keyed_def)

text \<open>From the answer of a request to its use: the row that is consumed is the row that was
  answered, whatever was stored before it and whatever happened since.\<close>

context mutation_executor
begin

lemma consumed_request:
  assumes "approvals_inv sha s" and "get_row wa_id (wa_id row) (approvals s) = Some row" and "(approval_step sha)\<^sup>*\<^sup>* s s2"
    and c: "consume_request sha s2 now (wa_id row) actor data executor = Inr (s3, r)" and inj: "\<And>x y. sha x = sha y \<Longrightarrow> x = y"
  shows "data = wa_mutation_payload_canonical row" and "actor = wa_requested_by row"
    and "\<exists>row' approver. get_row wa_id (wa_id row) (approvals s2) = Some row' \<and> wa_approved_by row' = Some approver \<and> approver \<noteq> actor"
proof -
  note run = approval_run_inv[OF assms(3,1)]
  obtain row' where row': "get_row wa_id (wa_id row) (approvals s2) = Some row'" "wa_status row' = AS_approved" "wa_requested_by row' = actor"
      "wa_mutation_payload_hash row' = sha data"
    using consume_approvals[OF c] by metis
  have same: "same_request row row'" using run assms(2) row'(1) by fastforce
  have ok: "approval_ok row'" "wa_mutation_payload_hash row' = sha (wa_mutation_payload_canonical row')"
    using run get_row_SomeD[OF row'(1)] by (auto simp: approvals_inv_def approvals_wf_def)
  show "data = wa_mutation_payload_canonical row" using ok(2) row'(4) same inj by (metis same_request_def)
  show "actor = wa_requested_by row" using same row'(3) by (simp add: same_request_def)
  show "\<exists>row' approver. get_row wa_id (wa_id row) (approvals s2) = Some row' \<and> wa_approved_by row' = Some approver \<and> approver \<noteq> actor"
    using ok(1) row' by (auto simp: approval_ok_def)
qed

end

section \<open>Properties\<close>

text \<open>C28: Four eyes. In every state reached from a database without requests, a request that is
  approved or consumed has an approver, and that approver is not the requester; a consumed
  request has a consumption time.\<close>

theorem approval_four_eyes:
  assumes "approvals s = []" and "(approval_step sha)\<^sup>*\<^sup>* s s'" and "row \<in> set (approvals s')"
    and "wa_status row = AS_approved \<or> wa_status row = AS_consumed"
  shows "\<exists>approver. wa_approved_by row = Some approver \<and> approver \<noteq> wa_requested_by row
    \<and> (wa_status row = AS_consumed \<longleftrightarrow> wa_consumed_at row \<noteq> None)"
proof -
  have "approval_ok row"
    using approval_run_inv[OF assms(2) approvals_inv_empty[OF assms(1)]] assms(3) by (auto simp: approvals_inv_def approvals_wf_def)
  with assms(4) show ?thesis by (cases "wa_approved_by row") (auto simp: approval_ok_def)
qed

text \<open>What runs is what was approved. Whatever happened between the request and its use, if
  the approval is consumed successfully then the payload given to the mutation is the payload
  that was recorded when the approval was requested (for a hash without collisions), the
  actor is the requester, the approval is granted and not past its deadline; and it cannot be
  consumed again.\<close>

theorem consume_runs_approved_payload:
  assumes "approvals s = []" and "(approval_step sha)\<^sup>*\<^sup>* s s'" and "mutation_executor ex"
    and "consume_request sha s' now i actor p ex = Inr (s'', r)" and "\<And>x y. sha x = sha y \<Longrightarrow> x = y"
  shows "\<exists>row. get_row wa_id i (approvals s') = Some row \<and> wa_mutation_payload_canonical row = p \<and> wa_requested_by row = actor
    \<and> wa_status row = AS_approved \<and> now \<le> wa_expires_at row
    \<and> \<not> is_ok (consume_request sha s'' now' i actor' p' ex)"
proof -
  obtain row where row: "get_row wa_id i (approvals s') = Some row" "wa_status row = AS_approved" "wa_requested_by row = actor"
    "now \<le> wa_expires_at row" "wa_mutation_payload_hash row = sha p"
    using mutation_executor.consume_approvals[OF assms(3,4)] by metis
  have "wa_mutation_payload_hash row = sha (wa_mutation_payload_canonical row)"
    using approval_run_inv[OF assms(2) approvals_inv_empty[OF assms(1)]] get_row_SomeD[OF row(1)]
    by (auto simp: approvals_inv_def)
  with row assms(5) have "wa_mutation_payload_canonical row = p" by metis
  with row mutation_executor.consume_once[OF assms(3,4)] show ?thesis by blast
qed

text \<open>A request keeps its payload, requester, kind and deadline through every run, and once it is
  rejected, expired, consumed or superseded its status never changes again.\<close>

theorem approval_terminal:
  assumes "approvals s0 = []" and "(approval_step sha)\<^sup>*\<^sup>* s0 s" and "(approval_step sha)\<^sup>*\<^sup>* s s'"
    and "get_row wa_id i (approvals s) = Some row"
  shows "\<exists>row'. get_row wa_id i (approvals s') = Some row' \<and> same_request row row'
    \<and> (wa_status row \<notin> {AS_pending, AS_approved} \<longrightarrow> wa_status row' = wa_status row)"
proof -
  have inv: "approvals_inv sha s" using approval_run_inv[OF assms(2) approvals_inv_empty[OF assms(1)]] by simp
  note run = approval_run_inv[OF assms(3) inv]
  obtain row' where row': "get_row wa_id i (approvals s') = Some row'" "same_request row row'"
    using run assms(4) by blast
  have "approval_moves\<^sup>*\<^sup>* (wa_status row) (wa_status row')"
    using approval_status.runs_follow[of wa_id wa_status "approvals s" "approvals s'" i row] run assms(4) row'(1) by simp
  moreover have "\<not> approval_moves (wa_status row) c" if "wa_status row \<notin> {AS_pending, AS_approved}" for c
    using that by (auto simp: approval_moves_def)
  ultimately show ?thesis
    using row' approval_status.terminal_stays by blast
qed

text \<open>The sweep expires exactly the overdue requests: afterwards no pending or approved request
  is past its deadline, every other request is as it was, and one audit event is written for
  each expired request.\<close>

theorem sweep_expires_overdue:
  assumes "keyed wa_id (approvals s)" and "sweep_expired s now = (s', rows)"
  shows "\<not> list_ex (approval_overdue now) (approvals s')
    \<and> approvals s' = map (\<lambda>r. if approval_overdue now r then r\<lparr>wa_status := AS_expired\<rparr> else r) (approvals s)
    \<and> length (audit_events s') = length (audit_events s) + length rows"
  using sweep_approvals[OF assms] by (auto simp: list_ex_iff approval_overdue_def)

end
