(* ===== verification/Approval_Gate.thy ===== *)
theory Approval_Gate
  imports Workflow_Approval Cashflow_Ledger
begin

text \<open>
  The gated routes: \<open>POST /deals\<close> (\<open>backend/app/api/routes/deals.py\<close>),
  \<open>POST /cashflow/contracts/{id}/settle\<close> (\<open>backend/app/api/routes/cashflow_ledger.py\<close>) and the
  executors of \<open>POST /workflow-approvals/{id}/consume\<close> (\<open>backend/app/api/routes/workflow_approvals.py\<close>),
  with the deal notional of \<open>backend/app/services/deal_notional.py\<close>. The JSON encoding of a request
  and its decoding by the schema are parameters.
\<close>

section \<open>Deal notional\<close>

definition link_notional :: "db \<Rightarrow> string \<times> uuid \<Rightarrow> decimal \<Rightarrow> decimal result" where
  "link_notional s link notional =
     (let (linked_type, linked_id) = link
      in if linked_type \<in> {''contract'', ''hedge''} then
           and_then (require (get_contract s linked_id)
             (HTTPException HTTP_404 (Msg ''Hedge contract {} not found'' [AId linked_id]))) (\<lambda>contract.
           and_then (require (hc_fixed_price_value contract)
             (HTTPException HTTP_422 (Msg ''Hedge contract {} has no fixed_price_value'' [AId linked_id]))) (\<lambda>price.
           Inr (notional + quantize_money (quantize_mt (hc_quantity_mt contract) * quantize_price price))))
         else if linked_type \<in> {''sales_order'', ''purchase_order''} then
           and_then (require (get_order s linked_id)
             (HTTPException HTTP_404 (Msg ''Order {} not found'' [AId linked_id]))) (\<lambda>order.
           and_then (require (ord_avg_entry_price order)
             (HTTPException HTTP_422 (Msg ''Order {} has no avg_entry_price'' [AId linked_id]))) (\<lambda>price.
           Inr (notional + quantize_money (quantize_mt (ord_quantity_mt order) * quantize_price price))))
         else Inr notional)"

definition compute_deal_notional_from_links :: "db \<Rightarrow> (string \<times> uuid) list \<Rightarrow> decimal result" where
  "compute_deal_notional_from_links s links =
     and_then (fold_result (link_notional s) links 0) (\<lambda>notional. Inr (quantize_money notional))"

section \<open>Executors\<close>

text \<open>\<open>DealCreate\<close>: name, commodity and links.\<close>

type_synonym deal_request = "string \<times> string \<times> (string \<times> uuid) list"

definition emit_consumed_mutation_audit :: "string \<Rightarrow> uuid \<Rightarrow> string \<Rightarrow> string \<Rightarrow> uuid \<Rightarrow> db \<Rightarrow> db" where
  "emit_consumed_mutation_audit entity_type entity_id event_type data approval_id s =
     record_audit entity_type entity_id event_type
       [(''request'', Some (AStr data)), (''consumed_via_approval'', Some (AId approval_id))] s"

definition deal_executor ::
    "(string \<Rightarrow> deal_request result) \<Rightarrow> string \<Rightarrow> uuid \<Rightarrow> datetime \<Rightarrow> string \<Rightarrow> db \<Rightarrow> (db \<times> mutation_result) result" where
  "deal_executor decode reference approval_id now data s =
     and_then (decode data) (\<lambda>(name, commodity, links).
     and_then (create_deal s now reference name commodity links) (\<lambda>(s1, deal).
       Inr (emit_consumed_mutation_audit ''deal'' deal ''created'' data approval_id s1, MR_deal deal)))"

definition settle_executor ::
    "(string \<Rightarrow> (uuid \<times> HedgeContractSettlementCreate) result) \<Rightarrow> uuid \<Rightarrow> datetime \<Rightarrow> string \<Rightarrow> db
       \<Rightarrow> (db \<times> mutation_result) result" where
  "settle_executor decode approval_id now data s =
     and_then (decode data) (\<lambda>(contract_id, p).
     and_then (post_settlement s now contract_id p) (\<lambda>(s1, ev, es).
       Inr (emit_consumed_mutation_audit ''hedge_contract_settlement'' (se_id ev) ''settled'' data approval_id s1,
            MR_settlement (se_id ev))))"

section \<open>Gated routes\<close>

text \<open>202 with the approval, or the mutation was carried out.\<close>

datatype gate_response = GR_accepted WorkflowApprovalRequest | GR_done mutation_result

record requester =
  actor_sub :: string
  actor_roles :: "string set"
  client_host :: "string option"
  x_session_id :: "string option"
  idempotency_header :: "string option"
  correlation :: uuid

definition settle_hedge_contract ::
    "approval_settings \<Rightarrow> (string \<Rightarrow> string) \<Rightarrow> (uuid \<Rightarrow> HedgeContractSettlementCreate \<Rightarrow> string) \<Rightarrow> db \<Rightarrow> datetime
       \<Rightarrow> requester \<Rightarrow> uuid \<Rightarrow> HedgeContractSettlementCreate \<Rightarrow> (db \<times> gate_response) result" where
  "settle_hedge_contract cfg sha encode s now u contract_id p =
     and_then (validate_payload p) (\<lambda>_.
     let settlement_amount_usd = sum_list (map sl_amount (sc_legs p))
     in and_then (evaluate_and_maybe_create cfg sha s now MT_hedge_contract_settle (encode contract_id p)
            settlement_amount_usd (actor_sub u) (client_host u) (x_session_id u) (correlation u) (idempotency_header u)
            (actor_roles u)) (\<lambda>(s1, approval).
        case approval of
          Some row \<Rightarrow> Inr (s1, GR_accepted row)
        | None \<Rightarrow> and_then (ingest_hedge_contract_settlement s1 now contract_id p) (\<lambda>(s2, ev, es).
            Inr (s2, GR_done (MR_settlement (se_id ev))))))"

definition create_deal_route ::
    "approval_settings \<Rightarrow> (string \<Rightarrow> string) \<Rightarrow> (deal_request \<Rightarrow> string) \<Rightarrow> db \<Rightarrow> datetime \<Rightarrow> requester \<Rightarrow> string
       \<Rightarrow> deal_request \<Rightarrow> (db \<times> gate_response) result" where
  "create_deal_route cfg sha encode s now u reference req =
     (let (name, commodity, links) = req
      in and_then (compute_deal_notional_from_links s links) (\<lambda>notional_usd.
         and_then (evaluate_and_maybe_create cfg sha s now MT_deal_create (encode req) notional_usd
            (actor_sub u) (client_host u) (x_session_id u) (correlation u) (idempotency_header u) (actor_roles u)) (\<lambda>(s1, approval).
         case approval of
           Some row \<Rightarrow> Inr (s1, GR_accepted row)
         | None \<Rightarrow> and_then (create_deal s1 now reference name commodity links) (\<lambda>(s2, deal). Inr (s2, GR_done (MR_deal deal))))))"

section \<open>The executors keep the contract of the approval service\<close>

lemma settlement_frame:
  assumes "post_settlement s now cid p = Inr (s', ev, es)"
  shows "approvals s' = approvals s \<and> policies s' = policies s \<and> next_uuid s \<le> next_uuid s'"
  using assms
proof (cases rule: settlement_cases)
  case replay
  then show ?thesis by simp
next
  case fresh
  then show ?thesis by (simp add: write_contract_def)
qed

lemma recompute_tons_other_tables:
  "approvals (recompute_tons i s) = approvals s" "policies (recompute_tons i s) = policies s"
  "next_uuid (recompute_tons i s) = next_uuid s"
  by (simp_all add: recompute_tons_def)

lemma create_deal_frame:
  assumes "create_deal s now reference name commodity links = Inr (s', i)"
  shows "approvals s' = approvals s \<and> next_uuid s \<le> next_uuid s'"
  using assms by (auto simp: create_deal_def Let_def recompute_tons_other_tables split: if_splits)

lemma emit_consumed_frame [simp]:
  "approvals (emit_consumed_mutation_audit et ei ev data a s) = approvals s"
  "contracts (emit_consumed_mutation_audit et ei ev data a s) = contracts s"
  "settlement_events (emit_consumed_mutation_audit et ei ev data a s) = settlement_events s"
  "ledger_entries (emit_consumed_mutation_audit et ei ev data a s) = ledger_entries s"
  "deals (emit_consumed_mutation_audit et ei ev data a s) = deals s"
  "deal_links (emit_consumed_mutation_audit et ei ev data a s) = deal_links s"
  "next_uuid (emit_consumed_mutation_audit et ei ev data a s) = Suc (next_uuid s)"
  by (simp_all add: emit_consumed_mutation_audit_def)

interpretation settle_exec: mutation_executor "settle_executor decode approval_id now" for decode approval_id now
proof
  fix data s s' r
  assume "settle_executor decode approval_id now data s = Inr (s', r)"
  then obtain cid p s1 ev es where "post_settlement s now cid p = Inr (s1, ev, es)"
    and s': "s' = emit_consumed_mutation_audit ''hedge_contract_settlement'' (se_id ev) ''settled'' data approval_id s1"
    by (auto simp: settle_executor_def)
  then show "approvals s' = approvals s" "next_uuid s \<le> next_uuid s'"
    using settlement_frame[of s now cid p s1 ev es] by simp_all
qed

interpretation deal_exec: mutation_executor "deal_executor decode reference approval_id now" for decode reference approval_id now
proof
  fix data s s' r
  assume "deal_executor decode reference approval_id now data s = Inr (s', r)"
  then obtain name commodity links s1 i where "create_deal s now reference name commodity links = Inr (s1, i)"
    and s': "s' = emit_consumed_mutation_audit ''deal'' i ''created'' data approval_id s1"
    by (auto simp: deal_executor_def)
  then show "approvals s' = approvals s" "next_uuid s \<le> next_uuid s'"
    using create_deal_frame[of s now reference name commodity links s1 i] by simp_all
qed

text \<open>What the gate decides.\<close>

lemma evaluate_cases:
  assumes "evaluate_and_maybe_create cfg sha s now t data v actor ip sess corr key roles = Inr (s', out)"
  obtains (below) "v \<le> THRESHOLD_BY_MUTATION_TYPE cfg t" "s' = s" "out = None"
  | (replayed) row where "THRESHOLD_BY_MUTATION_TYPE cfg t < v" "''risk_manager'' \<in> roles" "s' = s" "out = Some row"
      "row \<in> set (approvals s)" "wa_requested_by row = actor" "wa_mutation_type row = t" "key \<noteq> None" "wa_idempotency_key row = key"
  | (created) row where "THRESHOLD_BY_MUTATION_TYPE cfg t < v" "''risk_manager'' \<in> roles" "out = Some row"
      "approvals s' = approvals s @ [row]" "wa_id row = next_uuid s" "wa_status row = AS_pending" "wa_mutation_type row = t"
      "wa_requested_by row = actor" "wa_mutation_payload_canonical row = data" "wa_mutation_payload_hash row = sha data"
      "wa_threshold_at_request row = v" "wa_expires_at row = now + EXPIRY_BY_MUTATION_TYPE t"
      "contracts s' = contracts s" "settlement_events s' = settlement_events s" "ledger_entries s' = ledger_entries s"
      "deals s' = deals s" "deal_links s' = deal_links s" "rfqs s' = rfqs s" "rfq_quotes s' = rfq_quotes s"
proof (cases "v \<le> THRESHOLD_BY_MUTATION_TYPE cfg t")
  case True
  with assms below show ?thesis by (auto simp: evaluate_and_maybe_create_def Let_def)
next
  case False
  define existing where "existing = (if key = None \<or> key = Some [] then None
    else find (idempotent_match key actor t) (approvals s))"
  have ok: "''risk_manager'' \<in> roles" "is_ok (get_policy s t)"
    using assms False by (auto simp: evaluate_and_maybe_create_def Let_def is_ok_iff)
  show ?thesis
  proof (cases existing)
    case (Some row)
    then have "row \<in> set (approvals s)" "idempotent_match key actor t row" "key \<noteq> None"
      by (auto simp: existing_def find_Some_iff split: if_splits)
    moreover have "s' = s" "out = Some row"
      using assms False ok Some by (auto simp: evaluate_and_maybe_create_def Let_def is_ok_iff existing_def split: if_splits)
    ultimately show ?thesis using replayed False ok by (simp add: idempotent_match_def)
  next
    case None
    from ok(2) obtain policy where policy: "get_policy s t = Inr policy" by (auto simp: is_ok_iff)
    have branch: "(if key = None \<or> key = Some [] then None
      else find (idempotent_match key actor t) (approvals s)) = None" using None by (simp only: existing_def)
    obtain row where "s' = emit_audit_event row ''workflow_approval_requested'' None None None ip sess now
          (s\<lparr>approvals := approvals s @ [row], next_uuid := Suc (next_uuid s)\<rparr>)"
      and "out = Some row" and "wa_id row = next_uuid s" "wa_status row = AS_pending" "wa_mutation_type row = t"
        "wa_requested_by row = actor" "wa_mutation_payload_canonical row = data" "wa_mutation_payload_hash row = sha data"
        "wa_threshold_at_request row = v" "wa_expires_at row = now + EXPIRY_BY_MUTATION_TYPE t"
      using assms False ok(1) policy branch
      by (simp add: evaluate_and_maybe_create_def Let_def branch raise_if_def split: if_splits) 
        (metis WorkflowApprovalRequest.select_convs)
    then show ?thesis using False ok(1) by (intro created[of row]) simp_all
  qed
qed

section \<open>Properties\<close>

text \<open>C27: The settlement gate. If the route answers 202, the sum of the leg amounts is above the
  threshold, the caller is a risk manager, a stored request of the caller for a settlement is
  returned, and no contract, settlement event or ledger entry has changed. If it settles, the sum is at
  or below the threshold, no request was touched, and the effect is that of the settlement
  service.\<close>

theorem settle_gate:
  assumes "settle_hedge_contract cfg sha encode s now u cid p = Inr (s', response)"
  shows "case response of
      GR_accepted row \<Rightarrow> workflow_approval_settle_threshold_usd cfg < sum_list (map sl_amount (sc_legs p))
        \<and> ''risk_manager'' \<in> actor_roles u \<and> row \<in> set (approvals s') \<and> wa_requested_by row = actor_sub u
        \<and> wa_mutation_type row = MT_hedge_contract_settle
        \<and> contracts s' = contracts s \<and> settlement_events s' = settlement_events s \<and> ledger_entries s' = ledger_entries s
    | GR_done r \<Rightarrow> sum_list (map sl_amount (sc_legs p)) \<le> workflow_approval_settle_threshold_usd cfg
        \<and> approvals s' = approvals s
        \<and> (\<exists>ev es. post_settlement s now cid p = Inr (s', ev, es) \<and> r = MR_settlement (se_id ev))"
proof -
  obtain s1 out where valid: "validate_payload p = Inr ()"
    and ev: "evaluate_and_maybe_create cfg sha s now MT_hedge_contract_settle (encode cid p) (sum_list (map sl_amount (sc_legs p)))
      (actor_sub u) (client_host u) (x_session_id u) (correlation u) (idempotency_header u) (actor_roles u) = Inr (s1, out)"
    and rest: "(case out of Some row \<Rightarrow> Inr (s1, GR_accepted row)
        | None \<Rightarrow> and_then (ingest_hedge_contract_settlement s1 now cid p) (\<lambda>(s2, ev, es).
            Inr (s2, GR_done (MR_settlement (se_id ev))))) = Inr (s', response)"
    using assms by (auto simp: settle_hedge_contract_def Let_def)
  from ev show ?thesis
  proof (cases rule: evaluate_cases)
    case below
    then obtain e es where post: "post_settlement s now cid p = Inr (s', e, es)" and r: "response = GR_done (MR_settlement (se_id e))"
      using rest valid by (auto simp: post_settlement_def)
    show ?thesis using below settlement_frame[OF post] post by (auto simp: r)
  next
    case (replayed row)
    then show ?thesis using rest by auto
  next
    case (created row)
    then show ?thesis using rest by auto
  qed
qed

text \<open>The deal gate. A deal whose links are worth more than the threshold at the moment of the
  call is not created by the route: it answers 202 and leaves deals and links as they are. A
  deal that the route creates is worth at most the threshold.\<close>

theorem create_deal_gate:
  assumes "create_deal_route cfg sha encode s now u reference (name, commodity, links) = Inr (s', response)"
  shows "\<exists>notional. compute_deal_notional_from_links s links = Inr notional \<and> (case response of
      GR_accepted row \<Rightarrow> workflow_approval_deal_threshold_usd cfg < notional \<and> ''risk_manager'' \<in> actor_roles u
        \<and> row \<in> set (approvals s') \<and> wa_requested_by row = actor_sub u \<and> wa_mutation_type row = MT_deal_create
        \<and> deals s' = deals s \<and> deal_links s' = deal_links s
    | GR_done r \<Rightarrow> notional \<le> workflow_approval_deal_threshold_usd cfg \<and> approvals s' = approvals s
        \<and> (\<exists>i. create_deal s now reference name commodity links = Inr (s', i) \<and> r = MR_deal i))"
proof -
  obtain notional s1 out where notional: "compute_deal_notional_from_links s links = Inr notional"
    and ev: "evaluate_and_maybe_create cfg sha s now MT_deal_create (encode (name, commodity, links)) notional
      (actor_sub u) (client_host u) (x_session_id u) (correlation u) (idempotency_header u) (actor_roles u) = Inr (s1, out)"
    and rest: "(case out of Some row \<Rightarrow> Inr (s1, GR_accepted row)
        | None \<Rightarrow> and_then (create_deal s1 now reference name commodity links) (\<lambda>(s2, deal).
            Inr (s2, GR_done (MR_deal deal)))) = Inr (s', response)"
    using assms by (auto simp: create_deal_route_def)
  from ev show ?thesis
  proof (cases rule: evaluate_cases)
    case below
    then obtain i where post: "create_deal s now reference name commodity links = Inr (s', i)" and r: "response = GR_done (MR_deal i)"
      using rest by auto
    show ?thesis using below create_deal_frame[OF post] post notional by (auto simp: r)
  next
    case (replayed row)
    then show ?thesis using rest notional by auto
  next
    case (created row)
    then show ?thesis using rest notional by auto
  qed
qed

lemma accepted_request:
  assumes "evaluate_and_maybe_create cfg sha s now t data v actor ip sess corr key roles = Inr (s', Some row)"
    and "approvals_inv sha s"
  shows "approval_step sha s s'" and "approvals_inv sha s'" and "get_row wa_id (wa_id row) (approvals s') = Some row"
    and "wa_requested_by row = actor" and "wa_mutation_type row = t"
    and "if row \<in> set (approvals s) then key \<noteq> None \<and> wa_idempotency_key row = key else wa_mutation_payload_canonical row = data"
proof -
  show step: "approval_step sha s s'" by (rule approval_step.requested[OF assms(1)])
  show inv: "approvals_inv sha s'" using approval_step_inv[OF assms(2) step] by simp
  have "row \<in> set (approvals s') \<and> wa_requested_by row = actor \<and> wa_mutation_type row = t
      \<and> (if row \<in> set (approvals s) then key \<noteq> None \<and> wa_idempotency_key row = key else wa_mutation_payload_canonical row = data)"
    using assms(1)
  proof (cases rule: evaluate_cases)
    case (created r)
    then have "row \<notin> set (approvals s)"
      using assms(2) by (fastforce simp: approvals_inv_def approvals_wf_def)
    with created show ?thesis by simp
  qed auto
  then show "get_row wa_id (wa_id row) (approvals s') = Some row" "wa_requested_by row = actor" "wa_mutation_type row = t"
    "if row \<in> set (approvals s) then key \<noteq> None \<and> wa_idempotency_key row = key else wa_mutation_payload_canonical row = data"
    using inv by (simp_all add: approvals_inv_def approvals_wf_def get_row_keyed)
qed

lemma settle_accepted:
  assumes "settle_hedge_contract cfg sha encode s now u cid p = Inr (s', GR_accepted row)"
  shows "evaluate_and_maybe_create cfg sha s now MT_hedge_contract_settle (encode cid p) (sum_list (map sl_amount (sc_legs p)))
    (actor_sub u) (client_host u) (x_session_id u) (correlation u) (idempotency_header u) (actor_roles u) = Inr (s', Some row)"
  using assms by (auto simp: settle_hedge_contract_def Let_def split: option.splits)

text \<open>C26: Settlement through an approval, end to end. In any state that the approval service can
  be in, a settlement is requested above the threshold and answered with a request; then anything may
  happen; then that request is consumed. It was approved by somebody else than the requester,
  who alone can consume it; the payload presented is the stored one; and the contract settled
  and the ledger entries written are those the stored text stands for. When the request is new,
  that text is the one of this call, so exactly the contract and the payload asked for are
  settled. The other case is a call that repeats an idempotency key: it is answered with the
  stored request that has the caller's key, and what is settled is what that one asked
  for (for a hash without collisions and an encoding that can be decoded).\<close>

theorem settle_through_approval:
  assumes "approvals s0 = []" and "(approval_step sha)\<^sup>*\<^sup>* s0 s"
    and "settle_hedge_contract cfg sha encode s now u cid p = Inr (s1, GR_accepted row)"
    and "(approval_step sha)\<^sup>*\<^sup>* s1 s2"
    and "consume_request sha s2 now' (wa_id row) actor data (settle_executor decode (wa_id row) now') = Inr (s3, r)"
    and "\<And>x y. sha x = sha y \<Longrightarrow> x = y" and "decode (encode cid p) = Inr (cid, p)"
  shows "actor = actor_sub u
    \<and> (\<exists>row' approver. get_row wa_id (wa_id row) (approvals s2) = Some row' \<and> wa_approved_by row' = Some approver \<and> approver \<noteq> actor)
    \<and> data = wa_mutation_payload_canonical row \<and> wa_requested_by row = actor \<and> wa_mutation_type row = MT_hedge_contract_settle
    \<and> (\<exists>cid0 p0 t ev es. decode data = Inr (cid0, p0) \<and> post_settlement s2 now' cid0 p0 = Inr (t, ev, es)
         \<and> r = MR_settlement (se_id ev) \<and> contracts s3 = contracts t
         \<and> settlement_events s3 = settlement_events t \<and> ledger_entries s3 = ledger_entries t
         \<and> (if row \<in> set (approvals s) then idempotency_header u \<noteq> None \<and> wa_idempotency_key row = idempotency_header u
            else data = encode cid p \<and> cid0 = cid \<and> p0 = p))"
proof -
  have inv: "approvals_inv sha s" using approval_run_inv[OF assms(2) approvals_inv_empty[OF assms(1)]] by simp
  note req = accepted_request[OF settle_accepted[OF assms(3)] inv]
  note used = settle_exec.consumed_request[OF req(2,3) assms(4,5,6)]
  obtain cid0 p0 t ev es where run: "decode data = Inr (cid0, p0)" "post_settlement s2 now' cid0 p0 = Inr (t, ev, es)"
      "r = MR_settlement (se_id ev)" "contracts s3 = contracts t" "settlement_events s3 = settlement_events t"
      "ledger_entries s3 = ledger_entries t"
    using assms(5) by (auto simp: consume_request_def settle_executor_def Let_def write_approval_def)
  have "if row \<in> set (approvals s) then idempotency_header u \<noteq> None \<and> wa_idempotency_key row = idempotency_header u
      else data = encode cid p \<and> cid0 = cid \<and> p0 = p"
    using req(6) used(1) run(1) assms(7) by (auto split: if_splits)
  with run used req(4,5) show ?thesis by blast
qed

section \<open>A concrete approval\<close>

text \<open>Ana, a risk manager, asks to settle the sample contract for 1 086 000 USD; Bruno, an auditor,
  grants the request; Ana consumes it.\<close>

definition gated_db :: db where
  "gated_db = priced_db\<lparr>policies := POLICY_SEED\<rparr>"

definition sample_requester :: requester where
  "sample_requester = \<lparr>actor_sub = ''ana'', actor_roles = {''risk_manager''}, client_host = None, x_session_id = None,
     idempotency_header = None, correlation = 70\<rparr>"

definition sample_encode :: "uuid \<Rightarrow> HedgeContractSettlementCreate \<Rightarrow> string" where
  "sample_encode contract_id p = ''50''"

definition sample_decode :: "string \<Rightarrow> (uuid \<times> HedgeContractSettlementCreate) result" where
  "sample_decode data = Inr (1, sample_settlement)"

definition sample_request :: WorkflowApprovalRequest where
  "sample_request = \<lparr>wa_id = 2, wa_mutation_type = MT_hedge_contract_settle, wa_status = AS_pending,
     wa_requested_by = ''ana'', wa_approved_by = None, wa_threshold_at_request = 1086000,
     wa_threshold_config_value = 250000, wa_threshold_dimension = TD_settlement_amount_usd,
     wa_mutation_payload_canonical = ''50'', wa_mutation_payload_hash = ''50'', wa_correlation_id = 70,
     wa_idempotency_key = None, wa_created_at = 0, wa_expires_at = 7200000000, wa_consumed_at = None,
     wa_approver_ip = None, wa_approver_session_id = None, wa_rejection_reason_code = None,
     wa_rejection_reason_text = None\<rparr>"

definition requested_db :: db where
  "requested_db = emit_audit_event sample_request ''workflow_approval_requested'' None None None None None 0
     (gated_db\<lparr>approvals := [sample_request], next_uuid := 3\<rparr>)"

definition granted_request :: WorkflowApprovalRequest where
  "granted_request = sample_request\<lparr>wa_status := AS_approved, wa_approved_by := Some ''bruno''\<rparr>"

definition granted_db :: db where
  "granted_db = emit_audit_event granted_request ''workflow_approval_granted'' (Some AS_pending) (Some ''bruno'') None None None 5
     (requested_db\<lparr>approvals := [granted_request]\<rparr>)"

lemma gated_db_tables [simp]:
  "approvals gated_db = []" "policies gated_db = POLICY_SEED" "next_uuid gated_db = 2"
  "get_contract gated_db 1 = Some (sample_contract 1 HC_short 60)" "ledger_entries gated_db = []" "settlement_events gated_db = []"
  "prices gated_db = [sample_price (Date 2026 3 10) 9100]"
  by (simp_all add: gated_db_def priced_db_def sample_defs get_defs)

lemma emit_audit_prices [simp]: "prices (emit_audit_event row et pr ap rr ip se now s) = prices s"
  by (simp add: emit_audit_event_def)

lemma sample_requested:
  "settle_hedge_contract default_settings (\<lambda>x. x) sample_encode gated_db 0 sample_requester 1 sample_settlement
     = Inr (requested_db, GR_accepted sample_request)"
proof -
  have "validate_payload sample_settlement = Inr ()"
    by (auto simp: validate_payload_def validate_amount_def sample_settlement_def)
  moreover have "sum_list (map sl_amount (sc_legs sample_settlement)) = 1086000" by (simp add: sample_settlement_def)
  ultimately show ?thesis
    by (simp add: settle_hedge_contract_def evaluate_and_maybe_create_def sample_requester_def sample_encode_def
        default_settings_def get_policy_def POLICY_SEED_def hours_def requested_db_def)
      (simp add: sample_request_def Let_def)
qed

lemma sample_granted: "grant_request requested_db 5 2 ''bruno'' {''auditor''} None None = Inr granted_db"
proof -
  have "get_row wa_id 2 (approvals requested_db) = Some sample_request" "get_policy requested_db MT_hedge_contract_settle = Inr (POLICY_SEED ! 2)"
    by (simp_all add: requested_db_def sample_request_def get_policy_def POLICY_SEED_def numeral_2_eq_2)
  then show ?thesis
    by (simp add: grant_request_def load_for_update_def sample_request_def reject_if_expired_def check_approver_def POLICY_SEED_def
        granted_db_def granted_request_def write_approval_def requested_db_def)
qed

lemma sample_consumed:
  "\<exists>s3 r. consume_request (\<lambda>x. x) granted_db 6 2 ''ana'' ''50'' (settle_executor sample_decode 2 6) = Inr (s3, r)"
proof -
  have "get_row wa_id 2 (approvals granted_db) = Some granted_request"
    by (simp add: granted_db_def granted_request_def sample_request_def)
  moreover have "\<exists>t ev es. post_settlement granted_db 6 1 sample_settlement = Inr (t, ev, es)"
    by (rule sample_settlement_posts) (use gated_db_tables in \<open>simp_all add: granted_db_def requested_db_def get_defs\<close>)
  ultimately show ?thesis
    by (auto simp: consume_request_def load_for_update_def granted_request_def sample_request_def reject_if_expired_def
        settle_executor_def sample_decode_def Let_def)
qed

lemma quantize_numerals [simp]: "quantize_money (numeral k) = numeral k" "quantize_price (numeral k) = numeral k"
  by (simp_all add: quantize_money_def quantize_price_def)

theorem settle_gate_witness:
  "\<exists>s' row. settle_hedge_contract default_settings (\<lambda>x. x) sample_encode gated_db 0 sample_requester 1 sample_settlement
       = Inr (s', GR_accepted row) \<and> row \<in> set (approvals s') \<and> contracts s' = contracts gated_db"
  using settle_gate[OF sample_requested] sample_requested by auto

lemma sample_deal_requested:
  "\<exists>s' row. create_deal_route default_settings (\<lambda>x. x) (\<lambda>_. ''d'') gated_db 0 sample_requester ''D-1'' (''copper'', ''COPPER'', [(''contract'', 1)])
     = Inr (s', GR_accepted row)"
proof -
  have "hc_fixed_price_value (sample_contract 1 HC_short 60) = Some 9000" "hc_quantity_mt (sample_contract 1 HC_short 60) = 60"
    by (simp_all add: sample_contract_def)
  then have "compute_deal_notional_from_links gated_db [(''contract'', 1)] = Inr 540000"
    using gated_db_tables(4) by (simp add: compute_deal_notional_from_links_def link_notional_def)
  then show ?thesis
    by (simp add: create_deal_route_def evaluate_and_maybe_create_def sample_requester_def default_settings_def get_policy_def
        POLICY_SEED_def Let_def)
qed

theorem create_deal_gate_witness:
  "\<exists>s' row notional. create_deal_route default_settings (\<lambda>x. x) (\<lambda>_. ''d'') gated_db 0 sample_requester ''D-1''
       (''copper'', ''COPPER'', [(''contract'', 1)]) = Inr (s', GR_accepted row)
     \<and> compute_deal_notional_from_links gated_db [(''contract'', 1)] = Inr notional \<and> 500000 < notional \<and> deals s' = deals gated_db"
proof -
  obtain s' row where r: "create_deal_route default_settings (\<lambda>x. x) (\<lambda>_. ''d'') gated_db 0 sample_requester ''D-1''
       (''copper'', ''COPPER'', [(''contract'', 1)]) = Inr (s', GR_accepted row)"
    using sample_deal_requested by blast
  from create_deal_gate[OF r] r show ?thesis by (auto simp: default_settings_def)
qed

theorem settle_through_approval_witness:
  "\<exists>s3 r t ev es. consume_request (\<lambda>x. x) granted_db 6 2 ''ana'' ''50'' (settle_executor sample_decode 2 6) = Inr (s3, r)
     \<and> sample_request \<notin> set (approvals gated_db)
     \<and> post_settlement granted_db 6 1 sample_settlement = Inr (t, ev, es) \<and> ledger_entries s3 = ledger_entries t"
proof -
  obtain s3 r where c: "consume_request (\<lambda>x. x) granted_db 6 2 ''ana'' ''50'' (settle_executor sample_decode 2 6) = Inr (s3, r)"
    using sample_consumed by blast
  have run: "(approval_step (\<lambda>x. x))\<^sup>*\<^sup>* requested_db granted_db"
    using approval_step.granted[OF sample_granted] by blast
  have id: "wa_id sample_request = 2" by (simp add: sample_request_def)
  have dec: "sample_decode (sample_encode 1 sample_settlement) = Inr (1, sample_settlement)" by (simp add: sample_decode_def)
  have "\<exists>t ev es. post_settlement granted_db 6 1 sample_settlement = Inr (t, ev, es) \<and> ledger_entries s3 = ledger_entries t"
    using settle_through_approval[OF gated_db_tables(1) rtranclp.rtrancl_refl sample_requested run, unfolded id, OF c _ dec]
    by (auto simp: gated_db_tables)
  with c gated_db_tables(1) show ?thesis by auto
qed

text \<open>The case of a repeated key. Ana's browser sends the key \<open>k\<close>; her second request, for a payload
  of other amounts, is answered with the first.\<close>

definition keyed_requester :: requester where
  "keyed_requester = sample_requester\<lparr>idempotency_header := Some ''k''\<rparr>"

definition keyed_request_db :: db where
  "keyed_request_db = gated_db\<lparr>approvals := [sample_request\<lparr>wa_idempotency_key := Some ''k''\<rparr>], next_uuid := 3\<rparr>"

lemma repeated_key_answers_first_request:
  "\<exists>p. sc_legs p \<noteq> sc_legs sample_settlement \<and>
     settle_hedge_contract default_settings (\<lambda>x. x) (\<lambda>_ _. ''other'') keyed_request_db 1 keyed_requester 1 p
       = Inr (keyed_request_db, GR_accepted (sample_request\<lparr>wa_idempotency_key := Some ''k''\<rparr>))"
proof -
  let ?p = "sample_settlement\<lparr>sc_legs := [\<lparr>sl_leg_id = LL_fixed, sl_direction = LD_in, sl_amount = 900000\<rparr>,
                \<lparr>sl_leg_id = LL_float, sl_direction = LD_out, sl_amount = 546000\<rparr>]\<rparr>"
  have "validate_payload ?p = Inr ()" "sum_list (map sl_amount (sc_legs ?p)) = 1446000"
    by (auto simp: validate_payload_def validate_amount_def sample_settlement_def)
  then have "settle_hedge_contract default_settings (\<lambda>x. x) (\<lambda>_ _. ''other'') keyed_request_db 1 keyed_requester 1 ?p
      = Inr (keyed_request_db, GR_accepted (sample_request\<lparr>wa_idempotency_key := Some ''k''\<rparr>))"
    by (simp add: settle_hedge_contract_def evaluate_and_maybe_create_def keyed_requester_def sample_requester_def
        default_settings_def get_policy_def POLICY_SEED_def keyed_request_db_def idempotent_match_def)
      (simp add: sample_request_def Let_def)
  moreover have "sc_legs ?p \<noteq> sc_legs sample_settlement" by (simp add: sample_settlement_def)
  ultimately show ?thesis by blast
qed

section \<open>Instances of the properties of the approval service\<close>

lemma sample_approval_run: "(approval_step (\<lambda>x. x))\<^sup>*\<^sup>* gated_db granted_db"
proof -
  have "approval_step (\<lambda>x. x) gated_db requested_db"
    by (rule approval_step.requested[OF settle_accepted[OF sample_requested]])
  with approval_step.granted[OF sample_granted] show ?thesis by (blast intro: rtranclp.rtrancl_into_rtrancl)
qed

lemma granted_rows: "approvals granted_db = [granted_request]" "wa_id granted_request = 2" "wa_status granted_request = AS_approved"
    "wa_expires_at granted_request = 7200000000"
  by (simp_all add: granted_db_def granted_request_def sample_request_def)

theorem approval_four_eyes_witness:
  "granted_request \<in> set (approvals granted_db)
    \<and> (\<exists>approver. wa_approved_by granted_request = Some approver \<and> approver \<noteq> wa_requested_by granted_request)"
  using approval_four_eyes[OF gated_db_tables(1) sample_approval_run, of granted_request] by (auto simp: granted_rows)

theorem consume_runs_approved_payload_witness:
  "\<exists>s3 r. consume_request (\<lambda>x. x) granted_db 6 2 ''ana'' ''50'' (settle_executor sample_decode 2 6) = Inr (s3, r)
     \<and> \<not> is_ok (consume_request (\<lambda>x. x) s3 7 2 ''ana'' ''50'' (settle_executor sample_decode 2 6))"
proof -
  obtain s3 r where c: "consume_request (\<lambda>x. x) granted_db 6 2 ''ana'' ''50'' (settle_executor sample_decode 2 6) = Inr (s3, r)"
    using sample_consumed by blast
  have "\<not> is_ok (consume_request (\<lambda>x. x) s3 7 2 ''ana'' ''50'' (settle_executor sample_decode 2 6))"
    using consume_runs_approved_payload[OF gated_db_tables(1) sample_approval_run settle_exec.mutation_executor_axioms c, of 7 "''ana''" "''50''"]
    by blast
  with c show ?thesis by blast
qed

theorem approval_terminal_witness:
  "\<exists>s' rows row'. sweep_expired granted_db 7200000001 = (s', rows) \<and> get_row wa_id 2 (approvals s') = Some row'
     \<and> same_request granted_request row'"
proof -
  obtain s' rows where sw: "sweep_expired granted_db 7200000001 = (s', rows)" by (metis surj_pair)
  have "(approval_step (\<lambda>x. x))\<^sup>*\<^sup>* granted_db s'" using approval_step.swept[OF sw] by blast
  from approval_terminal[OF gated_db_tables(1) sample_approval_run this, of 2 granted_request] sw show ?thesis
    by (auto simp: granted_rows)
qed

theorem sweep_expires_overdue_witness:
  "\<exists>s' rows. sweep_expired granted_db 7200000001 = (s', rows) \<and> approvals s' = [granted_request\<lparr>wa_status := AS_expired\<rparr>]"
proof -
  obtain s' rows where sw: "sweep_expired granted_db 7200000001 = (s', rows)" by (metis surj_pair)
  have "keyed wa_id (approvals granted_db)" by (simp add: granted_rows keyed_def)
  from sweep_expires_overdue[OF this sw] sw show ?thesis
    by (simp add: granted_rows approval_overdue_def)
qed

section \<open>The way around the gate\<close>

text \<open>\<open>POST /deals/{id}/links\<close> has no gate: a deal created with no links is worth nothing, and the
  contract whose deal would have needed an approval is then added to it.\<close>

definition deal_without_approval :: "(db \<times> uuid) result" where
  "deal_without_approval =
     and_then (create_deal_route default_settings (\<lambda>x. x) (\<lambda>_. ''d'') gated_db 0 sample_requester ''D-1'' (''copper'', ''COPPER'', [])) (\<lambda>(s1, r).
     and_then (case r of GR_done (MR_deal i) \<Rightarrow> Inr i | _ \<Rightarrow> Inl (http HTTP_409 [])) (\<lambda>i. add_link s1 0 i ''contract'' 1))"

lemma add_link_bypasses_gate:
  "(case deal_without_approval of Inl _ \<Rightarrow> False
     | Inr (s, _) \<Rightarrow> approvals s = [] \<and> map link_entity (deal_links s) = [(DL_contract, 1)])"
  by code_simp

end
