(* ===== verification/RFQ_Examples.thy ===== *)
theory RFQ_Examples
  imports RFQ_Lifecycle
begin

text \<open>
  A request for 10 t of copper that goes to two brokers, their quotes and the award, on which the
  properties of the request service are instantiated.
\<close>

definition two_brokers_db :: db where
  "two_brokers_db = empty_db\<lparr>counterparties := [sample_counterparty 0, sample_counterparty 1], next_uuid := 5\<rparr>"

definition sample_rfq_payload :: RFQCreate where
  "sample_rfq_payload = \<lparr>rc_intent = RI_global_position, rc_commodity = ''COPPER'', rc_quantity_mt = 10,
     rc_delivery_window_start = Date 2026 5 1, rc_delivery_window_end = Date 2026 5 31, rc_direction = RD_buy,
     rc_order_id = None, rc_buy_trade_id = None, rc_sell_trade_id = None, rc_invitations = [0, 1],
     rc_text_en = Some ''Hi'', rc_text_pt = None\<rparr>"

definition ok_sender :: sender where
  "ok_sender phone body = \<lparr>ws_success = True, ws_provider_message_id = Some ''m'', ws_error_code = None, ws_error_message = None\<rparr>"

definition sample_quote_payload :: "uuid \<Rightarrow> decimal \<Rightarrow> RFQQuoteCreate" where
  "sample_quote_payload cpid price = \<lparr>qc_rfq_id = 5, qc_counterparty_id = cpid, qc_fixed_price_value = price,
     qc_fixed_price_unit = ''USD/MT'', qc_float_pricing_convention = ''avg'', qc_received_at = 1\<rparr>"

definition rfq_sent :: "db \<times> (uuid \<times> wire) result" where
  "rfq_sent = post_rfq (\<lambda>_. ''10'') ok_sender None two_brokers_db 0 (Date 2026 3 11) sample_rfq_payload ''ana''"

definition rfq_quoted_once :: "db \<times> uuid result" where
  "rfq_quoted_once = submit_quote (fst rfq_sent) 1 5 (sample_quote_payload 0 9000) (Some ''ana'') None"

definition rfq_quoted :: "db \<times> uuid result" where
  "rfq_quoted = submit_quote (fst rfq_quoted_once) 2 5 (sample_quote_payload 1 9010) (Some ''ana'') None"

definition rfq_awarded :: "db \<times> unit result" where
  "rfq_awarded = award_rfq (fst rfq_quoted) 3 (Date 2026 3 12) ''HC-1'' ''HC-2'' 5 ''ana''"

definition sample_rfq :: RFQ where
  "sample_rfq = new_rfq 5 (Suc 0) 0 (Date 2026 3 11) sample_rfq_payload (snapshot_for [] 0 ''COPPER'')"

definition sample_invitation :: "uuid \<Rightarrow> RFQInvitation" where
  "sample_invitation cpid = queued_row (6 + cpid) sample_rfq cpid ''Broker'' ''+5511'' (invitation_body (\<lambda>_. ''10'') sample_rfq (sample_counterparty cpid))
     IP_rfq_invite (Msg ''{}:{}'' [AStr (rq_rfq_number sample_rfq), AId cpid]) 0"

lemma sample_rfq_simps [simp]:
  "rq_id sample_rfq = 5" "rq_state sample_rfq = RS_created" "rq_intent sample_rfq = RI_global_position" "rq_direction sample_rfq = RD_buy"
  "rq_deleted_at sample_rfq = None" "rq_quantity_mt sample_rfq = 10" "rq_order_id sample_rfq = None"
  by (simp_all add: sample_rfq_def sample_rfq_payload_def) (simp_all add: new_rfq_def Let_def)

lemma sample_counterparty_simps [simp]:
  "cp_kyc_status (sample_counterparty i) = KYC_approved" "\<not> cp_is_deleted (sample_counterparty i)" "cp_id (sample_counterparty i) = i"
  "text_of (sample_counterparty i) ''whatsapp_phone'' = Some ''+5511''" "recipient_name_of (sample_counterparty i) = ''Broker''"
  by (simp_all add: sample_counterparty_def text_of_def recipient_name_of_def)

lemma two_brokers_simps [simp]:
  "get_counterparty_row two_brokers_db 0 = Some (sample_counterparty 0)" "get_counterparty_row two_brokers_db (Suc 0) = Some (sample_counterparty (Suc 0))"
  "next_uuid two_brokers_db = 5" "rfq_sequence two_brokers_db = 0" "rfqs two_brokers_db = []" "rfq_invitations two_brokers_db = []"
  "rfq_quotes two_brokers_db = []" "rfq_state_events two_brokers_db = []" "contracts two_brokers_db = []"
  by (simp_all add: two_brokers_db_def get_counterparty_row_def empty_db_def)

lemma sample_phase1:
  "create_phase1 (\<lambda>_. ''10'') None two_brokers_db 0 (Date 2026 3 11) sample_rfq_payload ''ana'' =
     (two_brokers_db\<lparr>rfqs := [sample_rfq], rfq_invitations := [sample_invitation 0, sample_invitation (Suc 0)], rfq_sequence := Suc 0, next_uuid := 8\<rparr>,
      Inr (sample_rfq, [sample_invitation 0, sample_invitation (Suc 0)]))"
proof -
  have "compute_commercial_snapshot two_brokers_db 0 = Inr []"
    by (simp add: compute_commercial_snapshot_def compute_commercial_exposure_pure_def snapshot_orders_def two_brokers_db_def empty_db_def)
  moreover have "queue_invitations (\<lambda>_. ''10'') two_brokers_db 0 ''ana'' sample_rfq [0, Suc 0] [] =
      (two_brokers_db, Inr [sample_invitation 0, sample_invitation (Suc 0)])"
    by (simp add: txn_then_def assert_kyc_approved_def get_counterparty_by_id_def sample_invitation_def)
  moreover have "rc_intent sample_rfq_payload = RI_global_position" "rc_commodity sample_rfq_payload = ''COPPER''"
    "rc_invitations sample_rfq_payload = [0, Suc 0]"
    by (simp_all add: sample_rfq_payload_def)
  moreover have "new_rfq 5 (Suc 0) 0 (Date 2026 3 11) sample_rfq_payload (snapshot_for [] 0 ''COPPER'') = sample_rfq"
    by (simp add: sample_rfq_def)
  ultimately show ?thesis
    by (simp add: create_phase1_def txn_then_def run_checkpoint_def)
qed

lemma rfq_sent_facts:
  "\<exists>sent. snd rfq_sent = Inr (5, sent)" "rfqs (fst rfq_sent) = [sample_rfq\<lparr>rq_state := RS_sent\<rparr>]" "rfq_quotes (fst rfq_sent) = []"
  "next_uuid (fst rfq_sent) = 9" "contracts (fst rfq_sent) = []"
  "counterparties (fst rfq_sent) = counterparties two_brokers_db"
proof -
  have valid: "validate_intent sample_rfq_payload = Inr ()" by (simp add: validate_intent_def sample_rfq_payload_def)
  have "inv_id (sample_invitation 0) = 6" "inv_id (sample_invitation (Suc 0)) = 7" "inv_rfq_id (sample_invitation i) = 5" for i
    by (simp_all add: sample_invitation_def queued_row_def)
  then have run: "rfq_sent = (mark_sent 0 ''ana'' 5 (two_brokers_db\<lparr>rfqs := [sample_rfq], rfq_sequence := Suc 0, next_uuid := 8, rfq_invitations :=
        [after_send (ok_sender [] []) 0 (sample_invitation 0), after_send (ok_sender [] []) 0 (sample_invitation (Suc 0))]\<rparr>),
      Inr (5, map (\<lambda>i. (inv_recipient_phone i, inv_message_body i)) [sample_invitation 0, sample_invitation (Suc 0)]))"
    by (simp add: rfq_sent_def post_rfq_def txn_then_def valid create_rfq_def sample_phase1 send_row_def ok_sender_def after_send_def)
  have sent: "inv_rfq_id (after_send (ok_sender [] []) 0 (sample_invitation i)) = 5 \<and> inv_send_status (after_send (ok_sender [] []) 0 (sample_invitation i)) = IS_sent" for i
    by (simp add: after_send_def ok_sender_def sample_invitation_def queued_row_def)
  have eq: "fst rfq_sent = add_event ((state_event 5 RS_created RS_sent 0)\<lparr>re_user_id := Some ''ana''\<rparr>)
      (two_brokers_db\<lparr>rfq_sequence := Suc 0, next_uuid := 8, rfq_invitations :=
        [after_send (ok_sender [] []) 0 (sample_invitation 0), after_send (ok_sender [] []) 0 (sample_invitation (Suc 0))], rfqs := [sample_rfq\<lparr>rq_state := RS_sent\<rparr>]\<rparr>)"
    by (simp add: run sent mark_sent_def write_rfq_def)
  have r: "\<exists>sent. snd rfq_sent = Inr (5, sent)" by (simp add: run)
  show "\<exists>sent. snd rfq_sent = Inr (5, sent)" by (rule r)
  show "rfqs (fst rfq_sent) = [sample_rfq\<lparr>rq_state := RS_sent\<rparr>]" "rfq_quotes (fst rfq_sent) = []" "next_uuid (fst rfq_sent) = 9" "contracts (fst rfq_sent) = []"
    unfolding eq by simp_all
  show "counterparties (fst rfq_sent) = counterparties two_brokers_db" unfolding eq by (simp add: add_event_def)
qed

text \<open>A broker of the sample quotes on a request that is sent or quoted.\<close>

lemma sample_quote_payload_simps [simp]:
  "qc_rfq_id (sample_quote_payload cpid price) = 5" "qc_counterparty_id (sample_quote_payload cpid price) = cpid"
  "qc_fixed_price_value (sample_quote_payload cpid price) = price" "qc_fixed_price_unit (sample_quote_payload cpid price) = ''USD/MT''"
  by (simp_all add: sample_quote_payload_def)

lemma sample_submit:
  fixes now :: datetime
  assumes "rfqs s = [sample_rfq\<lparr>rq_state := st\<rparr>]" "st = RS_sent \<or> st = RS_quoted" "counterparties s = counterparties two_brokers_db"
    and "cpid \<in> {0, 1}" "0 < price"
  defines "q \<equiv> new_quote s now 5 (sample_quote_payload cpid price)"
  shows "\<exists>s'. submit_quote s now 5 (sample_quote_payload cpid price) (Some ''ana'') None = (s', Inr (next_uuid s))
    \<and> rfqs s' = [sample_rfq\<lparr>rq_state := RS_quoted\<rparr>] \<and> rfq_quotes s' = rfq_quotes s @ [q] \<and> contracts s' = contracts s
    \<and> counterparties s' = counterparties two_brokers_db \<and> next_uuid s < next_uuid s'"
proof -
  have cp: "get_counterparty_row s cpid = Some (sample_counterparty cpid)"
    using assms(3,4) by (auto simp: get_counterparty_row_def two_brokers_db_def)
  have row: "get_rfq_row s 5 = Some (sample_rfq\<lparr>rq_state := st\<rparr>)" using assms(1) by (simp add: get_rfq_row_def)
  have chk: "check_quote s 5 (sample_quote_payload cpid price) = Inr (sample_rfq\<lparr>rq_state := st\<rparr>)"
    using row cp assms(2,5) by (auto simp: check_quote_def get_live_def get_rfq_def sample_quote_payload_def CANONICAL_PRICE_UNITS_def)
  define s2 where "s2 = (if st = RS_sent then mark_quoted 5 q now (s\<lparr>rfq_quotes := rfq_quotes s @ [q], next_uuid := Suc (next_uuid s)\<rparr>)
     else s\<lparr>rfq_quotes := rfq_quotes s @ [q], next_uuid := Suc (next_uuid s)\<rparr>)"
  have s2: "rfqs s2 = [sample_rfq\<lparr>rq_state := RS_quoted\<rparr>]" "rfq_quotes s2 = rfq_quotes s @ [q]" "contracts s2 = contracts s"
    "counterparties s2 = counterparties two_brokers_db" "next_uuid s < next_uuid s2"
    using assms(1-3) by (auto simp: s2_def mark_quoted_def) (auto simp: add_event_def write_rfq_def)
  have "parent_spreads s2 5 = []" by (simp add: parent_spreads_def s2)
  then have "submit_quote s now 5 (sample_quote_payload cpid price) (Some ''ana'') None = (s2, Inr (qt_id q))"
    using chk cp unfolding s2_def q_def
    by (auto simp: submit_quote_def txn_then_def assert_kyc_approved_def get_counterparty_by_id_def Let_def)
  then show ?thesis using s2 by (auto simp: q_def new_quote_def)
qed


text \<open>Both brokers quote; the award takes the lower price, since the request buys.\<close>

lemma sample_quoted:
  "\<exists>q0 q1. rfq_quotes (fst rfq_quoted) = [q0, q1] \<and> qt_fixed_price_value q0 = 9000 \<and> qt_fixed_price_value q1 = 9010
    \<and> qt_counterparty_id q0 = 0 \<and> qt_counterparty_id q1 = Suc 0 \<and> qt_id q0 = 9 \<and> qt_id q0 < qt_id q1
    \<and> (\<forall>q \<in> {q0, q1}. qt_rfq_id q = 5 \<and> qt_state q = QS_active \<and> qt_fixed_price_unit q = ''USD/MT'')"
  "rfqs (fst rfq_quoted) = [sample_rfq\<lparr>rq_state := RS_quoted\<rparr>]" "contracts (fst rfq_quoted) = []"
  "counterparties (fst rfq_quoted) = counterparties two_brokers_db"
  "\<exists>i. snd rfq_quoted = Inr i"
proof -
  have q: "quantize_price 9000 = 9000" "quantize_price 9010 = 9010" by code_simp+
  note sent = rfq_sent_facts
  obtain s1 where s1: "rfq_quoted_once = (s1, Inr (next_uuid (fst rfq_sent)))" "rfqs s1 = [sample_rfq\<lparr>rq_state := RS_quoted\<rparr>]"
      "rfq_quotes s1 = [new_quote (fst rfq_sent) 1 5 (sample_quote_payload 0 9000)]" "contracts s1 = []"
      "counterparties s1 = counterparties two_brokers_db" "next_uuid (fst rfq_sent) < next_uuid s1"
    using sample_submit[OF sent(2) _ sent(6), of 0 9000 1] sent by (auto simp: rfq_quoted_once_def)
  have f1: "fst rfq_quoted_once = s1" by (simp add: s1)
  obtain s2 where s2: "rfq_quoted = (s2, Inr (next_uuid s1))" "rfqs s2 = [sample_rfq\<lparr>rq_state := RS_quoted\<rparr>]"
      "rfq_quotes s2 = rfq_quotes s1 @ [new_quote s1 2 5 (sample_quote_payload 1 9010)]" "contracts s2 = []"
      "counterparties s2 = counterparties two_brokers_db"
    using sample_submit[OF s1(2) _ s1(5), of 1 9010 2] unfolding rfq_quoted_def f1 by (auto simp: s1)
  show "\<exists>q0 q1. rfq_quotes (fst rfq_quoted) = [q0, q1] \<and> qt_fixed_price_value q0 = 9000 \<and> qt_fixed_price_value q1 = 9010
    \<and> qt_counterparty_id q0 = 0 \<and> qt_counterparty_id q1 = Suc 0 \<and> qt_id q0 = 9 \<and> qt_id q0 < qt_id q1
    \<and> (\<forall>q \<in> {q0, q1}. qt_rfq_id q = 5 \<and> qt_state q = QS_active \<and> qt_fixed_price_unit q = ''USD/MT'')"
    using s1(6) sent(4) by (intro exI[of _ "new_quote (fst rfq_sent) 1 5 (sample_quote_payload 0 9000)"]
        exI[of _ "new_quote s1 2 5 (sample_quote_payload 1 9010)"]) (simp add: s2 s1(3) new_quote_def q)
  show "rfqs (fst rfq_quoted) = [sample_rfq\<lparr>rq_state := RS_quoted\<rparr>]" "contracts (fst rfq_quoted) = []"
    "counterparties (fst rfq_quoted) = counterparties two_brokers_db" "\<exists>i. snd rfq_quoted = Inr i"
    by (simp_all add: s2)
qed

lemma canonicalize_usd_mt [simp]: "canonicalize_fixed_price_unit ''USD/MT'' = Some ''USD/MT''"
  by code_simp

lemma sample_ranking:
  assumes "rq_direction rfq = RD_buy" and "qt_fixed_price_unit q0 = ''USD/MT''" "qt_fixed_price_unit q1 = ''USD/MT''"
    and "qt_fixed_price_value q0 < qt_fixed_price_value q1"
  shows "top_trade (compute_trade_ranking rfq [(i, q0), (j, q1)]) = Inr q0"
  using assms by (simp add: compute_trade_ranking_def top_trade_def Let_def)

lemma sample_latest:
  assumes "qt_counterparty_id q0 = 0" "qt_counterparty_id q1 = Suc 0"
  shows "select_latest_quotes_by_counterparty [q0, q1] = Inr [(0, q0), (Suc 0, q1)]"
  using assms by (simp add: select_latest_quotes_by_counterparty_def latest_step_def dict_set_def)


lemma sample_award_at:
  assumes "rfqs s = [sample_rfq\<lparr>rq_state := RS_quoted\<rparr>]" "contracts s = []" "counterparties s = counterparties two_brokers_db"
    and q: "rfq_quotes s = [q0, q1]" "qt_fixed_price_value q0 = 9000" "qt_fixed_price_value q1 = 9010"
      "qt_counterparty_id q0 = 0" "qt_counterparty_id q1 = Suc 0"
      "\<forall>q \<in> {q0, q1}. qt_rfq_id q = 5 \<and> qt_state q = QS_active \<and> qt_fixed_price_unit q = ''USD/MT''"
    and "qt_id q0 \<noteq> qt_id q1"
  defines "r \<equiv> sample_rfq\<lparr>rq_state := RS_quoted\<rparr>"
  shows "resolve_awarded_quote s r = Inr (RI_global_position, [(q0, 10)])"
    "\<exists>s'. award_rfq s now today ''HC-1'' ref2 5 actor = (s', Inr ()) \<and> (\<exists>c. contracts s' = [c] \<and> hc_rfq_id c = Some 5 \<and> hc_fixed_price_value c = Some 9000)
    \<and> (\<exists>r. get_rfq_row s' 5 = Some r \<and> rq_state r = RS_closed \<and> rq_intent r \<noteq> RI_spread)"
proof -
  have row: "get_rfq_row s 5 = Some r" "rq_id r = 5" "rq_intent r = RI_global_position" "rq_quantity_mt r = 10" "rq_order_id r = None"
    "rq_state r = RS_quoted" "rq_deleted_at r = None" "rq_direction r = RD_buy"
    by (simp_all add: get_rfq_row_def assms(1) r_def)
  have "active_quotes s 5 = [q0, q1]" using q by (simp add: active_quotes_def)
  then have rk: "trade_ranking s r = Inr (compute_trade_ranking r [(0, q0), (Suc 0, q1)])"
    using q row by (simp add: trade_ranking_def get_latest_trade_quotes_def sample_latest)
  have top: "top_trade (compute_trade_ranking r [(0, q0), (Suc 0, q1)]) = Inr q0" using q row by (intro sample_ranking) simp_all
  show "resolve_awarded_quote s r = Inr (RI_global_position, [(q0, 10)])"
    using q assms(10) row by (simp add: resolve_awarded_quote_def rk top)
  have "get_counterparty_row s 0 = Some (sample_counterparty 0)"
    using assms(3) by (simp add: get_counterparty_row_def two_brokers_db_def)
  then have kyc: "assert_kyc_approved s 0 GP_rfq_award (Some actor) (Some 5) x = (s, Inr (sample_counterparty 0))" for x
    by (simp add: assert_kyc_approved_def get_counterparty_by_id_def)
  let ?c = "award_contract (next_uuid s) now today ''HC-1'' r 0 q0"
  have book: "book_trade now today ''HC-1'' r 0 q0 s = Inr (s\<lparr>contracts := [?c], next_uuid := Suc (next_uuid s)\<rparr>, hc_id ?c)"
    using row by (simp add: book_trade_def assms(2))
  have "award_rfq s now today ''HC-1'' ref2 5 actor = award_trade s now today ''HC-1'' r actor"
    using row by (simp add: award_rfq_def txn_then_def get_live_def get_rfq_def)
  also have "\<dots> = (award_events now actor 5 [qt_id q0] [0] (Trade_snapshot (compute_trade_ranking r [(0, q0), (Suc 0, q1)])) [hc_id ?c]
      (s\<lparr>contracts := [?c], next_uuid := Suc (next_uuid s)\<rparr>), Inr ())"
    using q row by (simp add: award_trade_def txn_then_def rk top kyc book del: award_contract_simps)
  finally have run: "award_rfq s now today ''HC-1'' ref2 5 actor = \<dots>" .
  show "\<exists>s'. award_rfq s now today ''HC-1'' ref2 5 actor = (s', Inr ()) \<and> (\<exists>c. contracts s' = [c] \<and> hc_rfq_id c = Some 5 \<and> hc_fixed_price_value c = Some 9000)
    \<and> (\<exists>r. get_rfq_row s' 5 = Some r \<and> rq_state r = RS_closed \<and> rq_intent r \<noteq> RI_spread)"
    by (rule exI, rule conjI, rule run)
      (simp add: award_events_frame get_rfq_row_def table_simps assms(1) r_def q(2) award_contract_def Let_def split: prod.split)
qed

lemma sample_award:
  "\<exists>s'. rfq_awarded = (s', Inr ()) \<and> (\<exists>c. contracts s' = [c] \<and> hc_rfq_id c = Some 5 \<and> hc_fixed_price_value c = Some 9000)
    \<and> (\<exists>r. get_rfq_row s' 5 = Some r \<and> rq_state r = RS_closed \<and> rq_intent r \<noteq> RI_spread)"
proof -
  obtain q0 q1 where q: "rfq_quotes (fst rfq_quoted) = [q0, q1]" "qt_fixed_price_value q0 = 9000" "qt_fixed_price_value q1 = 9010"
      "qt_counterparty_id q0 = 0" "qt_counterparty_id q1 = Suc 0" "qt_id q0 < qt_id q1"
      "\<forall>q \<in> {q0, q1}. qt_rfq_id q = 5 \<and> qt_state q = QS_active \<and> qt_fixed_price_unit q = ''USD/MT''"
    using sample_quoted(1) by blast
  have "qt_id q0 \<noteq> qt_id q1" using q(6) by simp
  then show ?thesis unfolding rfq_awarded_def by (rule sample_award_at(2)[OF sample_quoted(2,3,4) q(1-5,7)])
qed

section \<open>Witnesses\<close>

lemma sample_rfq_run: "rfq_step\<^sup>*\<^sup>* two_brokers_db (fst rfq_awarded)"
proof -
  obtain a b where "rfq_sent = (a, b)" by fastforce
  then have "rfq_step two_brokers_db (fst rfq_sent)" by (auto simp: rfq_sent_def intro!: rfq_step.request rfq_request.created)
  moreover obtain a b where "rfq_quoted_once = (a, b)" by fastforce
  then have "rfq_step (fst rfq_sent) (fst rfq_quoted_once)" by (auto simp: rfq_quoted_once_def intro!: rfq_step.request rfq_request.quoted)
  moreover obtain a b where "rfq_quoted = (a, b)" by fastforce
  then have "rfq_step (fst rfq_quoted_once) (fst rfq_quoted)" by (auto simp: rfq_quoted_def intro!: rfq_step.request rfq_request.quoted)
  moreover obtain a b where "rfq_awarded = (a, b)" by fastforce
  then have "rfq_step (fst rfq_quoted) (fst rfq_awarded)" by (auto simp: rfq_awarded_def intro!: rfq_step.request rfq_request.awarded)
  ultimately show ?thesis by (meson rtranclp.rtrancl_into_rtrancl rtranclp.rtrancl_refl)
qed

lemma sample_run_quoted: "rfq_step\<^sup>*\<^sup>* two_brokers_db (fst rfq_quoted)"
proof -
  obtain a b where "rfq_sent = (a, b)" by fastforce
  then have "rfq_step two_brokers_db (fst rfq_sent)" by (auto simp: rfq_sent_def intro!: rfq_step.request rfq_request.created)
  moreover obtain a b where "rfq_quoted_once = (a, b)" by fastforce
  then have "rfq_step (fst rfq_sent) (fst rfq_quoted_once)" by (auto simp: rfq_quoted_once_def intro!: rfq_step.request rfq_request.quoted)
  moreover obtain a b where "rfq_quoted = (a, b)" by fastforce
  then have "rfq_step (fst rfq_quoted_once) (fst rfq_quoted)" by (auto simp: rfq_quoted_def intro!: rfq_step.request rfq_request.quoted)
  ultimately show ?thesis by (meson rtranclp.rtrancl_into_rtrancl rtranclp.rtrancl_refl)
qed

lemma two_brokers_no_rfqs: "no_rfqs two_brokers_db"
  by (simp add: no_rfqs_def award_refs_def)

lemma sample_awarded:
  "\<exists>c. contracts (fst rfq_awarded) = [c] \<and> hc_rfq_id c = Some 5 \<and> hc_fixed_price_value c = Some 9000"
  "\<exists>r. get_rfq_row (fst rfq_awarded) 5 = Some r \<and> rq_state r = RS_closed \<and> rq_intent r \<noteq> RI_spread"
  "rfq_awarded = (fst rfq_awarded, Inr ())"
  using sample_award by (metis fst_conv)+

theorem rfq_awarded_once_witness:
  "length (filter (\<lambda>c. hc_rfq_id c = Some 5) (contracts (fst rfq_awarded))) = 1
    \<and> (\<exists>r. get_rfq_row (fst rfq_awarded) 5 = Some r \<and> rq_state r = RS_closed \<and> rq_intent r \<noteq> RI_spread)"
  using rfq_awarded_once[OF two_brokers_no_rfqs sample_rfq_run, of 5] sample_awarded(1,2) by auto

theorem rfq_log_replays_witness: "replay RS_created (log_of (fst rfq_awarded) 5) = Some RS_closed"
  using rfq_log_replays[OF two_brokers_no_rfqs sample_rfq_run] sample_awarded(2) by metis

theorem rfq_quoted_has_quote_witness: "active_quotes (fst rfq_quoted) 5 \<noteq> []"
proof -
  have "get_rfq_row (fst rfq_quoted) 5 = Some (sample_rfq\<lparr>rq_state := RS_quoted\<rparr>)" by (simp add: get_rfq_row_def sample_quoted)
  from rfq_quoted_has_quote[OF two_brokers_no_rfqs sample_run_quoted this] show ?thesis by simp
qed

theorem award_books_best_witness:
  "\<exists>q. is_latest (active_quotes (fst rfq_quoted) 5) q \<and> contracts (fst rfq_awarded) =
     [award_contract (next_uuid (fst rfq_quoted)) 3 (Date 2026 3 12) ''HC-1'' (sample_rfq\<lparr>rq_state := RS_quoted\<rparr>) (qt_counterparty_id q) q]"
proof -
  have "get_rfq_row (fst rfq_quoted) 5 = Some (sample_rfq\<lparr>rq_state := RS_quoted\<rparr>)" by (simp add: get_rfq_row_def sample_quoted)
  moreover have "award_rfq (fst rfq_quoted) 3 (Date 2026 3 12) ''HC-1'' ''HC-2'' 5 ''ana'' = (fst rfq_awarded, Inr ())"
    using sample_awarded(3) unfolding rfq_awarded_def .
  moreover have "keyed qt_id (rfq_quotes (fst rfq_quoted))"
    using sample_quoted(1) by (auto simp: keyed_def)
  ultimately show ?thesis
    using award_books_best[of "fst rfq_quoted" 3 "Date 2026 3 12" "''HC-1''" "''HC-2''" 5 "''ana''" "fst rfq_awarded" "sample_rfq\<lparr>rq_state := RS_quoted\<rparr>"]
    by (auto simp: sample_quoted)
qed

end
