(* ===== verification/Award_Gate.thy ===== *)
theory Award_Gate
  imports Approval_Gate RFQ_Examples
begin

text \<open>
  The award of a request for quote behind the approval gate: \<open>POST /rfqs/{id}/actions/award\<close>
  (\<open>backend/app/api/routes/rfqs.py\<close>) and the award branch of the consume route
  (\<open>backend/app/api/routes/workflow_approvals.py\<close>), which compares the quotes that would be awarded
  now with those that were approved. Prices and quantities are columns with a fixed number of
  decimals, so their texts are equal when their values are.
\<close>

section \<open>The routes\<close>

type_synonym awarded_quotes = "(uuid \<times> decimal \<times> decimal) list"

definition awarded_snapshot :: "(RFQQuote \<times> decimal) list \<Rightarrow> awarded_quotes" where
  "awarded_snapshot pairs =
     sort_key fst (map (\<lambda>(quote, quantity_mt). (qt_id quote, qt_fixed_price_value quote, quantity_mt)) pairs)"

definition award_notional :: "(RFQQuote \<times> decimal) list \<Rightarrow> decimal" where
  "award_notional awarded_pairs = sum_list (map (\<lambda>(quote, quantity_mt). qt_fixed_price_value quote * quantity_mt) awarded_pairs)"

text \<open>The state is the committed one: a refused counterparty leaves its audit event behind.\<close>

definition award_rfq_route ::
    "approval_settings \<Rightarrow> (string \<Rightarrow> string) \<Rightarrow> (uuid \<Rightarrow> awarded_quotes \<Rightarrow> string) \<Rightarrow> db \<Rightarrow> datetime \<Rightarrow> date \<Rightarrow> string \<Rightarrow> string
       \<Rightarrow> requester \<Rightarrow> uuid \<Rightarrow> db \<times> gate_response result" where
  "award_rfq_route cfg sha encode s now today ref1 ref2 u i =
     txn_then (s, get_live s i) (\<lambda>rfq.
     txn_then (s, resolve_awarded_quote s rfq) (\<lambda>(_, awarded_pairs).
     txn_then (s, evaluate_and_maybe_create cfg sha s now MT_deal_award (encode i (awarded_snapshot awarded_pairs))
       (award_notional awarded_pairs) (actor_sub u) (client_host u) (x_session_id u) (correlation u) (idempotency_header u)
       (actor_roles u)) (\<lambda>(s1, approval).
     case approval of
       Some row \<Rightarrow> (s1, Inr (GR_accepted row))
     | None \<Rightarrow> (case award_rfq s1 now today ref1 ref2 i (actor_sub u) of
           (s2, Inl e) \<Rightarrow> (s2, Inl e)
         | (s2, Inr _) \<Rightarrow> (s2, Inr (GR_done (MR_award i)))))))"

text \<open>Inside \<open>consume_request\<close> a refusal rolls everything back; the audit event of a refused
  counterparty, which is written on a session of its own, is part of \<open>award_rfq\<close> and dropped here.\<close>

definition award_executor ::
    "(string \<Rightarrow> (uuid \<times> awarded_quotes) result) \<Rightarrow> uuid \<Rightarrow> string \<Rightarrow> datetime \<Rightarrow> date \<Rightarrow> string \<Rightarrow> string \<Rightarrow> string \<Rightarrow> db
       \<Rightarrow> (db \<times> mutation_result) result" where
  "award_executor decode approval_id actor now today ref1 ref2 data s =
     and_then (decode data) (\<lambda>(rfq_id, awarded_quotes).
     and_then (get_live s rfq_id) (\<lambda>current_rfq.
     and_then (resolve_awarded_quote s current_rfq) (\<lambda>(_, current_pairs).
     and_then (raise_if (awarded_snapshot current_pairs \<noteq> awarded_quotes)
       (HTTPException HTTP_409 (Msg ''awarded_quotes_drift_detected'' []))) (\<lambda>_.
     case award_rfq s now today ref1 ref2 rfq_id actor of
       (_, Inl e) \<Rightarrow> Inl e
     | (s1, Inr _) \<Rightarrow> Inr (emit_consumed_mutation_audit ''rfq'' rfq_id ''awarded'' data approval_id s1, MR_award rfq_id)))))"

section \<open>The executor keeps the contract of the approval service\<close>

definition approvals_frame :: "db \<Rightarrow> db \<Rightarrow> bool" where
  "approvals_frame s s' \<longleftrightarrow> approvals s' = approvals s \<and> next_uuid s \<le> next_uuid s'"

interpretation gate: request_frame approvals_frame
proof
  show "approvals_frame s s'" if "rfq_rest s' = rfq_rest s" "next_uuid s \<le> next_uuid s'" for s s'
    using arg_cong[OF that(1), of approvals] that(2) by (simp add: rfq_rest_def approvals_frame_def)
qed (simp_all add: approvals_frame_def record_audit_def)

lemma book_trade_approvals: "book_trade now today ref r cp q s = Inr (t, c) \<Longrightarrow> approvals_frame s t"
  by (cases "rq_intent r"; cases "rq_order_id r")
    (auto simp: book_trade_def approvals_frame_def Let_def dest!: create_linkage_frame)

lemma booked_approvals: "booked s t \<Longrightarrow> approvals_frame s t"
  by (auto simp: booked_def dest: book_trade_approvals)

lemma award_approvals:
  assumes "award_rfq s now today ref1 ref2 i actor = (s', out)"
  shows "approvals_frame s s'"
proof -
  obtain t where t: "booked\<^sup>*\<^sup>* s t" "approvals_frame t s'" using gate.award_rfq_view[OF assms] by blast
  have "approvals_frame s t"
    using t(1) by (induction rule: rtranclp_induct) (auto intro: gate.view_trans booked_approvals)
  then show ?thesis using t(2) gate.view_trans by blast
qed

lemma award_executor_Inr:
  assumes "award_executor decode approval_id actor now today ref1 ref2 data s = Inr (s', r)"
  obtains i snapshot rfq intent pairs s1 where "decode data = Inr (i, snapshot)" "get_rfq_row s i = Some rfq"
    "resolve_awarded_quote s rfq = Inr (intent, pairs)" "awarded_snapshot pairs = snapshot"
    "award_rfq s now today ref1 ref2 i actor = (s1, Inr ())"
    "s' = emit_consumed_mutation_audit ''rfq'' i ''awarded'' data approval_id s1" "r = MR_award i"
proof -
  obtain i snapshot where d: "decode data = Inr (i, snapshot)" using assms by (auto simp: award_executor_def)
  obtain rfq where g: "get_live s i = Inr rfq" using assms d by (auto simp: award_executor_def)
  obtain intent pairs where p: "resolve_awarded_quote s rfq = Inr (intent, pairs)" "awarded_snapshot pairs = snapshot"
    using assms d g by (auto simp: award_executor_def simp del: get_live_Inr)
  obtain s1 out where w: "award_rfq s now today ref1 ref2 i actor = (s1, out)" by fastforce
  have "out = Inr ()" "s' = emit_consumed_mutation_audit ''rfq'' i ''awarded'' data approval_id s1" "r = MR_award i"
    using assms d g p w by (auto simp: award_executor_def simp del: get_live_Inr split: sum.splits)
  with d g p w that show ?thesis by simp
qed

interpretation award_exec: mutation_executor "award_executor decode approval_id actor now today ref1 ref2"
  for decode approval_id actor now today ref1 ref2
proof
  fix data s s' r
  assume "award_executor decode approval_id actor now today ref1 ref2 data s = Inr (s', r)"
  then have "approvals_frame s s'"
    by (elim award_executor_Inr) (drule award_approvals, simp add: approvals_frame_def)
  then show "approvals s' = approvals s" "next_uuid s \<le> next_uuid s'" by (simp_all add: approvals_frame_def)
qed

section \<open>An award books what was resolved\<close>

definition contract_terms :: "HedgeContract \<Rightarrow> uuid option \<times> decimal option \<times> decimal" where
  "contract_terms c = (hc_rfq_quote_id c, hc_fixed_price_value c, hc_quantity_mt c)"

definition approved_terms :: "RFQQuote \<times> decimal \<Rightarrow> uuid option \<times> decimal option \<times> decimal" where
  "approved_terms p = (Some (qt_id (fst p)), Some (qt_fixed_price_value (fst p)), snd p)"

definition contract_value :: "HedgeContract \<Rightarrow> decimal" where
  "contract_value c = (case hc_fixed_price_value c of None \<Rightarrow> 0 | Some price \<Rightarrow> price * hc_quantity_mt c)"

lemma contract_terms_award [simp]:
  "contract_terms (award_contract i now today ref r cp q) = approved_terms (q, rq_quantity_mt r)"
  by (simp add: contract_terms_def approved_terms_def award_contract_def determine_contract_legs_def)

lemma contract_value_sum:
  assumes "map contract_terms cs = map approved_terms pairs"
  shows "sum_list (map contract_value cs) = award_notional pairs"
  using assms
proof (induction cs arbitrary: pairs)
  case (Cons c cs)
  then obtain p ps where "pairs = p # ps" "contract_terms c = approved_terms p" "map contract_terms cs = map approved_terms ps" by (cases pairs) auto
  moreover from this have "contract_value c = qt_fixed_price_value (fst p) * snd p"
    by (simp add: contract_value_def contract_terms_def approved_terms_def)
  ultimately show ?case using Cons.IH[of ps] by (simp add: award_notional_def case_prod_beta)
qed (simp add: award_notional_def)

lemma snapshot_terms:
  "mset (map (\<lambda>(k, price, q). (Some k, Some price, q)) (awarded_snapshot pairs)) = mset (map approved_terms pairs)"
proof -
  have "approved_terms = (\<lambda>p. (Some (qt_id (fst p)), Some (qt_fixed_price_value (fst p)), snd p))"
    by (rule ext) (simp add: approved_terms_def)
  then show ?thesis by (simp add: awarded_snapshot_def case_prod_beta multiset.map_comp comp_def)
qed

lemma close_child_contracts: "close_child now actor parent child c s = Inr s' \<Longrightarrow> contracts s' = contracts s"
  by (auto simp: close_child_def split: option.splits)

lemma award_spread_contracts:
  assumes "award_spread s now today ref1 ref2 rfq actor = (s', Inr ())" and "resolve_awarded_quote s rfq = Inr (intent, pairs)"
    and "rq_intent rfq = RI_spread"
  shows "\<exists>cs. contracts s' = contracts s @ cs \<and> map contract_terms cs = map approved_terms pairs"
proof -
  obtain rk where rk1: "compute_spread_ranking s rfq = Inr rk" using assms(2,3) by (auto simp: resolve_awarded_quote_def)
  obtain top where rk2: "top_spread rk = Inr top" using assms(2,3) rk1 by (auto simp: resolve_awarded_quote_def)
  note rk = rk1 rk2
  obtain b l rb rl where ids: "rq_buy_trade_id rfq = Some b" "rq_sell_trade_id rfq = Some l" "get_rfq_row s b = Some rb" "get_rfq_row s l = Some rl"
    and pairs: "pairs = [(sre_buy_quote top, rq_quantity_mt rb), (sre_sell_quote top, rq_quantity_mt rl)]"
    using assms(2,3) rk by (simp add: resolve_awarded_quote_def split: option.splits)
  obtain s1 k1 s2 k2 s4 where run: "book_child now today ref1 (sre_counterparty_id top) (Some b) (sre_buy_quote top) s = Inr (s1, k1)"
      "book_child now today ref2 (sre_counterparty_id top) (Some l) (sre_sell_quote top) s1 = Inr (s2, k2)"
      "close_child now actor rfq (Some b) k1 (award_events now actor (rq_id rfq) [qt_id (sre_buy_quote top), qt_id (sre_sell_quote top)]
            [sre_counterparty_id top] (Spread_snapshot rk) [k1, k2] s2) = Inr s4"
      "close_child now actor rfq (Some l) k2 s4 = Inr s'"
    using assms(1) rk ids unfolding award_spread_def
    by (elim txn_then_cases) (auto split: sum.splits)
  have "contracts s1 = contracts s @ [award_contract (next_uuid s) now today ref1 rb (sre_counterparty_id top) (sre_buy_quote top)]"
    "rfqs s1 = rfqs s"
    using run(1) ids(3) by (auto elim!: book_child_cases book_trade_cases)
  moreover have "contracts s2 = contracts s1 @ [award_contract (next_uuid s1) now today ref2 rl (sre_counterparty_id top) (sre_sell_quote top)]"
    using run(2) ids(4) calculation(2) by (auto simp: get_rfq_row_def elim!: book_child_cases book_trade_cases)
  moreover have "contracts s' = contracts s2"
    using close_child_contracts[OF run(3)] close_child_contracts[OF run(4)] by (simp add: award_events_frame)
  ultimately show ?thesis by (simp add: pairs)
qed

lemma award_trade_contracts:
  assumes "award_trade s now today ref rfq actor = (s', Inr ())" and "resolve_awarded_quote s rfq = Inr (intent, pairs)"
    and "rq_intent rfq \<noteq> RI_spread" and "keyed qt_id (rfq_quotes s)"
  shows "\<exists>cs. contracts s' = contracts s @ cs \<and> map contract_terms cs = map approved_terms pairs"
proof -
  obtain rk q quote where rk: "trade_ranking s rfq = Inr rk" "top_trade rk = Inr q"
    and quote: "get_row qt_id (qt_id q) (rfq_quotes s) = Some quote" and pairs: "pairs = [(quote, rq_quantity_mt rfq)]"
    using assms(2,3) by (auto simp: resolve_awarded_quote_def)
  have "q \<in> set (rfq_quotes s)"
    using top_trade_best(1)[OF rk assms(4)] by (auto simp: is_latest_def active_quotes_def)
  then have "quote = q" using quote get_row_keyed[OF assms(4)] by simp
  moreover obtain s1 c where "book_trade now today ref rfq (qt_counterparty_id q) q s = Inr (s1, c)"
      "s' = award_events now actor (rq_id rfq) [qt_id q] [qt_counterparty_id q] (Trade_snapshot rk) [c] s1"
    using assms(1) rk unfolding award_trade_def by (elim txn_then_cases) (auto split: sum.splits)
  then have "contracts s' = contracts s @ [award_contract (next_uuid s) now today ref rfq (qt_counterparty_id q) q]"
    by (auto simp: award_events_frame elim!: book_trade_cases)
  ultimately show ?thesis by (simp add: pairs)
qed

lemma award_books_resolved:
  assumes "award_rfq s now today ref1 ref2 i actor = (s', Inr ())" and "get_rfq_row s i = Some rfq"
    and "resolve_awarded_quote s rfq = Inr (intent, pairs)" and "keyed qt_id (rfq_quotes s)"
  shows "\<exists>cs. contracts s' = contracts s @ cs \<and> map contract_terms cs = map approved_terms pairs"
proof (cases "rq_intent rfq = RI_spread")
  case True
  then have "award_spread s now today ref1 ref2 rfq actor = (s', Inr ())"
    using assms(1,2) by (auto simp: award_rfq_def txn_then_def split: sum.splits)
  then show ?thesis by (rule award_spread_contracts[OF _ assms(3) True])
next
  case False
  then have "award_trade s now today ref1 rfq actor = (s', Inr ())"
    using assms(1,2) by (auto simp: award_rfq_def txn_then_def split: sum.splits)
  then show ?thesis by (rule award_trade_contracts[OF _ assms(3) False assms(4)])
qed

section \<open>Properties\<close>

text \<open>The award gate. If the route answers 202, the quotes that would be awarded are worth more
  than the threshold, the caller is a risk manager, a stored award request of the caller is returned,
  and no contract and no request for quote has changed. If it awards, the contracts that it books
  carry exactly the quotes and quantities that were valued, and are together worth at most the
  threshold.\<close>

theorem award_gate:
  assumes "award_rfq_route cfg sha encode s now today ref1 ref2 u i = (s', Inr response)" and "keyed qt_id (rfq_quotes s)"
  shows "\<exists>rfq intent pairs. get_rfq_row s i = Some rfq \<and> resolve_awarded_quote s rfq = Inr (intent, pairs) \<and> (case response of
      GR_accepted row \<Rightarrow> workflow_approval_deal_threshold_usd cfg < award_notional pairs \<and> ''risk_manager'' \<in> actor_roles u
        \<and> row \<in> set (approvals s') \<and> wa_requested_by row = actor_sub u \<and> wa_mutation_type row = MT_deal_award
        \<and> contracts s' = contracts s \<and> rfqs s' = rfqs s
    | GR_done r \<Rightarrow> r = MR_award i \<and> approvals s' = approvals s \<and> (\<exists>cs. contracts s' = contracts s @ cs
        \<and> map contract_terms cs = map approved_terms pairs
        \<and> sum_list (map contract_value cs) \<le> workflow_approval_deal_threshold_usd cfg))"
proof -
  obtain rfq where rfq: "get_rfq_row s i = Some rfq" "rq_deleted_at rfq = None"
    using assms(1) by (auto simp: award_rfq_route_def txn_then_def split: sum.splits)
  obtain intent pairs where pairs: "resolve_awarded_quote s rfq = Inr (intent, pairs)"
    using assms(1) rfq by (auto simp: award_rfq_route_def txn_then_def split: sum.splits)
  obtain s1 out where ev: "evaluate_and_maybe_create cfg sha s now MT_deal_award (encode i (awarded_snapshot pairs)) (award_notional pairs)
      (actor_sub u) (client_host u) (x_session_id u) (correlation u) (idempotency_header u) (actor_roles u) = Inr (s1, out)"
    and rest: "(case out of Some row \<Rightarrow> (s1, Inr (GR_accepted row))
      | None \<Rightarrow> (case award_rfq s1 now today ref1 ref2 i (actor_sub u) of (s2, Inl e) \<Rightarrow> (s2, Inl e)
          | (s2, Inr _) \<Rightarrow> (s2, Inr (GR_done (MR_award i))))) = (s', Inr response)"
    using assms(1) rfq pairs by (auto simp: award_rfq_route_def txn_then_def split: sum.splits)
  from ev show ?thesis
  proof (cases rule: evaluate_cases)
    case below
    then have aw: "award_rfq s now today ref1 ref2 i (actor_sub u) = (s', Inr ())" and r: "response = GR_done (MR_award i)"
      using rest by (auto split: prod.splits sum.splits)
    obtain cs where "contracts s' = contracts s @ cs" "map contract_terms cs = map approved_terms pairs"
      using award_books_resolved[OF aw rfq(1) pairs assms(2)] by blast
    then show ?thesis
      using below(1) award_approvals[OF aw] rfq pairs contract_value_sum[of cs pairs] by (simp add: r approvals_frame_def)
  next
    case (replayed row)
    then show ?thesis using rest rfq pairs by auto
  next
    case (created row)
    then show ?thesis using rest rfq pairs by auto
  qed
qed

lemma award_accepted:
  assumes "award_rfq_route cfg sha encode s now today ref1 ref2 u i = (s', Inr (GR_accepted row))"
  obtains rfq intent pairs where "get_rfq_row s i = Some rfq" "resolve_awarded_quote s rfq = Inr (intent, pairs)"
    "evaluate_and_maybe_create cfg sha s now MT_deal_award (encode i (awarded_snapshot pairs)) (award_notional pairs)
      (actor_sub u) (client_host u) (x_session_id u) (correlation u) (idempotency_header u) (actor_roles u) = Inr (s', Some row)"
proof -
  obtain rfq where rfq: "get_rfq_row s i = Some rfq" "rq_deleted_at rfq = None"
    using assms by (auto simp: award_rfq_route_def txn_then_def split: sum.splits)
  obtain intent pairs where pairs: "resolve_awarded_quote s rfq = Inr (intent, pairs)"
    using assms rfq by (auto simp: award_rfq_route_def txn_then_def split: sum.splits)
  show ?thesis
    using assms rfq pairs by (intro that[OF rfq(1) pairs])
      (auto simp: award_rfq_route_def txn_then_def split: sum.splits option.splits prod.splits)
qed

definition snapshot_term :: "uuid \<times> decimal \<times> decimal \<Rightarrow> uuid option \<times> decimal option \<times> decimal" where
  "snapshot_term e = (case e of (quote_id, price, quantity_mt) \<Rightarrow> (Some quote_id, Some price, quantity_mt))"

lemma consume_award_books:
  assumes "consume_request sha s now k actor data (award_executor decode k actor now today ref1 ref2) = Inr (s', r)"
    and "keyed qt_id (rfq_quotes s)"
  obtains i snapshot cs where "decode data = Inr (i, snapshot)" "r = MR_award i" "contracts s' = contracts s @ cs"
    "mset (map contract_terms cs) = mset (map snapshot_term snapshot)"
proof -
  obtain s4 where ex: "award_executor decode k actor now today ref1 ref2 data s = Inr (s4, r)" and c: "contracts s' = contracts s4"
    using assms(1) by (auto simp: consume_request_def Let_def write_approval_def)
  obtain i snapshot rfq intent pairs s5 where aw: "decode data = Inr (i, snapshot)" "get_rfq_row s i = Some rfq"
      "resolve_awarded_quote s rfq = Inr (intent, pairs)" "awarded_snapshot pairs = snapshot"
      "award_rfq s now today ref1 ref2 i actor = (s5, Inr ())" "contracts s4 = contracts s5" "r = MR_award i"
    using ex by (rule award_executor_Inr) simp
  obtain cs where cs: "contracts s5 = contracts s @ cs" "map contract_terms cs = map approved_terms pairs"
    using award_books_resolved[OF aw(5,2,3) assms(2)] by blast
  have "mset (map contract_terms cs) = mset (map snapshot_term snapshot)"
    using snapshot_terms[of pairs] unfolding aw(4) cs(2) snapshot_term_def by (rule sym)
  moreover have "contracts s' = contracts s @ cs" using cs(1) aw(6) c by simp
  ultimately show ?thesis using that aw(1,7) by blast
qed

text \<open>C35: An award through an approval, end to end. In any state that the approval service can be
  in, an award is requested above the threshold and answered with a request; then anything may
  happen, new quotes included; then that request is consumed. It was granted by somebody else
  than the requester, who alone can consume it, and the contracts booked carry exactly the quotes,
  prices and quantities of the stored text. When the request is new, these are the ones that were
  resolved when it was made, for the request for quote asked for. The other case is a call that repeats an
  idempotency key: it is answered with the stored request that has the caller's key, and what is
  booked is what that one approved (for a hash without collisions and an encoding that can be
  decoded).\<close>

theorem award_through_approval:
  assumes "approvals s0 = []" and "(approval_step sha)\<^sup>*\<^sup>* s0 s"
    and "award_rfq_route cfg sha encode s now today ref1 ref2 u i = (s1, Inr (GR_accepted row))"
    and "(approval_step sha)\<^sup>*\<^sup>* s1 s2" and "keyed qt_id (rfq_quotes s2)"
    and "consume_request sha s2 now' (wa_id row) actor data
           (award_executor decode (wa_id row) actor now' today' ref1' ref2') = Inr (s3, r)"
    and "\<And>x y. sha x = sha y \<Longrightarrow> x = y" and "\<And>rfq intent pairs. get_rfq_row s i = Some rfq \<Longrightarrow> resolve_awarded_quote s rfq = Inr (intent, pairs) \<Longrightarrow>
           decode (encode i (awarded_snapshot pairs)) = Inr (i, awarded_snapshot pairs)"
  shows "actor = actor_sub u
    \<and> (\<exists>row' approver. get_row wa_id (wa_id row) (approvals s2) = Some row' \<and> wa_approved_by row' = Some approver \<and> approver \<noteq> actor)
    \<and> data = wa_mutation_payload_canonical row \<and> wa_requested_by row = actor \<and> wa_mutation_type row = MT_deal_award
    \<and> (\<exists>i0 snapshot cs. decode data = Inr (i0, snapshot) \<and> r = MR_award i0 \<and> contracts s3 = contracts s2 @ cs
         \<and> mset (map contract_terms cs) = mset (map snapshot_term snapshot)
         \<and> (if row \<in> set (approvals s) then idempotency_header u \<noteq> None \<and> wa_idempotency_key row = idempotency_header u
            else i0 = i \<and> (\<exists>rfq intent pairs. get_rfq_row s i = Some rfq \<and> resolve_awarded_quote s rfq = Inr (intent, pairs)
              \<and> snapshot = awarded_snapshot pairs \<and> mset (map contract_terms cs) = mset (map approved_terms pairs))))"
proof -
  have inv: "approvals_inv sha s" using approval_run_inv[OF assms(2) approvals_inv_empty[OF assms(1)]] by simp
  obtain rfq intent pairs where q: "get_rfq_row s i = Some rfq" "resolve_awarded_quote s rfq = Inr (intent, pairs)"
    and ev: "evaluate_and_maybe_create cfg sha s now MT_deal_award (encode i (awarded_snapshot pairs)) (award_notional pairs)
      (actor_sub u) (client_host u) (x_session_id u) (correlation u) (idempotency_header u) (actor_roles u) = Inr (s1, Some row)"
    using assms(3) by (rule award_accepted)
  note req = accepted_request[OF ev inv]
  note used = award_exec.consumed_request[OF req(2,3) assms(4,6,7)]
  obtain i0 snapshot cs where books: "decode data = Inr (i0, snapshot)" "r = MR_award i0" "contracts s3 = contracts s2 @ cs"
      "mset (map contract_terms cs) = mset (map snapshot_term snapshot)"
    using assms(6,5) by (rule consume_award_books)
  have "mset (map snapshot_term (awarded_snapshot pairs)) = mset (map approved_terms pairs)"
    using snapshot_terms[of pairs] unfolding snapshot_term_def .
  then have "if row \<in> set (approvals s) then idempotency_header u \<noteq> None \<and> wa_idempotency_key row = idempotency_header u
      else i0 = i \<and> snapshot = awarded_snapshot pairs \<and> mset (map contract_terms cs) = mset (map approved_terms pairs)"
    using req(6) used(1) books(1,4) assms(8)[OF q] by (auto split: if_splits)
  with books used req(4,5) q show ?thesis by (auto split: if_splits)
qed

section \<open>A concrete award\<close>

text \<open>The quoted request of the examples, in a house where every award above 1 000 USD needs an
  approval: Ana asks, Bruno grants, Ana consumes.\<close>

definition award_ready :: db where
  "award_ready = (fst rfq_quoted)\<lparr>policies := POLICY_SEED\<rparr>"

definition strict_settings :: approval_settings where
  "strict_settings = \<lparr>workflow_approval_deal_threshold_usd = 1000, workflow_approval_settle_threshold_usd = 1000\<rparr>"

definition award_encode :: "uuid \<Rightarrow> awarded_quotes \<Rightarrow> string" where
  "award_encode i quotes = ''award''"

definition award_decode :: "string \<Rightarrow> (uuid \<times> awarded_quotes) result" where
  "award_decode data = Inr (5, [(9, 9000, 10)])"

definition award_row :: WorkflowApprovalRequest where
  "award_row = \<lparr>wa_id = next_uuid award_ready, wa_mutation_type = MT_deal_award, wa_status = AS_pending,
     wa_requested_by = ''ana'', wa_approved_by = None, wa_threshold_at_request = 90000,
     wa_threshold_config_value = 1000, wa_threshold_dimension = TD_notional_usd,
     wa_mutation_payload_canonical = ''award'', wa_mutation_payload_hash = ''award'', wa_correlation_id = 70,
     wa_idempotency_key = None, wa_created_at = 3, wa_expires_at = 3 + EXPIRY_BY_MUTATION_TYPE MT_deal_award, wa_consumed_at = None,
     wa_approver_ip = None, wa_approver_session_id = None, wa_rejection_reason_code = None,
     wa_rejection_reason_text = None\<rparr>"

definition award_requested :: db where
  "award_requested = emit_audit_event award_row ''workflow_approval_requested'' None None None None None 3
     (award_ready\<lparr>approvals := [award_row], next_uuid := Suc (next_uuid award_ready)\<rparr>)"

definition award_granted_row :: WorkflowApprovalRequest where
  "award_granted_row = award_row\<lparr>wa_status := AS_approved, wa_approved_by := Some ''bruno''\<rparr>"

definition award_granted :: db where
  "award_granted = emit_audit_event award_granted_row ''workflow_approval_granted'' (Some AS_pending) (Some ''bruno'') None None None 5
     (award_requested\<lparr>approvals := [award_granted_row]\<rparr>)"

lemma award_ready_approvals [simp]: "approvals award_ready = []"
proof -
  obtain r where "rfq_sent = (fst rfq_sent, r)" by (metis prod.collapse)
  then have "approvals_frame two_brokers_db (fst rfq_sent)" unfolding rfq_sent_def by (rule gate.post_rfq_view)
  moreover obtain q where "rfq_quoted_once = (fst rfq_quoted_once, q)" by (metis prod.collapse)
  then have "approvals_frame (fst rfq_sent) (fst rfq_quoted_once)" unfolding rfq_quoted_once_def by (rule gate.submit_quote_view)
  moreover obtain q' where "rfq_quoted = (fst rfq_quoted, q')" by (metis prod.collapse)
  then have "approvals_frame (fst rfq_quoted_once) (fst rfq_quoted)" unfolding rfq_quoted_def by (rule gate.submit_quote_view)
  ultimately show ?thesis by (simp add: approvals_frame_def award_ready_def two_brokers_db_def empty_db_def)
qed

lemma award_states:
  assumes "s \<in> {award_ready, award_requested, award_granted}"
  shows "rfqs s = [sample_rfq\<lparr>rq_state := RS_quoted\<rparr>]" "contracts s = []" "counterparties s = counterparties two_brokers_db"
    "rfq_quotes s = rfq_quotes (fst rfq_quoted)" "policies s = POLICY_SEED"
  using assms by (auto simp: award_granted_def award_requested_def award_ready_def sample_quoted emit_audit_event_def)

lemma award_quotes:
  assumes "s \<in> {award_ready, award_requested, award_granted}"
  obtains q0 where "qt_id q0 = 9" "qt_fixed_price_value q0 = 9000" "keyed qt_id (rfq_quotes s)"
    "get_rfq_row s 5 = Some (sample_rfq\<lparr>rq_state := RS_quoted\<rparr>)"
    "resolve_awarded_quote s (sample_rfq\<lparr>rq_state := RS_quoted\<rparr>) = Inr (RI_global_position, [(q0, 10)])"
    "\<forall>now today ref2 actor. \<exists>s'. award_rfq s now today ''HC-1'' ref2 5 actor = (s', Inr ())"
proof -
  obtain q0 q1 where q: "rfq_quotes s = [q0, q1]" "qt_fixed_price_value q0 = 9000" "qt_fixed_price_value q1 = 9010"
      "qt_counterparty_id q0 = 0" "qt_counterparty_id q1 = Suc 0" "qt_id q0 = 9" "qt_id q0 < qt_id q1"
      "\<forall>q \<in> {q0, q1}. qt_rfq_id q = 5 \<and> qt_state q = QS_active \<and> qt_fixed_price_unit q = ''USD/MT''"
    using sample_quoted(1) unfolding award_states(4)[OF assms] by blast
  have "qt_id q0 \<noteq> qt_id q1" using q(7) by simp
  note aw = sample_award_at[OF award_states(1-3)[OF assms] q(1-5,8) this]
  have "\<forall>now today ref2 actor. \<exists>s'. award_rfq s now today ''HC-1'' ref2 5 actor = (s', Inr ())" using aw(2) by blast
  moreover have "get_rfq_row s 5 = Some (sample_rfq\<lparr>rq_state := RS_quoted\<rparr>)"
    by (simp add: get_rfq_row_def award_states(1)[OF assms])
  moreover have "keyed qt_id (rfq_quotes s)" using q(1,7) by (simp add: keyed_def)
  ultimately show ?thesis using that q(2,6) aw(1) by blast
qed

lemma award_snapshot_sample: "qt_id q0 = 9 \<Longrightarrow> qt_fixed_price_value q0 = 9000 \<Longrightarrow> awarded_snapshot [(q0, 10)] = [(9, 9000, 10)]"
  by (simp add: awarded_snapshot_def)

lemma sample_award_requested:
  "award_rfq_route strict_settings (\<lambda>x. x) award_encode award_ready 3 (Date 2026 3 12) ''HC-1'' ''HC-2'' sample_requester 5
     = (award_requested, Inr (GR_accepted award_row))"
proof -
  have s: "award_ready \<in> {award_ready, award_requested, award_granted}" by simp
  obtain q0 where q: "qt_id q0 = 9" "qt_fixed_price_value q0 = 9000"
    "get_rfq_row award_ready 5 = Some (sample_rfq\<lparr>rq_state := RS_quoted\<rparr>)"
    "resolve_awarded_quote award_ready (sample_rfq\<lparr>rq_state := RS_quoted\<rparr>) = Inr (RI_global_position, [(q0, 10)])"
    by (rule award_quotes[OF s])
  have "evaluate_and_maybe_create strict_settings (\<lambda>x. x) award_ready 3 MT_deal_award ''award'' 90000 ''ana'' None None 70 None {''risk_manager''}
     = Inr (award_requested, Some award_row)"
    using award_states(5)[OF s]
    by (simp add: evaluate_and_maybe_create_def strict_settings_def get_policy_def POLICY_SEED_def award_requested_def)
      (simp add: award_row_def Let_def)
  moreover have "award_notional [(q0, 10)] = 90000" using q by (simp add: award_notional_def)
  moreover have "get_live award_ready 5 = Inr (sample_rfq\<lparr>rq_state := RS_quoted\<rparr>)" using q by simp
  ultimately show ?thesis
    using q by (simp add: award_rfq_route_def txn_then_def sample_requester_def award_encode_def del: get_live_Inr)
qed

lemma sample_award_granted:
  "grant_request award_requested 5 (wa_id award_row) ''bruno'' {''risk_manager''} None None = Inr award_granted"
proof -
  have "get_row wa_id (wa_id award_row) (approvals award_requested) = Some award_row"
    by (simp add: award_requested_def)
  moreover have "get_policy award_requested MT_deal_award = Inr (POLICY_SEED ! 1)"
    using award_states(5)[of award_requested] by (simp add: get_policy_def POLICY_SEED_def)
  ultimately show ?thesis
    by (simp add: grant_request_def load_for_update_def award_row_def reject_if_expired_def check_approver_def POLICY_SEED_def
        award_granted_def award_granted_row_def write_approval_def award_requested_def hours_def)
qed

lemma sample_award_consumed:
  "\<exists>s3 r. consume_request (\<lambda>x. x) award_granted 6 (wa_id award_row) ''ana'' ''award''
     (award_executor award_decode (wa_id award_row) ''ana'' 6 (Date 2026 3 12) ''HC-1'' ''HC-2'') = Inr (s3, r)"
proof -
  have s: "award_granted \<in> {award_ready, award_requested, award_granted}" by simp
  obtain q0 where q: "qt_id q0 = 9" "qt_fixed_price_value q0 = 9000"
    "get_rfq_row award_granted 5 = Some (sample_rfq\<lparr>rq_state := RS_quoted\<rparr>)"
    "resolve_awarded_quote award_granted (sample_rfq\<lparr>rq_state := RS_quoted\<rparr>) = Inr (RI_global_position, [(q0, 10)])"
    "\<forall>now today ref2 actor. \<exists>s'. award_rfq award_granted now today ''HC-1'' ref2 5 actor = (s', Inr ())"
    by (rule award_quotes[OF s])
  obtain s' where aw: "award_rfq award_granted 6 (Date 2026 3 12) ''HC-1'' ''HC-2'' 5 ''ana'' = (s', Inr ())" using q(5) by blast
  have ex: "\<exists>s4. award_executor award_decode (wa_id award_row) ''ana'' 6 (Date 2026 3 12) ''HC-1'' ''HC-2'' ''award'' award_granted = Inr (s4, MR_award 5)"
    using q(1-4) aw award_snapshot_sample[OF q(1,2)] by (simp add: award_executor_def award_decode_def)
  have "get_row wa_id (wa_id award_row) (approvals award_granted) = Some award_granted_row"
    by (simp add: award_granted_def award_granted_row_def)
  then show ?thesis
    using ex by (auto simp: consume_request_def load_for_update_def award_granted_row_def award_row_def reject_if_expired_def hours_def Let_def)
qed

section \<open>Witnesses\<close>

theorem award_gate_witness:
  "\<exists>s' row. award_rfq_route strict_settings (\<lambda>x. x) award_encode award_ready 3 (Date 2026 3 12) ''HC-1'' ''HC-2'' sample_requester 5
     = (s', Inr (GR_accepted row)) \<and> row \<in> set (approvals s') \<and> contracts s' = []"
proof -
  have s: "award_ready \<in> {award_ready, award_requested, award_granted}" by simp
  obtain q0 :: RFQQuote where k: "keyed qt_id (rfq_quotes award_ready)" by (rule award_quotes[OF s])
  from award_gate[OF sample_award_requested k] sample_award_requested award_states(2)[OF s] show ?thesis by auto
qed

theorem award_through_approval_witness:
  "\<exists>s3 r c. consume_request (\<lambda>x. x) award_granted 6 (wa_id award_row) ''ana'' ''award''
       (award_executor award_decode (wa_id award_row) ''ana'' 6 (Date 2026 3 12) ''HC-1'' ''HC-2'') = Inr (s3, r)
     \<and> contracts s3 = [c] \<and> contract_terms c = (Some 9, Some 9000, 10)"
proof -
  have s: "award_ready \<in> {award_ready, award_requested, award_granted}" "award_granted \<in> {award_ready, award_requested, award_granted}" by simp_all
  obtain q0 where q: "qt_id q0 = 9" "qt_fixed_price_value q0 = 9000"
    "get_rfq_row award_ready 5 = Some (sample_rfq\<lparr>rq_state := RS_quoted\<rparr>)"
    "resolve_awarded_quote award_ready (sample_rfq\<lparr>rq_state := RS_quoted\<rparr>) = Inr (RI_global_position, [(q0, 10)])"
    by (rule award_quotes[OF s(1)])
  obtain q1 :: RFQQuote where k: "keyed qt_id (rfq_quotes award_granted)" by (rule award_quotes[OF s(2)])
  obtain s3 r where c: "consume_request (\<lambda>x. x) award_granted 6 (wa_id award_row) ''ana'' ''award''
       (award_executor award_decode (wa_id award_row) ''ana'' 6 (Date 2026 3 12) ''HC-1'' ''HC-2'') = Inr (s3, r)"
    using sample_award_consumed by blast
  have run: "(approval_step (\<lambda>x. x))\<^sup>*\<^sup>* award_requested award_granted"
    using approval_step.granted[OF sample_award_granted] by blast
  have dec: "award_decode (award_encode 5 (awarded_snapshot pairs)) = Inr (5, awarded_snapshot pairs)"
    if "get_rfq_row award_ready 5 = Some rfq" "resolve_awarded_quote award_ready rfq = Inr (intent, pairs)" for rfq intent pairs
    using that q award_snapshot_sample[OF q(1,2)] by (simp add: award_decode_def award_encode_def)
  note th = award_through_approval[OF award_ready_approvals rtranclp.rtrancl_refl sample_award_requested run k c]
  have "\<exists>i0 snapshot cs. award_decode ''award'' = Inr (i0, snapshot) \<and> r = MR_award i0 \<and> contracts s3 = contracts award_granted @ cs
      \<and> mset (map contract_terms cs) = mset (map snapshot_term snapshot)
      \<and> (if award_row \<in> set (approvals award_ready)
          then idempotency_header sample_requester \<noteq> None \<and> wa_idempotency_key award_row = idempotency_header sample_requester
          else i0 = 5 \<and> (\<exists>rfq intent pairs. get_rfq_row award_ready 5 = Some rfq
             \<and> resolve_awarded_quote award_ready rfq = Inr (intent, pairs) \<and> snapshot = awarded_snapshot pairs
             \<and> mset (map contract_terms cs) = mset (map approved_terms pairs)))"
    by (rule conjunct2[OF conjunct2[OF conjunct2[OF conjunct2[OF conjunct2[OF th]]]]]) (simp, rule dec)
  then obtain rfq intent pairs cs where r: "get_rfq_row award_ready 5 = Some rfq" "resolve_awarded_quote award_ready rfq = Inr (intent, pairs)"
      and cs: "contracts s3 = contracts award_granted @ cs" "mset (map contract_terms cs) = mset (map approved_terms pairs)"
    by auto
  have "pairs = [(q0, 10)]" using r q by simp
  then have "mset (map contract_terms cs) = {#approved_terms (q0, 10)#}" using cs(2) by simp
  then have "map contract_terms cs = [approved_terms (q0, 10)]" by (simp only: mset_single_iff)
  moreover note cs(1)
  ultimately have "\<exists>c'. contracts s3 = [c'] \<and> contract_terms c' = (Some 9, Some 9000, 10)"
    using award_states(2)[OF s(2)] q by (auto simp: approved_terms_def)
  with c show ?thesis by blast
qed

end
