(* ===== verification/RFQ_Outbox.thy ===== *)
theory RFQ_Outbox
  imports RFQ_Examples
begin

text \<open>
  The outbox of a new request for quote: what goes out is what was stored before anything was
  sent, under the number of the request, to counterparties that may be asked.
\<close>

section \<open>The number of the request in a message\<close>

definition carries_number :: "string \<Rightarrow> string \<Rightarrow> bool" where
  "carries_number number body \<longleftrightarrow> starts_with (''RFQ#'' @ number) (lstrip body)"

lemma prefix_carries_number: "carries_number number (prefix_with_canonical_id body number)"
  by (simp add: carries_number_def prefix_with_canonical_id_def lstrip_def is_space_def Let_def starts_with_def)

section \<open>Queued rows\<close>

text \<open>What a row queued for an invited counterparty looks like.\<close>

definition invites :: "db \<Rightarrow> RFQ \<Rightarrow> uuid \<Rightarrow> RFQInvitation \<Rightarrow> bool" where
  "invites s rfq cpid row \<longleftrightarrow> (\<exists>cp. get_counterparty_row s cpid = Some cp \<and> \<not> cp_is_deleted cp \<and> cp_kyc_status cp = KYC_approved
     \<and> inv_counterparty_id row = cpid \<and> inv_rfq_id row = rq_id rfq \<and> inv_send_status row = IS_queued
     \<and> Some (inv_recipient_phone row) = text_of cp ''whatsapp_phone'' \<and> carries_number (rq_rfq_number rfq) (inv_message_body row))"

lemma queue_invitations_rows:
  assumes "queue_invitations show_dec s now actor rfq cpids rows = (c, Inr rows')"
  shows "\<exists>new. rows' = rows @ new \<and> list_all2 (invites s rfq) cpids new
    \<and> map inv_id new = [Suc (rq_id rfq) + length rows ..< Suc (rq_id rfq) + length rows + length new]"
  using assms
proof (induction cpids arbitrary: rows)
  case Nil
  then show ?case by simp
next
  case (Cons cpid cpids)
  obtain cp phone cp' where cp: "get_counterparty_row s cpid = Some cp" and phone: "text_of cp ''whatsapp_phone'' = Some phone"
    and kyc: "assert_kyc_approved s cpid GP_rfq_invitation (Some actor) (Some (rq_id rfq))
         [(''attempted_purpose'', Some (AStr ''rfq_invite''))] = (s, Inr cp')"
    and rest: "queue_invitations show_dec s now actor rfq cpids
       (rows @ [queued_row (Suc (rq_id rfq) + length rows) rfq cpid (recipient_name_of cp) phone
          (invitation_body show_dec rfq cp) IP_rfq_invite (Msg ''{}:{}'' [AStr (rq_rfq_number rfq), AId cpid]) now]) = (c, Inr rows')"
    using Cons.prems unfolding queue_invitations.simps
    by (elim txn_then_cases) (auto elim!: assert_kyc_cases)
  let ?row = "queued_row (Suc (rq_id rfq) + length rows) rfq cpid (recipient_name_of cp) phone
          (invitation_body show_dec rfq cp) IP_rfq_invite (Msg ''{}:{}'' [AStr (rq_rfq_number rfq), AId cpid]) now"
  have ok: "\<not> cp_is_deleted cp" "cp_kyc_status cp = KYC_approved"
    using kyc cp by (auto elim!: assert_kyc_cases)
  obtain new where new: "rows' = rows @ ?row # new" "list_all2 (invites s rfq) cpids new"
    "map inv_id new = [Suc (rq_id rfq) + Suc (length rows) ..< Suc (rq_id rfq) + Suc (length rows) + length new]"
    using Cons.IH[OF rest] by auto
  have "invites s rfq cpid ?row"
    using cp ok phone by (simp add: invites_def queued_row_def invitation_body_def prefix_carries_number Let_def)
  moreover have "map inv_id (?row # new) = [Suc (rq_id rfq) + length rows ..< Suc (rq_id rfq) + length rows + length (?row # new)]"
    using new(3) by (simp add: queued_row_def upt_conv_Cons del: upt_Suc)
  ultimately show ?case using new(1,2) by (intro exI[of _ "?row # new"]) simp
qed

section \<open>Sending\<close>

lemma after_send_simps [simp]:
  "inv_id (after_send res now row) = inv_id row" "inv_rfq_id (after_send res now row) = inv_rfq_id row"
  "inv_send_status (after_send res now row) = (if ws_success res then IS_sent else IS_failed)"
  by (simp_all add: after_send_def)

definition wire_of :: "RFQInvitation \<Rightarrow> string \<times> string" where
  "wire_of row = (inv_recipient_phone row, inv_message_body row)"

definition delivered :: "sender \<Rightarrow> datetime \<Rightarrow> RFQInvitation \<Rightarrow> RFQInvitation" where
  "delivered send now row = after_send (send (inv_recipient_phone row) (inv_message_body row)) now row"

lemma delivered_simps [simp]:
  "inv_id (delivered send now row) = inv_id row" "inv_rfq_id (delivered send now row) = inv_rfq_id row"
  by (simp_all add: delivered_def)

lemma update_row_skip: "k \<notin> key ` set rows \<Longrightarrow> update_row key k f rows = rows"
  by (force simp: update_row_def intro: map_idI)

lemma update_row_at: "k \<notin> key ` set old \<Longrightarrow> k \<notin> key ` set rows \<Longrightarrow> key row = k \<Longrightarrow> update_row key k f (old @ row # rows) = old @ f row # rows"
  using update_row_skip[of k key old f] update_row_skip[of k key rows f] by (simp add: update_row_def)

lemma send_rows_result:
  assumes "rfq_invitations s = old @ rows" and "distinct (map inv_id rows)" and "inv_id ` set rows \<inter> inv_id ` set old = {}"
  shows "\<exists>s'. fold (send_row send now) rows (s, sent) = (s', sent @ map wire_of rows)
    \<and> s' = s\<lparr>rfq_invitations := old @ map (delivered send now) rows\<rparr>"
  using assms
proof (induction rows arbitrary: s old sent)
  case Nil
  then show ?case by simp
next
  case (Cons row rows)
  let ?s = "s\<lparr>rfq_invitations := (old @ [delivered send now row]) @ rows\<rparr>"
  have step: "send_row send now row (s, sent) = (?s, sent @ [wire_of row])"
    using Cons.prems update_row_at[of "inv_id row" inv_id old rows row "after_send (send (inv_recipient_phone row) (inv_message_body row)) now"]
    by (simp add: send_row_def Let_def wire_of_def delivered_def)
  have IH: "\<exists>s'. fold (send_row send now) rows (?s, sent @ [wire_of row]) = (s', (sent @ [wire_of row]) @ map wire_of rows)
    \<and> s' = ?s\<lparr>rfq_invitations := (old @ [delivered send now row]) @ map (delivered send now) rows\<rparr>"
    using Cons.prems by (intro Cons.IH) auto
  show ?case using IH by (simp add: step)
qed

section \<open>Properties\<close>

text \<open>The identifiers in the tables have been issued.\<close>

definition outbox_wf :: "db \<Rightarrow> bool" where
  "outbox_wf s \<longleftrightarrow> (\<forall>inv \<in> set (rfq_invitations s). inv_id inv < next_uuid s \<and> inv_rfq_id inv < next_uuid s)
     \<and> (\<forall>r \<in> set (rfqs s). rq_id r < next_uuid s)"

lemma run_checkpoint_rfq [simp]:
  "rfq_invitations (run_checkpoint ck i s) = rfq_invitations s" "rfqs (run_checkpoint ck i s) = rfqs s"
  by (auto simp: run_checkpoint_def split: option.split)

lemma list_all2_invites_rfq: "list_all2 (invites s rfq) cpids rows \<Longrightarrow> row \<in> set rows \<Longrightarrow> inv_rfq_id row = rq_id rfq"
  by (induction rule: list_all2_induct) (auto simp: invites_def)

text \<open>The outbox comes first. When a request for quote is created, the first phase has committed one
  queued row for each invited counterparty, in order, each of them approved, not deleted and
  with a phone number, under a body that carries the number of the request; what then goes on the
  wire is exactly these bodies to these numbers, each row records the outcome of its own
  message, and the request is SENT exactly if some message went out.\<close>

theorem post_rfq_outbox:
  assumes "post_rfq show_dec send ck s now today p actor = (s', Inr (i, sent))" and "outbox_wf s"
  shows "\<exists>rfq rows c. create_phase1 show_dec ck s now today p actor = (c, Inr (rfq, rows)) \<and> rq_id rfq = i
    \<and> rfq_invitations c = rfq_invitations s @ rows \<and> list_all2 (invites s rfq) (rc_invitations p) rows
    \<and> sent = map wire_of rows \<and> rfq_invitations s' = rfq_invitations s @ map (delivered send now) rows
    \<and> map_option rq_state (get_rfq_row s' i) =
        Some (if \<exists>row \<in> set rows. inv_send_status (delivered send now row) = IS_sent then RS_sent else RS_created)"
proof -
  have run: "create_rfq show_dec send ck s now today p actor = (s', Inr (i, sent))"
    using assms(1) by (auto simp: post_rfq_def txn_then_def split: sum.splits)
  obtain c r where ph: "create_phase1 show_dec ck s now today p actor = (c, r)" by fastforce
  from ph show ?thesis
  proof (cases rule: rqv.create_phase1_cases)
    case (raised e)
    with run ph show ?thesis by (simp add: create_rfq_def)
  next
    case (queued rfq rows snapshot)
    have rows: "list_all2 (invites s rfq) (rc_invitations p) rows" "map inv_id rows = [Suc (rq_id rfq) ..< Suc (rq_id rfq) + length rows]"
      using queue_invitations_rows[OF queued(3)] by auto
    have id: "rq_id rfq = next_uuid s" by (simp add: queued(2))
    have c: "rfq_invitations c = rfq_invitations s @ rows" "rfqs c = rfqs s @ [rfq]" by (simp_all add: queued(4))
    have "next_uuid s < inv_id row" if "row \<in> set rows" for row
    proof -
      have "inv_id row \<in> set (map inv_id rows)" using that by simp
      then show ?thesis unfolding rows(2) by (auto simp add: id)
    qed
    moreover have "distinct (map inv_id rows)" unfolding rows(2) by simp
    ultimately obtain s2 where s2: "fold (send_row send now) rows (c, []) = (s2, map wire_of rows)"
        "s2 = c\<lparr>rfq_invitations := rfq_invitations s @ map (delivered send now) rows\<rparr>"
      using send_rows_result[OF c(1), of send now "[]"] assms(2) by (force simp: outbox_wf_def)
    have s': "s' = mark_sent now actor i s2" and i: "i = rq_id rfq" "sent = map wire_of rows"
      using run ph queued(1) s2(1) by (auto simp: create_rfq_def)
    have old: "inv_rfq_id inv \<noteq> i" if "inv \<in> set (rfq_invitations s)" for inv
      using assms(2) that by (auto simp: outbox_wf_def i id)
    have "list_ex (\<lambda>inv. inv_rfq_id inv = i \<and> inv_send_status inv = IS_sent) (rfq_invitations s2)
        \<longleftrightarrow> (\<exists>row \<in> set rows. inv_send_status (delivered send now row) = IS_sent)"
      using old list_all2_invites_rfq[OF rows(1)] by (simp add: s2(2) list_ex_iff bex_Un i cong: bex_cong_simp)
    moreover have "get_rfq_row s2 i = Some rfq" "rq_state rfq = RS_created"
      using get_row_None_iff[of rq_id i "rfqs s"] assms(2) c(2)
      by (auto simp: get_rfq_row_def s2(2) get_row_append i id outbox_wf_def queued(2))
    ultimately have "map_option rq_state (get_rfq_row s' i) =
        Some (if \<exists>row \<in> set rows. inv_send_status (delivered send now row) = IS_sent then RS_sent else RS_created)"
      by (simp add: s' mark_sent_def get_rfq_row_def table_simps)
    moreover have "rfq_invitations s' = rfq_invitations s @ map (delivered send now) rows"
      by (simp add: s' mark_sent_def s2(2) add_event_def write_rfq_def)
    ultimately show ?thesis using ph queued(1) c(1) rows(1) i by auto
  qed
qed

theorem post_rfq_outbox_witness:
  "\<exists>sent. snd rfq_sent = Inr (5, sent) \<and> map (inv_recipient_phone) (rfq_invitations (fst rfq_sent)) = [''+5511'', ''+5511'']
     \<and> length sent = 2 \<and> (\<forall>(phone, body) \<in> set sent. carries_number (rq_rfq_number sample_rfq) body)"
proof -
  obtain sent where sent: "snd rfq_sent = Inr (5, sent)" using rfq_sent_facts(1) by blast
  then have run: "post_rfq (\<lambda>_. ''10'') ok_sender None two_brokers_db 0 (Date 2026 3 11) sample_rfq_payload ''ana'' = (fst rfq_sent, Inr (5, sent))"
    unfolding rfq_sent_def by (metis prod.collapse)
  have "outbox_wf two_brokers_db" by (simp add: outbox_wf_def)
  from post_rfq_outbox[OF run this] obtain rows where rows: "rows = [sample_invitation 0, sample_invitation (Suc 0)]"
      "sent = map wire_of rows" "rfq_invitations (fst rfq_sent) = map (delivered ok_sender 0) rows"
      "list_all2 (invites two_brokers_db sample_rfq) (rc_invitations sample_rfq_payload) rows"
    by (auto simp: sample_phase1)
  have "carries_number (rq_rfq_number sample_rfq) (inv_message_body row)" if "row \<in> set rows" for row
    using rows(4) that by (auto simp: list_all2_conv_all_nth in_set_conv_nth invites_def)
  moreover have "inv_recipient_phone (delivered ok_sender 0 row) = inv_recipient_phone row" for row
    by (simp add: delivered_def after_send_def)
  moreover have "inv_recipient_phone (sample_invitation j) = ''+5511''" for j
    by (simp add: sample_invitation_def queued_row_def)
  ultimately show ?thesis using sent by (auto simp: rows(2,3) wire_of_def) (auto simp: rows(1))
qed

end
