(* ===== verification/Provenance.thy ===== *)
theory Provenance
  imports HC_Decimal HC_Dates
begin

text \<open>
  \<open>backend/app/utils/provenance.py\<close>: the fingerprint of the inputs a snapshot was computed from. A
  JSON document is a value of \<open>json\<close>; numbers, identifiers and dates occur in it as the text
  Python prints for them, kept as the value that text determines. \<open>json.dumps\<close> and
  \<open>hashlib.sha256\<close> are parameters. The database is a parameter too where it matters: a
  \<open>NUMERIC(18,6)\<close> column keeps the nearest multiple of a millionth, which is the interface
  \<open>quantizer (1 / 1000000)\<close>.
\<close>

datatype json = JStr string | JDec rat | JId uuid | JDate date | JNat nat | JNull | JList "json list" | JObj "(string \<times> json) list"

record fingerprint =
  fp_dumps :: "json \<Rightarrow> string"
  fp_sha256 :: "string \<Rightarrow> string"

definition sha256_json :: "fingerprint \<Rightarrow> json \<Rightarrow> string" where
  "sha256_json k payload = fp_sha256 k (fp_dumps k payload)"

fun json_option :: "('a \<Rightarrow> json) \<Rightarrow> 'a option \<Rightarrow> json" where
  "json_option f None = JNull"
| "json_option f (Some x) = f x"

text \<open>Two documents with one fingerprint are equal: \<open>json.dumps\<close> with sorted keys and SHA-256 do not collide.\<close>

definition collision_free :: "fingerprint \<Rightarrow> bool" where
  "collision_free k \<longleftrightarrow> (\<forall>x y. sha256_json k x = sha256_json k y \<longrightarrow> x = y)"

end
