(* ===== verification/Snapshot_Store.thy ===== *)
theory Snapshot_Store
  imports HC_Models
begin

text \<open>
  What the valuation services promise about the snapshots they store, whatever the table: a row is
  written once for its key and never changes, and asking again for a key that has a row either
  answers with that row or is a conflict. The locale \<open>snapshot_store\<close> is that contract; the
  services of mark-to-market, profit-and-loss, baseline and deal snapshots interpret it.
\<close>

locale snapshot_store =
  fixes rows :: "db \<Rightarrow> 'r list" and key :: "'r \<Rightarrow> 'k"
    and create :: "'a \<Rightarrow> db \<Rightarrow> (db \<times> 'r) result" and wanted :: "'a \<Rightarrow> db \<Rightarrow> 'k"
  assumes create_cases: "create a s = Inr (s', x) \<Longrightarrow>
      s' = s \<and> x \<in> set (rows s) \<or> rows s' = rows s @ [x] \<and> key x \<notin> key ` set (rows s)"
    and create_key: "create a s = Inr (s', x) \<Longrightarrow> key x = wanted a s"
begin

text \<open>A step of the rest of the application leaves the table alone.\<close>

definition store_step :: "db \<Rightarrow> db \<Rightarrow> bool" where
  "store_step s s' \<longleftrightarrow> rows s' = rows s \<or> (\<exists>a x. create a s = Inr (s', x))"

lemma create_stored: "create a s = Inr (s', x) \<Longrightarrow> x \<in> set (rows s')"
  using create_cases by fastforce

lemma store_step_rows:
  assumes "store_step s s'"
  shows "set (rows s) \<subseteq> set (rows s')" "keyed key (rows s) \<Longrightarrow> keyed key (rows s')"
  using assms create_cases unfolding store_step_def by (fastforce simp: keyed_snoc)+

lemma store_run_rows:
  assumes "store_step\<^sup>*\<^sup>* s s'"
  shows "set (rows s) \<subseteq> set (rows s')" "keyed key (rows s) \<Longrightarrow> keyed key (rows s')"
  using assms by (induction rule: rtranclp_induct) (auto dest: store_step_rows)

text \<open>Once a snapshot was taken, the same request can only ever be answered with that row.\<close>

lemma snapshot_frozen:
  assumes "keyed key (rows s)" and first: "create a s = Inr (s1, x)" and run: "store_step\<^sup>*\<^sup>* s1 s2"
    and again: "create a' s2 = Inr (s3, y)" and same: "wanted a' s2 = wanted a s"
  shows "y = x \<and> s3 = s2"
proof -
  have "store_step s s1" using first by (auto simp: store_step_def)
  then have "keyed key (rows s1)" using assms(1) by (rule store_step_rows)
  then have k: "keyed key (rows s2)" by (rule store_run_rows[OF run])
  have x: "x \<in> set (rows s2)" using create_stored[OF first] store_run_rows(1)[OF run] by blast
  have eq: "key y = key x" using create_key[OF first] create_key[OF again] same by simp
  from create_cases[OF again] show ?thesis
  proof
    assume "s3 = s2 \<and> y \<in> set (rows s2)"
    then show ?thesis using keyed_inj[OF k _ x] eq by blast
  next
    assume "rows s3 = rows s2 @ [y] \<and> key y \<notin> key ` set (rows s2)"
    then show ?thesis using x eq by auto
  qed
qed

end

end
