(* ===== verification/Deal_PnL.thy ===== *)
theory Deal_PnL
  imports Deal_Engine Provenance Snapshot_Store "HOL-Library.Product_Lexorder"
begin

text \<open>
  The profit-and-loss part of \<open>backend/app/services/deal_engine.py\<close>: the snapshot of one deal
  (\<open>compute_deal_pnl\<close>), the line-by-line breakdown of several deals (\<open>compute_pnl_breakdown\<close>) and the
  read operations. A deal is valued from its live links: orders at their fixed price or at the D-1
  price of their commodity, open hedges at the difference of fixed and D-1 price. All amounts that
  are stored lie on the grid of the \<open>NUMERIC(18,6)\<close> columns, so storing them does not round.
\<close>

section \<open>Prices\<close>

definition get_market_quote :: "db \<Rightarrow> string \<Rightarrow> date \<Rightarrow> PriceQuote result" where
  "get_market_quote s commodity as_of_date =
     and_then (resolve_symbol commodity) (\<lambda>symb. get_cash_settlement_price_d1_with_provenance s symb as_of_date)"

text \<open>The commodity a linked row needs a market price of, if any.\<close>

fun needs_price :: "linked_row \<Rightarrow> string option" where
  "needs_price (LOrder r) = (if ord_price_type r = PT_variable then Some (ord_commodity r) else None)"
| "needs_price (LContract c) =
     (if hc_status c = HS_cancelled then None else if hedge_open c then Some (hc_commodity c) else None)"

definition commodities_needing_price :: "(DealLink \<times> linked_row) list \<Rightarrow> string list" where
  "commodities_needing_price links = sort (remdups (List.map_filter (needs_price \<circ> snd) links))"

text \<open>One turn of the collect-then-decide loop: only \<open>PriceReferenceUnprovable\<close> is collected.\<close>

type_synonym quotes = "(string \<times> PriceQuote) list"

definition collect_quote :: "db \<Rightarrow> date \<Rightarrow> string \<Rightarrow> quotes \<times> py_error list \<Rightarrow> (quotes \<times> py_error list) result" where
  "collect_quote s d commodity acc =
     (case get_market_quote s commodity d of
        Inr q \<Rightarrow> Inr (fst acc @ [(commodity, q)], snd acc)
      | Inl (PriceReferenceUnprovable m) \<Rightarrow> Inr (fst acc, snd acc @ [PriceReferenceUnprovable m])
      | Inl e \<Rightarrow> Inl e)"

definition price_references_of :: "quotes \<Rightarrow> (string \<times> price_reference) list option" where
  "price_references_of quotes_by_commodity =
     (if quotes_by_commodity = [] then None
      else Some (map (\<lambda>(c, q). (c, (pq_value q, pq_source q, pq_settlement_date q))) quotes_by_commodity))"

definition deal_inputs_hash :: "fingerprint \<Rightarrow> uuid \<Rightarrow> date \<Rightarrow> uuid list \<Rightarrow> (string \<times> price_reference) list option \<Rightarrow> string" where
  "deal_inputs_hash k i snapshot_date link_ids price_references =
     sha256_json k (JObj
       [(''deal_id'', JId i), (''snapshot_date'', JDate snapshot_date),
        (''links'', JList (map JId (sort link_ids))),
        (''price_references'', json_option (\<lambda>refs. JObj (map (\<lambda>(c, v, source, d).
           (c, JObj [(''value'', JDec v), (''source'', JStr source), (''settlement_date'', JDate d)])) refs)) price_references)])"

section \<open>Valuing the legs\<close>

definition order_value :: "Order \<Rightarrow> decimal option \<Rightarrow> decimal result" where
  "order_value order market_price =
     (let qty = quantize_mt (ord_quantity_mt order)
      in if ord_price_type order = PT_fixed then
           Inr (quantize_money (qty * quantize_price (to_decimal (ord_avg_entry_price order))))
         else case market_price of
           None \<Rightarrow> Inl (PriceReferenceUnprovable (Msg
             ''variable-price order {} cannot be valued: no market price for {} on snapshot date''
             [AId (ord_id order), AStr (ord_commodity order)]))
         | Some p \<Rightarrow> Inr (quantize_money (qty * quantize_price p)))"

definition order_market_price :: "quotes \<Rightarrow> Order \<Rightarrow> decimal option" where
  "order_market_price quotes_by_commodity order =
     (if ord_price_type order = PT_variable
      then map_option (\<lambda>q. quantize_price (pq_value q)) (map_of quotes_by_commodity (ord_commodity order)) else None)"

definition hedge_mtm :: "quotes \<Rightarrow> HedgeContract \<Rightarrow> decimal result" where
  "hedge_mtm quotes_by_commodity contract =
     (let tons = quantize_mt (hc_quantity_mt contract); price = quantize_price (to_decimal (hc_fixed_price_value contract));
          is_sell = (hc_classification contract = HC_short)
      in if \<not> hedge_open contract then Inr 0
         else case map_of quotes_by_commodity (hc_commodity contract) of
           None \<Rightarrow> Inl (PriceReferenceUnprovable (Msg
             ''hedge contract {} cannot be MTM-valued: no market price for {} on snapshot date''
             [AId (hc_id contract), AStr (hc_commodity contract)]))
         | Some quote \<Rightarrow>
             let market_price = quantize_price (pq_value quote)
             in Inr (quantize_money (if is_sell then tons * (price - market_price) else tons * (market_price - price))))"

record pnl_sums =
  physical_revenue :: decimal
  physical_cost :: decimal
  hedge_pnl_realized :: decimal
  hedge_pnl_mtm :: decimal

definition no_pnl :: pnl_sums where
  "no_pnl = \<lparr>physical_revenue = 0, physical_cost = 0, hedge_pnl_realized = 0, hedge_pnl_mtm = 0\<rparr>"

text \<open>One turn of the loop over the live links.\<close>

definition pnl_step :: "quotes \<Rightarrow> DealLink \<times> linked_row \<Rightarrow> pnl_sums \<Rightarrow> pnl_sums result" where
  "pnl_step quotes_by_commodity entry acc =
     (case entry of
        (link, LOrder order) \<Rightarrow>
          and_then (order_value order (order_market_price quotes_by_commodity order)) (\<lambda>value.
            Inr (if dl_linked_type link = DL_sales_order then acc\<lparr>physical_revenue := physical_revenue acc + value\<rparr>
                 else acc\<lparr>physical_cost := physical_cost acc + value\<rparr>))
      | (link, LContract contract) \<Rightarrow>
          and_then (hedge_mtm quotes_by_commodity contract) (\<lambda>mtm.
            Inr (if hc_status contract = HS_cancelled \<or> hc_status contract = HS_settled then acc
                 else acc\<lparr>hedge_pnl_mtm := hedge_pnl_mtm acc + mtm\<rparr>)))"

definition total_pnl_of :: "pnl_sums \<Rightarrow> decimal" where
  "total_pnl_of totals =
     quantize_money (physical_revenue totals - physical_cost totals + hedge_pnl_realized totals + hedge_pnl_mtm totals)"

section \<open>Snapshots\<close>

definition live_links :: "db \<Rightarrow> uuid \<Rightarrow> (DealLink \<times> linked_row) list" where
  "live_links s i = resolve_live_linked_entities s (links_of_deal s i)"

text \<open>The sequence column: one more than the largest so far.\<close>

definition next_sequence :: "db \<Rightarrow> nat" where
  "next_sequence s = Suc (foldr max (map snap_sequence (pnl_snapshots s)) 0)"

definition pnl_snapshot_row ::
    "db \<Rightarrow> datetime \<Rightarrow> uuid \<Rightarrow> date \<Rightarrow> string \<Rightarrow> (string \<times> price_reference) list option \<Rightarrow> pnl_sums \<Rightarrow> DealPNLSnapshot" where
  "pnl_snapshot_row s now i snapshot_date inputs_hash price_references totals =
     \<lparr>snap_id = next_uuid s, snap_deal_id = i, snap_snapshot_date = snapshot_date,
      snap_physical_revenue = physical_revenue totals, snap_physical_cost = physical_cost totals,
      snap_hedge_pnl_realized = hedge_pnl_realized totals, snap_hedge_pnl_mtm = hedge_pnl_mtm totals,
      snap_total_pnl = total_pnl_of totals, snap_inputs_hash = inputs_hash,
      snap_price_references = price_references, snap_sequence = next_sequence s, snap_created_at = now\<rparr>"

definition compute_deal_pnl :: "fingerprint \<Rightarrow> db \<Rightarrow> datetime \<Rightarrow> uuid \<Rightarrow> date \<Rightarrow> (db \<times> DealPNLSnapshot) result" where
  "compute_deal_pnl k s now i snapshot_date =
     and_then (require (get_deal s i) (http HTTP_404 ''Deal not found'')) (\<lambda>deal.
     let links = live_links s i
     in and_then (raise_if (links = []) (no_live_linked_entities_exception i)) (\<lambda>_.
        and_then (fold_result (collect_quote s snapshot_date) (commodities_needing_price links) ([], []))
          (\<lambda>(quotes_by_commodity, unprovable_errors).
        case unprovable_errors of
          e # _ \<Rightarrow> Inl e
        | [] \<Rightarrow>
         (let price_references = price_references_of quotes_by_commodity;
              inputs_hash = deal_inputs_hash k i snapshot_date (map (dl_id \<circ> fst) links) price_references
          in (case find (\<lambda>x. snap_inputs_hash x = inputs_hash) (pnl_snapshots s) of
               Some existing \<Rightarrow> Inr (s, existing)
             | None \<Rightarrow>
                 and_then (fold_result (pnl_step quotes_by_commodity) links no_pnl) (\<lambda>totals.
                 let snapshot = pnl_snapshot_row s now i snapshot_date inputs_hash price_references totals
                 in Inr (s\<lparr>pnl_snapshots := pnl_snapshots s @ [snapshot], next_uuid := Suc (next_uuid s)\<rparr>, snapshot)))))))"

text \<open>\<open>POST /deals/{id}/pnl-snapshot\<close>.\<close>

definition trigger_pnl_snapshot ::
    "fingerprint \<Rightarrow> db \<Rightarrow> datetime \<Rightarrow> date \<Rightarrow> uuid \<Rightarrow> date option \<Rightarrow> (db \<times> DealPNLSnapshot) result" where
  "trigger_pnl_snapshot k s now today i snapshot_date =
     unprovable_to_424 (compute_deal_pnl k s now i (case snapshot_date of None \<Rightarrow> today | Some d \<Rightarrow> d))"

definition get_pnl_history :: "db \<Rightarrow> uuid \<Rightarrow> DealPNLSnapshot list result" where
  "get_pnl_history s i =
     and_then (require (get_deal s i) (http HTTP_404 ''Deal not found'')) (\<lambda>deal.
     Inr (rev (sort_key (\<lambda>x. (snap_snapshot_date x, snap_sequence x)) (filter (\<lambda>x. snap_deal_id x = i) (pnl_snapshots s)))))"

definition get_detail :: "db \<Rightarrow> uuid \<Rightarrow> (Deal \<times> DealLink list \<times> DealPNLSnapshot option) result" where
  "get_detail s i =
     and_then (require (get_deal s i) (http HTTP_404 ''Deal not found'')) (\<lambda>deal.
     let newest = rev (sort_key snap_sequence (filter (\<lambda>x. snap_deal_id x = i) (pnl_snapshots s)))
     in Inr (deal, links_of_deal s i, case newest of [] \<Rightarrow> None | x # _ \<Rightarrow> Some x))"

fun deal_status_value :: "DealStatus \<Rightarrow> string" where
  "deal_status_value DS_open = ''open''"
| "deal_status_value DS_partially_hedged = ''partially_hedged''"
| "deal_status_value DS_fully_hedged = ''fully_hedged''"
| "deal_status_value DS_settled = ''settled''"
| "deal_status_value DS_closed = ''closed''"

text \<open>An empty filter text is no filter; \<open>DealStatus(status_filter)\<close> raises on any other text.\<close>

definition list_deals :: "db \<Rightarrow> string option \<Rightarrow> string option \<Rightarrow> Deal list result" where
  "list_deals s commodity status_filter =
     (let q = filter (\<lambda>d. commodity \<in> {None, Some []} \<or> commodity = Some (deal_commodity d)) (deals s)
      in and_then (if status_filter \<in> {None, Some []} then Inr q
           else and_then (require (find (\<lambda>st. Some (deal_status_value st) = status_filter)
                  [DS_open, DS_partially_hedged, DS_fully_hedged, DS_settled, DS_closed])
                (ValueError (Msg ''{} is not a valid DealStatus'' [AStr (case status_filter of None \<Rightarrow> [] | Some f \<Rightarrow> f)])))
              (\<lambda>st. Inr (filter (\<lambda>d. deal_status d = st) q))) (\<lambda>q.
         Inr (sort_key (\<lambda>d. - deal_created_at d) q)))"

section \<open>The breakdown\<close>

record physical_item =
  pi_id :: uuid
  pi_order_type :: string
  pi_commodity :: string
  pi_quantity_mt :: decimal
  pi_price :: decimal
  pi_value :: decimal

text \<open>A contract without a reference is shown by the first eight characters of its identifier; the
  item keeps the identifier.\<close>

record financial_item =
  fi_id :: uuid
  fi_reference :: arg
  fi_classification :: HedgeClassification
  fi_status :: HedgeContractStatus
  fi_quantity_mt :: decimal
  fi_entry_price :: decimal
  fi_market_price :: "decimal option"
  fi_pnl :: decimal

record deal_breakdown =
  bd_deal_id :: uuid
  bd_deal_reference :: string
  bd_deal_name :: string
  bd_commodity :: string
  bd_totals :: pnl_sums
  bd_total_pnl :: decimal
  bd_physical_items :: "physical_item list"
  bd_financial_items :: "financial_item list"

definition physical_line :: "string \<Rightarrow> Order \<Rightarrow> decimal \<Rightarrow> physical_item" where
  "physical_line order_type order value =
     \<lparr>pi_id = ord_id order, pi_order_type = order_type, pi_commodity = ord_commodity order,
      pi_quantity_mt = quantize_mt (ord_quantity_mt order),
      pi_price = quantize_price (to_decimal (ord_avg_entry_price order)), pi_value = value\<rparr>"

definition financial_line :: "HedgeContract \<Rightarrow> decimal option \<Rightarrow> decimal \<Rightarrow> financial_item" where
  "financial_line contract hedge_market_price pnl =
     \<lparr>fi_id = hc_id contract,
      fi_reference = (case hc_reference contract of Some (ch # r) \<Rightarrow> AStr (ch # r) | _ \<Rightarrow> AId (hc_id contract)),
      fi_classification = hc_classification contract, fi_status = hc_status contract,
      fi_quantity_mt = quantize_mt (hc_quantity_mt contract),
      fi_entry_price = quantize_price (to_decimal (hc_fixed_price_value contract)),
      fi_market_price = hedge_market_price, fi_pnl = pnl\<rparr>"

text \<open>One turn of the loop over the live links of one deal: sums, physical and financial lines.\<close>

type_synonym breakdown_state = "pnl_sums \<times> physical_item list \<times> financial_item list"

definition breakdown_step :: "quotes \<Rightarrow> DealLink \<times> linked_row \<Rightarrow> breakdown_state \<Rightarrow> breakdown_state result" where
  "breakdown_step quotes_by_commodity entry acc =
     (let (totals, physical_items, financial_items) = acc
      in case entry of
        (link, LOrder order) \<Rightarrow>
          and_then (order_value order (order_market_price quotes_by_commodity order)) (\<lambda>value.
            Inr (if dl_linked_type link = DL_sales_order
                 then (totals\<lparr>physical_revenue := physical_revenue totals + value\<rparr>,
                       physical_items @ [physical_line ''SO'' order value], financial_items)
                 else (totals\<lparr>physical_cost := physical_cost totals + value\<rparr>,
                       physical_items @ [physical_line ''PO'' order (- value)], financial_items)))
      | (link, LContract contract) \<Rightarrow>
          (let tons = quantize_mt (hc_quantity_mt contract); price = quantize_price (to_decimal (hc_fixed_price_value contract));
               is_sell = (hc_classification contract = HC_short)
           in and_then
             (if \<not> hedge_open contract then Inr (None, 0)
              else case map_of quotes_by_commodity (hc_commodity contract) of
                None \<Rightarrow> Inl (PriceReferenceUnprovable (Msg
                  ''hedge contract {} cannot be MTM-valued: no market price for {} on snapshot date''
                  [AId (hc_id contract), AStr (hc_commodity contract)]))
              | Some quote \<Rightarrow>
                  let hedge_market_price = quantize_price (pq_value quote)
                  in Inr (Some hedge_market_price, quantize_money
                       (if is_sell then tons * (price - hedge_market_price) else tons * (hedge_market_price - price))))
             (\<lambda>(hedge_market_price, pnl).
               Inr (if hc_status contract = HS_cancelled \<or> hc_status contract = HS_settled then totals
                    else totals\<lparr>hedge_pnl_mtm := hedge_pnl_mtm totals + pnl\<rparr>,
                    physical_items, financial_items @ [financial_line contract hedge_market_price pnl]))))"

text \<open>One lookup per commodity; the first failure ends the whole breakdown.\<close>

definition breakdown_quotes :: "db \<Rightarrow> date \<Rightarrow> string list \<Rightarrow> quotes result" where
  "breakdown_quotes s d commodities =
     map_result (\<lambda>c. and_then (get_market_quote s c d) (\<lambda>q. Inr (c, q))) commodities"

definition deal_totals :: "pnl_sums \<Rightarrow> decimal \<Rightarrow> pnl_sums \<times> decimal \<Rightarrow> pnl_sums \<times> decimal" where
  "deal_totals totals total_pnl acc =
     (let (tot, tot_pnl) = acc
      in (\<lparr>physical_revenue = quantize_money (physical_revenue tot + physical_revenue totals),
           physical_cost = quantize_money (physical_cost tot + physical_cost totals),
           hedge_pnl_realized = quantize_money (hedge_pnl_realized tot + hedge_pnl_realized totals),
           hedge_pnl_mtm = quantize_money (hedge_pnl_mtm tot + hedge_pnl_mtm totals)\<rparr>,
          quantize_money (tot_pnl + total_pnl)))"

definition breakdown_deal ::
    "db \<Rightarrow> date \<Rightarrow> bool \<Rightarrow> Deal \<Rightarrow> deal_breakdown list \<times> pnl_sums \<times> decimal
       \<Rightarrow> (deal_breakdown list \<times> pnl_sums \<times> decimal) result" where
  "breakdown_deal s snapshot_date explicit_deal_filter deal acc =
     (let (result_deals, tot) = acc; links = live_links s (deal_id deal)
      in if links = [] then
           (if \<not> explicit_deal_filter then Inr acc else Inl (no_live_linked_entities_exception (deal_id deal)))
         else
           and_then (breakdown_quotes s snapshot_date (commodities_needing_price links)) (\<lambda>quotes_by_commodity.
           and_then (fold_result (breakdown_step quotes_by_commodity) links (no_pnl, [], []))
             (\<lambda>(totals, physical_items, financial_items).
           let row = \<lparr>bd_deal_id = deal_id deal, bd_deal_reference = deal_reference deal, bd_deal_name = deal_name deal,
                 bd_commodity = deal_commodity deal, bd_totals = totals, bd_total_pnl = total_pnl_of totals,
                 bd_physical_items = physical_items, bd_financial_items = financial_items\<rparr>
           in Inr (result_deals @ [row], deal_totals totals (total_pnl_of totals) tot))))"

definition compute_pnl_breakdown :: "db \<Rightarrow> uuid list \<Rightarrow> date \<Rightarrow> (deal_breakdown list \<times> pnl_sums \<times> decimal) result" where
  "compute_pnl_breakdown s deal_ids snapshot_date =
     (let explicit_deal_filter = (deal_ids \<noteq> []);
          selected = sort_key (\<lambda>d. - deal_created_at d)
            (if explicit_deal_filter then filter (\<lambda>d. deal_id d \<in> set deal_ids) (deals s) else deals s)
      in fold_result (breakdown_deal s snapshot_date explicit_deal_filter) selected ([], no_pnl, 0))"

section \<open>The quotes of a snapshot\<close>

lemma commodities_needing_price_simps:
  "set (commodities_needing_price ls) = {c. \<exists>e \<in> set ls. needs_price (snd e) = Some c}"
  "distinct (commodities_needing_price ls)"
  by (force simp: commodities_needing_price_def List.map_filter_def)+

lemma collect_quotes:
  assumes "fold_result (collect_quote s d) cs (qs, es) = Inr (qs', [])"
  shows "es = [] \<and> (\<exists>new. qs' = qs @ new \<and> map fst new = cs \<and> (\<forall>(c, q) \<in> set new. get_market_quote s c d = Inr q))"
  using assms
proof (induction cs arbitrary: qs es)
  case (Cons c cs)
  show ?case
  proof (cases "get_market_quote s c d")
    case (Inr q)
    then have "collect_quote s d c (qs, es) = Inr (qs @ [(c, q)], es)" by (simp add: collect_quote_def)
    with Cons.prems have "fold_result (collect_quote s d) cs (qs @ [(c, q)], es) = Inr (qs', [])" by simp
    from Cons.IH[OF this] obtain new where "es = []" "qs' = (qs @ [(c, q)]) @ new" "map fst new = cs"
      "\<forall>(c, q) \<in> set new. get_market_quote s c d = Inr q" by blast
    with Inr show ?thesis by (intro conjI exI[of _ "(c, q) # new"]) auto
  next
    case (Inl e)
    then obtain m where "collect_quote s d c (qs, es) = Inr (qs, es @ [PriceReferenceUnprovable m])"
      using Cons.prems by (cases e) (auto simp: collect_quote_def)
    with Cons.prems have "fold_result (collect_quote s d) cs (qs, es @ [PriceReferenceUnprovable m]) = Inr (qs', [])" by simp
    from Cons.IH[OF this] show ?thesis by simp
  qed
qed simp

lemma breakdown_quotes_Inr:
  "breakdown_quotes s d cs = Inr qs \<longleftrightarrow> map fst qs = cs \<and> (\<forall>(c, q) \<in> set qs. get_market_quote s c d = Inr q)"
  unfolding breakdown_quotes_def
proof (induction cs arbitrary: qs)
  case (Cons c cs)
  show ?case
  proof (cases qs)
    case Nil
    then show ?thesis by (auto split: sum.splits)
  next
    case (Cons e es)
    have "map_result (\<lambda>c. and_then (get_market_quote s c d) (\<lambda>q. Inr (c, q))) cs = Inr es \<longleftrightarrow>
        map fst es = cs \<and> (\<forall>(c, q) \<in> set es. get_market_quote s c d = Inr q)" by (rule Cons.IH)
    with Cons show ?thesis by (cases e) (auto split: sum.splits)
  qed
qed auto

text \<open>The market price of a commodity, as the legs see it.\<close>

definition price_of :: "quotes \<Rightarrow> string \<Rightarrow> decimal" where
  "price_of quotes_by_commodity c = (case map_of quotes_by_commodity c of None \<Rightarrow> 0 | Some q \<Rightarrow> quantize_price (pq_value q))"

lemma quotes_priced:
  assumes "map fst qs = commodities_needing_price ls" and "\<forall>(c, q) \<in> set qs. get_market_quote s c d = Inr q"
    and "e \<in> set ls" and "needs_price (snd e) = Some c"
  obtains q where "map_of qs c = Some q" "get_market_quote s c d = Inr q" "price_of qs c = quantize_price (pq_value q)"
proof -
  have "c \<in> set (map fst qs)" using assms(1,3,4) by (auto simp: commodities_needing_price_simps)
  then obtain q where "map_of qs c = Some q" by (cases "map_of qs c") (auto simp: map_of_eq_None_iff)
  with assms(2) show ?thesis using that by (fastforce simp: price_of_def dest: map_of_SomeD)
qed

section \<open>Legs as signed values\<close>

text \<open>What a live link adds to the total at given market prices.\<close>

fun leg_value :: "(string \<Rightarrow> decimal) \<Rightarrow> DealLink \<times> linked_row \<Rightarrow> decimal" where
  "leg_value p (link, LOrder r) =
     (if dl_linked_type link = DL_sales_order then 1 else - 1) *
       quantize_money (quantize_mt (ord_quantity_mt r) *
         (if ord_price_type r = PT_fixed then quantize_price (to_decimal (ord_avg_entry_price r)) else p (ord_commodity r)))"
| "leg_value p (link, LContract c) =
     (if \<not> hedge_open c then 0
      else quantize_money ((if hc_classification c = HC_short then - 1 else 1) * quantize_mt (hc_quantity_mt c) *
        (p (hc_commodity c) - quantize_price (to_decimal (hc_fixed_price_value c)))))"

definition sums_value :: "pnl_sums \<Rightarrow> decimal" where
  "sums_value t = physical_revenue t - physical_cost t + hedge_pnl_realized t + hedge_pnl_mtm t"

definition sums_on_grid :: "pnl_sums \<Rightarrow> bool" where
  "sums_on_grid t \<longleftrightarrow> quantize_money (physical_revenue t) = physical_revenue t \<and> quantize_money (physical_cost t) = physical_cost t
     \<and> hedge_pnl_realized t = 0 \<and> quantize_money (hedge_pnl_mtm t) = hedge_pnl_mtm t"

lemma order_value_Inr:
  assumes "order_value r (order_market_price qs r) = Inr v"
  shows "v = quantize_money (quantize_mt (ord_quantity_mt r) *
    (if ord_price_type r = PT_fixed then quantize_price (to_decimal (ord_avg_entry_price r)) else price_of qs (ord_commodity r)))"
  using assms by (cases "ord_price_type r") (auto simp: order_value_def order_market_price_def price_of_def split: option.splits)

lemma hedge_mtm_Inr:
  assumes "hedge_mtm qs c = Inr v"
  shows "v = leg_value (price_of qs) (l, LContract c)"
proof (cases "hedge_open c")
  case True
  let ?T = "quantize_mt (hc_quantity_mt c)" and ?F = "quantize_price (to_decimal (hc_fixed_price_value c))"
    and ?M = "price_of qs (hc_commodity c)"
  have "v = quantize_money (if hc_classification c = HC_short then ?T * (?F - ?M) else ?T * (?M - ?F))"
    using assms True by (cases "map_of qs (hc_commodity c)") (auto simp: hedge_mtm_def price_of_def Let_def)
  also have "(if hc_classification c = HC_short then ?T * (?F - ?M) else ?T * (?M - ?F))
      = (if hc_classification c = HC_short then - 1 else 1) * ?T * (?M - ?F)"
    by (simp add: right_diff_distrib)
  finally show ?thesis using True by simp
qed (use assms in \<open>simp add: hedge_mtm_def\<close>)

lemma pnl_step_value:
  assumes "pnl_step qs e t = Inr t'" and "sums_on_grid t"
  shows "sums_on_grid t'" "sums_value t' = sums_value t + leg_value (price_of qs) e"
proof -
  obtain l row where e: "e = (l, row)" by (cases e)
  have "sums_on_grid t' \<and> sums_value t' = sums_value t + leg_value (price_of qs) e"
  proof (cases row)
    case (LOrder r)
    obtain v where v: "order_value r (order_market_price qs r) = Inr v"
      and t': "t' = (if dl_linked_type l = DL_sales_order then t\<lparr>physical_revenue := physical_revenue t + v\<rparr>
        else t\<lparr>physical_cost := physical_cost t + v\<rparr>)"
      using assms(1) by (auto simp: pnl_step_def e LOrder)
    have grid: "quantize_money v = v" using order_value_Inr[OF v] by simp
    have "quantize_money (physical_revenue t + v) = physical_revenue t + v" "quantize_money (physical_cost t + v) = physical_cost t + v"
      using assms(2) grid by (simp_all add: sums_on_grid_def money.q_add_fixed)
    then show ?thesis
      using assms(2) by (simp add: t' sums_on_grid_def sums_value_def e LOrder order_value_Inr[OF v] algebra_simps)
  next
    case (LContract c)
    obtain m where m: "hedge_mtm qs c = Inr m"
      and t': "t' = (if hc_status c = HS_cancelled \<or> hc_status c = HS_settled then t else t\<lparr>hedge_pnl_mtm := hedge_pnl_mtm t + m\<rparr>)"
      using assms(1) by (auto simp: pnl_step_def e LContract)
    have v: "leg_value (price_of qs) e = m" using hedge_mtm_Inr[OF m] by (simp add: e LContract)
    have "quantize_money (leg_value (price_of qs) e) = leg_value (price_of qs) e" by (simp add: e LContract)
    then have grid: "quantize_money (hedge_pnl_mtm t + m) = hedge_pnl_mtm t + m"
      using assms(2) by (simp only: v sums_on_grid_def money.q_add_fixed)
    show ?thesis
    proof (cases "hc_status c = HS_cancelled \<or> hc_status c = HS_settled")
      case True
      then have "\<not> hedge_open c" by (auto simp: hedge_open_def)
      then have "m = 0" using v by (simp add: e LContract)
      with True show ?thesis using assms(2) v by (simp add: t')
    next
      case False
      then show ?thesis using assms(2) grid v by (simp add: t' sums_on_grid_def sums_value_def)
    qed
  qed
  then show "sums_on_grid t'" "sums_value t' = sums_value t + leg_value (price_of qs) e" by simp_all
qed

lemma pnl_fold_value:
  assumes "fold_result (pnl_step qs) ls t = Inr t'" and "sums_on_grid t"
  shows "sums_on_grid t' \<and> sums_value t' = sums_value t + sum_list (map (leg_value (price_of qs)) ls)"
  using assms
proof (induction ls arbitrary: t)
  case (Cons e ls)
  then obtain t1 where t1: "pnl_step qs e t = Inr t1" "fold_result (pnl_step qs) ls t1 = Inr t'" by (auto split: sum.splits)
  show ?case using Cons.IH[OF t1(2) pnl_step_value(1)[OF t1(1) Cons.prems(2)]] pnl_step_value(2)[OF t1(1) Cons.prems(2)] by simp
qed simp

lemma no_pnl_simps [simp]: "sums_on_grid no_pnl" "sums_value no_pnl = 0"
  by (simp_all add: no_pnl_def sums_on_grid_def sums_value_def)

lemma total_pnl_on_grid:
  assumes "sums_on_grid t"
  shows "total_pnl_of t = sums_value t"
proof -
  have "quantize_money (physical_revenue t - physical_cost t + hedge_pnl_mtm t) = physical_revenue t - physical_cost t + hedge_pnl_mtm t"
    using assms money.q_diff[of "physical_revenue t" "physical_cost t"] by (auto simp: sums_on_grid_def intro!: money.q_add_fixed)
  then show ?thesis using assms by (simp add: total_pnl_of_def sums_value_def sums_on_grid_def)
qed

section \<open>What a snapshot is\<close>

lemma pnl_collected:
  assumes "compute_deal_pnl k s now i d = Inr (s', snap)"
  obtains deal qs where "get_deal s i = Some deal" "live_links s i \<noteq> []"
    "fold_result (collect_quote s d) (commodities_needing_price (live_links s i)) ([], []) = Inr (qs, [])"
    "(case find (\<lambda>x. snap_inputs_hash x = deal_inputs_hash k i d (map (dl_id \<circ> fst) (live_links s i)) (price_references_of qs))
        (pnl_snapshots s) of
       Some existing \<Rightarrow> Inr (s, existing)
     | None \<Rightarrow> and_then (fold_result (pnl_step qs) (live_links s i) no_pnl) (\<lambda>totals.
         let snapshot = pnl_snapshot_row s now i d
           (deal_inputs_hash k i d (map (dl_id \<circ> fst) (live_links s i)) (price_references_of qs)) (price_references_of qs) totals
         in Inr (s\<lparr>pnl_snapshots := pnl_snapshots s @ [snapshot], next_uuid := Suc (next_uuid s)\<rparr>, snapshot))) = Inr (s', snap)"
proof -
  from assms obtain deal qs es where "get_deal s i = Some deal" "live_links s i \<noteq> []"
    "fold_result (collect_quote s d) (commodities_needing_price (live_links s i)) ([], []) = Inr (qs, es)"
    and rest: "(case es of e # _ \<Rightarrow> Inl e
        | [] \<Rightarrow> (let price_references = price_references_of qs;
              inputs_hash = deal_inputs_hash k i d (map (dl_id \<circ> fst) (live_links s i)) price_references
          in (case find (\<lambda>x. snap_inputs_hash x = inputs_hash) (pnl_snapshots s) of
               Some existing \<Rightarrow> Inr (s, existing)
             | None \<Rightarrow>
                 and_then (fold_result (pnl_step qs) (live_links s i) no_pnl) (\<lambda>totals.
                 let snapshot = pnl_snapshot_row s now i d inputs_hash price_references totals
                 in Inr (s\<lparr>pnl_snapshots := pnl_snapshots s @ [snapshot], next_uuid := Suc (next_uuid s)\<rparr>, snapshot))))) = Inr (s', snap)"
    unfolding compute_deal_pnl_def Let_def by auto
  then show ?thesis using that by (cases es) (auto simp: Let_def)
qed

lemma pnl_cases:
  assumes "compute_deal_pnl k s now i d = Inr (s', snap)"
  obtains (stored) qs where "live_links s i \<noteq> []" "map fst qs = commodities_needing_price (live_links s i)"
      "\<forall>(c, q) \<in> set qs. get_market_quote s c d = Inr q" "s' = s" "snap \<in> set (pnl_snapshots s)"
      "snap_inputs_hash snap = deal_inputs_hash k i d (map (dl_id \<circ> fst) (live_links s i)) (price_references_of qs)"
  | (taken) qs totals where "live_links s i \<noteq> []" "map fst qs = commodities_needing_price (live_links s i)"
      "\<forall>(c, q) \<in> set qs. get_market_quote s c d = Inr q"
      "fold_result (pnl_step qs) (live_links s i) no_pnl = Inr totals"
      "snap = pnl_snapshot_row s now i d
         (deal_inputs_hash k i d (map (dl_id \<circ> fst) (live_links s i)) (price_references_of qs)) (price_references_of qs) totals"
      "s' = s\<lparr>pnl_snapshots := pnl_snapshots s @ [snap], next_uuid := Suc (next_uuid s)\<rparr>"
      "snap_inputs_hash snap \<notin> snap_inputs_hash ` set (pnl_snapshots s)"
  using assms
proof (rule pnl_collected)
  fix deal qs
  let ?h = "deal_inputs_hash k i d (map (dl_id \<circ> fst) (live_links s i)) (price_references_of qs)"
  assume live: "live_links s i \<noteq> []"
    and c: "fold_result (collect_quote s d) (commodities_needing_price (live_links s i)) ([], []) = Inr (qs, [])"
    and rest: "(case find (\<lambda>x. snap_inputs_hash x = ?h) (pnl_snapshots s) of
       Some existing \<Rightarrow> Inr (s, existing)
     | None \<Rightarrow> and_then (fold_result (pnl_step qs) (live_links s i) no_pnl) (\<lambda>totals.
         let snapshot = pnl_snapshot_row s now i d ?h (price_references_of qs) totals
         in Inr (s\<lparr>pnl_snapshots := pnl_snapshots s @ [snapshot], next_uuid := Suc (next_uuid s)\<rparr>, snapshot))) = Inr (s', snap)"
  from collect_quotes[OF c] have qs: "map fst qs = commodities_needing_price (live_links s i)"
    "\<forall>(c, q) \<in> set qs. get_market_quote s c d = Inr q" by simp_all
  show ?thesis
  proof (cases "find (\<lambda>x. snap_inputs_hash x = ?h) (pnl_snapshots s)")
    case (Some x)
    with rest have "s' = s" "snap = x" by simp_all
    with find_SomeD[OF Some] show ?thesis by (intro stored[OF live qs]) auto
  next
    case None
    with rest obtain totals where "fold_result (pnl_step qs) (live_links s i) no_pnl = Inr totals"
      "snap = pnl_snapshot_row s now i d ?h (price_references_of qs) totals"
      "s' = s\<lparr>pnl_snapshots := pnl_snapshots s @ [snap], next_uuid := Suc (next_uuid s)\<rparr>" by (auto simp: Let_def)
    moreover have "?h \<notin> snap_inputs_hash ` set (pnl_snapshots s)" using None by (auto simp: find_None_iff)
    ultimately show ?thesis by (intro taken[OF live qs]) (auto simp: pnl_snapshot_row_def)
  qed
qed

text \<open>A fresh snapshot holds the values of the live links at the prices of the date.\<close>

lemma fresh_pnl:
  assumes "compute_deal_pnl k s now i d = Inr (s', snap)" and "snap \<notin> set (pnl_snapshots s)"
  obtains qs totals where "map fst qs = commodities_needing_price (live_links s i)"
    "\<forall>(c, q) \<in> set qs. get_market_quote s c d = Inr q" "live_links s i \<noteq> []"
    "fold_result (pnl_step qs) (live_links s i) no_pnl = Inr totals" "sums_on_grid totals"
    "snap_physical_revenue snap = physical_revenue totals" "snap_physical_cost snap = physical_cost totals"
    "snap_hedge_pnl_realized snap = hedge_pnl_realized totals" "snap_hedge_pnl_mtm snap = hedge_pnl_mtm totals"
    "snap_total_pnl snap = sum_list (map (leg_value (price_of qs)) (live_links s i))"
    "total_pnl_of totals = snap_total_pnl snap" "sums_value totals = snap_total_pnl snap"
  using assms(1)
proof (cases rule: pnl_cases)
  case (taken qs totals)
  note v = pnl_fold_value[OF taken(4) no_pnl_simps(1)]
  show ?thesis
    by (rule that[OF taken(2,3,1,4)]) (use v taken(5) in \<open>auto simp: pnl_snapshot_row_def total_pnl_on_grid\<close>)
qed (use assms(2) in simp)

section \<open>Properties\<close>

text \<open>C6: A fresh snapshot values exactly the live links of the deal. Each commodity that a
  variable-price order or an open hedge needs has a D-1 quote settled before the snapshot date;
  with those prices the total is the sum of the signed values of the links, and it is revenue
  less cost plus hedge results without any rounding in between. Nothing is realised here.\<close>

theorem deal_pnl_values_live_links:
  assumes "compute_deal_pnl k s now i d = Inr (s', snap)" and "snap \<notin> set (pnl_snapshots s)" and "valid_date d"
  shows "\<exists>p. (\<forall>e \<in> set (live_links s i). \<forall>c. needs_price (snd e) = Some c \<longrightarrow>
        (\<exists>q. get_market_quote s c d = Inr q \<and> p c = quantize_price (pq_value q) \<and> pq_settlement_date q < d))
    \<and> snap_total_pnl snap = sum_list (map (leg_value p) (live_links s i))
    \<and> snap_total_pnl snap = snap_physical_revenue snap - snap_physical_cost snap + snap_hedge_pnl_mtm snap
    \<and> snap_hedge_pnl_realized snap = 0"
  using assms(1,2)
proof (rule fresh_pnl)
  fix qs totals
  assume qs: "map fst qs = commodities_needing_price (live_links s i)" "\<forall>(c, q) \<in> set qs. get_market_quote s c d = Inr q"
    and snap: "sums_on_grid totals"
    "snap_physical_revenue snap = physical_revenue totals" "snap_physical_cost snap = physical_cost totals"
    "snap_hedge_pnl_realized snap = hedge_pnl_realized totals" "snap_hedge_pnl_mtm snap = hedge_pnl_mtm totals"
    "snap_total_pnl snap = sum_list (map (leg_value (price_of qs)) (live_links s i))" "sums_value totals = snap_total_pnl snap"
  have "\<exists>q. get_market_quote s c d = Inr q \<and> price_of qs c = quantize_price (pq_value q) \<and> pq_settlement_date q < d"
    if "e \<in> set (live_links s i)" "needs_price (snd e) = Some c" for e c
    using qs that
  proof (rule quotes_priced)
    fix q assume q: "get_market_quote s c d = Inr q" "price_of qs c = quantize_price (pq_value q)"
    then obtain symb where "get_cash_settlement_price_d1_with_provenance s symb d = Inr q" by (auto simp: get_market_quote_def)
    from d1.quote_before[OF this assms(3)] q show ?thesis by blast
  qed
  moreover have "snap_total_pnl snap = snap_physical_revenue snap - snap_physical_cost snap + snap_hedge_pnl_mtm snap"
    "snap_hedge_pnl_realized snap = 0"
    using snap by (simp_all add: sums_value_def sums_on_grid_def)
  ultimately show ?thesis using snap(6) by blast
qed

section \<open>Hedged deals\<close>

text \<open>The signed tonnage of a leg whose value moves with the market.\<close>

fun open_tons :: "DealLink \<times> linked_row \<Rightarrow> decimal" where
  "open_tons (link, LOrder r) = (if dl_linked_type link = DL_sales_order then 1 else - 1) * quantize_mt (ord_quantity_mt r)"
| "open_tons (link, LContract c) = (if hc_classification c = HC_short then - 1 else 1) * quantize_mt (hc_quantity_mt c)"

definition net_open_tons :: "(DealLink \<times> linked_row) list \<Rightarrow> string \<Rightarrow> decimal" where
  "net_open_tons ls c = sum_list (map (\<lambda>e. if needs_price (snd e) = Some c then open_tons e else 0) ls)"

lemma leg_value_fixed: "needs_price (snd e) = None \<Longrightarrow> leg_value p e = leg_value p' e"
  by (cases e; cases "snd e") (auto simp: hedge_open_def intro: PriceType.exhaust split: if_splits)

lemma money_diff: "\<bar>quantize_money x - quantize_money y - (x - y)\<bar> \<le> 1 / 1000000"
  using money.q_near[of x] money.q_near[of y] by linarith

lemma leg_value_moves:
  assumes "needs_price (snd e) = Some c"
  shows "\<bar>leg_value p e - leg_value p' e - open_tons e * (p c - p' c)\<bar> \<le> 1 / 1000000"
proof -
  obtain l row where e: "e = (l, row)" by (cases e)
  show ?thesis
  proof (cases row)
    case (LOrder r)
    let ?T = "quantize_mt (ord_quantity_mt r)"
    have c: "c = ord_commodity r" "ord_price_type r \<noteq> PT_fixed" using assms by (auto simp: e LOrder split: if_splits)
    define sd :: rat where "sd = (if dl_linked_type l = DL_sales_order then 1 else - 1)"
    have "leg_value p e - leg_value p' e - open_tons e * (p c - p' c)
        = sd * (quantize_money (?T * p c) - quantize_money (?T * p' c) - (?T * p c - ?T * p' c))"
      using c by (simp add: e LOrder sd_def algebra_simps)
    moreover have "\<bar>sd\<bar> = 1" by (simp add: sd_def)
    ultimately show ?thesis using money_diff[of "?T * p c" "?T * p' c"] by (simp only: abs_mult mult_1)
  next
    case (LContract h)
    let ?T = "(if hc_classification h = HC_short then - 1 else 1) * quantize_mt (hc_quantity_mt h)"
      and ?F = "quantize_price (to_decimal (hc_fixed_price_value h))"
    have c: "c = hc_commodity h" "hedge_open h" using assms by (auto simp: e LContract split: if_splits)
    have "?T * (p c - ?F) - ?T * (p' c - ?F) = ?T * (p c - p' c)" by (simp add: right_diff_distrib)
    with money_diff[of "?T * (p c - ?F)" "?T * (p' c - ?F)"] show ?thesis
      unfolding e LContract leg_value.simps open_tons.simps using c by simp
  qed
qed

lemma sum_by_commodity:
  assumes "finite C" and "\<And>e c. e \<in> set ls \<Longrightarrow> g e = Some c \<Longrightarrow> c \<in> C"
  shows "sum_list (map (\<lambda>e. case g e of None \<Rightarrow> 0 | Some c \<Rightarrow> f e * x c) ls) =
    (\<Sum>c\<in>C. x c * sum_list (map (\<lambda>e. if g e = Some c then f e else (0 :: rat)) ls))"
  using assms(2)
proof (induction ls)
  case (Cons e ls)
  have "(case g e of None \<Rightarrow> 0 | Some c \<Rightarrow> f e * x c) = (\<Sum>c\<in>C. x c * (if g e = Some c then f e else 0))"
  proof (cases "g e")
    case (Some c)
    then have "(\<Sum>c'\<in>C. x c' * (if g e = Some c' then f e else 0)) = (\<Sum>c'\<in>C. if c' = c then x c * f e else 0)"
      by (intro sum.cong) auto
    also have "\<dots> = x c * f e" using Cons.prems[of e c] Some assms(1) by simp
    finally show ?thesis using Some by (simp add: mult.commute)
  qed simp
  moreover have "sum_list (map (\<lambda>e. case g e of None \<Rightarrow> 0 | Some c \<Rightarrow> f e * x c) ls) =
      (\<Sum>c\<in>C. x c * sum_list (map (\<lambda>e. if g e = Some c then f e else 0) ls))"
    using Cons.prems by (intro Cons.IH) auto
  ultimately show ?case by (simp add: ring_distribs sum.distrib)
qed simp

lemma leg_values_move:
  "\<bar>sum_list (map (leg_value p) ls) - sum_list (map (leg_value p') ls)
     - sum_list (map (\<lambda>e. case needs_price (snd e) of None \<Rightarrow> 0 | Some c \<Rightarrow> open_tons e * (p c - p' c)) ls)\<bar>
   \<le> of_nat (length ls) / 1000000"
proof (induction ls)
  case (Cons e ls)
  have "\<bar>leg_value p e - leg_value p' e - (case needs_price (snd e) of None \<Rightarrow> 0 | Some c \<Rightarrow> open_tons e * (p c - p' c))\<bar> \<le> 1 / 1000000"
    using leg_value_moves[of e] leg_value_fixed[of e p p'] by (auto split: option.split)
  then have "\<bar>(leg_value p e - leg_value p' e - (case needs_price (snd e) of None \<Rightarrow> 0 | Some c \<Rightarrow> open_tons e * (p c - p' c)))
      + (sum_list (map (leg_value p) ls) - sum_list (map (leg_value p') ls)
         - sum_list (map (\<lambda>e. case needs_price (snd e) of None \<Rightarrow> 0 | Some c \<Rightarrow> open_tons e * (p c - p' c)) ls))\<bar>
      \<le> 1 / 1000000 + of_nat (length ls) / 1000000"
    using Cons.IH by (intro order_trans[OF abs_triangle_ineq] add_mono)
  then show ?case by (simp add: add_divide_distrib algebra_simps)
qed simp

text \<open>C7: A hedged deal does not feel the market. If for every commodity the open sales, purchases and
  hedges of a deal net to zero tons, then any two fresh snapshots of the same live links, whatever
  the dates and prices, differ by at most one millionth per link, which is rounding.\<close>

theorem hedged_deal_price_neutral:
  assumes "compute_deal_pnl k s now i d = Inr (s1, a)" and "a \<notin> set (pnl_snapshots s)"
    and "compute_deal_pnl k s' now' i d' = Inr (s2, b)" and "b \<notin> set (pnl_snapshots s')"
    and same: "live_links s' i = live_links s i" and net: "\<And>c. net_open_tons (live_links s i) c = 0"
  shows "\<bar>snap_total_pnl a - snap_total_pnl b\<bar> \<le> of_nat (length (live_links s i)) / 1000000"
proof -
  let ?ls = "live_links s i"
  obtain p where a: "snap_total_pnl a = sum_list (map (leg_value p) ?ls)"
    using assms(1,2) by (rule fresh_pnl) blast
  obtain p' where b: "snap_total_pnl b = sum_list (map (leg_value p') ?ls)"
    using assms(3,4) by (rule fresh_pnl) (use same in metis)
  have "sum_list (map (\<lambda>e. case needs_price (snd e) of None \<Rightarrow> 0 | Some c \<Rightarrow> open_tons e * (p c - p' c)) ?ls)
      = (\<Sum>c\<in>set (commodities_needing_price ?ls). (p c - p' c) * net_open_tons ?ls c)"
    unfolding net_open_tons_def
    by (rule sum_by_commodity[where g = "\<lambda>e. needs_price (snd e)" and x = "\<lambda>c. p c - p' c"])
      (simp, force simp: commodities_needing_price_simps(1))
  also have "\<dots> = 0" using net by simp
  finally show ?thesis using leg_values_move[of p ?ls p'] by (simp add: a b)
qed

section \<open>The breakdown agrees with the snapshot\<close>

lemma breakdown_step_sums: "map_sum id fst (breakdown_step qs e (t, ph, fi)) = pnl_step qs e t"
proof -
  obtain l row where e: "e = (l, row)" by (cases e)
  show ?thesis
  proof (cases row)
    case (LOrder r)
    then show ?thesis
      by (cases "order_value r (order_market_price qs r)") (simp_all add: e breakdown_step_def pnl_step_def)
  next
    case (LContract c)
    show ?thesis
    proof (cases "hedge_open c")
      case True
      then show ?thesis
        by (cases "map_of qs (hc_commodity c)") (simp_all add: e LContract breakdown_step_def pnl_step_def hedge_mtm_def Let_def)
    qed (simp add: e LContract breakdown_step_def pnl_step_def hedge_mtm_def Let_def)
  qed
qed

lemma breakdown_fold:
  assumes "fold_result (pnl_step qs) ls t = Inr t'"
  shows "\<exists>ph' fi'. fold_result (breakdown_step qs) ls (t, ph, fi) = Inr (t', ph', fi')"
  using assms
proof (induction ls arbitrary: t ph fi)
  case (Cons e ls)
  then obtain t1 where t1: "pnl_step qs e t = Inr t1" "fold_result (pnl_step qs) ls t1 = Inr t'" by (auto split: sum.splits)
  obtain ph1 fi1 where "breakdown_step qs e (t, ph, fi) = Inr (t1, ph1, fi1)"
    using breakdown_step_sums[of qs e t ph fi] t1(1) by (cases "breakdown_step qs e (t, ph, fi)") auto
  with Cons.IH[OF t1(2)] show ?case by simp
qed simp

lemma filter_keyed:
  assumes "keyed key rows" and "get_row key k rows = Some r"
  shows "filter (\<lambda>r. key r = k) rows = [r]"
  using assms by (induction rows) (auto simp: keyed_def filter_empty_conv image_iff split: if_splits)

text \<open>C18: The two valuation paths agree. Whenever a fresh snapshot of a deal can be taken, the
  breakdown of that deal for the same date succeeds, has one row, and reports the same revenue,
  cost, hedge results and total, in the row and in its grand totals.\<close>

theorem pnl_breakdown_agrees:
  assumes "compute_deal_pnl k s now i d = Inr (s', snap)" and "snap \<notin> set (pnl_snapshots s)" and "keyed deal_id (deals s)"
  shows "\<exists>row. compute_pnl_breakdown s [i] d = Inr ([row], bd_totals row, snap_total_pnl snap) \<and> bd_deal_id row = i
    \<and> bd_total_pnl row = snap_total_pnl snap \<and> physical_revenue (bd_totals row) = snap_physical_revenue snap
    \<and> physical_cost (bd_totals row) = snap_physical_cost snap \<and> hedge_pnl_realized (bd_totals row) = snap_hedge_pnl_realized snap
    \<and> hedge_pnl_mtm (bd_totals row) = snap_hedge_pnl_mtm snap"
  using assms(1,2)
proof (rule fresh_pnl)
  fix qs totals
  assume qs: "map fst qs = commodities_needing_price (live_links s i)" "\<forall>(c, q) \<in> set qs. get_market_quote s c d = Inr q"
    and live: "live_links s i \<noteq> []" and fold: "fold_result (pnl_step qs) (live_links s i) no_pnl = Inr totals" and grid: "sums_on_grid totals"
    and snap: "snap_physical_revenue snap = physical_revenue totals" "snap_physical_cost snap = physical_cost totals"
    "snap_hedge_pnl_realized snap = hedge_pnl_realized totals" "snap_hedge_pnl_mtm snap = hedge_pnl_mtm totals"
    "total_pnl_of totals = snap_total_pnl snap"
  obtain deal where deal: "get_row deal_id i (deals s) = Some deal"
    using assms(1) by (auto simp: compute_deal_pnl_def get_deal_def)
  then have one: "filter (\<lambda>d. deal_id d \<in> set [i]) (deals s) = [deal]" "deal_id deal = i"
    using filter_keyed[OF assms(3) deal] get_row_SomeD[OF deal] by simp_all
  have "breakdown_quotes s d (commodities_needing_price (live_links s i)) = Inr qs" using qs by (simp add: breakdown_quotes_Inr)
  moreover obtain ph fi where "fold_result (breakdown_step qs) (live_links s i) (no_pnl, [], []) = Inr (totals, ph, fi)"
    using breakdown_fold[OF fold] by blast
  moreover have "quantize_money (total_pnl_of totals) = total_pnl_of totals" by (simp add: total_pnl_of_def)
  then have "deal_totals totals (total_pnl_of totals) (no_pnl, 0) = (totals, total_pnl_of totals)"
    using grid by (simp add: deal_totals_def no_pnl_def sums_on_grid_def)
  ultimately have "compute_pnl_breakdown s [i] d = Inr ([\<lparr>bd_deal_id = i, bd_deal_reference = deal_reference deal,
      bd_deal_name = deal_name deal, bd_commodity = deal_commodity deal, bd_totals = totals, bd_total_pnl = total_pnl_of totals,
      bd_physical_items = ph, bd_financial_items = fi\<rparr>], totals, total_pnl_of totals)"
    unfolding compute_pnl_breakdown_def Let_def using one live by (simp add: breakdown_deal_def)
  then show ?thesis using snap by simp
qed

section \<open>Stored snapshots\<close>

text \<open>The hash a request would store its snapshot under.\<close>

definition pnl_wanted :: "fingerprint \<Rightarrow> datetime \<times> uuid \<times> date \<Rightarrow> db \<Rightarrow> string" where
  "pnl_wanted k a s =
     (let (now, i, d) = a; links = live_links s i
      in case fold_result (collect_quote s d) (commodities_needing_price links) ([], []) of
           Inr (qs, _) \<Rightarrow> deal_inputs_hash k i d (map (dl_id \<circ> fst) links) (price_references_of qs)
         | Inl _ \<Rightarrow> '''')"

definition pnl_service :: "fingerprint \<Rightarrow> datetime \<times> uuid \<times> date \<Rightarrow> db \<Rightarrow> (db \<times> DealPNLSnapshot) result" where
  "pnl_service k = (\<lambda>(now, i, d) s. compute_deal_pnl k s now i d)"

lemma pnl_wanted_eq:
  assumes "compute_deal_pnl k s now i d = Inr (s', snap)"
  shows "snap_inputs_hash snap = pnl_wanted k (now, i, d) s"
  using assms
proof (rule pnl_collected)
  fix deal qs
  assume c: "fold_result (collect_quote s d) (commodities_needing_price (live_links s i)) ([], []) = Inr (qs, [])"
  from assms show ?thesis
  proof (cases rule: pnl_cases)
    case (stored qs')
    then have "price_references_of qs' = price_references_of qs"
      using collect_quotes[OF c] by (metis breakdown_quotes_Inr append_Nil sum.inject(2))
    with stored c show ?thesis by (simp add: pnl_wanted_def)
  next
    case (taken qs' totals)
    then have "price_references_of qs' = price_references_of qs"
      using collect_quotes[OF c] by (metis breakdown_quotes_Inr append_Nil sum.inject(2))
    with taken c show ?thesis by (simp add: pnl_wanted_def pnl_snapshot_row_def)
  qed
qed

interpretation deal_store: snapshot_store pnl_snapshots snap_inputs_hash "pnl_service k" "pnl_wanted k" for k
proof
  fix a s s' snap
  assume "pnl_service k a s = Inr (s', snap)"
  then obtain now i d where a: "a = (now, i, d)" and c: "compute_deal_pnl k s now i d = Inr (s', snap)"
    by (cases a) (auto simp: pnl_service_def)
  from c show "s' = s \<and> snap \<in> set (pnl_snapshots s) \<or>
      pnl_snapshots s' = pnl_snapshots s @ [snap] \<and> snap_inputs_hash snap \<notin> snap_inputs_hash ` set (pnl_snapshots s)"
    by (cases rule: pnl_cases) auto
  from pnl_wanted_eq[OF c] show "snap_inputs_hash snap = pnl_wanted k a s" by (simp add: a)
qed

text \<open>The hash covers the identifiers of the live links and the prices, not the rows the links point
  to. So a request finds the old snapshot as long as these are unchanged, even when the orders
  and contracts were edited in between.\<close>

lemma stored_snapshot_found:
  assumes "compute_deal_pnl k s now i d = Inr (s', snap)" and "keyed snap_inputs_hash (pnl_snapshots t)" and "snap \<in> set (pnl_snapshots t)"
    and "get_deal t i \<noteq> None" and "prices t = prices s"
    and links: "map (dl_id \<circ> fst) (live_links t i) = map (dl_id \<circ> fst) (live_links s i)"
    and needs: "commodities_needing_price (live_links t i) = commodities_needing_price (live_links s i)"
  shows "compute_deal_pnl k t now' i d = Inr (t, snap)"
  using assms(1)
proof (rule pnl_collected)
  fix deal qs
  let ?h = "deal_inputs_hash k i d (map (dl_id \<circ> fst) (live_links s i)) (price_references_of qs)"
  assume live: "live_links s i \<noteq> []"
    and c: "fold_result (collect_quote s d) (commodities_needing_price (live_links s i)) ([], []) = Inr (qs, [])"
  have "collect_quote t d = collect_quote s d"
    by (intro ext) (simp add: collect_quote_def get_market_quote_def d1.reads_prices[OF assms(5)])
  with c needs have ct: "fold_result (collect_quote t d) (commodities_needing_price (live_links t i)) ([], []) = Inr (qs, [])" by simp
  have h: "snap_inputs_hash snap = ?h"
    using pnl_wanted_eq[OF assms(1)] c by (simp add: pnl_wanted_def)
  then obtain x where x: "find (\<lambda>x. snap_inputs_hash x = ?h) (pnl_snapshots t) = Some x"
    using assms(3) by (cases "find (\<lambda>x. snap_inputs_hash x = ?h) (pnl_snapshots t)") (auto simp: find_None_iff)
  then have "x = snap" using find_SomeD[OF x] keyed_inj[OF assms(2) _ assms(3)] h by simp
  moreover have "live_links t i \<noteq> []" using live links by (metis Nil_is_map_conv)
  ultimately show ?thesis
    using assms(4) ct x links by (auto simp: compute_deal_pnl_def Let_def)
qed

text \<open>A price correction leaves a trail. After a snapshot of a deal was taken, a later request for
  the same deal and date either answers with a stored row, or adds one row with another hash;
  in every case the old row is still there, unchanged, and hashes stay unique.\<close>

theorem pnl_trail_kept:
  assumes "keyed snap_inputs_hash (pnl_snapshots s)" and "compute_deal_pnl k s now i d = Inr (s1, a)"
    and "(\<lambda>u v. pnl_snapshots v = pnl_snapshots u \<or> (\<exists>now i d x. compute_deal_pnl k u now i d = Inr (v, x)))\<^sup>*\<^sup>* s1 s2"
    and "compute_deal_pnl k s2 now' i d = Inr (s3, b)"
  shows "a \<in> set (pnl_snapshots s3) \<and> b \<in> set (pnl_snapshots s3) \<and> keyed snap_inputs_hash (pnl_snapshots s3)
    \<and> (snap_inputs_hash b = snap_inputs_hash a \<longleftrightarrow> b = a)"
proof -
  have steps: "(\<lambda>u v. pnl_snapshots v = pnl_snapshots u \<or> (\<exists>now i d x. compute_deal_pnl k u now i d = Inr (v, x)))
      \<le> deal_store.store_step k"
    unfolding deal_store.store_step_def by (auto simp: pnl_service_def)
  have run: "(deal_store.store_step k)\<^sup>*\<^sup>* s1 s2"
    using assms(3) by (rule predicate2D[OF rtranclp_mono[OF steps]])
  have first: "deal_store.store_step k s s1" and last: "deal_store.store_step k s2 s3"
    using assms(2,4) steps by blast+
  have "keyed snap_inputs_hash (pnl_snapshots s3)"
    by (intro deal_store.store_step_rows(2)[OF last] deal_store.store_run_rows(2)[OF run] deal_store.store_step_rows(2)[OF first] assms(1))
  moreover have "a \<in> set (pnl_snapshots s1)" "b \<in> set (pnl_snapshots s3)"
    using deal_store.create_stored[of k "(now, i, d)"] deal_store.create_stored[of k "(now', i, d)"] assms(2,4)
    by (simp_all add: pnl_service_def)
  moreover from this have "a \<in> set (pnl_snapshots s3)"
    using deal_store.store_run_rows(1)[OF run] deal_store.store_step_rows(1)[OF last] by blast
  ultimately show ?thesis using keyed_inj by metis
qed

end
