(* ===== verification/Valuation.thy ===== *)
theory Valuation
  imports Cashflow_Ledger
begin

text \<open>
  \<open>backend/app/services/mtm_contract_service.py\<close>, \<open>mtm_order_service.py\<close> and
  \<open>pl_calculation_service.py\<close>: the mark-to-market of one contract or order at the D-1 settlement
  price, and the profit and loss of a contract over a period, which is what the ledger realised in
  the period plus the mark-to-market at its end. \<open>PriceProvenanceMissing\<close> is the subclass of
  \<open>HTTPException\<close> with status 424 that the finance pipeline tells apart.
\<close>

section \<open>Mark-to-market\<close>

record MTMResultResponse =
  mr_object_type :: MTMObjectType
  mr_object_id :: uuid
  mr_as_of_date :: date
  mr_mtm_value :: decimal
  mr_price_d1 :: decimal
  mr_entry_price :: decimal
  mr_quantity_mt :: decimal
  mr_price_quote :: "PriceQuote option"

definition unprovable_to_missing :: "'a result \<Rightarrow> 'a result" where
  "unprovable_to_missing r = (case r of
       Inl (PriceReferenceUnprovable m) \<Rightarrow> Inl (PriceProvenanceMissing m)
     | x \<Rightarrow> x)"

definition compute_mtm_for_contract :: "db \<Rightarrow> uuid \<Rightarrow> date \<Rightarrow> MTMResultResponse result" where
  "compute_mtm_for_contract s contract_id as_of_date =
     and_then (require (get_contract s contract_id) (http HTTP_404 ''Hedge contract not found'')) (\<lambda>contract.
     and_then (raise_if (\<not> hedge_open contract) (http HTTP_409 ''Hedge contract is not active or partially settled'')) (\<lambda>_.
     and_then (require (hc_fixed_price_value contract) (http HTTP_409 ''Hedge contract entry_price is missing'')) (\<lambda>entry_price.
     and_then (resolve_symbol (hc_commodity contract)) (\<lambda>symb.
     and_then (unprovable_to_missing (get_cash_settlement_price_d1_with_provenance s symb as_of_date)) (\<lambda>price_quote.
     Inr \<lparr>mr_object_type = MO_hedge_contract, mr_object_id = hc_id contract, mr_as_of_date = as_of_date,
          mr_mtm_value = hc_quantity_mt contract * (pq_value price_quote - entry_price),
          mr_price_d1 = pq_value price_quote, mr_entry_price = entry_price,
          mr_quantity_mt = hc_quantity_mt contract, mr_price_quote = Some price_quote\<rparr>)))))"

definition compute_mtm_for_order :: "db \<Rightarrow> uuid \<Rightarrow> date \<Rightarrow> MTMResultResponse result" where
  "compute_mtm_for_order s order_id as_of_date =
     and_then (require (get_order s order_id) (http HTTP_404 ''Order not found'')) (\<lambda>order.
     and_then (raise_if (ord_price_type order \<noteq> PT_variable) (http HTTP_409 ''MTM is not defined for fixed-price orders'')) (\<lambda>_.
     and_then (raise_if (ord_pricing_convention order \<notin> {Some OPC_avg, Some OPC_avginter, Some OPC_c2r})
       (http HTTP_409 ''Order pricing_convention is not MTM-eligible'')) (\<lambda>_.
     and_then (require (ord_avg_entry_price order) (http HTTP_409 ''Order avg_entry_price is missing'')) (\<lambda>entry_price.
     and_then (resolve_symbol (ord_commodity order)) (\<lambda>symb.
     and_then (unprovable_to_424 (get_cash_settlement_price_d1_with_provenance s symb as_of_date)) (\<lambda>price_quote.
     Inr \<lparr>mr_object_type = MO_order, mr_object_id = ord_id order, mr_as_of_date = as_of_date,
          mr_mtm_value = ord_quantity_mt order * (pq_value price_quote - entry_price),
          mr_price_d1 = pq_value price_quote, mr_entry_price = entry_price,
          mr_quantity_mt = ord_quantity_mt order, mr_price_quote = Some price_quote\<rparr>))))))"

section \<open>Profit and loss of a period\<close>

record PLResultResponse =
  plr_realized_pl :: decimal
  plr_unrealized_mtm :: decimal
  plr_price_references :: "PriceReferenceEntry list"

text \<open>\<open>_append_reference\<close>: the key of an entry is its four columns.\<close>

definition append_reference :: "PriceReferenceEntry \<Rightarrow> PriceReferenceEntry list \<Rightarrow> PriceReferenceEntry list" where
  "append_reference entry price_references =
     (if entry \<in> set price_references then price_references else price_references @ [entry])"

definition reference_of_quote :: "PriceQuote \<Rightarrow> PriceReferenceEntry" where
  "reference_of_quote q = \<lparr>pre_symbol = pq_symbol q, pre_source = pq_source q,
     pre_settlement_date = pq_settlement_date q, pre_value = pq_value q\<rparr>"

definition reference_of_entry :: "CashFlowLedgerEntry \<Rightarrow> PriceReferenceEntry option" where
  "reference_of_entry e =
     (case (le_price_source e, le_price_symbol e, le_price_settlement_date e, le_price_value e) of
        (Some source, Some symb, Some d, Some v) \<Rightarrow>
          Some \<lparr>pre_symbol = symb, pre_source = source, pre_settlement_date = d, pre_value = v\<rparr>
      | _ \<Rightarrow> None)"

definition compute_unrealized_mtm_for_contract ::
    "db \<Rightarrow> HedgeContract \<Rightarrow> date \<Rightarrow> PriceReferenceEntry list \<Rightarrow> (decimal \<times> PriceReferenceEntry list) result" where
  "compute_unrealized_mtm_for_contract s contract period_end price_references =
     (if hedge_open contract then
        and_then (compute_mtm_for_contract s (hc_id contract) period_end) (\<lambda>mtm.
        and_then (require (mr_price_quote mtm) (HTTPException HTTP_424
          (Msg ''MTM result for {} has no price provenance'' [AId (hc_id contract)]))) (\<lambda>price_quote.
          Inr (mr_mtm_value mtm, append_reference (reference_of_quote price_quote) price_references)))
      else if hc_status contract = HS_settled then Inr (0, price_references)
      else Inl (http HTTP_409 ''P&L is not defined for cancelled hedge contracts''))"

definition period_entries :: "db \<Rightarrow> uuid \<Rightarrow> date \<Rightarrow> date \<Rightarrow> CashFlowLedgerEntry list" where
  "period_entries s entity_id period_start period_end =
     sort_key le_cashflow_date (sort_key le_created_at
       (filter (\<lambda>e. le_hedge_contract_id e = entity_id \<and> le_source_event_type e = SOURCE_EVENT_TYPE
          \<and> period_start \<le> le_cashflow_date e \<and> le_cashflow_date e \<le> period_end) (ledger_entries s)))"

text \<open>One turn of the loop over the ledger entries.\<close>

definition realize_entry ::
    "CashFlowLedgerEntry \<Rightarrow> decimal \<times> PriceReferenceEntry list \<Rightarrow> (decimal \<times> PriceReferenceEntry list) result" where
  "realize_entry e acc =
     (let (realized_pl, price_references) = acc
      in and_then (if le_direction e = ''IN'' then Inr (realized_pl + le_amount e)
                   else if le_direction e = ''OUT'' then Inr (realized_pl - le_amount e)
                   else Inl (HTTPException HTTP_422 (Msg ''Unsupported ledger direction: {}'' [AStr (le_direction e)]))) (\<lambda>pl.
         Inr (pl, case reference_of_entry e of
                None \<Rightarrow> price_references
              | Some r \<Rightarrow> append_reference r price_references)))"

definition compute_pl :: "db \<Rightarrow> string \<Rightarrow> uuid \<Rightarrow> date \<Rightarrow> date \<Rightarrow> PLResultResponse result" where
  "compute_pl s entity_type entity_id period_start period_end =
     and_then (raise_if (period_end < period_start)
       (http HTTP_422 ''period_end must be greater than or equal to period_start'')) (\<lambda>_.
     and_then (raise_if (entity_type = ''order'')
       (http HTTP_424 ''Realized cashflow ledger not implemented for orders'')) (\<lambda>_.
     and_then (raise_if (entity_type \<noteq> ''hedge_contract'')
       (http HTTP_422 ''entity_type must be hedge_contract or order'' )) (\<lambda>_.
     and_then (fold_result realize_entry (period_entries s entity_id period_start period_end) (0, [])) (\<lambda>(realized_pl, references).
     and_then (require (get_contract s entity_id) (http HTTP_404 ''Hedge contract not found'')) (\<lambda>contract.
     and_then (compute_unrealized_mtm_for_contract s contract period_end references) (\<lambda>(unrealized_mtm, price_references).
     Inr \<lparr>plr_realized_pl = realized_pl, plr_unrealized_mtm = unrealized_mtm,
          plr_price_references = price_references\<rparr>))))))"

section \<open>What a valuation reads\<close>

lemma mtm_cong:
  assumes "contracts s' = contracts s" and "prices s' = prices s"
  shows "compute_mtm_for_contract s' = compute_mtm_for_contract s"
  by (intro ext) (simp add: compute_mtm_for_contract_def get_contract_def assms(1) d1.reads_prices[OF assms(2)])

lemma order_mtm_cong:
  assumes "orders s' = orders s" and "prices s' = prices s"
  shows "compute_mtm_for_order s' = compute_mtm_for_order s"
  by (intro ext) (simp add: compute_mtm_for_order_def get_order_def assms(1) d1.reads_prices[OF assms(2)])

lemma pl_cong:
  assumes "contracts s' = contracts s" and "prices s' = prices s" and "ledger_entries s' = ledger_entries s"
  shows "compute_pl s' = compute_pl s"
proof -
  have "compute_unrealized_mtm_for_contract s' = compute_unrealized_mtm_for_contract s"
    unfolding compute_unrealized_mtm_for_contract_def mtm_cong[OF assms(1,2)] by (rule refl)
  moreover have "period_entries s' = period_entries s"
    unfolding period_entries_def assms(3) by (rule refl)
  ultimately show ?thesis
    unfolding compute_pl_def get_contract_def assms(1) by (rule_tac ext)+ simp
qed

section \<open>Realised profit as a sum\<close>

lemma net_cashflow_simps [simp]:
  "net_cashflow [] = 0"
  "net_cashflow (e # es) = (if le_direction e = ''IN'' then le_amount e else - le_amount e) + net_cashflow es"
  by (simp_all add: net_cashflow_def)

lemma net_cashflow_sort [simp]: "net_cashflow (sort_key k es) = net_cashflow es"
  unfolding net_cashflow_def by (simp only: sum_mset_sum_list [symmetric] mset_map mset_sort)

lemma net_cashflow_split:
  "net_cashflow (filter P es) = net_cashflow (filter (\<lambda>e. P e \<and> Q e) es) + net_cashflow (filter (\<lambda>e. P e \<and> \<not> Q e) es)"
  by (induction es) auto

definition booked_direction :: "CashFlowLedgerEntry \<Rightarrow> bool" where
  "booked_direction e \<longleftrightarrow> le_direction e = ''IN'' \<or> le_direction e = ''OUT''"

lemma realize_entries:
  "(case fold_result realize_entry es (pl, refs) of
      Inl _ \<Rightarrow> \<not> list_all booked_direction es
    | Inr (pl', _) \<Rightarrow> list_all booked_direction es \<and> pl' = pl + net_cashflow es)"
proof (induction es arbitrary: pl refs)
  case (Cons e es)
  define refs1 where "refs1 = (case reference_of_entry e of None \<Rightarrow> refs | Some r \<Rightarrow> append_reference r refs)"
  have step: "realize_entry e (pl, refs) =
    (if le_direction e = ''IN'' then Inr (pl + le_amount e, refs1)
     else if le_direction e = ''OUT'' then Inr (pl - le_amount e, refs1)
     else Inl (HTTPException HTTP_422 (Msg ''Unsupported ledger direction: {}'' [AStr (le_direction e)])))"
    by (simp add: realize_entry_def refs1_def)
  consider (inflow) "le_direction e = ''IN''" | (outflow) "le_direction e = ''OUT''"
    | (other) "\<not> booked_direction e" by (auto simp: booked_direction_def)
  then show ?case
  proof cases
    case inflow
    then show ?thesis using Cons.IH[of "pl + le_amount e" refs1] by (auto simp: step booked_direction_def split: sum.splits)
  next
    case outflow
    then show ?thesis using Cons.IH[of "pl - le_amount e" refs1] by (auto simp: step booked_direction_def split: sum.splits)
  next
    case other
    then show ?thesis by (simp add: step booked_direction_def)
  qed
qed simp

lemma realize_entries_Inr:
  assumes "fold_result realize_entry es (0, []) = Inr (pl, refs)"
  shows "list_all booked_direction es" "pl = net_cashflow es"
  using realize_entries[of es 0 "[]"] assms by auto

lemma realize_entries_ok:
  assumes "list_all booked_direction es"
  obtains refs where "fold_result realize_entry es (0, []) = Inr (net_cashflow es, refs)"
  using realize_entries[of es 0 "[]"] assms by (auto split: sum.splits)

lemma list_all_sort [simp]: "list_all P (sort_key k xs) \<longleftrightarrow> list_all P xs"
  by (simp add: list_all_iff)

text \<open>The unrealised part does not depend on the references collected before.\<close>

lemma unrealized_refs:
  assumes "compute_unrealized_mtm_for_contract s c d refs = Inr (v, refs')"
  obtains refs'' where "compute_unrealized_mtm_for_contract s c d rs = Inr (v, refs'')"
  using assms unfolding compute_unrealized_mtm_for_contract_def by (auto split: if_splits)

lemma compute_pl_Inr:
  "compute_pl s ''hedge_contract'' i a b = Inr r \<longleftrightarrow>
     a \<le> b \<and> (\<exists>c refs. list_all booked_direction (period_entries s i a b)
       \<and> fold_result realize_entry (period_entries s i a b) (0, []) = Inr (plr_realized_pl r, refs)
       \<and> get_contract s i = Some c
       \<and> compute_unrealized_mtm_for_contract s c b refs = Inr (plr_unrealized_mtm r, plr_price_references r))"
proof
  assume "compute_pl s ''hedge_contract'' i a b = Inr r"
  then obtain pl refs c v refs' where "a \<le> b" "fold_result realize_entry (period_entries s i a b) (0, []) = Inr (pl, refs)"
    "get_contract s i = Some c" "compute_unrealized_mtm_for_contract s c b refs = Inr (v, refs')"
    "r = \<lparr>plr_realized_pl = pl, plr_unrealized_mtm = v, plr_price_references = refs'\<rparr>"
    by (auto simp: compute_pl_def)
  then show "a \<le> b \<and> (\<exists>c refs. list_all booked_direction (period_entries s i a b)
       \<and> fold_result realize_entry (period_entries s i a b) (0, []) = Inr (plr_realized_pl r, refs)
       \<and> get_contract s i = Some c
       \<and> compute_unrealized_mtm_for_contract s c b refs = Inr (plr_unrealized_mtm r, plr_price_references r))"
    using realize_entries_Inr(1) by simp
next
  assume "a \<le> b \<and> (\<exists>c refs. list_all booked_direction (period_entries s i a b)
       \<and> fold_result realize_entry (period_entries s i a b) (0, []) = Inr (plr_realized_pl r, refs)
       \<and> get_contract s i = Some c
       \<and> compute_unrealized_mtm_for_contract s c b refs = Inr (plr_unrealized_mtm r, plr_price_references r))"
  then show "compute_pl s ''hedge_contract'' i a b = Inr r"
    by (cases r) (auto simp: compute_pl_def)
qed

lemma set_period_entries:
  "set (period_entries s i a b) = {e \<in> set (ledger_entries s). le_hedge_contract_id e = i
     \<and> le_source_event_type e = SOURCE_EVENT_TYPE \<and> a \<le> le_cashflow_date e \<and> le_cashflow_date e \<le> b}"
  by (auto simp: period_entries_def)

lemma net_cashflow_period:
  "net_cashflow (period_entries s i a b) =
     net_cashflow (filter (\<lambda>e. le_hedge_contract_id e = i \<and> le_source_event_type e = SOURCE_EVENT_TYPE
       \<and> a \<le> le_cashflow_date e \<and> le_cashflow_date e \<le> b) (ledger_entries s))"
  by (simp add: period_entries_def)

lemma period_entries_split:
  assumes "a \<le> m" and "next_day m = Inr m'" and "m' \<le> b" and "valid_date m"
    and valid: "\<forall>e \<in> set (ledger_entries s). valid_date (le_cashflow_date e)"
  shows "net_cashflow (period_entries s i a b) = net_cashflow (period_entries s i a m) + net_cashflow (period_entries s i m' b)"
    and "set (period_entries s i a m) \<subseteq> set (period_entries s i a b)"
    and "set (period_entries s i m' b) \<subseteq> set (period_entries s i a b)"
proof -
  let ?P = "\<lambda>e. le_hedge_contract_id e = i \<and> le_source_event_type e = SOURCE_EVENT_TYPE
    \<and> a \<le> le_cashflow_date e \<and> le_cashflow_date e \<le> b"
  have m: "m < m'" using assms(2) by (rule next_day_greater)
  have "m' \<le> le_cashflow_date e \<longleftrightarrow> \<not> le_cashflow_date e \<le> m" if "e \<in> set (ledger_entries s)" for e
    using next_day_least[OF assms(4) _ assms(2)] valid that m by (meson leD le_less_trans not_le)
  then have "filter (\<lambda>e. ?P e \<and> le_cashflow_date e \<le> m) (ledger_entries s) =
      filter (\<lambda>e. le_hedge_contract_id e = i \<and> le_source_event_type e = SOURCE_EVENT_TYPE
        \<and> a \<le> le_cashflow_date e \<and> le_cashflow_date e \<le> m) (ledger_entries s)"
    and "filter (\<lambda>e. ?P e \<and> \<not> le_cashflow_date e \<le> m) (ledger_entries s) =
      filter (\<lambda>e. le_hedge_contract_id e = i \<and> le_source_event_type e = SOURCE_EVENT_TYPE
        \<and> m' \<le> le_cashflow_date e \<and> le_cashflow_date e \<le> b) (ledger_entries s)"
    using assms(1,3) m by (auto intro!: filter_cong)
  then show "net_cashflow (period_entries s i a b) = net_cashflow (period_entries s i a m) + net_cashflow (period_entries s i m' b)"
    unfolding net_cashflow_period by (subst net_cashflow_split[of _ _ "\<lambda>e. le_cashflow_date e \<le> m"]) simp
  show "set (period_entries s i a m) \<subseteq> set (period_entries s i a b)"
    "set (period_entries s i m' b) \<subseteq> set (period_entries s i a b)"
    using assms(1,3) m by (auto simp: set_period_entries)
qed

section \<open>Properties\<close>

text \<open>C15: Profit and loss is additive over consecutive periods: when the P&L of a contract from
  \<open>a\<close> to \<open>b\<close> and from \<open>a\<close> to an earlier day \<open>m\<close> can be computed, so can that from the day after
  \<open>m\<close> to \<open>b\<close>; the realised parts add up and the unrealised part is that of the whole period.\<close>

theorem pl_periods_add_up:
  assumes "compute_pl s ''hedge_contract'' i a b = Inr r" and "compute_pl s ''hedge_contract'' i a m = Inr r1"
    and "next_day m = Inr m'" and "m' \<le> b" and "valid_date m"
    and "\<forall>e \<in> set (ledger_entries s). valid_date (le_cashflow_date e)"
  shows "\<exists>r2. compute_pl s ''hedge_contract'' i m' b = Inr r2
    \<and> plr_realized_pl r = plr_realized_pl r1 + plr_realized_pl r2 \<and> plr_unrealized_mtm r2 = plr_unrealized_mtm r"
proof -
  obtain c refs where am: "a \<le> m" and all: "list_all booked_direction (period_entries s i a b)"
    and whole: "plr_realized_pl r = net_cashflow (period_entries s i a b)"
    and first: "plr_realized_pl r1 = net_cashflow (period_entries s i a m)"
    and c: "get_contract s i = Some c"
    and mtm: "compute_unrealized_mtm_for_contract s c b refs = Inr (plr_unrealized_mtm r, plr_price_references r)"
    using assms(1,2) unfolding compute_pl_Inr by (auto dest: realize_entries_Inr)
  note split = period_entries_split[OF am assms(3,4,5,6), of i]
  have ok: "list_all booked_direction (period_entries s i m' b)"
    using all split(3) by (auto simp: list_all_iff)
  then obtain refs2 where run: "fold_result realize_entry (period_entries s i m' b) (0, []) = Inr (net_cashflow (period_entries s i m' b), refs2)"
    by (rule realize_entries_ok)
  obtain refs3 where mtm2: "compute_unrealized_mtm_for_contract s c b refs2 = Inr (plr_unrealized_mtm r, refs3)"
    using mtm by (rule unrealized_refs)
  let ?r2 = "\<lparr>plr_realized_pl = net_cashflow (period_entries s i m' b), plr_unrealized_mtm = plr_unrealized_mtm r,
     plr_price_references = refs3\<rparr>"
  have "compute_pl s ''hedge_contract'' i m' b = Inr ?r2"
    unfolding compute_pl_Inr using ok run c mtm2 assms(4) by auto
  then show ?thesis using whole first split(1) by auto
qed

text \<open>C11: Settling a contract turns its mark-to-market into realised profit. After a fresh settlement
  of a contract that has no ledger entries yet, its P&L over any period that contains the
  cashflow date is the net amount of the settlement, all of it realised; over a period that ends earlier it
  is zero.\<close>

theorem settlement_realizes_pl:
  assumes post: "post_settlement s now cid p = Inr (s', ev, es)"
    and fresh: "get_row se_id (sc_source_event_id p) (settlement_events s) = None"
    and c: "get_contract s cid = Some c"
    and none: "\<forall>e \<in> set (ledger_entries s). le_hedge_contract_id e \<noteq> cid"
    and ab: "a \<le> b"
  shows "\<exists>r. compute_pl s' ''hedge_contract'' cid a b = Inr r \<and> plr_unrealized_mtm r = 0
    \<and> (if a \<le> sc_cashflow_date p \<and> sc_cashflow_date p \<le> b then plr_realized_pl r = net_cashflow es
       else plr_realized_pl r = 0)"
proof -
  obtain xs where es: "es = new_ledger_entries now cid p (next_uuid s) xs"
    and s': "s' = write_contract cid (\<lambda>c. c\<lparr>hc_status := HS_settled\<rparr>)
       (s\<lparr>settlement_events := settlement_events s @ [ev], ledger_entries := ledger_entries s @ es,
          next_uuid := next_uuid s + length es\<rparr>)"
    using post fresh by (rule settlement_fresh)
  have entry: "le_hedge_contract_id e = cid \<and> le_source_event_type e = SOURCE_EVENT_TYPE
      \<and> le_cashflow_date e = sc_cashflow_date p \<and> booked_direction e" if "e \<in> set es" for e
  proof -
    from that obtain k x where "e = ledger_entry now cid p k x" by (auto simp: es new_ledger_entries_def)
    then show ?thesis by (cases "xe_direction x") (simp_all add: ledger_entry_def booked_direction_def)
  qed
  have tables: "ledger_entries s' = ledger_entries s @ es" "get_contract s' cid = Some (c\<lparr>hc_status := HS_settled\<rparr>)"
    using c by (simp_all add: s' get_contract_write) (simp_all add: write_contract_def get_contract_def)
  define inside where "inside \<longleftrightarrow> a \<le> sc_cashflow_date p \<and> sc_cashflow_date p \<le> b"
  have period: "period_entries s' cid a b = sort_key le_cashflow_date (sort_key le_created_at (if inside then es else []))"
    using entry none by (auto simp: period_entries_def tables inside_def filter_empty_conv intro!: arg_cong[where f = "sort_key _"])
  have "list_all booked_direction (period_entries s' cid a b)"
    using entry by (simp add: period list_all_iff)
  moreover from this obtain refs where "fold_result realize_entry (period_entries s' cid a b) (0, []) =
      Inr (net_cashflow (period_entries s' cid a b), refs)"
    by (rule realize_entries_ok)
  moreover have "compute_unrealized_mtm_for_contract s' (c\<lparr>hc_status := HS_settled\<rparr>) b refs = Inr (0, refs)" for refs
    by (simp add: compute_unrealized_mtm_for_contract_def hedge_open_def)
  ultimately have "compute_pl s' ''hedge_contract'' cid a b = Inr \<lparr>plr_realized_pl = net_cashflow (period_entries s' cid a b),
      plr_unrealized_mtm = 0, plr_price_references = refs\<rparr>"
    unfolding compute_pl_Inr using ab tables(2) by auto
  then show ?thesis by (auto simp: period inside_def)
qed

text \<open>The mark-to-market of a contract does not look at its side: it is the quantity times the price
  less the entry price for bought and for sold hedges. A hedge that sells fixed settles at the
  opposite value, so its reported P&L changes sign on the day it is settled.\<close>

lemma mtm_value:
  assumes "compute_mtm_for_contract s i d = Inr r"
  obtains c where "get_contract s i = Some c" "hedge_open c" "hc_fixed_price_value c = Some (mr_entry_price r)"
    "mr_mtm_value r = hc_quantity_mt c * (mr_price_d1 r - mr_entry_price r)"
  using assms by (auto simp: compute_mtm_for_contract_def)

lemma short_mtm_flips_at_settlement:
  assumes "compute_mtm_for_contract s i d = Inr r" and "get_contract s i = Some c" and "hc_fixed_leg_side c = Leg_sell"
    and "quantize_money (hc_quantity_mt c * mr_price_d1 r) = hc_quantity_mt c * mr_price_d1 r"
    and "quantize_money (hc_quantity_mt c * mr_entry_price r) = hc_quantity_mt c * mr_entry_price r"
  shows "settlement_value c (mr_entry_price r) (mr_price_d1 r) = - mr_mtm_value r"
  using assms(1)
proof (rule mtm_value)
  fix c' assume "get_contract s i = Some c'" "mr_mtm_value r = hc_quantity_mt c' * (mr_price_d1 r - mr_entry_price r)"
  then show ?thesis using assms(2-) by (simp add: settlement_value_def algebra_simps)
qed

section \<open>Examples\<close>

definition sample_ledger_entry :: "uuid \<Rightarrow> date \<Rightarrow> string \<Rightarrow> decimal \<Rightarrow> CashFlowLedgerEntry" where
  "sample_ledger_entry i d direction_value amount =
     \<lparr>le_id = i, le_hedge_contract_id = 1, le_source_event_type = SOURCE_EVENT_TYPE, le_source_event_id = None,
      le_leg_id = ''FIXED'', le_cashflow_date = d, le_currency = ''USD'', le_direction = direction_value, le_amount = amount,
      le_price_source = None, le_price_symbol = None, le_price_settlement_date = None, le_price_value = None, le_created_at = 0\<rparr>"

definition ledger_db :: db where
  "ledger_db = sample_db\<lparr>contracts := [(sample_contract 1 HC_short 60)\<lparr>hc_status := HS_settled\<rparr>],
     ledger_entries := [sample_ledger_entry 8 (Date 2026 3 11) ''IN'' 700, sample_ledger_entry 9 (Date 2026 3 12) ''OUT'' 300]\<rparr>"

lemma ledger_db_pl:
  assumes "a = Date 2026 3 10" and "b = Date 2026 3 12 \<and> v = 400 \<or> b = Date 2026 3 11 \<and> v = 700"
  shows "\<exists>r. compute_pl ledger_db ''hedge_contract'' 1 a b = Inr r \<and> plr_realized_pl r = v"
  using assms by (auto simp: compute_pl_def period_entries_def ledger_db_def sample_ledger_entry_def sample_defs
      get_contract_def compute_unrealized_mtm_for_contract_def hedge_open_def realize_entry_def reference_of_entry_def
      less_eq_date_def)

theorem pl_periods_add_up_witness:
  "\<exists>r2. compute_pl ledger_db ''hedge_contract'' 1 (Date 2026 3 12) (Date 2026 3 12) = Inr r2 \<and> plr_realized_pl r2 = - 300"
proof -
  obtain r where r: "compute_pl ledger_db ''hedge_contract'' 1 (Date 2026 3 10) (Date 2026 3 12) = Inr r" "plr_realized_pl r = 400"
    using ledger_db_pl by blast
  obtain r1 where r1: "compute_pl ledger_db ''hedge_contract'' 1 (Date 2026 3 10) (Date 2026 3 11) = Inr r1" "plr_realized_pl r1 = 700"
    using ledger_db_pl by blast
  have "next_day (Date 2026 3 11) = Inr (Date 2026 3 12)" "Date 2026 3 12 \<le> Date 2026 3 12" "valid_date (Date 2026 3 11)"
    "\<forall>e \<in> set (ledger_entries ledger_db). valid_date (le_cashflow_date e)"
    by (simp_all add: ledger_db_def sample_ledger_entry_def days_in_month_def MINYEAR_def MAXYEAR_def)
  from pl_periods_add_up[OF r(1) r1(1) this] r(2) r1(2) show ?thesis by auto
qed

theorem settlement_realizes_pl_witness:
  "\<exists>s' ev es. post_settlement priced_db 7 1 sample_settlement = Inr (s', ev, es)
     \<and> (\<exists>r. compute_pl s' ''hedge_contract'' 1 (Date 2026 3 1) (Date 2026 3 31) = Inr r \<and> plr_realized_pl r = net_cashflow es)"
proof -
  obtain s' ev es where p: "post_settlement priced_db 7 1 sample_settlement = Inr (s', ev, es)"
    using sample_settlement_posted by blast
  have "get_row se_id (sc_source_event_id sample_settlement) (settlement_events priced_db) = None"
    "get_contract priced_db 1 = Some (sample_contract 1 HC_short 60)"
    "\<forall>e \<in> set (ledger_entries priced_db). le_hedge_contract_id e \<noteq> 1" "Date 2026 3 1 \<le> Date 2026 3 31"
    by (simp_all add: priced_db_def sample_defs get_defs less_eq_date_def)
  from settlement_realizes_pl[OF p this] p show ?thesis
    by (auto simp: sample_settlement_def less_eq_date_def)
qed

end
