(* ===== verification/Valuation_Snapshots.thy ===== *)
theory Valuation_Snapshots
  imports Valuation Provenance Snapshot_Store
begin

text \<open>
  \<open>backend/app/services/mtm_snapshot_service.py\<close> and \<open>pl_snapshot_service.py\<close>: immutable snapshots of
  a valuation. Asking again for a stored snapshot recomputes it and answers with the stored row
  if the two agree and with a conflict otherwise. The parameter \<open>col\<close> is what the database keeps
  of a number in a \<open>NUMERIC(18,6)\<close> column; a stored row is read back by a later session.
\<close>

section \<open>Mark-to-market snapshots\<close>

fun mtm_object_type_value :: "MTMObjectType \<Rightarrow> string" where
  "mtm_object_type_value MO_hedge_contract = ''hedge_contract''"
| "mtm_object_type_value MO_order = ''order''"

definition mtm_inputs_hash :: "fingerprint \<Rightarrow> MTMResultResponse \<Rightarrow> string result" where
  "mtm_inputs_hash k computed =
     and_then (require (mr_price_quote computed) (http HTTP_424 ''MTM price provenance is missing'')) (\<lambda>q.
     Inr (sha256_json k (JObj
       [(''as_of_date'', JDate (mr_as_of_date computed)),
        (''object_type'', JStr (mtm_object_type_value (mr_object_type computed))),
        (''object_id'', JId (mr_object_id computed)),
        (''entry_price'', JDec (mr_entry_price computed)),
        (''quantity_mt'', JDec (mr_quantity_mt computed)),
        (''price_value'', JDec (pq_value q)),
        (''price_source'', JStr (pq_source q)),
        (''price_settlement_date'', JDate (pq_settlement_date q)),
        (''symbol'', JStr (pq_symbol q))])))"

definition snapshot_matches :: "MTMSnapshot \<Rightarrow> MTMResultResponse \<Rightarrow> string \<Rightarrow> bool" where
  "snapshot_matches snapshot computed inputs_hash =
     (case mr_price_quote computed of
        None \<Rightarrow> False
      | Some q \<Rightarrow>
          (ms_mtm_value snapshot = mr_mtm_value computed \<and> ms_price_d1 snapshot = mr_price_d1 computed
           \<and> ms_entry_price snapshot = mr_entry_price computed \<and> ms_quantity_mt snapshot = mr_quantity_mt computed)
          \<and> ((ms_price_source snapshot = None \<and> ms_price_symbol snapshot = None
               \<and> ms_price_settlement_date snapshot = None \<and> ms_inputs_hash snapshot = None)
             \<or> (ms_price_source snapshot = Some (pq_source q) \<and> ms_price_symbol snapshot = Some (pq_symbol q)
               \<and> ms_price_settlement_date snapshot = Some (pq_settlement_date q) \<and> ms_inputs_hash snapshot = Some inputs_hash)))"

definition find_mtm_snapshot :: "db \<Rightarrow> MTMObjectType \<Rightarrow> uuid \<Rightarrow> date \<Rightarrow> MTMSnapshot option" where
  "find_mtm_snapshot s object_type object_id as_of_date =
     find (\<lambda>m. ms_object_type m = object_type \<and> ms_object_id m = object_id \<and> ms_as_of_date m = as_of_date) (mtm_snapshots s)"

definition mtm_snapshot_row ::
    "(decimal \<Rightarrow> decimal) \<Rightarrow> datetime \<Rightarrow> uuid \<Rightarrow> MTMObjectType \<Rightarrow> uuid \<Rightarrow> date \<Rightarrow> string \<Rightarrow> MTMResultResponse \<Rightarrow> string \<Rightarrow> MTMSnapshot" where
  "mtm_snapshot_row col now i object_type object_id as_of_date correlation_id computed inputs_hash =
     \<lparr>ms_id = i, ms_object_type = object_type, ms_object_id = object_id, ms_as_of_date = as_of_date,
      ms_mtm_value = col (mr_mtm_value computed), ms_price_d1 = col (mr_price_d1 computed),
      ms_entry_price = col (mr_entry_price computed), ms_quantity_mt = col (mr_quantity_mt computed),
      ms_price_source = map_option pq_source (mr_price_quote computed),
      ms_price_symbol = map_option pq_symbol (mr_price_quote computed),
      ms_price_settlement_date = map_option pq_settlement_date (mr_price_quote computed),
      ms_inputs_hash = Some inputs_hash, ms_correlation_id = correlation_id, ms_created_at = now\<rparr>"

text \<open>The code has this body twice, once for contracts and once for orders.\<close>

definition create_mtm_snapshot ::
    "fingerprint \<Rightarrow> (decimal \<Rightarrow> decimal) \<Rightarrow> (db \<Rightarrow> uuid \<Rightarrow> date \<Rightarrow> MTMResultResponse result) \<Rightarrow> MTMObjectType
       \<Rightarrow> db \<Rightarrow> datetime \<Rightarrow> uuid \<Rightarrow> date \<Rightarrow> string \<Rightarrow> (db \<times> MTMSnapshot) result" where
  "create_mtm_snapshot k col compute object_type s now object_id as_of_date correlation_id =
     (let existing = find_mtm_snapshot s object_type object_id as_of_date
      in and_then (compute s object_id as_of_date) (\<lambda>computed.
         and_then (mtm_inputs_hash k computed) (\<lambda>inputs_hash.
         case existing of
           Some e \<Rightarrow> and_then (raise_if (\<not> snapshot_matches e computed inputs_hash) (http HTTP_409 ''MTM snapshot conflict'')) (\<lambda>_.
             Inr (s, e))
         | None \<Rightarrow>
             let snapshot = mtm_snapshot_row col now (next_uuid s) object_type object_id as_of_date correlation_id computed inputs_hash
             in Inr (s\<lparr>mtm_snapshots := mtm_snapshots s @ [snapshot], next_uuid := Suc (next_uuid s)\<rparr>, snapshot))))"

definition create_mtm_snapshot_for_contract ::
    "fingerprint \<Rightarrow> (decimal \<Rightarrow> decimal) \<Rightarrow> db \<Rightarrow> datetime \<Rightarrow> uuid \<Rightarrow> date \<Rightarrow> string \<Rightarrow> (db \<times> MTMSnapshot) result" where
  "create_mtm_snapshot_for_contract k col = create_mtm_snapshot k col compute_mtm_for_contract MO_hedge_contract"

definition create_mtm_snapshot_for_order ::
    "fingerprint \<Rightarrow> (decimal \<Rightarrow> decimal) \<Rightarrow> db \<Rightarrow> datetime \<Rightarrow> uuid \<Rightarrow> date \<Rightarrow> string \<Rightarrow> (db \<times> MTMSnapshot) result" where
  "create_mtm_snapshot_for_order k col = create_mtm_snapshot k col compute_mtm_for_order MO_order"

definition get_mtm_snapshot :: "db \<Rightarrow> MTMObjectType \<Rightarrow> uuid \<Rightarrow> date \<Rightarrow> MTMSnapshot result" where
  "get_mtm_snapshot s object_type object_id as_of_date =
     require (find_mtm_snapshot s object_type object_id as_of_date) (http HTTP_404 ''MTM snapshot not found'')"

section \<open>Profit-and-loss snapshots\<close>

definition price_references_json :: "PLResultResponse \<Rightarrow> json" where
  "price_references_json r = JList (map (\<lambda>e. JObj
     [(''symbol'', JStr (pre_symbol e)), (''source'', JStr (pre_source e)),
      (''settlement_date'', JDate (pre_settlement_date e)), (''value'', JDec (pre_value e))]) (plr_price_references r))"

definition pl_inputs_hash :: "fingerprint \<Rightarrow> string \<Rightarrow> uuid \<Rightarrow> date \<Rightarrow> date \<Rightarrow> PLResultResponse \<Rightarrow> string" where
  "pl_inputs_hash k entity_type entity_id period_start period_end r =
     sha256_json k (JObj
       [(''entity_type'', JStr entity_type), (''entity_id'', JId entity_id),
        (''period_start'', JDate period_start), (''period_end'', JDate period_end),
        (''realized_pl'', JDec (plr_realized_pl r)), (''unrealized_mtm'', JDec (plr_unrealized_mtm r)),
        (''price_references'', price_references_json r)])"

definition find_pl_snapshot :: "db \<Rightarrow> string \<Rightarrow> uuid \<Rightarrow> date \<Rightarrow> date \<Rightarrow> PLSnapshot option" where
  "find_pl_snapshot s entity_type entity_id period_start period_end =
     find (\<lambda>p. ps_entity_type p = entity_type \<and> ps_entity_id p = entity_id
       \<and> ps_period_start p = period_start \<and> ps_period_end p = period_end) (pl_snapshots s)"

definition pl_snapshot_conflict :: "string \<Rightarrow> uuid \<Rightarrow> date \<Rightarrow> date \<Rightarrow> py_error" where
  "pl_snapshot_conflict entity_type entity_id period_start period_end = HTTPException HTTP_409
     (Msg ''Snapshot conflict: Existing snapshot for entity ({}, {}) and period ({} to {}) has different values.''
       [AStr entity_type, AId entity_id, AStr (isoformat period_start), AStr (isoformat period_end)])"

text \<open>The row identifier and the correlation identifier are two fresh UUIDs.\<close>

definition pl_snapshot_row ::
    "(decimal \<Rightarrow> decimal) \<Rightarrow> datetime \<Rightarrow> uuid \<Rightarrow> string \<Rightarrow> uuid \<Rightarrow> date \<Rightarrow> date \<Rightarrow> PLResultResponse \<Rightarrow> string \<Rightarrow> PLSnapshot" where
  "pl_snapshot_row col now i entity_type entity_id period_start period_end r inputs_hash =
     \<lparr>ps_id = i, ps_entity_type = entity_type, ps_entity_id = entity_id, ps_period_start = period_start,
      ps_period_end = period_end, ps_realized_pl = col (plr_realized_pl r),
      ps_unrealized_mtm = col (plr_unrealized_mtm r), ps_price_references = Some (plr_price_references r),
      ps_inputs_hash = Some inputs_hash, ps_created_at = now, ps_correlation_id = Some (Suc i)\<rparr>"

definition create_pl_snapshot ::
    "fingerprint \<Rightarrow> (decimal \<Rightarrow> decimal) \<Rightarrow> db \<Rightarrow> datetime \<Rightarrow> string \<Rightarrow> uuid \<Rightarrow> date \<Rightarrow> date \<Rightarrow> (db \<times> PLSnapshot) result" where
  "create_pl_snapshot k col s now entity_type entity_id period_start period_end =
     and_then (compute_pl s entity_type entity_id period_start period_end) (\<lambda>pl_result.
     let inputs_hash = pl_inputs_hash k entity_type entity_id period_start period_end pl_result
     in case find_pl_snapshot s entity_type entity_id period_start period_end of
          Some e \<Rightarrow>
            if ps_realized_pl e = plr_realized_pl pl_result \<and> ps_unrealized_mtm e = plr_unrealized_mtm pl_result
              \<and> ps_price_references e = Some (plr_price_references pl_result) \<and> ps_inputs_hash e = Some inputs_hash
            then Inr (s, e)
            else Inl (pl_snapshot_conflict entity_type entity_id period_start period_end)
        | None \<Rightarrow>
            let snapshot = pl_snapshot_row col now (next_uuid s) entity_type entity_id period_start period_end pl_result inputs_hash
            in Inr (s\<lparr>pl_snapshots := pl_snapshots s @ [snapshot], next_uuid := next_uuid s + 2\<rparr>, snapshot))"

definition get_pl_snapshot :: "db \<Rightarrow> string \<Rightarrow> uuid \<Rightarrow> date \<Rightarrow> date \<Rightarrow> PLSnapshot result" where
  "get_pl_snapshot s entity_type entity_id period_start period_end =
     require (find_pl_snapshot s entity_type entity_id period_start period_end) (http HTTP_404 ''P&L snapshot not found'')"

section \<open>The snapshot contract\<close>

definition mtm_key :: "MTMSnapshot \<Rightarrow> MTMObjectType \<times> uuid \<times> date" where
  "mtm_key m = (ms_object_type m, ms_object_id m, ms_as_of_date m)"

definition pl_key :: "PLSnapshot \<Rightarrow> string \<times> uuid \<times> date \<times> date" where
  "pl_key p = (ps_entity_type p, ps_entity_id p, ps_period_start p, ps_period_end p)"

lemma find_mtm_snapshot_None: "find_mtm_snapshot s t i d = None \<longleftrightarrow> (t, i, d) \<notin> mtm_key ` set (mtm_snapshots s)"
  by (force simp: find_mtm_snapshot_def find_None_iff mtm_key_def)

lemma find_mtm_snapshot_Some: "find_mtm_snapshot s t i d = Some m \<Longrightarrow> m \<in> set (mtm_snapshots s) \<and> mtm_key m = (t, i, d)"
  by (auto simp: find_mtm_snapshot_def mtm_key_def dest!: find_SomeD)

lemma find_pl_snapshot_None: "find_pl_snapshot s t i a b = None \<longleftrightarrow> (t, i, a, b) \<notin> pl_key ` set (pl_snapshots s)"
  by (force simp: find_pl_snapshot_def find_None_iff pl_key_def)

lemma find_pl_snapshot_Some: "find_pl_snapshot s t i a b = Some p \<Longrightarrow> p \<in> set (pl_snapshots s) \<and> pl_key p = (t, i, a, b)"
  by (auto simp: find_pl_snapshot_def pl_key_def dest!: find_SomeD)

lemma mtm_snapshot_cases:
  assumes "create_mtm_snapshot k col compute t s now i d corr = Inr (s', m)"
  obtains (stored) "s' = s" "m \<in> set (mtm_snapshots s)" "mtm_key m = (t, i, d)"
  | (taken) computed h where "compute s i d = Inr computed" "mtm_inputs_hash k computed = Inr h"
      "find_mtm_snapshot s t i d = None" "m = mtm_snapshot_row col now (next_uuid s) t i d corr computed h"
      "s' = s\<lparr>mtm_snapshots := mtm_snapshots s @ [m], next_uuid := Suc (next_uuid s)\<rparr>"
proof (cases "find_mtm_snapshot s t i d")
  case None
  then show ?thesis using assms taken by (auto simp: create_mtm_snapshot_def Let_def)
next
  case (Some e)
  then show ?thesis using assms stored find_mtm_snapshot_Some[OF Some] by (auto simp: create_mtm_snapshot_def Let_def)
qed

lemma pl_snapshot_cases:
  assumes "create_pl_snapshot k col s now t i a b = Inr (s', p)"
  obtains (stored) "s' = s" "p \<in> set (pl_snapshots s)" "pl_key p = (t, i, a, b)"
  | (taken) r where "compute_pl s t i a b = Inr r" "find_pl_snapshot s t i a b = None"
      "p = pl_snapshot_row col now (next_uuid s) t i a b r (pl_inputs_hash k t i a b r)"
      "s' = s\<lparr>pl_snapshots := pl_snapshots s @ [p], next_uuid := next_uuid s + 2\<rparr>"
proof (cases "find_pl_snapshot s t i a b")
  case None
  then show ?thesis using assms taken by (auto simp: create_pl_snapshot_def Let_def)
next
  case (Some e)
  then have "s' = s \<and> p = e"
    using assms by (auto simp: create_pl_snapshot_def Let_def simp del: not_None_eq split: if_splits)
  then show ?thesis using stored find_pl_snapshot_Some[OF Some] by blast
qed

lemma mtm_snapshot_row_key [simp]: "mtm_key (mtm_snapshot_row col now n t i d corr c h) = (t, i, d)"
  by (simp add: mtm_key_def mtm_snapshot_row_def)

lemma pl_snapshot_row_key [simp]: "pl_key (pl_snapshot_row col now n t i a b r h) = (t, i, a, b)"
  by (simp add: pl_key_def pl_snapshot_row_def)

text \<open>A request for a snapshot: the arguments of the two services.\<close>

type_synonym mtm_request = "MTMObjectType \<times> datetime \<times> uuid \<times> date \<times> string"
type_synonym pl_request = "datetime \<times> string \<times> uuid \<times> date \<times> date"

definition mtm_service :: "fingerprint \<Rightarrow> (decimal \<Rightarrow> decimal) \<Rightarrow> mtm_request \<Rightarrow> db \<Rightarrow> (db \<times> MTMSnapshot) result" where
  "mtm_service k col = (\<lambda>(t, now, i, d, corr) s.
     case t of MO_hedge_contract \<Rightarrow> create_mtm_snapshot_for_contract k col s now i d corr
             | MO_order \<Rightarrow> create_mtm_snapshot_for_order k col s now i d corr)"

definition pl_service :: "fingerprint \<Rightarrow> (decimal \<Rightarrow> decimal) \<Rightarrow> pl_request \<Rightarrow> db \<Rightarrow> (db \<times> PLSnapshot) result" where
  "pl_service k col = (\<lambda>(now, t, i, a, b) s. create_pl_snapshot k col s now t i a b)"

lemma mtm_service_eq:
  "mtm_service k col (t, now, i, d, corr) s =
     create_mtm_snapshot k col (case t of MO_hedge_contract \<Rightarrow> compute_mtm_for_contract | MO_order \<Rightarrow> compute_mtm_for_order) t s now i d corr"
  by (simp add: mtm_service_def create_mtm_snapshot_for_contract_def create_mtm_snapshot_for_order_def split: MTMObjectType.split)

interpretation mtm_store: snapshot_store mtm_snapshots mtm_key "mtm_service k col" "\<lambda>(t, now, i, d, corr) s. (t, i, d)" for k col
proof
  fix a s s' m
  assume m: "mtm_service k col a s = Inr (s', m)"
  obtain t now i d corr where a: "a = (t, now, i, d, corr)" by (cases a)
  from m[unfolded a mtm_service_eq]
  show "s' = s \<and> m \<in> set (mtm_snapshots s) \<or> mtm_snapshots s' = mtm_snapshots s @ [m] \<and> mtm_key m \<notin> mtm_key ` set (mtm_snapshots s)"
    by (cases rule: mtm_snapshot_cases) (auto simp: find_mtm_snapshot_None)
  from m[unfolded a mtm_service_eq] show "mtm_key m = (case a of (t, now, i, d, corr) \<Rightarrow> \<lambda>s. (t, i, d)) s"
    by (cases rule: mtm_snapshot_cases) (auto simp: a)
qed

interpretation pl_store: snapshot_store pl_snapshots pl_key "pl_service k col" "\<lambda>(now, t, i, a, b) s. (t, i, a, b)" for k col
proof
  fix a s s' p
  assume p: "pl_service k col a s = Inr (s', p)"
  obtain now t i b e where a: "a = (now, t, i, b, e)" by (cases a)
  have p: "create_pl_snapshot k col s now t i b e = Inr (s', p)" using p by (simp add: a pl_service_def)
  then show "s' = s \<and> p \<in> set (pl_snapshots s) \<or> pl_snapshots s' = pl_snapshots s @ [p] \<and> pl_key p \<notin> pl_key ` set (pl_snapshots s)"
    by (cases rule: pl_snapshot_cases) (auto simp: find_pl_snapshot_None)
  from p show "pl_key p = (case a of (now, t, i, a, b) \<Rightarrow> \<lambda>s. (t, i, a, b)) s"
    by (cases rule: pl_snapshot_cases) (auto simp: a)
qed

section \<open>Asking again\<close>

lemma find_mtm_snapshot_own:
  assumes "find_mtm_snapshot s t i d = None" and "mtm_key m = (t, i, d)" and "mtm_snapshots s' = mtm_snapshots s @ [m]"
  shows "find_mtm_snapshot s' t i d = Some m"
  using assms by (simp add: find_mtm_snapshot_def mtm_key_def find_append)

lemma find_pl_snapshot_own:
  assumes "find_pl_snapshot s t i a b = None" and "pl_key p = (t, i, a, b)" and "pl_snapshots s' = pl_snapshots s @ [p]"
  shows "find_pl_snapshot s' t i a b = Some p"
  using assms by (simp add: find_pl_snapshot_def pl_key_def find_append)

text \<open>C17: Asking again for the mark-to-market snapshot of a contract on unchanged data. The value is a
  quantity of three decimals times a price of six, the column keeps six: the second request
  returns the stored row exactly when the value fits the column, and is a conflict otherwise.\<close>

theorem mtm_snapshot_retry:
  assumes first: "create_mtm_snapshot_for_contract k col s now i d corr = Inr (s', m)"
    and new: "find_mtm_snapshot s MO_hedge_contract i d = None"
    and r: "compute_mtm_for_contract s i d = Inr r"
    and fits: "col (mr_price_d1 r) = mr_price_d1 r" "col (mr_entry_price r) = mr_entry_price r" "col (mr_quantity_mt r) = mr_quantity_mt r"
  shows "create_mtm_snapshot_for_contract k col s' now' i d corr' =
    (if col (mr_mtm_value r) = mr_mtm_value r then Inr (s', m) else Inl (http HTTP_409 ''MTM snapshot conflict''))"
  using first[unfolded create_mtm_snapshot_for_contract_def]
proof (cases rule: mtm_snapshot_cases)
  case stored
  then show ?thesis using new unfolding find_mtm_snapshot_None by force
next
  case (taken computed h)
  have "compute_mtm_for_contract s' = compute_mtm_for_contract s" by (rule mtm_cong) (simp_all add: taken(5))
  then have s': "compute_mtm_for_contract s' i d = Inr r" "find_mtm_snapshot s' MO_hedge_contract i d = Some m"
    using r find_mtm_snapshot_own[OF new, of m s'] taken(4) by (simp_all add: taken(5))
  have h: "mtm_inputs_hash k r = Inr h" using taken(1,2) r by simp
  obtain q where "mr_price_quote r = Some q" using r by (auto simp: compute_mtm_for_contract_def)
  then have "snapshot_matches m r h \<longleftrightarrow> col (mr_mtm_value r) = mr_mtm_value r"
    using taken(1,4) r fits by (simp add: snapshot_matches_def mtm_snapshot_row_def)
  then show ?thesis
    by (simp add: create_mtm_snapshot_for_contract_def create_mtm_snapshot_def s' h)
qed

text \<open>The same holds for profit and loss: a P&L snapshot can be asked for again exactly when its two
  amounts fit the column.\<close>

lemma pl_snapshot_retry:
  assumes first: "create_pl_snapshot k col s now t i a b = Inr (s', p)" and new: "find_pl_snapshot s t i a b = None"
    and r: "compute_pl s t i a b = Inr r"
  shows "create_pl_snapshot k col s' now' t i a b =
    (if col (plr_realized_pl r) = plr_realized_pl r \<and> col (plr_unrealized_mtm r) = plr_unrealized_mtm r then Inr (s', p)
     else Inl (pl_snapshot_conflict t i a b))"
  using first
proof (cases rule: pl_snapshot_cases)
  case stored
  then show ?thesis using new unfolding find_pl_snapshot_None by force
next
  case (taken r')
  have "compute_pl s' = compute_pl s" by (rule pl_cong) (simp_all add: taken(4))
  then have s': "compute_pl s' t i a b = Inr r" "find_pl_snapshot s' t i a b = Some p"
    using r find_pl_snapshot_own[OF new, of p s'] taken(3) by (simp_all add: taken(4))
  have "r' = r" using taken(1) r by simp
  then show ?thesis
    using taken(3) by (auto simp: create_pl_snapshot_def s' pl_snapshot_row_def Let_def)
qed

text \<open>C16: A P&L snapshot is evidence: once one was taken for an entity and a period, then after any
  further requests to the service, and whatever else changes in the database, the same request
  either fails or answers with that very row and writes nothing.\<close>

theorem pl_snapshot_frozen:
  assumes "keyed pl_key (pl_snapshots s)" and "create_pl_snapshot k col s now t i a b = Inr (s1, p)"
    and "(\<lambda>u v. pl_snapshots v = pl_snapshots u \<or> (\<exists>now t i a b p. create_pl_snapshot k col u now t i a b = Inr (v, p)))\<^sup>*\<^sup>* s1 s2"
    and "create_pl_snapshot k col s2 now' t i a b = Inr (s3, p')"
  shows "p' = p \<and> s3 = s2"
proof (rule pl_store.snapshot_frozen[OF assms(1)])
  have steps: "(\<lambda>u v. pl_snapshots v = pl_snapshots u \<or> (\<exists>now t i a b p. create_pl_snapshot k col u now t i a b = Inr (v, p)))
      \<le> pl_store.store_step k col"
    unfolding pl_store.store_step_def by (auto simp: pl_service_def)
  show "pl_service k col (now, t, i, a, b) s = Inr (s1, p)" "pl_service k col (now', t, i, a, b) s2 = Inr (s3, p')"
    using assms(2,4) by (simp_all add: pl_service_def)
  show "(pl_store.store_step k col)\<^sup>*\<^sup>* s1 s2"
    using assms(3) by (rule predicate2D[OF rtranclp_mono[OF steps]])
qed simp

section \<open>Examples\<close>

definition sample_fingerprint :: fingerprint where
  "sample_fingerprint = \<lparr>fp_dumps = (\<lambda>_. ''json''), fp_sha256 = (\<lambda>x. x)\<rparr>"

text \<open>A hedge of 60.001 t at a fixed price a millionth below the settlement price.\<close>

definition odd_lot_db :: db where
  "odd_lot_db = priced_db\<lparr>contracts := [(sample_contract 1 HC_long (60001 / 1000))\<lparr>hc_fixed_price_value := Some (9099999999 / 1000000)\<rparr>]\<rparr>"

lemma odd_lot_mtm:
  "compute_mtm_for_contract odd_lot_db 1 (Date 2026 3 11) = Inr \<lparr>mr_object_type = MO_hedge_contract, mr_object_id = 1,
     mr_as_of_date = Date 2026 3 11, mr_mtm_value = 60001 / 1000000000, mr_price_d1 = 9100,
     mr_entry_price = 9099999999 / 1000000, mr_quantity_mt = 60001 / 1000, mr_price_quote = Some sample_quote\<rparr>"
proof -
  have "get_cash_settlement_price_d1_with_provenance odd_lot_db ''LME_CU_CASH_SETTLEMENT_DAILY'' (Date 2026 3 11) = Inr sample_quote"
    by (rule copper_quote) (simp add: odd_lot_db_def priced_db_def)
  moreover have "get_contract odd_lot_db 1 = Some ((sample_contract 1 HC_long (60001 / 1000))\<lparr>hc_fixed_price_value := Some (9099999999 / 1000000)\<rparr>)"
    by (simp add: odd_lot_db_def get_contract_def sample_contract_def)
  ultimately show ?thesis
    by (simp add: compute_mtm_for_contract_def sample_contract_def hedge_open_def copper_symbol
        unprovable_to_missing_def) (simp add: sample_quote_def)
qed

lemma quantize_6_millionths: "quantize_money (of_int n / 1000000) = of_int n / 1000000"
  using money.q_fix[of n] by simp

theorem mtm_snapshot_retry_witness:
  "\<exists>s' m. create_mtm_snapshot_for_contract sample_fingerprint quantize_money odd_lot_db 0 1 (Date 2026 3 11) ''c'' = Inr (s', m)
     \<and> create_mtm_snapshot_for_contract sample_fingerprint quantize_money s' 1 1 (Date 2026 3 11) ''c''
         = Inl (http HTTP_409 ''MTM snapshot conflict'')"
proof -
  have none: "find_mtm_snapshot odd_lot_db MO_hedge_contract 1 (Date 2026 3 11) = None"
    by (simp add: find_mtm_snapshot_def odd_lot_db_def priced_db_def sample_defs)
  obtain s' m where first: "create_mtm_snapshot_for_contract sample_fingerprint quantize_money odd_lot_db 0 1 (Date 2026 3 11) ''c'' = Inr (s', m)"
    by (simp add: create_mtm_snapshot_for_contract_def create_mtm_snapshot_def none odd_lot_mtm mtm_inputs_hash_def Let_def
        del: One_nat_def)
  have fits: "quantize_money 9100 = 9100" "quantize_money (9099999999 / 1000000) = 9099999999 / 1000000"
    "quantize_money (60001 / 1000) = 60001 / 1000"
    using quantize_6_millionths[of 9100000000] quantize_6_millionths[of 9099999999] quantize_6_millionths[of 60001000] by simp_all
  have odd: "quantize_money (60001 / 1000000000) \<noteq> 60001 / 1000000000"
    by (simp add: quantize_money_def quantize_def round_half_even_def Let_def)
  show ?thesis
    using mtm_snapshot_retry[OF first none odd_lot_mtm, where now' = 1 and corr' = "''c''"] first fits odd by auto
qed

theorem pl_snapshot_frozen_witness:
  "\<exists>s1 p. create_pl_snapshot sample_fingerprint quantize_money ledger_db 0 ''hedge_contract'' 1 (Date 2026 3 10) (Date 2026 3 12) = Inr (s1, p)
     \<and> create_pl_snapshot sample_fingerprint quantize_money s1 9 ''hedge_contract'' 1 (Date 2026 3 10) (Date 2026 3 12) = Inr (s1, p)"
proof -
  obtain r where r: "compute_pl ledger_db ''hedge_contract'' 1 (Date 2026 3 10) (Date 2026 3 12) = Inr r" "plr_realized_pl r = 400"
    using ledger_db_pl by blast
  have none: "find_pl_snapshot ledger_db ''hedge_contract'' 1 (Date 2026 3 10) (Date 2026 3 12) = None"
    by (simp add: find_pl_snapshot_def ledger_db_def sample_defs)
  obtain s1 p where first: "create_pl_snapshot sample_fingerprint quantize_money ledger_db 0 ''hedge_contract'' 1 (Date 2026 3 10) (Date 2026 3 12) = Inr (s1, p)"
    by (simp add: create_pl_snapshot_def none r Let_def del: One_nat_def)
  have "plr_unrealized_mtm r = 0"
    using r(1) unfolding compute_pl_Inr by (auto simp: compute_unrealized_mtm_for_contract_def ledger_db_def get_contract_def
        sample_contract_def hedge_open_def)
  moreover have "quantize_money 400 = 400" using quantize_6_millionths[of 400000000] by simp
  ultimately obtain s3 p' where again: "create_pl_snapshot sample_fingerprint quantize_money s1 9 ''hedge_contract'' 1 (Date 2026 3 10) (Date 2026 3 12) = Inr (s3, p')"
    using pl_snapshot_retry[OF first none r(1), of 9] r(2) by simp
  have "keyed pl_key (pl_snapshots ledger_db)" by (simp add: keyed_def ledger_db_def sample_defs)
  then have "p' = p \<and> s3 = s1"
    using first _ again by (rule pl_snapshot_frozen) simp
  with first again show ?thesis by blast
qed

end
