(* ===== verification/Deal_PnL_Examples.thy ===== *)
theory Deal_PnL_Examples
  imports Deal_PnL Valuation_Snapshots
begin

text \<open>
  A deal of one variable-price sales order of 60 t and one short hedge, valued at a copper price of
  choice: instances of the properties of deal snapshots, and the snapshot that an edit of the
  hedge does not refresh.
\<close>

definition pnl_deal :: Deal where
  "pnl_deal = \<lparr>deal_id = 5, deal_reference = ''D-5'', deal_name = ''copper'', deal_commodity = ''COPPER'', deal_status = DS_open,
     deal_total_physical_tons = 0, deal_total_hedge_tons = 0, deal_hedge_ratio = 0, deal_created_at = 0\<rparr>"

definition pnl_link :: "uuid \<Rightarrow> DealLinkedType \<Rightarrow> uuid \<Rightarrow> DealLink" where
  "pnl_link j t i = \<lparr>dl_id = j, dl_deal_id = 5, dl_linked_type = t, dl_linked_id = i, dl_created_at = 0\<rparr>"

definition pnl_db :: "decimal \<Rightarrow> decimal \<Rightarrow> db" where
  "pnl_db hedged v = empty_db\<lparr>orders := [sample_order 0 OT_sales PT_variable 60], contracts := [sample_contract 1 HC_short hedged],
     deals := [pnl_deal], deal_links := [pnl_link 6 DL_sales_order 0, pnl_link 7 DL_contract 1],
     prices := [sample_price (Date 2026 3 10) v], next_uuid := 10\<rparr>"

abbreviation (input) "pnl_day \<equiv> Date 2026 3 11"

lemma pnl_quote:
  assumes "prices s = [sample_price (Date 2026 3 10) v]"
  shows "get_market_quote s ''COPPER'' pnl_day = Inr (sample_quote\<lparr>pq_value := v\<rparr>)"
proof -
  have "canonical_source_for_symbol ''LME_CU_CASH_SETTLEMENT_DAILY'' = Inr ''westmetall''"
    by (simp add: canonical_source_for_symbol_def CANONICAL_SOURCE_BY_SYMBOL_def)
  then show ?thesis
    by (simp add: get_market_quote_def copper_symbol get_cash_settlement_price_d1_with_provenance_def copper_prior_day assms
        sample_price_def sample_quote_def)
qed

lemma pnl_live:
  "live_links (pnl_db h v) 5 = [(pnl_link 6 DL_sales_order 0, LOrder (sample_order 0 OT_sales PT_variable 60)),
     (pnl_link 7 DL_contract 1, LContract (sample_contract 1 HC_short h))]"
  by (simp add: live_links_def links_of_deal_def pnl_db_def pnl_link_def is_order_link_def live_order_def live_contract_def
      get_order_def get_contract_def sample_order_def sample_contract_def)

lemma pnl_needs:
  "commodities_needing_price [(l, LOrder (sample_order i OT_sales PT_variable q)), (l', LContract (sample_contract j HC_short h))] = [''COPPER'']"
  by (simp add: commodities_needing_price_def List.map_filter_def sample_order_def sample_contract_def hedge_open_def)

lemma pnl_taken:
  assumes "quantize_price v = v" and "v \<in> {9100, 9500}" and "h \<in> {50, 60}"
  shows "\<exists>s' x. compute_deal_pnl k (pnl_db h v) 0 5 pnl_day = Inr (s', x) \<and> x \<notin> set (pnl_snapshots (pnl_db h v))
    \<and> s' = (pnl_db h v)\<lparr>pnl_snapshots := [x], next_uuid := 11\<rparr> \<and> snap_hedge_pnl_mtm x = h * (9000 - v)"
proof -
  have q: "get_market_quote (pnl_db h v) ''COPPER'' pnl_day = Inr (sample_quote\<lparr>pq_value := v\<rparr>)"
    by (rule pnl_quote) (simp add: pnl_db_def)
  have g: "get_deal (pnl_db h v) 5 = Some pnl_deal" by (simp add: get_deal_def pnl_db_def pnl_deal_def)
  have none: "pnl_snapshots (pnl_db h v) = []" "next_uuid (pnl_db h v) = 10" by (simp_all add: pnl_db_def empty_db_def)
  have grid: "quantize_money (h * (9000 - v)) = h * (9000 - v)" "quantize_price 9000 = 9000" "quantize_mt h = h"
    using assms(2,3) quantize_6_millionths[of "- 5000000000"] quantize_6_millionths[of "- 6000000000"]
      quantize_6_millionths[of "- 25000000000"] quantize_6_millionths[of "- 30000000000"] by (auto simp: quantize_price_def)
  let ?qs = "[(''COPPER'', sample_quote\<lparr>pq_value := v\<rparr>)]"
  define totals where "totals = \<lparr>physical_revenue = quantize_money (60 * v), physical_cost = 0, hedge_pnl_realized = 0,
     hedge_pnl_mtm = h * (9000 - v)\<rparr>"
  have F1: "fold_result (collect_quote (pnl_db h v) pnl_day) (commodities_needing_price (live_links (pnl_db h v) 5)) ([], []) = Inr (?qs, [])"
    by (simp add: collect_quote_def q pnl_live pnl_needs)
  have live: "live_links (pnl_db h v) 5 \<noteq> []" by (simp add: pnl_live)
  have F2: "fold_result (pnl_step ?qs) (live_links (pnl_db h v) 5) no_pnl = Inr totals"
    using assms(1) grid by (simp add: pnl_live pnl_step_def order_value_def order_market_price_def hedge_mtm_def pnl_link_def
        sample_order_def sample_contract_def hedge_open_def no_pnl_def totals_def Let_def)
  define x where "x = pnl_snapshot_row (pnl_db h v) 0 5 pnl_day
    (deal_inputs_hash k 5 pnl_day (map (dl_id \<circ> fst) (live_links (pnl_db h v) 5)) (price_references_of ?qs)) (price_references_of ?qs) totals"
  have "compute_deal_pnl k (pnl_db h v) 0 5 pnl_day = Inr ((pnl_db h v)\<lparr>pnl_snapshots := [x], next_uuid := 11\<rparr>, x)"
    unfolding compute_deal_pnl_def Let_def using g F1 F2 none live by (simp add: x_def)
  moreover have "snap_hedge_pnl_mtm x = h * (9000 - v)" by (simp add: x_def pnl_snapshot_row_def totals_def)
  ultimately show ?thesis using none by (intro exI[of _ x] exI[of _ "(pnl_db h v)\<lparr>pnl_snapshots := [x], next_uuid := 11\<rparr>"]) simp
qed

lemma price_grid: "quantize_price 9100 = 9100" "quantize_price 9500 = 9500" "quantize_price 9000 = 9000"
  by (simp_all add: quantize_price_def)

theorem deal_pnl_values_live_links_witness:
  "\<exists>s' x. compute_deal_pnl sample_fingerprint (pnl_db 60 9100) 0 5 pnl_day = Inr (s', x)
     \<and> snap_total_pnl x = snap_physical_revenue x - snap_physical_cost x - 6000"
proof -
  obtain s' x where x: "compute_deal_pnl sample_fingerprint (pnl_db 60 9100) 0 5 pnl_day = Inr (s', x)"
    "x \<notin> set (pnl_snapshots (pnl_db 60 9100))" "snap_hedge_pnl_mtm x = 60 * (9000 - 9100)"
    using pnl_taken[of 9100 60 sample_fingerprint] price_grid by auto
  have "valid_date pnl_day" by (simp add: days_in_month_def MINYEAR_def MAXYEAR_def)
  from deal_pnl_values_live_links[OF x(1,2) this] x show ?thesis by auto
qed

theorem hedged_deal_price_neutral_witness:
  "\<exists>s1 a s2 b. compute_deal_pnl sample_fingerprint (pnl_db 60 9100) 0 5 pnl_day = Inr (s1, a)
     \<and> compute_deal_pnl sample_fingerprint (pnl_db 60 9500) 0 5 pnl_day = Inr (s2, b)
     \<and> \<bar>snap_total_pnl a - snap_total_pnl b\<bar> \<le> 2 / 1000000"
proof -
  obtain s1 a where a: "compute_deal_pnl sample_fingerprint (pnl_db 60 9100) 0 5 pnl_day = Inr (s1, a)"
    "a \<notin> set (pnl_snapshots (pnl_db 60 9100))" using pnl_taken[of 9100 60 sample_fingerprint] price_grid by auto
  obtain s2 b where b: "compute_deal_pnl sample_fingerprint (pnl_db 60 9500) 0 5 pnl_day = Inr (s2, b)"
    "b \<notin> set (pnl_snapshots (pnl_db 60 9500))" using pnl_taken[of 9500 60 sample_fingerprint] price_grid by auto
  have "net_open_tons (live_links (pnl_db 60 9100) 5) c = 0" for c
    by (simp add: pnl_live net_open_tons_def pnl_link_def sample_order_def sample_contract_def hedge_open_def)
  from hedged_deal_price_neutral[OF a b _ this] a b show ?thesis
    by (auto simp: pnl_live)
qed

theorem pnl_breakdown_agrees_witness:
  "\<exists>row s' x. compute_deal_pnl sample_fingerprint (pnl_db 60 9100) 0 5 pnl_day = Inr (s', x)
     \<and> compute_pnl_breakdown (pnl_db 60 9100) [5] pnl_day = Inr ([row], bd_totals row, snap_total_pnl x)"
proof -
  obtain s' x where x: "compute_deal_pnl sample_fingerprint (pnl_db 60 9100) 0 5 pnl_day = Inr (s', x)"
    "x \<notin> set (pnl_snapshots (pnl_db 60 9100))" using pnl_taken[of 9100 60 sample_fingerprint] price_grid by auto
  have "keyed deal_id (deals (pnl_db 60 9100))" by (simp add: keyed_def pnl_db_def)
  from pnl_breakdown_agrees[OF x this] x show ?thesis by blast
qed

text \<open>The hedge is reduced from 60 t to 50 t after the snapshot. The breakdown of the same deal and
  date sees the edit; the snapshot endpoint still answers with the old row.\<close>

definition edited_db :: "DealPNLSnapshot \<Rightarrow> db" where
  "edited_db x = (pnl_db 50 9100)\<lparr>pnl_snapshots := [x], next_uuid := 11\<rparr>"

lemma edited_by_update:
  "update_contract ((pnl_db 60 9100)\<lparr>pnl_snapshots := [x], next_uuid := 11\<rparr>) 1 (quantity_update 50) = Inr (edited_db x)"
  by (simp add: update_contract_def edited_db_def pnl_db_def get_contract_def sample_contract_def quantity_update_def empty_db_def
      update_is_empty_def contract_linked_qty_def apply_contract_update_def set_field_def write_contract_def)

lemma pnl_snapshot_stale_after_edit:
  "\<exists>s1 x row. compute_deal_pnl sample_fingerprint (pnl_db 60 9100) 0 5 pnl_day = Inr (s1, x)
     \<and> update_contract s1 1 (quantity_update 50) = Inr (edited_db x)
     \<and> compute_deal_pnl sample_fingerprint (edited_db x) 1 5 pnl_day = Inr (edited_db x, x)
     \<and> snap_hedge_pnl_mtm x = - 6000
     \<and> compute_pnl_breakdown (pnl_db 50 9100) [5] pnl_day = Inr ([row], bd_totals row, bd_total_pnl row)
     \<and> hedge_pnl_mtm (bd_totals row) = - 5000"
proof -
  obtain s1 x where x: "compute_deal_pnl sample_fingerprint (pnl_db 60 9100) 0 5 pnl_day = Inr (s1, x)"
    "s1 = (pnl_db 60 9100)\<lparr>pnl_snapshots := [x], next_uuid := 11\<rparr>" "snap_hedge_pnl_mtm x = 60 * (9000 - 9100)"
    using pnl_taken[of 9100 60 sample_fingerprint] price_grid by auto
  have live: "live_links (edited_db x) 5 = live_links (pnl_db 50 9100) 5"
    by (simp add: edited_db_def live_links_def links_of_deal_def pnl_db_def pnl_link_def is_order_link_def live_order_def live_contract_def
      get_order_def get_contract_def)
  have again: "compute_deal_pnl sample_fingerprint (edited_db x) 1 5 pnl_day = Inr (edited_db x, x)"
    using x(1)
  proof (rule stored_snapshot_found)
    show "keyed snap_inputs_hash (pnl_snapshots (edited_db x))" "x \<in> set (pnl_snapshots (edited_db x))"
      by (simp_all add: edited_db_def keyed_def)
    show "get_deal (edited_db x) 5 \<noteq> None" "prices (edited_db x) = prices (pnl_db 60 9100)"
      by (simp_all add: edited_db_def pnl_db_def get_deal_def pnl_deal_def)
  qed (simp_all add: live pnl_live pnl_needs)
  let ?qs = "[(''COPPER'', sample_quote\<lparr>pq_value := 9100\<rparr>)]"
  have quotes: "breakdown_quotes (pnl_db 50 9100) pnl_day (commodities_needing_price (live_links (pnl_db 50 9100) 5)) = Inr ?qs"
  proof -
    have "get_market_quote (pnl_db 50 9100) ''COPPER'' pnl_day = Inr (sample_quote\<lparr>pq_value := 9100\<rparr>)"
      by (rule pnl_quote) (simp add: pnl_db_def)
    then show ?thesis unfolding breakdown_quotes_Inr by (simp add: pnl_live pnl_needs)
  qed
  have grid: "quantize_money (- 5000) = - 5000" "quantize_mt 50 = 50" "quantize_money (- 6000) = - 6000"
    using quantize_6_millionths[of "- 5000000000"] quantize_6_millionths[of "- 6000000000"] by simp_all
  obtain totals ph fi where fold: "fold_result (breakdown_step ?qs) (live_links (pnl_db 50 9100) 5) (no_pnl, [], []) = Inr (totals, ph, fi)"
    "hedge_pnl_mtm totals = - 5000" "quantize_money (hedge_pnl_mtm totals) = hedge_pnl_mtm totals" "sums_on_grid totals"
    using grid price_grid by (simp add: pnl_live breakdown_step_def order_value_def order_market_price_def pnl_link_def
        sample_order_def sample_contract_def hedge_open_def no_pnl_def sums_on_grid_def Let_def)
  then have "deal_totals totals (total_pnl_of totals) (no_pnl, 0) = (totals, total_pnl_of totals)"
    by (simp add: deal_totals_def no_pnl_def sums_on_grid_def total_pnl_of_def)
  moreover have "filter (\<lambda>d. deal_id d \<in> set [5]) (deals (pnl_db 50 9100)) = [pnl_deal]" "deal_id pnl_deal = 5"
    by (simp_all add: pnl_db_def pnl_deal_def)
  moreover have "live_links (pnl_db 50 9100) 5 \<noteq> []" by (simp add: pnl_live)
  moreover define row where "row = \<lparr>bd_deal_id = 5, bd_deal_reference = deal_reference pnl_deal,
      bd_deal_name = deal_name pnl_deal, bd_commodity = deal_commodity pnl_deal, bd_totals = totals,
      bd_total_pnl = total_pnl_of totals, bd_physical_items = ph, bd_financial_items = fi\<rparr>"
  ultimately have "compute_pnl_breakdown (pnl_db 50 9100) [5] pnl_day = Inr ([row], totals, total_pnl_of totals)"
    using quotes fold(1) by (simp add: compute_pnl_breakdown_def breakdown_deal_def)
  moreover have "bd_totals row = totals" "bd_total_pnl row = total_pnl_of totals" by (simp_all add: row_def)
  ultimately have "\<exists>row. compute_pnl_breakdown (pnl_db 50 9100) [5] pnl_day = Inr ([row], bd_totals row, bd_total_pnl row)
    \<and> hedge_pnl_mtm (bd_totals row) = - 5000" using fold(2) by (intro exI[of _ row]) simp
  with x again edited_by_update show ?thesis by auto
qed

theorem pnl_trail_kept_witness:
  "\<exists>s1 a b s3. compute_deal_pnl sample_fingerprint (pnl_db 60 9100) 0 5 pnl_day = Inr (s1, a)
     \<and> compute_deal_pnl sample_fingerprint s1 1 5 pnl_day = Inr (s3, b) \<and> a \<in> set (pnl_snapshots s3)"
proof -
  obtain s1 x where x: "compute_deal_pnl sample_fingerprint (pnl_db 60 9100) 0 5 pnl_day = Inr (s1, x)"
    "s1 = (pnl_db 60 9100)\<lparr>pnl_snapshots := [x], next_uuid := 11\<rparr>"
    using pnl_taken[of 9100 60 sample_fingerprint] price_grid by auto
  have live: "live_links s1 5 = live_links (pnl_db 60 9100) 5"
    by (simp add: x(2) live_links_def links_of_deal_def pnl_db_def pnl_link_def is_order_link_def live_order_def live_contract_def
      get_order_def get_contract_def)
  have again: "compute_deal_pnl sample_fingerprint s1 1 5 pnl_day = Inr (s1, x)"
    using x(1)
  proof (rule stored_snapshot_found)
    show "keyed snap_inputs_hash (pnl_snapshots s1)" "x \<in> set (pnl_snapshots s1)" by (simp_all add: x(2) keyed_def)
    show "get_deal s1 5 \<noteq> None" "prices s1 = prices (pnl_db 60 9100)" by (simp_all add: x(2) pnl_db_def get_deal_def pnl_deal_def)
  qed (simp_all add: live)
  have "keyed snap_inputs_hash (pnl_snapshots (pnl_db 60 9100))" by (simp add: keyed_def pnl_db_def empty_db_def)
  from pnl_trail_kept[OF this x(1) _ again] x(1) again show ?thesis by blast
qed

end
