(* ===== verification/Cashflow_Views.thy ===== *)
theory Cashflow_Views
  imports Valuation_Snapshots "HOL-Library.Product_Lexorder" "HOL-Library.Option_ord"
begin

text \<open>
  The derived cash-flow views: \<open>backend/app/services/cashflow_analytic_service.py\<close> (mark-to-market of
  everything that is open), \<open>cashflow_baseline_service.py\<close> (the immutable snapshot of mark-to-market
  and realised ledger of a day) and \<open>cashflow_projection_service.py\<close> (expected payments after a
  day). An unordered query reads a table in insertion order.
\<close>

lemma unprovable_to_missing_Inr [simp]: "unprovable_to_missing r = Inr x \<longleftrightarrow> r = Inr x"
  by (cases r) (auto simp: unprovable_to_missing_def split: py_error.splits)

section \<open>Analytic view\<close>

definition mtm_eligible_order :: "Order \<Rightarrow> bool" where
  "mtm_eligible_order r \<longleftrightarrow> ord_price_type r = PT_variable
     \<and> ord_pricing_convention r \<in> {Some OPC_avg, Some OPC_avginter, Some OPC_c2r}"

text \<open>\<open>mtm.price_quote\<close> is set on every result; its absence would be an \<open>AttributeError\<close>.\<close>

definition analytic_item :: "date \<Rightarrow> MTMResultResponse \<Rightarrow> CashFlowItem result" where
  "analytic_item as_of_date mtm =
     and_then (require (mr_price_quote mtm) (RuntimeError (Msg ''AttributeError'' []))) (\<lambda>q.
     Inr \<lparr>ci_object_type = mr_object_type mtm, ci_object_id = mr_object_id mtm, ci_settlement_date = as_of_date,
          ci_amount_usd = mr_mtm_value mtm, ci_mtm_value = mr_mtm_value mtm, ci_price_source = pq_source q,
          ci_price_symbol = pq_symbol q, ci_price_settlement_date = pq_settlement_date q, ci_price_value = pq_value q\<rparr>)"

record CashFlowAnalyticResponse =
  ca_as_of_date :: date
  ca_cashflow_items :: "CashFlowItem list"
  ca_total_net_cashflow :: decimal

definition compute_cashflow_analytic :: "db \<Rightarrow> date \<Rightarrow> CashFlowAnalyticResponse result" where
  "compute_cashflow_analytic s as_of_date =
     (let selected_contracts = sort_key hc_created_at (filter (\<lambda>c. hc_status c = HS_active) (contracts s));
          selected_orders = sort_key ord_created_at (filter mtm_eligible_order (orders s))
      in and_then (map_result (\<lambda>c. and_then (compute_mtm_for_contract s (hc_id c) as_of_date) (analytic_item as_of_date)) selected_contracts)
           (\<lambda>contract_items.
         and_then (map_result (\<lambda>r. and_then (compute_mtm_for_order s (ord_id r) as_of_date) (analytic_item as_of_date)) selected_orders)
           (\<lambda>order_items.
         let items = contract_items @ order_items
         in Inr \<lparr>ca_as_of_date = as_of_date, ca_cashflow_items = items,
                 ca_total_net_cashflow = sum_list (map ci_amount_usd items)\<rparr>)))"

section \<open>Baseline snapshot\<close>

definition item_key :: "CashFlowItem \<Rightarrow> string \<times> uuid" where
  "item_key i = (mtm_object_type_value (ci_object_type i), ci_object_id i)"

definition ledger_payload_key :: "ledger_payload \<Rightarrow> date \<times> uuid \<times> string \<times> string \<times> uuid option \<times> uuid" where
  "ledger_payload_key p = (lp_cashflow_date p, lp_hedge_contract_id p, lp_leg_id p, lp_source_event_type p,
     lp_source_event_id p, lp_id p)"

definition canonicalize_snapshot_payload :: "baseline_payload \<Rightarrow> baseline_payload" where
  "canonicalize_snapshot_payload payload =
     payload\<lparr>bp_unrealized_items := sort_key item_key (bp_unrealized_items payload),
             bp_realized_ledger_entries := sort_key ledger_payload_key (bp_realized_ledger_entries payload)\<rparr>"

definition signed_ledger_amount :: "CashFlowLedgerEntry \<Rightarrow> decimal result" where
  "signed_ledger_amount entry =
     (let amount = quantize_money (le_amount entry); direction_text = upper (le_direction entry)
      in if direction_text = ''IN'' then Inr amount
         else if direction_text = ''OUT'' then Inr (- amount)
         else Inl (HTTPException HTTP_422 (Msg ''Unsupported ledger direction: {}'' [AStr (le_direction entry)])))"

definition ledger_entry_payload :: "CashFlowLedgerEntry \<Rightarrow> ledger_payload result" where
  "ledger_entry_payload entry =
     and_then (signed_ledger_amount entry) (\<lambda>signed_amount.
     Inr \<lparr>lp_id = le_id entry, lp_hedge_contract_id = le_hedge_contract_id entry,
          lp_source_event_type = le_source_event_type entry, lp_source_event_id = le_source_event_id entry,
          lp_leg_id = le_leg_id entry, lp_cashflow_date = le_cashflow_date entry, lp_currency = le_currency entry,
          lp_direction = upper (le_direction entry), lp_amount = quantize_money (le_amount entry),
          lp_signed_amount_usd = signed_amount, lp_price_source = le_price_source entry,
          lp_price_symbol = le_price_symbol entry, lp_price_settlement_date = le_price_settlement_date entry,
          lp_price_value = le_price_value entry\<rparr>)"

definition entry_key :: "CashFlowLedgerEntry \<Rightarrow> date \<times> uuid \<times> string \<times> string \<times> uuid option \<times> uuid" where
  "entry_key e = (le_cashflow_date e, le_hedge_contract_id e, le_leg_id e, le_source_event_type e,
     le_source_event_id e, le_id e)"

definition load_realized_ledger_entries :: "db \<Rightarrow> date \<Rightarrow> CashFlowLedgerEntry list" where
  "load_realized_ledger_entries s as_of_date =
     sort_key entry_key (filter (\<lambda>e. le_cashflow_date e \<le> as_of_date) (ledger_entries s))"

definition cashflow_item_from_mtm :: "date \<Rightarrow> MTMResultResponse \<Rightarrow> CashFlowItem result" where
  "cashflow_item_from_mtm as_of_date mtm =
     (let mtm_value = quantize_money (mr_mtm_value mtm)
      in and_then (require (mr_price_quote mtm) (HTTPException HTTP_424
           (Msg ''MTM result for {} has no price provenance'' [AId (mr_object_id mtm)]))) (\<lambda>q.
         Inr \<lparr>ci_object_type = mr_object_type mtm, ci_object_id = mr_object_id mtm, ci_settlement_date = as_of_date,
              ci_amount_usd = mtm_value, ci_mtm_value = mtm_value, ci_price_source = pq_source q,
              ci_price_symbol = pq_symbol q, ci_price_settlement_date = pq_settlement_date q,
              ci_price_value = quantize_price (pq_value q)\<rparr>))"

definition build_unrealized_items :: "db \<Rightarrow> date \<Rightarrow> CashFlowItem list result" where
  "build_unrealized_items s as_of_date =
     (let selected_contracts = sort_key (\<lambda>c. (hc_created_at c, hc_id c)) (filter hedge_live (contracts s));
          selected_orders = sort_key (\<lambda>r. (ord_created_at r, ord_id r))
            (filter (\<lambda>r. mtm_eligible_order r \<and> ord_deleted_at r = None) (orders s))
      in and_then (map_result (\<lambda>c. and_then (compute_mtm_for_contract s (hc_id c) as_of_date) (cashflow_item_from_mtm as_of_date)) selected_contracts)
           (\<lambda>contract_items.
         and_then (map_result (\<lambda>r. and_then (compute_mtm_for_order s (ord_id r) as_of_date) (cashflow_item_from_mtm as_of_date)) selected_orders)
           (\<lambda>order_items. Inr (contract_items @ order_items))))"

definition baseline_json :: "baseline_payload \<Rightarrow> json" where
  "baseline_json p = JObj
     [(''view'', json_option JStr (bp_view p)), (''as_of_date'', JDate (bp_as_of_date p)),
      (''unrealized_items'', JList (map (\<lambda>i. JObj
         [(''object_type'', JStr (mtm_object_type_value (ci_object_type i))), (''object_id'', JId (ci_object_id i)),
          (''settlement_date'', JDate (ci_settlement_date i)), (''amount_usd'', JDec (ci_amount_usd i)),
          (''mtm_value'', JDec (ci_mtm_value i)), (''price_source'', JStr (ci_price_source i)),
          (''price_symbol'', JStr (ci_price_symbol i)), (''price_settlement_date'', JDate (ci_price_settlement_date i)),
          (''price_value'', JDec (ci_price_value i))]) (bp_unrealized_items p))),
      (''realized_ledger_entries'', JList (map (\<lambda>l. JObj
         [(''id'', JId (lp_id l)), (''hedge_contract_id'', JId (lp_hedge_contract_id l)),
          (''source_event_type'', JStr (lp_source_event_type l)), (''source_event_id'', json_option JId (lp_source_event_id l)),
          (''leg_id'', JStr (lp_leg_id l)), (''cashflow_date'', JDate (lp_cashflow_date l)),
          (''currency'', JStr (lp_currency l)), (''direction'', JStr (lp_direction l)), (''amount'', JDec (lp_amount l)),
          (''signed_amount_usd'', JDec (lp_signed_amount_usd l)), (''price_source'', json_option JStr (lp_price_source l)),
          (''price_symbol'', json_option JStr (lp_price_symbol l)),
          (''price_settlement_date'', json_option JDate (lp_price_settlement_date l)),
          (''price_value'', json_option JDec (lp_price_value l))]) (bp_realized_ledger_entries p))),
      (''reconciliation'', JObj
         [(''unrealized_total_usd'', JDec (bp_unrealized_total_usd p)), (''realized_total_usd'', JDec (bp_realized_total_usd p)),
          (''total_net_cashflow'', JDec (bp_total_net_cashflow p)),
          (''unrealized_item_count'', JNat (bp_unrealized_item_count p)), (''ledger_entry_count'', JNat (bp_ledger_entry_count p))])]"

definition baseline_inputs_hash :: "fingerprint \<Rightarrow> date \<Rightarrow> baseline_payload \<Rightarrow> decimal \<Rightarrow> string" where
  "baseline_inputs_hash k as_of_date payload net_total =
     sha256_json k (JObj [(''as_of_date'', JDate as_of_date), (''snapshot_data'', baseline_json payload),
       (''total_net_cashflow'', JDec net_total)])"

text \<open>The payload and the total that \<open>create_cashflow_baseline_snapshot\<close> computes before it looks at
  what is stored.\<close>

definition baseline_payload_of :: "db \<Rightarrow> date \<Rightarrow> (baseline_payload \<times> decimal) result" where
  "baseline_payload_of s as_of_date =
     and_then (build_unrealized_items s as_of_date) (\<lambda>unrealized_items.
     let realized_entries = load_realized_ledger_entries s as_of_date;
         unrealized_total = quantize_money (sum_list (map ci_amount_usd unrealized_items))
     in and_then (map_result signed_ledger_amount realized_entries) (\<lambda>realized_amounts.
        and_then (map_result ledger_entry_payload realized_entries) (\<lambda>realized_payload.
        let realized_total = quantize_money (sum_list realized_amounts);
            net_total = quantize_money (unrealized_total + realized_total)
        in Inr (canonicalize_snapshot_payload
             \<lparr>bp_view = Some ''baseline'', bp_as_of_date = as_of_date, bp_unrealized_items = unrealized_items,
              bp_realized_ledger_entries = realized_payload, bp_unrealized_total_usd = unrealized_total,
              bp_realized_total_usd = realized_total, bp_total_net_cashflow = net_total,
              bp_unrealized_item_count = length unrealized_items, bp_ledger_entry_count = length realized_payload\<rparr>, net_total))))"

definition check_existing_baseline :: "CashFlowBaselineSnapshot \<Rightarrow> baseline_payload \<Rightarrow> decimal \<Rightarrow> string \<Rightarrow> unit result" where
  "check_existing_baseline existing payload net_total inputs_hash =
     and_then (require (bs_snapshot_data existing) (http HTTP_409 ''CashFlow baseline snapshot missing snapshot_data'')) (\<lambda>snapshot_data.
     and_then (require (bs_total_net_cashflow existing) (http HTTP_409 ''CashFlow baseline snapshot missing total_net_cashflow''))
       (\<lambda>existing_total.
     let existing_payload = canonicalize_snapshot_payload snapshot_data
     in and_then (raise_if (bp_view existing_payload \<noteq> Some ''baseline'')
          (http HTTP_409 ''CashFlow baseline snapshot uses legacy payload shape'')) (\<lambda>_.
        and_then (raise_if (bs_inputs_hash existing = None)
          (http HTTP_409 ''CashFlow baseline snapshot missing inputs_hash'')) (\<lambda>_.
        raise_if (existing_payload \<noteq> payload \<or> existing_total \<noteq> net_total \<or> bs_inputs_hash existing \<noteq> Some inputs_hash)
          (http HTTP_409 ''CashFlow baseline snapshot conflict'')))))"

definition find_baseline :: "db \<Rightarrow> date \<Rightarrow> CashFlowBaselineSnapshot option" where
  "find_baseline s as_of_date = find (\<lambda>b. bs_as_of_date b = as_of_date) (baseline_snapshots s)"

definition create_cashflow_baseline_snapshot ::
    "fingerprint \<Rightarrow> (decimal \<Rightarrow> decimal) \<Rightarrow> db \<Rightarrow> datetime \<Rightarrow> date \<Rightarrow> detail \<Rightarrow> (db \<times> CashFlowBaselineSnapshot) result" where
  "create_cashflow_baseline_snapshot k col s now as_of_date correlation_id =
     (let existing = find_baseline s as_of_date
      in and_then (baseline_payload_of s as_of_date) (\<lambda>(payload, net_total).
         let inputs_hash = baseline_inputs_hash k as_of_date payload net_total
         in case existing of
              Some e \<Rightarrow> and_then (check_existing_baseline e payload net_total inputs_hash) (\<lambda>_. Inr (s, e))
            | None \<Rightarrow>
                let snapshot = \<lparr>bs_id = next_uuid s, bs_as_of_date = as_of_date, bs_snapshot_data = Some payload,
                      bs_total_net_cashflow = Some (col net_total), bs_inputs_hash = Some inputs_hash,
                      bs_correlation_id = correlation_id, bs_created_at = now\<rparr>
                in Inr (s\<lparr>baseline_snapshots := baseline_snapshots s @ [snapshot], next_uuid := Suc (next_uuid s)\<rparr>, snapshot)))"

definition get_cashflow_baseline_snapshot :: "db \<Rightarrow> date \<Rightarrow> CashFlowBaselineSnapshot result" where
  "get_cashflow_baseline_snapshot s as_of_date =
     require (find_baseline s as_of_date) (http HTTP_404 ''Baseline snapshot not found'')"

section \<open>Projection\<close>

datatype ProjectionInstrumentType = PI_sales_order | PI_purchase_order | PI_hedge_buy | PI_hedge_sell | PI_hedge_contract

record CashFlowProjectionItem =
  cpi_instrument_type :: ProjectionInstrumentType
  cpi_instrument_id :: uuid
  cpi_reference :: string
  cpi_counterparty :: string
  cpi_commodity :: string
  cpi_settlement_date :: date
  cpi_quantity_mt :: decimal
  cpi_price_per_mt :: decimal
  cpi_amount_usd :: decimal
  cpi_price_source :: string
  cpi_deal_id :: "uuid option"

record CashFlowProjectionSummary =
  cps_total_inflows :: decimal
  cps_total_outflows :: decimal
  cps_net_cashflow :: decimal
  cps_instrument_count :: nat

definition get_market_price_quote :: "db \<Rightarrow> string \<Rightarrow> date \<Rightarrow> PriceQuote result" where
  "get_market_price_quote s commodity as_of_date =
     (case resolve_symbol commodity of
        Inl (HTTPException code m) \<Rightarrow>
          if code = HTTP_400 then Inl (PriceReferenceUnprovable
            (Msg ''Cannot project: no price-symbol mapping for commodity '{}' '' [AStr commodity]))
          else Inl (HTTPException code m)
      | Inl e \<Rightarrow> Inl e
      | Inr symb \<Rightarrow> get_cash_settlement_price_d1_with_provenance s symb as_of_date)"

definition resolve_deal_id :: "db \<Rightarrow> DealLinkedType \<Rightarrow> uuid \<Rightarrow> uuid option" where
  "resolve_deal_id s linked_type linked_id =
     map_option dl_deal_id (find (\<lambda>l. dl_linked_type l = linked_type \<and> dl_linked_id l = linked_id) (deal_links s))"

definition order_settlement_date :: "Order \<Rightarrow> date option" where
  "order_settlement_date r =
     (case ord_delivery_date_end r of Some d \<Rightarrow> Some d | None \<Rightarrow> ord_delivery_date_start r)"

definition order_price :: "db \<Rightarrow> date \<Rightarrow> Order \<Rightarrow> (decimal \<times> string) result" where
  "order_price s as_of_date r =
     (if ord_price_type r = PT_fixed then
        and_then (require (ord_avg_entry_price r) (HTTPException HTTP_422
          (Msg ''Order {} is fixed-price but avg_entry_price is missing; cannot project.'' [AId (ord_id r)]))) (\<lambda>price.
        Inr (price, ''fixed''))
      else and_then (get_market_price_quote s (ord_commodity r) as_of_date) (\<lambda>q. Inr (pq_value q, ''market'')))"

text \<open>One turn of the loop over the orders.\<close>

definition project_order :: "db \<Rightarrow> date \<Rightarrow> Order \<Rightarrow> CashFlowProjectionItem list \<Rightarrow> CashFlowProjectionItem list result" where
  "project_order s as_of_date r items =
     (case order_settlement_date r of
        None \<Rightarrow> Inr items
      | Some settle_dt \<Rightarrow>
          if settle_dt < as_of_date then Inr items
          else
            and_then (order_price s as_of_date r) (\<lambda>(price, price_src).
            let amount = ord_quantity_mt r * price; is_so = (ord_order_type r = OT_sales)
            in Inr (items @ [\<lparr>cpi_instrument_type = (if is_so then PI_sales_order else PI_purchase_order),
                 cpi_instrument_id = ord_id r, cpi_reference = '''', cpi_counterparty = '''', cpi_commodity = ord_commodity r,
                 cpi_settlement_date = settle_dt, cpi_quantity_mt = ord_quantity_mt r, cpi_price_per_mt = price,
                 cpi_amount_usd = (if is_so then amount else - amount), cpi_price_source = price_src,
                 cpi_deal_id = resolve_deal_id s (if is_so then DL_sales_order else DL_purchase_order) (ord_id r)\<rparr>])))"

definition project_contract :: "db \<Rightarrow> date \<Rightarrow> HedgeContract \<Rightarrow> CashFlowProjectionItem list \<Rightarrow> CashFlowProjectionItem list result" where
  "project_contract s as_of_date c items =
     and_then (require (hc_settlement_date c) (HTTPException HTTP_422
       (Msg ''Contract {} has no settlement_date; cannot project (no inventing as_of_date).'' [AId (hc_id c)]))) (\<lambda>settle_dt.
     if settle_dt < as_of_date then Inr items
     else
       and_then (require (hc_fixed_price_value c) (HTTPException HTTP_422
         (Msg ''Contract {} has no fixed_price_value; cannot project.'' [AId (hc_id c)]))) (\<lambda>fixed_price.
       and_then (get_market_price_quote s (hc_commodity c) as_of_date) (\<lambda>variable_quote.
       let qty = hc_quantity_mt c; est_variable = pq_value variable_quote;
           amount = (if hc_fixed_leg_side c = Leg_buy then qty * (est_variable - fixed_price) else qty * (fixed_price - est_variable))
       in Inr (items @ [\<lparr>cpi_instrument_type = (if hc_classification c = HC_short then PI_hedge_sell else PI_hedge_buy),
            cpi_instrument_id = hc_id c, cpi_reference = (case hc_reference c of None \<Rightarrow> '''' | Some x \<Rightarrow> x),
            cpi_counterparty = (case hc_counterparty_id c of None \<Rightarrow> '''' | Some x \<Rightarrow> x), cpi_commodity = hc_commodity c,
            cpi_settlement_date = settle_dt, cpi_quantity_mt = qty, cpi_price_per_mt = fixed_price, cpi_amount_usd = amount,
            cpi_price_source = ''market'', cpi_deal_id = resolve_deal_id s DL_contract (hc_id c)\<rparr>]))))"

definition projection_summary :: "CashFlowProjectionItem list \<Rightarrow> CashFlowProjectionSummary" where
  "projection_summary items =
     (let total_in = sum_where (\<lambda>i. 0 < cpi_amount_usd i) cpi_amount_usd items;
          total_out = sum_where (\<lambda>i. cpi_amount_usd i < 0) cpi_amount_usd items
      in \<lparr>cps_total_inflows = total_in, cps_total_outflows = total_out, cps_net_cashflow = total_in + total_out,
          cps_instrument_count = length items\<rparr>)"

definition compute_cashflow_projection :: "db \<Rightarrow> date \<Rightarrow> (CashFlowProjectionItem list \<times> CashFlowProjectionSummary) result" where
  "compute_cashflow_projection s as_of_date =
     and_then (fold_result (project_order s as_of_date) (filter (\<lambda>r. ord_deleted_at r = None) (orders s)) []) (\<lambda>order_items.
     and_then (fold_result (project_contract s as_of_date) (filter hedge_live (contracts s)) order_items) (\<lambda>all_items.
     let items = sort_key cpi_settlement_date all_items
     in Inr (items, projection_summary items)))"

section \<open>The baseline as a snapshot store\<close>

lemma find_baseline_None: "find_baseline s d = None \<longleftrightarrow> d \<notin> bs_as_of_date ` set (baseline_snapshots s)"
  by (force simp: find_baseline_def find_None_iff)

lemma find_baseline_Some: "find_baseline s d = Some b \<Longrightarrow> b \<in> set (baseline_snapshots s) \<and> bs_as_of_date b = d"
  by (auto simp: find_baseline_def dest!: find_SomeD)

lemma baseline_cases:
  assumes "create_cashflow_baseline_snapshot k col s now d corr = Inr (s', b)"
  obtains (stored) "s' = s" "b \<in> set (baseline_snapshots s)" "bs_as_of_date b = d"
  | (taken) payload net where "baseline_payload_of s d = Inr (payload, net)" "find_baseline s d = None"
      "b = \<lparr>bs_id = next_uuid s, bs_as_of_date = d, bs_snapshot_data = Some payload, bs_total_net_cashflow = Some (col net),
         bs_inputs_hash = Some (baseline_inputs_hash k d payload net), bs_correlation_id = corr, bs_created_at = now\<rparr>"
      "s' = s\<lparr>baseline_snapshots := baseline_snapshots s @ [b], next_uuid := Suc (next_uuid s)\<rparr>"
proof (cases "find_baseline s d")
  case None
  then show ?thesis using assms taken by (auto simp: create_cashflow_baseline_snapshot_def Let_def)
next
  case (Some e)
  then have "s' = s \<and> b = e" using assms by (auto simp: create_cashflow_baseline_snapshot_def Let_def)
  then show ?thesis using stored find_baseline_Some[OF Some] by blast
qed

type_synonym baseline_request = "datetime \<times> date \<times> detail"

definition baseline_service ::
    "fingerprint \<Rightarrow> (decimal \<Rightarrow> decimal) \<Rightarrow> baseline_request \<Rightarrow> db \<Rightarrow> (db \<times> CashFlowBaselineSnapshot) result" where
  "baseline_service k col = (\<lambda>(now, d, corr) s. create_cashflow_baseline_snapshot k col s now d corr)"

interpretation baseline_store: snapshot_store baseline_snapshots bs_as_of_date "baseline_service k col" "\<lambda>(now, d, corr) s. d" for k col
proof
  fix a s s' b
  assume "baseline_service k col a s = Inr (s', b)"
  then obtain now d corr where a: "a = (now, d, corr)" and b: "create_cashflow_baseline_snapshot k col s now d corr = Inr (s', b)"
    by (cases a) (auto simp: baseline_service_def)
  from b show "s' = s \<and> b \<in> set (baseline_snapshots s) \<or>
      baseline_snapshots s' = baseline_snapshots s @ [b] \<and> bs_as_of_date b \<notin> bs_as_of_date ` set (baseline_snapshots s)"
    by (cases rule: baseline_cases) (auto simp: find_baseline_None)
  from b show "bs_as_of_date b = (case a of (now, d, corr) \<Rightarrow> \<lambda>s. d) s"
    by (cases rule: baseline_cases) (auto simp: a)
qed

lemma baseline_payload_cong:
  assumes "contracts s' = contracts s" and "orders s' = orders s" and "prices s' = prices s" and "ledger_entries s' = ledger_entries s"
  shows "baseline_payload_of s' = baseline_payload_of s"
proof -
  have "build_unrealized_items s' = build_unrealized_items s"
    unfolding build_unrealized_items_def mtm_cong[OF assms(1,3)] order_mtm_cong[OF assms(2,3)] assms(1,2) by (rule refl)
  moreover have "load_realized_ledger_entries s' = load_realized_ledger_entries s"
    unfolding load_realized_ledger_entries_def assms(4) by (rule refl)
  ultimately show ?thesis unfolding baseline_payload_of_def by simp
qed

lemma canonicalize_idem [simp]: "canonicalize_snapshot_payload (canonicalize_snapshot_payload p) = canonicalize_snapshot_payload p"
  by (simp add: canonicalize_snapshot_payload_def sort_key_id_if_sorted)

text \<open>What a computed payload says.\<close>

lemma baseline_payload_Inr:
  assumes "baseline_payload_of s d = Inr (payload, net)"
  obtains items where "build_unrealized_items s d = Inr items" "bp_view payload = Some ''baseline''"
    "bp_unrealized_items payload = sort_key item_key items" "canonicalize_snapshot_payload payload = payload"
    "\<exists>rs. map_result ledger_entry_payload (load_realized_ledger_entries s d) = Inr rs"
    "\<exists>am. map_result signed_ledger_amount (load_realized_ledger_entries s d) = Inr am
       \<and> net = quantize_money (quantize_money (sum_list (map ci_amount_usd items)) + quantize_money (sum_list am))"
proof -
  from assms obtain items am rs where i: "build_unrealized_items s d = Inr items"
    and am: "map_result signed_ledger_amount (load_realized_ledger_entries s d) = Inr am"
    and rs: "map_result ledger_entry_payload (load_realized_ledger_entries s d) = Inr rs"
    and net: "net = quantize_money (quantize_money (sum_list (map ci_amount_usd items)) + quantize_money (sum_list am))"
    and p: "payload = canonicalize_snapshot_payload
         \<lparr>bp_view = Some ''baseline'', bp_as_of_date = d, bp_unrealized_items = items,
          bp_realized_ledger_entries = rs, bp_unrealized_total_usd = quantize_money (sum_list (map ci_amount_usd items)),
          bp_realized_total_usd = quantize_money (sum_list am), bp_total_net_cashflow = net,
          bp_unrealized_item_count = length items, bp_ledger_entry_count = length rs\<rparr>"
    unfolding baseline_payload_of_def Let_def by (auto simp del: money.q_idem money.q_add)
  have c: "canonicalize_snapshot_payload payload = payload" unfolding p by simp
  show ?thesis
    by (rule that[OF i]) (use am rs net c in \<open>auto simp: p canonicalize_snapshot_payload_def\<close>)
qed

text \<open>The sum of amounts on the grid is on the grid.\<close>

lemma money_sum_list: "(\<And>x. x \<in> set xs \<Longrightarrow> quantize_money x = x) \<Longrightarrow> quantize_money (sum_list xs) = sum_list xs"
  by (induction xs) (auto simp: money.q_add_fixed)

lemma signed_amount_grid: "signed_ledger_amount e = Inr v \<Longrightarrow> quantize_money v = v"
  by (auto simp: signed_ledger_amount_def Let_def quantize_money_def quantize_uminus split: if_splits)
    (metis money.q_idem quantize_money_def)+

section \<open>Properties\<close>

text \<open>A baseline can be asked for again: on unchanged orders, contracts, prices and ledger entries
  the second request answers with the stored row, for every database that stores multiples of a
  millionth exactly. (The mark-to-market snapshot has no such guarantee.)\<close>

theorem baseline_retry:
  assumes "create_cashflow_baseline_snapshot k col s now d corr = Inr (s1, b)" and "find_baseline s d = None"
    and "quantizer (1 / 1000000) col" and "contracts s2 = contracts s" "orders s2 = orders s" "prices s2 = prices s"
    "ledger_entries s2 = ledger_entries s" "baseline_snapshots s2 = baseline_snapshots s1"
  shows "create_cashflow_baseline_snapshot k col s2 now' d corr' = Inr (s2, b)"
  using assms(1)
proof (cases rule: baseline_cases)
  case stored
  then show ?thesis using assms(2) unfolding find_baseline_None by force
next
  case (taken payload net)
  have payload: "baseline_payload_of s2 d = Inr (payload, net)"
    using baseline_payload_cong[OF assms(4-7)] taken(1) by simp
  have "find_baseline s2 d = Some b"
    using taken(2) unfolding find_baseline_def assms(8) taken(4) by (simp add: find_append taken(3))
  moreover obtain net0 where "net = quantize_money net0" "canonicalize_snapshot_payload payload = payload" "bp_view payload = Some ''baseline''"
    using taken(1) by (rule baseline_payload_Inr) blast
  moreover have "col (quantize_money net0) = quantize_money net0"
    using quantizer.q_fix[OF assms(3)] money.q_grid[of net0] by metis
  ultimately show ?thesis
    using payload by (simp add: create_cashflow_baseline_snapshot_def check_existing_baseline_def taken(3))
qed

lemma map_result_map:
  "map_result f xs = Inr ys \<Longrightarrow> (\<And>x y. x \<in> set xs \<Longrightarrow> f x = Inr y \<Longrightarrow> g y = h x) \<Longrightarrow> map g ys = map h xs"
  by (induction xs arbitrary: ys) (auto split: sum.splits)

lemma build_unrealized_items_rows:
  assumes "build_unrealized_items s d = Inr items"
  shows "mset (map (\<lambda>i. (ci_object_type i, ci_object_id i)) items) =
      mset (map (\<lambda>c. (MO_hedge_contract, hc_id c)) (filter hedge_live (contracts s)))
      + mset (map (\<lambda>r. (MO_order, ord_id r)) (filter (\<lambda>r. mtm_eligible_order r \<and> ord_deleted_at r = None) (orders s)))"
    and "i \<in> set items \<Longrightarrow> quantize_money (ci_amount_usd i) = ci_amount_usd i"
proof -
  let ?cs = "sort_key (\<lambda>c. (hc_created_at c, hc_id c)) (filter hedge_live (contracts s))"
  let ?rs = "sort_key (\<lambda>r. (ord_created_at r, ord_id r)) (filter (\<lambda>r. mtm_eligible_order r \<and> ord_deleted_at r = None) (orders s))"
  from assms obtain xs ys where items: "items = xs @ ys"
    and xs: "map_result (\<lambda>c. and_then (compute_mtm_for_contract s (hc_id c) d) (cashflow_item_from_mtm d)) ?cs = Inr xs"
    and ys: "map_result (\<lambda>r. and_then (compute_mtm_for_order s (ord_id r) d) (cashflow_item_from_mtm d)) ?rs = Inr ys"
    unfolding build_unrealized_items_def Let_def by auto
  have "map (\<lambda>i. (ci_object_type i, ci_object_id i)) xs = map (\<lambda>c. (MO_hedge_contract, hc_id c)) ?cs"
    using xs by (rule map_result_map) (auto simp: compute_mtm_for_contract_def cashflow_item_from_mtm_def get_contract_def Let_def dest: get_row_SomeD)
  moreover have "map (\<lambda>i. (ci_object_type i, ci_object_id i)) ys = map (\<lambda>r. (MO_order, ord_id r)) ?rs"
    using ys by (rule map_result_map) (auto simp: compute_mtm_for_order_def cashflow_item_from_mtm_def get_order_def Let_def dest: get_row_SomeD)
  ultimately have "mset (map (\<lambda>i. (ci_object_type i, ci_object_id i)) items)
      = mset (map (\<lambda>c. (MO_hedge_contract, hc_id c)) ?cs) + mset (map (\<lambda>r. (MO_order, ord_id r)) ?rs)"
    by (simp only: items map_append mset_append)
  then show "mset (map (\<lambda>i. (ci_object_type i, ci_object_id i)) items) =
      mset (map (\<lambda>c. (MO_hedge_contract, hc_id c)) (filter hedge_live (contracts s)))
      + mset (map (\<lambda>r. (MO_order, ord_id r)) (filter (\<lambda>r. mtm_eligible_order r \<and> ord_deleted_at r = None) (orders s)))"
    by (simp only: mset_map mset_sort)
  show "quantize_money (ci_amount_usd i) = ci_amount_usd i" if "i \<in> set items"
  proof -
    have "\<exists>mtm. cashflow_item_from_mtm d mtm = Inr i"
      using that map_result_set[OF xs, of i] map_result_set[OF ys, of i] unfolding items by auto
    then show ?thesis by (auto simp: cashflow_item_from_mtm_def Let_def)
  qed
qed

lemma ledger_payload_rows:
  assumes "map_result ledger_entry_payload es = Inr rs" and "map_result signed_ledger_amount es = Inr am"
  shows "map lp_id rs = map le_id es" "map lp_signed_amount_usd rs = am"
proof -
  show "map lp_id rs = map le_id es"
    using assms(1) by (rule map_result_map) (auto simp: ledger_entry_payload_def)
  show "map lp_signed_amount_usd rs = am"
    using assms by (induction es arbitrary: rs am) (auto simp: ledger_entry_payload_def split: sum.splits)
qed

text \<open>C19: A baseline reconciles. Its total is exactly the sum of its items and of its signed ledger
  entries; the items are one per live open hedge and per live order with a market exposure, and the
  ledger entries are those dated up to the day, each once.\<close>

theorem baseline_reconciles:
  assumes "create_cashflow_baseline_snapshot k col s now d corr = Inr (s', b)" and "find_baseline s d = None"
    and "quantizer (1 / 1000000) col"
  shows "\<exists>p. bs_snapshot_data b = Some p
    \<and> bs_total_net_cashflow b = Some (sum_list (map ci_amount_usd (bp_unrealized_items p))
         + sum_list (map lp_signed_amount_usd (bp_realized_ledger_entries p)))
    \<and> mset (map (\<lambda>i. (ci_object_type i, ci_object_id i)) (bp_unrealized_items p)) =
        mset (map (\<lambda>c. (MO_hedge_contract, hc_id c)) (filter hedge_live (contracts s)))
        + mset (map (\<lambda>r. (MO_order, ord_id r)) (filter (\<lambda>r. mtm_eligible_order r \<and> ord_deleted_at r = None) (orders s)))
    \<and> mset (map lp_id (bp_realized_ledger_entries p)) = mset (map le_id (filter (\<lambda>e. le_cashflow_date e \<le> d) (ledger_entries s)))"
  using assms(1)
proof (cases rule: baseline_cases)
  case stored
  then show ?thesis using assms(2) unfolding find_baseline_None by force
next
  case (taken payload net)
  let ?es = "load_realized_ledger_entries s d"
  from taken(1) obtain items am rs where items: "build_unrealized_items s d = Inr items"
    and am: "map_result signed_ledger_amount ?es = Inr am" and rs: "map_result ledger_entry_payload ?es = Inr rs"
    and net: "net = quantize_money (quantize_money (sum_list (map ci_amount_usd items)) + quantize_money (sum_list am))"
    and p: "bp_unrealized_items payload = sort_key item_key items" "bp_realized_ledger_entries payload = sort_key ledger_payload_key rs"
    unfolding baseline_payload_of_def Let_def by (auto simp: canonicalize_snapshot_payload_def simp del: money.q_idem money.q_add)
  have grid: "quantize_money (sum_list (map ci_amount_usd items)) = sum_list (map ci_amount_usd items)" "quantize_money (sum_list am) = sum_list am"
    using build_unrealized_items_rows(2)[OF items] map_result_set[OF am] by (auto intro!: money_sum_list dest: signed_amount_grid)
  have sorted_sums: "sum_list (map f (sort_key g xs)) = sum_list (map f xs)" for f :: "'z \<Rightarrow> rat" and g :: "'z \<Rightarrow> 'y :: linorder" and xs
    by (simp only: sum_mset_sum_list [symmetric] mset_map mset_sort)
  have "col net = net"
    using quantizer.q_fix[OF assms(3)] money.q_grid unfolding net by metis
  also have "net = sum_list (map ci_amount_usd items) + sum_list am"
    unfolding net by (simp only: money.q_add) (simp only: grid)
  finally have tot: "bs_total_net_cashflow b = Some (sum_list (map ci_amount_usd (bp_unrealized_items payload))
       + sum_list (map lp_signed_amount_usd (bp_realized_ledger_entries payload)))"
    by (simp add: taken(3) p sorted_sums ledger_payload_rows(2)[OF rs am])
  have "mset (map lp_id (bp_realized_ledger_entries payload)) = mset (map lp_id rs)"
    unfolding p by (simp only: mset_map mset_sort)
  also have "\<dots> = mset (map le_id (filter (\<lambda>e. le_cashflow_date e \<le> d) (ledger_entries s)))"
    unfolding ledger_payload_rows(1)[OF rs am] load_realized_ledger_entries_def by (simp only: mset_map mset_sort)
  finally have entries: "mset (map lp_id (bp_realized_ledger_entries payload)) = mset (map le_id (filter (\<lambda>e. le_cashflow_date e \<le> d) (ledger_entries s)))" .
  have "mset (map (\<lambda>i. (ci_object_type i, ci_object_id i)) (bp_unrealized_items payload))
      = mset (map (\<lambda>i. (ci_object_type i, ci_object_id i)) items)" unfolding p by (simp only: mset_map mset_sort)
  with build_unrealized_items_rows(1)[OF items] tot entries show ?thesis
    by (intro exI[of _ payload]) (simp add: taken(3))
qed

section \<open>The projection is complete\<close>

definition in_window :: "date \<Rightarrow> date option \<Rightarrow> bool" where
  "in_window d due \<longleftrightarrow> (case due of None \<Rightarrow> False | Some x \<Rightarrow> d \<le> x)"

lemma project_orders:
  assumes "fold_result (project_order s d) rs items = Inr items'"
  shows "map cpi_instrument_id items' = map cpi_instrument_id items @ map ord_id (filter (\<lambda>r. in_window d (order_settlement_date r)) rs)"
  using assms
proof (induction rs arbitrary: items)
  case (Cons r rs)
  from Cons.prems obtain items1 where step: "project_order s d r items = Inr items1" and rest: "fold_result (project_order s d) rs items1 = Inr items'"
    by (auto split: sum.splits)
  have "map cpi_instrument_id items1 = map cpi_instrument_id items @ (if in_window d (order_settlement_date r) then [ord_id r] else [])"
    using step by (cases "order_settlement_date r") (auto simp: project_order_def in_window_def Let_def split: if_splits)
  then show ?case using Cons.IH[OF rest] by simp
qed simp

lemma project_contracts:
  assumes "fold_result (project_contract s d) cs items = Inr items'"
  shows "map cpi_instrument_id items' = map cpi_instrument_id items @ map hc_id (filter (\<lambda>c. in_window d (hc_settlement_date c)) cs)"
  using assms
proof (induction cs arbitrary: items)
  case (Cons c cs)
  from Cons.prems obtain items1 where step: "project_contract s d c items = Inr items1" and rest: "fold_result (project_contract s d) cs items1 = Inr items'"
    by (auto split: sum.splits)
  have "map cpi_instrument_id items1 = map cpi_instrument_id items @ (if in_window d (hc_settlement_date c) then [hc_id c] else [])"
    using step by (auto simp: project_contract_def in_window_def Let_def split: if_splits)
  then show ?case using Cons.IH[OF rest] by simp
qed simp

lemma sum_where_nonpos: "(\<And>r. r \<in> set rows \<Longrightarrow> p r \<Longrightarrow> col r \<le> 0) \<Longrightarrow> sum_where p col rows \<le> 0"
  by (induction rows) (auto intro: add_nonpos_nonpos)

lemma sum_by_sign: "sum_where (\<lambda>i. 0 < f i) f xs + sum_where (\<lambda>i. f i < 0) f xs = sum_list (map f xs)"
  by (induction xs) auto

text \<open>C20: A projection that is returned is complete: it has one item for every live order and every live
  hedge that falls due on or after the day, in order of the due dates, and its net cash flow is the
  sum of the items, inflows being positive and outflows negative.\<close>

theorem projection_complete:
  assumes "compute_cashflow_projection s d = Inr (items, sm)"
  shows "mset (map cpi_instrument_id items) =
      mset (map ord_id (filter (\<lambda>r. ord_deleted_at r = None \<and> in_window d (order_settlement_date r)) (orders s)))
      + mset (map hc_id (filter (\<lambda>c. hedge_live c \<and> in_window d (hc_settlement_date c)) (contracts s)))
    \<and> sorted (map cpi_settlement_date items) \<and> cps_net_cashflow sm = sum_list (map cpi_amount_usd items)
    \<and> cps_total_outflows sm \<le> 0 \<and> 0 \<le> cps_total_inflows sm \<and> cps_instrument_count sm = length items"
proof -
  obtain os all where os: "fold_result (project_order s d) (filter (\<lambda>r. ord_deleted_at r = None) (orders s)) [] = Inr os"
    and all: "fold_result (project_contract s d) (filter hedge_live (contracts s)) os = Inr all"
    and items: "items = sort_key cpi_settlement_date all" and sm: "sm = projection_summary items"
    using assms by (auto simp: compute_cashflow_projection_def Let_def)
  have "map cpi_instrument_id all = map ord_id (filter (\<lambda>r. in_window d (order_settlement_date r)) (filter (\<lambda>r. ord_deleted_at r = None) (orders s)))
      @ map hc_id (filter (\<lambda>c. in_window d (hc_settlement_date c)) (filter hedge_live (contracts s)))"
    using project_contracts[OF all] project_orders[OF os] by simp
  then have "mset (map cpi_instrument_id items) =
      mset (map ord_id (filter (\<lambda>r. in_window d (order_settlement_date r)) (filter (\<lambda>r. ord_deleted_at r = None) (orders s))))
      + mset (map hc_id (filter (\<lambda>c. in_window d (hc_settlement_date c)) (filter hedge_live (contracts s))))"
    unfolding items mset_map mset_sort by (metis mset_append mset_map)
  then have ids: "mset (map cpi_instrument_id items) =
      mset (map ord_id (filter (\<lambda>r. ord_deleted_at r = None \<and> in_window d (order_settlement_date r)) (orders s)))
      + mset (map hc_id (filter (\<lambda>c. hedge_live c \<and> in_window d (hc_settlement_date c)) (contracts s)))"
    by (simp add: conj_commute)
  have "0 \<le> cps_total_inflows sm" by (auto simp: sm projection_summary_def Let_def intro: sum_where_nonneg)
  moreover have "cps_total_outflows sm \<le> 0"
    by (auto simp: sm projection_summary_def Let_def intro: sum_where_nonpos)
  moreover have "sorted (map cpi_settlement_date items)" unfolding items by (rule sorted_sort_key)
  ultimately show ?thesis using ids by (simp add: sm projection_summary_def Let_def sum_by_sign)
qed

section \<open>Disagreements between the views\<close>

text \<open>The analytic view does not ask whether a contract is archived: an archived contract that is still
  active is valued there, while the baseline leaves it out.\<close>

lemma analytic_counts_archived:
  assumes "compute_cashflow_analytic s d = Inr r" and "c \<in> set (contracts s)" and "hc_status c = HS_active" and "hc_deleted_at c = Some t"
  shows "\<exists>i \<in> set (ca_cashflow_items r). ci_object_type i = MO_hedge_contract \<and> ci_object_id i = hc_id c"
proof -
  let ?cs = "sort_key hc_created_at (filter (\<lambda>c. hc_status c = HS_active) (contracts s))"
  from assms(1) obtain xs ys where xs: "map_result (\<lambda>c. and_then (compute_mtm_for_contract s (hc_id c) d) (analytic_item d)) ?cs = Inr xs"
    and r: "ca_cashflow_items r = xs @ ys"
    by (auto simp: compute_cashflow_analytic_def Let_def)
  have "map (\<lambda>i. (ci_object_type i, ci_object_id i)) xs = map (\<lambda>c. (MO_hedge_contract, hc_id c)) ?cs"
    using xs by (rule map_result_map) (auto simp: compute_mtm_for_contract_def analytic_item_def get_contract_def dest: get_row_SomeD)
  from arg_cong[OF this, of set] assms(2,3) have "(MO_hedge_contract, hc_id c) \<in> (\<lambda>i. (ci_object_type i, ci_object_id i)) ` set xs" by auto
  then obtain i where "i \<in> set xs" "ci_object_type i = MO_hedge_contract" "ci_object_id i = hc_id c" by auto
  then show ?thesis by (intro bexI[of _ i]) (simp_all add: r)
qed

text \<open>The projection gives a hedge the sign of its side, the mark-to-market does not: for a hedge that
  sells fixed the two views report opposite amounts.\<close>

lemma projection_opposes_mtm:
  assumes "compute_mtm_for_contract s (hc_id c) d = Inr r" and "get_contract s (hc_id c) = Some c" and "hc_settlement_date c = Some due"
    and "d \<le> due" and "hc_fixed_leg_side c = Leg_sell"
  shows "\<exists>i. project_contract s d c [] = Inr [i] \<and> cpi_amount_usd i = - mr_mtm_value r"
proof -
  have "\<not> due < d" using assms(4) by (simp add: not_less)
  moreover obtain fp symb q where "hc_fixed_price_value c = Some fp" "resolve_symbol (hc_commodity c) = Inr symb"
    "get_cash_settlement_price_d1_with_provenance s symb d = Inr q" "mr_mtm_value r = hc_quantity_mt c * (pq_value q - fp)"
    using assms(1,2) by (auto simp: compute_mtm_for_contract_def)
  moreover have "hc_quantity_mt c * (fp - pq_value q) = - (hc_quantity_mt c * (pq_value q - fp))" for fp and q :: PriceQuote
    by (simp add: right_diff_distrib)
  ultimately show ?thesis
    using assms(3,5) by (simp add: project_contract_def get_market_price_quote_def Let_def)
qed

section \<open>Examples\<close>

lemma priced_mtm:
  "compute_mtm_for_contract priced_db 1 (Date 2026 3 11) = Inr \<lparr>mr_object_type = MO_hedge_contract, mr_object_id = 1,
     mr_as_of_date = Date 2026 3 11, mr_mtm_value = 6000, mr_price_d1 = 9100,
     mr_entry_price = 9000, mr_quantity_mt = 60, mr_price_quote = Some sample_quote\<rparr>"
proof -
  have "get_cash_settlement_price_d1_with_provenance priced_db ''LME_CU_CASH_SETTLEMENT_DAILY'' (Date 2026 3 11) = Inr sample_quote"
    by (rule copper_quote) (simp add: priced_db_def)
  moreover have "get_contract priced_db 1 = Some (sample_contract 1 HC_short 60)"
    by (simp add: priced_db_def sample_defs get_contract_def)
  ultimately show ?thesis
    by (simp add: compute_mtm_for_contract_def sample_contract_def hedge_open_def copper_symbol
        unprovable_to_missing_def) (simp add: sample_quote_def)
qed

lemma priced_baseline:
  obtains s' b where "create_cashflow_baseline_snapshot sample_fingerprint quantize_money priced_db 0 (Date 2026 3 11) (Msg ''c'' []) = Inr (s', b)"
    "find_baseline priced_db (Date 2026 3 11) = None" "contracts s' = contracts priced_db" "orders s' = orders priced_db"
    "prices s' = prices priced_db" "ledger_entries s' = ledger_entries priced_db"
proof -
  have tables: "filter hedge_live (contracts priced_db) = [sample_contract 1 HC_short 60]"
    "filter (\<lambda>r. mtm_eligible_order r \<and> ord_deleted_at r = None) (orders priced_db) = []" "ledger_entries priced_db = []"
    by (simp_all add: priced_db_def sample_defs hedge_live_def hedge_open_def mtm_eligible_order_def)
  have id: "hc_id (sample_contract 1 HC_short 60) = 1" by (simp add: sample_contract_def)
  obtain items where "build_unrealized_items priced_db (Date 2026 3 11) = Inr items"
    unfolding build_unrealized_items_def Let_def tables by (simp add: id priced_mtm cashflow_item_from_mtm_def Let_def del: One_nat_def)
  then obtain payload net where payload: "baseline_payload_of priced_db (Date 2026 3 11) = Inr (payload, net)"
    by (simp add: baseline_payload_of_def load_realized_ledger_entries_def tables(3) Let_def)
  have none: "find_baseline priced_db (Date 2026 3 11) = None" by (simp add: find_baseline_def priced_db_def sample_defs)
  show ?thesis
    using that[OF _ none] payload by (simp add: create_cashflow_baseline_snapshot_def none Let_def)
qed

theorem baseline_retry_witness:
  "\<exists>s' b. create_cashflow_baseline_snapshot sample_fingerprint quantize_money priced_db 0 (Date 2026 3 11) (Msg ''c'' []) = Inr (s', b)
     \<and> create_cashflow_baseline_snapshot sample_fingerprint quantize_money s' 5 (Date 2026 3 11) (Msg ''d'' []) = Inr (s', b)"
proof (rule priced_baseline)
  fix s' b
  assume b: "create_cashflow_baseline_snapshot sample_fingerprint quantize_money priced_db 0 (Date 2026 3 11) (Msg ''c'' []) = Inr (s', b)"
    and tables: "find_baseline priced_db (Date 2026 3 11) = None" "contracts s' = contracts priced_db" "orders s' = orders priced_db"
    "prices s' = prices priced_db" "ledger_entries s' = ledger_entries priced_db"
  from baseline_retry[OF b tables(1) money.quantizer_axioms tables(2-5) refl] b show ?thesis by blast
qed

theorem baseline_reconciles_witness:
  "\<exists>s' b p. create_cashflow_baseline_snapshot sample_fingerprint quantize_money priced_db 0 (Date 2026 3 11) (Msg ''c'' []) = Inr (s', b)
     \<and> bs_snapshot_data b = Some p \<and> length (bp_unrealized_items p) = 1"
proof (rule priced_baseline)
  fix s' b
  assume b: "create_cashflow_baseline_snapshot sample_fingerprint quantize_money priced_db 0 (Date 2026 3 11) (Msg ''c'' []) = Inr (s', b)"
    and none: "find_baseline priced_db (Date 2026 3 11) = None"
  obtain p where p: "bs_snapshot_data b = Some p" and rows: "mset (map (\<lambda>i. (ci_object_type i, ci_object_id i)) (bp_unrealized_items p)) =
        mset (map (\<lambda>c. (MO_hedge_contract, hc_id c)) (filter hedge_live (contracts priced_db)))
        + mset (map (\<lambda>r. (MO_order, ord_id r)) (filter (\<lambda>r. mtm_eligible_order r \<and> ord_deleted_at r = None) (orders priced_db)))"
    using baseline_reconciles[OF b none money.quantizer_axioms] by blast
  have "size (mset (map (\<lambda>i. (ci_object_type i, ci_object_id i)) (bp_unrealized_items p))) = 1"
    unfolding rows by (simp add: priced_db_def sample_defs hedge_live_def hedge_open_def mtm_eligible_order_def)
  with b p show ?thesis by auto
qed

theorem projection_complete_witness:
  "\<exists>items sm. compute_cashflow_projection (empty_db\<lparr>orders := [(sample_order 0 OT_sales PT_fixed 100)
       \<lparr>ord_avg_entry_price := Some 9000, ord_delivery_date_end := Some (Date 2026 4 1)\<rparr>]\<rparr>) (Date 2026 3 11) = Inr (items, sm)
     \<and> map cpi_instrument_id items = [0] \<and> cps_net_cashflow sm = 900000"
proof -
  let ?s = "empty_db\<lparr>orders := [(sample_order 0 OT_sales PT_fixed 100)\<lparr>ord_avg_entry_price := Some 9000, ord_delivery_date_end := Some (Date 2026 4 1)\<rparr>]\<rparr>"
  obtain items sm where run: "compute_cashflow_projection ?s (Date 2026 3 11) = Inr (items, sm)" "map cpi_amount_usd items = [900000]"
    by (simp add: compute_cashflow_projection_def project_order_def order_settlement_date_def order_price_def sample_order_def empty_db_def Let_def)
  from projection_complete[OF run(1)] have "mset (map cpi_instrument_id items) = {#0#}" "cps_net_cashflow sm = 900000"
    by (simp_all add: run(2)) (simp add: sample_order_def empty_db_def in_window_def order_settlement_date_def less_eq_date_def)
  then have "map cpi_instrument_id items = [0]" "cps_net_cashflow sm = 900000" by (simp_all only: mset_single_iff)
  with run(1) show ?thesis by (intro exI conjI)
qed

end
