(* ===== verification/Finance_Pipeline.thy ===== *)
theory Finance_Pipeline
  imports Cashflow_Views LME_Calendar Audit_Trail
begin

text \<open>
  \<open>backend/app/services/finance_pipeline_service.py\<close>: the daily run, six steps in a fixed order, each
  skipped when an earlier run of the day has completed it. A step that raises leaves what it wrote
  in the session (there is no savepoint), is marked failed and ends the run, which is committed as
  partial and can be resumed. A handler therefore returns the state beside its result.
  The clock is read once for a run; the configuration and the texts Python prints are parameters.
\<close>

section \<open>Names of states and steps\<close>

definition PIPELINE_STEPS :: "string list" where
  "PIPELINE_STEPS = [''market_snapshot'', ''mtm_computation'', ''pl_snapshot'', ''cashflow_baseline'', ''risk_flags'', ''summary'']"

fun run_status_value :: "PipelineRunStatus \<Rightarrow> string" where
  "run_status_value PRS_running = ''running''"
| "run_status_value PRS_completed = ''completed''"
| "run_status_value PRS_failed = ''failed''"
| "run_status_value PRS_partial = ''partial''"

fun step_status_value :: "PipelineStepStatus \<Rightarrow> string" where
  "step_status_value PSS_pending = ''pending''"
| "step_status_value PSS_running = ''running''"
| "step_status_value PSS_completed = ''completed''"
| "step_status_value PSS_failed = ''failed''"
| "step_status_value PSS_skipped = ''skipped''"

fun trigger_source_value :: "PipelineTriggerSource \<Rightarrow> string" where
  "trigger_source_value PTS_scheduler = ''scheduler''"
| "trigger_source_value PTS_manual = ''manual''"

text \<open>The environment variables, what a NUMERIC column keeps, SHA-256 and JSON, and \<open>str\<close> of an
  exception and of its detail.\<close>

record pipeline_env =
  pe_fingerprint :: fingerprint
  pe_col :: "decimal \<Rightarrow> decimal"
  pe_lock_timeout_seconds :: int
  pe_guardrail_tonnes :: decimal
  pe_show_error :: "py_error \<Rightarrow> string"
  pe_show_detail :: "detail \<Rightarrow> string"

text \<open>\<open>uuid.UUID(value)\<close>: prefixes, braces and hyphens are dropped, 32 hexadecimal digits remain.\<close>

fun drop_text :: "string \<Rightarrow> string \<Rightarrow> string" where
  "drop_text p [] = []"
| "drop_text p (c # cs) =
     (if take (length p) (c # cs) = p then drop_text p (drop (length p - 1) cs) else c # drop_text p cs)"

definition hex_value :: "char \<Rightarrow> nat option" where
  "hex_value c = (let n = of_char c :: nat in
     if 48 \<le> n \<and> n \<le> 57 then Some (n - 48) else if 97 \<le> n \<and> n \<le> 102 then Some (n - 87)
     else if 65 \<le> n \<and> n \<le> 70 then Some (n - 55) else None)"

definition parse_uuid :: "string \<Rightarrow> uuid option" where
  "parse_uuid t =
     (let brace = (\<lambda>c. c \<in> set ''{}''); h0 = drop_text ''uuid:'' (drop_text ''urn:'' t);
          h = filter (\<lambda>c. c \<noteq> CHR ''-'') (rev (dropWhile brace (rev (dropWhile brace h0)))); vs = map hex_value h
      in if length h = 32 \<and> None \<notin> set vs then Some (foldl (\<lambda>a v. 16 * a + v) 0 (List.map_filter id vs)) else None)"

section \<open>Rows of a run\<close>

definition steps_of_run :: "db \<Rightarrow> uuid \<Rightarrow> FinancePipelineStep list" where
  "steps_of_run s run_id = sort_key fs_step_number (filter (\<lambda>x. fs_run_id x = run_id) (pipeline_steps s))"

definition write_step :: "uuid \<Rightarrow> (FinancePipelineStep \<Rightarrow> FinancePipelineStep) \<Rightarrow> db \<Rightarrow> db" where
  "write_step i f s = s\<lparr>pipeline_steps := update_row fs_id i f (pipeline_steps s)\<rparr>"

definition write_run :: "uuid \<Rightarrow> (FinancePipelineRun \<Rightarrow> FinancePipelineRun) \<Rightarrow> db \<Rightarrow> db" where
  "write_run i f s = s\<lparr>pipeline_runs := update_row pr_id i f (pipeline_runs s)\<rparr>"

definition is_fresh_running_lock :: "pipeline_env \<Rightarrow> datetime \<Rightarrow> FinancePipelineRun \<Rightarrow> bool" where
  "is_fresh_running_lock env now run =
     (if pr_status run \<noteq> PRS_running then False
      else now - pr_started_at run < pe_lock_timeout_seconds env * 1000000)"

definition emit_risk_flag ::
    "datetime \<Rightarrow> uuid \<Rightarrow> PipelineRiskFlagType \<Rightarrow> PipelineRiskFlagSeverity \<Rightarrow> string \<Rightarrow> uuid option \<Rightarrow> risk_flag_payload
       \<Rightarrow> db \<Rightarrow> db \<times> bool" where
  "emit_risk_flag now run_id flag_type severity subject_entity_type subject_entity_id payload s =
     (case find (\<lambda>x. rk_run_id x = run_id \<and> rk_flag_type x = flag_type \<and> rk_subject_entity_id x = subject_entity_id) (risk_flags s) of
        Some existing \<Rightarrow> (s, False)
      | None \<Rightarrow> (s\<lparr>risk_flags := risk_flags s @ [\<lparr>rk_id = next_uuid s, rk_run_id = run_id, rk_flag_type = flag_type,
            rk_severity = severity, rk_subject_entity_type = subject_entity_type, rk_subject_entity_id = subject_entity_id,
            rk_payload = payload, rk_created_at = now\<rparr>], next_uuid := Suc (next_uuid s)\<rparr>, True))"

definition pipeline_audit_event ::
    "FinancePipelineRun \<Rightarrow> string \<Rightarrow> string \<Rightarrow> uuid \<Rightarrow> PipelineTriggerSource \<Rightarrow> string \<Rightarrow> FinancePipelineStep option
       \<Rightarrow> string option \<Rightarrow> nat option \<Rightarrow> string option \<Rightarrow> nat option \<Rightarrow> db \<Rightarrow> db" where
  "pipeline_audit_event run event_type entity_type entity_id trigger_source actor step previous_status records_processed
       error_message flags_count s =
     record_worker_event entity_type entity_id event_type actor ''finance_pipeline_service''
       [(''run_id'', Some (AId (pr_id run))), (''run_date'', Some (AStr (isoformat (pr_run_date run)))),
        (''inputs_hash'', Some (AStr (pr_inputs_hash run))), (''actor'', Some (AStr actor)),
        (''trigger_source'', Some (AStr (trigger_source_value trigger_source))),
        (''step_name'', map_option (AStr \<circ> fs_step_name) step), (''step_number'', map_option (ANat \<circ> fs_step_number) step),
        (''records_processed'', map_option ANat records_processed), (''error_message'', map_option AStr error_message),
        (''previous_status'', map_option AStr previous_status), (''flags_count'', map_option ANat flags_count)] s"

section \<open>The six steps\<close>

text \<open>A loop whose body counts and may raise; what was written before the exception stays.\<close>

fun count_loop :: "('a \<Rightarrow> db \<Rightarrow> db \<times> nat result) \<Rightarrow> 'a list \<Rightarrow> db \<Rightarrow> db \<times> nat result" where
  "count_loop f [] s = (s, Inr 0)"
| "count_loop f (x # xs) s =
     (case f x s of
        (s', Inl e) \<Rightarrow> (s', Inl e)
      | (s', Inr n) \<Rightarrow> (let (s'', r) = count_loop f xs s' in (s'', and_then r (\<lambda>m. Inr (n + m)))))"

definition active_contracts :: "db \<Rightarrow> HedgeContract list" where
  "active_contracts s = sort_key (\<lambda>c. (hc_created_at c, hc_id c))
     (filter (\<lambda>c. hc_status c = HS_active \<and> hc_deleted_at c = None) (contracts s))"

definition step_market_snapshot :: "db \<Rightarrow> date \<Rightarrow> db \<times> nat result" where
  "step_market_snapshot s run_date =
     (s, Inr (length (filter (\<lambda>p. csp_settlement_date p \<le> run_date) (prices s))))"

text \<open>The exception handler both valuation loops have: a missing price is flagged and not counted.\<close>

definition flag_missing_price ::
    "pipeline_env \<Rightarrow> datetime \<Rightarrow> FinancePipelineRun \<Rightarrow> HedgeContract \<Rightarrow> py_error \<Rightarrow> db \<Rightarrow> db \<times> nat result" where
  "flag_missing_price env now run contract e s =
     (case e of
        PriceProvenanceMissing detail \<Rightarrow>
          (fst (emit_risk_flag now (pr_id run) RF_missing_mtm_price SEV_warning ''hedge_contract'' (Some (hc_id contract))
             (Flag_reason (take 500 (pe_show_detail env detail))) s), Inr 0)
      | _ \<Rightarrow> (s, Inl e))"

definition step_mtm_computation :: "pipeline_env \<Rightarrow> db \<Rightarrow> datetime \<Rightarrow> date \<Rightarrow> FinancePipelineRun \<Rightarrow> db \<times> nat result" where
  "step_mtm_computation env s now run_date run =
     count_loop (\<lambda>contract s.
       case compute_mtm_for_contract s (hc_id contract) run_date of
         Inr _ \<Rightarrow> (s, Inr 1)
       | Inl e \<Rightarrow> flag_missing_price env now run contract e s) (active_contracts s) s"

definition step_pl_snapshot :: "pipeline_env \<Rightarrow> db \<Rightarrow> datetime \<Rightarrow> date \<Rightarrow> FinancePipelineRun \<Rightarrow> db \<times> nat result" where
  "step_pl_snapshot env s now run_date run =
     count_loop (\<lambda>contract s.
       case create_pl_snapshot (pe_fingerprint env) (pe_col env) s now ''hedge_contract'' (hc_id contract) run_date run_date of
         Inr (s', _) \<Rightarrow> (s', Inr 1)
       | Inl e \<Rightarrow> flag_missing_price env now run contract e s) (active_contracts s) s"

definition step_cashflow_baseline :: "pipeline_env \<Rightarrow> db \<Rightarrow> datetime \<Rightarrow> date \<Rightarrow> FinancePipelineRun \<Rightarrow> db \<times> nat result" where
  "step_cashflow_baseline env s now run_date run =
     (case create_cashflow_baseline_snapshot (pe_fingerprint env) (pe_col env) s now run_date (Msg ''{}'' [AId (pr_id run)]) of
        Inr (s', _) \<Rightarrow> (s', Inr 1)
      | Inl (PriceProvenanceMissing _) \<Rightarrow> (s, Inr 0)
      | Inl e \<Rightarrow> (s, Inl e))"

text \<open>The four queries of the risk step. The first raises what the symbol of a commodity raises.\<close>

definition query_missing_mtm_prices :: "db \<Rightarrow> date \<Rightarrow> (HedgeContract \<times> py_error) list result" where
  "query_missing_mtm_prices s run_date =
     fold_result (\<lambda>contract missing.
       case and_then (resolve_symbol (hc_commodity contract)) (\<lambda>symbol. get_cash_settlement_price_d1_with_provenance s symbol run_date) of
         Inr _ \<Rightarrow> Inr missing
       | Inl (PriceReferenceUnprovable m) \<Rightarrow> Inr (missing @ [(contract, PriceReferenceUnprovable m)])
       | Inl e \<Rightarrow> Inl e) (active_contracts s) []"

definition query_unhedged_exposures_over_guardrail :: "pipeline_env \<Rightarrow> db \<Rightarrow> Exposure list" where
  "query_unhedged_exposures_over_guardrail env s =
     (if pe_guardrail_tonnes env \<le> 0 then []
      else sort_key (\<lambda>e. (exp_created_at e, exp_id e))
        (filter (\<lambda>e. \<not> exp_is_deleted e \<and> exp_status e \<noteq> ES_fully_hedged \<and> pe_guardrail_tonnes env < exp_open_tons e) (exposures s)))"

definition query_kyc_regressions_with_active_deals :: "db \<Rightarrow> Counterparty list" where
  "query_kyc_regressions_with_active_deals s =
     (let active_counterparty_ids = List.map_filter (\<lambda>c. Option.bind (hc_counterparty_id c) parse_uuid) (active_contracts s)
      in sort_key (\<lambda>c. (cp_created_at c, cp_id c))
        (filter (\<lambda>c. cp_id c \<in> set active_counterparty_ids \<and> cp_kyc_status c \<noteq> KYC_approved \<and> \<not> cp_is_deleted c) (counterparties s)))"

definition query_pending_workflow_approvals_past_expiry :: "db \<Rightarrow> datetime \<Rightarrow> WorkflowApprovalRequest list" where
  "query_pending_workflow_approvals_past_expiry s now =
     sort_key (\<lambda>a. (wa_expires_at a, wa_id a)) (filter (\<lambda>a. wa_status a = AS_pending \<and> wa_expires_at a < now) (approvals s))"

definition count_flag :: "db \<times> bool \<Rightarrow> db \<times> nat result" where
  "count_flag r = (fst r, Inr (if snd r then 1 else 0))"

definition step_risk_flags :: "pipeline_env \<Rightarrow> db \<Rightarrow> datetime \<Rightarrow> date \<Rightarrow> FinancePipelineRun \<Rightarrow> db \<times> nat result" where
  "step_risk_flags env s now run_date run =
     (case query_missing_mtm_prices s run_date of
        Inl e \<Rightarrow> (s, Inl e)
      | Inr missing \<Rightarrow>
          count_loop (\<lambda>write s. count_flag (write s))
            (map (\<lambda>(contract, reason). emit_risk_flag now (pr_id run) RF_missing_mtm_price SEV_warning ''hedge_contract''
                 (Some (hc_id contract)) (Flag_reason (take 500 (pe_show_error env reason)))) missing
             @ map (\<lambda>exposure. emit_risk_flag now (pr_id run) RF_unhedged_exposure_over_guardrail SEV_warning ''exposure''
                 (Some (exp_id exposure)) (Flag_exposure (exp_commodity exposure) (exp_open_tons exposure) (pe_guardrail_tonnes env)))
                 (query_unhedged_exposures_over_guardrail env s)
             @ map (\<lambda>counterparty. emit_risk_flag now (pr_id run) RF_kyc_regression_with_active_deals SEV_critical ''counterparty''
                 (Some (cp_id counterparty)) (Flag_kyc (cp_kyc_status counterparty))) (query_kyc_regressions_with_active_deals s)
             @ map (\<lambda>approval. emit_risk_flag now (pr_id run) RF_workflow_approval_pending_past_expiry SEV_warning
                 ''workflow_approval_request'' (Some (wa_id approval)) (Flag_approval (wa_mutation_type approval) (wa_expires_at approval)))
                 (query_pending_workflow_approvals_past_expiry s now)) s)"

definition step_summary :: "db \<Rightarrow> FinancePipelineRun \<Rightarrow> db \<times> nat result" where
  "step_summary s run =
     (s, Inr (sum_list (map fs_records_processed (filter (\<lambda>x. fs_status x = PSS_completed) (steps_of_run s (pr_id run))))))"

definition execute_step :: "pipeline_env \<Rightarrow> db \<Rightarrow> datetime \<Rightarrow> string \<Rightarrow> date \<Rightarrow> FinancePipelineRun \<Rightarrow> db \<times> nat result" where
  "execute_step env s now step_name run_date run =
     (if step_name = ''market_snapshot'' then step_market_snapshot s run_date
      else if step_name = ''mtm_computation'' then step_mtm_computation env s now run_date run
      else if step_name = ''pl_snapshot'' then step_pl_snapshot env s now run_date run
      else if step_name = ''cashflow_baseline'' then step_cashflow_baseline env s now run_date run
      else if step_name = ''risk_flags'' then step_risk_flags env s now run_date run
      else if step_name = ''summary'' then step_summary s run
      else (s, Inl (ValueError (Msg ''Unknown step: {}'' [AStr step_name]))))"

section \<open>The run\<close>

text \<open>One turn of the loop; the flag says whether the step failed, which ends the loop.\<close>

definition start_step ::
    "datetime \<Rightarrow> FinancePipelineRun \<Rightarrow> PipelineTriggerSource \<Rightarrow> string \<Rightarrow> FinancePipelineStep \<Rightarrow> db \<Rightarrow> db" where
  "start_step now run trigger_source actor step s =
     pipeline_audit_event run ''finance_pipeline_step_started'' ''finance_pipeline_step'' (fs_id step) trigger_source actor (Some step)
       (Some (step_status_value (fs_status step))) None None None
       (write_step (fs_id step) (\<lambda>x. x\<lparr>fs_status := PSS_running, fs_error_message := None, fs_started_at := Some now,
          fs_finished_at := None\<rparr>) s)"

definition complete_step ::
    "datetime \<Rightarrow> FinancePipelineRun \<Rightarrow> PipelineTriggerSource \<Rightarrow> string \<Rightarrow> FinancePipelineStep \<Rightarrow> nat \<Rightarrow> db \<Rightarrow> db" where
  "complete_step now run trigger_source actor step records s =
     (let s1 = write_step (fs_id step) (\<lambda>x. x\<lparr>fs_status := PSS_completed, fs_records_processed := records, fs_finished_at := Some now\<rparr>) s;
          done = length (filter (\<lambda>x. fs_status x = PSS_completed) (steps_of_run s1 (pr_id run)))
      in pipeline_audit_event run ''finance_pipeline_step_completed'' ''finance_pipeline_step'' (fs_id step) trigger_source actor
           (Some step) (Some ''running'') (Some records) None (if fs_step_name step = ''risk_flags'' then Some records else None)
           (write_run (pr_id run) (\<lambda>r. r\<lparr>pr_steps_completed := done\<rparr>) s1))"

definition fail_step ::
    "pipeline_env \<Rightarrow> datetime \<Rightarrow> FinancePipelineRun \<Rightarrow> PipelineTriggerSource \<Rightarrow> string \<Rightarrow> FinancePipelineStep \<Rightarrow> py_error \<Rightarrow> db \<Rightarrow> db" where
  "fail_step env now run trigger_source actor step e s =
     (let error = pe_show_error env e;
          run_error = ''Step '' @ fs_step_name step @ '' failed: '' @ take 200 error
      in pipeline_audit_event run ''finance_pipeline_run_failed_partial'' ''finance_pipeline_run'' (pr_id run) trigger_source actor None
           (Some ''running'') None (Some run_error) None
         (pipeline_audit_event run ''finance_pipeline_step_failed'' ''finance_pipeline_step'' (fs_id step) trigger_source actor (Some step)
           (Some ''running'') None (Some (take 500 error)) None
         (write_run (pr_id run) (\<lambda>r. r\<lparr>pr_status := PRS_partial, pr_error_message := Some run_error\<rparr>)
         (write_step (fs_id step) (\<lambda>x. x\<lparr>fs_status := PSS_failed, fs_error_message := Some (take 500 error), fs_finished_at := Some now\<rparr>) s))))"

fun run_steps ::
    "pipeline_env \<Rightarrow> datetime \<Rightarrow> FinancePipelineRun \<Rightarrow> PipelineTriggerSource \<Rightarrow> string \<Rightarrow> FinancePipelineStep list \<Rightarrow> db \<Rightarrow> db \<times> bool" where
  "run_steps env now run trigger_source actor [] s = (s, False)"
| "run_steps env now run trigger_source actor (step # steps) s =
     (if fs_status step = PSS_completed then run_steps env now run trigger_source actor steps s
      else case execute_step env (start_step now run trigger_source actor step s) now (fs_step_name step) (pr_run_date run) run of
        (s', Inr records) \<Rightarrow> run_steps env now run trigger_source actor steps (complete_step now run trigger_source actor step records s')
      | (s', Inl e) \<Rightarrow> (fail_step env now run trigger_source actor step e s', True))"

definition finish_run ::
    "datetime \<Rightarrow> FinancePipelineRun \<Rightarrow> PipelineTriggerSource \<Rightarrow> string \<Rightarrow> db \<Rightarrow> db" where
  "finish_run now run trigger_source actor s =
     pipeline_audit_event run ''finance_pipeline_run_completed'' ''finance_pipeline_run'' (pr_id run) trigger_source actor None
       (Some ''running'') None None None
       (write_run (pr_id run) (\<lambda>r. r\<lparr>pr_status := PRS_completed, pr_finished_at := Some now,
          pr_steps_completed := length PIPELINE_STEPS\<rparr>) s)"

text \<open>Taking the row of the day: a stored run that did not complete is resumed, otherwise a run and its
  six steps are added.\<close>

definition resume_run :: "datetime \<Rightarrow> FinancePipelineRun \<Rightarrow> PipelineTriggerSource \<Rightarrow> string \<Rightarrow> db \<Rightarrow> db" where
  "resume_run now run trigger_source actor s =
     pipeline_audit_event run ''finance_pipeline_run_started'' ''finance_pipeline_run'' (pr_id run) trigger_source actor None
       (Some (run_status_value (pr_status run))) None None None
       (write_run (pr_id run) (\<lambda>r. r\<lparr>pr_status := PRS_running, pr_started_at := now, pr_finished_at := None,
          pr_error_message := None\<rparr>) s)"

definition new_run :: "pipeline_env \<Rightarrow> db \<Rightarrow> datetime \<Rightarrow> date \<Rightarrow> PipelineTriggerSource \<Rightarrow> FinancePipelineRun" where
  "new_run env s now run_date trigger_source =
     \<lparr>pr_id = next_uuid s, pr_run_date = run_date, pr_status = PRS_running, pr_started_at = now, pr_finished_at = None,
      pr_steps_completed = 0, pr_steps_total = 6, pr_error_message = None,
      pr_inputs_hash = fp_sha256 (pe_fingerprint env) (isoformat run_date), pr_triggered_by = trigger_source, pr_created_at = now\<rparr>"

definition new_step :: "uuid \<Rightarrow> uuid \<Rightarrow> nat \<Rightarrow> FinancePipelineStep" where
  "new_step run_id i n = \<lparr>fs_id = i, fs_run_id = run_id, fs_step_number = Suc n, fs_step_name = PIPELINE_STEPS ! n,
     fs_status = PSS_pending, fs_started_at = None, fs_finished_at = None, fs_records_processed = 0, fs_error_message = None\<rparr>"

definition add_run :: "FinancePipelineRun \<Rightarrow> PipelineTriggerSource \<Rightarrow> string \<Rightarrow> db \<Rightarrow> db" where
  "add_run run trigger_source actor s =
     (let s1 = pipeline_audit_event run ''finance_pipeline_run_started'' ''finance_pipeline_run'' (pr_id run) trigger_source actor None
            None None None None (s\<lparr>pipeline_runs := pipeline_runs s @ [run], next_uuid := Suc (next_uuid s)\<rparr>);
          n = length PIPELINE_STEPS
      in s1\<lparr>pipeline_steps := pipeline_steps s1 @ map (\<lambda>i. new_step (pr_id run) (next_uuid s1 + i) i) [0..<n],
           next_uuid := next_uuid s1 + n\<rparr>)"

definition drive_run :: "pipeline_env \<Rightarrow> datetime \<Rightarrow> FinancePipelineRun \<Rightarrow> PipelineTriggerSource \<Rightarrow> string \<Rightarrow> db \<Rightarrow> db" where
  "drive_run env now run trigger_source actor s =
     (case run_steps env now run trigger_source actor (steps_of_run s (pr_id run)) s of
        (s', True) \<Rightarrow> s'
      | (s', False) \<Rightarrow> finish_run now run trigger_source actor s')"

datatype pipeline_outcome = Run_returned uuid | HolidaySkipSignal detail | RunAlreadyInProgressSignal detail

text \<open>\<open>raced\<close> is the row another session committed for the day after this one looked for it, if any:
  the insertion then violates the unique constraint on the day and the session is rolled back.\<close>

definition run_daily_pipeline ::
    "pipeline_env \<Rightarrow> db \<Rightarrow> datetime \<Rightarrow> date \<Rightarrow> PipelineTriggerSource \<Rightarrow> string \<Rightarrow> FinancePipelineRun option
       \<Rightarrow> db \<times> pipeline_outcome" where
  "run_daily_pipeline env s now run_date trigger_source actor raced =
     (let in_progress = RunAlreadyInProgressSignal (Msg ''finance pipeline run already in progress for {}'' [AStr (isoformat run_date)])
      in if \<not> is_business_day lme_calendar run_date then
           (s, HolidaySkipSignal (Msg ''run_date {} is not an LME trading day'' [AStr (isoformat run_date)]))
         else case find (\<lambda>r. pr_run_date r = run_date) (pipeline_runs s) of
           Some existing \<Rightarrow>
             if pr_status existing = PRS_completed then (s, Run_returned (pr_id existing))
             else if is_fresh_running_lock env now existing then (s, in_progress)
             else (drive_run env now existing trigger_source actor (resume_run now existing trigger_source actor s),
                   Run_returned (pr_id existing))
         | None \<Rightarrow>
             (case raced of
                Some other \<Rightarrow> (s, if pr_status other = PRS_completed then Run_returned (pr_id other) else in_progress)
              | None \<Rightarrow>
                  let run = new_run env s now run_date trigger_source
                  in (drive_run env now run trigger_source actor (add_run run trigger_source actor s), Run_returned (pr_id run))))"

text \<open>\<open>POST /finance/pipeline/run\<close>: the two signals are conflicts.\<close>

definition trigger_pipeline ::
    "pipeline_env \<Rightarrow> db \<Rightarrow> datetime \<Rightarrow> date \<Rightarrow> string \<Rightarrow> FinancePipelineRun option \<Rightarrow> (db \<times> uuid) result" where
  "trigger_pipeline env s now run_date actor_sub raced =
     (case run_daily_pipeline env s now run_date PTS_manual actor_sub raced of
        (s', Run_returned i) \<Rightarrow> Inr (s', i)
      | (_, HolidaySkipSignal m) \<Rightarrow> Inl (HTTPException HTTP_409 m)
      | (_, RunAlreadyInProgressSignal m) \<Rightarrow> Inl (HTTPException HTTP_409 m))"

text \<open>The scheduled task, which only logs the signals.\<close>

definition run_finance_pipeline_daily :: "pipeline_env \<Rightarrow> db \<Rightarrow> datetime \<Rightarrow> date \<Rightarrow> FinancePipelineRun option \<Rightarrow> db" where
  "run_finance_pipeline_daily env s now today raced =
     fst (run_daily_pipeline env s now today PTS_scheduler ''service:cashflow_pipeline'' raced)"

definition list_runs :: "db \<Rightarrow> nat \<Rightarrow> FinancePipelineRun list" where
  "list_runs s limit = take limit (sort_key (\<lambda>r. - pr_created_at r) (pipeline_runs s))"

definition get_run :: "db \<Rightarrow> uuid \<Rightarrow> FinancePipelineRun option" where
  "get_run s run_id = get_row pr_id run_id (pipeline_runs s)"

definition get_run_detail :: "db \<Rightarrow> uuid \<Rightarrow> FinancePipelineRun result" where
  "get_run_detail s run_id = require (get_run s run_id) (http HTTP_404 ''Pipeline run not found'')"

end
