(* ===== verification/Pipeline_Runs.thy ===== *)
theory Pipeline_Runs
  imports Finance_Pipeline
begin

text \<open>
  Properties of the daily run of Finance_Pipeline. A handler stays in its frame: it adds snapshots
  and flags and touches no row of the pipeline. From it follows what the loop does to the rows of a
  run, and from that the shape every stored run has: completed steps, then at most one failed
  step, then steps that never ran.
\<close>

section \<open>The frame of a handler\<close>

definition step_frame :: "db \<Rightarrow> db \<Rightarrow> bool" where
  "step_frame s s' \<longleftrightarrow> pipeline_runs s' = pipeline_runs s \<and> pipeline_steps s' = pipeline_steps s
     \<and> audit_events s' = audit_events s \<and> contracts s' = contracts s \<and> set (risk_flags s) \<subseteq> set (risk_flags s')
     \<and> set (pl_snapshots s) \<subseteq> set (pl_snapshots s') \<and> next_uuid s \<le> next_uuid s'"

lemma step_frame_refl [simp]: "step_frame s s"
  by (simp add: step_frame_def)

lemma step_frame_trans: "step_frame s t \<Longrightarrow> step_frame t u \<Longrightarrow> step_frame s u"
  by (auto simp: step_frame_def)

lemma emit_risk_flag_frame: "step_frame s (fst (emit_risk_flag now r t v et ei p s))"
  by (auto simp: step_frame_def emit_risk_flag_def split: option.split)

lemma flag_missing_price_frame: "step_frame s (fst (flag_missing_price env now run c e s))"
  by (cases e) (simp_all add: flag_missing_price_def emit_risk_flag_frame)

lemma count_loop_frame:
  assumes "\<And>x s. x \<in> set xs \<Longrightarrow> step_frame s (fst (f x s))"
  shows "step_frame s (fst (count_loop f xs s))"
  using assms
proof (induction xs arbitrary: s)
  case (Cons x xs)
  have x: "step_frame s (fst (f x s))" using Cons.prems by simp
  have xs: "step_frame t (fst (count_loop f xs t))" for t using Cons by simp
  show ?case
    using x step_frame_trans[OF x xs] by (simp split: prod.split sum.split) (metis fst_conv)
qed simp

lemma create_pl_snapshot_frame:
  "create_pl_snapshot k col s now t i a b = Inr (s', x) \<Longrightarrow> step_frame s s' \<and> x \<in> set (pl_snapshots s')"
  by (auto simp: create_pl_snapshot_def Let_def step_frame_def dest: find_pl_snapshot_Some split: option.splits if_splits)

lemma create_baseline_frame:
  "create_cashflow_baseline_snapshot k col s now d c = Inr (s', x) \<Longrightarrow> step_frame s s'"
  by (auto simp: create_cashflow_baseline_snapshot_def Let_def step_frame_def split: option.splits)

lemma execute_step_frame: "step_frame s (fst (execute_step env s now n d run))"
proof -
  have "step_frame s (fst (step_mtm_computation env s now d run))"
    unfolding step_mtm_computation_def by (rule count_loop_frame) (simp add: flag_missing_price_frame split: sum.split)
  moreover have "step_frame s (fst (step_pl_snapshot env s now d run))"
    unfolding step_pl_snapshot_def
    by (rule count_loop_frame) (auto simp: flag_missing_price_frame dest: create_pl_snapshot_frame split: sum.split)
  moreover have "step_frame s (fst (step_cashflow_baseline env s now d run))"
    by (auto simp: step_cashflow_baseline_def dest: create_baseline_frame split: sum.split py_error.split)
  moreover have "step_frame s (fst (step_risk_flags env s now d run))"
  proof (cases "query_missing_mtm_prices s d")
    case (Inr missing)
    then show ?thesis
      unfolding step_risk_flags_def by simp (rule count_loop_frame, auto simp: count_flag_def emit_risk_flag_frame)
  qed (simp add: step_risk_flags_def)
  ultimately show ?thesis
    by (simp add: execute_step_def step_market_snapshot_def step_summary_def)
qed

section \<open>The rows the loop writes\<close>

lemma pipeline_audit_event_frame [simp]:
  "contracts (pipeline_audit_event r et ent i tr a st ps n e f s) = contracts s"
  "pl_snapshots (pipeline_audit_event r et ent i tr a st ps n e f s) = pl_snapshots s"
  "risk_flags (pipeline_audit_event r et ent i tr a st ps n e f s) = risk_flags s"
  "pipeline_runs (pipeline_audit_event r et ent i tr a st ps n e f s) = pipeline_runs s"
  "pipeline_steps (pipeline_audit_event r et ent i tr a st ps n e f s) = pipeline_steps s"
  "next_uuid (pipeline_audit_event r et ent i tr a st ps n e f s) = Suc (next_uuid s)"
  by (simp_all add: pipeline_audit_event_def record_worker_event_def)

lemma write_frame [simp]:
  "pipeline_steps (write_step i f s) = update_row fs_id i f (pipeline_steps s)" "pipeline_runs (write_step i f s) = pipeline_runs s"
  "pipeline_runs (write_run i g s) = update_row pr_id i g (pipeline_runs s)" "pipeline_steps (write_run i g s) = pipeline_steps s"
  "contracts (write_step i f s) = contracts s" "contracts (write_run i g s) = contracts s"
  "pl_snapshots (write_step i f s) = pl_snapshots s" "pl_snapshots (write_run i g s) = pl_snapshots s"
  "risk_flags (write_step i f s) = risk_flags s" "risk_flags (write_run i g s) = risk_flags s"
  "audit_events (write_step i f s) = audit_events s" "audit_events (write_run i g s) = audit_events s"
  "next_uuid (write_step i f s) = next_uuid s" "next_uuid (write_run i g s) = next_uuid s"
  by (simp_all add: write_step_def write_run_def)

text \<open>How often a step was reported as completed.\<close>

definition completions :: "db \<Rightarrow> uuid \<Rightarrow> nat" where
  "completions s i = length (filter (\<lambda>e. ae_event_type e = ''finance_pipeline_step_completed'' \<and> ae_entity_id e = i) (audit_events s))"

lemma completions_emit [simp]:
  "completions (pipeline_audit_event r et ent j tr a st ps n e f s) i =
     completions s i + (if et = ''finance_pipeline_step_completed'' \<and> j = i then 1 else 0)"
  by (simp add: completions_def pipeline_audit_event_def record_worker_event_def record_audit_def)

lemma completions_write [simp]: "completions (write_step j g s) i = completions s i" "completions (write_run j h s) i = completions s i"
  by (simp_all add: completions_def)

text \<open>What no operation of a run changes: the static columns of the steps, the days of the runs, and
  every run but its own.\<close>

definition static :: "FinancePipelineStep \<Rightarrow> uuid \<times> uuid \<times> nat \<times> string" where
  "static x = (fs_id x, fs_run_id x, fs_step_number x, fs_step_name x)"

definition loop_frame :: "uuid \<Rightarrow> db \<Rightarrow> db \<Rightarrow> bool" where
  "loop_frame rid s s' \<longleftrightarrow> map static (pipeline_steps s') = map static (pipeline_steps s)
     \<and> map (\<lambda>r. (pr_id r, pr_run_date r)) (pipeline_runs s') = map (\<lambda>r. (pr_id r, pr_run_date r)) (pipeline_runs s)
     \<and> (\<forall>j. j \<noteq> rid \<longrightarrow> get_row pr_id j (pipeline_runs s') = get_row pr_id j (pipeline_runs s))
     \<and> contracts s' = contracts s \<and> set (risk_flags s) \<subseteq> set (risk_flags s') \<and> set (pl_snapshots s) \<subseteq> set (pl_snapshots s')
     \<and> next_uuid s \<le> next_uuid s'"

lemma loop_frame_refl [simp]: "loop_frame rid s s"
  by (simp add: loop_frame_def)

lemma loop_frame_trans: "loop_frame rid s t \<Longrightarrow> loop_frame rid t u \<Longrightarrow> loop_frame rid s u"
  by (auto simp: loop_frame_def)

lemma step_frame_loop: "step_frame s t \<Longrightarrow> loop_frame rid s t"
  by (simp add: step_frame_def loop_frame_def)

lemma map_update_row_same: "(\<And>r. h (f r) = h r) \<Longrightarrow> map h (update_row key k f rows) = map h rows"
  by (induction rows) auto

lemma loop_frame_parts [simp]:
  "loop_frame (pr_id run) s (start_step now run tr a x s)" "loop_frame (pr_id run) s (complete_step now run tr a x n s)"
  "loop_frame (pr_id run) s (fail_step env now run tr a x e s)" "loop_frame (pr_id run) s (finish_run now run tr a s)"
  "loop_frame (pr_id run) s (resume_run now run tr a s)"
  by (simp_all add: loop_frame_def start_step_def complete_step_def fail_step_def finish_run_def resume_run_def Let_def
      map_update_row_same static_def table_simps)

lemma loop_frame_execute: "execute_step env s now n d run = (s', r) \<Longrightarrow> loop_frame rid s s'"
  using execute_step_frame[of s env now n d run] by (simp add: step_frame_loop)

lemma run_steps_frame: "loop_frame (pr_id run) s (fst (run_steps env now run tr a steps s))"
proof (induction steps arbitrary: s)
  case (Cons x xs)
  show ?case
  proof (cases "fs_status x = PSS_completed")
    case False
    obtain s1 r where e: "execute_step env (start_step now run tr a x s) now (fs_step_name x) (pr_run_date run) run = (s1, r)" by force
    have "loop_frame (pr_id run) s s1" using loop_frame_trans loop_frame_parts(1) loop_frame_execute[OF e] by blast
    then show ?thesis
      using False e Cons loop_frame_trans loop_frame_parts(2,3)
      by (simp split: sum.split) (metis loop_frame_trans loop_frame_parts(2,3))
  qed (use Cons in simp)
qed simp

section \<open>What the loop does to the steps\<close>

definition step_status :: "db \<Rightarrow> uuid \<Rightarrow> PipelineStepStatus option" where
  "step_status s i = map_option fs_status (get_row fs_id i (pipeline_steps s))"

lemma step_status_write [simp]:
  assumes "\<And>x. fs_id (f x) = fs_id x"
  shows "step_status (write_step j f s) i =
    (if i = j then map_option (fs_status \<circ> f) (get_row fs_id i (pipeline_steps s)) else step_status s i)"
  by (simp add: step_status_def table_simps assms option.map_comp)

lemma step_status_other [simp]:
  "step_status (write_run j g s) i = step_status s i" "step_status (pipeline_audit_event r et ent j tr a st ps n e f s) i = step_status s i"
  by (simp_all add: step_status_def)

lemma step_frame_status: "step_frame s t \<Longrightarrow> step_status t i = step_status s i \<and> completions t i = completions s i"
  by (simp add: step_frame_def step_status_def completions_def)

text \<open>The outcome of the loop: the steps up to the first failure are completed, that one is failed,
  the others are as before; each completion is reported once.\<close>

definition ran :: "FinancePipelineStep list \<Rightarrow> FinancePipelineStep list \<Rightarrow> db \<Rightarrow> db \<Rightarrow> bool" where
  "ran done rest s s' \<longleftrightarrow> (rest \<noteq> [] \<longrightarrow> fs_status (hd rest) \<noteq> PSS_completed)
     \<and> (\<forall>i. step_status s' i = (if i \<in> fs_id ` set done then Some PSS_completed
          else if rest \<noteq> [] \<and> i = fs_id (hd rest) then Some PSS_failed else step_status s i))
     \<and> (\<forall>i. completions s' i = completions s i + (if \<exists>x \<in> set done. fs_id x = i \<and> fs_status x \<noteq> PSS_completed then 1 else 0))"

lemma run_steps_ran:
  assumes "run_steps env now run tr a steps s = (s', failed)" and "distinct (map fs_id steps)"
    and "\<forall>x \<in> set steps. step_status s (fs_id x) = Some (fs_status x)"
  shows "\<exists>done rest. steps = done @ rest \<and> (failed \<longleftrightarrow> rest \<noteq> []) \<and> ran done rest s s'"
  using assms
proof (induction steps arbitrary: s)
  case Nil
  then show ?case by (simp add: ran_def)
next
  case (Cons x xs)
  show ?case
  proof (cases "fs_status x = PSS_completed")
    case True
    have "run_steps env now run tr a xs s = (s', failed)" using Cons.prems(1) True by simp
    with Cons.IH[of s] obtain finished rest where h: "xs = finished @ rest" "failed \<longleftrightarrow> rest \<noteq> []" "ran finished rest s s'"
      using Cons.prems(2,3) by auto
    have x: "step_status s (fs_id x) = Some PSS_completed" using Cons.prems(3) True by simp
    have "ran (x # finished) rest s s'" using h(3) True Cons.prems(2) x unfolding h(1) ran_def by auto
    then show ?thesis using h by (intro exI[of _ "x # finished"] exI[of _ rest]) simp
  next
    case False
    let ?s = "start_step now run tr a x s"
    obtain s1 r where e: "execute_step env ?s now (fs_step_name x) (pr_run_date run) run = (s1, r)" by force
    have f: "step_frame ?s s1" using execute_step_frame[of ?s env now "fs_step_name x" "pr_run_date run" run] e by simp
    obtain y where y: "get_row fs_id (fs_id x) (pipeline_steps s) = Some y" using Cons.prems(3) by (auto simp: step_status_def)
    then have y1: "\<exists>z. get_row fs_id (fs_id x) (pipeline_steps s1) = Some z"
      using f by (simp add: step_frame_def start_step_def table_simps)
    have s1: "step_status s1 i = (if i = fs_id x then Some PSS_running else step_status s i)" "completions s1 i = completions s i" for i
      using step_frame_status[OF f, of i] y by (simp_all add: start_step_def)
    show ?thesis
    proof (cases r)
      case (Inl err)
      then have s': "s' = fail_step env now run tr a x err s1" "failed" using Cons.prems(1) False e by simp_all
      have "ran [] (x # xs) s s'" using s1 y1 False unfolding s'(1) by (auto simp: ran_def fail_step_def Let_def)
      then show ?thesis using s'(2) by force
    next
      case (Inr n)
      let ?t = "complete_step now run tr a x n s1"
      have t: "step_status ?t i = (if i = fs_id x then Some PSS_completed else step_status s i)"
        "completions ?t i = completions s i + (if i = fs_id x then 1 else 0)" for i
        using s1 y1 by (auto simp: complete_step_def Let_def)
      have others: "fs_id y \<noteq> fs_id x" if "y \<in> set xs" for y using Cons.prems(2) that by auto (metis image_eqI)
      have "run_steps env now run tr a xs ?t = (s', failed)" using Cons.prems(1) False e Inr by simp
      moreover have "\<forall>y \<in> set xs. step_status ?t (fs_id y) = Some (fs_status y)" using Cons.prems(3) others t(1) by simp
      ultimately obtain finished rest where h: "xs = finished @ rest" "failed \<longleftrightarrow> rest \<noteq> []" "ran finished rest ?t s'"
        using Cons.IH[of ?t] Cons.prems(2) by auto
      have "ran (x # finished) rest s s'" using h(3) False others t unfolding h(1) ran_def by auto
      then show ?thesis using h by (intro exI[of _ "x # finished"] exI[of _ rest]) simp
    qed
  qed
qed

section \<open>The row of the run\<close>

definition completed_steps :: "db \<Rightarrow> uuid \<Rightarrow> nat" where
  "completed_steps s rid = length (filter (\<lambda>x. fs_status x = PSS_completed) (steps_of_run s rid))"

lemma completed_steps_table:
  "completed_steps s rid = length (filter (\<lambda>x. fs_run_id x = rid \<and> fs_status x = PSS_completed) (pipeline_steps s))"
  by (simp add: completed_steps_def steps_of_run_def filter_sort conj_commute)

text \<open>The counter column is exact.\<close>

definition counted :: "db \<Rightarrow> uuid \<Rightarrow> bool" where
  "counted s rid \<longleftrightarrow> map_option pr_steps_completed (get_row pr_id rid (pipeline_runs s)) = Some (completed_steps s rid)"

definition run_status :: "db \<Rightarrow> uuid \<Rightarrow> PipelineRunStatus option" where
  "run_status s rid = map_option pr_status (get_row pr_id rid (pipeline_runs s))"

lemma filter_update_row_none:
  assumes "keyed key rows" and "get_row key i rows = Some y" and "\<not> P y" and "\<not> P (f y)"
  shows "filter P (update_row key i f rows) = filter P rows"
  using assms
proof (induction rows)
  case (Cons r rows)
  show ?case
  proof (cases "key r = i")
    case True
    then have "i \<notin> key ` set rows" using Cons.prems(1) by (auto simp: keyed_def)
    then have "update_row key i f rows = rows" by (induction rows) auto
    then show ?thesis using True Cons.prems by simp
  next
    case False
    then show ?thesis using Cons by (simp add: keyed_def)
  qed
qed simp

lemma completed_steps_write:
  assumes "keyed fs_id (pipeline_steps s)" and "step_status s i = Some st" "st \<noteq> PSS_completed"
    and "\<And>x. fs_status (f x) \<noteq> PSS_completed"
  shows "completed_steps (write_step i f s) rid = completed_steps s rid"
proof -
  obtain y where "get_row fs_id i (pipeline_steps s) = Some y" "fs_status y = st" using assms(2) by (auto simp: step_status_def)
  then show ?thesis using assms by (simp add: completed_steps_table filter_update_row_none)
qed

lemma completed_steps_other [simp]:
  "completed_steps (write_run j g s) rid = completed_steps s rid"
  "completed_steps (pipeline_audit_event r et ent j tr a st ps n e f s) rid = completed_steps s rid"
  by (simp_all add: completed_steps_table)

lemma loop_frame_keyed: "loop_frame rid s s' \<Longrightarrow> keyed fs_id (pipeline_steps s') = keyed fs_id (pipeline_steps s)"
proof -
  assume "loop_frame rid s s'"
  then have "map fst (map static (pipeline_steps s')) = map fst (map static (pipeline_steps s))" by (simp add: loop_frame_def)
  then show ?thesis by (simp add: keyed_def static_def comp_def)
qed

lemma run_steps_row:
  assumes "run_steps env now run tr a steps s = (s', failed)" and "distinct (map fs_id steps)"
    and "\<forall>x \<in> set steps. step_status s (fs_id x) = Some (fs_status x)"
    and "keyed fs_id (pipeline_steps s)" and "counted s (pr_id run)"
  shows "counted s' (pr_id run) \<and> run_status s' (pr_id run) = (if failed then Some PRS_partial else run_status s (pr_id run))"
  using assms
proof (induction steps arbitrary: s)
  case (Cons x xs)
  show ?case
  proof (cases "fs_status x = PSS_completed")
    case False
    let ?s = "start_step now run tr a x s"
    obtain s1 r where e: "execute_step env ?s now (fs_step_name x) (pr_run_date run) run = (s1, r)" by force
    have f: "step_frame ?s s1" using execute_step_frame[of ?s env now "fs_step_name x" "pr_run_date run" run] e by simp
    have st: "step_status s (fs_id x) = Some (fs_status x)" using Cons.prems(3) by simp
    obtain y where y: "get_row fs_id (fs_id x) (pipeline_steps s) = Some y" using st by (auto simp: step_status_def)
    have s1: "step_status s1 i = (if i = fs_id x then Some PSS_running else step_status s i)" for i
      using step_frame_status[OF f, of i] y by (simp add: start_step_def)
    have k1: "keyed fs_id (pipeline_steps s1)"
      using Cons.prems(4) loop_frame_keyed[OF loop_frame_trans[OF loop_frame_parts(1) step_frame_loop[OF f]]] by simp
    have c1: "counted s1 (pr_id run)" "run_status s1 (pr_id run) = run_status s (pr_id run)"
    proof -
      have "completed_steps ?s (pr_id run) = completed_steps s (pr_id run)"
        unfolding start_step_def by (simp add: completed_steps_write[OF Cons.prems(4) st False])
      then show "counted s1 (pr_id run)" "run_status s1 (pr_id run) = run_status s (pr_id run)"
        using Cons.prems(5) f by (simp_all add: counted_def step_frame_def completed_steps_table start_step_def run_status_def)
    qed
    obtain row where row: "get_row pr_id (pr_id run) (pipeline_runs s1) = Some row" using c1(1) by (auto simp: counted_def)
    show ?thesis
    proof (cases r)
      case (Inl err)
      then have s': "s' = fail_step env now run tr a x err s1" "failed" using Cons.prems(1) False e by simp_all
      have "completed_steps s' (pr_id run) = completed_steps s1 (pr_id run)"
        unfolding s'(1) fail_step_def Let_def using completed_steps_write[OF k1 s1[of "fs_id x", simplified]] by simp
      then show ?thesis
        using c1(1) row s'(2) unfolding s'(1) by (simp add: counted_def run_status_def fail_step_def Let_def table_simps)
    next
      case (Inr n)
      let ?t = "complete_step now run tr a x n s1"
      have others: "fs_id y \<noteq> fs_id x" if "y \<in> set xs" for y using Cons.prems(2) that by auto (metis image_eqI)
      have c: "counted ?t (pr_id run)" "run_status ?t (pr_id run) = run_status s1 (pr_id run)"
        using row by (simp_all add: counted_def run_status_def complete_step_def Let_def table_simps completed_steps_def steps_of_run_def)
      have "run_steps env now run tr a xs ?t = (s', failed)" using Cons.prems(1) False e Inr by simp
      moreover have "\<forall>y \<in> set xs. step_status ?t (fs_id y) = Some (fs_status y)"
        using Cons.prems(3) others s1 by (simp add: complete_step_def Let_def)
      moreover have "keyed fs_id (pipeline_steps ?t)" using k1 loop_frame_keyed[OF loop_frame_parts(2)] by simp
      ultimately show ?thesis using Cons.IH[of ?t] Cons.prems(2) c c1(2) by simp
    qed
  qed (use Cons in simp)
qed simp

section \<open>The shape of a stored run\<close>

definition progress :: "nat \<Rightarrow> PipelineStepStatus \<Rightarrow> PipelineStepStatus list" where
  "progress k f = replicate k PSS_completed @ (if k < 6 then f # replicate (5 - k) PSS_pending else [])"

definition statuses :: "db \<Rightarrow> uuid \<Rightarrow> PipelineStepStatus list" where
  "statuses s rid = map fs_status (steps_of_run s rid)"

definition run_shape :: "db \<Rightarrow> FinancePipelineRun \<Rightarrow> bool" where
  "run_shape s r \<longleftrightarrow> map fs_step_name (steps_of_run s (pr_id r)) = PIPELINE_STEPS
     \<and> (\<exists>k \<le> 6. statuses s (pr_id r) = progress k PSS_failed \<and> pr_steps_completed r = k
          \<and> pr_status r = (if k = 6 then PRS_completed else PRS_partial))"

lemma length_progress [simp]: "k \<le> 6 \<Longrightarrow> length (progress k f) = 6"
  by (simp add: progress_def)

lemma progress_completed: "k \<le> 6 \<Longrightarrow> f \<noteq> PSS_completed \<Longrightarrow> length (filter (\<lambda>x. x = PSS_completed) (progress k f)) = k"
  by (auto simp: progress_def)

lemma progress_nth: "k \<le> 6 \<Longrightarrow> i < 6 \<Longrightarrow>
    progress k f ! i = (if i < k then PSS_completed else if i = k then f else PSS_pending)"
  by (auto simp: progress_def nth_append nth_Cons')

text \<open>Completing the steps before the \<open>j\<close>th and failing it turns one progress into another.\<close>

lemma progress_after:
  assumes "k \<le> 6" and "f \<noteq> PSS_completed" and "j \<le> 6" and "j < 6 \<longrightarrow> progress k f ! j \<noteq> PSS_completed"
    and "length xs = 6" and "\<And>i. i < 6 \<Longrightarrow> xs ! i = (if i < j then PSS_completed else if i = j then PSS_failed else progress k f ! i)"
  shows "xs = progress j PSS_failed" "k \<le> j"
proof -
  show "k \<le> j" using assms(1-4) progress_nth[of k j f] by (cases "j < 6") (auto split: if_splits)
  then show "xs = progress j PSS_failed"
    using assms by (intro nth_equalityI) (auto simp: progress_nth)
qed

lemma sort_key_map: "map g (sort_key (\<lambda>x. h (g x)) xs) = sort_key h (map g xs)"
proof -
  have "map g (insort_key (\<lambda>x. h (g x)) a ys) = insort_key h (g a) (map g ys)" for a ys by (induction ys) auto
  then show ?thesis by (induction xs) simp_all
qed

lemma steps_of_run_static:
  "map static (steps_of_run s rid) = sort_key (\<lambda>x. fst (snd (snd x))) (filter (\<lambda>x. fst (snd x) = rid) (map static (pipeline_steps s)))"
proof -
  have "map static (sort_key (\<lambda>x. fst (snd (snd (static x)))) (filter (\<lambda>x. fs_run_id x = rid) (pipeline_steps s)))
      = sort_key (\<lambda>x. fst (snd (snd x))) (map static (filter (\<lambda>x. fs_run_id x = rid) (pipeline_steps s)))" by (rule sort_key_map)
  then show ?thesis by (simp add: steps_of_run_def static_def filter_map comp_def)
qed

lemma loop_frame_steps:
  assumes "loop_frame rid s s'"
  shows "map fs_id (steps_of_run s' j) = map fs_id (steps_of_run s j)"
    "map fs_step_name (steps_of_run s' j) = map fs_step_name (steps_of_run s j)"
    "length (steps_of_run s' j) = length (steps_of_run s j)"
proof -
  have *: "map static (steps_of_run s' j) = map static (steps_of_run s j)"
    using assms by (simp add: steps_of_run_static loop_frame_def)
  have "map fst (map static (steps_of_run s' j)) = map fst (map static (steps_of_run s j))"
    "map (\<lambda>x. snd (snd (snd x))) (map static (steps_of_run s' j)) = map (\<lambda>x. snd (snd (snd x))) (map static (steps_of_run s j))"
    by (simp_all only: *)
  then show "map fs_id (steps_of_run s' j) = map fs_id (steps_of_run s j)"
    "map fs_step_name (steps_of_run s' j) = map fs_step_name (steps_of_run s j)" by (simp_all add: static_def comp_def)
  show "length (steps_of_run s' j) = length (steps_of_run s j)" using * by (metis length_map)
qed

lemma steps_of_run_set: "x \<in> set (steps_of_run s rid) \<longleftrightarrow> x \<in> set (pipeline_steps s) \<and> fs_run_id x = rid"
  by (auto simp: steps_of_run_def)

lemma steps_of_run_distinct: "keyed fs_id (pipeline_steps s) \<Longrightarrow> distinct (map fs_id (steps_of_run s rid))"
  unfolding steps_of_run_def keyed_def distinct_map by (auto simp: inj_on_def)

lemma step_status_row: "keyed fs_id (pipeline_steps s) \<Longrightarrow> x \<in> set (pipeline_steps s) \<Longrightarrow> step_status s (fs_id x) = Some (fs_status x)"
  by (simp add: step_status_def get_row_keyed)

lemma statuses_nth:
  assumes "keyed fs_id (pipeline_steps s)" and "i < length (steps_of_run s rid)"
  shows "step_status s (map fs_id (steps_of_run s rid) ! i) = Some (statuses s rid ! i)"
proof -
  have "steps_of_run s rid ! i \<in> set (pipeline_steps s)" using assms(2) nth_mem steps_of_run_set by blast
  then show ?thesis using step_status_row[OF assms(1)] assms(2) by (simp add: statuses_def)
qed

text \<open>What driving a run to its end does: more steps are completed, the run is completed or partial,
  and each step that became completed was reported once.\<close>

definition driven :: "uuid \<Rightarrow> nat \<Rightarrow> nat \<Rightarrow> db \<Rightarrow> db \<Rightarrow> bool" where
  "driven rid k j s s' \<longleftrightarrow> loop_frame rid s s' \<and> k \<le> j \<and> j \<le> 6 \<and> statuses s' rid = progress j PSS_failed
     \<and> (\<exists>r. get_row pr_id rid (pipeline_runs s') = Some r \<and> pr_steps_completed r = j
          \<and> pr_status r = (if j = 6 then PRS_completed else PRS_partial))
     \<and> (\<forall>i. i \<notin> fs_id ` set (steps_of_run s rid) \<longrightarrow> step_status s' i = step_status s i)
     \<and> (\<forall>i. step_status s i = Some PSS_completed \<longrightarrow> step_status s' i = Some PSS_completed)
     \<and> (\<forall>i. completions s' i = completions s i
          + (if step_status s' i = Some PSS_completed \<and> step_status s i \<noteq> Some PSS_completed then 1 else 0))"

lemma drive_run_driven:
  assumes kd: "keyed fs_id (pipeline_steps s)" and c: "counted s (pr_id run)" and st: "run_status s (pr_id run) = Some PRS_running"
    and p: "statuses s (pr_id run) = progress k f" "k \<le> 6" "f \<noteq> PSS_completed"
  shows "\<exists>j. driven (pr_id run) k j s (drive_run env now run tr a s)"
proof -
  let ?rid = "pr_id run" and ?steps = "steps_of_run s (pr_id run)"
  obtain t failed where t: "run_steps env now run tr a ?steps s = (t, failed)" by force
  have d: "distinct (map fs_id ?steps)" using kd by (rule steps_of_run_distinct)
  have cur: "\<forall>x \<in> set ?steps. step_status s (fs_id x) = Some (fs_status x)"
    using step_status_row[OF kd] by (simp add: steps_of_run_set)
  have len: "length ?steps = 6" using p(1,2) length_progress[of k f] by (metis length_map statuses_def)
  obtain finished rest where h: "?steps = finished @ rest" "failed \<longleftrightarrow> rest \<noteq> []" "ran finished rest s t"
    using run_steps_ran[OF t d cur] by blast
  have row: "counted t ?rid" "run_status t ?rid = (if failed then Some PRS_partial else Some PRS_running)"
    using run_steps_row[OF t d cur kd c] st by simp_all
  have fr: "loop_frame ?rid s t" using run_steps_frame[of run s env now tr a ?steps] t by simp
  define j where "j = length finished"
  have j: "j \<le> 6" "j = 6 \<longleftrightarrow> rest = []" using h(1) len by (auto simp: j_def)
  have at: "?steps ! i = (if i < j then finished ! i else rest ! (i - j))" for i by (simp add: h(1) j_def nth_append)
  have kt: "keyed fs_id (pipeline_steps t)" using kd loop_frame_keyed[OF fr] by simp
  have status_t: "statuses t ?rid ! i = (if i < j then PSS_completed else if i = j then PSS_failed else progress k f ! i)" if i: "i < 6" for i
  proof -
    have ids: "map fs_id (steps_of_run t ?rid) = map fs_id ?steps" by (rule loop_frame_steps[OF fr])
    have "i < length (steps_of_run t ?rid)" using i len loop_frame_steps(3)[OF fr] by simp
    then have "Some (statuses t ?rid ! i) = step_status t (map fs_id (steps_of_run t ?rid) ! i)" using statuses_nth[OF kt] by simp
    also have "\<dots> = step_status t (fs_id (?steps ! i))" unfolding ids using i len by simp
    finally have s1: "Some (statuses t ?rid ! i) = step_status t (fs_id (?steps ! i))" .
    have s0: "step_status s (fs_id (?steps ! i)) = Some (progress k f ! i)"
      using statuses_nth[OF kd, of i "pr_id run"] i len p(1) by simp
    have inj: "fs_id (?steps ! i) = fs_id (?steps ! m) \<longleftrightarrow> i = m" if "m < 6" for m
      using d i that len by (metis distinct_conv_nth length_map nth_map)
    have "fs_id (?steps ! i) \<in> fs_id ` set finished \<longleftrightarrow> i < j"
    proof
      assume "fs_id (?steps ! i) \<in> fs_id ` set finished"
      then obtain m where "m < j" "fs_id (?steps ! i) = fs_id (?steps ! m)" by (auto simp: in_set_conv_nth at j_def)
      then show "i < j" using inj[of m] j(1) by simp
    qed (simp add: at j_def)
    moreover have "fs_id (?steps ! i) = fs_id (hd rest) \<longleftrightarrow> i = j" if "rest \<noteq> []"
      using inj[of j] that j by (simp add: at hd_conv_nth)
    ultimately show ?thesis
      using h(3) s1 s0 j i unfolding ran_def by (cases "rest = []") auto
  qed
  have fail_at: "progress k f ! j \<noteq> PSS_completed" if "j < 6"
  proof -
    have "rest \<noteq> []" using that j by auto
    then have "fs_status (?steps ! j) \<noteq> PSS_completed" using h(3) by (simp add: ran_def at hd_conv_nth)
    then show ?thesis using p(1) that len by (metis length_map nth_map statuses_def)
  qed
  have pt: "statuses t ?rid = progress j PSS_failed" "k \<le> j"
    using progress_after[OF p(2,3) j(1), of "statuses t ?rid"] fail_at status_t len loop_frame_steps(3)[OF fr]
    by (auto simp: statuses_def)
  have cnt: "completed_steps t ?rid = j"
  proof -
    have "completed_steps t ?rid = length (filter (\<lambda>x. x = PSS_completed) (statuses t ?rid))"
      by (simp add: completed_steps_def statuses_def filter_map comp_def)
    then show ?thesis using pt(1) progress_completed[OF j(1)] by simp
  qed
  obtain r where r: "get_row pr_id ?rid (pipeline_runs t) = Some r" "pr_steps_completed r = j" using row(1) cnt by (auto simp: counted_def)
  have others: "step_status t i = step_status s i" if "i \<notin> fs_id ` set ?steps" for i
    using h(1,3) that by (cases "rest = []") (auto simp: ran_def)
  have ct: "completions t i = completions s i + (if \<exists>x \<in> set finished. fs_id x = i \<and> fs_status x \<noteq> PSS_completed then 1 else 0)"
    and stt: "i \<in> fs_id ` set finished \<Longrightarrow> step_status t i = Some PSS_completed"
      "i \<notin> fs_id ` set finished \<Longrightarrow> step_status t i = Some PSS_failed \<or> step_status t i = step_status s i" for i
    using h(3) unfolding ran_def by (metis (no_types, lifting))+
  have comp: "completions t i = completions s i + (if step_status t i = Some PSS_completed \<and> step_status s i \<noteq> Some PSS_completed then 1 else 0)" for i
  proof (cases "i \<in> fs_id ` set finished")
    case True
    then obtain x where x: "x \<in> set finished" "fs_id x = i" by blast
    have cur': "step_status s (fs_id y) = Some (fs_status y)" if "y \<in> set finished" for y using cur h(1) that by simp
    have si: "step_status s i = Some (fs_status x)" using cur'[OF x(1)] unfolding x(2) .
    have same: "fs_status y = fs_status x" if "y \<in> set finished" "fs_id y = i" for y
      using cur'[OF that(1)] unfolding that(2) si by (rule option.inject[THEN iffD1, symmetric])
    have "(\<exists>y \<in> set finished. fs_id y = i \<and> fs_status y \<noteq> PSS_completed) \<longleftrightarrow> fs_status x \<noteq> PSS_completed"
    proof
      assume "\<exists>y \<in> set finished. fs_id y = i \<and> fs_status y \<noteq> PSS_completed"
      then obtain y where y: "y \<in> set finished" "fs_id y = i" "fs_status y \<noteq> PSS_completed" by blast
      show "fs_status x \<noteq> PSS_completed" using y(3) unfolding same[OF y(1,2)] .
    qed (use x in blast)
    then show ?thesis using ct[of i] stt(1)[OF True] si by simp
  next
    case False
    then have "\<not> (\<exists>y \<in> set finished. fs_id y = i \<and> fs_status y \<noteq> PSS_completed)" by blast
    then show ?thesis using ct[of i] stt(2)[OF False] by auto
  qed
  have stay: "step_status t i = Some PSS_completed" if "step_status s i = Some PSS_completed" for i
  proof (cases "rest = []")
    case False
    then have "i \<noteq> fs_id (hd rest)" using h(1,3) cur that by (auto simp: ran_def)
    then show ?thesis using h(3) that by (simp add: ran_def)
  qed (use h(3) that in \<open>simp add: ran_def\<close>)
  show ?thesis
  proof (cases failed)
    case True
    then have "drive_run env now run tr a s = t" using t by (simp add: drive_run_def)
    moreover have "j \<noteq> 6" using True h(2) j by simp
    ultimately show ?thesis using fr pt j r row(2) True others comp stay by (auto simp: driven_def run_status_def)
  next
    case False
    then have f: "drive_run env now run tr a s = finish_run now run tr a t" using t by (simp add: drive_run_def)
    have j6: "j = 6" using False h(2) j by simp
    have "get_row pr_id ?rid (pipeline_runs (finish_run now run tr a t)) =
        Some (r\<lparr>pr_status := PRS_completed, pr_finished_at := Some now, pr_steps_completed := length PIPELINE_STEPS\<rparr>)"
      using r by (simp add: finish_run_def table_simps)
    moreover have "statuses (finish_run now run tr a t) ?rid = statuses t ?rid" "step_status (finish_run now run tr a t) i = step_status t i"
      "completions (finish_run now run tr a t) i = completions t i" for i
      by (simp_all add: finish_run_def statuses_def steps_of_run_def)
    ultimately show ?thesis
      using loop_frame_trans[OF fr loop_frame_parts(4)] pt others comp stay j6 unfolding f
      by (intro exI[of _ j]) (simp add: driven_def PIPELINE_STEPS_def)
  qed
qed

section \<open>The invariant of the stored runs\<close>

definition pipeline_inv :: "db \<Rightarrow> bool" where
  "pipeline_inv s \<longleftrightarrow> keyed pr_id (pipeline_runs s) \<and> keyed pr_run_date (pipeline_runs s) \<and> keyed fs_id (pipeline_steps s)
     \<and> (\<forall>r \<in> set (pipeline_runs s). pr_id r < next_uuid s)
     \<and> (\<forall>x \<in> set (pipeline_steps s). fs_id x < next_uuid s \<and> fs_run_id x < next_uuid s)
     \<and> (\<forall>r \<in> set (pipeline_runs s). run_shape s r)
     \<and> (\<forall>i. completions s i = (if step_status s i = Some PSS_completed then 1 else 0))"

text \<open>The same before a run is driven, with its own row still open.\<close>

definition open_inv :: "uuid \<Rightarrow> db \<Rightarrow> bool" where
  "open_inv rid s \<longleftrightarrow> keyed pr_id (pipeline_runs s) \<and> keyed pr_run_date (pipeline_runs s) \<and> keyed fs_id (pipeline_steps s)
     \<and> (\<forall>r \<in> set (pipeline_runs s). pr_id r < next_uuid s)
     \<and> (\<forall>x \<in> set (pipeline_steps s). fs_id x < next_uuid s \<and> fs_run_id x < next_uuid s)
     \<and> (\<forall>r \<in> set (pipeline_runs s). pr_id r \<noteq> rid \<longrightarrow> run_shape s r)
     \<and> map fs_step_name (steps_of_run s rid) = PIPELINE_STEPS
     \<and> (\<forall>i. completions s i = (if step_status s i = Some PSS_completed then 1 else 0))"

lemma statuses_same:
  assumes "loop_frame rid s s'" and k: "keyed fs_id (pipeline_steps s)"
    and same: "\<And>i. i \<notin> fs_id ` set (steps_of_run s rid) \<Longrightarrow> step_status s' i = step_status s i" and "j \<noteq> rid"
  shows "statuses s' j = statuses s j"
proof (rule nth_equalityI)
  show "length (statuses s' j) = length (statuses s j)" using loop_frame_steps(3)[OF assms(1)] by (simp add: statuses_def)
  fix i assume "i < length (statuses s' j)"
  then have i: "i < length (steps_of_run s' j)" "i < length (steps_of_run s j)" using loop_frame_steps(3)[OF assms(1)] by (simp_all add: statuses_def)
  let ?x = "steps_of_run s j ! i"
  have x: "?x \<in> set (pipeline_steps s)" "fs_run_id ?x = j" using steps_of_run_set nth_mem[OF i(2)] by blast+
  have "fs_id ?x \<notin> fs_id ` set (steps_of_run s rid)"
  proof
    assume "fs_id ?x \<in> fs_id ` set (steps_of_run s rid)"
    then obtain y where "y \<in> set (pipeline_steps s)" "fs_run_id y = rid" "fs_id y = fs_id ?x" by (auto simp: steps_of_run_set)
    then show False using keyed_inj[OF k] x assms(4) by metis
  qed
  then have "step_status s' (fs_id ?x) = step_status s (fs_id ?x)" by (rule same)
  moreover have k': "keyed fs_id (pipeline_steps s')" using k loop_frame_keyed[OF assms(1)] by simp
  have "step_status s' (fs_id ?x) = Some (statuses s' j ! i)"
    using statuses_nth[OF k' i(1)] i unfolding loop_frame_steps(1)[OF assms(1)] by simp
  moreover have "step_status s (fs_id ?x) = Some (statuses s j ! i)" using statuses_nth[OF k i(2)] i(2) by simp
  ultimately show "statuses s' j ! i = statuses s j ! i" by simp
qed

lemma driven_inv:
  assumes d: "driven rid k j s s'" and o: "open_inv rid s"
  shows "pipeline_inv s'"
proof -
  have fr: "loop_frame rid s s'" and j: "j \<le> 6" and st: "statuses s' rid = progress j PSS_failed"
    using d by (simp_all add: driven_def)
  obtain r where r: "get_row pr_id rid (pipeline_runs s') = Some r" "pr_steps_completed r = j"
      "pr_status r = (if j = 6 then PRS_completed else PRS_partial)" using d by (auto simp: driven_def)
  have m: "map (\<lambda>r. (pr_id r, pr_run_date r)) (pipeline_runs s') = map (\<lambda>r. (pr_id r, pr_run_date r)) (pipeline_runs s)"
    and st_m: "map static (pipeline_steps s') = map static (pipeline_steps s)" and n: "next_uuid s \<le> next_uuid s'"
    using fr by (simp_all add: loop_frame_def)
  have "map fst (map (\<lambda>r. (pr_id r, pr_run_date r)) (pipeline_runs s')) = map fst (map (\<lambda>r. (pr_id r, pr_run_date r)) (pipeline_runs s))"
    "map snd (map (\<lambda>r. (pr_id r, pr_run_date r)) (pipeline_runs s')) = map snd (map (\<lambda>r. (pr_id r, pr_run_date r)) (pipeline_runs s))"
    by (simp_all only: m)
  then have ids: "map pr_id (pipeline_runs s') = map pr_id (pipeline_runs s)" "map pr_run_date (pipeline_runs s') = map pr_run_date (pipeline_runs s)"
    by (simp_all add: comp_def)
  have keys: "keyed pr_id (pipeline_runs s')" "keyed pr_run_date (pipeline_runs s')" "keyed fs_id (pipeline_steps s')"
    using o ids loop_frame_keyed[OF fr] by (simp_all add: open_inv_def keyed_def)
  have "\<forall>i \<in> set (map pr_id (pipeline_runs s')). i < next_uuid s'" unfolding ids using o n by (auto simp: open_inv_def)
  moreover have "\<forall>(i, ri, x) \<in> set (map static (pipeline_steps s')). i < next_uuid s' \<and> ri < next_uuid s'"
    unfolding st_m using o n by (auto simp: open_inv_def static_def)
  moreover have "run_shape s' q" if q: "q \<in> set (pipeline_runs s')" for q
  proof (cases "pr_id q = rid")
    case True
    then have "q = r" using get_row_keyed[OF keys(1) q] r(1) by simp
    moreover have "map fs_step_name (steps_of_run s' rid) = PIPELINE_STEPS" using o loop_frame_steps(2)[OF fr] by (simp add: open_inv_def)
    ultimately show ?thesis using True st j r by (auto simp: run_shape_def)
  next
    case False
    then have "get_row pr_id (pr_id q) (pipeline_runs s) = Some q" using get_row_keyed[OF keys(1) q] fr by (simp add: loop_frame_def)
    then have "run_shape s q" using False o get_row_SomeD unfolding open_inv_def by metis
    moreover have "statuses s' (pr_id q) = statuses s (pr_id q)"
      using statuses_same[OF fr _ _ False] d o by (simp add: open_inv_def driven_def)
    ultimately show ?thesis using loop_frame_steps(2)[OF fr] by (simp add: run_shape_def)
  qed
  moreover have "completions s' i = (if step_status s' i = Some PSS_completed then 1 else 0)" for i
  proof (cases "step_status s i = Some PSS_completed")
    case True
    then have "step_status s' i = Some PSS_completed" using d by (simp add: driven_def)
    then show ?thesis using True d o by (simp add: driven_def open_inv_def)
  qed (use d o in \<open>simp add: driven_def open_inv_def\<close>)
  ultimately show ?thesis using keys by (auto simp: pipeline_inv_def static_def)
qed

lemma resume_run_driven:
  assumes inv: "pipeline_inv s" and r: "r \<in> set (pipeline_runs s)" and open_run: "pr_status r \<noteq> PRS_completed"
  shows "\<exists>k j. driven (pr_id r) k j (resume_run now r tr a s) (drive_run env now r tr a (resume_run now r tr a s))"
    and "open_inv (pr_id r) (resume_run now r tr a s)"
proof -
  let ?s = "resume_run now r tr a s"
  have k0: "keyed pr_id (pipeline_runs s)" "keyed fs_id (pipeline_steps s)" and sh: "run_shape s r"
    using inv r by (simp_all add: pipeline_inv_def)
  obtain k where k: "k < 6" "statuses s (pr_id r) = progress k PSS_failed" "pr_steps_completed r = k"
    using sh open_run by (auto simp: run_shape_def split: if_splits)
  have row: "get_row pr_id (pr_id r) (pipeline_runs s) = Some r" using get_row_keyed[OF k0(1) r] .
  have same: "pipeline_steps ?s = pipeline_steps s" by (simp add: resume_run_def)
  then have st: "statuses ?s j = statuses s j" "steps_of_run ?s j = steps_of_run s j" "completed_steps ?s j = completed_steps s j"
    "step_status ?s i = step_status s i" for i j
    by (simp_all add: statuses_def steps_of_run_def completed_steps_def step_status_def)
  have "completed_steps s (pr_id r) = length (filter (\<lambda>x. x = PSS_completed) (statuses s (pr_id r)))"
    by (simp add: completed_steps_def statuses_def filter_map comp_def)
  then have cnt: "completed_steps s (pr_id r) = k" using k progress_completed[of k PSS_failed] by simp
  have "counted ?s (pr_id r)" using row cnt k(3) st(3) by (simp add: counted_def resume_run_def table_simps)
  moreover have "run_status ?s (pr_id r) = Some PRS_running" using row by (simp add: run_status_def resume_run_def table_simps)
  ultimately show "\<exists>k j. driven (pr_id r) k j ?s (drive_run env now r tr a ?s)"
    using drive_run_driven[of ?s r k PSS_failed env now tr a] k st(1) k0(2) same by auto
  have "map (\<lambda>q. (pr_id q, pr_run_date q)) (pipeline_runs ?s) = map (\<lambda>q. (pr_id q, pr_run_date q)) (pipeline_runs s)"
    by (simp add: resume_run_def map_update_row_same)
  then have ids: "map pr_id (pipeline_runs ?s) = map pr_id (pipeline_runs s)" "map pr_run_date (pipeline_runs ?s) = map pr_run_date (pipeline_runs s)"
    by (simp_all add: resume_run_def map_update_row_same)
  have next_up: "next_uuid ?s = Suc (next_uuid s)" "completions ?s i = completions s i" for i by (simp_all add: resume_run_def)
  have below: "\<forall>i \<in> set (map pr_id (pipeline_runs ?s)). i < next_uuid ?s" unfolding ids next_up using inv by (auto simp: pipeline_inv_def)
  have "\<forall>q \<in> set (pipeline_runs ?s). pr_id q < next_uuid ?s" using below by simp
  moreover have "run_shape ?s q" if "q \<in> set (pipeline_runs ?s)" "pr_id q \<noteq> pr_id r" for q
  proof -
    have "q \<in> set (pipeline_runs s)" using that by (auto simp: resume_run_def set_update_row split: if_splits)
    then show ?thesis using inv st by (simp add: pipeline_inv_def run_shape_def)
  qed
  moreover have "map fs_step_name (steps_of_run ?s (pr_id r)) = PIPELINE_STEPS" using sh st(2) by (simp add: run_shape_def)
  ultimately show "open_inv (pr_id r) ?s"
    using inv ids same st(4) next_up unfolding open_inv_def pipeline_inv_def keyed_def
    by (simp add: less_SucI)
qed

lemma length_PIPELINE_STEPS: "length PIPELINE_STEPS = 6"
  by (simp add: PIPELINE_STEPS_def)

lemma steps_of_new_run:
  "sort_key fs_step_number (map (\<lambda>i. new_step rid (n + i) i) [0..<6]) = map (\<lambda>i. new_step rid (n + i) i) [0..<6]"
  by (simp add: sort_key_id_if_sorted new_step_def upt_rec)

lemma add_run_steps:
  assumes inv: "pipeline_inv s" and r: "r = new_run env s now d tr"
  shows "steps_of_run (add_run r tr a s) (pr_id r) = map (\<lambda>i. new_step (next_uuid s) (next_uuid s + 2 + i) i) [0..<6]"
proof -
  let ?new = "map (\<lambda>i. new_step (next_uuid s) (next_uuid s + 2 + i) i) [0..<6]"
  have tables: "pipeline_steps (add_run r tr a s) = pipeline_steps s @ ?new"
    by (simp add: add_run_def Let_def r new_run_def length_PIPELINE_STEPS del: upt_rec_numeral)
  have old: "filter (\<lambda>x. fs_run_id x = next_uuid s) (pipeline_steps s) = []"
    using inv by (auto simp: pipeline_inv_def filter_empty_conv)
  have "filter (\<lambda>x. fs_run_id x = next_uuid s) ?new = ?new" by (simp add: new_step_def)
  then have "steps_of_run (add_run r tr a s) (next_uuid s) = sort_key fs_step_number ?new"
    unfolding steps_of_run_def tables filter_append old by simp
  then show ?thesis using steps_of_new_run[of "next_uuid s" "next_uuid s + 2"] by (simp add: r new_run_def)
qed

lemma add_run_driven:
  assumes inv: "pipeline_inv s" and r: "r = new_run env s now d tr" and free: "d \<notin> pr_run_date ` set (pipeline_runs s)"
  shows "\<exists>k j. driven (pr_id r) k j (add_run r tr a s) (drive_run env now r tr a (add_run r tr a s))"
    and "open_inv (pr_id r) (add_run r tr a s)"
proof -
  let ?s = "add_run r tr a s" and ?new = "map (\<lambda>i. new_step (next_uuid s) (next_uuid s + 2 + i) i) [0..<6]"
  have rid: "pr_id r = next_uuid s" "pr_run_date r = d" "pr_status r = PRS_running" "pr_steps_completed r = 0" by (simp_all add: r new_run_def)
  have tables: "pipeline_runs ?s = pipeline_runs s @ [r]" "pipeline_steps ?s = pipeline_steps s @ ?new"
    "next_uuid ?s = next_uuid s + 8" "completions ?s i = completions s i" for i
    by (simp_all add: add_run_def Let_def rid length_PIPELINE_STEPS completions_def pipeline_audit_event_def record_worker_event_def
        record_audit_def del: upt_rec_numeral)
  have own: "steps_of_run ?s (next_uuid s) = ?new" using add_run_steps[OF inv r, of a] rid(1) by simp
  have fresh_id: "next_uuid s \<notin> pr_id ` set (pipeline_runs s)" using inv by (auto simp: pipeline_inv_def)
  have row: "get_row pr_id (next_uuid s) (pipeline_runs ?s) = Some r"
    using get_row_None_iff[of pr_id "next_uuid s" "pipeline_runs s"] fresh_id by (simp add: tables get_row_append rid)
  have st: "statuses ?s (next_uuid s) = progress 0 PSS_pending" "map fs_step_name (steps_of_run ?s (next_uuid s)) = PIPELINE_STEPS"
    "completed_steps ?s (next_uuid s) = 0"
    unfolding statuses_def completed_steps_def own by (simp_all add: new_step_def progress_def PIPELINE_STEPS_def upt_rec numeral_eq_Suc)
  have ids: "map fs_id ?new = [next_uuid s + 2..<next_uuid s + 8]" by (simp add: new_step_def upt_rec)
  have kd: "keyed fs_id (pipeline_steps ?s)"
    using inv unfolding keyed_def tables map_append ids by (auto simp: pipeline_inv_def keyed_def)
  have "counted ?s (next_uuid s)" "run_status ?s (next_uuid s) = Some PRS_running" using row st(3) rid by (simp_all add: counted_def run_status_def)
  then show "\<exists>k j. driven (pr_id r) k j ?s (drive_run env now r tr a ?s)"
    using drive_run_driven[of ?s r 0 PSS_pending env now tr a] kd st(1) rid(1) by auto
  have status: "step_status ?s i = Some PSS_completed \<longleftrightarrow> step_status s i = Some PSS_completed" for i
  proof (cases "get_row fs_id i (pipeline_steps s)")
    case None
    have "get_row fs_id i ?new = Some x \<Longrightarrow> fs_status x \<noteq> PSS_completed" for x
      using get_row_SomeD[of fs_id i ?new x] by (auto simp: new_step_def)
    then show ?thesis using None by (auto simp: step_status_def tables get_row_append)
  qed (simp add: step_status_def tables get_row_append)
  have shapes: "run_shape ?s q" if q: "q \<in> set (pipeline_runs s)" for q
  proof -
    have "pr_id q \<noteq> next_uuid s" using q fresh_id by (metis imageI)
    then have "filter (\<lambda>x. fs_run_id x = pr_id q) ?new = []" by (auto simp: new_step_def filter_empty_conv)
    then have "steps_of_run ?s (pr_id q) = steps_of_run s (pr_id q)" by (simp add: steps_of_run_def tables)
    then show ?thesis using inv q by (simp add: pipeline_inv_def run_shape_def statuses_def)
  qed
  have bounds: "\<forall>x \<in> set (pipeline_steps ?s). fs_id x < next_uuid ?s \<and> fs_run_id x < next_uuid ?s"
    unfolding tables using inv by (auto simp: pipeline_inv_def new_step_def)
  show "open_inv (pr_id r) ?s"
    using inv kd st(2) status shapes bounds fresh_id free rid
    by (auto simp: open_inv_def pipeline_inv_def tables keyed_snoc)
qed

theorem run_daily_pipeline_inv:
  assumes inv: "pipeline_inv s" and run: "run_daily_pipeline env s now d tr a raced = (s', out)"
  shows "pipeline_inv s'"
proof (cases "find (\<lambda>r. pr_run_date r = d) (pipeline_runs s)")
  case None
  then have free: "d \<notin> pr_run_date ` set (pipeline_runs s)" by (auto simp: find_None_iff)
  let ?r = "new_run env s now d tr"
  have "pipeline_inv (drive_run env now ?r tr a (add_run ?r tr a s))"
    using add_run_driven[OF inv refl free, of env now tr a] driven_inv by blast
  then show ?thesis using run None inv by (auto simp: run_daily_pipeline_def Let_def split: if_splits option.splits)
next
  case (Some r)
  then have "r \<in> set (pipeline_runs s)" by (simp add: find_SomeD)
  then have "pipeline_inv (drive_run env now r tr a (resume_run now r tr a s))" if "pr_status r \<noteq> PRS_completed"
    using resume_run_driven[OF inv _ that] driven_inv by blast
  then show ?thesis using run Some inv by (auto simp: run_daily_pipeline_def Let_def split: if_splits)
qed

section \<open>Runs over time\<close>

text \<open>What happens to the pipeline tables: a run is requested, or another service leaves them alone.\<close>

definition pipeline_world :: "db \<Rightarrow> db \<Rightarrow> bool" where
  "pipeline_world s s' \<longleftrightarrow> (\<exists>env now d tr a raced out. run_daily_pipeline env s now d tr a raced = (s', out))
     \<or> (pipeline_runs s' = pipeline_runs s \<and> pipeline_steps s' = pipeline_steps s
        \<and> completions s' = completions s \<and> next_uuid s \<le> next_uuid s')"

definition no_pipeline :: "db \<Rightarrow> bool" where
  "no_pipeline s \<longleftrightarrow> pipeline_runs s = [] \<and> pipeline_steps s = [] \<and> completions s = (\<lambda>i. 0)"

lemma pipeline_world_inv:
  assumes "pipeline_world s s'" and inv: "pipeline_inv s"
  shows "pipeline_inv s'"
  using assms(1) unfolding pipeline_world_def
proof
  assume "\<exists>env now d tr a raced out. run_daily_pipeline env s now d tr a raced = (s', out)"
  then show ?thesis using run_daily_pipeline_inv[OF inv] by blast
next
  assume o: "pipeline_runs s' = pipeline_runs s \<and> pipeline_steps s' = pipeline_steps s
    \<and> completions s' = completions s \<and> next_uuid s \<le> next_uuid s'"
  then have "run_shape s' r = run_shape s r" "step_status s' i = step_status s i" for r i
    by (simp_all add: run_shape_def statuses_def steps_of_run_def step_status_def)
  then show ?thesis using inv o unfolding pipeline_inv_def by (simp, meson less_le_trans)
qed

lemma pipeline_run_inv:
  assumes "no_pipeline s0" and "pipeline_world\<^sup>*\<^sup>* s0 s"
  shows "pipeline_inv s"
  using assms(2)
proof (induction rule: rtranclp_induct)
  case base
  then show ?case using assms(1) by (simp add: no_pipeline_def pipeline_inv_def keyed_def step_status_def)
qed (rule pipeline_world_inv)

lemma pipeline_inv_keyed: "pipeline_inv s \<Longrightarrow> keyed fs_id (pipeline_steps s)"
  by (simp add: pipeline_inv_def)

lemma step_status_iff:
  assumes "keyed fs_id (pipeline_steps s)"
  shows "step_status s i = Some st \<longleftrightarrow> (\<exists>x \<in> set (pipeline_steps s). fs_id x = i \<and> fs_status x = st)"
proof
  assume "step_status s i = Some st"
  then show "\<exists>x \<in> set (pipeline_steps s). fs_id x = i \<and> fs_status x = st"
    using get_row_SomeD[of fs_id i "pipeline_steps s"] by (auto simp: step_status_def)
next
  assume "\<exists>x \<in> set (pipeline_steps s). fs_id x = i \<and> fs_status x = st"
  then show "step_status s i = Some st" using step_status_row[OF assms] by blast
qed

text \<open>C13: Every stored run has six steps in the fixed order, of which the first ones are completed, the
  next one failed and the others never started. Its counter is the number of completed steps; it
  is completed when all are and partial otherwise, never running, so that the lock is never seen.
  There is one run for a day.\<close>

theorem pipeline_run_shape:
  assumes "no_pipeline s0" and "pipeline_world\<^sup>*\<^sup>* s0 s" and "r \<in> set (pipeline_runs s)"
  shows "map fs_step_name (steps_of_run s (pr_id r)) = PIPELINE_STEPS
    \<and> (\<exists>k \<le> 6. statuses s (pr_id r) = replicate k PSS_completed
          @ (if k < 6 then PSS_failed # replicate (5 - k) PSS_pending else [])
        \<and> pr_steps_completed r = k \<and> pr_status r = (if k = 6 then PRS_completed else PRS_partial))
    \<and> \<not> is_fresh_running_lock env now r \<and> (\<forall>q \<in> set (pipeline_runs s). pr_run_date q = pr_run_date r \<longrightarrow> q = r)"
proof -
  have inv: "pipeline_inv s" using assms(1,2) by (rule pipeline_run_inv)
  then have "run_shape s r" using assms(3) by (simp add: pipeline_inv_def)
  moreover have "\<forall>q \<in> set (pipeline_runs s). pr_run_date q = pr_run_date r \<longrightarrow> q = r"
    using inv assms(3) keyed_inj unfolding pipeline_inv_def by metis
  ultimately show ?thesis by (auto simp: run_shape_def progress_def is_fresh_running_lock_def)
qed

text \<open>The days of the stored runs are trading days of the exchange: a holiday is refused before a run
  is looked up or added.\<close>

lemma drive_run_frame: "loop_frame (pr_id run) s (drive_run env now run tr a s)"
  using run_steps_frame[of run s env now tr a "steps_of_run s (pr_id run)"] loop_frame_trans loop_frame_parts(4)
  by (auto simp: drive_run_def split: prod.split bool.split)

lemma loop_frame_dates: "loop_frame rid s s' \<Longrightarrow> map pr_run_date (pipeline_runs s') = map pr_run_date (pipeline_runs s)"
proof -
  assume "loop_frame rid s s'"
  then have "map snd (map (\<lambda>r. (pr_id r, pr_run_date r)) (pipeline_runs s')) = map snd (map (\<lambda>r. (pr_id r, pr_run_date r)) (pipeline_runs s))"
    by (simp only: loop_frame_def)
  then show ?thesis by (simp add: comp_def)
qed

lemma drive_run_dates: "map pr_run_date (pipeline_runs (drive_run env now run tr a s)) = map pr_run_date (pipeline_runs s)"
  by (rule loop_frame_dates[OF drive_run_frame])

lemma resume_run_dates: "map pr_run_date (pipeline_runs (resume_run now run tr a s)) = map pr_run_date (pipeline_runs s)"
  by (rule loop_frame_dates[OF loop_frame_parts(5)])

definition trading_days :: "db \<Rightarrow> bool" where
  "trading_days s \<longleftrightarrow> list_all (is_business_day lme_calendar) (map pr_run_date (pipeline_runs s))"

lemma run_daily_pipeline_days:
  assumes "run_daily_pipeline env s now d tr a raced = (s', out)" and "trading_days s"
  shows "trading_days s'"
proof -
  have "pipeline_runs (add_run r tr a s) = pipeline_runs s @ [r]" for r by (simp add: add_run_def Let_def)
  then have "trading_days (add_run (new_run env s now d tr) tr a s)" if "is_business_day lme_calendar d"
    using that assms(2) by (simp add: trading_days_def new_run_def)
  with assms show ?thesis
    by (auto simp: run_daily_pipeline_def Let_def trading_days_def drive_run_dates resume_run_dates
        split: if_splits option.splits)
qed

lemma pipeline_run_days:
  assumes "no_pipeline s0" and "pipeline_world\<^sup>*\<^sup>* s0 s"
  shows "trading_days s"
  using assms(2)
proof (induction rule: rtranclp_induct)
  case base
  then show ?case using assms(1) by (simp add: no_pipeline_def trading_days_def)
next
  case (step s s')
  from step(2) show ?case unfolding pipeline_world_def
    using run_daily_pipeline_days[OF _ step(3)] step(3) by (auto simp: trading_days_def)
qed

text \<open>C12: A step is completed at most once, however often the run of its day is requested: the audit
  trail has one completion of a completed step and none of another. A request for a day that has a
  run is answered with that run, by whomever and whenever it is made, and when that run is completed
  nothing changes.\<close>

theorem pipeline_step_once:
  assumes "no_pipeline s0" and "pipeline_world\<^sup>*\<^sup>* s0 s"
  shows "completions s i = (if \<exists>x \<in> set (pipeline_steps s). fs_id x = i \<and> fs_status x = PSS_completed then 1 else 0)
    \<and> (\<forall>r \<in> set (pipeline_runs s). snd (run_daily_pipeline env s now (pr_run_date r) tr a raced) = Run_returned (pr_id r)
         \<and> (pr_status r = PRS_completed \<longrightarrow> fst (run_daily_pipeline env s now (pr_run_date r) tr a raced) = s))"
proof -
  have inv: "pipeline_inv s" using assms by (rule pipeline_run_inv)
  then have "step_status s i = Some PSS_completed \<longleftrightarrow> (\<exists>x \<in> set (pipeline_steps s). fs_id x = i \<and> fs_status x = PSS_completed)"
    by (rule step_status_iff[OF pipeline_inv_keyed])
  moreover have "snd (run_daily_pipeline env s now (pr_run_date r) tr a raced) = Run_returned (pr_id r)
      \<and> (pr_status r = PRS_completed \<longrightarrow> fst (run_daily_pipeline env s now (pr_run_date r) tr a raced) = s)"
    if r: "r \<in> set (pipeline_runs s)" for r
  proof -
    have f: "find (\<lambda>q. pr_run_date q = pr_run_date r) (pipeline_runs s) = Some r"
      using get_row_keyed[of pr_run_date "pipeline_runs s" r] inv r by (simp add: pipeline_inv_def get_row_def)
    have d: "is_business_day lme_calendar (pr_run_date r)"
      using pipeline_run_days[OF assms] r by (simp add: trading_days_def list_all_iff)
    have "\<not> is_fresh_running_lock env now r"
      using inv r by (auto simp: pipeline_inv_def run_shape_def is_fresh_running_lock_def split: if_splits)
    with f d show ?thesis by (simp add: run_daily_pipeline_def Let_def)
  qed
  ultimately show ?thesis using inv by (simp add: pipeline_inv_def)
qed

section \<open>No contract is skipped\<close>

text \<open>A run that ends completed has executed each step that was not completed before.\<close>

lemma run_steps_executes:
  assumes "run_steps env now run tr a steps s = (s', False)" and "x \<in> set steps" and "fs_status x \<noteq> PSS_completed"
  shows "\<exists>s1 s2 n. loop_frame (pr_id run) s s1 \<and> execute_step env s1 now (fs_step_name x) (pr_run_date run) run = (s2, Inr n)
    \<and> loop_frame (pr_id run) s2 s'"
  using assms
proof (induction steps arbitrary: s)
  case (Cons y ys)
  show ?case
  proof (cases "fs_status y = PSS_completed")
    case False
    obtain s2 r where e: "execute_step env (start_step now run tr a y s) now (fs_step_name y) (pr_run_date run) run = (s2, r)" by force
    obtain n where n: "r = Inr n" using Cons.prems(1) False e by (cases r) simp_all
    let ?t = "complete_step now run tr a y n s2"
    have run: "run_steps env now run tr a ys ?t = (s', False)" using Cons.prems(1) False e n by simp
    have t: "loop_frame (pr_id run) s2 ?t" by simp
    show ?thesis
    proof (cases "x = y")
      case True
      have "loop_frame (pr_id run) ?t s'" using run_steps_frame[of run ?t env now tr a ys] run by simp
      then show ?thesis using e n True loop_frame_trans[OF t] loop_frame_parts(1) by blast
    next
      case False
      then have "x \<in> set ys" using Cons.prems(2) by simp
      from Cons.IH[OF run this Cons.prems(3)] obtain s3 s4 m where *: "loop_frame (pr_id run) ?t s3"
        "execute_step env s3 now (fs_step_name x) (pr_run_date run) run = (s4, Inr m)" "loop_frame (pr_id run) s4 s'" by blast
      have "loop_frame (pr_id run) s s3"
        using loop_frame_trans[OF loop_frame_trans[OF loop_frame_parts(1) loop_frame_execute[OF e]] loop_frame_trans[OF t *(1)]] .
      then show ?thesis using * by blast
    qed
  qed (use Cons in auto)
qed simp

lemma run_steps_failed:
  assumes "run_steps env now run tr a steps s = (s', True)" and "pr_id run \<in> pr_id ` set (pipeline_runs s)"
  shows "run_status s' (pr_id run) = Some PRS_partial"
  using assms
proof (induction steps arbitrary: s)
  case (Cons y ys)
  show ?case
  proof (cases "fs_status y = PSS_completed")
    case False
    obtain s2 r where e: "execute_step env (start_step now run tr a y s) now (fs_step_name y) (pr_run_date run) run = (s2, r)" by force
    have "loop_frame (pr_id run) s s2" using loop_frame_trans[OF loop_frame_parts(1) loop_frame_execute[OF e]] .
    then have "map fst (map (\<lambda>r. (pr_id r, pr_run_date r)) (pipeline_runs s2)) = map fst (map (\<lambda>r. (pr_id r, pr_run_date r)) (pipeline_runs s))"
      by (simp only: loop_frame_def)
    then have "map pr_id (pipeline_runs s2) = map pr_id (pipeline_runs s)" by (simp add: comp_def)
    then have ids: "pr_id run \<in> pr_id ` set (pipeline_runs s2)" using Cons.prems(2) by (metis list.set_map)
    then obtain row where row: "get_row pr_id (pr_id run) (pipeline_runs s2) = Some row"
      using get_row_None_iff[of pr_id "pr_id run" "pipeline_runs s2"] by fastforce
    show ?thesis
    proof (cases r)
      case (Inl err)
      then have "s' = fail_step env now run tr a y err s2" using Cons.prems(1) False e by simp
      then show ?thesis using row by (simp add: run_status_def fail_step_def Let_def table_simps)
    next
      case (Inr n)
      let ?t = "complete_step now run tr a y n s2"
      have "run_steps env now run tr a ys ?t = (s', True)" using Cons.prems(1) False e Inr by simp
      moreover have "pr_id run \<in> pr_id ` set (pipeline_runs ?t)" using ids by (simp add: complete_step_def Let_def table_simps)
      ultimately show ?thesis by (rule Cons.IH)
    qed
  qed (use Cons in simp)
qed simp

lemma count_loop_visits:
  assumes "count_loop f xs s = (s', Inr n)" and "x \<in> set xs" and "\<And>x s. step_frame s (fst (f x s))"
  shows "\<exists>s1 s2 m. f x s1 = (s2, Inr m) \<and> step_frame s2 s'"
  using assms(1,2)
proof (induction xs arbitrary: s n)
  case (Cons y ys)
  obtain t r where t: "f y s = (t, r)" by force
  with Cons.prems(1) obtain m where m: "r = Inr m" by (cases r) simp_all
  with Cons.prems(1) t obtain k where k: "count_loop f ys t = (s', Inr k)" by (auto split: prod.splits)
  show ?case
  proof (cases "x = y")
    case True
    then show ?thesis using t m count_loop_frame[of ys f t] assms(3) k by (metis fst_conv)
  next
    case False
    then show ?thesis using Cons.IH[OF k] Cons.prems(2) by simp
  qed
qed simp

text \<open>What is on record for a contract: a P&L snapshot of the day, or the flag of its missing price.\<close>

definition on_record :: "db \<Rightarrow> uuid \<Rightarrow> date \<Rightarrow> uuid \<Rightarrow> bool" where
  "on_record s rid d cid \<longleftrightarrow>
     (\<exists>p \<in> set (pl_snapshots s). ps_entity_type p = ''hedge_contract'' \<and> ps_entity_id p = cid \<and> ps_period_start p = d \<and> ps_period_end p = d)
     \<or> (\<exists>f \<in> set (risk_flags s). rk_run_id f = rid \<and> rk_flag_type f = RF_missing_mtm_price \<and> rk_subject_entity_id f = Some cid)"

lemma on_record_mono: "set (pl_snapshots s) \<subseteq> set (pl_snapshots t) \<Longrightarrow> set (risk_flags s) \<subseteq> set (risk_flags t)
    \<Longrightarrow> on_record s rid d cid \<Longrightarrow> on_record t rid d cid"
  by (auto simp: on_record_def)

lemma flag_on_record: "on_record (fst (emit_risk_flag now rid RF_missing_mtm_price v et (Some cid) p s)) rid d cid"
  by (auto simp: emit_risk_flag_def on_record_def split: option.split dest: find_SomeD)

lemma step_pl_snapshot_records:
  assumes "step_pl_snapshot env s now d run = (s', Inr n)" and "c \<in> set (active_contracts s)"
  shows "on_record s' (pr_id run) d (hc_id c)"
proof -
  let ?f = "\<lambda>contract s. case create_pl_snapshot (pe_fingerprint env) (pe_col env) s now ''hedge_contract'' (hc_id contract) d d of
         Inr (s', _) \<Rightarrow> (s', Inr 1) | Inl e \<Rightarrow> flag_missing_price env now run contract e s"
  have fr: "step_frame u (fst (?f x u))" for x u
    by (auto simp: flag_missing_price_frame dest: create_pl_snapshot_frame split: sum.split)
  obtain s1 s2 m where v: "?f c s1 = (s2, Inr m)" "step_frame s2 s'"
    using count_loop_visits[OF assms(1)[unfolded step_pl_snapshot_def] assms(2) fr] by blast
  have "on_record s2 (pr_id run) d (hc_id c)"
  proof (cases "create_pl_snapshot (pe_fingerprint env) (pe_col env) s1 now ''hedge_contract'' (hc_id c) d d")
    case (Inr p)
    obtain t x where p: "p = (t, x)" by force
    then have "pl_key x = (''hedge_contract'', hc_id c, d, d)" "x \<in> set (pl_snapshots t)"
      using pl_store.create_key[where a = "(now, ''hedge_contract'', hc_id c, d, d)"] create_pl_snapshot_frame Inr by (auto simp: pl_service_def)
    then show ?thesis using v(1) Inr p by (auto simp: on_record_def pl_key_def)
  next
    case (Inl e)
    then show ?thesis using v(1) flag_on_record by (cases e) (auto simp: flag_missing_price_def)
  qed
  then show ?thesis using v(2) on_record_mono unfolding step_frame_def by blast
qed

text \<open>C14: A completed first run of a day leaves no contract out: every contract that was active and not
  archived when it started has a P&L snapshot of that day, or the run carries a flag that its price
  was missing.\<close>

theorem pipeline_covers_contracts:
  assumes "run_daily_pipeline env s now d tr a None = (s', Run_returned i)" and "run_status s' i = Some PRS_completed"
    and "pipeline_inv s" and "d \<notin> pr_run_date ` set (pipeline_runs s)"
    and "c \<in> set (contracts s)" and "hc_status c = HS_active" and "hc_deleted_at c = None"
  shows "on_record s' i d (hc_id c)"
proof -
  let ?r = "new_run env s now d tr"
  let ?s = "add_run ?r tr a s"
  have "find (\<lambda>r. pr_run_date r = d) (pipeline_runs s) = None" using assms(4) by (auto simp: find_None_iff)
  then have i: "i = pr_id ?r" and s': "s' = drive_run env now ?r tr a ?s"
    using assms(1) by (auto simp: run_daily_pipeline_def Let_def split: if_splits)
  obtain t failed where t: "run_steps env now ?r tr a (steps_of_run ?s (pr_id ?r)) ?s = (t, failed)" by force
  have "\<not> failed"
  proof
    assume f: "failed"
    have "pr_id ?r \<in> pr_id ` set (pipeline_runs ?s)" by (simp add: add_run_def Let_def)
    then have "run_status t (pr_id ?r) = Some PRS_partial" using run_steps_failed t f by simp
    then show False using assms(2) s' t f by (simp add: drive_run_def i)
  qed
  then have t: "run_steps env now ?r tr a (steps_of_run ?s (pr_id ?r)) ?s = (t, False)" and fin: "s' = finish_run now ?r tr a t"
    using t s' by (simp_all add: drive_run_def)
  have inv: "open_inv (pr_id ?r) ?s" by (rule add_run_driven(2)[OF assms(3) refl assms(4)])
  obtain x where x: "x \<in> set (steps_of_run ?s (pr_id ?r))" "fs_step_name x = ''pl_snapshot''"
  proof -
    have "''pl_snapshot'' \<in> set (map fs_step_name (steps_of_run ?s (pr_id ?r)))" using inv by (simp add: open_inv_def PIPELINE_STEPS_def)
    then show ?thesis using that by auto
  qed
  have "fs_status x = PSS_pending"
    using x(1) unfolding add_run_steps[OF assms(3) refl] by (auto simp: new_step_def)
  then obtain s1 s2 n where *: "loop_frame (pr_id ?r) ?s s1" "execute_step env s1 now ''pl_snapshot'' d ?r = (s2, Inr n)"
    "loop_frame (pr_id ?r) s2 t" using run_steps_executes[OF t x(1)] x(2) by (auto simp: new_run_def)
  have "contracts s1 = contracts s" using *(1) by (simp add: loop_frame_def add_run_def Let_def)
  then have "c \<in> set (active_contracts s1)" using assms(5-7) by (simp add: active_contracts_def)
  then have "on_record s2 (pr_id ?r) d (hc_id c)" using step_pl_snapshot_records *(2) by (simp add: execute_step_def)
  then have "on_record t (pr_id ?r) d (hc_id c)" using *(3) on_record_mono unfolding loop_frame_def by blast
  then show ?thesis unfolding fin i by (simp add: on_record_def finish_run_def)
qed

end
