(* ===== verification/Pipeline_Examples.thy ===== *)
theory Pipeline_Examples
  imports Pipeline_Runs
begin

text \<open>
  The properties of Pipeline_Runs on a database with one hedge of copper and no prices: the hedge is
  flagged and the run of the day completes.
\<close>

definition sample_env :: pipeline_env where
  "sample_env = \<lparr>pe_fingerprint = sample_fingerprint, pe_col = quantize_money, pe_lock_timeout_seconds = 1800,
     pe_guardrail_tonnes = 0, pe_show_error = (\<lambda>_. ''error''), pe_show_detail = (\<lambda>_. ''no price'')\<rparr>"

definition first_run :: "db \<times> pipeline_outcome" where
  "first_run = run_daily_pipeline sample_env sample_db 0 (Date 2026 3 11) PTS_manual ''ana'' None"

text \<open>The tables the handlers read do not change, and on them every handler succeeds.\<close>

definition unpriced :: "db \<Rightarrow> bool" where
  "unpriced s \<longleftrightarrow> contracts s = [sample_contract 1 HC_short 60] \<and> orders s = orders sample_db \<and> prices s = [] \<and> ledger_entries s = []
     \<and> counterparties s = [] \<and> exposures s = [] \<and> approvals s = []"

lemma unpriced_parts [simp]:
  "unpriced (pipeline_audit_event r et ent i tr a st ps n e f s) = unpriced s"
  "unpriced (write_step i g s) = unpriced s" "unpriced (write_run i h s) = unpriced s"
  "unpriced (fst (emit_risk_flag now rid t v et' ei p s)) = unpriced s"
  by (auto simp: unpriced_def pipeline_audit_event_def record_worker_event_def write_step_def write_run_def emit_risk_flag_def
      split: option.split)

lemma copper_missing:
  assumes "prices s = []"
  shows "\<exists>m. get_cash_settlement_price_d1_with_provenance s ''LME_CU_CASH_SETTLEMENT_DAILY'' (Date 2026 3 11) = Inl (PriceReferenceUnprovable m)"
proof -
  have "canonical_source_for_symbol ''LME_CU_CASH_SETTLEMENT_DAILY'' = Inr ''westmetall''"
    by (simp add: canonical_source_for_symbol_def CANONICAL_SOURCE_BY_SYMBOL_def)
  then show ?thesis by (simp add: get_cash_settlement_price_d1_with_provenance_def copper_prior_day assms)
qed

lemma unpriced_mtm:
  assumes "unpriced s"
  shows "\<exists>m. compute_mtm_for_contract s 1 (Date 2026 3 11) = Inl (PriceProvenanceMissing m)"
proof -
  obtain m where "get_cash_settlement_price_d1_with_provenance s ''LME_CU_CASH_SETTLEMENT_DAILY'' (Date 2026 3 11) = Inl (PriceReferenceUnprovable m)"
    using copper_missing assms by (auto simp: unpriced_def)
  moreover have "get_contract s 1 = Some (sample_contract 1 HC_short 60)"
    using assms by (simp add: unpriced_def get_contract_def sample_contract_def)
  ultimately show ?thesis
    by (simp add: compute_mtm_for_contract_def sample_contract_def hedge_open_def copper_symbol unprovable_to_missing_def)
qed

lemma unpriced_active: "unpriced s \<Longrightarrow> active_contracts s = [sample_contract 1 HC_short 60]"
  by (simp add: active_contracts_def unpriced_def sample_contract_def)

lemma sample_contract_id: "hc_id (sample_contract i cls q) = i"
  by (simp add: sample_contract_def)

lemma unpriced_pl:
  assumes "unpriced s"
  shows "\<exists>m. create_pl_snapshot k col s now ''hedge_contract'' 1 (Date 2026 3 11) (Date 2026 3 11) = Inl (PriceProvenanceMissing m)"
proof -
  obtain m where "compute_mtm_for_contract s 1 (Date 2026 3 11) = Inl (PriceProvenanceMissing m)" using unpriced_mtm[OF assms] by blast
  moreover have "get_contract s 1 = Some (sample_contract 1 HC_short 60)"
    using assms by (simp add: unpriced_def get_contract_def sample_contract_def)
  ultimately show ?thesis
    using assms by (simp add: create_pl_snapshot_def compute_pl_def period_entries_def unpriced_def compute_unrealized_mtm_for_contract_def
        sample_contract_def hedge_open_def del: One_nat_def)
qed

lemma unpriced_steps:
  assumes "unpriced s" and "n \<in> set PIPELINE_STEPS"
  shows "\<exists>s' k. execute_step sample_env s now n (Date 2026 3 11) run = (s', Inr k) \<and> unpriced s'"
proof -
  have id: "hc_id (sample_contract 1 HC_short 60) = 1" by (rule sample_contract_id)
  obtain m where mtm: "compute_mtm_for_contract s 1 (Date 2026 3 11) = Inl (PriceProvenanceMissing m)" using unpriced_mtm[OF assms(1)] by blast
  obtain m' where pl: "create_pl_snapshot (pe_fingerprint sample_env) (pe_col sample_env) s now ''hedge_contract'' 1 (Date 2026 3 11) (Date 2026 3 11)
    = Inl (PriceProvenanceMissing m')" using unpriced_pl[OF assms(1)] by blast
  obtain m'' where quote: "get_cash_settlement_price_d1_with_provenance s ''LME_CU_CASH_SETTLEMENT_DAILY'' (Date 2026 3 11) = Inl (PriceReferenceUnprovable m'')"
    using copper_missing assms(1) by (auto simp: unpriced_def)
  have live: "filter hedge_live (contracts s) = [sample_contract 1 HC_short 60]"
    using assms(1) by (simp add: unpriced_def hedge_live_def hedge_open_def sample_contract_def)
  have "create_cashflow_baseline_snapshot k col s now (Date 2026 3 11) c = Inl (PriceProvenanceMissing m)" for k col c
    by (simp add: create_cashflow_baseline_snapshot_def baseline_payload_of_def build_unrealized_items_def live id mtm Let_def del: One_nat_def)
  then have "\<exists>s' k. step_cashflow_baseline sample_env s now (Date 2026 3 11) run = (s', Inr k) \<and> unpriced s'"
    using assms(1) by (simp add: step_cashflow_baseline_def)
  moreover have "\<exists>s' k. step_mtm_computation sample_env s now (Date 2026 3 11) run = (s', Inr k) \<and> unpriced s'"
    using assms(1) by (simp add: step_mtm_computation_def unpriced_active id mtm flag_missing_price_def del: One_nat_def)
  moreover have "\<exists>s' k. step_pl_snapshot sample_env s now (Date 2026 3 11) run = (s', Inr k) \<and> unpriced s'"
    using assms(1) by (simp add: step_pl_snapshot_def unpriced_active id pl flag_missing_price_def del: One_nat_def)
  moreover have "\<exists>s' k. step_risk_flags sample_env s now (Date 2026 3 11) run = (s', Inr k) \<and> unpriced s'"
  proof -
    have "query_missing_mtm_prices s (Date 2026 3 11) = Inr [(sample_contract 1 HC_short 60, PriceReferenceUnprovable m'')]"
      using assms(1) quote copper_symbol by (simp add: query_missing_mtm_prices_def unpriced_active) (simp add: sample_contract_def)
    moreover have "query_kyc_regressions_with_active_deals s = []" "query_unhedged_exposures_over_guardrail sample_env s = []"
      "query_pending_workflow_approvals_past_expiry s now = []"
      using assms(1) by (simp_all add: query_kyc_regressions_with_active_deals_def query_unhedged_exposures_over_guardrail_def
          query_pending_workflow_approvals_past_expiry_def unpriced_def)
    ultimately show ?thesis using assms(1) by (simp add: step_risk_flags_def count_flag_def)
  qed
  ultimately show ?thesis
    using assms by (auto simp: execute_step_def PIPELINE_STEPS_def step_market_snapshot_def step_summary_def)
qed

lemma unpriced_run:
  assumes "unpriced s" and "pr_run_date run = Date 2026 3 11" and "\<forall>x \<in> set steps. fs_step_name x \<in> set PIPELINE_STEPS"
  shows "\<not> snd (run_steps sample_env now run tr a steps s)"
  using assms(1,3)
proof (induction steps arbitrary: s)
  case (Cons x xs)
  show ?case
  proof (cases "fs_status x = PSS_completed")
    case False
    have "unpriced (start_step now run tr a x s)" using Cons.prems(1) by (simp add: start_step_def)
    then obtain s1 k where e: "execute_step sample_env (start_step now run tr a x s) now (fs_step_name x) (Date 2026 3 11) run = (s1, Inr k)"
      and u: "unpriced s1" using unpriced_steps Cons.prems(2) by force
    have "unpriced (complete_step now run tr a x k s1)" using u by (simp add: complete_step_def Let_def)
    then show ?thesis using Cons False e assms(2) by simp
  qed (use Cons in simp)
qed simp

lemma sample_day_open: "is_business_day lme_calendar (Date 2026 3 11)"
proof -
  have "days_before_month 2026 3 = 59" unfolding numeral_3_eq_3 by (simp add: days_in_month_def is_leap_def)
  then have "weekday (Date 2026 3 11) = 2" by (simp add: weekday_def days_before_year_def)
  moreover have "isoformat (Date 2026 3 11) \<notin> set LME_HOLIDAYS" by code_simp
  ultimately show ?thesis by (simp add: is_business_day_def lme_calendar_def)
qed

lemma sample_no_pipeline: "no_pipeline sample_db" "pipeline_inv sample_db" "unpriced sample_db"
proof -
  show n: "no_pipeline sample_db" by (simp add: no_pipeline_def sample_db_def empty_db_def completions_def fun_eq_iff)
  show "pipeline_inv sample_db" by (rule pipeline_run_inv[OF n rtranclp.rtrancl_refl])
  show "unpriced sample_db" by (simp_all add: sample_db_def empty_db_def unpriced_def)
qed

lemma first_run_completes:
  "\<exists>s. first_run = (s, Run_returned 2) \<and> run_status s 2 = Some PRS_completed \<and> pipeline_world\<^sup>*\<^sup>* sample_db s"
proof -
  let ?r = "new_run sample_env sample_db 0 (Date 2026 3 11) PTS_manual"
  let ?s = "add_run ?r PTS_manual ''ana'' sample_db"
  have id: "pr_id ?r = 2" "pr_run_date ?r = Date 2026 3 11" by (simp_all add: new_run_def sample_db_def)
  have runs: "pipeline_runs sample_db = []" by (simp add: sample_db_def empty_db_def)
  obtain t failed where t: "run_steps sample_env 0 ?r PTS_manual ''ana'' (steps_of_run ?s (pr_id ?r)) ?s = (t, failed)" by force
  have "unpriced ?s" using sample_no_pipeline(3) by (simp add: add_run_def Let_def unpriced_def pipeline_audit_event_def record_worker_event_def)
  moreover have "\<forall>x \<in> set (steps_of_run ?s (pr_id ?r)). fs_step_name x \<in> set PIPELINE_STEPS"
    unfolding add_run_steps[OF sample_no_pipeline(2) refl] by (simp add: new_step_def length_PIPELINE_STEPS)
  ultimately have "\<not> failed" using unpriced_run id(2) t by (metis snd_conv)
  then have fin: "drive_run sample_env 0 ?r PTS_manual ''ana'' ?s = finish_run 0 ?r PTS_manual ''ana'' t" using t by (simp add: drive_run_def)
  have "loop_frame 2 ?s t" using run_steps_frame[of ?r ?s sample_env 0 PTS_manual "''ana''" "steps_of_run ?s (pr_id ?r)"] t id by simp
  then have "map fst (map (\<lambda>r. (pr_id r, pr_run_date r)) (pipeline_runs t)) = map fst (map (\<lambda>r. (pr_id r, pr_run_date r)) (pipeline_runs ?s))"
    by (simp only: loop_frame_def)
  then have "map pr_id (pipeline_runs t) = [2]" by (simp add: comp_def add_run_def Let_def runs id)
  then obtain row where "pipeline_runs t = [row]" "pr_id row = 2" by (cases "pipeline_runs t") auto
  then have "run_status (finish_run 0 ?r PTS_manual ''ana'' t) 2 = Some PRS_completed" by (simp add: run_status_def finish_run_def id)
  moreover have run: "first_run = (finish_run 0 ?r PTS_manual ''ana'' t, Run_returned 2)"
    by (simp add: first_run_def run_daily_pipeline_def sample_day_open runs Let_def id fin)
  moreover have "pipeline_world sample_db (finish_run 0 ?r PTS_manual ''ana'' t)"
    using run unfolding pipeline_world_def first_run_def by blast
  ultimately show ?thesis by blast
qed

theorem pipeline_run_shape_witness:
  "\<exists>s r. first_run = (s, Run_returned 2) \<and> r \<in> set (pipeline_runs s) \<and> pr_steps_completed r = 6
     \<and> statuses s (pr_id r) = replicate 6 PSS_completed"
proof -
  obtain s where s: "first_run = (s, Run_returned 2)" "run_status s 2 = Some PRS_completed" "pipeline_world\<^sup>*\<^sup>* sample_db s"
    using first_run_completes by blast
  then obtain r where r: "r \<in> set (pipeline_runs s)" "pr_status r = PRS_completed" by (auto simp: run_status_def dest: get_row_SomeD)
  from pipeline_run_shape[OF sample_no_pipeline(1) s(3) r(1), of sample_env 0] obtain k where k: "k \<le> 6"
    "statuses s (pr_id r) = replicate k PSS_completed @ (if k < 6 then PSS_failed # replicate (5 - k) PSS_pending else [])"
    "pr_steps_completed r = k" "pr_status r = (if k = 6 then PRS_completed else PRS_partial)" by blast
  then have "k = 6" using r(2) by (simp split: if_splits)
  with k s(1) r(1) show ?thesis by (intro exI[of _ s] exI[of _ r]) simp
qed

theorem pipeline_step_once_witness:
  "\<exists>s r. first_run = (s, Run_returned 2) \<and> completions s 4 \<le> 1 \<and> r \<in> set (pipeline_runs s) \<and> pr_status r = PRS_completed
     \<and> run_daily_pipeline sample_env s 5 (pr_run_date r) PTS_scheduler ''service'' None = (s, Run_returned (pr_id r))"
proof -
  obtain s where s: "first_run = (s, Run_returned 2)" "run_status s 2 = Some PRS_completed" "pipeline_world\<^sup>*\<^sup>* sample_db s"
    using first_run_completes by blast
  then obtain r where r: "r \<in> set (pipeline_runs s)" "pr_status r = PRS_completed" by (auto simp: run_status_def dest: get_row_SomeD)
  note once = pipeline_step_once[OF sample_no_pipeline(1) s(3), of 4 sample_env 5 PTS_scheduler "''service''" None]
  from once have "completions s 4 \<le> 1" by (simp split: if_splits)
  moreover from once r have "run_daily_pipeline sample_env s 5 (pr_run_date r) PTS_scheduler ''service'' None = (s, Run_returned (pr_id r))"
    by (metis prod.collapse)
  ultimately show ?thesis using s(1) r by blast
qed

theorem pipeline_covers_contracts_witness:
  "\<exists>s. first_run = (s, Run_returned 2) \<and> on_record s 2 (Date 2026 3 11) 1"
proof -
  obtain s where s: "first_run = (s, Run_returned 2)" "run_status s 2 = Some PRS_completed" using first_run_completes by blast
  have "on_record s 2 (Date 2026 3 11) (hc_id (sample_contract 1 HC_short 60))"
    by (rule pipeline_covers_contracts[OF s(1)[unfolded first_run_def] s(2) sample_no_pipeline(2)])
      (simp_all add: sample_db_def empty_db_def, simp_all add: sample_contract_def)
  then show ?thesis using s(1) unfolding sample_contract_id by blast
qed

text \<open>A missing price of a hedge is flagged and skipped, that of an order fails the baseline step: the run
  of the day stays partial and its risk step is not reached. The order service raises another
  exception for the same condition.\<close>

lemma unpriced_order_stops_baseline:
  assumes "orders s = [(sample_order 0 OT_sales PT_variable 100)\<lparr>ord_pricing_convention := Some OPC_avg, ord_avg_entry_price := Some 9000\<rparr>]"
    and "contracts s = []" and "prices s = []"
  shows "\<exists>e. step_cashflow_baseline env s now (Date 2026 3 11) run = (s, Inl e)"
proof -
  obtain m where q: "get_cash_settlement_price_d1_with_provenance s ''LME_CU_CASH_SETTLEMENT_DAILY'' (Date 2026 3 11) = Inl (PriceReferenceUnprovable m)"
    using copper_missing[OF assms(3)] by blast
  have "compute_mtm_for_order s 0 (Date 2026 3 11) = Inl (HTTPException HTTP_424 m)"
    by (simp add: compute_mtm_for_order_def get_order_def assms(1)) (simp add: sample_order_def copper_symbol q unprovable_to_424_def)
  then have "build_unrealized_items s (Date 2026 3 11) = Inl (HTTPException HTTP_424 m)"
    unfolding build_unrealized_items_def Let_def assms
    by (simp add: mtm_eligible_order_def) (simp add: sample_order_def)
  then show ?thesis
    by (simp add: step_cashflow_baseline_def create_cashflow_baseline_snapshot_def baseline_payload_of_def Let_def)
qed

end
