(* ===== verification/Net_Exposure.thy ===== *)
theory Net_Exposure
  imports Exposure_Service "HOL-Library.Multiset"
begin

text \<open>
  \<open>compute_net_exposure\<close> of \<open>backend/app/services/exposure_engine.py\<close>: the net position by commodity
  from the exposure table and the hedges, and its agreement with the global exposure, which is
  computed from the orders. SQL leaves the order of the groups open; here they come in the order
  of their last row.
\<close>

section \<open>Groups\<close>

record net_item =
  ni_long_tons :: decimal
  ni_short_tons :: decimal
  ni_long_original :: decimal
  ni_short_original :: decimal
  ni_long_hedged :: decimal
  ni_short_hedged :: decimal

definition zero_net :: net_item where
  "zero_net = \<lparr>ni_long_tons = 0, ni_short_tons = 0, ni_long_original = 0, ni_short_original = 0, ni_long_hedged = 0, ni_short_hedged = 0\<rparr>"

record NetExposure =
  nx_commodity :: string
  nx_item :: net_item
  nx_net_tons :: decimal

definition group_name :: "string \<Rightarrow> string" where
  "group_name c = (if c = '''' then c else canonical_commodity c)"

definition commodity_filter :: "string option \<Rightarrow> string \<Rightarrow> bool" where
  "commodity_filter commodity c = (case commodity of None \<Rightarrow> True | Some x \<Rightarrow> x = '''' \<or> c \<in> commodity_aliases x)"

text \<open>\<open>GROUP BY\<close> with the sums of a column over each group.\<close>

definition group_sums :: "('r \<Rightarrow> 'k) \<Rightarrow> ('r \<Rightarrow> decimal) \<Rightarrow> 'r list \<Rightarrow> ('k \<times> decimal) list" where
  "group_sums key col rows = map (\<lambda>k. (k, sum_where (\<lambda>r. key r = k) col rows)) (remdups (map key rows))"

definition commercial_rows :: "db \<Rightarrow> string option \<Rightarrow> Exposure list" where
  "commercial_rows s commodity = filter (\<lambda>e. \<not> exp_is_deleted e \<and> exp_status e \<in> {ES_open, ES_partially_hedged}
     \<and> exp_source_type e \<in> {EST_sales_order, EST_purchase_order} \<and> joined order_live (get_order s (exp_source_id e))
     \<and> commodity_filter commodity (exp_commodity e)) (exposures s)"

definition commercial_groups :: "db \<Rightarrow> string option \<Rightarrow> ((string \<times> ExposureDirection) \<times> decimal \<times> decimal) list" where
  "commercial_groups s commodity =
     (let rows = commercial_rows s commodity; key = (\<lambda>e. (exp_commodity e, exp_direction e))
      in map (\<lambda>k. (k, sum_where (\<lambda>e. key e = k) exp_open_tons rows, sum_where (\<lambda>e. key e = k) exp_original_tons rows))
           (remdups (map key rows)))"

definition add_commercial_group :: "(string \<times> ExposureDirection) \<times> decimal \<times> decimal \<Rightarrow> net_item \<Rightarrow> net_item" where
  "add_commercial_group g item =
     (let ((c, d), total_open, total_original) = g; open_val = quantize_mt total_open;
          original_val = quantize_mt total_original; hedged_val = quantize_mt (original_val - open_val)
      in if d = ED_long then item\<lparr>ni_long_original := ni_long_original item + original_val, ni_long_hedged := ni_long_hedged item + hedged_val\<rparr>
         else item\<lparr>ni_short_original := ni_short_original item + original_val, ni_short_hedged := ni_short_hedged item + hedged_val\<rparr>)"

text \<open>The unlinked residual of each live hedge, whatever the linkages to archived orders;
  \<open>contract_linked_qty\<close> is the sum of the subquery.\<close>

definition hedge_groups :: "db \<Rightarrow> string option \<Rightarrow> ((string \<times> HedgeClassification) \<times> decimal) list" where
  "hedge_groups s commodity = group_sums (\<lambda>c. (hc_commodity c, hc_classification c))
     (\<lambda>c. hc_quantity_mt c - contract_linked_qty s (hc_id c))
     (filter (\<lambda>c. hedge_live c \<and> commodity_filter commodity (hc_commodity c)) (contracts s))"

definition add_hedge_group :: "(string \<times> HedgeClassification) \<times> decimal \<Rightarrow> net_item \<Rightarrow> net_item" where
  "add_hedge_group g item =
     (let ((c, k), total_qty) = g; qty = quantize_mt total_qty
      in if k = HC_long then item\<lparr>ni_long_tons := ni_long_tons item + qty\<rparr> else item\<lparr>ni_short_tons := ni_short_tons item + qty\<rparr>)"

definition net_row :: "string \<times> net_item \<Rightarrow> NetExposure" where
  "net_row kv =
     (let (c, v) = kv; so_open = ni_short_original v - ni_short_hedged v; po_open = ni_long_original v - ni_long_hedged v
      in \<lparr>nx_commodity = c, nx_item = v, nx_net_tons = quantize_mt ((so_open - po_open) + ni_short_tons v - ni_long_tons v)\<rparr>)"

definition compute_net_exposure :: "db \<Rightarrow> string option \<Rightarrow> NetExposure list" where
  "compute_net_exposure s commodity =
     (let agg1 = group_fold (\<lambda>g. group_name (fst (fst g))) add_commercial_group zero_net (commercial_groups s commodity) [];
          agg = group_fold (\<lambda>g. group_name (fst (fst g))) add_hedge_group zero_net
                  (filter (\<lambda>g. quantize_mt (snd g) \<noteq> 0) (hedge_groups s commodity)) agg1
      in map net_row agg)"

section \<open>A row is a signed sum\<close>

definition net_of_item :: "net_item \<Rightarrow> decimal" where
  "net_of_item v = (ni_short_original v - ni_short_hedged v) - (ni_long_original v - ni_long_hedged v) + ni_short_tons v - ni_long_tons v"

abbreviation side_sign :: "bool \<Rightarrow> decimal" where "side_sign is_long \<equiv> (if is_long then - 1 else 1)"

lemma net_add_commercial:
  "net_of_item (add_commercial_group g v) = net_of_item v + side_sign (snd (fst g) = ED_long) * quantize_mt (fst (snd g))"
  by (cases g) (auto simp: add_commercial_group_def Let_def net_of_item_def)

lemma net_add_hedge:
  "net_of_item (add_hedge_group g v) = net_of_item v + side_sign (snd (fst g) = HC_long) * quantize_mt (snd g)"
  by (cases g) (auto simp: add_hedge_group_def Let_def net_of_item_def)

text \<open>What two loops over a dictionary leave under a key, for a measure that each turn adds to.\<close>

lemma additive_fold:
  fixes m :: "'v \<Rightarrow> rat"
  assumes "\<And>x v. m (f x v) = m v + a x"
  shows "m (fold f xs v) = m v + sum_list (map a xs)"
  by (induction xs arbitrary: v) (simp_all add: assms)

lemma absent_filter: "c \<notin> key ` set xs \<Longrightarrow> filter (\<lambda>x. key x = c) xs = []"
  by (auto simp: filter_empty_conv)

lemma additive_groups:
  fixes m :: "'v \<Rightarrow> rat"
  assumes f: "\<And>x v. m (f x v) = m v + a x" and g: "\<And>y v. m (g y v) = m v + b y" and z: "m zero = 0"
  shows "(case map_of (group_fold ky g zero ys (group_fold kx f zero xs [])) c of None \<Rightarrow> 0 | Some v \<Rightarrow> m v)
    = sum_list (map a (filter (\<lambda>x. kx x = c) xs)) + sum_list (map b (filter (\<lambda>y. ky y = c) ys))"
proof -
  define agg where "agg = group_fold kx f zero xs []"
  have first: "m (case map_of agg c of None \<Rightarrow> zero | Some v \<Rightarrow> v) = sum_list (map a (filter (\<lambda>x. kx x = c) xs))"
    using z by (cases "c \<in> kx ` set xs") (auto simp: agg_def map_of_group_fold additive_fold[where m = m and f = f and a = a, OF f] absent_filter)
  show ?thesis
  proof (cases "c \<in> ky ` set ys \<or> map_of agg c \<noteq> None")
    case True
    then show ?thesis using first unfolding agg_def[symmetric] by (simp add: map_of_group_fold additive_fold[where m = m and f = g and a = b, OF g])
  next
    case False
    then show ?thesis using first z unfolding agg_def[symmetric] by (simp add: map_of_group_fold absent_filter)
  qed
qed

text \<open>A sum over groups is the sum over their rows.\<close>

lemma sum_list_delta:
  assumes "distinct ks" and "k \<in> set ks"
  shows "sum_list (map (\<lambda>j. if j = k then a j else (0 :: rat)) ks) = a k"
  using assms by (simp add: sum_list_distinct_conv_sum_set)

lemma sum_groups:
  assumes "distinct ks" and "key ` set rows \<subseteq> set ks"
  shows "sum_list (map (\<lambda>k. if p k then w k * sum_where (\<lambda>r. key r = k) col rows else 0) ks)
    = sum_list (map (\<lambda>r. if p (key r) then w (key r) * col r else (0 :: rat)) rows)"
  using assms(2)
proof (induction rows)
  case Nil
  have "(\<lambda>k. if p k then w k * sum_where (\<lambda>r. key r = k) col [] else 0) = (\<lambda>_. 0)" by auto
  then show ?case by simp
next
  case (Cons r rows)
  have eq: "(if p k then w k * sum_where (\<lambda>x. key x = k) col (r # rows) else 0)
      = (if k = key r then if p k then w k * col r else 0 else 0) + (if p k then w k * sum_where (\<lambda>r. key r = k) col rows else 0)" for k
    by (auto simp: distrib_left)
  show ?case
    unfolding eq sum_list_addf using Cons by (simp add: sum_list_delta[OF assms(1)])
qed

lemma sum_list_filter_if: "sum_list (map f (filter p xs)) = sum_list (map (\<lambda>x. if p x then f x else (0 :: rat)) xs)"
  by (induction xs) auto

section \<open>The net position of a commodity\<close>

definition net_tons :: "NetExposure list \<Rightarrow> string \<Rightarrow> decimal" where
  "net_tons rows c = (case find (\<lambda>n. nx_commodity n = c) rows of None \<Rightarrow> 0 | Some n \<Rightarrow> nx_net_tons n)"

definition open_position :: "db \<Rightarrow> string \<Rightarrow> decimal" where
  "open_position s c = sum_list (map (\<lambda>e. if group_name (exp_commodity e) = c
     then side_sign (exp_direction e = ED_long) * exp_open_tons e else 0) (commercial_rows s None))"

definition hedge_position :: "db \<Rightarrow> string \<Rightarrow> decimal" where
  "hedge_position s c = sum_list (map (\<lambda>h. if group_name (hc_commodity h) = c
     then side_sign (hc_classification h = HC_long) * (hc_quantity_mt h - contract_linked_qty s (hc_id h)) else 0)
     (filter hedge_live (contracts s)))"

text \<open>Quantities as the columns keep them, with three decimals.\<close>

definition tons_on_grid :: "db \<Rightarrow> bool" where
  "tons_on_grid s \<longleftrightarrow> (\<forall>e \<in> set (exposures s). quantize_mt (exp_open_tons e) = exp_open_tons e)
     \<and> (\<forall>c \<in> set (contracts s). quantize_mt (hc_quantity_mt c) = hc_quantity_mt c)
     \<and> (\<forall>r \<in> set (orders s). quantize_mt (ord_quantity_mt r) = ord_quantity_mt r)
     \<and> (\<forall>l \<in> set (linkages s). quantize_mt (lk_quantity_mt l) = lk_quantity_mt l)"

lemma contract_linked_grid: "tons_on_grid s \<Longrightarrow> quantize_mt (contract_linked_qty s i) = contract_linked_qty s i"
  unfolding contract_linked_qty_def by (rule mt.q_sum_where) (simp add: tons_on_grid_def)

lemma residual_grid:
  assumes "tons_on_grid s" and "c \<in> set (contracts s)"
  shows "quantize_mt (hc_quantity_mt c - contract_linked_qty s (hc_id c)) = hc_quantity_mt c - contract_linked_qty s (hc_id c)"
proof -
  have "quantize_mt (hc_quantity_mt c) = hc_quantity_mt c" using assms by (simp add: tons_on_grid_def)
  then show ?thesis using contract_linked_grid[OF assms(1)] mt.q_diff by metis
qed

lemma commercial_groups_sum:
  assumes "tons_on_grid s"
  shows "sum_list (map (\<lambda>g. if group_name (fst (fst g)) = c then side_sign (snd (fst g) = ED_long) * quantize_mt (fst (snd g)) else 0)
      (commercial_groups s None)) = open_position s c"
proof -
  let ?rows = "commercial_rows s None" and ?key = "\<lambda>e. (exp_commodity e, exp_direction e)"
  have grid: "quantize_mt (sum_where p exp_open_tons ?rows) = sum_where p exp_open_tons ?rows" for p
    by (rule mt.q_sum_where) (use assms in \<open>auto simp: tons_on_grid_def commercial_rows_def\<close>)
  have "sum_list (map (\<lambda>k. if group_name (fst k) = c then side_sign (snd k = ED_long) * sum_where (\<lambda>e. ?key e = k) exp_open_tons ?rows else 0)
      (remdups (map ?key ?rows))) = open_position s c"
    unfolding open_position_def by (subst sum_groups) (auto simp: image_iff cong: if_cong)
  then show ?thesis by (simp add: commercial_groups_def Let_def comp_def grid cong: if_cong)
qed

lemma hedge_groups_sum:
  assumes "tons_on_grid s"
  shows "sum_list (map (\<lambda>g. if group_name (fst (fst g)) = c then side_sign (snd (fst g) = HC_long) * quantize_mt (snd g) else 0)
      (hedge_groups s None)) = hedge_position s c"
proof -
  let ?rows = "filter (\<lambda>h. hedge_live h \<and> commodity_filter None (hc_commodity h)) (contracts s)"
    and ?key = "\<lambda>h. (hc_commodity h, hc_classification h)" and ?col = "\<lambda>h. hc_quantity_mt h - contract_linked_qty s (hc_id h)"
  have rows: "?rows = filter hedge_live (contracts s)" by (simp add: commodity_filter_def)
  have grid: "quantize_mt (sum_where p ?col (filter hedge_live (contracts s))) = sum_where p ?col (filter hedge_live (contracts s))" for p
    by (rule mt.q_sum_where) (use residual_grid[OF assms] in auto)
  have "sum_list (map (\<lambda>k. if group_name (fst k) = c then side_sign (snd k = HC_long) * sum_where (\<lambda>h. ?key h = k) ?col (filter hedge_live (contracts s)) else 0)
      (remdups (map ?key (filter hedge_live (contracts s))))) = hedge_position s c"
    unfolding hedge_position_def by (subst sum_groups) (auto simp: image_iff cong: if_cong)
  then show ?thesis by (simp add: hedge_groups_def group_sums_def comp_def grid rows cong: if_cong)
qed

lemma find_row_of_key:
  assumes "distinct (map fst kvs)" and "\<And>kv. key (f kv) = fst kv"
  shows "find (\<lambda>n. key n = c) (map f kvs) = map_option (\<lambda>v. f (c, v)) (map_of kvs c)"
  using assms(1) by (induction kvs) (auto simp: assms(2))

lemma grid_sum: "(\<And>x. x \<in> set xs \<Longrightarrow> quantize_mt (f x) = f x) \<Longrightarrow> quantize_mt (sum_list (map f xs)) = sum_list (map f xs)"
  by (induction xs) (auto intro: mt.q_add_fixed)

lemma grid_uminus: "quantize_mt x = x \<Longrightarrow> quantize_mt (- x) = - x"
  by (simp add: quantize_mt_def quantize_uminus)

lemma position_grid:
  assumes grid: "tons_on_grid s"
  shows "quantize_mt (open_position s c + hedge_position s c) = open_position s c + hedge_position s c"
proof -
  have q: "quantize_mt (open_position s c) = open_position s c" "quantize_mt (hedge_position s c) = hedge_position s c"
    unfolding open_position_def hedge_position_def
    using grid residual_grid[OF grid] grid_uminus[OF residual_grid[OF grid]] by (auto intro!: grid_sum simp: grid_uminus tons_on_grid_def commercial_rows_def)
  then show ?thesis by (rule mt.q_add_fixed)
qed

text \<open>The net position of a commodity is its open exposures and unlinked hedges, sold tons positive.\<close>

lemma net_tons_sum:
  assumes grid: "tons_on_grid s"
  shows "net_tons (compute_net_exposure s None) c = open_position s c + hedge_position s c"
proof -
  let ?name = "\<lambda>g. group_name (fst (fst g))" and ?cg = "commercial_groups s None"
    and ?hg = "filter (\<lambda>g. quantize_mt (snd g) \<noteq> 0) (hedge_groups s None)"
  define agg where "agg = group_fold ?name add_hedge_group zero_net ?hg (group_fold ?name add_commercial_group zero_net ?cg [])"
  have d: "distinct (map fst agg)" unfolding agg_def by (intro distinct_group_fold) simp
  have e1: "sum_list (map (\<lambda>g. side_sign (snd (fst g) = ED_long) * quantize_mt (fst (snd g))) (filter (\<lambda>g. ?name g = c) ?cg)) = open_position s c"
    unfolding sum_list_filter_if by (rule commercial_groups_sum[OF grid])
  have e2: "sum_list (map (\<lambda>g. side_sign (snd (fst g) = HC_long) * quantize_mt (snd g)) (filter (\<lambda>g. ?name g = c) ?hg)) = hedge_position s c"
  proof -
    have "sum_list (map (\<lambda>g. side_sign (snd (fst g) = HC_long) * quantize_mt (snd g)) (filter (\<lambda>g. ?name g = c) ?hg))
        = sum_list (map (\<lambda>g. if ?name g = c then side_sign (snd (fst g) = HC_long) * quantize_mt (snd g) else 0) (hedge_groups s None))"
      by (simp add: sum_list_filter_if) (intro arg_cong[of _ _ sum_list] map_cong refl, auto)
    then show ?thesis using hedge_groups_sum[OF grid] by simp
  qed
  have z: "net_of_item zero_net = 0" by (simp add: net_of_item_def zero_net_def)
  have val: "(case map_of agg c of None \<Rightarrow> 0 | Some v \<Rightarrow> net_of_item v) = open_position s c + hedge_position s c"
    unfolding agg_def additive_groups[OF net_add_commercial net_add_hedge z] e1 e2 ..
  have "quantize_mt (open_position s c + hedge_position s c) = open_position s c + hedge_position s c" by (rule position_grid[OF grid])
  then show ?thesis
    using val unfolding net_tons_def compute_net_exposure_def Let_def agg_def[symmetric]
    by (subst find_row_of_key[OF d]) (auto simp: net_row_def Let_def net_of_item_def split: option.splits)
qed

section \<open>The exposure table after a reconciliation\<close>

text \<open>The table is written by the reconciliation only: a live exposure is one of a variable-price order,
  on its side, and there is one for an order.\<close>

definition exposure_book :: "db \<Rightarrow> bool" where
  "exposure_book s \<longleftrightarrow> distinct (map exp_source_id (filter (\<lambda>e. \<not> exp_is_deleted e) (exposures s)))
     \<and> (\<forall>e \<in> set (exposures s). \<not> exp_is_deleted e \<longrightarrow>
          (\<exists>r \<in> set (orders s). ord_id r = exp_source_id e \<and> ord_price_type r = PT_variable
             \<and> exp_direction e = fst (exposure_direction_of r)))"

definition reconciled :: "db \<Rightarrow> bool" where
  "reconciled s \<longleftrightarrow> exposure_book s
     \<and> (\<forall>r \<in> set (orders s). order_live r \<and> ord_price_type r = PT_variable \<longrightarrow>
          (\<exists>e. live_exposure_of s (ord_id r) = Some e \<and> exposure_matches (exposure_target_of (get_linked_qty_map s) r) e))"

lemma live_sources_update:
  assumes "\<And>e. exp_source_id (f e) = exp_source_id e" "\<And>e. exp_is_deleted (f e) = exp_is_deleted e"
  shows "map exp_source_id (filter (\<lambda>e. \<not> exp_is_deleted e) (update_row key k f es))
    = map exp_source_id (filter (\<lambda>e. \<not> exp_is_deleted e) es)"
  by (induction es) (simp_all add: assms)

lemma refresh_exposure_direction: "exp_direction (refresh_exposure t e) = exp_direction e"
  by (simp add: refresh_exposure_def)

lemma reconcile_order_book:
  assumes "reconcile_order m now r (s, c, u) = Inr (s', c', u')" and "exposure_book s" and "r \<in> set (orders s)"
  shows "exposure_book s' \<and> orders s' = orders s"
proof (cases "ord_price_type r")
  case PT_fixed
  then show ?thesis using assms by (simp add: reconcile_order_def)
next
  case PT_variable
  show ?thesis
  proof (cases "live_exposure_of s (ord_id r)")
    case None
    then have none: "\<forall>e \<in> set (exposures s). \<not> exp_is_deleted e \<longrightarrow> exp_source_id e \<noteq> ord_id r"
      by (auto simp: live_exposure_of_def find_None_iff)
    obtain e where e: "s' = s\<lparr>exposures := exposures s @ [e], next_uuid := Suc (next_uuid s)\<rparr>" "exp_source_id e = ord_id r"
        "exp_direction e = fst (exposure_direction_of r)" "\<not> exp_is_deleted e"
      using assms(1) PT_variable None by (auto simp: reconcile_order_def Let_def split: if_splits)
    have "distinct (map exp_source_id (filter (\<lambda>e. \<not> exp_is_deleted e) (exposures s')))"
      using assms(2) none e(2,4) by (auto simp: e(1) exposure_book_def)
    moreover have "\<exists>q \<in> set (orders s). ord_id q = exp_source_id e \<and> ord_price_type q = PT_variable \<and> exp_direction e = fst (exposure_direction_of q)"
      using assms(3) PT_variable e(2,3) by (intro bexI[of _ r]) simp_all
    ultimately show ?thesis using assms(2) by (simp add: e(1) exposure_book_def)
  next
    case (Some e)
    let ?f = "refresh_exposure (exposure_target_of m r)"
    have s': "s' = s\<lparr>exposures := update_row exp_id (exp_id e) ?f (exposures s)\<rparr>"
      using assms(1) PT_variable Some by (auto simp: reconcile_order_def Let_def split: if_splits)
    show ?thesis
      using assms(2) unfolding s' exposure_book_def
      by (auto simp: live_sources_update set_update_row refresh_exposure_direction split: if_splits)
  qed
qed

lemma reconcile_loop_book:
  assumes "loop m now rs (s, c, u) = Inr (s', c', u')" and "exposure_book s" and "set rs \<subseteq> set (orders s)"
  shows "exposure_book s' \<and> orders s' = orders s"
  using assms
proof (induction rs arbitrary: s c u)
  case (Cons r rs)
  obtain s1 c1 u1 where 1: "reconcile_order m now r (s, c, u) = Inr (s1, c1, u1)"
    using Cons.prems(1) by (cases "reconcile_order m now r (s, c, u)") auto
  then have "exposure_book s1 \<and> orders s1 = orders s" using reconcile_order_book Cons.prems(2,3) by simp
  then show ?case using Cons 1 by simp
qed simp

lemma filter_retired:
  "filter (\<lambda>e. \<not> exp_is_deleted e) (map (\<lambda>e. if p e then e\<lparr>exp_is_deleted := True, exp_deleted_at := d\<rparr> else e) es)
    = filter (\<lambda>e. \<not> exp_is_deleted e \<and> \<not> p e) es"
  by (induction es) auto

lemma reconcile_reconciled:
  assumes "exposures_wf s" and "keyed ord_id (orders s)" and "exposure_book s"
    and run: "reconcile_from_orders s now = Inr (s', run, sm)"
  shows "reconciled s'"
proof -
  note fr = reconcile_frame[OF assms(1) run]
  have "get_linked_qty_map s' = get_linked_qty_map s" using fr by (intro get_linked_qty_map_cong) simp_all
  then have "\<forall>r \<in> set (orders s'). order_live r \<and> ord_price_type r = PT_variable \<longrightarrow>
      (\<exists>e. live_exposure_of s' (ord_id r) = Some e \<and> exposure_matches (exposure_target_of (get_linked_qty_map s') r) e)"
    using reconcile_matches[OF assms(1,2) run] fr(1) by (simp add: order_live_def)
  moreover have "exposure_book s'"
    using run
  proof (rule reconcile_Inr)
    fix s1
    assume l: "loop (get_linked_qty_map s) now (live_orders s) (start_run s now, 0, 0) = Inr (s1, rs_created sm, rs_updated sm)"
      and e: "exposures s' = exposures (retire_exposures now s1)" and o: "orders s' = orders s1"
    have "exposure_book (start_run s now)" using assms(3) by (simp add: exposure_book_def)
    from reconcile_loop_book[OF l this] have b: "exposure_book s1" "orders s1 = orders s" by auto
    have live: "filter (\<lambda>e. \<not> exp_is_deleted e) (exposures s') = filter (\<lambda>e. \<not> exp_is_deleted e \<and> \<not> exposure_stale s1 e) (exposures s1)"
      unfolding e retire_exposures_def by (simp add: filter_retired)
    also have "\<dots> = filter (\<lambda>e. \<not> exposure_stale s1 e) (filter (\<lambda>e. \<not> exp_is_deleted e) (exposures s1))" by (simp add: conj_commute)
    finally have d: "distinct (map exp_source_id (filter (\<lambda>e. \<not> exp_is_deleted e) (exposures s')))"
      using b(1) by (simp only: exposure_book_def distinct_map_filter)
    have sub: "e \<in> set (exposures s1)" if "e \<in> set (exposures s')" "\<not> exp_is_deleted e" for e
    proof -
      have "e \<in> set (filter (\<lambda>e. \<not> exp_is_deleted e) (exposures s'))" using that by simp
      then show ?thesis unfolding live by simp
    qed
    show ?thesis unfolding exposure_book_def
    proof (intro conjI d ballI impI)
      fix e assume "e \<in> set (exposures s')" "\<not> exp_is_deleted e"
      then show "\<exists>r \<in> set (orders s'). ord_id r = exp_source_id e \<and> ord_price_type r = PT_variable \<and> exp_direction e = fst (exposure_direction_of r)"
        using sub b(1) unfolding exposure_book_def o by blast
    qed
  qed
  ultimately show ?thesis by (simp add: reconciled_def)
qed

text \<open>Reconciliation writes quantised tons.\<close>

abbreviation exposures_on_grid :: "db \<Rightarrow> bool" where
  "exposures_on_grid s \<equiv> \<forall>e \<in> set (exposures s). quantize_mt (exp_open_tons e) = exp_open_tons e"

lemma reconcile_order_grid:
  assumes "reconcile_order m now r (s, c, u) = Inr (s', c', u')" and "exposures_on_grid s"
  shows "exposures_on_grid s'"
proof (cases "ord_price_type r")
  case PT_fixed
  then show ?thesis using assms by (simp add: reconcile_order_def)
next
  case PT_variable
  show ?thesis
  proof (cases "live_exposure_of s (ord_id r)")
    case None
    then show ?thesis
      using assms PT_variable by (auto simp: reconcile_order_def Let_def split: if_splits)
  next
    case (Some e)
    then have "s' = s\<lparr>exposures := update_row exp_id (exp_id e) (refresh_exposure (exposure_target_of m r)) (exposures s)\<rparr>"
      using assms(1) PT_variable by (auto simp: reconcile_order_def Let_def split: if_splits)
    then show ?thesis
      using assms(2) by (auto simp: set_update_row refresh_exposure_def split: if_splits)
  qed
qed

lemma reconcile_loop_grid:
  "loop m now rs (s, c, u) = Inr (s', c', u') \<Longrightarrow> exposures_on_grid s \<Longrightarrow> exposures_on_grid s'"
proof (induction rs arbitrary: s c u)
  case (Cons r rs)
  obtain s1 c1 u1 where 1: "reconcile_order m now r (s, c, u) = Inr (s1, c1, u1)"
    using Cons.prems(1) by (cases "reconcile_order m now r (s, c, u)") auto
  then show ?case using Cons reconcile_order_grid[OF 1] by simp
qed simp

lemma reconcile_grid:
  assumes "exposures_wf s" and "tons_on_grid s" and run: "reconcile_from_orders s now = Inr (s', run, sm)"
  shows "tons_on_grid s'"
proof -
  have "exposures_on_grid s'"
    using run
  proof (rule reconcile_Inr)
    fix s1
    assume l: "loop (get_linked_qty_map s) now (live_orders s) (start_run s now, 0, 0) = Inr (s1, rs_created sm, rs_updated sm)"
      and e: "exposures s' = exposures (retire_exposures now s1)"
    have "exposures_on_grid s1"
      by (rule reconcile_loop_grid[OF l]) (use assms(2) in \<open>simp add: tons_on_grid_def\<close>)
    then show ?thesis by (auto simp: e retire_exposures_def)
  qed
  then show ?thesis using assms(2) reconcile_frame[OF assms(1) run] by (simp add: tons_on_grid_def)
qed

section \<open>Net exposure and global exposure\<close>

definition order_position :: "db \<Rightarrow> string \<Rightarrow> decimal" where
  "order_position s c = sum_list (map (\<lambda>r. if commodity_key (ord_commodity r) = c
     then side_sign (ord_order_type r = OT_purchase) * (ord_quantity_mt r - get_linked_qty_map s (ord_id r)) else 0)
     (filter (\<lambda>r. ord_price_type r = PT_variable \<and> order_live r) (orders s)))"

definition net_of_global :: "global_item \<Rightarrow> decimal" where
  "net_of_global v = (gi_reduced_active v + gi_unlinked_hedge_short v) - (gi_reduced_passive v + gi_unlinked_hedge_long v)"

lemma net_add_global_order:
  "net_of_global (add_global_order linked x v) = net_of_global v + side_sign (ord_order_type (fst x) = OT_purchase) * order_residual linked x"
  by (cases x; cases "ord_order_type (fst x)") (simp_all add: add_global_order_def Let_def net_of_global_def)

lemma net_add_global_contract:
  "net_of_global (add_global_contract linked c v) = net_of_global v + side_sign (hc_classification c = HC_long) * hedge_residual linked c"
  by (cases "hc_classification c") (simp_all add: add_global_contract_def Let_def net_of_global_def)

definition global_net :: "GlobalExposureRead list \<Rightarrow> string \<Rightarrow> decimal" where
  "global_net rows c = (case find (\<lambda>g. ger_commodity g = c) rows of None \<Rightarrow> 0 | Some g \<Rightarrow> ger_global_net_mt g)"

lemma linked_order_grid:
  assumes "tons_on_grid s"
  shows "linked_by_order (snapshot_linkages s) i = get_linked_qty_map s i"
proof -
  have eq: "linked_by_order (snapshot_linkages s) i = sum_where (\<lambda>l. lk_order_id l = i \<and> joined hedge_live (get_contract s (lk_contract_id l))
      \<and> joined order_live (get_order s (lk_order_id l))) lk_quantity_mt (linkages s)"
    by (simp add: linked_by_order_def snapshot_linkages_def sum_where_def conj_ac)
  have "quantize_mt (sum_where p lk_quantity_mt (linkages s)) = sum_where p lk_quantity_mt (linkages s)" for p
    by (rule mt.q_sum_where) (use assms in \<open>simp add: tons_on_grid_def\<close>)
  then show ?thesis unfolding eq get_linked_qty_map_def by simp
qed

lemma linked_contract_live:
  assumes "keyed hc_id (contracts s)" and "c \<in> set (contracts s)" and "hedge_live c"
  shows "linked_by_contract (snapshot_linkages s) (hc_id c) = contract_linked_qty s (hc_id c)"
proof -
  have "get_contract s (hc_id c) = Some c" using get_row_keyed[OF assms(1,2)] by (simp add: get_contract_def)
  then have "filter (\<lambda>l. lk_contract_id l = hc_id c) (snapshot_linkages s)
      = filter (\<lambda>l. lk_contract_id l = hc_id c \<and> joined order_live (get_order s (lk_order_id l))) (linkages s)"
    using assms(3) unfolding snapshot_linkages_def filter_filter by (intro filter_cong) auto
  then show ?thesis by (simp add: linked_by_contract_def contract_linked_qty_def sum_where_def)
qed

lemma sum_list_sort_key: "sum_list (map f (sort_key k xs)) = (sum_list (map f xs) :: rat)"
  by (metis mset_map mset_sort sum_mset_sum_list)

lemma commodity_group_name: "canonical_commodity c \<noteq> '''' \<Longrightarrow> commodity_key c = group_name c"
proof -
  have "canonical_commodity '''' = ''''" by code_simp
  then show "canonical_commodity c \<noteq> '''' \<Longrightarrow> commodity_key c = group_name c"
    by (auto simp: commodity_key_def group_name_def)
qed

lemma global_net_sum:
  assumes grid: "tons_on_grid s" and keys: "keyed hc_id (contracts s)"
    and names: "\<forall>c \<in> set (contracts s). canonical_commodity (hc_commodity c) \<noteq> ''''"
    and run: "compute_global_snapshot s t = Inr rows"
  shows "global_net rows c = quantize_mt (order_position s c + hedge_position s c)"
proof -
  let ?lo = "linked_by_order (snapshot_linkages s)" and ?lc = "linked_by_contract (snapshot_linkages s)"
    and ?os = "filter is_variable (snapshot_orders s)"
  define items where "items = group_fold hedge_key (add_global_contract ?lc) zero_global (snapshot_contracts s)
      (group_fold order_key (add_global_order ?lo) zero_global ?os [])"
  have rows: "rows = map (global_read t) (sort_key fst items)"
    using run by (auto simp: compute_global_snapshot_def compute_global_exposure_pure_def global_order_loop global_contract_loop
        items_def split: if_splits)
  have d: "distinct (map fst items)" unfolding items_def by (intro distinct_group_fold) simp
  have ds: "distinct (map fst (sort_key fst items))" using d by (simp add: distinct_map)
  have m: "map_of (sort_key fst items) = map_of items"
    using d by (intro map_of_eqI ballI) (auto simp: distinct_map)
  have z: "net_of_global zero_global = 0" by (simp add: net_of_global_def zero_global_def)
  have "sum_list (map (\<lambda>x. side_sign (ord_order_type (fst x) = OT_purchase) * order_residual ?lo x) (filter (\<lambda>x. order_key x = c) ?os))
      = order_position s c"
    unfolding snapshot_orders_def order_position_def order_live_def
    by (simp add: sum_list_filter_if filter_map comp_def is_variable_def filter_sort linked_order_grid[OF grid] sum_list_sort_key cong: if_cong)
      (intro arg_cong[of _ _ sum_list] map_cong refl, simp)
  moreover have "sum_list (map (\<lambda>h. side_sign (hc_classification h = HC_long) * hedge_residual ?lc h) (filter (\<lambda>h. hedge_key h = c) (snapshot_contracts s)))
      = hedge_position s c"
    unfolding sum_list_filter_if snapshot_contracts_def hedge_position_def sum_list_sort_key using names
    by (intro arg_cong[of _ _ sum_list] map_cong refl) (simp add: linked_contract_live[OF keys] commodity_group_name)
  ultimately have val: "(case map_of items c of None \<Rightarrow> 0 | Some v \<Rightarrow> net_of_global v) = order_position s c + hedge_position s c"
    unfolding items_def
    by (subst additive_groups[where m = net_of_global, OF net_add_global_order net_add_global_contract z]) simp
  show ?thesis
    unfolding global_net_def rows val[symmetric]
    by (subst find_row_of_key[where key = ger_commodity and f = "global_read t", OF ds global_read_commodity]) (auto simp: m global_read_def Let_def net_of_global_def split: option.splits)
qed

text \<open>A live exposure of a reconciled table is the open quantity of its order.\<close>

lemma reconciled_exposure:
  assumes rec: "reconciled s" and keys: "keyed ord_id (orders s)"
    and e: "e \<in> set (exposures s)" "\<not> exp_is_deleted e" "joined order_live (get_order s (exp_source_id e))"
  obtains r where "r \<in> set (orders s)" "ord_id r = exp_source_id e" "order_live r" "ord_price_type r = PT_variable"
    "exp_direction e = fst (exposure_direction_of r)" "exposure_matches (exposure_target_of (get_linked_qty_map s) r) e"
proof -
  obtain r where r: "r \<in> set (orders s)" "ord_id r = exp_source_id e" "ord_price_type r = PT_variable"
      "exp_direction e = fst (exposure_direction_of r)"
    using rec e(1,2) unfolding reconciled_def exposure_book_def by blast
  have live: "order_live r" using e(3) get_row_keyed[OF keys r(1)] r(2) by (simp add: get_order_def)
  obtain e' where e': "live_exposure_of s (ord_id r) = Some e'" "exposure_matches (exposure_target_of (get_linked_qty_map s) r) e'"
    using rec r(1,3) live unfolding reconciled_def by blast
  have "e' \<in> set (exposures s)" "\<not> exp_is_deleted e'" "exp_source_id e' = exp_source_id e"
    using e'(1) r(2) by (auto simp: live_exposure_of_def find_Some_iff)
  moreover have "inj_on exp_source_id (set (filter (\<lambda>e. \<not> exp_is_deleted e) (exposures s)))"
    using rec by (simp add: reconciled_def exposure_book_def distinct_map)
  ultimately have "e' = e" using e(1,2) by (auto dest: inj_onD)
  then show ?thesis using that r live e'(2) by simp
qed

definition order_weight :: "db \<Rightarrow> string \<Rightarrow> Order \<Rightarrow> decimal" where
  "order_weight s c r = (if commodity_key (ord_commodity r) = c
     then side_sign (ord_order_type r = OT_purchase) * (ord_quantity_mt r - get_linked_qty_map s (ord_id r)) else 0)"

lemma exposure_weight:
  assumes grid: "tons_on_grid s" and e: "e \<in> set (exposures s)" and r: "r \<in> set (orders s)"
    and name: "canonical_commodity (ord_commodity r) \<noteq> ''''" and dir: "exp_direction e = fst (exposure_direction_of r)"
    and m: "exposure_matches (exposure_target_of (get_linked_qty_map s) r) e"
  shows "(if group_name (exp_commodity e) = c then side_sign (exp_direction e = ED_long) * exp_open_tons e else 0) = order_weight s c r"
    and "exp_status e = exposure_status_of (get_linked_qty_map s (ord_id r)) (ord_quantity_mt r - get_linked_qty_map s (ord_id r))"
proof -
  let ?q = "ord_quantity_mt r" and ?l = "get_linked_qty_map s (ord_id r)"
  have q: "quantize_mt ?q = ?q" "quantize_mt ?l = ?l" "quantize_mt (exp_open_tons e) = exp_open_tons e"
    using grid e r by (simp_all add: tons_on_grid_def get_linked_qty_map_def)
  then have d: "quantize_mt (?q - ?l) = ?q - ?l" using mt.q_diff by metis
  have "commodity_key (ord_commodity r) \<noteq> ''''" using name by (simp add: commodity_key_def)
  then have "group_name (exp_commodity e) = commodity_key (ord_commodity r)"
    using m name by (simp add: exposure_matches_def exposure_target_of_def Let_def group_name_def commodity_key_def)
  moreover have "exp_open_tons e = ?q - ?l"
    using m q d by (simp add: exposure_matches_def exposure_target_of_def Let_def)
  moreover have "exp_direction e = ED_long \<longleftrightarrow> ord_order_type r = OT_purchase" using dir by (simp add: exposure_direction_of_def)
  ultimately show "(if group_name (exp_commodity e) = c then side_sign (exp_direction e = ED_long) * exp_open_tons e else 0) = order_weight s c r"
    by (simp add: order_weight_def)
  show "exp_status e = exposure_status_of ?l (?q - ?l)"
    using m q d by (simp add: exposure_matches_def exposure_target_of_def Let_def)
qed

lemma global_residual_nonneg:
  assumes grid: "tons_on_grid s" and run: "compute_global_snapshot s t = Inr rows"
    and r: "r \<in> set (orders s)" "order_live r" "ord_price_type r = PT_variable"
  shows "0 \<le> ord_quantity_mt r - get_linked_qty_map s (ord_id r)"
proof -
  have "(r, ord_quantity_mt r) \<in> set (snapshot_orders s)"
    using r by (auto simp: snapshot_orders_def order_live_def)
  moreover have "\<not> (\<exists>x \<in> set (snapshot_orders s). is_variable x \<and> negative_residual (linked_by_order (snapshot_linkages s)) x)"
    using run by (auto simp: compute_global_snapshot_def compute_global_exposure_pure_def global_order_loop simp del: bex_simps split: if_splits)
  ultimately have "\<not> negative_residual (linked_by_order (snapshot_linkages s)) (r, ord_quantity_mt r)"
    using r(3) by (auto simp: is_variable_def)
  moreover have "quantize_mt (ord_quantity_mt r) = ord_quantity_mt r" "quantize_mt (get_linked_qty_map s (ord_id r)) = get_linked_qty_map s (ord_id r)"
    using grid r(1) by (simp_all add: tons_on_grid_def get_linked_qty_map_def)
  then have "quantize_mt (ord_quantity_mt r - get_linked_qty_map s (ord_id r)) = ord_quantity_mt r - get_linked_qty_map s (ord_id r)"
    using mt.q_diff by metis
  ultimately show ?thesis by (simp add: negative_residual_def linked_order_grid[OF grid] not_less)
qed

lemma sum_list_keyed:
  assumes "distinct (map k xs)" "distinct (map j ys)" "set (map k xs) = set (map j ys)"
    and "\<And>x y. x \<in> set xs \<Longrightarrow> y \<in> set ys \<Longrightarrow> k x = j y \<Longrightarrow> f x = (g y :: rat)"
  shows "sum_list (map f xs) = sum_list (map g ys)"
proof -
  define h where "h i = g (the (map_of (map (\<lambda>y. (j y, y)) ys) i))" for i
  have h: "h (j y) = g y" if "y \<in> set ys" for y
  proof -
    have "map_of (map (\<lambda>y. (j y, y)) ys) (j y) = Some y"
      using that assms(2) by (intro map_of_is_SomeI) (auto simp: comp_def)
    then show ?thesis by (simp add: h_def)
  qed
  have "map f xs = map (\<lambda>x. h (k x)) xs"
  proof (intro map_cong refl)
    fix x assume x: "x \<in> set xs"
    then obtain y where y: "y \<in> set ys" "k x = j y" using assms(3) by (metis (no_types, lifting) image_iff list.set_map)
    then show "f x = h (k x)" using assms(4)[OF x] h by simp
  qed
  moreover have "map g ys = map (\<lambda>y. h (j y)) ys" by (intro map_cong refl) (simp add: h)
  moreover have "mset (map k xs) = mset (map j ys)" using assms(1-3) by (metis set_eq_iff_mset_eq_distinct)
  then have "mset (map h (map k xs)) = mset (map h (map j ys))" by (simp only: mset_map)
  then have "sum_list (map h (map k xs)) = sum_list (map h (map j ys))" by (metis sum_mset_sum_list)
  ultimately show ?thesis by (simp only: map_map comp_def)
qed

lemma open_position_reconciled:
  assumes rec: "reconciled s" and keys: "keyed ord_id (orders s)" and grid: "tons_on_grid s"
    and names: "\<forall>r \<in> set (orders s). canonical_commodity (ord_commodity r) \<noteq> ''''"
    and run: "compute_global_snapshot s t = Inr rows"
  shows "open_position s c = order_position s c"
proof -
  let ?L = "filter (\<lambda>e. joined order_live (get_order s (exp_source_id e))) (filter (\<lambda>e. \<not> exp_is_deleted e) (exposures s))"
    and ?R = "filter (\<lambda>r. ord_price_type r = PT_variable \<and> order_live r) (orders s)"
    and ?F = "\<lambda>e. if group_name (exp_commodity e) = c then side_sign (exp_direction e = ED_long) * exp_open_tons e else 0"
  have row: "\<exists>r. r \<in> set ?R \<and> ord_id r = exp_source_id e \<and> ?F e = order_weight s c r
      \<and> (exp_status e \<notin> {ES_open, ES_partially_hedged} \<longrightarrow> order_weight s c r = 0)" if "e \<in> set ?L" for e
  proof -
    have e: "e \<in> set (exposures s)" "\<not> exp_is_deleted e" "joined order_live (get_order s (exp_source_id e))" using that by auto
    obtain r where r: "r \<in> set (orders s)" "ord_id r = exp_source_id e" "order_live r" "ord_price_type r = PT_variable"
        "exp_direction e = fst (exposure_direction_of r)" "exposure_matches (exposure_target_of (get_linked_qty_map s) r) e"
      by (rule reconciled_exposure[OF rec keys e])
    note w = exposure_weight[OF grid e(1) r(1) _ r(5,6)]
    have "order_weight s c r = 0" if "exp_status e \<notin> {ES_open, ES_partially_hedged}"
      using that w(2) names r(1) global_residual_nonneg[OF grid run r(1,3,4)]
      by (auto simp: exposure_status_of_def order_weight_def split: if_splits)
    then show ?thesis using w(1) names r by (intro exI[of _ r]) simp
  qed
  have "open_position s c = sum_list (map (\<lambda>e. if exp_status e \<in> {ES_open, ES_partially_hedged} then ?F e else 0) ?L)"
  proof -
    have "commercial_rows s None = filter (\<lambda>e. exp_status e \<in> {ES_open, ES_partially_hedged}) ?L"
      unfolding commercial_rows_def filter_filter
      by (intro filter_cong refl) (auto simp: commodity_filter_def intro: ExposureSourceType.exhaust)
    then show ?thesis unfolding open_position_def by (simp only: sum_list_filter_if)
  qed
  also have "\<dots> = sum_list (map (order_weight s c) ?R)"
  proof (rule sum_list_keyed[where k = exp_source_id and j = ord_id])
    show "distinct (map exp_source_id ?L)" using rec by (simp only: reconciled_def exposure_book_def distinct_map_filter)
    show "distinct (map ord_id ?R)" using keys by (simp add: keyed_def distinct_map_filter)
    show "set (map exp_source_id ?L) = set (map ord_id ?R)"
    proof (intro equalityI subsetI)
      fix i assume "i \<in> set (map exp_source_id ?L)"
      then obtain e where e: "e \<in> set ?L" "i = exp_source_id e" by auto
      obtain r where "r \<in> set ?R" "ord_id r = exp_source_id e" using row[OF e(1)] by blast
      then show "i \<in> set (map ord_id ?R)" using e(2) by (metis image_eqI list.set_map)
    next
      fix i assume "i \<in> set (map ord_id ?R)"
      then obtain r where r: "r \<in> set (orders s)" "order_live r" "ord_price_type r = PT_variable" "i = ord_id r" by auto
      then obtain e where "live_exposure_of s (ord_id r) = Some e" using rec unfolding reconciled_def by blast
      then have "e \<in> set (exposures s)" "\<not> exp_is_deleted e" "exp_source_id e = i"
        using r(4) by (auto simp: live_exposure_of_def find_Some_iff)
      moreover have "get_order s i = Some r" using get_row_keyed[OF keys r(1)] r(4) by (simp add: get_order_def)
      ultimately show "i \<in> set (map exp_source_id ?L)" using r(2) by (force simp: image_iff)
    qed
  next
    fix e r assume e: "e \<in> set ?L" and r: "r \<in> set ?R" and eq: "exp_source_id e = ord_id r"
    obtain r' where r': "r' \<in> set ?R" "ord_id r' = exp_source_id e" "?F e = order_weight s c r'"
        "exp_status e \<notin> {ES_open, ES_partially_hedged} \<longrightarrow> order_weight s c r' = 0"
      using row[OF e] by blast
    have "r' = r" using keyed_inj[OF keys] r r'(1,2) eq by auto
    then show "(if exp_status e \<in> {ES_open, ES_partially_hedged} then ?F e else 0) = order_weight s c r"
      using r'(3,4) by simp
  qed
  also have "\<dots> = order_position s c" unfolding order_position_def order_weight_def ..
  finally show ?thesis .
qed

text \<open>C23: Right after a reconciliation the net exposure, read from the exposure table, agrees with the
  global exposure, computed from the orders: for every commodity the two endpoints report the same net
  tons, zero where one of them has no row.\<close>

theorem net_exposure_parity:
  assumes "exposures_wf s" and "exposure_book s" and "keyed ord_id (orders s)" and "keyed hc_id (contracts s)"
    and names: "\<forall>r \<in> set (orders s). canonical_commodity (ord_commodity r) \<noteq> ''''"
      "\<forall>h \<in> set (contracts s). canonical_commodity (hc_commodity h) \<noteq> ''''"
    and tons: "tons_on_grid s" and run: "reconcile_from_orders s now = Inr (s', run, sm)"
    and glob: "compute_global_snapshot s' t = Inr rows"
  shows "net_tons (compute_net_exposure s' None) c = global_net rows c"
proof -
  have fr: "orders s' = orders s" "contracts s' = contracts s" using reconcile_frame[OF assms(1) run] by simp_all
  have grid: "tons_on_grid s'" by (rule reconcile_grid[OF assms(1) tons run])
  have rec: "reconciled s'" by (rule reconcile_reconciled[OF assms(1,3,2) run])
  have g: "global_net rows c = quantize_mt (order_position s' c + hedge_position s' c)"
    by (rule global_net_sum[OF grid _ _ glob]) (use assms fr in simp_all)
  have o: "open_position s' c = order_position s' c"
    by (rule open_position_reconciled[OF rec _ grid _ glob]) (use assms fr in simp_all)
  have n: "net_tons (compute_net_exposure s' None) c = order_position s' c + hedge_position s' c"
    using net_tons_sum[OF grid] o by simp
  then show ?thesis using g position_grid[OF grid, of c] o by simp
qed

lemma sample_global_net:
  assumes "orders s = orders sample_db" "contracts s = contracts sample_db" "linkages s = []" "tons_on_grid s"
    and "compute_global_snapshot s t = Inr rows"
  shows "global_net rows ''COPPER'' = 160"
proof -
  have c: "canonical_commodity ''COPPER'' = ''COPPER''" by code_simp
  have names: "group_name ''COPPER'' = ''COPPER''" "commodity_key ''COPPER'' = ''COPPER''"
    by (simp_all add: group_name_def commodity_key_def c)
  have q: "quantize_mt 160 = 160" by code_simp
  have "global_net rows ''COPPER'' = quantize_mt (order_position s ''COPPER'' + hedge_position s ''COPPER'')"
    by (rule global_net_sum[OF assms(4) _ _ assms(5)]) (simp_all add: assms(2) sample_defs keyed_def c)
  also have "\<dots> = quantize_mt 160"
    by (simp add: order_position_def hedge_position_def assms(1-3) sample_defs names order_live_def hedge_live_def hedge_open_def
        get_linked_qty_map_def contract_linked_qty_def)
  finally show ?thesis by (simp add: q)
qed

theorem net_exposure_parity_witness:
  "\<exists>s' run sm. reconcile_from_orders sample_db 5 = Inr (s', run, sm)
     \<and> net_tons (compute_net_exposure s' None) ''COPPER'' = 160"
proof -
  obtain s' run sm where r: "reconcile_from_orders sample_db 5 = Inr (s', run, sm)"
    using reconcile_succeeds[OF sample_capacity_inv sample_orders_nonneg] by blast
  note fr = reconcile_frame[OF sample_exposures_wf r]
  have "capacity_inv s'" using capacity_inv_counter[OF sample_capacity_inv] fr by blast
  moreover have "exposed_orders_nonneg s'" using sample_orders_nonneg fr(1) by (simp add: exposed_orders_nonneg_def)
  ultimately obtain rows where g: "compute_global_snapshot s' 6 = Inr rows"
    using snapshots_succeed(2)[of s' 6] by (cases "compute_global_snapshot s' 6") simp_all
  have grid: "tons_on_grid sample_db" unfolding tons_on_grid_def sample_defs by code_simp
  have pre: "exposure_book sample_db" "keyed ord_id (orders sample_db)" "keyed hc_id (contracts sample_db)"
    by (simp_all add: exposure_book_def keyed_def sample_defs)
  have "canonical_commodity ''COPPER'' \<noteq> ''''" by code_simp
  then have "\<forall>r \<in> set (orders sample_db). canonical_commodity (ord_commodity r) \<noteq> ''''"
    "\<forall>h \<in> set (contracts sample_db). canonical_commodity (hc_commodity h) \<noteq> ''''" by (simp_all add: sample_defs)
  then have "net_tons (compute_net_exposure s' None) ''COPPER'' = global_net rows ''COPPER''"
    by (rule net_exposure_parity[OF sample_exposures_wf pre _ _ grid r g])
  moreover have "global_net rows ''COPPER'' = 160"
    by (rule sample_global_net[OF _ _ _ reconcile_grid[OF sample_exposures_wf grid r] g]) (use fr in \<open>simp_all add: sample_defs\<close>)
  ultimately show ?thesis using r by auto
qed

end
