(* ===== verification/Commercial_Partners.thy ===== *)
theory Commercial_Partners
  imports Counterparty_Service
begin

text \<open>
  \<open>backend/app/services/commercial_partner_service.py\<close> with its routes in
  \<open>backend/app/api/routes/commercial_partners.py\<close>: the master data, the KYC transition and the credit
  terms of customers and suppliers.
\<close>

section \<open>Fields\<close>

definition PARTNER_IDENTITY_FIELDS :: "string list" where
  "PARTNER_IDENTITY_FIELDS = [''name'', ''country'', ''tax_id'', ''lei'']"

definition CUSTOMER_CREDIT_FIELDS :: "string list" where
  "CUSTOMER_CREDIT_FIELDS = [''credit_limit'', ''credit_currency'', ''payment_conditions'']"

definition SUPPLIER_CREDIT_FIELDS :: "string list" where
  "SUPPLIER_CREDIT_FIELDS = [''approved_value'', ''approved_currency'', ''approved_terms'']"

definition CREDIT_FIELDS :: "string list" where
  "CREDIT_FIELDS = CUSTOMER_CREDIT_FIELDS @ SUPPLIER_CREDIT_FIELDS"

definition NULLABLE_UPDATE_FIELDS :: "string list" where
  "NULLABLE_UPDATE_FIELDS = [''short_name'', ''tax_id'', ''city'', ''address'', ''contact_name'', ''contact_email'',
     ''contact_phone'', ''whatsapp_phone'', ''lei'', ''notes'']"

definition PROTECTED_PATCH_FIELDS :: "string list" where
  "PROTECTED_PATCH_FIELDS = [''kyc_status''] @ CREDIT_FIELDS @ [''risk_rating'']"

record PartnerCreate =
  pc_kind :: CommercialPartnerKind
  pc_text :: text_columns
  pc_risk_rating :: RiskRating
  pc_is_active :: bool

text \<open>The dictionary of an update: its text columns and \<open>is_active\<close>, where an explicit null is
  \<open>Some None\<close>, and the names of its other keys.\<close>

record PartnerUpdate =
  pu_text :: "string \<Rightarrow> string option option"
  pu_is_active :: "bool option option"
  pu_keys :: "string list"

text \<open>The value of a credit field: a decimal, or the text of a currency or of a JSON object.\<close>

datatype credit_value = CV_dec decimal | CV_txt string

type_synonym credit_data = "(string \<times> credit_value option) list"

section \<open>Operations\<close>

text \<open>The partial unique index on \<open>tax_id\<close> over the rows that are not deleted, checked at each flush.\<close>

definition live_tax_ids :: "db \<Rightarrow> string list" where
  "live_tax_ids s = concat (map (\<lambda>p. case par_text p ''tax_id'' of None \<Rightarrow> [] | Some t \<Rightarrow> if par_is_deleted p then [] else [t]) (partners s))"

definition flush_partners :: "db \<Rightarrow> db result" where
  "flush_partners s = and_then (raise_if (\<not> distinct (live_tax_ids s))
     (IntegrityError (Msg ''uq_commercial_partners_tax_id'' []))) (\<lambda>_. Inr s)"

definition new_partner :: "uuid \<Rightarrow> datetime \<Rightarrow> PartnerCreate \<Rightarrow> CommercialPartner" where
  "new_partner i now data =
     \<lparr>par_id = i, par_kind = pc_kind data, par_text = pc_text data, par_lei_status = LEI_not_provided,
      par_lei_legal_name = None, par_lei_checked_at = None, par_kyc_status = KYC_pending,
      par_sanctions_status = SAN_unscreened, par_risk_rating = pc_risk_rating data,
      par_credit_limit = None, par_credit_currency = None, par_payment_conditions = None,
      par_approved_value = None, par_approved_currency = None, par_approved_terms = None,
      par_is_active = pc_is_active data, par_created_at = now, par_is_deleted = False, par_deleted_at = None\<rparr>"

definition create_partner :: "db \<Rightarrow> datetime \<Rightarrow> PartnerCreate \<Rightarrow> (db \<times> uuid) result" where
  "create_partner s now data =
     and_then (flush_partners (s\<lparr>partners := partners s @ [new_partner (next_uuid s) now data], next_uuid := Suc (next_uuid s)\<rparr>))
       (\<lambda>s'. Inr (s', next_uuid s))"

definition list_partners ::
    "db \<Rightarrow> CommercialPartnerKind option \<Rightarrow> KycStatus option \<Rightarrow> bool option \<Rightarrow> CommercialPartner list" where
  "list_partners s kind_filter kyc_status_filter is_active_filter =
     filter (\<lambda>p. \<not> par_is_deleted p \<and> (case kind_filter of None \<Rightarrow> True | Some t \<Rightarrow> par_kind p = t)
       \<and> (case kyc_status_filter of None \<Rightarrow> True | Some k \<Rightarrow> par_kyc_status p = k)
       \<and> (case is_active_filter of None \<Rightarrow> True | Some a \<Rightarrow> par_is_active p = a)) (partners s)"

definition write_partner :: "uuid \<Rightarrow> (CommercialPartner \<Rightarrow> CommercialPartner) \<Rightarrow> db \<Rightarrow> db" where
  "write_partner i f s = s\<lparr>partners := update_row par_id i f (partners s)\<rparr>"

text \<open>A null is applied only to a column that may be null.\<close>

definition applied_text :: "PartnerUpdate \<Rightarrow> string \<Rightarrow> string option option" where
  "applied_text data key = (case pu_text data key of
       None \<Rightarrow> None
     | Some None \<Rightarrow> if key \<in> set NULLABLE_UPDATE_FIELDS then Some None else None
     | Some (Some v) \<Rightarrow> Some (Some v))"

definition partner_identity_changed :: "CommercialPartner \<Rightarrow> PartnerUpdate \<Rightarrow> bool" where
  "partner_identity_changed p data \<longleftrightarrow>
     list_ex (\<lambda>key. case applied_text data key of None \<Rightarrow> False | Some v \<Rightarrow> par_text p key \<noteq> v) PARTNER_IDENTITY_FIELDS"

definition lei_changed :: "CommercialPartner \<Rightarrow> PartnerUpdate \<Rightarrow> bool" where
  "lei_changed p data \<longleftrightarrow> (case applied_text data ''lei'' of None \<Rightarrow> False | Some v \<Rightarrow> par_text p ''lei'' \<noteq> v)"

definition apply_partner_update :: "PartnerUpdate \<Rightarrow> CommercialPartner \<Rightarrow> CommercialPartner" where
  "apply_partner_update data p =
     p\<lparr>par_text := (\<lambda>key. case applied_text data key of None \<Rightarrow> par_text p key | Some v \<Rightarrow> v),
       par_is_active := (case pu_is_active data of Some (Some v) \<Rightarrow> v | _ \<Rightarrow> par_is_active p),
       par_lei_status := (if lei_changed p data then LEI_not_provided else par_lei_status p),
       par_lei_legal_name := (if lei_changed p data then None else par_lei_legal_name p),
       par_lei_checked_at := (if lei_changed p data then None else par_lei_checked_at p),
       par_sanctions_status := (if partner_identity_changed p data then SAN_unscreened else par_sanctions_status p),
       par_kyc_status := (if partner_identity_changed p data \<and> par_kyc_status p = KYC_approved then KYC_pending else par_kyc_status p)\<rparr>"

definition update_partner :: "db \<Rightarrow> CommercialPartner \<Rightarrow> PartnerUpdate \<Rightarrow> db result" where
  "update_partner s p data =
     and_then (raise_if (''kyc_status'' \<in> set (pu_keys data)) (http HTTP_403
       ''kyc_status mutations require the dedicated risk_manager transition endpoint (POST /commercial-partners/{id}/kyc-status). Generic update path cannot mutate kyc_status.'')) (\<lambda>_.
     and_then (raise_if (\<exists>k \<in> set (pu_keys data). k \<in> set CREDIT_FIELDS) (http HTTP_403
       ''credit/terms mutations require the dedicated risk_manager endpoint (PATCH /commercial-partners/{id}/credit). Generic update path cannot mutate credit/terms.'')) (\<lambda>_.
     and_then (raise_if (''risk_rating'' \<in> set (pu_keys data)) (http HTTP_403
       ''risk_rating mutations require the dedicated risk workflow.'')) (\<lambda>_.
     flush_partners (write_partner (par_id p) (apply_partner_update data) s))))"

definition set_partner_kyc :: "db \<Rightarrow> uuid \<Rightarrow> KycStatus \<Rightarrow> (db \<times> KycStatus) result" where
  "set_partner_kyc s i new_status =
     and_then (require (get_partner s i) (http HTTP_404 ''Commercial partner not found'')) (\<lambda>p.
     and_then (raise_if (new_status = KYC_approved \<and> par_sanctions_status p \<noteq> SAN_clear) (HTTPException HTTP_422
       (Msg ''kyc_status cannot transition to approved unless the partner's sanctions_status is clear (observed: {}).''
          [AStr (sanctions_value (par_sanctions_status p))]))) (\<lambda>_.
     Inr (write_partner i (\<lambda>p. p\<lparr>par_kyc_status := new_status\<rparr>) s, par_kyc_status p)))"

text \<open>\<open>getattr\<close> and \<open>setattr\<close> on the credit columns.\<close>

definition dec_value :: "credit_value option \<Rightarrow> decimal option" where
  "dec_value v = (case v of Some (CV_dec d) \<Rightarrow> Some d | _ \<Rightarrow> None)"

definition txt_value :: "credit_value option \<Rightarrow> string option" where
  "txt_value v = (case v of Some (CV_txt t) \<Rightarrow> Some t | _ \<Rightarrow> None)"

definition set_credit :: "string \<Rightarrow> credit_value option \<Rightarrow> CommercialPartner \<Rightarrow> CommercialPartner" where
  "set_credit key v p =
     (if key = ''credit_limit'' then p\<lparr>par_credit_limit := dec_value v\<rparr>
      else if key = ''credit_currency'' then p\<lparr>par_credit_currency := txt_value v\<rparr>
      else if key = ''payment_conditions'' then p\<lparr>par_payment_conditions := txt_value v\<rparr>
      else if key = ''approved_value'' then p\<lparr>par_approved_value := dec_value v\<rparr>
      else if key = ''approved_currency'' then p\<lparr>par_approved_currency := txt_value v\<rparr>
      else if key = ''approved_terms'' then p\<lparr>par_approved_terms := txt_value v\<rparr>
      else p)"

definition get_credit :: "string \<Rightarrow> CommercialPartner \<Rightarrow> credit_value option" where
  "get_credit key p =
     (if key = ''credit_limit'' then map_option CV_dec (par_credit_limit p)
      else if key = ''credit_currency'' then map_option CV_txt (par_credit_currency p)
      else if key = ''payment_conditions'' then map_option CV_txt (par_payment_conditions p)
      else if key = ''approved_value'' then map_option CV_dec (par_approved_value p)
      else if key = ''approved_currency'' then map_option CV_txt (par_approved_currency p)
      else if key = ''approved_terms'' then map_option CV_txt (par_approved_terms p)
      else None)"

definition stored_credit :: "string \<Rightarrow> credit_value option \<Rightarrow> credit_value option" where
  "stored_credit key v = (case v of
       Some (CV_dec d) \<Rightarrow> Some (CV_dec (if key = ''credit_limit'' \<or> key = ''approved_value'' then quantize_money d else d))
     | _ \<Rightarrow> v)"

fun apply_credit :: "credit_data \<Rightarrow> CommercialPartner \<Rightarrow> CommercialPartner" where
  "apply_credit [] p = p"
| "apply_credit ((key, v) # data) p = apply_credit data (set_credit key (stored_credit key v) p)"

definition allowed_credit_fields :: "CommercialPartner \<Rightarrow> string list" where
  "allowed_credit_fields p = (if par_kind p = CPK_customer then CUSTOMER_CREDIT_FIELDS else SUPPLIER_CREDIT_FIELDS)"

text \<open>The values returned for the audit event: the changed names, the old values and the stored
  values. The names in the detail of a refused field are not sorted here.\<close>

definition approve_credit ::
    "db \<Rightarrow> CommercialPartner \<Rightarrow> credit_data \<Rightarrow> (db \<times> string list \<times> credit_data \<times> credit_data) result" where
  "approve_credit s p data =
     and_then (raise_if (par_sanctions_status p \<noteq> SAN_clear) (HTTPException HTTP_422
       (Msg ''commercial_partner_credit_rejected_sanctions_not_clear'' [AId (par_id p), AStr (sanctions_value (par_sanctions_status p))]))) (\<lambda>_.
     let cross_kind = filter (\<lambda>k. k \<notin> set (allowed_credit_fields p)) (map fst data)
     in and_then (raise_if (cross_kind \<noteq> []) (HTTPException HTTP_422 (Msg ''{} partners cannot carry fields {}; allowed: {}''
          (AStr (kind_value (par_kind p)) # map AStr cross_kind @ map AStr (allowed_credit_fields p))))) (\<lambda>_.
        Inr (write_partner (par_id p) (apply_credit data) s, map fst data,
             map (\<lambda>(k, v). (k, get_credit k p)) data, map (\<lambda>(k, v). (k, stored_credit k v)) data)))"

definition soft_delete_partner :: "db \<Rightarrow> datetime \<Rightarrow> CommercialPartner \<Rightarrow> db" where
  "soft_delete_partner s now p =
     write_partner (par_id p) (\<lambda>p. p\<lparr>par_is_deleted := True, par_deleted_at := Some now, par_is_active := False\<rparr>) s"

definition partner_tax_id_unique :: "db \<Rightarrow> string \<Rightarrow> uuid option \<Rightarrow> bool" where
  "partner_tax_id_unique s tax_id exclude_id \<longleftrightarrow>
     \<not> list_ex (\<lambda>p. par_text p ''tax_id'' = Some tax_id \<and> \<not> par_is_deleted p \<and> Some (par_id p) \<noteq> exclude_id) (partners s)"

section \<open>Routes\<close>

definition post_partner :: "db \<Rightarrow> datetime \<Rightarrow> PartnerCreate \<Rightarrow> (db \<times> uuid) result" where
  "post_partner s now payload =
     and_then (raise_if (case pc_text payload ''tax_id'' of None \<Rightarrow> False | Some t \<Rightarrow> t \<noteq> [] \<and> \<not> partner_tax_id_unique s t None)
       (http HTTP_409 ''tax_id already exists'')) (\<lambda>_.
     create_partner s now payload)"

text \<open>\<open>raw_keys\<close> are the keys of the body as sent; the schema drops the ones it does not have.\<close>

definition patch_partner :: "db \<Rightarrow> string list \<Rightarrow> uuid \<Rightarrow> PartnerUpdate \<Rightarrow> db result" where
  "patch_partner s raw_keys i update_data =
     and_then (require (get_partner s i) (http HTTP_404 ''Commercial partner not found'')) (\<lambda>p.
     and_then (raise_if (\<exists>k \<in> set raw_keys. k \<in> set PROTECTED_PATCH_FIELDS) (http HTTP_403
       ''kyc_status, credit/terms, and risk fields are not mutable via generic PATCH; use POST {id}/kyc-status or PATCH {id}/credit where applicable.'')) (\<lambda>_.
     and_then (raise_if (case pu_text update_data ''tax_id'' of Some (Some t) \<Rightarrow> \<not> partner_tax_id_unique s t (Some (par_id p)) | _ \<Rightarrow> False)
       (http HTTP_409 ''tax_id already exists'')) (\<lambda>_.
     update_partner s p update_data)))"

definition delete_partner :: "db \<Rightarrow> datetime \<Rightarrow> uuid \<Rightarrow> db result" where
  "delete_partner s now i =
     and_then (require (get_partner s i) (http HTTP_404 ''Commercial partner not found'')) (\<lambda>p.
     Inr (soft_delete_partner s now p))"

definition patch_partner_credit ::
    "db \<Rightarrow> uuid \<Rightarrow> credit_data \<Rightarrow> (db \<times> string list \<times> credit_data \<times> credit_data) result" where
  "patch_partner_credit s i data =
     and_then (require (get_partner s i) (http HTTP_404 ''Commercial partner not found'')) (\<lambda>p.
     approve_credit s p data)"

end
