(* ===== verification/Lei_Check.thy ===== *)
theory Lei_Check
  imports HC_Prelude "HOL-Library.Sublist"
begin

text \<open>
  The offline part of \<open>backend/app/services/lei_validation_service.py\<close>: the ISO 7064 check of a
  legal entity identifier, and what it detects.
\<close>

section \<open>The checksum\<close>

definition is_digit :: "char \<Rightarrow> bool" where
  "is_digit c \<longleftrightarrow> (let n = of_char c :: nat in 48 \<le> n \<and> n \<le> 57)"

definition is_letter :: "char \<Rightarrow> bool" where
  "is_letter c \<longleftrightarrow> (let n = of_char c :: nat in (65 \<le> n \<and> n \<le> 90) \<or> (97 \<le> n \<and> n \<le> 122))"

text \<open>\<open>int(c, 36)\<close> of an upper-case character, \<open>str\<close> of it and \<open>int\<close> of the joined digits.\<close>

definition base36 :: "char \<Rightarrow> nat" where
  "base36 c = (if is_digit c then of_char c - 48 else of_char c - 55)"

definition digits_of :: "nat \<Rightarrow> nat list" where
  "digits_of v = (if v < 10 then [v] else [v div 10, v mod 10])"

definition int_of_digits :: "nat list \<Rightarrow> nat" where
  "int_of_digits ds = foldl (\<lambda>n d. 10 * n + d) 0 ds"

text \<open>\<open>isascii\<close> and \<open>isalnum\<close> of the upper-case text together. Characters that are not ASCII but whose upper
  case is (such as the long s) cannot be written in the texts of this model; every other
  character that is not ASCII is refused here as in the code.\<close>

definition lei_checksum_ok :: "string \<Rightarrow> bool" where
  "lei_checksum_ok lei0 =
     (let lei = upper lei0
      in length lei = 20 \<and> list_all (\<lambda>c. is_digit c \<or> is_letter c) lei
         \<and> int_of_digits (concat (map (\<lambda>c. digits_of (base36 c)) lei)) mod 97 = 1)"

text \<open>\<open>a not in b and b not in a\<close>; \<open>casefold\<close> of an ASCII text is compared in upper case here, which
  identifies the same texts.\<close>

definition names_diverge :: "string option \<Rightarrow> string option \<Rightarrow> bool" where
  "names_diverge legal_name partner_name =
     (let a = upper (strip (case legal_name of None \<Rightarrow> [] | Some x \<Rightarrow> x));
          b = upper (strip (case partner_name of None \<Rightarrow> [] | Some x \<Rightarrow> x))
      in a \<noteq> [] \<and> b \<noteq> [] \<and> \<not> sublist a b \<and> \<not> sublist b a)"

section \<open>What it detects\<close>

lemma foldl_digits: "foldl (\<lambda>n d. 10 * n + d) m ys = m * 10 ^ length ys + foldl (\<lambda>n d. 10 * n + d) (0 :: nat) ys"
proof (induction ys arbitrary: m)
  case (Cons y ys)
  define z where "z = foldl (\<lambda>n d. 10 * n + d) (0 :: nat) ys"
  have 1: "foldl (\<lambda>n d. 10 * n + d) k ys = k * 10 ^ length ys + z" for k
    unfolding z_def by (rule Cons)
  have "foldl (\<lambda>n d. 10 * n + d) m (y # ys) = (10 * m + y) * 10 ^ length ys + z" by (simp only: foldl_Cons 1)
  moreover have "foldl (\<lambda>n d. 10 * n + d) 0 (y # ys) = y * 10 ^ length ys + z" by (simp only: foldl_Cons 1) simp
  ultimately show ?case by (simp only:) (simp add: algebra_simps)
qed simp

lemma int_of_digits_append: "int_of_digits (xs @ ys) = int_of_digits xs * 10 ^ length ys + int_of_digits ys"
  unfolding int_of_digits_def foldl_append by (rule foldl_digits)

text \<open>Two numbers that differ in one block of digits only agree modulo 97 exactly when the blocks do.\<close>

lemma block_mod:
  assumes "int_of_digits (p @ u @ q) mod 97 = int_of_digits (p @ v @ q) mod 97" and "length u = length v"
  shows "(97 :: int) dvd int (int_of_digits u) - int (int_of_digits v)"
proof -
  have "int (int_of_digits (p @ u @ q)) mod 97 = int (int_of_digits (p @ v @ q)) mod 97"
    using arg_cong[OF assms(1), of int] by (simp add: of_nat_mod)
  then have "(97 :: int) dvd int (int_of_digits (p @ u @ q)) - int (int_of_digits (p @ v @ q))"
    by (simp add: mod_eq_dvd_iff)
  also have "int (int_of_digits (p @ u @ q)) - int (int_of_digits (p @ v @ q)) = (int (int_of_digits u) - int (int_of_digits v)) * 10 ^ length q"
    using assms(2) by (simp add: int_of_digits_append algebra_simps)
  finally have "(97 :: int) dvd (int (int_of_digits u) - int (int_of_digits v)) * 10 ^ length q" .
  moreover have "coprime (97 :: int) 10"
  proof (rule coprimeI)
    fix c :: int assume "c dvd 97" "c dvd 10"
    then have "c dvd 3 * 97 - 29 * 10" by (intro dvd_diff dvd_mult)
    then show "is_unit c" by simp
  qed
  then have "coprime (97 :: int) (10 ^ length q)" by simp
  ultimately show ?thesis by (simp add: coprime_dvd_mult_left_iff)
qed

lemma dvd97_small: "(97 :: int) dvd d \<Longrightarrow> - 97 < d \<Longrightarrow> d < 97 \<Longrightarrow> d = 0"
  by (auto elim: dvdE)

definition same_kind :: "char \<Rightarrow> char \<Rightarrow> bool" where
  "same_kind a b \<longleftrightarrow> is_digit (upper_char a) \<and> is_digit (upper_char b) \<or> is_letter (upper_char a) \<and> is_letter (upper_char b)"

lemma upper_char_letter: "is_letter (upper_char c) \<Longrightarrow> 65 \<le> (of_char (upper_char c) :: nat) \<and> (of_char (upper_char c) :: nat) \<le> 90"
  by (auto simp: upper_char_def is_letter_def Let_def split: if_splits)

lemma not_digit_letter: "is_letter c \<Longrightarrow> \<not> is_digit c"
  by (auto simp: is_digit_def is_letter_def Let_def)

lemma base36_digit: "is_digit c \<Longrightarrow> base36 c < 10"
  by (auto simp: base36_def is_digit_def Let_def)

lemma base36_letter: "is_letter (upper_char c) \<Longrightarrow> 10 \<le> base36 (upper_char c) \<and> base36 (upper_char c) < 36"
  using upper_char_letter[of c] not_digit_letter by (auto simp: base36_def)

lemma base36_inj:
  assumes "same_kind a b" and "base36 (upper_char a) = base36 (upper_char b)"
  shows "upper_char a = upper_char b"
proof -
  have "(of_char (upper_char a) :: nat) = of_char (upper_char b)"
    using assms upper_char_letter[of a] upper_char_letter[of b]
    by (auto simp del: of_char_eq_iff simp: same_kind_def base36_def is_digit_def Let_def dest: not_digit_letter split: if_splits)
  then show ?thesis by (simp only: of_char_eq_iff)
qed

lemma value_one: "int_of_digits (digits_of v) = v"
  by (simp add: digits_of_def int_of_digits_def)

lemma length_digits: "length (digits_of v) = (if v < 10 then 1 else 2)"
  by (simp add: digits_of_def)

abbreviation lei_digits :: "string \<Rightarrow> nat list" where
  "lei_digits s \<equiv> concat (map (\<lambda>c. digits_of (base36 c)) (upper s))"

lemma lei_digits_append: "lei_digits (p @ q) = lei_digits p @ lei_digits q"
  by (simp add: upper_def)

lemma lei_block:
  assumes "lei_checksum_ok (p @ u @ q)" and "lei_checksum_ok (p @ v @ q)" and "length (lei_digits u) = length (lei_digits v)"
  shows "(97 :: int) dvd int (int_of_digits (lei_digits u)) - int (int_of_digits (lei_digits v))"
proof -
  have "int_of_digits (lei_digits (p @ u @ q)) mod 97 = 1" "int_of_digits (lei_digits (p @ v @ q)) mod 97 = 1"
    using assms(1,2) by (simp_all only: lei_checksum_ok_def Let_def)
  then have "int_of_digits (lei_digits p @ lei_digits u @ lei_digits q) mod 97 = int_of_digits (lei_digits p @ lei_digits v @ lei_digits q) mod 97"
    by (simp add: upper_def)
  then show ?thesis using assms(3) by (rule block_mod)
qed

lemma same_kind_length:
  "same_kind a b \<Longrightarrow> length (digits_of (base36 (upper_char a))) = length (digits_of (base36 (upper_char b)))"
  using base36_digit base36_letter by (auto simp: same_kind_def length_digits dest!: base36_letter base36_digit)

text \<open>C40: The identifier check catches the usual typing errors. If an identifier passes, it no longer
  passes after one character is replaced by another of its kind, digit or letter, nor after two
  different neighbours of one kind are swapped; upper and lower case are not distinguished.\<close>

theorem lei_checksum_detects:
  assumes "same_kind a b" and "upper_char a \<noteq> upper_char b"
  shows "(lei_checksum_ok (p @ [a] @ q) \<longrightarrow> \<not> lei_checksum_ok (p @ [b] @ q))
    \<and> (lei_checksum_ok (p @ [a, b] @ q) \<longrightarrow> \<not> lei_checksum_ok (p @ [b, a] @ q))"
proof (intro conjI impI notI)
  let ?a = "base36 (upper_char a)" and ?b = "base36 (upper_char b)"
  have ab: "?a \<noteq> ?b" using base36_inj assms by blast
  have small: "?a < 36" "?b < 36" using assms(1) base36_digit base36_letter unfolding same_kind_def by fastforce+
  { assume ok: "lei_checksum_ok (p @ [a] @ q)" and ok': "lei_checksum_ok (p @ [b] @ q)"
    have "(97 :: int) dvd int ?a - int ?b"
      using lei_block[OF ok ok'] same_kind_length[OF assms(1)] by (simp add: upper_def value_one)
    then show False using dvd97_small[of "int ?a - int ?b"] ab small by simp }
  { assume ok: "lei_checksum_ok (p @ [a, b] @ q)" and ok': "lei_checksum_ok (p @ [b, a] @ q)"
    have d: "(97 :: int) dvd int (int_of_digits (digits_of ?a @ digits_of ?b)) - int (int_of_digits (digits_of ?b @ digits_of ?a))"
      using lei_block[OF ok ok'] by (simp add: upper_def)
    consider (digits) "?a < 10" "?b < 10" | (letters) "10 \<le> ?a" "10 \<le> ?b"
      using assms(1) base36_digit base36_letter unfolding same_kind_def by blast
    then show False
    proof cases
      case digits
      then have "(97 :: int) dvd 9 * (int ?a - int ?b)" using d by (simp add: int_of_digits_append value_one length_digits algebra_simps)
      then have "9 * (int ?a - int ?b) = 0" by (rule dvd97_small) (use digits of_nat_0_le_iff[of ?a] of_nat_0_le_iff[of ?b] in simp_all)
      then show False using ab by simp
    next
      case letters
      then have "(97 :: int) dvd 99 * (int ?a - int ?b)" using d by (simp add: int_of_digits_append value_one length_digits algebra_simps)
      then have "(97 :: int) dvd 99 * (int ?a - int ?b) - 97 * (int ?a - int ?b)" by (rule dvd_diff) simp
      then have "(97 :: int) dvd 2 * (int ?a - int ?b)" by simp
      then have "2 * (int ?a - int ?b) = 0" by (rule dvd97_small) (use small letters of_nat_0_le_iff[of ?a] of_nat_0_le_iff[of ?b] in simp_all)
      then show False using ab by simp
    qed }
qed

theorem lei_checksum_detects_witness:
  "lei_checksum_ok ''HWUPKR0MPOU8FGXBT394'' \<and> \<not> lei_checksum_ok ''HWUPKR0MPOU8FGXBT395'' \<and> \<not> lei_checksum_ok ''HWUPKR0MPOU8FGXBT349''"
proof -
  note ev = upper_def upper_char_def is_digit_def is_letter_def Let_def
  have ok: "lei_checksum_ok ''HWUPKR0MPOU8FGXBT394''"
    by (simp add: lei_checksum_ok_def ev base36_def digits_of_def int_of_digits_def)
  have k: "same_kind (CHR ''4'') (CHR ''5'')" "upper_char (CHR ''4'') \<noteq> upper_char (CHR ''5'')"
    "same_kind (CHR ''9'') (CHR ''4'')" "upper_char (CHR ''9'') \<noteq> upper_char (CHR ''4'')" by (simp_all add: same_kind_def ev)
  show ?thesis
    using ok lei_checksum_detects[OF k(1,2), of "''HWUPKR0MPOU8FGXBT39''" "[]"]
      lei_checksum_detects[OF k(3,4), of "''HWUPKR0MPOU8FGXBT3''" "[]"] by simp
qed

text \<open>A digit and a letter can be swapped unseen: \<open>1B\<close> and \<open>B1\<close> are the same digits.\<close>

lemma lei_mixed_swap: "lei_checksum_ok (p @ ''1B'' @ q) = lei_checksum_ok (p @ ''B1'' @ q)"
  by (auto simp: lei_checksum_ok_def Let_def upper_def upper_char_def is_digit_def is_letter_def base36_def digits_of_def)

end
