(* ===== verification/Sanctions_Screening.thy ===== *)
theory Sanctions_Screening
  imports Commercial_Partners Lei_Check Provenance
begin

text \<open>
  \<open>backend/app/services/sanctions_screening_service.py\<close> with its client
  \<open>backend/app/services/opensanctions_client.py\<close> and the job
  \<open>backend/app/tasks/sanctions_rescreen_task.py\<close>; \<open>backend/app/services/lei_validation_service.py\<close> with its
  client \<open>backend/app/services/gleif_client.py\<close>. The outcome of an HTTP exchange, JSON and
  SHA-256 and the text of an exception are parameters; what is made of a reply is modelled.
\<close>

section \<open>Rows\<close>

datatype SanctionsPartnerType = SPT_commercial | SPT_hedge
datatype ScreeningResult = SR_clear | SR_flagged | SR_blocked
datatype ScreeningStatus = SS_success | SS_error
datatype AdjudicationDecision = AD_clear | AD_blocked

text \<open>A decoded JSON reply; a number is the decimal that \<open>str\<close> shows for it, and \<open>R_nonfinite\<close> one of
  the tokens \<open>NaN\<close> and \<open>Infinity\<close> that Python accepts.\<close>

datatype reply = R_null | R_bool bool | R_num rat | R_nonfinite | R_str string | R_list "reply list" | R_obj "(string \<times> reply) list"

record SanctionsScreening =
  ss_id :: uuid
  ss_partner_type :: SanctionsPartnerType
  ss_partner_id :: uuid
  ss_screened_at :: datetime
  ss_provider :: string
  ss_algorithm :: string
  ss_dataset_version :: "reply option"
  ss_query_hash :: string
  ss_top_score :: "decimal option"
  ss_match_count :: nat
  ss_matches_json :: "reply list option"
  ss_result :: "ScreeningResult option"
  ss_actor_sub :: string
  ss_status :: ScreeningStatus
  ss_error_detail :: "string option"

record SanctionsAdjudication =
  sa_id :: uuid
  sa_partner_type :: SanctionsPartnerType
  sa_partner_id :: uuid
  sa_superseded_screening_id :: uuid
  sa_decision :: AdjudicationDecision
  sa_reason :: string
  sa_adjudicating_actor_sub :: string
  sa_adjudicated_at :: datetime

text \<open>The database with the two append-only tables of this component.\<close>

record compliance =
  co_db :: db
  co_screenings :: "SanctionsScreening list"
  co_adjudications :: "SanctionsAdjudication list"

section \<open>The client\<close>

datatype http_outcome = HO_failed string | HO_response nat "string + reply"

record sanctions_env =
  sv_enabled :: bool
  sv_api_key :: string
  sv_review_threshold :: decimal
  sv_hard_threshold :: decimal
  sv_match_post :: "(string \<times> string) list \<Rightarrow> http_outcome"
  sv_lei_get :: "string \<Rightarrow> http_outcome"
  sv_fingerprint :: fingerprint
  sv_show :: "detail \<Rightarrow> string"

text \<open>The check of \<open>core/config.py\<close> without which the application does not start.\<close>

definition thresholds_valid :: "sanctions_env \<Rightarrow> bool" where
  "thresholds_valid env \<longleftrightarrow> 0 \<le> sv_review_threshold env \<and> sv_review_threshold env < sv_hard_threshold env \<and> sv_hard_threshold env \<le> 1"

record MatchResult =
  mr_top_score :: decimal
  mr_match_count :: nat
  mr_matches :: "reply list"
  mr_dataset_version :: "reply option"
  mr_algorithm :: string

text \<open>The properties of the one query; a missing or empty value is left out.\<close>

definition build_envelope :: "string \<Rightarrow> string option \<Rightarrow> string option \<Rightarrow> string option \<Rightarrow> (string \<times> string) list" where
  "build_envelope name country tax_id lei =
     (''name'', name) # concat (map (\<lambda>(k, v). case v of None \<Rightarrow> [] | Some x \<Rightarrow> if x = '''' then [] else [(k, x)])
       [(''jurisdiction'', country), (''registrationNumber'', tax_id), (''leiCode'', lei)])"

definition is_success :: "nat \<Rightarrow> bool" where
  "is_success code \<longleftrightarrow> 200 \<le> code \<and> code < 300"

text \<open>\<open>reply[key]\<close>: a missing key is a \<open>KeyError\<close>, anything but an object a \<open>TypeError\<close>.\<close>

fun subscript :: "reply \<Rightarrow> string \<Rightarrow> reply option" where
  "subscript (R_obj members) key = map_of members key"
| "subscript _ key = None"

fun is_obj :: "reply \<Rightarrow> bool" where
  "is_obj (R_obj members) = True"
| "is_obj _ = False"

text \<open>\<open>Decimal\<close> of a text: sign, digits with an optional point, optional exponent, or one of the
  special values.\<close>

datatype py_decimal = Finite decimal | Special

definition digit_values :: "string \<Rightarrow> nat list" where
  "digit_values s = map (\<lambda>c. of_char c - 48) s"

definition parse_exponent :: "string \<Rightarrow> int option" where
  "parse_exponent s = (case s of [] \<Rightarrow> Some 0
     | _ # t \<Rightarrow>
        (let neg = (t \<noteq> [] \<and> hd t = CHR ''-''); ds = (if t \<noteq> [] \<and> hd t \<in> {CHR ''+'', CHR ''-''} then tl t else t)
         in if ds = [] \<or> \<not> list_all is_digit ds then None
            else Some (if neg then - int (int_of_digits (digit_values ds)) else int (int_of_digits (digit_values ds)))))"

definition scale10 :: "nat \<Rightarrow> int \<Rightarrow> decimal" where
  "scale10 n k = (if 0 \<le> k then of_nat n * 10 ^ nat k else of_nat n / 10 ^ nat (- k))"

definition decimal_of_string :: "string \<Rightarrow> py_decimal option" where
  "decimal_of_string s =
     (let t = upper (filter (\<lambda>c. c \<noteq> CHR ''_'') (strip s));
          neg = (t \<noteq> [] \<and> hd t = CHR ''-'');
          u = (if t \<noteq> [] \<and> hd t \<in> {CHR ''+'', CHR ''-''} then tl t else t);
          nan = (if u \<noteq> [] \<and> hd u = CHR ''S'' then tl u else u);
          whole = takeWhile is_digit u; rest = dropWhile is_digit u;
          frac = (if rest \<noteq> [] \<and> hd rest = CHR ''.'' then takeWhile is_digit (tl rest) else []);
          expo = (if rest \<noteq> [] \<and> hd rest = CHR ''.'' then dropWhile is_digit (tl rest) else rest)
      in if u = ''INF'' \<or> u = ''INFINITY'' \<or> take 3 nan = ''NAN'' \<and> list_all is_digit (drop 3 nan) then Some Special
         else if whole @ frac = [] \<or> (expo \<noteq> [] \<and> hd expo \<noteq> CHR ''E'') then None
         else (case parse_exponent expo of None \<Rightarrow> None
               | Some k \<Rightarrow> Some (Finite ((if neg then - 1 else 1) *
                   scale10 (int_of_digits (digit_values (whole @ frac))) (k - int (length frac))))))"

fun score_of :: "reply \<Rightarrow> py_decimal option" where
  "score_of (R_num q) = Some (Finite q)"
| "score_of R_nonfinite = Some Special"
| "score_of (R_str s) = decimal_of_string s"
| "score_of _ = None"

definition bad_score :: "py_decimal \<Rightarrow> bool" where
  "bad_score x = (case x of Special \<Rightarrow> True | Finite q \<Rightarrow> q < 0 \<or> 1 < q)"

definition finite_value :: "py_decimal \<Rightarrow> decimal" where
  "finite_value x = (case x of Finite q \<Rightarrow> q | Special \<Rightarrow> 0)"

definition provider_error :: "string \<Rightarrow> detail + 'a" where
  "provider_error m = Inl (Msg m [])"

definition parse_results :: "reply list \<Rightarrow> reply option \<Rightarrow> detail + MatchResult" where
  "parse_results results version =
     (if \<not> list_all is_obj results then provider_error ''OpenSanctions 'results' is malformed (expected a list of objects)''
      else if list_ex (\<lambda>r. subscript r ''score'' = None) results then Inl (Msg ''OpenSanctions match result is missing a {}'' [AStr ''score''])
      else let scores = map (\<lambda>r. score_of (the (subscript r ''score''))) results
           in if None \<in> set scores then provider_error ''OpenSanctions returned malformed match results''
              else if list_ex bad_score (map the scores) then provider_error ''OpenSanctions returned a non-finite or out-of-range score''
              else Inr \<lparr>mr_top_score = (if scores = [] then 0 else Max (set (map (finite_value \<circ> the) scores))),
                        mr_match_count = length results, mr_matches = results, mr_dataset_version = version,
                        mr_algorithm = ''logic-v2''\<rparr>)"

definition parse_match_reply :: "reply \<Rightarrow> detail + MatchResult" where
  "parse_match_reply data =
     (case subscript data ''responses'' of None \<Rightarrow> provider_error ''OpenSanctions response missing query''
      | Some responses \<Rightarrow>
     (case subscript responses ''q1'' of None \<Rightarrow> provider_error ''OpenSanctions response missing query''
      | Some query_response \<Rightarrow>
        (if subscript query_response ''status'' \<notin> {None, Some R_null, Some (R_num 200)}
         then provider_error ''OpenSanctions query status''
         else (case subscript query_response ''results'' of
                 None \<Rightarrow> provider_error ''OpenSanctions response missing results''
               | Some (R_list results) \<Rightarrow> parse_results results (subscript query_response ''dataset_version'')
               | Some _ \<Rightarrow> provider_error ''OpenSanctions 'results' is malformed (expected a list of objects)''))))"

definition screen_entity ::
    "sanctions_env \<Rightarrow> string \<Rightarrow> string option \<Rightarrow> string option \<Rightarrow> string option \<Rightarrow> detail + MatchResult" where
  "screen_entity env name country tax_id lei =
     (if strip (sv_api_key env) = '''' then provider_error ''OPENSANCTIONS_API_KEY is not configured''
      else case sv_match_post env (build_envelope name country tax_id lei) of
             HO_failed e \<Rightarrow> Inl (Msg ''OpenSanctions request failed: {}'' [AStr e])
           | HO_response code body \<Rightarrow>
               if \<not> is_success code then Inl (Msg ''OpenSanctions request failed: {}'' [ANat code])
               else (case body of Inl e \<Rightarrow> Inl (Msg ''OpenSanctions returned unparseable body: {}'' [AStr e])
                     | Inr data \<Rightarrow> parse_match_reply data))"

section \<open>Screening\<close>

text \<open>What the service reads of a partner of either kind: the four values it screens, and the status.
  A hedge counterparty has no \<open>lei\<close> column.\<close>

record screened_entity =
  en_identity :: "string option list"
  en_status :: SanctionsStatus

definition of_partner :: "CommercialPartner \<Rightarrow> screened_entity" where
  "of_partner p = \<lparr>en_identity = map (par_text p) [''name'', ''country'', ''tax_id'', ''lei''], en_status = par_sanctions_status p\<rparr>"

definition of_counterparty :: "Counterparty \<Rightarrow> screened_entity" where
  "of_counterparty cp = \<lparr>en_identity = map (cp_text cp) [''name'', ''country'', ''tax_id''] @ [None], en_status = cp_sanctions_status cp\<rparr>"

fun entity_of :: "db \<Rightarrow> SanctionsPartnerType \<Rightarrow> uuid \<Rightarrow> screened_entity option" where
  "entity_of s SPT_commercial i = map_option of_partner (get_partner s i)"
| "entity_of s SPT_hedge i = map_option of_counterparty (get_counterparty_by_id s i)"

text \<open>The hash of what is screened: the four values by their names, with sorted keys.\<close>

definition identity_hash :: "sanctions_env \<Rightarrow> string option list \<Rightarrow> string" where
  "identity_hash env identity =
     sha256_json (sv_fingerprint env) (JObj [(''country'', json_option JStr (identity ! 1)), (''lei'', json_option JStr (identity ! 3)),
       (''name'', json_option JStr (identity ! 0)), (''tax_id'', json_option JStr (identity ! 2))])"

definition load_entity :: "db \<Rightarrow> SanctionsPartnerType \<Rightarrow> uuid \<Rightarrow> screened_entity result" where
  "load_entity s t i = require (entity_of s t i) (http HTTP_404 ''Partner not found'')"

fun set_sanctions_status :: "SanctionsPartnerType \<Rightarrow> uuid \<Rightarrow> SanctionsStatus \<Rightarrow> db \<Rightarrow> db" where
  "set_sanctions_status SPT_commercial i v = write_partner i (\<lambda>p. p\<lparr>par_sanctions_status := v\<rparr>)"
| "set_sanctions_status SPT_hedge i v = write_counterparty i (\<lambda>cp. cp\<lparr>cp_sanctions_status := v\<rparr>)"

fun entity_audit_type :: "SanctionsPartnerType \<Rightarrow> string" where
  "entity_audit_type SPT_commercial = ''commercial_partner''"
| "entity_audit_type SPT_hedge = ''counterparty''"

fun partner_type_value :: "SanctionsPartnerType \<Rightarrow> string" where
  "partner_type_value SPT_commercial = ''commercial''"
| "partner_type_value SPT_hedge = ''hedge''"

fun result_status :: "ScreeningResult \<Rightarrow> SanctionsStatus" where
  "result_status SR_clear = SAN_clear"
| "result_status SR_flagged = SAN_flagged"
| "result_status SR_blocked = SAN_blocked"

fun decision_status :: "AdjudicationDecision \<Rightarrow> SanctionsStatus" where
  "decision_status AD_clear = SAN_clear"
| "decision_status AD_blocked = SAN_blocked"

definition map_score_to_result :: "decimal \<Rightarrow> decimal \<Rightarrow> decimal \<Rightarrow> ScreeningResult" where
  "map_score_to_result top_score review_threshold hard_threshold =
     (if hard_threshold \<le> top_score then SR_blocked else if review_threshold \<le> top_score then SR_flagged else SR_clear)"

text \<open>The evidence of a failure is committed on a session of its own.\<close>

definition record_error_screening ::
    "sanctions_env \<Rightarrow> datetime \<Rightarrow> SanctionsPartnerType \<Rightarrow> uuid \<Rightarrow> string \<Rightarrow> detail \<Rightarrow> string \<Rightarrow> compliance \<Rightarrow> compliance" where
  "record_error_screening env now t i actor_sub detail query_hash c =
     (let s = co_db c; sid = next_uuid s; text = take 2000 (sv_show env detail)
      in c\<lparr>co_db := record_audit (entity_audit_type t) i ''sanctions_screening_error''
             [(''partner_type'', Some (AStr (partner_type_value t))), (''partner_id'', Some (AId i)), (''screening_id'', Some (AId sid)),
              (''query_hash'', Some (AStr query_hash)), (''error_detail'', Some (AStr text)), (''actor_sub'', Some (AStr actor_sub))]
             (s\<lparr>next_uuid := Suc (next_uuid s)\<rparr>),
           co_screenings := co_screenings c @ [\<lparr>ss_id = sid, ss_partner_type = t, ss_partner_id = i, ss_screened_at = now,
             ss_provider = ''opensanctions'', ss_algorithm = ''logic-v2'', ss_dataset_version = None, ss_query_hash = query_hash,
             ss_top_score = None, ss_match_count = 0, ss_matches_json = None, ss_result = None, ss_actor_sub = actor_sub,
             ss_status = SS_error, ss_error_detail = Some text\<rparr>]\<rparr>)"

definition success_screening ::
    "sanctions_env \<Rightarrow> datetime \<Rightarrow> SanctionsPartnerType \<Rightarrow> uuid \<Rightarrow> string \<Rightarrow> string \<Rightarrow> MatchResult \<Rightarrow> uuid \<Rightarrow> SanctionsScreening" where
  "success_screening env now t i actor_sub query_hash match sid =
     \<lparr>ss_id = sid, ss_partner_type = t, ss_partner_id = i, ss_screened_at = now, ss_provider = ''opensanctions'',
      ss_algorithm = mr_algorithm match, ss_dataset_version = mr_dataset_version match, ss_query_hash = query_hash,
      ss_top_score = Some (mr_top_score match), ss_match_count = mr_match_count match, ss_matches_json = Some (mr_matches match),
      ss_result = Some (map_score_to_result (mr_top_score match) (sv_review_threshold env) (sv_hard_threshold env)),
      ss_actor_sub = actor_sub, ss_status = SS_success, ss_error_detail = None\<rparr>"

definition screen ::
    "sanctions_env \<Rightarrow> datetime \<Rightarrow> string \<Rightarrow> SanctionsPartnerType \<Rightarrow> uuid \<Rightarrow> compliance \<Rightarrow> compliance \<times> uuid result" where
  "screen env now actor_sub t i c =
     (if \<not> sv_enabled env then (c, Inl (HTTPException 503 (Msg ''sanctions_screening_disabled'' [AId i])))
      else case load_entity (co_db c) t i of
        Inl e \<Rightarrow> (c, Inl e)
      | Inr entity \<Rightarrow>
         (let query_hash = identity_hash env (en_identity entity);
              name = (case en_identity entity ! 0 of None \<Rightarrow> '''' | Some n \<Rightarrow> n)
          in case screen_entity env name (en_identity entity ! 1) (en_identity entity ! 2) (en_identity entity ! 3) of
               Inl detail \<Rightarrow> (record_error_screening env now t i actor_sub detail query_hash c,
                              Inl (HTTPException 502 (Msg ''sanctions_screening_provider_error'' [AId i])))
             | Inr match \<Rightarrow>
                (let s = co_db c; sid = next_uuid s; row = success_screening env now t i actor_sub query_hash match sid;
                     res = map_score_to_result (mr_top_score match) (sv_review_threshold env) (sv_hard_threshold env)
                 in (c\<lparr>co_db := record_audit (entity_audit_type t) i ''sanctions_status_changed''
                         [(''partner_type'', Some (AStr (partner_type_value t))), (''partner_id'', Some (AId i)),
                          (''previous_status'', Some (AStr (sanctions_value (en_status entity)))),
                          (''new_status'', Some (AStr (sanctions_value (result_status res)))), (''screening_id'', Some (AId sid)),
                          (''top_score'', Some (ADec (mr_top_score match))), (''result'', Some (AStr (sanctions_value (result_status res)))),
                          (''actor_sub'', Some (AStr actor_sub))]
                         (set_sanctions_status t i (result_status res) (s\<lparr>next_uuid := Suc (next_uuid s)\<rparr>)),
                       co_screenings := co_screenings c @ [row]\<rparr>, Inr sid))))"

section \<open>Adjudication\<close>

text \<open>SQL leaves rows of equal times in any order; here the earlier one comes first.\<close>

definition latest_screening :: "compliance \<Rightarrow> SanctionsPartnerType \<Rightarrow> uuid \<Rightarrow> SanctionsScreening option" where
  "latest_screening c t i =
     (case sort_key (\<lambda>r. - ss_screened_at r) (filter (\<lambda>r. ss_partner_type r = t \<and> ss_partner_id r = i \<and> ss_status r = SS_success) (co_screenings c))
      of [] \<Rightarrow> None | r # _ \<Rightarrow> Some r)"

definition latest_adjudication :: "compliance \<Rightarrow> SanctionsPartnerType \<Rightarrow> uuid \<Rightarrow> SanctionsAdjudication option" where
  "latest_adjudication c t i =
     (case sort_key (\<lambda>r. - sa_adjudicated_at r) (filter (\<lambda>r. sa_partner_type r = t \<and> sa_partner_id r = i) (co_adjudications c))
      of [] \<Rightarrow> None | r # _ \<Rightarrow> Some r)"

definition effective_sanctions_status :: "compliance \<Rightarrow> SanctionsPartnerType \<Rightarrow> uuid \<Rightarrow> SanctionsStatus option" where
  "effective_sanctions_status c t i =
     (case (latest_screening c t i, latest_adjudication c t i) of
        (None, None) \<Rightarrow> None
      | (Some r, None) \<Rightarrow> map_option result_status (ss_result r)
      | (None, Some a) \<Rightarrow> Some (decision_status (sa_decision a))
      | (Some r, Some a) \<Rightarrow> if ss_screened_at r \<le> sa_adjudicated_at a then Some (decision_status (sa_decision a))
                             else map_option result_status (ss_result r))"

definition flagged_screening :: "SanctionsScreening option \<Rightarrow> SanctionsAdjudication option \<Rightarrow> bool" where
  "flagged_screening screening adjudication = (case screening of None \<Rightarrow> False
     | Some r \<Rightarrow> ss_result r = Some SR_flagged
         \<and> (case adjudication of None \<Rightarrow> True | Some a \<Rightarrow> sa_adjudicated_at a < ss_screened_at r))"

definition adjudicate ::
    "datetime \<Rightarrow> SanctionsPartnerType \<Rightarrow> uuid \<Rightarrow> AdjudicationDecision \<Rightarrow> string \<Rightarrow> string \<Rightarrow> compliance \<Rightarrow> (compliance \<times> uuid) result" where
  "adjudicate now t i decision reason actor_sub c =
     and_then (load_entity (co_db c) t i) (\<lambda>entity.
     let screening = latest_screening c t i; adjudication = latest_adjudication c t i
     in and_then (raise_if (\<not> flagged_screening screening adjudication \<or> en_status entity \<noteq> SAN_flagged) (HTTPException HTTP_422
          (Msg ''sanctions_adjudication_invalid_target: adjudication is valid only when the current status is flagged from the latest screening (an identity edit resets it to unscreened)'' [AId i]))) (\<lambda>_.
        and_then (require screening (RuntimeError (Msg ''screening is None'' []))) (\<lambda>screening.
        let s = co_db c; aid = next_uuid s
        in Inr (c\<lparr>co_db := record_audit (entity_audit_type t) i ''sanctions_status_adjudicated''
                    [(''partner_type'', Some (AStr (partner_type_value t))), (''partner_id'', Some (AId i)),
                     (''previous_status'', Some (AStr (sanctions_value (en_status entity)))),
                     (''new_status'', Some (AStr (sanctions_value (decision_status decision)))),
                     (''superseded_screening_id'', Some (AId (ss_id screening))), (''reason'', Some (AStr reason)),
                     (''actor_sub'', Some (AStr actor_sub))]
                    (set_sanctions_status t i (decision_status decision) (s\<lparr>next_uuid := Suc (next_uuid s)\<rparr>)),
                  co_adjudications := co_adjudications c @ [\<lparr>sa_id = aid, sa_partner_type = t, sa_partner_id = i,
                     sa_superseded_screening_id = ss_id screening, sa_decision = decision, sa_reason = reason,
                     sa_adjudicating_actor_sub = actor_sub, sa_adjudicated_at = now\<rparr>]\<rparr>, aid))))"

section \<open>Routes and the daily job\<close>

definition screen_counterparty_route ::
    "sanctions_env \<Rightarrow> datetime \<Rightarrow> string set \<Rightarrow> string \<Rightarrow> uuid \<Rightarrow> compliance \<Rightarrow> compliance \<times> uuid result" where
  "screen_counterparty_route env now roles actor_sub i c =
     (if is_trader_only roles then (c, Inl (http HTTP_404 ''Counterparty not found''))
      else screen env now actor_sub SPT_hedge i c)"

definition adjudicate_counterparty_route ::
    "datetime \<Rightarrow> string set \<Rightarrow> uuid \<Rightarrow> AdjudicationDecision \<Rightarrow> string \<Rightarrow> string \<Rightarrow> compliance \<Rightarrow> (compliance \<times> uuid) result" where
  "adjudicate_counterparty_route now roles i decision reason actor_sub c =
     and_then (raise_if (is_trader_only roles) (http HTTP_404 ''Counterparty not found'')) (\<lambda>_.
     adjudicate now SPT_hedge i decision reason actor_sub c)"

definition reason_meaningful :: "string \<Rightarrow> bool" where
  "reason_meaningful v \<longleftrightarrow> 8 \<le> length v \<and> 8 \<le> length (strip v)"

text \<open>The clock of the \<open>n\<close>-th screening is an argument; a failing partner does not stop the job.\<close>

fun rescreen_loop ::
    "sanctions_env \<Rightarrow> (nat \<Rightarrow> datetime) \<Rightarrow> nat \<Rightarrow> (SanctionsPartnerType \<times> uuid) list \<Rightarrow> compliance \<Rightarrow> nat \<Rightarrow> nat
      \<Rightarrow> compliance \<times> nat \<times> nat" where
  "rescreen_loop env clock n [] c screened errors = (c, screened, errors)"
| "rescreen_loop env clock n ((t, i) # targets) c screened errors =
     (case screen env (clock n) ''service:sanctions_screening'' t i c of
        (c', Inr _) \<Rightarrow> rescreen_loop env clock (Suc n) targets c' (Suc screened) errors
      | (c', Inl _) \<Rightarrow> rescreen_loop env clock (Suc n) targets c' screened (Suc errors))"

definition rescreen_targets :: "db \<Rightarrow> (SanctionsPartnerType \<times> uuid) list" where
  "rescreen_targets s =
     map (\<lambda>p. (SPT_commercial, par_id p)) (filter (\<lambda>p. \<not> par_is_deleted p \<and> par_is_active p) (partners s))
     @ map (\<lambda>cp. (SPT_hedge, cp_id cp)) (filter (\<lambda>cp. \<not> cp_is_deleted cp \<and> cp_is_active cp) (counterparties s))"

definition run_sanctions_rescreen_daily :: "sanctions_env \<Rightarrow> (nat \<Rightarrow> datetime) \<Rightarrow> compliance \<Rightarrow> compliance \<times> nat \<times> nat" where
  "run_sanctions_rescreen_daily env clock c =
     (if \<not> sv_enabled env then (c, 0, 0) else rescreen_loop env clock 0 (rescreen_targets (co_db c)) c 0 0)"

section \<open>Legal entity identifiers\<close>

record GleifRecord =
  gr_registration_status :: reply
  gr_legal_name :: "reply option"

fun falsy :: "reply \<Rightarrow> bool" where
  "falsy R_null = True"
| "falsy (R_bool b) = (\<not> b)"
| "falsy (R_num q) = (q = 0)"
| "falsy R_nonfinite = False"
| "falsy (R_str x) = (x = '''')"
| "falsy (R_list xs) = (xs = [])"
| "falsy (R_obj members) = (members = [])"

text \<open>\<open>attributes.get(key) or {}\<close>.\<close>

definition object_or_empty :: "reply option \<Rightarrow> reply" where
  "object_or_empty v = (case v of None \<Rightarrow> R_obj [] | Some x \<Rightarrow> if falsy x then R_obj [] else x)"

text \<open>A lookup finds a record, or that there is none, or fails, or raises an exception that nothing
  catches: \<open>get\<close> on a member that is not an object.\<close>

datatype lei_lookup = LL_record GleifRecord | LL_missing | LL_failed detail | LL_raised py_error

definition attribute_error :: py_error where
  "attribute_error = RuntimeError (Msg ''AttributeError'' [])"

definition parse_lei_record :: "reply \<Rightarrow> lei_lookup" where
  "parse_lei_record data =
     (case Option.bind (subscript data ''data'') (\<lambda>d. subscript d ''attributes'') of
        None \<Rightarrow> LL_failed (Msg ''GLEIF response missing expected fields'' [])
      | Some attributes \<Rightarrow>
     (case Option.bind (subscript attributes ''registration'') (\<lambda>r. subscript r ''status'') of
        None \<Rightarrow> LL_failed (Msg ''GLEIF response missing expected fields'' [])
      | Some registration_status \<Rightarrow>
         (let entity = object_or_empty (subscript attributes ''entity'');
              legal_name_obj = object_or_empty (subscript entity ''legalName'')
          in if \<not> is_obj entity \<or> \<not> is_obj legal_name_obj then LL_raised attribute_error
             else if falsy registration_status then LL_failed (Msg ''GLEIF response missing registration status'' [])
             else LL_record \<lparr>gr_registration_status = registration_status, gr_legal_name = subscript legal_name_obj ''name''\<rparr>)))"

definition fetch_lei_record :: "sanctions_env \<Rightarrow> string \<Rightarrow> lei_lookup" where
  "fetch_lei_record env lei =
     (case sv_lei_get env lei of
        HO_failed e \<Rightarrow> LL_failed (Msg ''GLEIF request failed: {}'' [AStr e])
      | HO_response code body \<Rightarrow>
          if code = 404 then LL_missing
          else if \<not> is_success code then LL_failed (Msg ''GLEIF request failed: {}'' [ANat code])
          else (case body of Inl e \<Rightarrow> LL_failed (Msg ''GLEIF returned unparseable body: {}'' [AStr e])
                | Inr data \<Rightarrow> parse_lei_record data))"

fun lei_status_value :: "LeiStatus \<Rightarrow> string" where
  "lei_status_value LEI_not_provided = ''not_provided''"
| "lei_status_value LEI_valid = ''valid''"
| "lei_status_value LEI_invalid = ''invalid''"
| "lei_status_value LEI_lapsed = ''lapsed''"
| "lei_status_value LEI_issued = ''issued''"
| "lei_status_value LEI_error = ''error''"

definition LEI_STATUS_MAP :: "(reply \<times> LeiStatus) list" where
  "LEI_STATUS_MAP = [(R_str ''ISSUED'', LEI_issued), (R_str ''LAPSED'', LEI_lapsed)]"

text \<open>The name of the register as the column keeps it; a list or an object as status is not hashable,
  and a name that is neither a text nor empty has no \<open>strip\<close>.\<close>

definition register_name :: "reply option \<Rightarrow> string option" where
  "register_name v = (case v of Some (R_str x) \<Rightarrow> Some x | _ \<Rightarrow> None)"

definition bad_record :: "GleifRecord \<Rightarrow> bool" where
  "bad_record r \<longleftrightarrow> (case gr_registration_status r of R_list _ \<Rightarrow> True | R_obj _ \<Rightarrow> True | _ \<Rightarrow> False)
     \<or> (case gr_legal_name r of None \<Rightarrow> False | Some (R_str _) \<Rightarrow> False | Some x \<Rightarrow> \<not> falsy x)"

text \<open>What the validation writes, and its warnings; the name is left as it is when the lookup fails.\<close>

definition lei_outcome ::
    "sanctions_env \<Rightarrow> CommercialPartner \<Rightarrow> (LeiStatus \<times> string option \<times> detail list) result" where
  "lei_outcome env p =
     (case par_text p ''lei'' of
        None \<Rightarrow> Inr (LEI_not_provided, None, [])
      | Some lei \<Rightarrow>
         if strip lei = '''' then Inr (LEI_not_provided, None, [])
         else if \<not> lei_checksum_ok lei then Inr (LEI_invalid, None, [Msg ''LEI failed the ISO 17442 checksum'' []])
         else (case fetch_lei_record env lei of
                 LL_failed d \<Rightarrow> Inr (LEI_error, par_lei_legal_name p, [Msg ''GLEIF lookup failed: {}'' [AStr (sv_show env d)]])
               | LL_missing \<Rightarrow> Inr (LEI_invalid, None, [Msg ''LEI not found in GLEIF registry'' []])
               | LL_raised e \<Rightarrow> Inl e
               | LL_record r \<Rightarrow>
                   if bad_record r then Inl attribute_error
                   else let status = gr_registration_status r; name = register_name (gr_legal_name r)
                        in Inr (case map_of LEI_STATUS_MAP status of None \<Rightarrow> LEI_lapsed | Some x \<Rightarrow> x, name,
                             (if map_of LEI_STATUS_MAP status = None then [Msg ''GLEIF registration status'' []] else [])
                             @ (if names_diverge name (par_text p ''name'') then [Msg ''LEI legal name differs from partner name'' []] else []))))"

definition validate_lei :: "sanctions_env \<Rightarrow> datetime \<Rightarrow> string \<Rightarrow> uuid \<Rightarrow> db \<Rightarrow> (db \<times> detail list) result" where
  "validate_lei env now actor_sub i s =
     and_then (require (get_partner s i) (http HTTP_404 ''Commercial partner not found'')) (\<lambda>p.
     and_then (lei_outcome env p) (\<lambda>(status, name, warnings).
     Inr (record_audit ''commercial_partner'' i ''commercial_partner_lei_validated''
            [(''commercial_partner_id'', Some (AId i)), (''lei'', map_option AStr (par_text p ''lei'')),
             (''previous_status'', Some (AStr (lei_status_value (par_lei_status p)))),
             (''new_status'', Some (AStr (lei_status_value status))), (''lei_legal_name'', map_option AStr name),
             (''actor_sub'', Some (AStr actor_sub))]
            (write_partner i (\<lambda>p. p\<lparr>par_lei_status := status, par_lei_legal_name := name, par_lei_checked_at := Some now\<rparr>) s),
          warnings)))"

end
