(* ===== verification/Compliance_Runs.thy ===== *)
theory Compliance_Runs
  imports Sanctions_Screening
begin

text \<open>
  Every operation on the partners, in any order: the sanctions status of a partner is backed by a
  screening of the identity the partner has now, and approvals and credit rest on it.
\<close>

section \<open>Runs\<close>

inductive compliance_step :: "sanctions_env \<Rightarrow> compliance \<Rightarrow> datetime \<Rightarrow> compliance \<Rightarrow> bool" for env where
  screened: "screen env now actor t i c = (c', res) \<Longrightarrow> compliance_step env c now c'"
| adjudicated: "adjudicate now t i decision reason actor c = Inr (c', a) \<Longrightarrow> compliance_step env c now c'"
| partner_posted: "post_partner (co_db c) now p = Inr (s', i) \<Longrightarrow> compliance_step env c now (c\<lparr>co_db := s'\<rparr>)"
| partner_patched: "patch_partner (co_db c) keys i data = Inr s' \<Longrightarrow> compliance_step env c now (c\<lparr>co_db := s'\<rparr>)"
| partner_deleted: "delete_partner (co_db c) now i = Inr s' \<Longrightarrow> compliance_step env c now (c\<lparr>co_db := s'\<rparr>)"
| partner_kyc: "set_partner_kyc (co_db c) i k = Inr (s', old) \<Longrightarrow> compliance_step env c now (c\<lparr>co_db := s'\<rparr>)"
| partner_credit: "patch_partner_credit (co_db c) i cd = Inr (s', out) \<Longrightarrow> compliance_step env c now (c\<lparr>co_db := s'\<rparr>)"
| lei_validated: "validate_lei env now actor i (co_db c) = Inr (s', ws) \<Longrightarrow> compliance_step env c now (c\<lparr>co_db := s'\<rparr>)"
| counterparty_posted: "post_counterparty (co_db c) now roles cc = Inr (s', i) \<Longrightarrow> compliance_step env c now (c\<lparr>co_db := s'\<rparr>)"
| counterparty_patched: "patch_counterparty (co_db c) roles i cu = Inr s' \<Longrightarrow> compliance_step env c now (c\<lparr>co_db := s'\<rparr>)"
| counterparty_deleted: "delete_counterparty (co_db c) now roles i = Inr s' \<Longrightarrow> compliance_step env c now (c\<lparr>co_db := s'\<rparr>)"
| counterparty_kyc: "set_kyc_status (co_db c) i k = Inr (s', old) \<Longrightarrow> compliance_step env c now (c\<lparr>co_db := s'\<rparr>)"
| other: "partners s' = partners (co_db c) \<Longrightarrow> counterparties s' = counterparties (co_db c) \<Longrightarrow> next_uuid (co_db c) \<le> next_uuid s'
    \<Longrightarrow> compliance_step env c now (c\<lparr>co_db := s'\<rparr>)"

text \<open>The clock moves on from one operation to the next.\<close>

inductive compliance_run :: "sanctions_env \<Rightarrow> compliance \<Rightarrow> datetime \<Rightarrow> compliance \<Rightarrow> bool" for env c0 where
  run_start: "compliance_run env c0 now c0"
| run_step: "compliance_run env c0 now c \<Longrightarrow> compliance_step env c now' c' \<Longrightarrow> now < now' \<Longrightarrow> compliance_run env c0 now' c'"

section \<open>What a step does to a screened partner\<close>

text \<open>Every other write keeps status and identity together, or drops the status.\<close>

definition entities_kept :: "db \<Rightarrow> db \<Rightarrow> bool" where
  "entities_kept s s' \<longleftrightarrow> (\<forall>t i en'. entity_of s' t i = Some en' \<longrightarrow> en_status en' = SAN_unscreened
     \<or> (\<exists>en. entity_of s t i = Some en \<and> en_status en = en_status en' \<and> en_identity en = en_identity en'))"

lemma entity_of_cong: "partners s' = partners s \<Longrightarrow> counterparties s' = counterparties s \<Longrightarrow> entity_of s' t i = entity_of s t i"
  by (cases t) (simp_all add: get_partner_def get_counterparty_by_id_def get_counterparty_row_def)

lemma entities_kept_cong: "partners s' = partners s \<Longrightarrow> counterparties s' = counterparties s \<Longrightarrow> entities_kept s s'"
  using entity_of_cong[of s' s] by (auto simp: entities_kept_def)

lemma get_partner_write:
  assumes "\<And>p. par_id (f p) = par_id p"
  shows "get_partner (write_partner i f s) j = (case get_row par_id j (partners s) of None \<Rightarrow> None
    | Some p \<Rightarrow> let q = (if j = i then f p else p) in if par_is_deleted q then None else Some q)"
  using assms by (auto simp: get_partner_def write_partner_def table_simps split: option.splits)

lemma get_counterparty_write:
  assumes "\<And>p. cp_id (f p) = cp_id p"
  shows "get_counterparty_by_id (write_counterparty i f s) j = (case get_row cp_id j (counterparties s) of None \<Rightarrow> None
    | Some p \<Rightarrow> let q = (if j = i then f p else p) in if cp_is_deleted q then None else Some q)"
  using assms by (auto simp: get_counterparty_by_id_def get_counterparty_row_def write_counterparty_def table_simps split: option.splits)

lemma write_frames [simp]:
  "counterparties (write_partner i f s) = counterparties s" "partners (write_counterparty i g s) = partners s"
  "next_uuid (write_partner i f s) = next_uuid s" "next_uuid (write_counterparty i g s) = next_uuid s"
  by (simp_all add: write_partner_def write_counterparty_def)

lemma hedge_write_partner: "entity_of (write_partner i f s) SPT_hedge j = entity_of s SPT_hedge j"
  by (simp add: get_counterparty_by_id_def get_counterparty_row_def)

lemma commercial_write_counterparty: "entity_of (write_counterparty i f s) SPT_commercial j = entity_of s SPT_commercial j"
  by (simp add: get_partner_def)

text \<open>The contract of a row update, for both tables.\<close>

definition keeps_screening :: "('r \<Rightarrow> bool) \<Rightarrow> ('r \<Rightarrow> screened_entity) \<Rightarrow> ('r \<Rightarrow> 'r) \<Rightarrow> bool" where
  "keeps_screening deleted view f \<longleftrightarrow> (\<forall>r. (deleted r \<longrightarrow> deleted (f r)) \<and> (en_status (view (f r)) = SAN_unscreened
     \<or> en_status (view (f r)) = en_status (view r) \<and> en_identity (view (f r)) = en_identity (view r)))"

lemma write_partner_kept:
  assumes "\<And>p. par_id (f p) = par_id p" and "keeps_screening par_is_deleted of_partner f"
  shows "entities_kept s (write_partner i f s)"
  unfolding entities_kept_def
proof (intro allI impI)
  fix t j en' assume e: "entity_of (write_partner i f s) t j = Some en'"
  show "en_status en' = SAN_unscreened \<or> (\<exists>en. entity_of s t j = Some en \<and> en_status en = en_status en' \<and> en_identity en = en_identity en')"
  proof (cases t)
    case SPT_commercial
    then show ?thesis
      using e assms(2) by (simp add: get_partner_write[OF assms(1)])
        (fastforce simp: keeps_screening_def get_partner_def Let_def split: option.splits if_splits)
  next
    case SPT_hedge
    then show ?thesis using e by (simp only: hedge_write_partner) blast
  qed
qed

lemma write_counterparty_kept:
  assumes "\<And>p. cp_id (f p) = cp_id p" and "keeps_screening cp_is_deleted of_counterparty f"
  shows "entities_kept s (write_counterparty i f s)"
  unfolding entities_kept_def
proof (intro allI impI)
  fix t j en' assume e: "entity_of (write_counterparty i f s) t j = Some en'"
  show "en_status en' = SAN_unscreened \<or> (\<exists>en. entity_of s t j = Some en \<and> en_status en = en_status en' \<and> en_identity en = en_identity en')"
  proof (cases t)
    case SPT_hedge
    then show ?thesis
      using e assms(2) by (simp add: get_counterparty_write[OF assms(1)])
        (fastforce simp: keeps_screening_def get_counterparty_by_id_def get_counterparty_row_def Let_def split: option.splits if_splits)
  next
    case SPT_commercial
    then show ?thesis using e by (simp only: commercial_write_counterparty) blast
  qed
qed

text \<open>The two generic edits: an identity that changes takes the status with it.\<close>

lemma apply_partner_update_keeps: "keeps_screening par_is_deleted of_partner (apply_partner_update data)"
  unfolding keeps_screening_def
proof (intro allI conjI)
  fix p
  show "en_status (of_partner (apply_partner_update data p)) = SAN_unscreened
    \<or> en_status (of_partner (apply_partner_update data p)) = en_status (of_partner p)
      \<and> en_identity (of_partner (apply_partner_update data p)) = en_identity (of_partner p)"
  proof (cases "partner_identity_changed p data")
    case False
    then show ?thesis
      by (auto simp: partner_identity_changed_def PARTNER_IDENTITY_FIELDS_def apply_partner_update_def of_partner_def split: option.splits)
  qed (simp add: apply_partner_update_def of_partner_def)
qed (simp add: apply_partner_update_def)

lemma apply_counterparty_update_keeps: "keeps_screening cp_is_deleted of_counterparty (apply_counterparty_update data)"
  unfolding keeps_screening_def
proof (intro allI conjI)
  fix p
  show "en_status (of_counterparty (apply_counterparty_update data p)) = SAN_unscreened
    \<or> en_status (of_counterparty (apply_counterparty_update data p)) = en_status (of_counterparty p)
      \<and> en_identity (of_counterparty (apply_counterparty_update data p)) = en_identity (of_counterparty p)"
  proof (cases "identity_changed p data")
    case False
    then show ?thesis
      by (auto simp: identity_changed_def IDENTITY_FIELDS_def apply_counterparty_update_def of_counterparty_def split: option.splits)
  qed (simp add: apply_counterparty_update_def of_counterparty_def)
qed (simp add: apply_counterparty_update_def)

lemma set_credit_frame [simp]:
  "par_id (set_credit k v p) = par_id p" "par_is_deleted (set_credit k v p) = par_is_deleted p"
  "of_partner (set_credit k v p) = of_partner p" "par_kind (set_credit k v p) = par_kind p"
  "par_text (set_credit k v p) = par_text p" "par_deleted_at (set_credit k v p) = par_deleted_at p"
  "par_is_active (set_credit k v p) = par_is_active p" "par_lei_status (set_credit k v p) = par_lei_status p"
  "par_lei_legal_name (set_credit k v p) = par_lei_legal_name p"
  by (simp_all add: set_credit_def of_partner_def)

lemma apply_credit_frame [simp]:
  "par_id (apply_credit cd p) = par_id p" "par_is_deleted (apply_credit cd p) = par_is_deleted p"
  "of_partner (apply_credit cd p) = of_partner p" "par_kind (apply_credit cd p) = par_kind p"
  "par_text (apply_credit cd p) = par_text p" "par_deleted_at (apply_credit cd p) = par_deleted_at p"
  "par_is_active (apply_credit cd p) = par_is_active p" "par_lei_status (apply_credit cd p) = par_lei_status p"
  "par_lei_legal_name (apply_credit cd p) = par_lei_legal_name p"
  by (induction cd p rule: apply_credit.induct) simp_all

lemma flush_partners_Inr [simp]: "flush_partners s = Inr s' \<longleftrightarrow> s' = s \<and> distinct (live_tax_ids s)"
  by (auto simp: flush_partners_def)

text \<open>What the accepted partner operations do.\<close>

lemma partner_op_cases:
  shows "post_partner s now p = Inr (s', i) \<Longrightarrow> s' = s\<lparr>partners := partners s @ [new_partner (next_uuid s) now p], next_uuid := Suc (next_uuid s)\<rparr>
      \<and> distinct (live_tax_ids s')"
    and "patch_partner s keys i data = Inr s' \<Longrightarrow> \<exists>q. get_partner s i = Some q \<and> s' = write_partner (par_id q) (apply_partner_update data) s \<and> distinct (live_tax_ids s')"
    and "delete_partner s now i = Inr s' \<Longrightarrow> \<exists>q. get_partner s i = Some q
      \<and> s' = write_partner (par_id q) (\<lambda>p. p\<lparr>par_is_deleted := True, par_deleted_at := Some now, par_is_active := False\<rparr>) s"
    and "set_partner_kyc s i k = Inr (s', old) \<Longrightarrow> \<exists>q. get_partner s i = Some q \<and> s' = write_partner i (\<lambda>p. p\<lparr>par_kyc_status := k\<rparr>) s
      \<and> (k = KYC_approved \<longrightarrow> par_sanctions_status q = SAN_clear)"
    and "patch_partner_credit s i cd = Inr (s', out) \<Longrightarrow> \<exists>q. get_partner s i = Some q \<and> s' = write_partner (par_id q) (apply_credit cd) s
      \<and> par_sanctions_status q = SAN_clear \<and> fst ` set cd \<subseteq> set (allowed_credit_fields q)"
  by (auto simp: post_partner_def create_partner_def patch_partner_def update_partner_def delete_partner_def soft_delete_partner_def
      set_partner_kyc_def patch_partner_credit_def approve_credit_def Let_def filter_empty_conv)

lemma entities_kept_trans: "entities_kept s s1 \<Longrightarrow> entities_kept s1 s2 \<Longrightarrow> entities_kept s s2"
  unfolding entities_kept_def by metis

lemma entity_append_partner:
  assumes "entity_of (s\<lparr>partners := partners s @ [p], next_uuid := n\<rparr>) t i = Some en"
  shows "entity_of s t i = Some en \<or> en = of_partner p"
proof (cases t)
  case SPT_commercial
  have "get_row par_id i (partners s @ [p]) = (case get_row par_id i (partners s) of None \<Rightarrow> get_row par_id i [p] | Some r \<Rightarrow> Some r)"
    by (rule get_row_append)
  then show ?thesis using assms SPT_commercial by (auto simp: get_partner_def split: option.splits if_splits)
next
  case SPT_hedge
  then show ?thesis using assms by (simp add: get_counterparty_by_id_def get_counterparty_row_def)
qed

lemma entity_append_counterparty:
  assumes "entity_of (s\<lparr>counterparties := counterparties s @ [p], next_uuid := n\<rparr>) t i = Some en"
  shows "entity_of s t i = Some en \<or> en = of_counterparty p"
proof (cases t)
  case SPT_hedge
  have "get_row cp_id i (counterparties s @ [p]) = (case get_row cp_id i (counterparties s) of None \<Rightarrow> get_row cp_id i [p] | Some r \<Rightarrow> Some r)"
    by (rule get_row_append)
  then show ?thesis using assms SPT_hedge
    by (auto simp: get_counterparty_by_id_def get_counterparty_row_def split: option.splits if_splits)
next
  case SPT_commercial
  then show ?thesis using assms by (simp add: get_partner_def)
qed

text \<open>Every step but a screening and an adjudication leaves the two tables alone and keeps the
  entities.\<close>

lemma compliance_step_cases:
  assumes "compliance_step env c now c'"
  obtains (screened) actor t i res where "screen env now actor t i c = (c', res)"
  | (adjudicated) t i decision reason actor a where "adjudicate now t i decision reason actor c = Inr (c', a)"
  | (kept) s' where "c' = c\<lparr>co_db := s'\<rparr>" "entities_kept (co_db c) s'"
  using assms
proof cases
  case (partner_posted p s' i)
  have "entities_kept (co_db c) s'"
    using partner_op_cases(1)[OF partner_posted(2)] entity_append_partner[where s = "co_db c"]
    by (fastforce simp: entities_kept_def new_partner_def of_partner_def)
  with partner_posted kept show thesis by blast
next
  case (partner_patched keys i data s')
  from partner_op_cases(2)[OF partner_patched(2)] obtain q :: CommercialPartner where "s' = write_partner (par_id q) (apply_partner_update data) (co_db c)" by blast
  then have "entities_kept (co_db c) s'"
    using write_partner_kept[OF _ apply_partner_update_keeps] by (simp add: apply_partner_update_def)
  with partner_patched kept show thesis by blast
next
  case (partner_deleted i s')
  from partner_op_cases(3)[OF partner_deleted(2)] obtain q :: CommercialPartner where s': "s' = write_partner (par_id q) (\<lambda>p. p\<lparr>par_is_deleted := True, par_deleted_at := Some now, par_is_active := False\<rparr>) (co_db c)"
    by blast
  have "entities_kept (co_db c) s'" unfolding s' by (rule write_partner_kept) (simp_all add: keeps_screening_def of_partner_def)
  with partner_deleted kept show thesis by blast
next
  case (partner_kyc i k s' old)
  from partner_op_cases(4)[OF partner_kyc(2)] obtain q :: CommercialPartner where s': "s' = write_partner i (\<lambda>p. p\<lparr>par_kyc_status := k\<rparr>) (co_db c)" by blast
  have "entities_kept (co_db c) s'" unfolding s' by (rule write_partner_kept) (simp_all add: keeps_screening_def of_partner_def)
  with partner_kyc kept show thesis by blast
next
  case (partner_credit i cd s' out)
  from partner_op_cases(5)[OF partner_credit(2)] obtain q :: CommercialPartner where s': "s' = write_partner (par_id q) (apply_credit cd) (co_db c)" by blast
  have "entities_kept (co_db c) s'" unfolding s' by (rule write_partner_kept) (simp_all add: keeps_screening_def)
  with partner_credit kept show thesis by blast
next
  case (lei_validated actor i s' ws)
  then obtain st nm s1 where s1: "s1 = write_partner i (\<lambda>p. p\<lparr>par_lei_status := st, par_lei_legal_name := nm, par_lei_checked_at := Some now\<rparr>) (co_db c)"
      and p: "partners s' = partners s1" "counterparties s' = counterparties s1"
    by (force simp: validate_lei_def split: prod.splits)
  have "entities_kept (co_db c) s1" unfolding s1 by (rule write_partner_kept) (simp_all add: keeps_screening_def of_partner_def)
  then have "entities_kept (co_db c) s'" using entities_kept_cong[OF p] entities_kept_trans by blast
  with lei_validated kept show thesis by blast
next
  case (counterparty_posted roles cc s' i)
  then have "entities_kept (co_db c) s'"
    using entity_append_counterparty[where s = "co_db c"]
    by (fastforce simp: post_counterparty_def create_counterparty_def entities_kept_def of_counterparty_def)
  with counterparty_posted kept show thesis by blast
next
  case (counterparty_patched roles i cu s')
  then obtain k where "s' = write_counterparty k (apply_counterparty_update cu) (co_db c)"
    by (auto simp: patch_counterparty_def update_counterparty_def)
  then have "entities_kept (co_db c) s'"
    using write_counterparty_kept[OF _ apply_counterparty_update_keeps] by (simp add: apply_counterparty_update_def)
  with counterparty_patched kept show thesis by blast
next
  case (counterparty_deleted roles i s')
  then obtain k where s': "s' = write_counterparty k (\<lambda>cp. cp\<lparr>cp_is_deleted := True, cp_deleted_at := Some now, cp_is_active := False\<rparr>) (co_db c)"
    by (auto simp: delete_counterparty_def soft_delete_counterparty_def)
  have "entities_kept (co_db c) s'" unfolding s' by (rule write_counterparty_kept) (simp_all add: keeps_screening_def of_counterparty_def)
  with counterparty_deleted kept show thesis by blast
next
  case (counterparty_kyc i k s' old)
  then have s': "s' = write_counterparty i (\<lambda>cp. cp\<lparr>cp_kyc_status := k\<rparr>) (co_db c)" by (auto simp: set_kyc_status_def)
  have "entities_kept (co_db c) s'" unfolding s' by (rule write_counterparty_kept) (simp_all add: keeps_screening_def of_counterparty_def)
  with counterparty_kyc kept show thesis by blast
next
  case (other s')
  with kept entities_kept_cong[of s' "co_db c"] show thesis by blast
qed (use screened adjudicated in blast)+

section \<open>The latest evidence\<close>

lemma latest_of_newest:
  fixes k :: "'r \<Rightarrow> int"
  assumes "\<forall>r \<in> set rs. k r < k x"
  shows "\<exists>rest. sort_key (\<lambda>r. - k r) (rs @ [x]) = x # rest"
proof -
  obtain y rest where s: "sort_key (\<lambda>r. - k r) (rs @ [x]) = y # rest"
    by (metis append_is_Nil_conv neq_Nil_conv set_empty set_sort)
  have "sorted (map (\<lambda>r. - k r) (y # rest))" using sorted_sort_key[of "\<lambda>r. - k r" "rs @ [x]"] s by simp
  moreover have st: "set (y # rest) = set (rs @ [x])" by (metis s set_sort)
  then have "x \<in> set (y # rest)" by simp
  ultimately have "k x \<le> k y" by auto
  moreover have "y \<in> set (rs @ [x])" using st by auto
  ultimately have "y = x" using assms by fastforce
  with s show ?thesis by blast
qed

lemma latest_screening_append:
  assumes "\<forall>r \<in> set (co_screenings c). ss_screened_at r < ss_screened_at x"
  shows "latest_screening (c\<lparr>co_db := s', co_screenings := co_screenings c @ [x]\<rparr>) t i =
    (if ss_partner_type x = t \<and> ss_partner_id x = i \<and> ss_status x = SS_success then Some x else latest_screening c t i)"
proof (cases "ss_partner_type x = t \<and> ss_partner_id x = i \<and> ss_status x = SS_success")
  case True
  let ?rs = "filter (\<lambda>r. ss_partner_type r = t \<and> ss_partner_id r = i \<and> ss_status r = SS_success) (co_screenings c)"
  have "\<exists>rest. sort_key (\<lambda>r. - ss_screened_at r) (?rs @ [x]) = x # rest"
    by (rule latest_of_newest) (use assms in simp)
  then show ?thesis using True by (auto simp: latest_screening_def)
qed (auto simp: latest_screening_def)

lemma latest_adjudication_append:
  assumes "\<forall>r \<in> set (co_adjudications c). sa_adjudicated_at r < sa_adjudicated_at x"
  shows "latest_adjudication (c\<lparr>co_db := s', co_adjudications := co_adjudications c @ [x]\<rparr>) t i =
    (if sa_partner_type x = t \<and> sa_partner_id x = i then Some x else latest_adjudication c t i)"
proof (cases "sa_partner_type x = t \<and> sa_partner_id x = i")
  case True
  let ?rs = "filter (\<lambda>r. sa_partner_type r = t \<and> sa_partner_id r = i) (co_adjudications c)"
  have "\<exists>rest. sort_key (\<lambda>r. - sa_adjudicated_at r) (?rs @ [x]) = x # rest"
    by (rule latest_of_newest) (use assms in simp)
  then show ?thesis using True by (auto simp: latest_adjudication_def)
qed (auto simp: latest_adjudication_def)

lemma sort_hd: "sort_key k rs = r # rest \<Longrightarrow> r \<in> set rs"
  by (metis list.set_intros(1) set_sort)

lemma latest_members:
  "latest_screening c t i = Some r \<Longrightarrow> r \<in> set (co_screenings c)"
  "latest_adjudication c t i = Some a \<Longrightarrow> a \<in> set (co_adjudications c)"
  by (auto simp: latest_screening_def latest_adjudication_def split: list.splits dest: sort_hd)

section \<open>Status and evidence\<close>

text \<open>The latest successful screening of the partner is of the identity given, and screening and
  adjudication together give the status.\<close>

definition has_evidence :: "sanctions_env \<Rightarrow> compliance \<Rightarrow> SanctionsPartnerType \<Rightarrow> uuid \<Rightarrow> string option list \<Rightarrow> SanctionsStatus \<Rightarrow> bool" where
  "has_evidence env c t i identity status \<longleftrightarrow>
     joined (\<lambda>r. ss_query_hash r = identity_hash env identity) (latest_screening c t i)
     \<and> effective_sanctions_status c t i = Some status"

definition evidence_inv :: "sanctions_env \<Rightarrow> datetime \<Rightarrow> compliance \<Rightarrow> bool" where
  "evidence_inv env now c \<longleftrightarrow>
     (\<forall>t i en. entity_of (co_db c) t i = Some en \<longrightarrow> en_status en \<noteq> SAN_unscreened \<longrightarrow> has_evidence env c t i (en_identity en) (en_status en))
     \<and> (\<forall>r \<in> set (co_screenings c). ss_screened_at r \<le> now) \<and> (\<forall>a \<in> set (co_adjudications c). sa_adjudicated_at a \<le> now)"

lemma entity_set_status:
  "entity_of (set_sanctions_status t i v s) t' i' =
     (if t' = t \<and> i' = i then map_option (\<lambda>en. en\<lparr>en_status := v\<rparr>) (entity_of s t i) else entity_of s t' i')"
proof (cases t)
  case SPT_commercial
  have w: "get_partner (write_partner i (\<lambda>p. p\<lparr>par_sanctions_status := v\<rparr>) s) j
      = (if j = i then map_option (\<lambda>p. p\<lparr>par_sanctions_status := v\<rparr>) (get_partner s i) else get_partner s j)" for j
    by (subst get_partner_write) (auto simp: get_partner_def Let_def split: option.splits)
  show ?thesis
    using SPT_commercial w hedge_write_partner by (cases t') (auto simp: of_partner_def option.map_comp comp_def)
next
  case SPT_hedge
  have w: "get_counterparty_by_id (write_counterparty i (\<lambda>p. p\<lparr>cp_sanctions_status := v\<rparr>) s) j
      = (if j = i then map_option (\<lambda>p. p\<lparr>cp_sanctions_status := v\<rparr>) (get_counterparty_by_id s i) else get_counterparty_by_id s j)" for j
    by (subst get_counterparty_write) (auto simp: get_counterparty_by_id_def get_counterparty_row_def Let_def split: option.splits)
  show ?thesis
    using SPT_hedge w commercial_write_counterparty by (cases t') (auto simp: of_counterparty_def option.map_comp comp_def)
qed

lemma entity_record_audit: "entity_of (record_audit et ei ev pl s) t i = entity_of s t i"
  by (rule entity_of_cong) simp_all

lemma entity_counter: "entity_of (s\<lparr>next_uuid := n\<rparr>) t i = entity_of s t i"
  by (rule entity_of_cong) simp_all

lemma entity_status_counter:
  "entity_of (set_sanctions_status t i v (s\<lparr>next_uuid := n\<rparr>)) t' i' = entity_of (set_sanctions_status t i v s) t' i'"
  by (simp add: entity_set_status entity_counter)

lemma error_screening_shape:
  "\<exists>x s'. record_error_screening env now t i actor d q c = c\<lparr>co_db := s', co_screenings := co_screenings c @ [x]\<rparr>
     \<and> ss_status x = SS_error \<and> ss_screened_at x = now \<and> (\<forall>t i. entity_of s' t i = entity_of (co_db c) t i)
     \<and> ss_partner_type x = t \<and> ss_partner_id x = i \<and> ss_result x = None \<and> ss_query_hash x = q"
  unfolding record_error_screening_def Let_def
  by (intro exI conjI, rule refl) (simp_all add: entity_record_audit entity_counter)

lemma screen_cases:
  assumes "screen env now actor t i c = (c', res)"
  obtains (refused) e where "res = Inl e" "c' = c" "\<not> (sv_enabled env \<and> entity_of (co_db c) t i \<noteq> None)"
  | (failed) e x s' en where "res = Inl e" "c' = c\<lparr>co_db := s', co_screenings := co_screenings c @ [x]\<rparr>"
      "ss_status x = SS_error" "ss_screened_at x = now" "\<And>t i. entity_of s' t i = entity_of (co_db c) t i"
      "sv_enabled env" "entity_of (co_db c) t i = Some en" "ss_partner_type x = t" "ss_partner_id x = i" "ss_result x = None"
      "ss_query_hash x = identity_hash env (en_identity en)"
  | (success) en match x s' r where "res = Inr (ss_id x)" "entity_of (co_db c) t i = Some en"
      "screen_entity env (case en_identity en ! 0 of None \<Rightarrow> '''' | Some n \<Rightarrow> n) (en_identity en ! 1) (en_identity en ! 2) (en_identity en ! 3) = Inr match"
      "r = map_score_to_result (mr_top_score match) (sv_review_threshold env) (sv_hard_threshold env)"
      "c' = c\<lparr>co_db := s', co_screenings := co_screenings c @ [x]\<rparr>" "ss_status x = SS_success" "ss_screened_at x = now"
      "ss_partner_type x = t" "ss_partner_id x = i" "ss_result x = Some r" "ss_query_hash x = identity_hash env (en_identity en)"
      "\<And>t' i'. entity_of s' t' i' = entity_of (set_sanctions_status t i (result_status r) (co_db c)) t' i'"
proof (cases "entity_of (co_db c) t i")
  case None
  then show ?thesis using assms refused by (auto simp: screen_def load_entity_def require_def split: if_splits)
next
  case (Some en)
  let ?s = "screen_entity env (case en_identity en ! 0 of None \<Rightarrow> '''' | Some n \<Rightarrow> n) (en_identity en ! 1) (en_identity en ! 2) (en_identity en ! 3)"
  show ?thesis
  proof (cases "sv_enabled env")
    case False
    then show ?thesis using assms refused by (auto simp: screen_def)
  next
    case True
    show ?thesis
    proof (cases ?s)
      case (Inl d)
      have "c' = record_error_screening env now t i actor d (identity_hash env (en_identity en)) c" "res = Inl (HTTPException 502 (Msg ''sanctions_screening_provider_error'' [AId i]))"
        using assms Some True Inl by (auto simp: screen_def load_entity_def require_def Let_def)
      then show ?thesis using error_screening_shape[of env now t i actor d "identity_hash env (en_identity en)" c] failed True Some by blast
    next
      case (Inr match)
      let ?r = "map_score_to_result (mr_top_score match) (sv_review_threshold env) (sv_hard_threshold env)"
        and ?x = "success_screening env now t i actor (identity_hash env (en_identity en)) match (next_uuid (co_db c))"
      obtain s' where "c' = c\<lparr>co_db := s', co_screenings := co_screenings c @ [?x]\<rparr>" "res = Inr (next_uuid (co_db c))"
          and e: "\<And>t' i'. entity_of s' t' i' = entity_of (set_sanctions_status t i (result_status ?r) (co_db c)) t' i'"
        using assms Some True Inr by (auto simp: screen_def load_entity_def require_def Let_def entity_record_audit entity_status_counter)
      then show ?thesis
        by (intro success[OF _ Some Inr refl _ _ _ _ _ _ _ e, of ?x]) (simp_all add: success_screening_def)
    qed
  qed
qed

lemma adjudicate_cases:
  assumes "adjudicate now t i decision reason actor c = Inr (c', aid)"
  obtains en r x s' where "entity_of (co_db c) t i = Some en" "en_status en = SAN_flagged" "latest_screening c t i = Some r"
    "c' = c\<lparr>co_db := s', co_adjudications := co_adjudications c @ [x]\<rparr>" "sa_partner_type x = t" "sa_partner_id x = i"
    "sa_adjudicated_at x = now" "sa_decision x = decision" "sa_superseded_screening_id x = ss_id r"
    "\<And>t' i'. entity_of s' t' i' = entity_of (set_sanctions_status t i (decision_status decision) (co_db c)) t' i'"
proof -
  obtain en r where e: "entity_of (co_db c) t i = Some en" "en_status en = SAN_flagged" "latest_screening c t i = Some r"
    using assms by (auto simp: adjudicate_def load_entity_def Let_def)
  let ?x = "\<lparr>sa_id = next_uuid (co_db c), sa_partner_type = t, sa_partner_id = i, sa_superseded_screening_id = ss_id r,
    sa_decision = decision, sa_reason = reason, sa_adjudicating_actor_sub = actor, sa_adjudicated_at = now\<rparr>"
  obtain s' where "c' = c\<lparr>co_db := s', co_adjudications := co_adjudications c @ [?x]\<rparr>"
      and s': "\<And>t' i'. entity_of s' t' i' = entity_of (set_sanctions_status t i (decision_status decision) (co_db c)) t' i'"
    using assms e by (auto simp: adjudicate_def load_entity_def Let_def entity_record_audit entity_status_counter)
  then show thesis by (intro that[OF e _ _ _ _ _ _ s', of ?x]) simp_all
qed

lemma screening_inv:
  assumes "screen env now actor t i c = (c', res)" and inv: "evidence_inv env past c" and "past < now"
  shows "evidence_inv env now c'"
  using assms(1)
proof (cases rule: screen_cases)
  case refused
  then show ?thesis using inv assms(3) by (fastforce simp: evidence_inv_def)
next
  case (failed e x s')
  have old: "\<forall>r \<in> set (co_screenings c). ss_screened_at r < ss_screened_at x" using inv assms(3) failed(4) by (force simp: evidence_inv_def)
  have "latest_screening c' t j = latest_screening c t j" "latest_adjudication c' t j = latest_adjudication c t j" for t j
    unfolding failed(2) using failed(3) by (simp_all add: latest_screening_append[OF old] latest_adjudication_def)
  then have "has_evidence env c' t j = has_evidence env c t j" for t j by (simp add: has_evidence_def effective_sanctions_status_def fun_eq_iff)
  then show ?thesis using inv assms(3) failed(4,5) unfolding evidence_inv_def by (fastforce simp: failed(2))
next
  case (success en match x s' r)
  have old: "\<forall>r \<in> set (co_screenings c). ss_screened_at r < ss_screened_at x" using inv assms(3) success(7) by (force simp: evidence_inv_def)
  have late: "latest_screening c' t' j = (if t' = t \<and> j = i then Some x else latest_screening c t' j)"
      "latest_adjudication c' t' j = latest_adjudication c t' j" for t' j
    unfolding success(5) using success(6,8,9) by (auto simp: latest_screening_append[OF old] latest_adjudication_def)
  have adj: "sa_adjudicated_at a < ss_screened_at x" if "latest_adjudication c t i = Some a" for a
    using latest_members(2)[OF that] inv assms(3) success(7) by (fastforce simp: evidence_inv_def)
  have new: "has_evidence env c' t i (en_identity en) (result_status r)"
    using adj success(10,11) by (auto simp: has_evidence_def effective_sanctions_status_def late split: option.split dest: adj)
  have kept: "has_evidence env c' t' j = has_evidence env c t' j" if "\<not> (t' = t \<and> j = i)" for t' j
    using that by (auto simp: has_evidence_def effective_sanctions_status_def late fun_eq_iff)
  have "has_evidence env c' t' j (en_identity e') (en_status e')"
    if e': "entity_of (co_db c') t' j = Some e'" "en_status e' \<noteq> SAN_unscreened" for t' j e'
  proof (cases "t' = t \<and> j = i")
    case True
    then show ?thesis using e' new success(2,5,12) by (auto simp: entity_set_status)
  next
    case False
    then show ?thesis using e' inv kept[OF False] success(5,12) by (auto simp: entity_set_status evidence_inv_def)
  qed
  then show ?thesis using inv assms(3) success(5,7) unfolding evidence_inv_def by fastforce
qed

lemma adjudication_inv:
  assumes "adjudicate now t i decision reason actor c = Inr (c', aid)" and inv: "evidence_inv env past c" and "past < now"
  shows "evidence_inv env now c'"
  using assms(1)
proof (cases rule: adjudicate_cases)
  case (1 en r x s')
  have old: "\<forall>a \<in> set (co_adjudications c). sa_adjudicated_at a < sa_adjudicated_at x" using inv assms(3) 1(7) by (force simp: evidence_inv_def)
  have late: "latest_adjudication c' t' j = (if t' = t \<and> j = i then Some x else latest_adjudication c t' j)"
      "latest_screening c' t' j = latest_screening c t' j" for t' j
    unfolding 1(4) using 1(5,6) by (auto simp: latest_adjudication_append[OF old] latest_screening_def)
  have "ss_screened_at r \<le> now"
    using latest_members(1)[OF 1(3)] inv assms(3) by (fastforce simp: evidence_inv_def)
  moreover have "has_evidence env c t i (en_identity en) SAN_flagged"
    using inv 1(1,2) unfolding evidence_inv_def by fastforce
  ultimately have new: "has_evidence env c' t i (en_identity en) (decision_status decision)"
    using 1(3,7,8) by (simp add: has_evidence_def effective_sanctions_status_def late)
  have kept: "has_evidence env c' t' j = has_evidence env c t' j" if "\<not> (t' = t \<and> j = i)" for t' j
    using that by (auto simp: has_evidence_def effective_sanctions_status_def late fun_eq_iff)
  have "has_evidence env c' t' j (en_identity e') (en_status e')"
    if e': "entity_of (co_db c') t' j = Some e'" "en_status e' \<noteq> SAN_unscreened" for t' j e'
  proof (cases "t' = t \<and> j = i")
    case True
    then show ?thesis using e' new 1(1,4,10) by (auto simp: entity_set_status)
  next
    case False
    then show ?thesis using e' inv kept[OF False] 1(4,10) by (auto simp: entity_set_status evidence_inv_def)
  qed
  then show ?thesis using inv assms(3) 1(4,7) unfolding evidence_inv_def by fastforce
qed

lemma compliance_step_inv:
  assumes "compliance_step env c now c'" and inv: "evidence_inv env past c" and "past < now"
  shows "evidence_inv env now c'"
  using assms(1)
proof (cases rule: compliance_step_cases)
  case (kept s')
  have "latest_screening c' = latest_screening c" "latest_adjudication c' = latest_adjudication c"
    by (simp_all add: fun_eq_iff latest_screening_def latest_adjudication_def kept(1))
  then have same: "has_evidence env c' = has_evidence env c" by (simp add: fun_eq_iff has_evidence_def effective_sanctions_status_def)
  have "has_evidence env c' t i (en_identity e') (en_status e')"
    if e': "entity_of (co_db c') t i = Some e'" "en_status e' \<noteq> SAN_unscreened" for t i e'
  proof -
    obtain en where "entity_of (co_db c) t i = Some en" "en_status en = en_status e'" "en_identity en = en_identity e'"
      using kept(2) e' unfolding entities_kept_def kept(1) by fastforce
    then show ?thesis using inv e'(2) unfolding same evidence_inv_def by metis
  qed
  then show ?thesis using inv assms(3) kept(1) unfolding evidence_inv_def by fastforce
qed (use screening_inv adjudication_inv inv assms(3) in blast)+

definition unscreened_start :: "compliance \<Rightarrow> bool" where
  "unscreened_start c \<longleftrightarrow> co_screenings c = [] \<and> co_adjudications c = []
     \<and> list_all (\<lambda>p. par_sanctions_status p = SAN_unscreened) (partners (co_db c))
     \<and> list_all (\<lambda>cp. cp_sanctions_status cp = SAN_unscreened) (counterparties (co_db c))"

lemma run_evidence:
  assumes "compliance_run env c0 now c" and "unscreened_start c0"
  shows "evidence_inv env now c"
  using assms(1)
proof induction
  case (run_start now)
  have "en_status en = SAN_unscreened" if "entity_of (co_db c0) t i = Some en" for t i en
    using that assms(2) by (cases t) (auto simp: unscreened_start_def of_partner_def of_counterparty_def list_all_iff get_partner_def
        get_counterparty_by_id_def get_counterparty_row_def split: option.splits if_splits dest!: get_row_SomeD)
  then show ?case using assms(2) by (auto simp: evidence_inv_def unscreened_start_def)
next
  case run_step
  then show ?case using compliance_step_inv by blast
qed

text \<open>C36: A sanctions status is backed by evidence about the present identity. After any run of
  screenings, adjudications, edits, KYC transitions and credit approvals on an initially unscreened
  book, a partner whose status is not \<open>unscreened\<close> has a latest successful screening of exactly the
  name, country, tax and entity identifiers it has now, and the stored status is the effective one,
  the decision of a later adjudication or else the result of that screening.\<close>

theorem sanctions_status_has_evidence:
  assumes "compliance_run env c0 now c" and "unscreened_start c0"
    and "entity_of (co_db c) t i = Some en" and "en_status en \<noteq> SAN_unscreened"
  shows "\<exists>r. latest_screening c t i = Some r \<and> ss_query_hash r = identity_hash env (en_identity en)
    \<and> effective_sanctions_status c t i = Some (en_status en)"
  using run_evidence[OF assms(1,2)] assms(3,4)
  by (fastforce simp: evidence_inv_def has_evidence_def joined_def split: option.splits)

end
