(* ===== verification/Compliance_Types.thy ===== *)
theory Compliance_Types
  imports Compliance_Runs
begin

text \<open>
  The shape of the partner table, which every operation on partners keeps, what a screening makes of
  the answer of the provider, and what approvals rest on; with an example of each.
\<close>

section \<open>Well-formed partners\<close>

definition partner_typed :: "CommercialPartner \<Rightarrow> bool" where
  "partner_typed p \<longleftrightarrow>
     (par_kind p = CPK_supplier \<longrightarrow> par_credit_limit p = None \<and> par_credit_currency p = None \<and> par_payment_conditions p = None)
     \<and> (par_kind p = CPK_customer \<longrightarrow> par_approved_value p = None \<and> par_approved_currency p = None \<and> par_approved_terms p = None)
     \<and> pred_option (\<lambda>d. quantize_money d = d) (par_credit_limit p) \<and> pred_option (\<lambda>d. quantize_money d = d) (par_approved_value p)
     \<and> (par_is_deleted p \<longleftrightarrow> par_deleted_at p \<noteq> None) \<and> (par_is_deleted p \<longrightarrow> \<not> par_is_active p)
     \<and> (par_lei_status p \<in> {LEI_not_provided, LEI_invalid} \<longrightarrow> par_lei_legal_name p = None)"

definition partners_wf :: "db \<Rightarrow> bool" where
  "partners_wf s \<longleftrightarrow> keyed par_id (partners s) \<and> (\<forall>p \<in> set (partners s). par_id p < next_uuid s \<and> partner_typed p)
     \<and> distinct (live_tax_ids s)"

lemma write_partner_wf:
  assumes wf: "partners_wf s" and id: "\<And>p. par_id (f p) = par_id p" and tax: "distinct (live_tax_ids (write_partner i f s))"
    and typed: "\<And>p. get_row par_id i (partners s) = Some p \<Longrightarrow> partner_typed p \<Longrightarrow> partner_typed (f p)"
  shows "partners_wf (write_partner i f s)"
proof -
  have k: "keyed par_id (partners s)" using wf by (simp add: partners_wf_def)
  have "partner_typed (f p)" if "p \<in> set (partners s)" "par_id p = i" for p
    using typed get_row_keyed[OF k that(1)] that wf by (auto simp: partners_wf_def)
  then show ?thesis
    using wf tax by (auto simp: partners_wf_def write_partner_def keyed_update_row[of par_id f, OF id] set_update_row id)
qed

text \<open>A write that keeps tax identifiers and deletion, or deletes, keeps the index.\<close>

lemma live_tax_ids_write:
  assumes "\<And>p. par_text (f p) = par_text p" and "\<And>p. par_is_deleted p \<Longrightarrow> par_is_deleted (f p)" and "distinct (live_tax_ids s)"
  shows "distinct (live_tax_ids (write_partner i f s))"
proof -
  let ?g = "\<lambda>p. case par_text p ''tax_id'' of None \<Rightarrow> [] | Some t \<Rightarrow> if par_is_deleted p then [] else [t]"
  have "distinct (concat (map ?g ps)) \<Longrightarrow> distinct (concat (map ?g (update_row par_id i f ps)))
      \<and> set (concat (map ?g (update_row par_id i f ps))) \<subseteq> set (concat (map ?g ps))" for ps
  proof (induction ps)
    case (Cons p ps)
    have g: "?g (f p) = ?g p \<or> ?g (f p) = []" using assms(1,2)[of p] by (auto split: option.split)
    have IH: "distinct (concat (map ?g (update_row par_id i f ps)))" "set (concat (map ?g (update_row par_id i f ps))) \<subseteq> set (concat (map ?g ps))"
      using Cons by auto
    have d: "set (?g p) \<inter> set (concat (map ?g ps)) = {}" "distinct (?g p)" using Cons.prems by (simp_all del: set_concat)
    show ?case using g IH d by (cases "par_id p = i") (fastforce simp del: set_concat split del: if_split)+
  qed simp
  with assms(3) show ?thesis by (simp add: live_tax_ids_def write_partner_def)
qed

lemma set_credit_typed:
  assumes "partner_typed p" and "key \<in> set (allowed_credit_fields p)"
  shows "partner_typed (set_credit key (stored_credit key v) p)"
proof -
  have q: "pred_option (\<lambda>d. quantize_money d = d) (dec_value (stored_credit ''credit_limit'' v))"
    "pred_option (\<lambda>d. quantize_money d = d) (dec_value (stored_credit ''approved_value'' v))"
    by (auto simp: dec_value_def stored_credit_def split: option.splits credit_value.splits)
  show ?thesis
    using assms q by (cases "par_kind p")
      (auto simp: allowed_credit_fields_def CUSTOMER_CREDIT_FIELDS_def SUPPLIER_CREDIT_FIELDS_def set_credit_def partner_typed_def)
qed

lemma apply_credit_typed:
  "partner_typed p \<Longrightarrow> fst ` set cd \<subseteq> set (allowed_credit_fields p) \<Longrightarrow> partner_typed (apply_credit cd p)"
proof (induction cd p rule: apply_credit.induct)
  case (2 key v data p)
  then show ?case using set_credit_typed[of p key v] by (simp add: allowed_credit_fields_def)
qed simp

lemma lei_outcome_typed:
  assumes "lei_outcome env p = Inr (status, name, ws)" and "status \<in> {LEI_not_provided, LEI_invalid}"
  shows "name = None"
  using assms by (auto simp: lei_outcome_def Let_def LEI_STATUS_MAP_def split: option.splits if_splits lei_lookup.splits)

lemma partners_wf_cong:
  "partners s' = partners s \<Longrightarrow> next_uuid s \<le> next_uuid s' \<Longrightarrow> partners_wf s \<Longrightarrow> partners_wf s'"
  by (fastforce simp: partners_wf_def live_tax_ids_def)

lemma set_status_wf: "partners_wf s \<Longrightarrow> partners_wf (set_sanctions_status t i v s)"
proof (cases t)
  case SPT_commercial
  then show "partners_wf s \<Longrightarrow> partners_wf (set_sanctions_status t i v s)"
    by (auto intro!: write_partner_wf live_tax_ids_write simp: partner_typed_def) (simp_all add: partners_wf_def)
qed (auto intro: partners_wf_cong)

lemma screen_db:
  assumes "screen env now actor t i c = (c', res)" and "partners_wf (co_db c)"
  shows "partners_wf (co_db c')"
proof -
  have up: "partners_wf (record_audit et ei ev pl s)" if "partners_wf s" for et ei ev pl s
    by (rule partners_wf_cong[OF _ _ that]) simp_all
  have n: "partners_wf ((co_db c)\<lparr>next_uuid := Suc (next_uuid (co_db c))\<rparr>)"
    by (rule partners_wf_cong[OF _ _ assms(2)]) simp_all
  show ?thesis
    using assms up n set_status_wf
    by (auto simp: screen_def record_error_screening_def Let_def split: if_splits sum.splits)
qed

lemma adjudicate_db:
  assumes "adjudicate now t i decision reason actor c = Inr (c', a)" and "partners_wf (co_db c)"
  shows "partners_wf (co_db c')"
proof -
  have up: "partners_wf (record_audit et ei ev pl s)" if "partners_wf s" for et ei ev pl s
    by (rule partners_wf_cong[OF _ _ that]) simp_all
  have n: "partners_wf ((co_db c)\<lparr>next_uuid := Suc (next_uuid (co_db c))\<rparr>)"
    by (rule partners_wf_cong[OF _ _ assms(2)]) simp_all
  show ?thesis
    using assms up n set_status_wf by (auto simp: adjudicate_def Let_def)
qed

lemma partner_op_wf:
  assumes wf: "partners_wf s"
  shows "post_partner s now p = Inr (s', i) \<Longrightarrow> partners_wf s'"
    and "patch_partner s keys i data = Inr s' \<Longrightarrow> partners_wf s'"
    and "delete_partner s now i = Inr s' \<Longrightarrow> partners_wf s'"
    and "set_partner_kyc s i k = Inr (s', old) \<Longrightarrow> partners_wf s'"
    and "patch_partner_credit s i cd = Inr (s', out) \<Longrightarrow> partners_wf s'"
    and "validate_lei env now actor i s = Inr (s', ws) \<Longrightarrow> partners_wf s'"
proof -
  have tax: "distinct (live_tax_ids s)" using wf by (simp add: partners_wf_def)
  have row: "get_row par_id i (partners s) = Some q \<and> \<not> par_is_deleted q \<and> par_id q = i" if "get_partner s i = Some q" for q i
    using that by (auto simp: get_partner_def split: option.splits if_splits dest: get_row_SomeD)
  { assume "post_partner s now p = Inr (s', i)"
    from partner_op_cases(1)[OF this] have q: "s' = s\<lparr>partners := partners s @ [new_partner (next_uuid s) now p], next_uuid := Suc (next_uuid s)\<rparr>"
      "distinct (live_tax_ids s')" by blast+
    have "partner_typed (new_partner (next_uuid s) now p)" "par_id (new_partner (next_uuid s) now p) = next_uuid s"
      by (simp_all add: partner_typed_def new_partner_def)
    then have "keyed par_id (partners s')" "\<forall>r \<in> set (partners s'). par_id r < next_uuid s' \<and> partner_typed r"
      using wf unfolding q(1) by (force simp: partners_wf_def keyed_snoc)+
    with q(2) show "partners_wf s'" unfolding partners_wf_def by blast }
  { assume "patch_partner s keys i data = Inr s'"
    from partner_op_cases(2)[OF this] obtain q :: CommercialPartner where q: "get_partner s i = Some q"
        "s' = write_partner (par_id q) (apply_partner_update data) s" "distinct (live_tax_ids s')" by blast
    have "partner_typed (apply_partner_update data r)" if "get_row par_id (par_id q) (partners s) = Some r" "partner_typed r" for r
      using that row[OF q(1)] by (auto simp: partner_typed_def apply_partner_update_def)
    then show "partners_wf s'"
      unfolding q(2) using q(2,3) by (intro write_partner_wf[OF wf]) (auto simp: apply_partner_update_def) }
  { assume "delete_partner s now i = Inr s'"
    from partner_op_cases(3)[OF this] obtain q :: CommercialPartner where
      q: "s' = write_partner (par_id q) (\<lambda>p. p\<lparr>par_is_deleted := True, par_deleted_at := Some now, par_is_active := False\<rparr>) s" by blast
    show "partners_wf s'" unfolding q by (intro write_partner_wf[OF wf] live_tax_ids_write tax) (auto simp: partner_typed_def) }
  { assume "set_partner_kyc s i k = Inr (s', old)"
    from partner_op_cases(4)[OF this] have q: "s' = write_partner i (\<lambda>p. p\<lparr>par_kyc_status := k\<rparr>) s" by blast
    show "partners_wf s'" unfolding q by (intro write_partner_wf[OF wf] live_tax_ids_write tax) (auto simp: partner_typed_def) }
  { assume "patch_partner_credit s i cd = Inr (s', out)"
    from partner_op_cases(5)[OF this] obtain q :: CommercialPartner where q: "get_partner s i = Some q"
        "s' = write_partner (par_id q) (apply_credit cd) s" "fst ` set cd \<subseteq> set (allowed_credit_fields q)" by blast
    have "partner_typed (apply_credit cd r)" if "get_row par_id (par_id q) (partners s) = Some r" "partner_typed r" for r
      using that row[OF q(1)] q(3) apply_credit_typed by auto
    then show "partners_wf s'" unfolding q(2) by (intro write_partner_wf[OF wf] live_tax_ids_write tax) auto }
  { assume v: "validate_lei env now actor i s = Inr (s', ws)"
    obtain q st nm ws' where q: "get_partner s i = Some q" "lei_outcome env q = Inr (st, nm, ws')"
        "partners s' = partners (write_partner i (\<lambda>p. p\<lparr>par_lei_status := st, par_lei_legal_name := nm, par_lei_checked_at := Some now\<rparr>) s)"
        "next_uuid s' = Suc (next_uuid s)"
      using v by (force simp: validate_lei_def split: prod.splits)
    have "partners_wf (write_partner i (\<lambda>p. p\<lparr>par_lei_status := st, par_lei_legal_name := nm, par_lei_checked_at := Some now\<rparr>) s)"
      using lei_outcome_typed[OF q(2)] by (intro write_partner_wf[OF wf] live_tax_ids_write tax) (auto simp: partner_typed_def)
    then show "partners_wf s'" by (rule partners_wf_cong[OF q(3), rotated]) (simp add: q(4)) }
qed

lemma compliance_step_wf:
  assumes "compliance_step env c now c'" and wf: "partners_wf (co_db c)"
  shows "partners_wf (co_db c')"
  using assms(1)
proof cases
  case (counterparty_posted roles cc s' i)
  then show ?thesis
    by (intro partners_wf_cong[OF _ _ wf]) (auto simp: post_counterparty_def create_counterparty_def)
next
  case (counterparty_patched roles i cu s')
  then show ?thesis
    by (intro partners_wf_cong[OF _ _ wf]) (auto simp: patch_counterparty_def update_counterparty_def)
next
  case (counterparty_deleted roles i s')
  then show ?thesis
    by (intro partners_wf_cong[OF _ _ wf]) (auto simp: delete_counterparty_def soft_delete_counterparty_def)
next
  case (counterparty_kyc i k s' old)
  then show ?thesis
    by (intro partners_wf_cong[OF _ _ wf]) (auto simp: set_kyc_status_def)
next
  case (other s')
  then show ?thesis by (auto intro: partners_wf_cong[OF _ _ wf])
qed (use screen_db adjudicate_db partner_op_wf[OF wf] wf in auto)

text \<open>C38: The partner table keeps its shape through every run of the operations: identifiers are
  unique, so are the tax identifiers of the partners not deleted; a supplier has no customer credit
  and a customer no supplier terms; amounts are rounded to the precision of money; a deleted partner
  has the time of its deletion and is not active; without a valid entity identifier there is no
  registered name.\<close>

theorem partner_table_well_formed:
  assumes "compliance_run env c0 now c" and "partners_wf (co_db c0)"
  shows "partners_wf (co_db c)"
  using assms(1)
proof induction
  case run_start
  then show ?case by (rule assms(2))
next
  case run_step
  then show ?case using compliance_step_wf by blast
qed

section \<open>Approval and credit\<close>

text \<open>C37: Approval and credit rest on a clear screening of the present identity. When a commercial
  partner is approved or given credit, its latest successful screening is of the identity it has,
  and screening and adjudication together are clear.\<close>

theorem approval_needs_clear_identity:
  assumes "compliance_run env c0 now c" and "unscreened_start c0"
    and "set_partner_kyc (co_db c) i KYC_approved = Inr (s1, old) \<or> patch_partner_credit (co_db c) i cd = Inr (s2, out)"
  shows "\<exists>p r. get_partner (co_db c) i = Some p \<and> latest_screening c SPT_commercial i = Some r
    \<and> ss_query_hash r = identity_hash env (map (par_text p) [''name'', ''country'', ''tax_id'', ''lei''])
    \<and> effective_sanctions_status c SPT_commercial i = Some SAN_clear"
proof -
  obtain p where p: "get_partner (co_db c) i = Some p" "par_sanctions_status p = SAN_clear"
    using assms(3) partner_op_cases(4)[of "co_db c" i KYC_approved s1 old] partner_op_cases(5)[of "co_db c" i cd s2 out] by blast
  then have "entity_of (co_db c) SPT_commercial i = Some (of_partner p)" by simp
  moreover have "en_status (of_partner p) = SAN_clear" using p(2) by (simp add: of_partner_def)
  ultimately have "has_evidence env c SPT_commercial i (en_identity (of_partner p)) SAN_clear"
    using run_evidence[OF assms(1,2)] unfolding evidence_inv_def by (metis SanctionsStatus.distinct(1))
  then show ?thesis
    using p(1) by (auto simp: has_evidence_def joined_def of_partner_def split: option.splits)
qed

section \<open>The answer of the provider\<close>

lemma parse_results_scores:
  assumes "parse_results rs v = Inr match" and "r \<in> set rs"
  shows "\<exists>x q. subscript r ''score'' = Some x \<and> score_of x = Some (Finite q) \<and> 0 \<le> q \<and> q \<le> mr_top_score match"
proof -
  define scores where "scores = map (\<lambda>r. score_of (the (subscript r ''score''))) rs"
  have ok: "\<not> list_ex (\<lambda>r. subscript r ''score'' = None) rs" "None \<notin> set scores" "\<not> list_ex bad_score (map the scores)"
      "mr_top_score match = (if scores = [] then 0 else Max (set (map (finite_value \<circ> the) scores)))"
    using assms(1) unfolding parse_results_def provider_error_def Let_def scores_def[symmetric]
    by (simp_all split: if_splits) auto
  obtain x where x: "subscript r ''score'' = Some x" using ok(1) assms(2) by (auto simp: list_ex_iff)
  have "score_of (the (subscript r ''score'')) \<in> set scores" unfolding scores_def set_map using assms(2) by (rule imageI)
  then have mem: "score_of x \<in> set scores" unfolding x option.sel .
  with ok(2) obtain y where y: "score_of x = Some y" by (cases "score_of x") auto
  have ym: "y \<in> set (map the scores)" using mem y by force
  then have "\<not> bad_score y" using ok(3) unfolding list_ex_iff by blast
  then obtain q where q: "y = Finite q" "0 \<le> q" by (cases y) (auto simp: bad_score_def)
  have "q \<in> set (map (finite_value \<circ> the) scores)" using mem y q(1) by (force simp: finite_value_def)
  moreover have "scores \<noteq> []" using mem by auto
  ultimately have "q \<le> mr_top_score match" unfolding ok(4) by (simp add: Max_ge)
  then show ?thesis using x y q by blast
qed

lemma parse_match_reply_Inr:
  assumes "parse_match_reply data = Inr match"
  obtains responses q matches v where "subscript data ''responses'' = Some responses" "subscript responses ''q1'' = Some q"
    "subscript q ''results'' = Some (R_list matches)" "parse_results matches v = Inr match"
proof -
  obtain responses where 1: "subscript data ''responses'' = Some responses"
    using assms by (cases "subscript data ''responses''") (simp_all add: parse_match_reply_def provider_error_def)
  obtain q where 2: "subscript responses ''q1'' = Some q"
    using assms 1 by (cases "subscript responses ''q1''") (simp_all add: parse_match_reply_def provider_error_def)
  obtain x where 3: "subscript q ''results'' = Some x"
    using assms 1 2 by (cases "subscript q ''results''") (simp_all add: parse_match_reply_def provider_error_def split: if_splits)
  show thesis
    using that[OF 1 2] assms 1 2 3 by (cases x) (simp_all add: parse_match_reply_def provider_error_def split: if_splits)
qed

lemma screen_entity_Inr:
  assumes "screen_entity env name country tax_id lei = Inr match"
  obtains code answer where "sv_match_post env (build_envelope name country tax_id lei) = HO_response code (Inr answer)" "is_success code"
    "parse_match_reply answer = Inr match"
proof -
  let ?o = "sv_match_post env (build_envelope name country tax_id lei)"
  obtain code body where 1: "?o = HO_response code body"
    using assms by (cases ?o) (simp_all add: screen_entity_def provider_error_def split: if_splits)
  show thesis
    using that[of code] assms 1
    by (cases body) (simp_all add: screen_entity_def provider_error_def split: if_splits)
qed

text \<open>The query that screens a partner: name, country, tax identifier and LEI of its own row.\<close>

definition entity_query :: "screened_entity \<Rightarrow> (string \<times> string) list" where
  "entity_query en = build_envelope (case en_identity en ! 0 of None \<Rightarrow> [] | Some n \<Rightarrow> n)
     (en_identity en ! 1) (en_identity en ! 2) (en_identity en ! 3)"

definition weak_answer :: "sanctions_env \<Rightarrow> (string \<times> string) list \<Rightarrow> bool" where
  "weak_answer env query \<longleftrightarrow>
     (\<exists>code answer responses q matches. sv_match_post env query = HO_response code (Inr answer) \<and> is_success code
        \<and> subscript answer ''responses'' = Some responses \<and> subscript responses ''q1'' = Some q \<and> subscript q ''results'' = Some (R_list matches)
        \<and> (\<forall>r \<in> set matches. \<exists>x s. subscript r ''score'' = Some x \<and> score_of x = Some (Finite s) \<and> 0 \<le> s \<and> s < sv_review_threshold env))"

lemma screen_entity_weak:
  assumes "screen_entity env name country tax_id lei = Inr match" and "mr_top_score match < sv_review_threshold env"
  shows "weak_answer env (build_envelope name country tax_id lei)"
  using assms(1)
proof (rule screen_entity_Inr)
  fix code answer
  assume a: "sv_match_post env (build_envelope name country tax_id lei) = HO_response code (Inr answer)" "is_success code"
    and "parse_match_reply answer = Inr match"
  from this(3) obtain responses q matches v where p: "subscript answer ''responses'' = Some responses" "subscript responses ''q1'' = Some q"
      "subscript q ''results'' = Some (R_list matches)" "parse_results matches v = Inr match"
    by (rule parse_match_reply_Inr)
  have "\<exists>x s. subscript r ''score'' = Some x \<and> score_of x = Some (Finite s) \<and> 0 \<le> s \<and> s < sv_review_threshold env" if "r \<in> set matches" for r
    using parse_results_scores[OF p(4) that] assms(2) by fastforce
  then show ?thesis using a p(1-3) unfolding weak_answer_def by blast
qed

text \<open>C39: Screening fails closed. An attempt on an unknown partner or with screening switched off is refused and
  changes nothing; an attempt that fails at the provider changes no status and leaves exactly one
  row, an error without a result, of this partner and of the identity it has. An attempt that
  succeeds leaves exactly one row, of this partner and its identity, and touches no other
  partner; and the partner is clear afterwards only if the provider answered the query of the
  partner's own name, country, tax identifier and LEI with success and a list of matches in which
  every match has a finite score, not negative and below the review threshold.\<close>

theorem screening_fails_closed:
  assumes "screen env now actor t i c = (c', res)"
  shows "case res of
      Inl e \<Rightarrow> (case entity_of (co_db c) t i of
          Some en \<Rightarrow> if sv_enabled env
            then (\<forall>t i. entity_of (co_db c') t i = entity_of (co_db c) t i) \<and> co_adjudications c' = co_adjudications c
              \<and> (\<exists>x. co_screenings c' = co_screenings c @ [x] \<and> ss_status x = SS_error \<and> ss_result x = None
                    \<and> ss_partner_type x = t \<and> ss_partner_id x = i \<and> ss_query_hash x = identity_hash env (en_identity en))
            else c' = c
        | None \<Rightarrow> c' = c)
    | Inr sid \<Rightarrow> \<exists>en x. entity_of (co_db c) t i = Some en \<and> co_screenings c' = co_screenings c @ [x]
        \<and> ss_id x = sid \<and> ss_status x = SS_success \<and> ss_partner_type x = t \<and> ss_partner_id x = i
        \<and> ss_query_hash x = identity_hash env (en_identity en)
        \<and> (\<forall>t' i'. (t', i') \<noteq> (t, i) \<longrightarrow> entity_of (co_db c') t' i' = entity_of (co_db c) t' i')
        \<and> (\<forall>en'. entity_of (co_db c') t i = Some en' \<longrightarrow> en_status en' = SAN_clear \<longrightarrow> weak_answer env (entity_query en))"
  using assms
proof (cases rule: screen_cases)
  case refused
  then show ?thesis by (auto split: option.split)
next
  case (failed e x s' en)
  then show ?thesis by auto
next
  case (success en match x s' r)
  have "weak_answer env (entity_query en)" if "entity_of (co_db c') t i = Some en'" "en_status en' = SAN_clear" for en'
  proof -
    have "r = SR_clear" using that success(2,5,12) by (cases r) (auto simp: entity_set_status)
    then have "mr_top_score match < sv_review_threshold env" using success(4) by (auto simp: map_score_to_result_def split: if_splits)
    with success(3) show ?thesis unfolding entity_query_def by (rule screen_entity_weak)
  qed
  moreover have "entity_of (co_db c') t' i' = entity_of (co_db c) t' i'" if "(t', i') \<noteq> (t, i)" for t' i'
    using that success(5,12) by (auto simp: entity_set_status)
  ultimately show ?thesis using success by simp
qed

section \<open>Examples\<close>

text \<open>A customer, a provider that finds one weak match, and thresholds as configured.\<close>

definition acme_partner :: CommercialPartner where
  "acme_partner = new_partner 0 0 \<lparr>pc_kind = CPK_customer, pc_text = map_of [(''name'', ''Acme''), (''country'', ''BRA'')],
     pc_risk_rating = RISK_low, pc_is_active = True\<rparr>"

definition weak_match :: reply where
  "weak_match = R_obj [(''responses'', R_obj [(''q1'', R_obj [(''status'', R_num 200),
     (''results'', R_list [R_obj [(''score'', R_num (3 / 10))]])])])]"

fun json_words :: "json \<Rightarrow> string" where
  "json_words (JStr x) = x @ ''/''"
| "json_words (JObj members) = concat (map (json_words \<circ> snd) members)"
| "json_words _ = ''-''"

definition screening_env :: sanctions_env where
  "screening_env = \<lparr>sv_enabled = True, sv_api_key = ''key'', sv_review_threshold = 7 / 10, sv_hard_threshold = 9 / 10,
     sv_match_post = (\<lambda>_. HO_response 200 (Inr weak_match)), sv_lei_get = (\<lambda>_. HO_response 404 (Inl '''')),
     sv_fingerprint = \<lparr>fp_dumps = json_words, fp_sha256 = (\<lambda>x. x)\<rparr>, sv_show = (\<lambda>_. ''error'')\<rparr>"

definition partner_book :: compliance where
  "partner_book = \<lparr>co_db = empty_db\<lparr>partners := [acme_partner], next_uuid := 1\<rparr>, co_screenings = [], co_adjudications = []\<rparr>"

lemma sample_entity: "entity_of (co_db partner_book) SPT_commercial 0 = Some (of_partner acme_partner)"
  by (simp add: partner_book_def get_partner_def acme_partner_def new_partner_def)

lemma sample_match:
  "screen_entity screening_env name country tax lei = Inr \<lparr>mr_top_score = 3 / 10, mr_match_count = 1,
     mr_matches = [R_obj [(''score'', R_num (3 / 10))]], mr_dataset_version = None, mr_algorithm = ''logic-v2''\<rparr>"
proof -
  have "strip ''key'' \<noteq> ''''" by code_simp
  then show ?thesis
    by (simp add: screen_entity_def screening_env_def is_success_def parse_match_reply_def weak_match_def parse_results_def
        provider_error_def bad_score_def finite_value_def Let_def)
qed

lemma sample_sels:
  "sv_enabled screening_env" "sv_review_threshold screening_env = 7 / 10" "sv_hard_threshold screening_env = 9 / 10"
  "next_uuid (co_db partner_book) = 1" "partners (co_db partner_book) = [acme_partner]" "co_screenings partner_book = []"
  "par_id acme_partner = 0" "\<not> par_is_deleted acme_partner"
  by (simp_all add: screening_env_def partner_book_def acme_partner_def new_partner_def)

lemma sample_screen:
  obtains c1 where "screen screening_env 1 ''ana'' SPT_commercial 0 partner_book = (c1, Inr 1)"
    "entity_of (co_db c1) SPT_commercial 0 = Some (of_partner acme_partner\<lparr>en_status := SAN_clear\<rparr>)"
    "partners (co_db c1) = [acme_partner\<lparr>par_sanctions_status := SAN_clear\<rparr>]"
proof -
  let ?r = "screen screening_env 1 ''ana'' SPT_commercial 0 partner_book"
  note ev = screen_def load_entity_def require_def sample_match Let_def sample_entity sample_sels
  have "snd ?r = Inr 1" by (simp add: ev del: entity_of.simps One_nat_def)
  then have 1: "?r = (fst ?r, Inr 1)" by (metis prod.collapse)
  have 2: "partners (co_db (fst ?r)) = [acme_partner\<lparr>par_sanctions_status := SAN_clear\<rparr>]"
    by (simp add: ev map_score_to_result_def write_partner_def del: entity_of.simps)
  have "entity_of (co_db (fst ?r)) SPT_commercial 0 = Some (of_partner acme_partner\<lparr>en_status := SAN_clear\<rparr>)"
    using 2 by (simp add: get_partner_def of_partner_def sample_sels)
  then show thesis using that 1 2 by blast
qed

lemma sample_unscreened: "unscreened_start partner_book"
  by (simp add: unscreened_start_def partner_book_def acme_partner_def new_partner_def empty_db_def)

lemma sample_partners_wf: "partners_wf (co_db partner_book)"
  by (simp add: partners_wf_def partner_book_def keyed_def live_tax_ids_def acme_partner_def new_partner_def partner_typed_def)

lemma sample_partner_run: "screen screening_env 1 ''ana'' SPT_commercial 0 partner_book = (c1, res) \<Longrightarrow> compliance_run screening_env partner_book 1 c1"
  by (rule run_step[OF run_start[of _ _ 0] screened]) simp_all

theorem sanctions_status_has_evidence_witness:
  "\<exists>c1 r. screen screening_env 1 ''ana'' SPT_commercial 0 partner_book = (c1, Inr 1)
     \<and> latest_screening c1 SPT_commercial 0 = Some r \<and> effective_sanctions_status c1 SPT_commercial 0 = Some SAN_clear"
proof -
  obtain c1 where c1: "screen screening_env 1 ''ana'' SPT_commercial 0 partner_book = (c1, Inr 1)"
    "entity_of (co_db c1) SPT_commercial 0 = Some (of_partner acme_partner\<lparr>en_status := SAN_clear\<rparr>)" by (rule sample_screen)
  have "en_status (of_partner acme_partner\<lparr>en_status := SAN_clear\<rparr>) \<noteq> SAN_unscreened" by simp
  from sanctions_status_has_evidence[OF sample_partner_run[OF c1(1)] sample_unscreened c1(2) this] show ?thesis using c1(1) by auto
qed

theorem partner_table_well_formed_witness:
  "\<exists>c1. screen screening_env 1 ''ana'' SPT_commercial 0 partner_book = (c1, Inr 1) \<and> partners_wf (co_db c1)"
proof -
  obtain c1 where c1: "screen screening_env 1 ''ana'' SPT_commercial 0 partner_book = (c1, Inr 1)" by (rule sample_screen)
  from partner_table_well_formed[OF sample_partner_run[OF this] sample_partners_wf] show ?thesis using c1 by blast
qed

theorem approval_needs_clear_identity_witness:
  "\<exists>c1 s1 r. screen screening_env 1 ''ana'' SPT_commercial 0 partner_book = (c1, Inr 1)
     \<and> set_partner_kyc (co_db c1) 0 KYC_approved = Inr (s1, KYC_pending)
     \<and> latest_screening c1 SPT_commercial 0 = Some r \<and> ss_query_hash r = ''BRA/-Acme/-''"
proof -
  obtain c1 where c1: "screen screening_env 1 ''ana'' SPT_commercial 0 partner_book = (c1, Inr 1)"
    "partners (co_db c1) = [acme_partner\<lparr>par_sanctions_status := SAN_clear\<rparr>]" by (rule sample_screen)
  then obtain s1 where s1: "set_partner_kyc (co_db c1) 0 KYC_approved = Inr (s1, KYC_pending)"
    by (simp add: set_partner_kyc_def get_partner_def acme_partner_def new_partner_def)
  obtain p r where "get_partner (co_db c1) 0 = Some p" "latest_screening c1 SPT_commercial 0 = Some r"
      "ss_query_hash r = identity_hash screening_env (map (par_text p) [''name'', ''country'', ''tax_id'', ''lei''])"
    using approval_needs_clear_identity[OF sample_partner_run[OF c1(1)] sample_unscreened disjI1[OF s1]] by blast
  moreover from this(1) have "p = acme_partner\<lparr>par_sanctions_status := SAN_clear\<rparr>"
    using c1(2) by (simp add: get_partner_def acme_partner_def new_partner_def)
  ultimately show ?thesis using c1(1) s1 by (auto simp: identity_hash_def sha256_json_def screening_env_def acme_partner_def new_partner_def)
qed

theorem screening_fails_closed_witness:
  "\<exists>c1 x. screen screening_env 1 ''ana'' SPT_commercial 0 partner_book = (c1, Inr 1)
     \<and> co_screenings c1 = [x] \<and> ss_partner_id x = 0 \<and> weak_answer screening_env (entity_query (of_partner acme_partner))"
proof -
  obtain c1 where c1: "screen screening_env 1 ''ana'' SPT_commercial 0 partner_book = (c1, Inr 1)"
    "entity_of (co_db c1) SPT_commercial 0 = Some (of_partner acme_partner\<lparr>en_status := SAN_clear\<rparr>)" by (rule sample_screen)
  have "en_status (of_partner acme_partner\<lparr>en_status := SAN_clear\<rparr>) = SAN_clear" by simp
  with screening_fails_closed[OF c1(1)] c1(2) show ?thesis
    unfolding sum.case sample_entity sample_sels option.inject using c1(1) by auto
qed

section \<open>The daily job\<close>

text \<open>The job is a run of screenings; each target is counted once, and a failure stops nothing.\<close>

lemma rescreen_loop_run:
  assumes "compliance_run env c0 now c" and "now < clock n" and "\<And>k. clock k < clock (Suc k)"
    and "rescreen_loop env clock n targets c done_ok errors = (c', a, b)"
  shows "(\<exists>now'. compliance_run env c0 now' c') \<and> a + b = done_ok + errors + length targets"
  using assms(1,2,4)
proof (induction targets arbitrary: n c now done_ok errors)
  case (Cons x targets)
  obtain t i where x: "x = (t, i)" by fastforce
  obtain c1 r where s: "screen env (clock n) ''service:sanctions_screening'' t i c = (c1, r)" by fastforce
  have run: "compliance_run env c0 (clock n) c1" by (rule run_step[OF Cons.prems(1) screened[OF s] Cons.prems(2)])
  show ?case
    using Cons.prems(3) s x Cons.IH[OF run assms(3)] by (cases r) fastforce+
qed auto

section \<open>Two errors that are not translated\<close>

text \<open>An empty tax identifier skips the check of the route and meets the index of the table.\<close>

lemma blank_tax_id_reaches_index:
  assumes "p \<in> set (partners s)" "\<not> par_is_deleted p" "par_text p ''tax_id'' = Some ''''" "pc_text payload ''tax_id'' = Some ''''"
  shows "post_partner s now payload = Inl (IntegrityError (Msg ''uq_commercial_partners_tax_id'' []))"
proof -
  have "'''' \<in> set (live_tax_ids s)" using assms(1-3) by (auto simp: live_tax_ids_def intro!: bexI[of _ p])
  then have "\<not> distinct (live_tax_ids (s\<lparr>partners := partners s @ [new_partner (next_uuid s) now payload], next_uuid := Suc (next_uuid s)\<rparr>))"
    using assms(4) by (auto simp: live_tax_ids_def new_partner_def)
  then show ?thesis using assms(4) by (simp add: post_partner_def create_partner_def flush_partners_def)
qed

text \<open>A register answer whose \<open>entity\<close> is a text raises an exception that the validation does not
  catch.\<close>

lemma register_text_entity_raises:
  assumes "sv_lei_get env lei = HO_response 200 (Inr (R_obj [(''data'', R_obj [(''attributes'',
      R_obj [(''registration'', R_obj [(''status'', R_str ''ISSUED'')]), (''entity'', R_str ''Acme'')])])]))"
    and "get_partner s i = Some p" "par_text p ''lei'' = Some lei" "lei_checksum_ok lei" "strip lei \<noteq> ''''"
  shows "validate_lei env now actor i s = Inl attribute_error"
  using assms by (simp add: validate_lei_def require_def lei_outcome_def fetch_lei_record_def is_success_def parse_lei_record_def
      object_or_empty_def Let_def)

end
