(* ===== verification/Spec2Isabelle.thy ===== *)
theory Spec2Isabelle
  imports HC_System LME_Calendar Pagination Award_Gate RFQ_Outbox Deal_PnL_Examples Pipeline_Examples Net_Exposure Compliance_Types
begin

text \<open>
  Verification of the backend of the Hedge Control platform (\<open>src/backend/app\<close>), a FastAPI
  application that keeps the physical orders of a metal trader, the hedge contracts that cover
  them, the requests for quote through which hedges are bought, and the exposure that is left.

  The program. Routes (\<open>api/routes\<close>) decode a request and call a service (\<open>services\<close>) inside a
  unit of work, which commits or rolls back one database session; background jobs
  (\<open>tasks\<close>) call the same services. All state is in the database. Orders and contracts are joined
  by linkages; deals collect orders and contracts and store totals derived from them; the
  exposure engine derives exposures and hedge tasks from orders and linkages; settlements write
  a cash-flow ledger; requests for quote end in contracts; large mutations need an approval.

  The state is one record, \<open>db\<close> of HC_Models, with a list of rows for each table the
  modelled services touch and the counter that issues identifiers. An operation is a function from the state and
  its inputs to \<open>result\<close>, that is \<open>Inl\<close> of the exception the code raises, in which case the unit of
  work rolls back, or \<open>Inr\<close> of the new state and the value returned. Operations that commit in
  the middle, or leave an audit event behind when they are refused, return the committed state
  beside the result.

  Representation. A \<open>Decimal\<close> is an exact rational with the code's quantisation, half to even, to a given number of
  decimals; a UUID is a number drawn from the counter; a datetime is its microseconds; texts are
  lists of characters; an f-string of an error keeps its template and arguments. The current time, random references and the
  results of libraries the sources only call (SHA-256 and HMAC, JSON and what a JSON column gives back, the text of a decimal, the
  sending of a message) are arguments; so is \<open>col\<close>, what a NUMERIC column with six decimals keeps of a value, with
  the hypothesis that it returns the nearest multiple of a millionth where a property needs it.

  Theories, in the order in which they build on each other:
  \<^item> HC_Prelude: results, tables of rows with keys, sums over filtered rows, texts. HC_Decimal:
    \<open>core/precision.py\<close>. HC_Dates: the calendar of \<open>datetime.date\<close>.
  \<^item> LME_Calendar and Market_Calendar: \<open>services/lme_calendar.py\<close> and \<open>utils/market_calendar.py\<close>;
    Price_Lookup: \<open>services/price_lookup_service.py\<close>, names of commodities and the price of the
    prior business day. The searches over days are recursive functions with termination proofs; nothing
    carries fuel, and leaving Python's range of dates is an error of the model as of the code.
    The locale \<open>price_oracle\<close> is what the users of a price may assume.
  \<^item> HC_Models: the rows of \<open>models\<close>. HC_Examples and Price_Examples: small states on which the
    properties are instantiated.
  \<^item> Audit_Trail (\<open>services/audit_trail_service.py\<close>): the append the services use, and the signed
    rows it abstracts.
  \<^item> Deal_Engine (\<open>services/deal_engine.py\<close>): deals, links, the totals of a deal and the rules that a
    hedge in a deal has an order to hedge; the locale \<open>deal_refresh\<close> is what the services that
    archive an order or a contract rely on.
  \<^item> Linkage (\<open>services/linkage_service.py\<close>): the locale \<open>allocation\<close> states what one side
    of a linkage, order or contract, owes the other; both sides interpret it, and the capacity
    invariant rests on it.
  \<^item> Lifecycle: status columns that only move forward, as a locale; Contract_Service
    (\<open>services/contract_service.py\<close>) interprets it for contracts.
  \<^item> Order_Service (\<open>services/order_service.py\<close>): creation behind the commercial-partner gate,
    archiving, pairing of sales and purchases.
  \<^item> Exposure_Engine (\<open>services/exposure_engine.py\<close>) and Exposure_Service
    (\<open>services/exposure_service.py\<close>): reconciliation, hedge tasks and the two snapshots.
  \<^item> Cashflow_Ledger (\<open>services/cashflow_ledger_service.py\<close>): settlement of a contract and its replay.
  \<^item> Pagination (\<open>core/pagination.py\<close>): keyset pagination over any listing.
  \<^item> Workflow_Approval (\<open>services/workflow_approval_service.py\<close>): the life of an approval; the locale
    \<open>mutation_executor\<close> is what consuming an approval asks of the mutation it carries out.
    Approval_Gate: the gated settlement and deal routes with \<open>services/deal_notional.py\<close>.
  \<^item> Counterparty_Service (\<open>services/counterparty_service.py\<close>, \<open>services/kyc_gate.py\<close>): the master
    data of counterparties, their KYC status and the gate that asks for it.
  \<^item> RFQ_Ranking and RFQ_Service (\<open>services/rfq_service.py\<close>): the ranking of quotes and every operation on a request for quote.
    RFQ_Frame: the locales \<open>outbox_frame\<close> and \<open>request_frame\<close>, for relations between states that do not see the outbox or
    the tables of the service; every operation but an award stays inside them, and an award
    adds only the contracts it books. RFQ_Lifecycle: the invariant of the state machine.
    RFQ_Examples and RFQ_Outbox: a run with two brokers, and what is sent.
  \<^item> Award_Gate: the award route and the award branch of the consume route, with the comparison of quotes
    approved and quotes current.
  \<^item> Provenance (\<open>utils/provenance.py\<close>): the JSON value a row is hashed from. Snapshot_Store: the
    locale of a service that stores one row for a key and answers a repetition from it; the four
    snapshot services interpret it.
  \<^item> Valuation (\<open>services/mtm_contract_service.py\<close>, \<open>services/mtm_order_service.py\<close>,
    \<open>services/pl_calculation_service.py\<close>) and Valuation_Snapshots
    (\<open>services/mtm_snapshot_service.py\<close>, \<open>services/pl_snapshot_service.py\<close>): mark-to-market, the
    P&L of a period, and their stored snapshots.
  \<^item> Deal_PnL: the P&L snapshot of a deal and the breakdown of \<open>services/deal_engine.py\<close>;
    Deal_PnL_Examples: a deal with a purchase, a sale and a hedge.
  \<^item> Cashflow_Views: \<open>services/cashflow_analytic_service.py\<close>,
    \<open>services/cashflow_baseline_service.py\<close>, \<open>services/cashflow_projection_service.py\<close>.
  \<^item> Finance_Pipeline (\<open>services/finance_pipeline_service.py\<close>): the daily run of six steps over the
    services above, its locks, resumption and risk flags. Pipeline_Runs: the invariant of stored
    runs; Pipeline_Examples: a day with one contract.
  \<^item> Commercial_Partners (\<open>services/commercial_partner_service.py\<close>): customers and suppliers with
    their approval and credit. Lei_Check: the checksum of \<open>services/lei_validation_service.py\<close>.
    Sanctions_Screening: \<open>services/sanctions_screening_service.py\<close>,
    \<open>services/opensanctions_client.py\<close>, the rest of the identifier validation with
    \<open>services/gleif_client.py\<close>, and the daily job; its two tables stand beside \<open>db\<close> in the record
    \<open>compliance\<close>. Compliance_Runs and Compliance_Types: all operations on partners as one step
    relation, and its invariants.
  \<^item> Net_Exposure: \<open>compute_net_exposure\<close> of \<open>services/exposure_engine.py\<close>.
  \<^item> HC_System: one step relation over all services, and its invariant; this theory: the
    properties of reachable states.

  What the lemmas show. Over all reachable states hedges are never over-allocated, awards
  included, the exposure jobs fail only on an order of negative quantity, a contract is settled at most once and its status
  never goes back, and stored totals of deals are exact as long as no contract quantity is
  edited (which the code does not recompute). A request for quote is awarded at most once, its
  state is the replay of its log, what is sent is what was stored, and an award books the best
  price. Mutations above the threshold happen only as approved, by
  somebody else than the requester. The values of a deal are the exact sum of its live links and
  do not move with the market when the deal is hedged; the two ways to compute them agree, P&L
  adds up over periods, a settlement turns mark-to-market into realised profit, and stored
  snapshots are never rewritten. The daily pipeline runs each step of a day at most once, and a
  contract it does not value has a risk flag. Net and global exposure, computed from different
  tables, agree after a reconciliation. A sanctions status always rests on a screening of the identity
  a partner has now, screening fails closed, and approval and credit need a clear one. Each service has its functional properties in its theory:
  accepted exactly when, rows of a report, amounts of a settlement, idempotence of a replay.
  The facts proved about unwanted behaviour are listed as findings of the manifest: for example
  \<open>Deal_Engine\<close>, where adding the order last escapes the direction check, and
  \<open>Approval_Gate.add_link_bypasses_gate\<close>.

  Assumptions. Clients that link an entity to a deal present identifiers that have been issued
  (HC_System); a request runs alone, row locks are not modelled; the session does not
  flush by itself, as configured in \<open>core/database.py\<close>. Request bodies are what the schemas produce;
  their limits on the number of digits and the 28 digits of Python's decimal context are not
  modelled, so sums and products are exact. Texts are ASCII; \<open>upper\<close> and \<open>casefold\<close> of other characters, of
  which some become ASCII letters, are not modelled.

  Not modelled: scenarios, market-data ingestion, the text engine and the conversation of the request
  orchestrator, WhatsApp and the language model, authentication, rate limits and the scheduler. These
  are derived views, clients of external services or I/O.
\<close>

section \<open>A run of the system\<close>

definition sample_contract_payload :: HedgeContractCreate where
  "sample_contract_payload = \<lparr>hcc_commodity = ''COPPER'', hcc_quantity_mt = 10,
     hcc_legs = [\<lparr>leg_side = Leg_sell, leg_price_type = Lp_fixed\<rparr>, \<lparr>leg_side = Leg_buy, leg_price_type = Lp_variable\<rparr>],
     hcc_counterparty_id = None, hcc_fixed_price_value = Some 9000, hcc_fixed_price_unit = None,
     hcc_float_pricing_convention = None, hcc_premium_discount = None, hcc_pricing_period_month = None,
     hcc_pricing_period_year = None, hcc_fixing_date = None, hcc_avg_computation_days = None,
     hcc_settlement_date = None, hcc_prompt_date = None, hcc_trade_date = None, hcc_source_type = None, hcc_notes = None\<rparr>"

definition partner_db :: db where
  "partner_db = empty_db\<lparr>partners := [sample_partner], next_uuid := 8\<rparr>"

lemma sample_run:
  obtains s2 s3 s4 where
    "create_order partner_db 0 OT_sales (sample_payload 10) None = (s2, Inr 8)"
    "post_contract s2 0 (Date 2026 3 11) ''HC-1'' sample_contract_payload None = Inr (s3, 9)"
    "post_linkage s3 0 8 9 4 = Inr (s4, 10)"
    "length (linkages s4) = 1" "joined hedge_live (get_contract s4 9)" "orders s4 = [new_order 8 0 OT_sales (sample_payload 10)]"
proof -
  have s2: "create_order partner_db 0 OT_sales (sample_payload 10) None =
      (partner_db\<lparr>orders := [new_order 8 0 OT_sales (sample_payload 10)], next_uuid := 9\<rparr>, Inr 8)"
    by (simp add: order_eval partner_db_def empty_db_def)
  obtain s3 where s3: "post_contract (partner_db\<lparr>orders := [new_order 8 0 OT_sales (sample_payload 10)], next_uuid := 9\<rparr>)
      0 (Date 2026 3 11) ''HC-1'' sample_contract_payload None = Inr (s3, 9)"
    "get_order s3 8 = Some (new_order 8 0 OT_sales (sample_payload 10))" "linkages s3 = []" "next_uuid s3 = 10"
    "orders s3 = [new_order 8 0 OT_sales (sample_payload 10)]"
    and c: "\<exists>c. get_contract s3 9 = Some c \<and> hc_deleted_at c = None \<and> hc_status c = HS_active
      \<and> hc_commodity c = ''COPPER'' \<and> hc_classification c = HC_short \<and> hc_quantity_mt c = 10"
    by (simp add: post_contract_def validate_structure_def create_contract_def first_leg_def sample_contract_payload_def
        partner_db_def empty_db_def get_defs new_order_def)
  obtain s4 where "post_linkage s3 0 8 9 4 = Inr (s4, 10)" "length (linkages s4) = 1" "get_contract s4 9 = get_contract s3 9"
      "orders s4 = orders s3"
    using s3(2-4) c
    by (auto simp: post_linkage_def validate_linkage_payload_def create_linkage_def new_order_def sample_payload_def
        hedge_open_def validate_linkage_direction_def order_linked_qty_def contract_linked_qty_def Let_def get_contract_def)
  with s2 s3 c that show ?thesis by (auto simp: hedge_live_def hedge_open_def)
qed

lemma sample_orders_exposed:
  "orders s = [new_order 8 0 OT_sales (sample_payload q)] \<Longrightarrow> exposed_orders_nonneg s \<longleftrightarrow> 0 \<le> quantize_mt q"
  by (auto simp: exposed_orders_nonneg_def order_live_def new_order_def sample_payload_def)

lemma reachable_run: "reachable partner_db"
proof -
  have "system_step empty_db partner_db"
    using reference_data[where s = empty_db and n = 8 and ps = "[sample_partner]" and cps = "[]" and prs = "[]"
        and aps = "[]" and pls = "[]" and aes = "[]" and sns = "[]"]
    by (simp add: partner_db_def empty_db_def)
  then show ?thesis unfolding reachable_def by (rule r_into_rtranclp)
qed

lemma reachable_step: "reachable s \<Longrightarrow> system_step s s' \<Longrightarrow> reachable s'"
  unfolding reachable_def by (rule rtranclp.rtrancl_into_rtrancl)

lemma sample_reachable:
  obtains s where "reachable s" "length (linkages s) = 1" "joined hedge_live (get_contract s 9)"
    "orders s = [new_order 8 0 OT_sales (sample_payload 10)]"
proof -
  obtain s2 s3 s4 where r: "create_order partner_db 0 OT_sales (sample_payload 10) None = (s2, Inr 8)"
    "post_contract s2 0 (Date 2026 3 11) ''HC-1'' sample_contract_payload None = Inr (s3, 9)"
    "post_linkage s3 0 8 9 4 = Inr (s4, 10)" "length (linkages s4) = 1" "joined hedge_live (get_contract s4 9)"
    "orders s4 = [new_order 8 0 OT_sales (sample_payload 10)]"
    by (rule sample_run)
  have "reachable s2"
    using reachable_run order_created[OF r(1)] reachable_step by blast
  then have "reachable s3"
    using contract_written[OF cs_create[OF r(2)]] reachable_step by blast
  then have "reachable s4"
    using hedge_linked[OF r(3)] reachable_step by blast
  with r(4-6) that show ?thesis by blast
qed

text \<open>An order of negative quantity, which the schema of orders accepts.\<close>

lemma negative_order_reachable:
  obtains s where "reachable s" "orders s = [new_order 8 0 OT_sales (sample_payload (- 5))]"
proof -
  have "create_order partner_db 0 OT_sales (sample_payload (- 5)) None =
      (partner_db\<lparr>orders := [new_order 8 0 OT_sales (sample_payload (- 5))], next_uuid := 9\<rparr>, Inr 8)"
    by (simp add: order_eval partner_db_def empty_db_def)
  then have "reachable (partner_db\<lparr>orders := [new_order 8 0 OT_sales (sample_payload (- 5))], next_uuid := 9\<rparr>)"
    using reachable_run order_created reachable_step by blast
  then show ?thesis by (rule that) simp
qed

section \<open>Properties of the system\<close>

text \<open>C1: Hedges are never over-allocated. In every reachable state the quantity linked to an order
  by live hedges is at most the order's quantity, and nothing is linked to an order of negative
  quantity, which the API accepts; and the quantity of a hedge linked to live orders is at most the
  hedge's quantity.\<close>

theorem capacity_never_exceeded:
  assumes "reachable s"
  shows "(\<forall>r \<in> set (orders s). order_linked_qty s (ord_id r) \<le> max 0 (quantize_mt (ord_quantity_mt r)))
    \<and> (\<forall>c \<in> set (contracts s). contract_linked_qty s (hc_id c) \<le> quantize_mt (hc_quantity_mt c))"
proof -
  have inv: "capacity_inv s" using reachable_inv[OF assms] by (simp add: book_inv_def)
  then have "keyed ord_id (orders s)" "keyed hc_id (contracts s)"
    by (simp_all add: capacity_inv_def capacity_keys_wf_def)
  then have "order_capacity s (ord_id r) = Some (max 0 (ord_quantity_mt r))" if "r \<in> set (orders s)" for r
    using that by (simp add: order_capacity_def get_order_def get_row_keyed)
  moreover have "contract_capacity s (hc_id c) = Some (hc_quantity_mt c)" if "c \<in> set (contracts s)" for c
    using that \<open>keyed hc_id (contracts s)\<close> by (simp add: contract_capacity_def get_contract_def get_row_keyed)
  moreover have "quantize_mt (max 0 q) \<le> max 0 (quantize_mt q)" for q
    using mt.q_zero by (cases "0 \<le> q") (auto simp: max_def)
  ultimately show ?thesis
    using capacity_invD[OF inv] by (metis order_trans)
qed

theorem capacity_never_exceeded_witness:
  "\<exists>s. reachable s \<and> length (linkages s) = 1
     \<and> (\<forall>r \<in> set (orders s). order_linked_qty s (ord_id r) \<le> max 0 (quantize_mt (ord_quantity_mt r)))"
  using sample_reachable capacity_never_exceeded by metis

text \<open>C2: The exposure jobs fail on a reachable state for one reason only. Whatever requests were served before and
  in what order, the reconciliation returns, and each of the two exposure snapshots is computed,
  exactly when every live variable-price order has a quantity that is not negative after rounding;
  hedges and linkages are never the cause of a failure.\<close>

theorem exposure_jobs_return:
  assumes "reachable s"
  shows "((\<exists>s' run sm. reconcile_from_orders s now = Inr (s', run, sm)) \<longleftrightarrow> exposed_orders_nonneg s)
    \<and> (is_ok (compute_commercial_snapshot s now) \<longleftrightarrow> exposed_orders_nonneg s)
    \<and> (is_ok (compute_global_snapshot s now) \<longleftrightarrow> exposed_orders_nonneg s)"
proof -
  have inv: "capacity_inv s" using reachable_inv[OF assms] by (simp add: book_inv_def)
  then have "linkages_wf s" by (simp add: capacity_inv_def)
  then show ?thesis
    using reconcile_succeeds[OF inv, of now] reconcile_needs_nonneg[of s now] snapshots_succeed[OF inv, of now] by blast
qed

theorem exposure_jobs_return_witness:
  "(\<exists>s. reachable s \<and> length (linkages s) = 1 \<and> is_ok (compute_global_snapshot s 9)
      \<and> (\<exists>s' run sm. reconcile_from_orders s 9 = Inr (s', run, sm)))
   \<and> (\<exists>s. reachable s \<and> \<not> is_ok (compute_global_snapshot s 9))"
proof -
  obtain s where s: "reachable s" "length (linkages s) = 1" "orders s = [new_order 8 0 OT_sales (sample_payload 10)]"
    by (rule sample_reachable)
  then have "exposed_orders_nonneg s" by (simp add: sample_orders_exposed)
  note s = s this
  obtain t where t: "reachable t" "orders t = [new_order 8 0 OT_sales (sample_payload (- 5))]"
    by (rule negative_order_reachable)
  moreover have "\<not> 0 \<le> quantize_mt (- 5)" by code_simp
  ultimately have "\<not> exposed_orders_nonneg t" by (simp add: sample_orders_exposed)
  then show ?thesis using exposure_jobs_return[of _ 9] s t by blast
qed

text \<open>C8: In every reachable state each contract has been settled at most once, a settled contract
  is not open, and the ledger holds exactly one fixed and one floating entry for each
  settlement event.\<close>

theorem settled_at_most_once:
  assumes "reachable s"
  shows "distinct (map se_hedge_contract_id (settlement_events s))
    \<and> (\<forall>ev \<in> set (settlement_events s).
        joined (\<lambda>c. \<not> hedge_open c) (get_contract s (se_hedge_contract_id ev))
        \<and> mset (map le_leg_id (filter (\<lambda>e. le_source_event_id e = Some (se_id ev)) (ledger_entries s))) = {#''FIXED'', ''FLOAT''#})"
  using ledger_invD[of s] reachable_inv[OF assms] by (simp add: book_inv_def)

theorem settled_at_most_once_witness:
  "\<exists>s. reachable s \<and> length (linkages s) = 1 \<and> distinct (map se_hedge_contract_id (settlement_events s))"
  using sample_reachable settled_at_most_once by metis

text \<open>C9: A contract row is never lost and its status never goes back: in every run its status
  stays or moves forward from active over partially settled and settled to cancelled; so a
  contract that is settled or cancelled is never open again.\<close>

theorem contract_status_forward:
  assumes "reachable s" and "system_step\<^sup>*\<^sup>* s s'" and "get_contract s i = Some c"
  shows "\<exists>c'. get_contract s' i = Some c'
    \<and> (hc_status c' = hc_status c \<or> contract_rank (hc_status c) < contract_rank (hc_status c'))
    \<and> (\<not> hedge_open c \<longrightarrow> \<not> hedge_open c')"
proof -
  have f: "contracts_follow\<^sup>*\<^sup>* (contracts s) (contracts s')"
    using run_follows[OF assms(2) reachable_system_inv[OF assms(1)]] by simp
  obtain c' where c': "get_contract s' i = Some c'" "contract_moves\<^sup>*\<^sup>* (hc_status c) (hc_status c')"
    using contract_status.runs_follow[OF f assms(3)[unfolded get_contract_def]] unfolding get_contract_def by blast
  then have "hc_status c' = hc_status c \<or> contract_rank (hc_status c) < contract_rank (hc_status c')"
    using contract_status.rank_mono by metis
  moreover from this have "\<not> hedge_open c \<longrightarrow> \<not> hedge_open c'"
    by (cases "hc_status c"; cases "hc_status c'") (auto simp: hedge_open_def)
  ultimately show ?thesis using c'(1) by blast
qed

theorem contract_status_forward_witness:
  "\<exists>s s' c c'. reachable s \<and> transition_status s 9 HS_cancelled = Inr s' \<and> get_contract s 9 = Some c \<and> hedge_live c
     \<and> get_contract s' 9 = Some c' \<and> (hc_status c' = hc_status c \<or> contract_rank (hc_status c) < contract_rank (hc_status c'))"
proof -
  obtain s c where s: "reachable s" "get_contract s 9 = Some c" "hedge_live c"
    using sample_reachable by (metis joined_def option.case_eq_if option.collapse)
  then obtain s' where t: "transition_status s 9 HS_cancelled = Inr s'"
    by (cases "hc_status c") (auto simp: transition_status_def hedge_live_def hedge_open_def)
  then have "system_step\<^sup>*\<^sup>* s s'"
    by (blast intro: contract_written cs_transition)
  from contract_status_forward[OF s(1) this s(2)] s t show ?thesis by blast
qed

lemma tons_grid:
  "quantize_mt (sum_list (map (physical_tons_of s) ls)) = sum_list (map (physical_tons_of s) ls)"
  "quantize_mt (sum_list (map (hedge_tons_of s) ls)) = sum_list (map (hedge_tons_of s) ls)"
proof -
  show "quantize_mt (sum_list (map (physical_tons_of s) ls)) = sum_list (map (physical_tons_of s) ls)"
    "quantize_mt (sum_list (map (hedge_tons_of s) ls)) = sum_list (map (hedge_tons_of s) ls)"
    by (induction ls) (simp_all add: mt.q_add_fixed)
qed

text \<open>C5: Deal aggregates are exact. Along every run in which no contract quantity is edited, the
  totals stored in a deal are the sums of the quantities of its live linked orders and hedges,
  the ratio is their quotient rounded to two decimals (zero without physical quantity), and
  the status is the one the ratio determines.\<close>

theorem deal_aggregates_exact:
  assumes "(\<lambda>s s'. system_step s s' \<and> quantities_kept s s')\<^sup>*\<^sup>* empty_db s" and "d \<in> set (deals s)"
  shows "deal_total_physical_tons d = sum_list (map (physical_tons_of s) (links_of_deal s (deal_id d)))
    \<and> deal_total_hedge_tons d = sum_list (map (hedge_tons_of s) (links_of_deal s (deal_id d)))
    \<and> deal_hedge_ratio d = (if 0 < deal_total_physical_tons d
         then quantize_ratio (deal_total_hedge_tons d / deal_total_physical_tons d) else 0)
    \<and> deal_status d = status_of_ratio (deal_hedge_ratio d)"
proof -
  have "reachable s \<and> deals_consistent s"
    using assms(1)
  proof (induction rule: rtranclp_induct)
    case base
    then show ?case by (simp add: reachable_def deals_consistent_def empty_db_def)
  next
    case (step s s')
    then show ?case using system_step_consistent[OF reachable_system_inv] reachable_step by blast
  qed
  then have agg: "aggregate_deal (deal_tons s (deal_id d)) d = d"
    using assms(2) by (simp add: deals_consistent_def deal_consistent_def)
  have upd: "deal_total_physical_tons (aggregate_deal (a, b) x) = quantize_mt a"
    "deal_total_hedge_tons (aggregate_deal (a, b) x) = quantize_mt b"
    "deal_hedge_ratio (aggregate_deal (a, b) x) = (if 0 < a then quantize_ratio (b / a) else 0)"
    "deal_status (aggregate_deal (a, b) x) = status_of_ratio (if 0 < a then quantize_ratio (b / a) else 0)" for a b x
    by (simp_all add: aggregate_deal_def Let_def)
  show ?thesis
    using upd[of "sum_list (map (physical_tons_of s) (links_of_deal s (deal_id d)))"
        "sum_list (map (hedge_tons_of s) (links_of_deal s (deal_id d)))" d]
    unfolding deal_tons_def[symmetric] agg by (simp add: tons_grid)
qed

theorem deal_aggregates_exact_witness:
  "\<exists>s d. (\<lambda>s s'. system_step s s' \<and> quantities_kept s s')\<^sup>*\<^sup>* empty_db s \<and> d \<in> set (deals s)
     \<and> links_of_deal s (deal_id d) \<noteq> [] \<and> deal_status d = status_of_ratio (deal_hedge_ratio d)"
proof -
  let ?R = "\<lambda>s s'. system_step s s' \<and> quantities_kept s s'"
  let ?s2 = "partner_db\<lparr>orders := [new_order 8 0 OT_sales (sample_payload 10)], next_uuid := 9\<rparr>"
  have none: "quantities_kept s s'" if "contracts s = []" for s s'
    using that by (simp add: quantities_kept_def get_contract_def)
  have empty: "contracts empty_db = []" "contracts partner_db = []" "contracts ?s2 = []"
    by (simp_all add: partner_db_def empty_db_def)
  have "create_order partner_db 0 OT_sales (sample_payload 10) None = (?s2, Inr 8)"
    by (simp add: order_eval partner_db_def empty_db_def)
  then have step2: "system_step partner_db ?s2"
    by (rule order_created)
  obtain s where s: "create_deal ?s2 0 ''D-1'' ''copper'' ''COPPER'' [(''sales_order'', 8)] = Inr (s, 9)"
    "deals s \<noteq> []" "map dl_deal_id (deal_links s) = map deal_id (deals s)"
    by (simp add: deal_eval partner_db_def empty_db_def new_order_def recompute_tons_def aggregate_deal_def update_row_def Let_def
        split: prod.split)
  have "system_step ?s2 s"
    by (rule deal_created[OF _ s(1)]) simp
  with step2 have steps: "?R partner_db ?s2" "?R ?s2 s"
    using none[OF empty(2)] none[OF empty(3)] by simp_all
  have start: "?R\<^sup>*\<^sup>* empty_db partner_db"
    using reference_data[where s = empty_db and n = 8 and ps = "[sample_partner]" and cps = "[]" and prs = "[]"
        and aps = "[]" and pls = "[]" and aes = "[]" and sns = "[]"] none[OF empty(1)]
    by (intro r_into_rtranclp) (simp add: partner_db_def empty_db_def)
  have run: "?R\<^sup>*\<^sup>* empty_db s"
    using rtranclp.rtrancl_into_rtrancl[where r = ?R, OF rtranclp.rtrancl_into_rtrancl[where r = ?R, OF start steps(1)] steps(2)] .
  obtain d where d: "d \<in> set (deals s)" using s(2) by (cases "deals s") auto
  then have "deal_id d \<in> dl_deal_id ` set (deal_links s)" using s(3) by (metis image_eqI list.set_map)
  then have "links_of_deal s (deal_id d) \<noteq> []"
    by (auto simp: links_of_deal_def filter_empty_conv)
  with run d show ?thesis using deal_aggregates_exact[OF run d] by blast
qed

end
